(* ===== verification/Prelude.thy ===== *)
theory Prelude
  imports Complex_Main "HOL-Library.Word"
begin

text \<open>
  Shared ground of the development: the machine integers of the code, the collections of
  rules the component theories add to, and the generic lemmas on lists and options.

  A C buffer \<open>char buf[N]\<close> holds a NUL-terminated string; it is a \<open>string\<close> of
  length below \<open>N\<close>, the characters before the terminator. Arrays with a count
  (\<open>x[N]\<close> and \<open>n_x\<close>) are lists; the bound \<open>N\<close> is an invariant.
\<close>

type_synonym u8 = "8 word"
type_synonym u32 = "32 word"
type_synonym u64 = "64 word"

text \<open>
  \<open>buf_bounds\<close> collects the facts "what was written fits its buffer";
  \<open>wf_rules\<close> the preservation lemmas of the components' invariants.
\<close>

named_theorems buf_bounds
named_theorems wf_rules

subsection \<open>Lists and options\<close>

lemma length_dropWhile_less: "dropWhile P xs = y # ys \<Longrightarrow> length ys < length xs"
  by (metis Suc_less_eq length_Cons length_dropWhile_le le_imp_less_Suc)

lemma length_dropWhile_less': "y # ys = dropWhile P xs \<Longrightarrow> length ys < length xs"
  by (metis length_dropWhile_less)

lemma dropWhile_neq_length: "dropWhile P xs \<noteq> xs \<Longrightarrow> length (dropWhile P xs) < length xs"
  by (cases xs) (auto simp: le_imp_less_Suc length_dropWhile_le split: if_splits)

lemma takeWhile_dropWhile_cons:
  assumes "dropWhile P xs = y # ys"
  shows "xs = takeWhile P xs @ y # ys"
  using assms by (metis takeWhile_dropWhile_id)

lemma dropWhile_hd_not: "dropWhile P xs = y # ys \<Longrightarrow> \<not> P y"
  by (metis hd_dropWhile list.distinct(1) list.sel(1))

lemma find_Some_iff_nth:
  "List.find P xs = Some x \<longleftrightarrow>
     (\<exists>i < length xs. P (xs ! i) \<and> x = xs ! i \<and> (\<forall>j < i. \<not> P (xs ! j)))"
  by (rule find_Some_iff)

text \<open>The index of the first entry that satisfies a predicate: a C search loop.\<close>

fun first_index :: "('a \<Rightarrow> bool) \<Rightarrow> 'a list \<Rightarrow> nat option" where
  "first_index P [] = None"
| "first_index P (x # xs) = (if P x then Some 0 else map_option Suc (first_index P xs))"

lemma first_index_Some:
  "first_index P xs = Some i \<Longrightarrow> i < length xs \<and> P (xs ! i) \<and> (\<forall>j < i. \<not> P (xs ! j))"
proof (induction xs arbitrary: i)
  case Nil
  then show ?case by simp
next
  case (Cons x xs)
  show ?case
  proof (cases "P x")
    case True
    with Cons.prems show ?thesis by simp
  next
    case False
    with Cons.prems obtain k where k: "first_index P xs = Some k" "i = Suc k"
      by auto
    with Cons.IH[of k] False show ?thesis
      by (auto simp: nth_Cons split: nat.splits)
  qed
qed

lemma first_index_None: "first_index P xs = None \<longleftrightarrow> (\<forall>x \<in> set xs. \<not> P x)"
  by (induction xs) auto

lemma first_index_map: "first_index P (map f xs) = first_index (P \<circ> f) xs"
  by (induction xs) simp_all

lemma first_index_mem:
  assumes "first_index P xs = Some i"
  shows "xs ! i \<in> set xs"
  using first_index_Some[OF assms] by simp

lemma distinct_append_snoc: "distinct (xs @ [x]) \<longleftrightarrow> distinct xs \<and> x \<notin> set xs"
  by auto

lemma distinct_singleton:
  assumes "distinct xs" "set xs = {a}"
  shows "xs = [a]"
proof -
  have "length xs = 1" using assms distinct_card[of xs] by simp
  then show ?thesis using assms(2) by (cases xs) auto
qed

lemma set_list_update_memI: "y \<in> set (xs[i := x]) \<Longrightarrow> y = x \<or> y \<in> set xs"
  by (meson insertE set_update_subset_insert subsetD)

end
