(* ===== verification/CLib.thy ===== *)
theory CLib
  imports Prelude
begin

text \<open>
  The parts of the C library the program's string code is written with, in the C locale:
  bounded copies (\<open>hes_strlcpy\<close> of common/hes_common.h and the \<open>snprintf("%s")\<close>
  and \<open>copy_str\<close> copies that behave the same), character classes, decimal printing,
  \<open>strtol\<close> and \<open>atoi\<close>. \<open>strtol\<close> saturates at 64 bits and \<open>atoi\<close>
  truncates its result to 32 bits, as the library the gateway links does.
\<close>

section \<open>Bounded copies\<close>

definition hes_strlcpy :: "nat \<Rightarrow> string \<Rightarrow> string" where
  "hes_strlcpy dstsz src =
     (let n = length src;
          n = (if n \<ge> dstsz then dstsz - 1 else n)
      in take n src)"

lemma hes_strlcpy_take: "hes_strlcpy cap s = take (cap - 1) s"
  by (simp add: hes_strlcpy_def Let_def)

lemma hes_strlcpy_bound [buf_bounds]: "0 < cap \<Longrightarrow> length (hes_strlcpy cap s) < cap"
  by (simp add: hes_strlcpy_take)

lemma hes_strlcpy_id: "length s < cap \<Longrightarrow> hes_strlcpy cap s = s"
  by (simp add: hes_strlcpy_take)

lemma hes_strlcpy_Nil [simp]: "hes_strlcpy cap [] = []"
  by (simp add: hes_strlcpy_take)

lemma hes_strlcpy_idem [simp]: "hes_strlcpy cap (hes_strlcpy cap s) = hes_strlcpy cap s"
  by (simp add: hes_strlcpy_take)

section \<open>Characters\<close>

definition c_isdigit :: "char \<Rightarrow> bool" where
  "c_isdigit c \<longleftrightarrow> 48 \<le> (of_char c :: nat) \<and> (of_char c :: nat) \<le> 57"

definition c_isspace :: "char \<Rightarrow> bool" where
  "c_isspace c \<longleftrightarrow> (of_char c :: nat) = 32 \<or> 9 \<le> (of_char c :: nat) \<and> (of_char c :: nat) \<le> 13"

definition c_isxdigit :: "char \<Rightarrow> bool" where
  "c_isxdigit c \<longleftrightarrow> c_isdigit c
     \<or> 97 \<le> (of_char c :: nat) \<and> (of_char c :: nat) \<le> 102
     \<or> 65 \<le> (of_char c :: nat) \<and> (of_char c :: nat) \<le> 70"

definition c_tolower :: "char \<Rightarrow> char" where
  "c_tolower c = (if 65 \<le> (of_char c :: nat) \<and> (of_char c :: nat) \<le> 90
                  then char_of ((of_char c :: nat) + 32) else c)"

definition digit_char :: "nat \<Rightarrow> char" where
  "digit_char d = char_of (48 + d)"

definition digit_val :: "char \<Rightarrow> nat" where
  "digit_val c = of_char c - 48"

lemma of_char_digit_char: "d < 10 \<Longrightarrow> (of_char (digit_char d) :: nat) = 48 + d"
  by (simp add: digit_char_def)

lemma digit_char_digit [simp]: "d < 10 \<Longrightarrow> c_isdigit (digit_char d)"
  by (simp add: c_isdigit_def of_char_digit_char)

lemma digit_val_char [simp]: "d < 10 \<Longrightarrow> digit_val (digit_char d) = d"
  by (simp add: digit_val_def of_char_digit_char)

lemma c_isdigit_not_space [simp]: "c_isdigit c \<Longrightarrow> \<not> c_isspace c"
  by (auto simp: c_isdigit_def c_isspace_def)

lemma minus_not_digit [simp]: "\<not> c_isdigit (CHR ''-'')" "\<not> c_isdigit (CHR ''+'')"
  by (simp_all add: c_isdigit_def)

section \<open>Decimal printing\<close>

text \<open>\<open>dec_digits\<close> writes a non-negative number; \<open>dec_int\<close> is the \<open>%d\<close> / \<open>%ld\<close> conversion.\<close>

function dec_digits :: "int \<Rightarrow> string" where
  "dec_digits n =
     (if n < 10 then [digit_char (nat n)]
      else dec_digits (n div 10) @ [digit_char (nat (n mod 10))])"
  by pat_completeness auto
termination
  by (relation "measure nat") auto

declare dec_digits.simps [simp del]

definition dec_int :: "int \<Rightarrow> string" where
  "dec_int i = (if i < 0 then CHR ''-'' # dec_digits (- i) else dec_digits i)"

definition dec_u32 :: "u32 \<Rightarrow> string" where
  "dec_u32 w = dec_digits (uint w)"

lemma dec_digits_ne [simp]: "dec_digits n \<noteq> []"
  by (subst dec_digits.simps) simp

lemma dec_digits_digits: "0 \<le> n \<Longrightarrow> \<forall>c \<in> set (dec_digits n). c_isdigit c"
proof (induction n rule: dec_digits.induct)
  case (1 n)
  show ?case
  proof (cases "n < 10")
    case True
    with "1.prems" show ?thesis by (subst dec_digits.simps) simp
  next
    case False
    with "1.IH" have "\<forall>c \<in> set (dec_digits (n div 10)). c_isdigit c" by simp
    with False show ?thesis by (subst dec_digits.simps) auto
  qed
qed

definition digits_val :: "string \<Rightarrow> int" where
  "digits_val ds = foldl (\<lambda>a c. a * 10 + int (digit_val c)) 0 ds"

lemma digits_val_snoc: "digits_val (ds @ [c]) = digits_val ds * 10 + int (digit_val c)"
  by (simp add: digits_val_def)

lemma digits_val_dec_digits [simp]: "0 \<le> n \<Longrightarrow> digits_val (dec_digits n) = n"
proof (induction n rule: dec_digits.induct)
  case (1 n)
  show ?case
  proof (cases "n < 10")
    case True
    with "1.prems" show ?thesis by (subst dec_digits.simps) (simp add: digits_val_def)
  next
    case False
    with "1.IH" have "digits_val (dec_digits (n div 10)) = n div 10" by simp
    with False show ?thesis by (subst dec_digits.simps) (simp add: digits_val_snoc)
  qed
qed

lemma dec_digits_inj: "0 \<le> m \<Longrightarrow> 0 \<le> n \<Longrightarrow> dec_digits m = dec_digits n \<Longrightarrow> m = n"
  by (metis digits_val_dec_digits)

lemma dec_digits_length: "n < 10 ^ k \<Longrightarrow> 0 < k \<Longrightarrow> length (dec_digits n) \<le> k"
proof (induction k arbitrary: n)
  case 0
  then show ?case by simp
next
  case (Suc k)
  show ?case
  proof (cases "n < 10")
    case True
    then show ?thesis by (subst dec_digits.simps) simp
  next
    case False
    have "k \<noteq> 0" using False Suc.prems by (cases k) auto
    moreover have "n div 10 < 10 ^ k" using Suc.prems(1) by simp
    ultimately have "length (dec_digits (n div 10)) \<le> k" using Suc.IH by simp
    with False show ?thesis by (subst dec_digits.simps) simp
  qed
qed

lemma dec_int_length: "\<bar>n\<bar> < 10 ^ k \<Longrightarrow> 0 < k \<Longrightarrow> length (dec_int n) \<le> Suc k"
  using dec_digits_length[of "\<bar>n\<bar>" k] by (auto simp: dec_int_def le_SucI)

lemma dec_u32_length: "length (dec_u32 w) \<le> 10"
proof -
  have "uint w < 10 ^ 10" using uint_bounded[of w] by simp
  then show ?thesis unfolding dec_u32_def by (rule dec_digits_length) simp
qed

section \<open>Division\<close>

text \<open>The C operators \<open>/\<close> and \<open>%\<close> on signed integers: the quotient is truncated towards zero.\<close>

definition c_quot :: "int \<Rightarrow> int \<Rightarrow> int" where
  "c_quot a b = (if a < 0 then - ((- a) div b) else a div b)"

definition c_rem :: "int \<Rightarrow> int \<Rightarrow> int" where
  "c_rem a b = a - c_quot a b * b"

lemma c_quot_nonneg [simp]: "0 \<le> a \<Longrightarrow> c_quot a b = a div b"
  by (simp add: c_quot_def)

lemma c_rem_nonneg [simp]: "0 \<le> a \<Longrightarrow> c_rem a b = a mod b"
  by (simp add: c_rem_def minus_div_mult_eq_mod)

lemma c_quot_bounds:
  assumes "0 < b"
  shows "0 \<le> a \<Longrightarrow> b * c_quot a b \<le> a \<and> a < b * c_quot a b + b"
    and "a < 0 \<Longrightarrow> a \<le> b * c_quot a b \<and> b * c_quot a b < a + b"
proof -
  have div: "b * (n div b) \<le> n \<and> n < b * (n div b) + b" for n
    using mult_div_mod_eq[of b n] pos_mod_bound[OF assms, of n] pos_mod_sign[OF assms, of n] by linarith
  show "0 \<le> a \<Longrightarrow> b * c_quot a b \<le> a \<and> a < b * c_quot a b + b"
    using div[of a] by simp
  show "a < 0 \<Longrightarrow> a \<le> b * c_quot a b \<and> b * c_quot a b < a + b"
    using div[of "- a"] by (simp add: c_quot_def)
qed

section \<open>strtol and atoi\<close>

definition sign_split :: "string \<Rightarrow> bool \<times> string" where
  "sign_split s =
     (case s of [] \<Rightarrow> (False, s)
      | c # r \<Rightarrow> if c = CHR ''-'' then (True, r) else if c = CHR ''+'' then (False, r) else (False, s))"

definition clamp_long :: "int \<Rightarrow> int" where
  "clamp_long v = max (- (2 ^ 63)) (min (2 ^ 63 - 1) v)"

text \<open>The value, and the characters that follow the number (\<open>endptr\<close>); \<open>None\<close> when there is no number.\<close>

definition strtol10 :: "string \<Rightarrow> (int \<times> string) option" where
  "strtol10 s =
     (let (neg, t) = sign_split (dropWhile c_isspace s);
          ds = takeWhile c_isdigit t;
          v = digits_val ds
      in if ds = [] then None
         else Some (clamp_long (if neg then - v else v), dropWhile c_isdigit t))"

definition atoi :: "string \<Rightarrow> int" where
  "atoi s = (case strtol10 s of None \<Rightarrow> 0 | Some (v, _) \<Rightarrow> sint (word_of_int v :: 32 word))"

definition u32_of_int :: "int \<Rightarrow> u32" where
  "u32_of_int i = word_of_int i"

lemma takeWhile_dec_digits:
  assumes "0 \<le> n" "rest = [] \<or> \<not> c_isdigit (hd rest)"
  shows "takeWhile c_isdigit (dec_digits n @ rest) = dec_digits n"
    and "dropWhile c_isdigit (dec_digits n @ rest) = rest"
  using assms dec_digits_digits[of n]
  by (cases rest; simp add: takeWhile_append2 dropWhile_append2)+

lemma sign_split_dec_int:
  "sign_split (dropWhile c_isspace (dec_int i @ rest)) = (i < 0, dec_digits \<bar>i\<bar> @ rest)"
proof (cases "i < 0")
  case True
  then show ?thesis by (simp add: dec_int_def sign_split_def c_isspace_def)
next
  case False
  obtain c cs where c: "dec_digits i = c # cs" by (cases "dec_digits i") auto
  then have "c_isdigit c" using dec_digits_digits[of i] False by simp
  then show ?thesis
    using False c by (auto simp: dec_int_def sign_split_def)
qed

lemma strtol10_dec_int:
  assumes "- (2 ^ 63) \<le> i" "i < 2 ^ 63" "rest = [] \<or> \<not> c_isdigit (hd rest)"
  shows "strtol10 (dec_int i @ rest) = Some (i, rest)"
  using assms(1,2)
  by (simp add: strtol10_def sign_split_dec_int takeWhile_dec_digits[OF _ assms(3)] clamp_long_def
        Let_def)

lemma atoi_dec_int:
  assumes "- (2 ^ 31) \<le> i" "i < 2 ^ 31" "rest = [] \<or> \<not> c_isdigit (hd rest)"
  shows "atoi (dec_int i @ rest) = i"
proof -
  have "strtol10 (dec_int i @ rest) = Some (i, rest)"
    using assms by (intro strtol10_dec_int) auto
  then show ?thesis
    using assms(1,2) by (simp add: atoi_def signed_take_bit_int_eq_self sint_sbintrunc')
qed

lemma atoi_range: "- (2 ^ 31) \<le> atoi s \<and> atoi s < 2 ^ 31"
  using sint_greater_eq[where 'a = 32] sint_less[where 'a = 32]
  by (auto simp: atoi_def split: option.splits)

section \<open>Text\<close>

text \<open>What is read of a buffer: up to its first NUL. A quoted JSON text; nothing is escaped.\<close>

definition c_string :: "string \<Rightarrow> string" where
  "c_string s = takeWhile (\<lambda>c. c \<noteq> CHR 0x00) s"

definition quoted :: "string \<Rightarrow> string" where
  "quoted s = CHR 0x22 # s @ [CHR 0x22]"

end
