(* ===== verification/CDouble.thy ===== *)
theory CDouble
  imports CLib
begin

text \<open>
  The C type \<open>double\<close> as the binding map uses it: IEEE 754 binary64 with round to
  nearest even, signed zeroes, infinities and NaN; \<open>atof\<close> (decimal, hexadecimal,
  infinity and NaN forms) and the \<open>%g\<close> conversion of \<open>snprintf\<close>.

  A finite value is its sign (True is negative) and its magnitude, an exact rational; every
  operation rounds its exact result. The sign of a NaN, which the standard leaves open, is
  not kept.
\<close>

datatype dbl = DNaN | DInf bool | DFin bool rat

definition pow2r :: "int \<Rightarrow> rat" where
  "pow2r e = (if 0 \<le> e then 2 ^ nat e else 1 / 2 ^ nat (- e))"

definition pow10r :: "int \<Rightarrow> rat" where
  "pow10r e = (if 0 \<le> e then 10 ^ nat e else 1 / 10 ^ nat (- e))"

text \<open>Round half to even, on a non-negative rational.\<close>

definition round_even :: "rat \<Rightarrow> int" where
  "round_even q =
     (let f = \<lfloor>q\<rfloor>; r = q - of_int f
      in if r < 1 / 2 then f else if r > 1 / 2 then f + 1
         else if even f then f else f + 1)"

function ibits :: "int \<Rightarrow> int" where
  "ibits n = (if n \<le> 0 then 0 else 1 + ibits (n div 2))"
  by pat_completeness auto
termination
  by (relation "measure nat") auto

declare ibits.simps [simp del]

text \<open>The exponent \<open>e\<close> with \<open>2^e \<le> q < 2^(e+1)\<close>, for a positive \<open>q\<close>.\<close>

definition ilog2 :: "rat \<Rightarrow> int" where
  "ilog2 q =
     (let (n, d) = quotient_of q;
          e = ibits n - ibits d
      in if pow2r e \<le> q then e else e - 1)"

text \<open>The double nearest to a non-negative magnitude, with the given sign.\<close>

definition round64 :: "bool \<Rightarrow> rat \<Rightarrow> dbl" where
  "round64 s m =
     (if m = 0 then DFin s 0
      else let e = max (ilog2 m - 52) (- 1074);
               v = of_int (round_even (m / pow2r e)) * pow2r e
           in if 2 ^ 1024 \<le> v then DInf s else DFin s v)"

fun d_neg :: "dbl \<Rightarrow> dbl" where
  "d_neg DNaN = DNaN"
| "d_neg (DInf s) = DInf (\<not> s)"
| "d_neg (DFin s m) = DFin (\<not> s) m"

definition sval :: "bool \<Rightarrow> rat \<Rightarrow> rat" where
  "sval s m = (if s then - m else m)"

fun d_eq :: "dbl \<Rightarrow> dbl \<Rightarrow> bool" where
  "d_eq (DInf s) (DInf t) = (s = t)"
| "d_eq (DFin s m) (DFin t n) = (sval s m = sval t n)"
| "d_eq _ _ = False"

fun d_lt :: "dbl \<Rightarrow> dbl \<Rightarrow> bool" where
  "d_lt (DInf s) (DInf t) = (s \<and> \<not> t)"
| "d_lt (DInf s) (DFin t n) = s"
| "d_lt (DFin s m) (DInf t) = (\<not> t)"
| "d_lt (DFin s m) (DFin t n) = (sval s m < sval t n)"
| "d_lt _ _ = False"

fun d_add :: "dbl \<Rightarrow> dbl \<Rightarrow> dbl" where
  "d_add (DInf s) (DInf t) = (if s = t then DInf s else DNaN)"
| "d_add (DInf s) (DFin t n) = DInf s"
| "d_add (DFin s m) (DInf t) = DInf t"
| "d_add (DFin s m) (DFin t n) =
     (let v = sval s m + sval t n
      in if v = 0 then DFin (s \<and> t) 0 else round64 (v < 0) \<bar>v\<bar>)"
| "d_add _ _ = DNaN"

definition d_sub :: "dbl \<Rightarrow> dbl \<Rightarrow> dbl" where
  "d_sub a b = d_add a (d_neg b)"

fun d_mul :: "dbl \<Rightarrow> dbl \<Rightarrow> dbl" where
  "d_mul (DInf s) (DInf t) = DInf (s \<noteq> t)"
| "d_mul (DInf s) (DFin t n) = (if n = 0 then DNaN else DInf (s \<noteq> t))"
| "d_mul (DFin s m) (DInf t) = (if m = 0 then DNaN else DInf (s \<noteq> t))"
| "d_mul (DFin s m) (DFin t n) = round64 (s \<noteq> t) (m * n)"
| "d_mul _ _ = DNaN"

fun d_div :: "dbl \<Rightarrow> dbl \<Rightarrow> dbl" where
  "d_div (DInf s) (DInf t) = DNaN"
| "d_div (DInf s) (DFin t n) = DInf (s \<noteq> t)"
| "d_div (DFin s m) (DInf t) = DFin (s \<noteq> t) 0"
| "d_div (DFin s m) (DFin t n) =
     (if n = 0 then (if m = 0 then DNaN else DInf (s \<noteq> t)) else round64 (s \<noteq> t) (m / n))"
| "d_div _ _ = DNaN"

definition d_zero :: dbl where "d_zero = DFin False 0"
definition d_one :: dbl where "d_one = DFin False 1"

definition d_of_bool :: "bool \<Rightarrow> dbl" where
  "d_of_bool b = (if b then d_one else d_zero)"

definition d_nonnan :: "dbl \<Rightarrow> bool" where
  "d_nonnan x \<longleftrightarrow> x \<noteq> DNaN"

lemma d_nonnan_simps [simp]:
  "\<not> d_nonnan DNaN" "d_nonnan (DInf s)" "d_nonnan (DFin s m)"
  by (simp_all add: d_nonnan_def)

lemma d_eq_refl_iff: "d_eq x x \<longleftrightarrow> d_nonnan x"
  by (cases x) simp_all

lemma d_eq_sym: "d_eq x y \<longleftrightarrow> d_eq y x"
  by (cases x; cases y) auto

lemma d_eq_trans: "d_eq x y \<Longrightarrow> d_eq y z \<Longrightarrow> d_eq x z"
  by (cases x; cases y; cases z) auto

lemma d_eq_nonnan: "d_eq x y \<Longrightarrow> d_nonnan x \<and> d_nonnan y"
  by (cases x; cases y) simp_all

lemma d_lt_irrefl: "\<not> d_lt x x"
  by (cases x) auto

lemma d_zero_one_simps [simp]:
  "d_nonnan d_zero" "d_nonnan d_one" "d_eq d_zero d_zero" "d_eq d_one d_one"
  "\<not> d_eq d_zero d_one" "\<not> d_eq d_one d_zero" "d_lt d_zero d_one" "\<not> d_lt d_one d_zero"
  "d_of_bool True = d_one" "d_of_bool False = d_zero"
  by (simp_all add: d_zero_def d_one_def d_of_bool_def sval_def)

lemma d_nonnan_neg [simp]: "d_nonnan (d_neg x) = d_nonnan x"
  by (cases x) simp_all

lemma d_nonnan_round [simp]: "d_nonnan (round64 s m)"
  by (simp add: round64_def Let_def)

lemma d_nonnan_of_bool [simp]: "d_nonnan (d_of_bool b)"
  by (simp add: d_of_bool_def d_one_def d_zero_def)

section \<open>atof\<close>

definition lower_str :: "string \<Rightarrow> string" where
  "lower_str s = map c_tolower s"

definition starts_with :: "string \<Rightarrow> string \<Rightarrow> bool" where
  "starts_with p s \<longleftrightarrow> take (length p) s = p"

definition xdigit_val :: "char \<Rightarrow> nat" where
  "xdigit_val c = (if c_isdigit c then of_char c - 48 else of_char (c_tolower c) - 87)"

text \<open>An exponent part: its marker, an optional sign, at least one digit; otherwise none is taken.\<close>

definition exp_part :: "char \<Rightarrow> string \<Rightarrow> int" where
  "exp_part mark s =
     (case s of [] \<Rightarrow> 0
      | c # r \<Rightarrow>
          if c_tolower c = mark then
            (let (neg, t) = sign_split r; ds = takeWhile c_isdigit t; v = digits_val ds
             in if neg then - v else v)
          else 0)"

text \<open>Digits with an optional fraction: the digits, how many of them are fraction digits, and the rest.\<close>

definition mantissa :: "(char \<Rightarrow> bool) \<Rightarrow> string \<Rightarrow> string \<times> nat \<times> string" where
  "mantissa isd s =
     (let ip = takeWhile isd s; r = dropWhile isd s
      in case r of
           [] \<Rightarrow> (ip, 0, r)
         | c # r' \<Rightarrow>
             if c = CHR ''.''
             then (ip @ takeWhile isd r', length (takeWhile isd r'), dropWhile isd r')
             else (ip, 0, r))"

definition atof_dec :: "bool \<Rightarrow> string \<Rightarrow> dbl" where
  "atof_dec neg s =
     (let (ds, k, r) = mantissa c_isdigit s
      in if ds = [] then d_zero
         else round64 neg (of_int (digits_val ds) * pow10r (exp_part CHR ''e'' r - int k)))"

definition atof_hex :: "bool \<Rightarrow> string \<Rightarrow> dbl option" where
  "atof_hex neg s =
     (let (ds, k, r) = mantissa c_isxdigit s;
          m = foldl (\<lambda>a c. a * 16 + int (xdigit_val c)) 0 ds
      in if ds = [] then None
         else Some (round64 neg (of_int m * pow2r (exp_part CHR ''p'' r - 4 * int k))))"

definition atof :: "string \<Rightarrow> dbl" where
  "atof s =
     (let (neg, t) = sign_split (dropWhile c_isspace s); l = lower_str t
      in if starts_with ''inf'' l then DInf neg
         else if starts_with ''nan'' l then DNaN
         else if starts_with ''0x'' l then
           (case atof_hex neg (drop 2 t) of Some v \<Rightarrow> v | None \<Rightarrow> DFin neg 0)
         else atof_dec neg t)"

text \<open>Whether \<open>strtod\<close> takes anything: its end pointer has moved.\<close>

definition d_converts :: "string \<Rightarrow> bool" where
  "d_converts s \<longleftrightarrow>
     (let (neg, t) = sign_split (dropWhile c_isspace s); l = lower_str t
      in starts_with ''inf'' l \<or> starts_with ''nan'' l \<or> starts_with ''0x'' l \<or> fst (mantissa c_isdigit t) \<noteq> [])"

lemma atof_unconverted: "\<not> d_converts s \<Longrightarrow> atof s = d_zero"
  by (auto simp: d_converts_def atof_def atof_dec_def Let_def split: prod.splits)

section \<open>The %g conversion\<close>

text \<open>The decimal exponent of a positive rational: \<open>10^x \<le> m < 10^(x+1)\<close>.\<close>

definition ilog10 :: "rat \<Rightarrow> int" where
  "ilog10 m =
     (if 1 \<le> m then int (length (dec_digits \<lfloor>m\<rfloor>)) - 1
      else - int (length (dec_digits (\<lceil>1 / m\<rceil> - 1))))"

definition strip_zeros :: "string \<Rightarrow> string" where
  "strip_zeros s = rev (dropWhile (\<lambda>c. c = CHR ''0'') (rev s))"

definition with_fraction :: "string \<Rightarrow> string \<Rightarrow> string" where
  "with_fraction ip fp = (if strip_zeros fp = [] then ip else ip @ ''.'' @ strip_zeros fp)"

definition fmt_exponent :: "int \<Rightarrow> string" where
  "fmt_exponent x =
     ''e'' @ (if x < 0 then ''-'' else ''+'')
       @ (let ds = dec_digits \<bar>x\<bar> in if length ds < 2 then ''0'' @ ds else ds)"

definition fmt_g_mag :: "rat \<Rightarrow> string" where
  "fmt_g_mag m =
     (if m = 0 then ''0''
      else let x0 = ilog10 m;
               d0 = round_even (m * pow10r (5 - x0));
               x = (if d0 = 1000000 then x0 + 1 else x0);
               ds = dec_digits (if d0 = 1000000 then 100000 else d0)
           in if x < - 4 \<or> 6 \<le> x
              then with_fraction (take 1 ds) (drop 1 ds) @ fmt_exponent x
              else if 0 \<le> x
              then with_fraction (take (nat (x + 1)) ds) (drop (nat (x + 1)) ds)
              else with_fraction ''0'' (replicate (nat (- x - 1)) CHR ''0'' @ ds))"

fun fmt_g :: "dbl \<Rightarrow> string" where
  "fmt_g DNaN = ''nan''"
| "fmt_g (DInf s) = (if s then ''-inf'' else ''inf'')"
| "fmt_g (DFin s m) = (if s then ''-'' @ fmt_g_mag m else fmt_g_mag m)"

lemma fmt_g_zero [simp]: "fmt_g d_zero = ''0''"
  by (simp add: d_zero_def fmt_g_mag_def)

lemma fmt_g_one [simp]: "fmt_g d_one = ''1''"
  by code_simp

lemma atof_zero_one: "atof ''0'' = d_zero" "atof ''1'' = d_one" "atof ''nan'' = DNaN"
  by code_simp+

end
