(* ===== verification/HesCommon.thy ===== *)
theory HesCommon
  imports CDouble
begin

text \<open>
  The HES-CLME message (src/src/common/hes_common.h), the gateway clock
  (src/src/common/hes_clock.c) and the event bus (src/src/common/hes_bus.c).

  The sockets belong to NNG, which is not modelled: a bus handle keeps the messages handed
  to \<open>nng_send\<close>, in order, and the operating system's clock readings, one for every
  send. Opening the hub and leaf sockets takes the results of the NNG calls as arguments.
\<close>

section \<open>Messages\<close>

abbreviation HES_PATH_MAX :: nat where "HES_PATH_MAX \<equiv> 128"
abbreviation HES_PAYLOAD_MAX :: nat where "HES_PAYLOAD_MAX \<equiv> 512"
abbreviation HES_QUERY_MAX :: nat where "HES_QUERY_MAX \<equiv> 64"
abbreviation HES_CRED_MAX :: nat where "HES_CRED_MAX \<equiv> 512"
abbreviation HES_USER_MAX :: nat where "HES_USER_MAX \<equiv> 32"

abbreviation HES_VERB_NONE :: u8 where "HES_VERB_NONE \<equiv> 0"
abbreviation HES_VERB_GET :: u8 where "HES_VERB_GET \<equiv> 1"
abbreviation HES_VERB_PUT :: u8 where "HES_VERB_PUT \<equiv> 2"
abbreviation HES_VERB_EVENT :: u8 where "HES_VERB_EVENT \<equiv> 3"
abbreviation HES_VERB_SUBSCRIBE :: u8 where "HES_VERB_SUBSCRIBE \<equiv> 4"
abbreviation HES_VERB_UNSUBSCRIBE :: u8 where "HES_VERB_UNSUBSCRIBE \<equiv> 5"

datatype hes_module_type =
  HES_MODTYPE_NONE | HES_MODTYPE_HI | HES_MODTYPE_WI | HES_MODTYPE_SM | HES_MODTYPE_IT

record hes_clme_msg =
  m_path :: string
  m_verb :: u8
  m_device_index :: u32
  m_query :: string
  m_payload_len :: u32
  m_payload :: string
  m_cred_info :: string
  m_user_name :: string
  m_timestamp_ns :: u64

text \<open>\<open>hes_msg_init\<close>, and the \<open>= {0}\<close> initialisers.\<close>

definition hes_msg_init :: hes_clme_msg where
  "hes_msg_init =
     \<lparr>m_path = [], m_verb = HES_VERB_NONE, m_device_index = 0, m_query = [], m_payload_len = 0,
      m_payload = [], m_cred_info = [], m_user_name = [], m_timestamp_ns = 0\<rparr>"

definition hes_msg_set_payload_str :: "hes_clme_msg \<Rightarrow> string \<Rightarrow> hes_clme_msg" where
  "hes_msg_set_payload_str m s =
     m\<lparr>m_payload := hes_strlcpy HES_PAYLOAD_MAX s,
       m_payload_len := word_of_nat (length (hes_strlcpy HES_PAYLOAD_MAX s))\<rparr>"

definition hes_msg_set_path :: "hes_clme_msg \<Rightarrow> string \<Rightarrow> hes_clme_msg" where
  "hes_msg_set_path m p = m\<lparr>m_path := hes_strlcpy HES_PATH_MAX p\<rparr>"

text \<open>Every buffer of the message holds a terminated string, and the length field is within the buffer.\<close>

definition wf_msg :: "hes_clme_msg \<Rightarrow> bool" where
  "wf_msg m \<longleftrightarrow> length (m_path m) < HES_PATH_MAX \<and> length (m_query m) < HES_QUERY_MAX
     \<and> length (m_payload m) < HES_PAYLOAD_MAX \<and> length (m_cred_info m) < HES_CRED_MAX
     \<and> length (m_user_name m) < HES_USER_MAX \<and> unat (m_payload_len m) \<le> HES_PAYLOAD_MAX"

lemma wf_msg_init [wf_rules]: "wf_msg hes_msg_init"
  by (simp add: wf_msg_def hes_msg_init_def)

lemma payload_fits [buf_bounds]: "length (m_payload (hes_msg_set_payload_str m s)) < HES_PAYLOAD_MAX"
  by (simp add: hes_msg_set_payload_str_def hes_strlcpy_take)

lemma payload_len_exact:
  "unat (m_payload_len (hes_msg_set_payload_str m s)) = length (m_payload (hes_msg_set_payload_str m s))"
  by (simp add: hes_msg_set_payload_str_def hes_strlcpy_take unat_of_nat)

lemma wf_msg_set_payload [wf_rules]: "wf_msg m \<Longrightarrow> wf_msg (hes_msg_set_payload_str m s)"
  using payload_fits[of m s] payload_len_exact[of m s]
  by (simp add: wf_msg_def hes_msg_set_payload_str_def)

lemma wf_msg_set_path [wf_rules]: "wf_msg m \<Longrightarrow> wf_msg (hes_msg_set_path m p)"
  by (simp add: wf_msg_def hes_msg_set_path_def hes_strlcpy_take)

lemma set_payload_frame [simp]:
  "m_path (hes_msg_set_payload_str m s) = m_path m"
  "m_verb (hes_msg_set_payload_str m s) = m_verb m"
  "m_device_index (hes_msg_set_payload_str m s) = m_device_index m"
  "m_query (hes_msg_set_payload_str m s) = m_query m"
  "m_cred_info (hes_msg_set_payload_str m s) = m_cred_info m"
  "m_user_name (hes_msg_set_payload_str m s) = m_user_name m"
  "m_payload (hes_msg_set_payload_str m s) = hes_strlcpy HES_PAYLOAD_MAX s"
  by (simp_all add: hes_msg_set_payload_str_def)

lemma set_path_frame [simp]:
  "m_path (hes_msg_set_path m p) = hes_strlcpy HES_PATH_MAX p"
  "m_verb (hes_msg_set_path m p) = m_verb m"
  "m_device_index (hes_msg_set_path m p) = m_device_index m"
  "m_query (hes_msg_set_path m p) = m_query m"
  "m_payload (hes_msg_set_path m p) = m_payload m"
  "m_payload_len (hes_msg_set_path m p) = m_payload_len m"
  "m_cred_info (hes_msg_set_path m p) = m_cred_info m"
  "m_user_name (hes_msg_set_path m p) = m_user_name m"
  by (simp_all add: hes_msg_set_path_def)

lemma msg_init_fields [simp]:
  "m_path hes_msg_init = []" "m_verb hes_msg_init = HES_VERB_NONE"
  "m_device_index hes_msg_init = 0" "m_query hes_msg_init = []"
  "m_payload hes_msg_init = []" "m_payload_len hes_msg_init = 0"
  "m_cred_info hes_msg_init = []" "m_user_name hes_msg_init = []"
  by (simp_all add: hes_msg_init_def)

section \<open>Lexicon addresses\<close>

abbreviation HES_LX_ID :: string where "HES_LX_ID \<equiv> ''/lx/ob/so/id''"
abbreviation HES_LX_ID_CENTRALOPS_CV :: string where
  "HES_LX_ID_CENTRALOPS_CV \<equiv> ''/lx/ob/so/id/co/st/cv''"
abbreviation HES_LX_ID_DISCOVER_BM :: string where
  "HES_LX_ID_DISCOVER_BM \<equiv> ''/lx/ac/so/id/dc/bm/cv''"
abbreviation HES_LX_TIME_REALTIME_CV :: string where
  "HES_LX_TIME_REALTIME_CV \<equiv> ''/lx/ob/so/ti/rt/st/cv''"
abbreviation HES_LX_TIME_LOCALTZ_CV :: string where
  "HES_LX_TIME_LOCALTZ_CV \<equiv> ''/lx/ob/so/ti/tz/st/cv''"
abbreviation HES_LX_TIME_SOURCE_CV :: string where
  "HES_LX_TIME_SOURCE_CV \<equiv> ''/lx/ob/so/ti/st/mp/cv''"
abbreviation HES_LX_CRYPTO :: string where "HES_LX_CRYPTO \<equiv> ''/lx/ob/so/cr''"
abbreviation HES_LX_CRYPTO_CI :: string where "HES_LX_CRYPTO_CI \<equiv> ''/lx/ob/so/cr/ci''"
abbreviation HES_LX_LIGHT_CV :: string where "HES_LX_LIGHT_CV \<equiv> ''/lx/ob/uo/li/ll/da/cv''"
abbreviation HES_LX_LIGHT_BRIGHTNESS_CV :: string where
  "HES_LX_LIGHT_BRIGHTNESS_CV \<equiv> ''/lx/ob/uo/li/ll/aa/cv''"
abbreviation HES_LX_BTN_CV :: string where "HES_LX_BTN_CV \<equiv> ''/lx/ob/uo/ui/ud/da/cv''"
abbreviation HES_LX_TEMP_CV :: string where "HES_LX_TEMP_CV \<equiv> ''/lx/ob/uo/hv/ts/as/cv''"

section \<open>The clock\<close>

text \<open>A reading of \<open>clock_gettime\<close>: seconds and nanoseconds, \<open>None\<close> when the call fails.\<close>

type_synonym clock_reading = "(int \<times> int) option"

abbreviation NS_PER_SEC :: int where "NS_PER_SEC \<equiv> 1000000000"

definition hes_clock_now_ns :: "int \<Rightarrow> clock_reading \<Rightarrow> u64" where
  "hes_clock_now_ns g_offset_ns ts =
     (case ts of
        None \<Rightarrow> 0
      | Some (tv_sec, tv_nsec) \<Rightarrow>
          (let ns = tv_sec * NS_PER_SEC + tv_nsec + g_offset_ns
           in if ns < 0 then 0 else word_of_int ns))"

definition hes_clock_now :: "int \<Rightarrow> clock_reading \<Rightarrow> int" where
  "hes_clock_now g_offset_ns ts = uint (hes_clock_now_ns g_offset_ns ts) div NS_PER_SEC"

lemma hes_clock_now_ns_exact:
  assumes "0 \<le> s * NS_PER_SEC + n + off" "s * NS_PER_SEC + n + off < 2 ^ 64"
  shows "uint (hes_clock_now_ns off (Some (s, n))) = s * NS_PER_SEC + n + off"
proof -
  define v where "v = s * NS_PER_SEC + n + off"
  have "hes_clock_now_ns off (Some (s, n)) = word_of_int v"
    using assms(1) by (simp only: hes_clock_now_ns_def option.case prod.case Let_def v_def) simp
  moreover have "uint (word_of_int v :: u64) = v"
    using assms unfolding v_def[symmetric] by (simp add: uint_word_of_int_eq take_bit_int_eq_self)
  ultimately show ?thesis by (simp add: v_def)
qed

section \<open>The bus\<close>

record hes_bus =
  bus_sent :: "hes_clme_msg list"
  bus_clock :: "nat \<Rightarrow> clock_reading"
  bus_offset_ns :: int

definition hes_bus_send :: "hes_bus \<Rightarrow> hes_clme_msg \<Rightarrow> hes_bus" where
  "hes_bus_send bus msg =
     bus\<lparr>bus_sent := bus_sent bus @
       [msg\<lparr>m_timestamp_ns :=
          hes_clock_now_ns (bus_offset_ns bus) (bus_clock bus (length (bus_sent bus)))\<rparr>]\<rparr>"

text \<open>What was sent between two states of one bus.\<close>

definition sent_since :: "hes_bus \<Rightarrow> hes_bus \<Rightarrow> hes_clme_msg list" where
  "sent_since b b' = drop (length (bus_sent b)) (bus_sent b')"

definition bus_extends :: "hes_bus \<Rightarrow> hes_bus \<Rightarrow> bool" where
  "bus_extends b b' \<longleftrightarrow> bus_sent b' = bus_sent b @ sent_since b b'
     \<and> bus_clock b' = bus_clock b \<and> bus_offset_ns b' = bus_offset_ns b"

lemma bus_extends_refl [simp]: "bus_extends b b" "sent_since b b = []"
  by (simp_all add: bus_extends_def sent_since_def)

lemma bus_extends_send: "bus_extends b (hes_bus_send b m)"
  by (simp add: bus_extends_def sent_since_def hes_bus_send_def)

lemma bus_extends_trans:
  assumes "bus_extends a b" "bus_extends b c"
  shows "bus_extends a c" "sent_since a c = sent_since a b @ sent_since b c"
proof -
  have "bus_sent c = bus_sent a @ (sent_since a b @ sent_since b c)"
    using assms unfolding bus_extends_def by (metis append.assoc)
  then show eq: "sent_since a c = sent_since a b @ sent_since b c"
    unfolding sent_since_def[of a c] by simp
  show "bus_extends a c"
    using \<open>bus_sent c = _\<close> assms by (simp add: bus_extends_def eq)
qed

definition stamp :: "hes_bus \<Rightarrow> hes_clme_msg \<Rightarrow> hes_clme_msg" where
  "stamp bus msg = msg\<lparr>m_timestamp_ns :=
     hes_clock_now_ns (bus_offset_ns bus) (bus_clock bus (length (bus_sent bus)))\<rparr>"

lemma hes_bus_send_sent: "bus_sent (hes_bus_send b m) = bus_sent b @ [stamp b m]"
  by (simp add: hes_bus_send_def stamp_def)

lemma sent_since_send [simp]: "sent_since b (hes_bus_send b m) = [stamp b m]"
  by (simp add: sent_since_def hes_bus_send_sent)

lemma stamp_frame [simp]:
  "m_path (stamp b m) = m_path m" "m_verb (stamp b m) = m_verb m"
  "m_device_index (stamp b m) = m_device_index m" "m_payload (stamp b m) = m_payload m"
  "m_query (stamp b m) = m_query m" "m_cred_info (stamp b m) = m_cred_info m"
  "m_user_name (stamp b m) = m_user_name m" "m_payload_len (stamp b m) = m_payload_len m"
  by (simp_all add: stamp_def)

lemma wf_msg_stamp [simp]: "wf_msg (stamp b m) = wf_msg m"
  by (simp add: wf_msg_def)

end
