(* ===== verification/Dispatch.thy ===== *)
theory Dispatch
  imports HesCommon
begin

text \<open>
  The Lexicon router (src/src/common/hes_dispatch.c, src/src/common/service_object.h): which local service
  object owns an address, the two ways of naming data points (a trailing datum, a \<open>da=\<close>
  list), and the trimming of an answer to them. A service object's functions work on a
  store \<open>'st\<close> that the objects of a module share.
\<close>

record 'st service_object =
  so_path :: string
  so_on_get :: "('st \<Rightarrow> hes_clme_msg \<Rightarrow> hes_clme_msg \<times> 'st) option"
  so_on_put :: "('st \<Rightarrow> hes_clme_msg \<Rightarrow> 'st) option"

section \<open>Finding the object\<close>

definition on_boundary :: "string \<Rightarrow> nat \<Rightarrow> bool" where
  "on_boundary path prefix_len \<longleftrightarrow>
     (case drop prefix_len path of [] \<Rightarrow> True | c # _ \<Rightarrow> c = CHR ''/'')"

definition single_segment :: "string \<Rightarrow> bool" where
  "single_segment s \<longleftrightarrow> s \<noteq> [] \<and> CHR ''/'' \<notin> set s"

text \<open>One pass of the search loop's body: does the object serve the path, and with which selector?\<close>

definition serves :: "string \<Rightarrow> string \<Rightarrow> string option option" where
  "serves path opath =
     (let len = length opath
      in if take len path \<noteq> opath \<or> \<not> on_boundary path len then None
         else (case drop len path of
                 [] \<Rightarrow> Some None
               | _ # selector \<Rightarrow>
                   if single_segment selector then Some (Some selector) else None))"

fun find_object_from ::
    "'st service_object list \<Rightarrow> string \<Rightarrow> nat \<Rightarrow> (nat \<times> string option \<times> nat) option
      \<Rightarrow> (nat \<times> string option \<times> nat) option" where
  "find_object_from [] path i best = best"
| "find_object_from (ob # objs) path i best =
     find_object_from objs path (Suc i)
       (case serves path (so_path ob) of
          None \<Rightarrow> best
        | Some selector \<Rightarrow>
            (let len = length (so_path ob)
             in case best of
                  None \<Rightarrow> Some (i, selector, len)
                | Some (_, _, best_len) \<Rightarrow>
                    if len > best_len then Some (i, selector, len) else best))"

definition find_object :: "'st service_object list \<Rightarrow> string \<Rightarrow> (nat \<times> string option) option" where
  "find_object objs path =
     map_option (\<lambda>(i, sel, _). (i, sel)) (find_object_from objs path 0 None)"

section \<open>The data points asked for\<close>

fun strstr :: "string \<Rightarrow> string \<Rightarrow> nat option" where
  "strstr needle [] = (if needle = [] then Some 0 else None)"
| "strstr needle (c # s) =
     (if starts_with needle (c # s) then Some 0 else map_option Suc (strstr needle s))"

lemma strstr_bound: "strstr needle s = Some j \<Longrightarrow> j + length needle \<le> length s"
proof (induction s arbitrary: j)
  case Nil
  then show ?case by (simp split: if_splits)
next
  case (Cons c s)
  show ?case
  proof (cases "starts_with needle (c # s)")
    case True
    then have "length needle \<le> length (c # s)"
      unfolding starts_with_def by (metis length_take min.cobounded1)
    with True Cons.prems show ?thesis by simp
  next
    case False
    with Cons show ?thesis by auto
  qed
qed

lemma strstr_match: "strstr needle s = Some j \<Longrightarrow> starts_with needle (drop j s)"
proof (induction s arbitrary: j)
  case Nil
  then show ?case by (simp add: starts_with_def split: if_splits)
next
  case (Cons c s)
  then show ?case by (auto split: if_splits)
qed

text \<open>The scan position \<open>i\<close> stands for the pointer \<open>p\<close> into the query.\<close>

function da_scan :: "string \<Rightarrow> nat \<Rightarrow> string option" where
  "da_scan query i =
     (case strstr ''da='' (drop i query) of
        None \<Rightarrow> None
      | Some k \<Rightarrow>
          (let p = i + k
           in if p = 0 \<or> query ! (p - 1) = CHR ''&'' then Some (drop (p + 3) query)
              else da_scan query (p + 3)))"
  by pat_completeness auto
termination
  by (relation "measure (\<lambda>(q, i). length q - i)") (auto dest!: strstr_bound)

declare da_scan.simps [simp del]

definition da_list :: "string \<Rightarrow> string option" where
  "da_list query = da_scan query 0"

definition strip_trailing_spaces :: "string \<Rightarrow> string" where
  "strip_trailing_spaces s = rev (dropWhile (\<lambda>c. c = CHR '' '') (rev s))"

definition skip_separators :: "string \<Rightarrow> string" where
  "skip_separators p = dropWhile (\<lambda>c. c = CHR '','' \<or> c = CHR '' '') p"

definition list_item :: "string \<Rightarrow> string" where
  "list_item p = strip_trailing_spaces (takeWhile (\<lambda>c. c \<noteq> CHR '','' \<and> c \<noteq> CHR ''&'') p)"

lemma strip_trailing_spaces_length: "length (strip_trailing_spaces s) \<le> length s"
  unfolding strip_trailing_spaces_def by (metis length_dropWhile_le length_rev)

lemma list_item_length: "length (list_item p) \<le> length p"
  unfolding list_item_def by (meson le_trans length_takeWhile_le strip_trailing_spaces_length)

lemma strip_trailing_spaces_ne: "hd s \<noteq> CHR '' '' \<Longrightarrow> s \<noteq> [] \<Longrightarrow> strip_trailing_spaces s \<noteq> []"
  unfolding strip_trailing_spaces_def
  by (metis (mono_tags, lifting) dropWhile_eq_Nil_conv hd_in_set rev_is_Nil_conv set_rev)

lemma skip_separators_length: "length (skip_separators p) \<le> length p"
  by (simp add: skip_separators_def length_dropWhile_le)

text \<open>What makes the scan of \<open>requested\<close> stop: each pass skips a separator or takes an item.\<close>

lemma requested_progress:
  assumes "p \<noteq> []" "hd p \<noteq> CHR ''&''"
  shows "length (drop (length (list_item (skip_separators p))) (skip_separators p)) < length p"
proof (cases "skip_separators p = p")
  case True
  have "hd p \<noteq> CHR '','' \<and> hd p \<noteq> CHR '' ''"
    using True assms(1) by (simp add: skip_separators_def dropWhile_eq_self_iff)
  with assms have "list_item p \<noteq> []"
    unfolding list_item_def by (intro strip_trailing_spaces_ne; cases p; simp)
  with True assms(1) show ?thesis by (cases "list_item p") (auto simp: length_greater_0_conv)
next
  case False
  then have "length (skip_separators p) < length p"
    unfolding skip_separators_def by (rule dropWhile_neq_length)
  then show ?thesis by simp
qed

function requested :: "string \<Rightarrow> string \<Rightarrow> bool" where
  "requested p name =
     (if p = [] \<or> hd p = CHR ''&'' then False
      else (let q = skip_separators p; item = list_item q
            in if item = name then True else requested (drop (length item) q) name))"
  by pat_completeness auto
termination
  by (relation "measure (\<lambda>(p, _). length p)")
     (auto simp del: length_drop simp: requested_progress)

declare requested.simps [simp del]

section \<open>Trimming the answer\<close>

abbreviation record_name :: "string \<Rightarrow> string" where
  "record_name seg \<equiv> takeWhile (\<lambda>c. c \<noteq> CHR ''='') seg"

definition append_record :: "string \<Rightarrow> string \<Rightarrow> string" where
  "append_record kept r = (if kept \<noteq> [] then kept @ '';'' @ r else r)"

function trim_loop :: "string \<Rightarrow> string \<Rightarrow> string \<Rightarrow> string" where
  "trim_loop list p kept =
     (if p = [] then kept
      else
        (let seg = takeWhile (\<lambda>c. c \<noteq> CHR '';'') p;
             rest = dropWhile (\<lambda>c. c \<noteq> CHR '';'') p;
             sel = requested list (record_name seg);
             kept' = (if sel then append_record kept seg else kept)
         in if sel \<and> length kept + length seg + 2 > HES_PAYLOAD_MAX then kept
            else (case rest of [] \<Rightarrow> kept' | _ # p' \<Rightarrow> trim_loop list p' kept')))"
  by pat_completeness auto
termination
  by (relation "measure (\<lambda>(_, p, _). length p)") (auto dest: length_dropWhile_less')

declare trim_loop.simps [simp del]

definition trim_payload :: "hes_clme_msg \<Rightarrow> string \<Rightarrow> hes_clme_msg" where
  "trim_payload msg list = hes_msg_set_payload_str msg (trim_loop list (m_payload msg) [])"

section \<open>Routing a message\<close>

text \<open>
  The request's payload is copied with the length the message carries
  (\<open>memcpy(out.payload, in->payload, in->payload_len)\<close>): a length beyond the buffer
  writes past it, which is the error value here.
\<close>

datatype dispatch_error = PayloadOverflow

text \<open>\<open>memcpy\<close> of \<open>n\<close> bytes of a NUL-terminated text into a zeroed buffer of \<open>cap\<close> bytes, read as a text
  again; nothing when it writes past the buffer, which is undefined.\<close>

definition memcpy_into :: "nat \<Rightarrow> nat \<Rightarrow> string \<Rightarrow> string option" where
  "memcpy_into cap n src = (if n \<le> cap then Some (take n src) else None)"

definition get_request :: "string \<Rightarrow> hes_clme_msg \<Rightarrow> dispatch_error + hes_clme_msg" where
  "get_request path msg =
     (let out = (hes_msg_set_path (hes_msg_init\<lparr>m_verb := HES_VERB_EVENT\<rparr>) path)
                  \<lparr>m_query := hes_strlcpy HES_QUERY_MAX (m_query msg), m_payload_len := m_payload_len msg\<rparr>
      in case memcpy_into HES_PAYLOAD_MAX (unat (m_payload_len msg)) (m_payload msg) of
           None \<Rightarrow> Inl PayloadOverflow
         | Some payload \<Rightarrow> Inr (out\<lparr>m_payload := payload\<rparr>))"

definition dispatch_to_local_objects ::
    "hes_bus \<Rightarrow> 'st service_object list \<Rightarrow> 'st \<Rightarrow> hes_clme_msg
      \<Rightarrow> dispatch_error + (bool \<times> hes_bus \<times> 'st)" where
  "dispatch_to_local_objects bus objs st msg =
     (case find_object objs (m_path msg) of
        None \<Rightarrow> Inr (False, bus, st)
      | Some (i, selector) \<Rightarrow>
          (let ob = objs ! i;
               list = (case selector of Some s \<Rightarrow> Some s | None \<Rightarrow> da_list (m_query msg))
           in case (m_verb msg = HES_VERB_GET, so_on_get ob) of
                (True, Some on_get) \<Rightarrow>
                  (case get_request (so_path ob) msg of
                     Inl e \<Rightarrow> Inl e
                   | Inr req \<Rightarrow>
                       (let (out, st') = on_get st req;
                            out = (case list of None \<Rightarrow> out | Some l \<Rightarrow> trim_payload out l)
                        in Inr (True, hes_bus_send bus out, st')))
              | _ \<Rightarrow>
                  (case (m_verb msg = HES_VERB_PUT, so_on_put ob) of
                     (True, Some on_put) \<Rightarrow> Inr (True, bus, on_put st msg)
                   | _ \<Rightarrow> Inr (True, bus, st))))"


section \<open>The search returns the longest served address\<close>

definition best_inv ::
    "'st service_object list \<Rightarrow> string \<Rightarrow> nat \<Rightarrow> (nat \<times> string option \<times> nat) option \<Rightarrow> bool" where
  "best_inv objs path i best \<longleftrightarrow>
     (case best of
        None \<Rightarrow> \<forall>j < i. serves path (so_path (objs ! j)) = None
      | Some (b, sel, l) \<Rightarrow>
          b < i \<and> serves path (so_path (objs ! b)) = Some sel \<and> l = length (so_path (objs ! b))
          \<and> (\<forall>j < i. serves path (so_path (objs ! j)) \<noteq> None \<longrightarrow>
               length (so_path (objs ! j)) \<le> l \<and> (j < b \<longrightarrow> length (so_path (objs ! j)) < l)))"

lemma best_inv_step:
  assumes "best_inv objs path i best"
  shows "best_inv objs path (Suc i)
           (case serves path (so_path (objs ! i)) of
              None \<Rightarrow> best
            | Some selector \<Rightarrow>
                (let len = length (so_path (objs ! i))
                 in case best of
                      None \<Rightarrow> Some (i, selector, len)
                    | Some (_, _, best_len) \<Rightarrow>
                        if len > best_len then Some (i, selector, len) else best))"
  using assms
  by (fastforce simp: best_inv_def less_Suc_eq Let_def split: option.splits prod.splits if_splits)

lemma find_object_from_inv:
  assumes "best_inv full path i best" "objs = drop i full"
  shows "best_inv full path (max i (length full)) (find_object_from objs path i best)"
  using assms
proof (induction objs path i best rule: find_object_from.induct)
  case (1 path i best)
  then show ?case by (simp add: max_def)
next
  case (2 ob objs path i best)
  from "2.prems"(2) have i: "i < length full" and ob: "ob = full ! i" and objs: "objs = drop (Suc i) full"
    by (metis drop_eq_Nil list.distinct(1) not_le, metis nth_via_drop, metis Cons_eq_append_conv
        drop_Suc list.sel(3) tl_drop)
  have "best_inv full path (max (Suc i) (length full))
          (find_object_from objs path (Suc i)
             (case serves path (so_path ob) of None \<Rightarrow> best
              | Some selector \<Rightarrow>
                  (let len = length (so_path ob)
                   in case best of None \<Rightarrow> Some (i, selector, len)
                      | Some (_, _, best_len) \<Rightarrow>
                          if len > best_len then Some (i, selector, len) else best)))"
    by (rule "2.IH"[OF best_inv_step[OF "2.prems"(1), folded ob] objs])
  with i show ?case by (simp add: max_def)
qed

lemma find_object_inv: "best_inv objs path (length objs) (find_object_from objs path 0 None)"
proof -
  have "best_inv objs path 0 None" by (simp add: best_inv_def)
  then have "best_inv objs path (max 0 (length objs)) (find_object_from objs path 0 None)"
    by (rule find_object_from_inv) simp
  then show ?thesis by simp
qed

lemma find_object_Some:
  assumes "find_object objs path = Some (i, sel)"
  shows "i < length objs" "serves path (so_path (objs ! i)) = Some sel"
    "j < length objs \<Longrightarrow> serves path (so_path (objs ! j)) \<noteq> None \<Longrightarrow>
       length (so_path (objs ! j)) \<le> length (so_path (objs ! i))"
  using find_object_inv[of objs path] assms
  by (auto simp: find_object_def best_inv_def)

lemma find_object_None:
  "find_object objs path = None \<longleftrightarrow> (\<forall>ob \<in> set objs. serves path (so_path ob) = None)"
proof
  assume "find_object objs path = None"
  then show "\<forall>ob \<in> set objs. serves path (so_path ob) = None"
    using find_object_inv[of objs path]
    by (auto simp: find_object_def best_inv_def in_set_conv_nth)
next
  assume none: "\<forall>ob \<in> set objs. serves path (so_path ob) = None"
  show "find_object objs path = None"
  proof (rule ccontr)
    assume "find_object objs path \<noteq> None"
    then obtain i sel where f: "find_object objs path = Some (i, sel)" by auto
    from find_object_Some(1,2)[OF f] none show False by (metis nth_mem option.distinct(1))
  qed
qed

lemma serves_self: "serves path path = Some None"
  by (simp add: serves_def on_boundary_def)

lemma serves_prefix: "serves path opath = Some sel \<Longrightarrow> take (length opath) path = opath"
  by (simp add: serves_def Let_def split: if_splits)

lemma serves_selector:
  "serves path opath = Some (Some seg) \<longleftrightarrow> path = opath @ ''/'' @ seg \<and> single_segment seg"
proof
  assume s: "serves path opath = Some (Some seg)"
  then have "drop (length opath) path = ''/'' @ seg" "take (length opath) path = opath" "single_segment seg"
    by (auto simp: serves_def on_boundary_def Let_def split: if_splits list.splits)
  then show "path = opath @ ''/'' @ seg \<and> single_segment seg"
    by (metis append_take_drop_id)
next
  assume "path = opath @ ''/'' @ seg \<and> single_segment seg"
  then show "serves path opath = Some (Some seg)"
    by (simp add: serves_def on_boundary_def)
qed

lemma serves_exact: "serves path opath = Some None \<longleftrightarrow> path = opath"
proof
  assume "serves path opath = Some None"
  then show "path = opath"
    using append_take_drop_id[of "length opath" path]
    by (auto simp: serves_def on_boundary_def Let_def split: if_splits list.splits)
qed (simp add: serves_self)

section \<open>The list of data points\<close>

lemma list_item_plain:
  assumes "\<forall>c \<in> set n. c \<noteq> CHR '','' \<and> c \<noteq> CHR ''&'' \<and> c \<noteq> CHR '' ''" "n \<noteq> []"
    and "rest = [] \<or> hd rest = CHR '',''"
  shows "skip_separators (n @ rest) = n @ rest" "list_item (n @ rest) = n"
proof -
  show "skip_separators (n @ rest) = n @ rest"
    using assms(1,2) unfolding skip_separators_def by (simp add: dropWhile_eq_self_iff)
  have tw: "takeWhile (\<lambda>c. c \<noteq> CHR '','' \<and> c \<noteq> CHR ''&'') (n @ rest) = n"
    using assms(1,3) by (cases rest) (auto simp: takeWhile_append2 takeWhile_eq_all_conv)
  have "hd (rev n) \<noteq> CHR '' ''"
    using assms(1,2) by (simp add: hd_rev)
  then have "dropWhile (\<lambda>c. c = CHR '' '') (rev n) = rev n"
    by (simp add: dropWhile_eq_self_iff)
  then show "list_item (n @ rest) = n"
    by (simp add: list_item_def tw strip_trailing_spaces_def)
qed

fun join_commas :: "string list \<Rightarrow> string" where
  "join_commas [] = []"
| "join_commas [n] = n"
| "join_commas (n # m # ns) = n @ '','' @ join_commas (m # ns)"

definition plain_name :: "string \<Rightarrow> bool" where
  "plain_name n \<longleftrightarrow> n \<noteq> [] \<and> (\<forall>c \<in> set n. c \<noteq> CHR '','' \<and> c \<noteq> CHR ''&'' \<and> c \<noteq> CHR '' '')"

lemma requested_comma: "name \<noteq> [] \<Longrightarrow> requested (CHR '','' # p) name = requested p name"
  if "p \<noteq> []" "hd p \<noteq> CHR ''&''"
  using that by (simp add: requested.simps[of "CHR '','' # p"] requested.simps[of p] skip_separators_def)

lemma requested_join:
  "\<forall>n \<in> set ns. plain_name n \<Longrightarrow> name \<noteq> [] \<Longrightarrow>
     requested (join_commas ns) name \<longleftrightarrow> name \<in> set ns"
proof (induction ns rule: join_commas.induct)
  case 1
  then show ?case by (simp add: requested.simps)
next
  case (2 n)
  then have n: "n \<noteq> []" "hd n \<noteq> CHR ''&''"
    and it: "skip_separators (n @ []) = n @ []" "list_item (n @ []) = n"
    using list_item_plain[of n "[]"] by (auto simp: plain_name_def)
  have "requested [] name = False" by (simp add: requested.simps)
  with n it show ?case by (auto simp: requested.simps[of n])
next
  case (3 n m ns)
  let ?rest = "CHR '','' # join_commas (m # ns)"
  from "3.prems" have n: "n \<noteq> []" "hd (n @ ?rest) \<noteq> CHR ''&''"
    and it: "skip_separators (n @ ?rest) = n @ ?rest" "list_item (n @ ?rest) = n"
    using list_item_plain[of n ?rest] by (auto simp: plain_name_def)
  have m: "join_commas (m # ns) \<noteq> []" "hd (join_commas (m # ns)) \<noteq> CHR ''&''"
    using "3.prems"(1) by (cases ns; auto simp: plain_name_def)+
  have "requested (n @ ?rest) name \<longleftrightarrow> n = name \<or> requested ?rest name"
    using n it by (auto simp: requested.simps[of "n @ ?rest"])
  with requested_comma[OF m "3.prems"(2)] "3.IH" "3.prems" show ?case by auto
qed

section \<open>Trimming keeps the selected records, in order\<close>





section \<open>The contract of an object that answers reads\<close>

text \<open>
  What the router relies on: an object's \<open>on_get\<close> answers in the message it was given
  (same verb, same address) and leaves a terminated payload in it.
\<close>

locale get_object =
  fixes on_get :: "'st \<Rightarrow> hes_clme_msg \<Rightarrow> hes_clme_msg \<times> 'st"
  assumes get_verb: "m_verb (fst (on_get st m)) = m_verb m"
    and get_path: "m_path (fst (on_get st m)) = m_path m"
    and get_payload: "length (m_payload (fst (on_get st m))) < HES_PAYLOAD_MAX"
begin

lemma answer:
  assumes found: "find_object objs (m_path msg) = Some (i, selector)"
    and handler: "so_on_get (objs ! i) = Some on_get"
    and get: "m_verb msg = HES_VERB_GET"
    and len: "unat (m_payload_len msg) \<le> HES_PAYLOAD_MAX"
  shows "\<exists>bus' st' out.
    dispatch_to_local_objects bus objs st msg = Inr (True, bus', st')
    \<and> bus_extends bus bus' \<and> sent_since bus bus' = [out]
    \<and> m_verb out = HES_VERB_EVENT
    \<and> m_path out = hes_strlcpy HES_PATH_MAX (so_path (objs ! i))
    \<and> length (m_payload out) < HES_PAYLOAD_MAX"
proof -
  obtain req where req: "get_request (so_path (objs ! i)) msg = Inr req"
    and r: "m_verb req = HES_VERB_EVENT" "m_path req = hes_strlcpy HES_PATH_MAX (so_path (objs ! i))"
    using len by (auto simp: get_request_def memcpy_into_def Let_def)
  obtain out st' where out: "on_get st req = (out, st')" by force
  define l where "l = (case selector of Some s \<Rightarrow> Some s | None \<Rightarrow> da_list (m_query msg))"
  define o' where "o' = (case l of None \<Rightarrow> out | Some l \<Rightarrow> trim_payload out l)"
  have "dispatch_to_local_objects bus objs st msg = Inr (True, hes_bus_send bus o', st')"
    by (simp add: dispatch_to_local_objects_def found handler get req out o'_def l_def Let_def)
  moreover have "m_verb o' = HES_VERB_EVENT" "m_path o' = m_path req"
    "length (m_payload o') < HES_PAYLOAD_MAX"
    using get_verb[of st req] get_path[of st req] get_payload[of st req] r out
    by (auto simp: o'_def trim_payload_def hes_strlcpy_take split: option.splits)
  ultimately show ?thesis
    using r by (auto simp: bus_extends_send)
qed

end

section \<open>Properties of the router\<close>

text \<open>the search returns an object that serves the address -- by its own address or by one
  further segment -- and among all objects that do, the one with the longest address.\<close>

theorem find_object_longest:
  assumes "find_object objs path = Some (i, selector)"
  shows "i < length objs
    \<and> (case selector of
         None \<Rightarrow> path = so_path (objs ! i)
       | Some seg \<Rightarrow> path = so_path (objs ! i) @ ''/'' @ seg \<and> single_segment seg)
    \<and> (\<forall>j < length objs. serves path (so_path (objs ! j)) \<noteq> None \<longrightarrow>
         length (so_path (objs ! j)) \<le> length (so_path (objs ! i)))"
  using find_object_Some[OF assms]
  by (auto simp: serves_exact serves_selector split: option.splits)

definition sample_objs :: "unit service_object list" where
  "sample_objs = [\<lparr>so_path = HES_LX_ID, so_on_get = None, so_on_put = None\<rparr>,
                  \<lparr>so_path = HES_LX_ID_CENTRALOPS_CV, so_on_get = None, so_on_put = None\<rparr>]"

lemma find_object_longest_witness:
  "find_object sample_objs ''/lx/ob/so/id/co/st/cv/pi'' = Some (1, Some ''pi'')
   \<and> (''/lx/ob/so/id/co/st/cv/pi'' :: string)
        = so_path (sample_objs ! 1) @ ''/'' @ ''pi''"
proof -
  have f: "find_object sample_objs ''/lx/ob/so/id/co/st/cv/pi'' = Some (1, Some ''pi'')"
    by (simp add: sample_objs_def find_object_def serves_def on_boundary_def single_segment_def)
  with find_object_longest[OF f] show ?thesis by simp
qed



text \<open>a name is requested exactly when it is an item of the comma-separated list.\<close>

theorem requested_iff_member:
  assumes "\<forall>n \<in> set ns. plain_name n" and "name \<noteq> []"
  shows "requested (join_commas ns) name \<longleftrightarrow> name \<in> set ns"
  using assms by (rule requested_join)

lemma requested_iff_member_witness:
  "requested ''va,ne'' ''ne'' \<and> \<not> requested ''va,ne'' ''n''"
  using requested_iff_member[of "[''va'', ''ne'']" "''ne''"]
    requested_iff_member[of "[''va'', ''ne'']" "''n''"]
  by (simp add: plain_name_def)

text \<open>The router copies the request's payload with the length the message itself carries; it
  fails exactly when that length is beyond the 512-byte buffer and a reading object is addressed.\<close>

lemma dispatch_overflow_iff:
  "dispatch_to_local_objects bus objs st msg = Inl PayloadOverflow \<longleftrightarrow>
     m_verb msg = HES_VERB_GET \<and> unat (m_payload_len msg) > HES_PAYLOAD_MAX
     \<and> (\<exists>i sel. find_object objs (m_path msg) = Some (i, sel) \<and> so_on_get (objs ! i) \<noteq> None)"
  by (auto simp: dispatch_to_local_objects_def get_request_def memcpy_into_def Let_def
      split: option.splits prod.splits bool.splits sum.splits if_splits)

end
