(* ===== verification/Bm.thy ===== *)
theory Bm
  imports HesCommon
begin

text \<open>
  The binding map (src/src/bm/bm.h, src/src/bm/bm.c): the operation and addressing tables, the value
  cache, the evaluation of a row, the recursive re-evaluation of the table, and the
  controller and processor services. Loading the tables from XML is in \<open>BmLoad\<close>.

  The host's two hooks are arguments: the app service (its result, the messages its script
  sends, its own state) and the per-message authorization. \<open>evaluate_op\<close> and
  \<open>bm_evaluate_all\<close> call each other without a bound of their own, so they carry the
  call depth that is left as fuel; \<open>None\<close> is an exhausted stack.
\<close>

abbreviation BM_MAX_OPS :: nat where "BM_MAX_OPS \<equiv> 32"
abbreviation BM_MAX_INPUTS :: nat where "BM_MAX_INPUTS \<equiv> 4"
abbreviation BM_MAX_ADDRS :: nat where "BM_MAX_ADDRS \<equiv> 64"
abbreviation BM_LIVE_INPUT_PARAM :: string where "BM_LIVE_INPUT_PARAM \<equiv> ''va''"

section \<open>Data\<close>

record bm_input =
  in_device_index :: u32
  in_source_object :: string
  in_condition :: string
  in_author_type :: string
  in_accompany_op :: string

record bm_operand =
  opd_device_index :: u32
  opd_source_object :: string
  opd_value :: dbl

record bm_operation =
  op_ref_id :: u32
  op_enabled :: bool
  op_operation :: string
  op_table_code :: string
  op_inputs :: "bm_input list"
  op_input_params :: "dbl list"
  op_ip_is_live :: "bool list"
  op_output_params :: "int list"
  op_out_device_index :: u32
  op_out_dest_object :: string
  op_out_method :: string
  op_out_adjustment :: string
  op_out_code :: string
  op_out_author_type :: string
  op_has_last_output :: bool
  op_last_output_value :: dbl
  op_has_last_inputs :: bool
  op_last_operands :: "dbl list"

record bm_addr =
  ad_device_index :: u32
  ad_module_type :: hes_module_type
  ad_module_ref_index :: u32
  ad_net_ref_index :: u32
  ad_address :: string

record binding_map =
  bm_ops :: "bm_operation list"
  bm_addrs :: "bm_addr list"
  bm_value_cache :: "u32 \<Rightarrow> dbl"
  bm_value_valid :: "u32 \<Rightarrow> bool"
  bm_authz_disabled :: bool
  bm_current_msg :: "hes_clme_msg option"

record 'a bm_hooks =
  app_operation ::
    "('a \<Rightarrow> bm_operation \<Rightarrow> bm_operand list \<Rightarrow> dbl option \<times> hes_clme_msg list \<times> 'a) option"
  auth_authorize :: "(hes_clme_msg \<Rightarrow> string \<Rightarrow> bool) option"

record 'a bm_state =
  s_bm :: binding_map
  s_bus :: hes_bus
  s_app :: 'a

definition bm_init :: binding_map where
  "bm_init = \<lparr>bm_ops = [], bm_addrs = [], bm_value_cache = (\<lambda>_. d_zero),
              bm_value_valid = (\<lambda>_. False), bm_authz_disabled = False, bm_current_msg = None\<rparr>"

section \<open>Operations and conditioning\<close>

definition apply_operation :: "string \<Rightarrow> dbl \<Rightarrow> dbl \<Rightarrow> dbl" where
  "apply_operation opcode a b =
     (if opcode = ''gt'' then d_of_bool (d_lt b a)
      else if opcode = ''lt'' then d_of_bool (d_lt a b)
      else if opcode = ''eq'' then d_of_bool (d_eq a b)
      else if opcode = ''ad'' then d_add a b
      else if opcode = ''su'' then d_sub a b
      else if opcode = ''mu'' then d_mul a b
      else if opcode = ''dv'' then (if \<not> d_eq b d_zero then d_div a b else d_zero)
      else if opcode = ''no'' then (if \<not> d_eq a d_zero then d_zero else d_one)
      else d_zero)"

definition op_ready :: "binding_map \<Rightarrow> bm_operation \<Rightarrow> bool" where
  "op_ready bm op \<longleftrightarrow>
     op_inputs op \<noteq> []
     \<and> list_all (\<lambda>i.
          \<not> (\<not> bm_authz_disabled bm \<and> in_author_type i = ''bk'')
          \<and> \<not> (in_device_index i = 0 \<or> unat (in_device_index i) > BM_MAX_ADDRS
                \<or> \<not> bm_value_valid bm (in_device_index i))) (op_inputs op)"

text \<open>True in the first component: the operation must be blocked.\<close>

definition apply_condition :: "string \<Rightarrow> dbl \<Rightarrow> bool \<times> dbl" where
  "apply_condition code v =
     (if code = [] \<or> code = ''pt'' then (False, v)
      else if code = ''bk'' then (True, v)
      else if code = ''av'' then (False, if d_lt v d_zero then d_neg v else v)
      else if code = ''ng'' then (False, d_neg v)
      else (False, v))"

definition op_requires_authorization :: "bm_operation \<Rightarrow> bool" where
  "op_requires_authorization op \<longleftrightarrow> list_ex (\<lambda>i. in_accompany_op i = ''au'') (op_inputs op)"

definition bm_at_address :: "bm_operation \<Rightarrow> nat \<Rightarrow> string" where
  "bm_at_address op buf_size =
     hes_strlcpy buf_size (''/lx/ob/bm/'' @ op_table_code op @ ''/'' @ op_out_code op @ ''/at'')"

definition output_authorized :: "'a bm_hooks \<Rightarrow> binding_map \<Rightarrow> bm_operation \<Rightarrow> bool" where
  "output_authorized h bm op =
     (if bm_authz_disabled bm then True
      else if op_out_author_type op = ''bk'' \<or> op_out_author_type op = ''pa'' then False
      else if op_requires_authorization op then
        (case (auth_authorize h, bm_current_msg bm) of
           (Some auth, Some msg) \<Rightarrow> auth msg (bm_at_address op HES_PATH_MAX)
         | _ \<Rightarrow> False)
      else True)"

section \<open>Evaluating a row\<close>

fun collect_operands :: "binding_map \<Rightarrow> bm_input list \<Rightarrow> bm_operand list option" where
  "collect_operands bm [] = Some []"
| "collect_operands bm (i # is) =
     (let (blocked, v) = apply_condition (in_condition i) (bm_value_cache bm (in_device_index i))
      in if blocked then None
         else (case collect_operands bm is of
                 None \<Rightarrow> None
               | Some ops \<Rightarrow>
                   Some (\<lparr>opd_device_index = in_device_index i,
                          opd_source_object = hes_strlcpy HES_PATH_MAX (in_source_object i),
                          opd_value = v\<rparr> # ops)))"

definition inputs_changed :: "bm_operation \<Rightarrow> dbl list \<Rightarrow> bool" where
  "inputs_changed op vals \<longleftrightarrow>
     \<not> op_has_last_inputs op \<or> \<not> list_all2 d_eq (op_last_operands op) vals"

definition second_operand :: "bm_operation \<Rightarrow> dbl list \<Rightarrow> dbl" where
  "second_operand op vals =
     (if length vals \<ge> 2 then vals ! 1
      else if length (op_input_params op) \<ge> 2 \<and> \<not> op_ip_is_live op ! 1 then op_input_params op ! 1
      else d_zero)"

definition set_op :: "nat \<Rightarrow> bm_operation \<Rightarrow> 'a bm_state \<Rightarrow> 'a bm_state" where
  "set_op i op st = st\<lparr>s_bm := (s_bm st)\<lparr>bm_ops := (bm_ops (s_bm st))[i := op]\<rparr>\<rparr>"

fun send_all :: "hes_bus \<Rightarrow> hes_clme_msg list \<Rightarrow> hes_bus" where
  "send_all bus [] = bus"
| "send_all bus (m # ms) = send_all (hes_bus_send bus m) ms"

text \<open>The operation itself: the host's app for 'ap', the built-in set otherwise; \<open>None\<close> when the
  row is skipped.\<close>

definition compute ::
    "'a bm_hooks \<Rightarrow> bm_operation \<Rightarrow> bm_operand list \<Rightarrow> 'a bm_state \<Rightarrow> dbl option \<times> 'a bm_state" where
  "compute h op operands st =
     (if op_operation op = ''ap'' then
        (case app_operation h of
           None \<Rightarrow> (None, st)
         | Some app \<Rightarrow>
             (let (r, ms, a') = app (s_app st) op operands
              in (r, st\<lparr>s_app := a', s_bus := send_all (s_bus st) ms\<rparr>)))
      else (let vals = map opd_value operands
            in (Some (apply_operation (op_operation op) (hd vals) (second_operand op vals)), st)))"

text \<open>\<open>evaluate_op\<close> up to its commit point: \<open>Some result\<close> when the output is going to happen.\<close>

definition evaluate_row :: "'a bm_hooks \<Rightarrow> nat \<Rightarrow> 'a bm_state \<Rightarrow> 'a bm_state \<times> dbl option" where
  "evaluate_row h i st =
     (let op = bm_ops (s_bm st) ! i
      in if \<not> op_enabled op \<or> \<not> op_ready (s_bm st) op then (st, None)
         else
           (case collect_operands (s_bm st) (op_inputs op) of
              None \<Rightarrow> (st, None)
            | Some operands \<Rightarrow>
                if operands = [] then (st, None)
                else
                  (let vals = map opd_value operands;
                       changed = inputs_changed op vals;
                       op' = op\<lparr>op_has_last_inputs := True, op_last_operands := vals\<rparr>;
                       st = set_op i op' st
                   in if \<not> changed then (st, None)
                      else
                        (case compute h op' operands st of
                           (None, st) \<Rightarrow> (st, None)
                         | (Some r, st) \<Rightarrow>
                             (let (blocked, result) = apply_condition (op_out_adjustment op) r
                              in if blocked then (st, None)
                                 else if op_has_last_output op \<and> d_eq result (op_last_output_value op)
                                 then (st, None)
                                 else if op_out_dest_object op \<noteq> []
                                         \<and> \<not> output_authorized h (s_bm st) op
                                 then (st, None)
                                 else (st, Some result))))))"

definition chains :: "nat \<Rightarrow> 'a bm_state \<Rightarrow> bool" where
  "chains i st \<longleftrightarrow>
     (let di = op_out_device_index (bm_ops (s_bm st) ! i) in di > 0 \<and> unat di \<le> BM_MAX_ADDRS)"

definition commit_output :: "nat \<Rightarrow> dbl \<Rightarrow> 'a bm_state \<Rightarrow> 'a bm_state" where
  "commit_output i result st =
     (let op = bm_ops (s_bm st) ! i; di = op_out_device_index op;
          st' = set_op i (op\<lparr>op_has_last_output := True, op_last_output_value := result\<rparr>) st
      in if chains i st then
           st'\<lparr>s_bm := (s_bm st')\<lparr>bm_value_cache := (bm_value_cache (s_bm st'))(di := result),
                                bm_value_valid := (bm_value_valid (s_bm st'))(di := True)\<rparr>\<rparr>
         else st')"

definition put_message :: "bm_operation \<Rightarrow> dbl \<Rightarrow> hes_clme_msg" where
  "put_message op result =
     hes_msg_set_payload_str
       (hes_msg_set_path
          (hes_msg_init\<lparr>m_verb := HES_VERB_PUT, m_device_index := op_out_device_index op\<rparr>)
          (op_out_dest_object op))
       (hes_strlcpy 32 (fmt_g result))"

definition send_put :: "nat \<Rightarrow> dbl \<Rightarrow> 'a bm_state \<Rightarrow> 'a bm_state" where
  "send_put i result st =
     (let op = bm_ops (s_bm st) ! i
      in if op_out_dest_object op \<noteq> []
         then st\<lparr>s_bus := hes_bus_send (s_bus st) (put_message op result)\<rparr> else st)"

definition row_indices :: "'a bm_state \<Rightarrow> nat list" where
  "row_indices st = [0 ..< length (bm_ops (s_bm st))]"

function (sequential) evaluate_op :: "'a bm_hooks \<Rightarrow> nat \<Rightarrow> nat \<Rightarrow> 'a bm_state \<Rightarrow> 'a bm_state option"
  and evaluate_rows :: "'a bm_hooks \<Rightarrow> nat \<Rightarrow> nat list \<Rightarrow> 'a bm_state \<Rightarrow> 'a bm_state option" where
  "evaluate_op h 0 i st = None"
| "evaluate_op h (Suc fuel) i st =
     (case evaluate_row h i st of
        (st1, None) \<Rightarrow> Some st1
      | (st1, Some result) \<Rightarrow>
          if chains i st1
          then map_option (send_put i result)
                 (evaluate_rows h fuel (row_indices st1) (commit_output i result st1))
          else Some (send_put i result (commit_output i result st1)))"
| "evaluate_rows h fuel [] st = Some st"
| "evaluate_rows h fuel (i # is) st =
     Option.bind (evaluate_op h fuel i st) (evaluate_rows h fuel is)"
  by pat_completeness auto
termination
  by (relation "measures [\<lambda>x. case x of Inl (_, f, _, _) \<Rightarrow> f | Inr (_, f, _, _) \<Rightarrow> f,
                          \<lambda>x. case x of Inl _ \<Rightarrow> 0 | Inr (_, _, is, _) \<Rightarrow> length is]") auto

definition bm_evaluate_all :: "'a bm_hooks \<Rightarrow> nat \<Rightarrow> 'a bm_state \<Rightarrow> 'a bm_state option" where
  "bm_evaluate_all h fuel st = evaluate_rows h fuel (row_indices st) st"

section \<open>Looking up and authorizing\<close>

definition bm_find_addr :: "binding_map \<Rightarrow> u32 \<Rightarrow> bm_addr option" where
  "bm_find_addr bm device_index = List.find (\<lambda>a. ad_device_index a = device_index) (bm_addrs bm)"

definition bm_set_at :: "binding_map \<Rightarrow> string \<Rightarrow> string \<Rightarrow> binding_map option" where
  "bm_set_at bm at_address value =
     (case first_index (\<lambda>op. bm_at_address op HES_PATH_MAX = at_address) (bm_ops bm) of
        None \<Rightarrow> None
      | Some i \<Rightarrow>
          Some (bm\<lparr>bm_ops := (bm_ops bm)
                   [i := (bm_ops bm ! i)\<lparr>op_out_author_type := hes_strlcpy 4 value\<rparr>]\<rparr>))"

definition bm_disable_authorization :: "binding_map \<Rightarrow> binding_map" where
  "bm_disable_authorization bm = bm\<lparr>bm_authz_disabled := True\<rparr>"

definition bm_is_declared_destination :: "binding_map \<Rightarrow> string \<Rightarrow> u32 \<Rightarrow> bool" where
  "bm_is_declared_destination bm path device_index =
     (if path = [] \<or> device_index = 0 then False
      else (case bm_find_addr bm device_index of
              None \<Rightarrow> False
            | Some addr \<Rightarrow>
                ad_module_type addr = HES_MODTYPE_HI \<or> ad_module_type addr = HES_MODTYPE_WI))"

section \<open>The controller\<close>

type_synonym sub_key = "string \<times> u32"

definition subscribe_message :: "bm_input \<Rightarrow> hes_clme_msg" where
  "subscribe_message i =
     hes_msg_set_path (hes_msg_init\<lparr>m_verb := HES_VERB_SUBSCRIBE, m_device_index := in_device_index i\<rparr>)
       (in_source_object i)"

definition controller_input :: "binding_map \<Rightarrow> bm_input \<Rightarrow> hes_bus \<times> sub_key list \<Rightarrow> hes_bus \<times> sub_key list" where
  "controller_input bm i acc =
     (case acc of (bus, sent) \<Rightarrow>
        if in_source_object i = [] then acc
        else if list_ex (\<lambda>(p, d). d = in_device_index i \<and> p = in_source_object i) sent then acc
        else (case bm_find_addr bm (in_device_index i) of
                None \<Rightarrow> acc
              | Some addr \<Rightarrow>
                  if ad_module_type addr = HES_MODTYPE_IT \<or> ad_module_type addr = HES_MODTYPE_NONE then acc
                  else (hes_bus_send bus (subscribe_message i),
                        if length sent < BM_MAX_ADDRS
                        then sent @ [(hes_strlcpy HES_PATH_MAX (in_source_object i), in_device_index i)]
                        else sent)))"

definition controller_op :: "binding_map \<Rightarrow> bm_operation \<Rightarrow> hes_bus \<times> sub_key list \<Rightarrow> hes_bus \<times> sub_key list" where
  "controller_op bm op acc = (if \<not> op_enabled op then acc else fold (controller_input bm) (op_inputs op) acc)"

definition bm_controller_start :: "binding_map \<Rightarrow> hes_bus \<Rightarrow> hes_bus" where
  "bm_controller_start bm bus = fst (fold (controller_op bm) (bm_ops bm) (bus, []))"

section \<open>The processor\<close>

text \<open>\<open>p\<close> is what is left of the payload; the flag is \<open>structured\<close>.\<close>

function datum_loop :: "string \<Rightarrow> string option \<Rightarrow> string \<Rightarrow> bool \<Rightarrow> dbl" where
  "datum_loop payload trans_code p structured =
     (let done = (\<lambda>structured. if structured then d_zero else atof payload)
      in if p = [] then done structured
         else
           (let seg = takeWhile (\<lambda>c. c \<noteq> CHR '';'') p;
                rest = dropWhile (\<lambda>c. c \<noteq> CHR '';'') p;
                has_eq = (CHR ''='' \<in> set seg);
                name = takeWhile (\<lambda>c. c \<noteq> CHR ''='') seg
            in if has_eq \<and> name \<noteq> [] \<and> trans_code = Some name
               then atof (drop (length name + 1) p)
               else (case rest of
                       [] \<Rightarrow> done (structured \<or> has_eq)
                     | _ # p' \<Rightarrow> datum_loop payload trans_code p' (structured \<or> has_eq))))"
  by pat_completeness auto
termination
  by (relation "measure (\<lambda>(_, _, p, _). length p)") (auto dest: length_dropWhile_less')

declare datum_loop.simps [simp del]

definition bm_datum_value :: "string option \<Rightarrow> string option \<Rightarrow> dbl" where
  "bm_datum_value payload trans_code =
     (case payload of None \<Rightarrow> d_zero | Some p \<Rightarrow> datum_loop p trans_code p False)"

definition input_matches :: "hes_clme_msg \<Rightarrow> bm_input \<Rightarrow> bool" where
  "input_matches msg i \<longleftrightarrow> in_source_object i \<noteq> [] \<and> in_source_object i = m_path msg
     \<and> (m_device_index msg = 0 \<or> in_device_index i = m_device_index msg)"

definition store_input :: "hes_clme_msg \<Rightarrow> dbl \<Rightarrow> bm_input \<Rightarrow> binding_map \<times> bool \<Rightarrow> binding_map \<times> bool" where
  "store_input msg v i acc =
     (case acc of (bm, updated_any) \<Rightarrow>
        if input_matches msg i \<and> in_device_index i > 0 \<and> unat (in_device_index i) \<le> BM_MAX_ADDRS
        then (bm\<lparr>bm_value_cache := (bm_value_cache bm)(in_device_index i := v),
                 bm_value_valid := (bm_value_valid bm)(in_device_index i := True)\<rparr>, True)
        else acc)"

definition store_report :: "hes_clme_msg \<Rightarrow> dbl \<Rightarrow> binding_map \<Rightarrow> binding_map \<times> bool" where
  "store_report msg v bm =
     fold (\<lambda>op. fold (store_input msg v) (op_inputs op)) (bm_ops bm) (bm, False)"

definition bm_processor_handle ::
    "'a bm_hooks \<Rightarrow> nat \<Rightarrow> hes_clme_msg \<Rightarrow> 'a bm_state \<Rightarrow> 'a bm_state option" where
  "bm_processor_handle h fuel msg st =
     (if m_verb msg \<noteq> HES_VERB_EVENT \<and> m_verb msg \<noteq> HES_VERB_GET then Some st
      else if m_payload msg = [] then Some st
      else
        (let bm = (s_bm st)\<lparr>bm_current_msg := Some msg\<rparr>;
             v = bm_datum_value (Some (m_payload msg)) (Some BM_LIVE_INPUT_PARAM);
             (bm, updated_any) = store_report msg v bm;
             st = st\<lparr>s_bm := bm\<rparr>
         in if updated_any then bm_evaluate_all h fuel st else Some st))"

end
