(* ===== verification/BmEngine.thy ===== *)
theory BmEngine
  imports Bm
begin

text \<open>
  The evaluation of the binding map as an interface. \<open>row_engine\<close> is the recursion of
  \<open>evaluate_op\<close> and \<open>bm_evaluate_all\<close>: a row is run, its result is committed, the
  table is evaluated again when the commit may unlock a row, and the output is emitted.
  \<open>guarded\<close> adds an invariant and a fact about every result that passed the gates,
  \<open>cascade\<close> a potential every chained commit lowers, \<open>settling\<close> what it means for
  a row to have nothing left to do. The interpretations are in \<open>BmRows\<close>.
\<close>

locale row_engine =
  fixes ev_op :: "nat \<Rightarrow> nat \<Rightarrow> 's \<Rightarrow> 's option"
    and ev_rows :: "nat \<Rightarrow> nat list \<Rightarrow> 's \<Rightarrow> 's option"
    and row :: "nat \<Rightarrow> 's \<Rightarrow> 's \<times> 'r option"
    and commit :: "nat \<Rightarrow> 'r \<Rightarrow> 's \<Rightarrow> 's"
    and emit :: "nat \<Rightarrow> 'r \<Rightarrow> 's \<Rightarrow> 's"
    and unlocks :: "nat \<Rightarrow> 's \<Rightarrow> bool"
    and rows :: "'s \<Rightarrow> nat list"
  assumes op_0: "ev_op 0 i s = None"
    and op_Suc: "ev_op (Suc n) i s =
      (case row i s of
         (s1, None) \<Rightarrow> Some s1
       | (s1, Some r) \<Rightarrow>
           if unlocks i s1 then map_option (emit i r) (ev_rows n (rows s1) (commit i r s1))
           else Some (emit i r (commit i r s1)))"
    and rows_Nil: "ev_rows n [] s = Some s"
    and rows_Cons: "ev_rows n (i # is) s = Option.bind (ev_op n i s) (ev_rows n is)"
begin

lemma op_cases:
  assumes "ev_op n i s = Some s'"
  obtains (skip) "row i s = (s', None)"
  | (leaf) s1 r where "row i s = (s1, Some r)" "\<not> unlocks i s1" "s' = emit i r (commit i r s1)"
  | (chain) n' s1 r s2 where "n = Suc n'" "row i s = (s1, Some r)" "unlocks i s1"
      "ev_rows n' (rows s1) (commit i r s1) = Some s2" "s' = emit i r s2"
proof -
  obtain n' where n: "n = Suc n'" using assms by (cases n) (auto simp: op_0)
  obtain s1 res where row: "row i s = (s1, res)" by (cases "row i s")
  show thesis
  proof (cases res)
    case None
    then show thesis using assms n row skip by (simp add: op_Suc)
  next
    case (Some r)
    show thesis
    proof (cases "unlocks i s1")
      case True
      with assms n row Some obtain s2 where
        "ev_rows n' (rows s1) (commit i r s1) = Some s2" "s' = emit i r s2"
        by (auto simp: op_Suc)
      with n row Some True chain show thesis by blast
    next
      case False
      with assms n row Some leaf show thesis by (auto simp: op_Suc)
    qed
  qed
qed

text \<open>A first row that fires, chains and leaves itself ready to fire again never comes back.\<close>

lemma never_returns:
  assumes again: "\<And>s. P s \<Longrightarrow> \<exists>s1 r is. row i s = (s1, Some r) \<and> unlocks i s1
                     \<and> rows s1 = i # is \<and> P (commit i r s1)"
    and "P s"
  shows "ev_op n i s = None"
  using assms(2)
proof (induction n arbitrary: s)
  case 0
  show ?case by (rule op_0)
next
  case (Suc n)
  from again[OF Suc.prems] obtain s1 r "is" where
    "row i s = (s1, Some r)" "unlocks i s1" "rows s1 = i # is" "P (commit i r s1)" by blast
  then show ?case using Suc.IH[of "commit i r s1"] by (simp add: op_Suc rows_Cons)
qed

lemma rows_ConsD:
  assumes "ev_rows n (i # is) s = Some s'"
  obtains s1 where "ev_op n i s = Some s1" "ev_rows n is s1 = Some s'"
  using assms by (auto simp: rows_Cons Option.bind_eq_Some_conv)

end

locale guarded = row_engine ev_op ev_rows row commit emit unlocks rows
  for ev_op :: "nat \<Rightarrow> nat \<Rightarrow> 's \<Rightarrow> 's option"
    and ev_rows :: "nat \<Rightarrow> nat list \<Rightarrow> 's \<Rightarrow> 's option"
    and row :: "nat \<Rightarrow> 's \<Rightarrow> 's \<times> 'r option"
    and commit :: "nat \<Rightarrow> 'r \<Rightarrow> 's \<Rightarrow> 's"
    and emit :: "nat \<Rightarrow> 'r \<Rightarrow> 's \<Rightarrow> 's"
    and unlocks :: "nat \<Rightarrow> 's \<Rightarrow> bool"
    and rows :: "'s \<Rightarrow> nat list" +
  fixes inv :: "'s \<Rightarrow> bool"
    and dm :: "nat \<Rightarrow> bool"
    and passed :: "nat \<Rightarrow> 'r \<Rightarrow> bool"
  assumes rows_dm: "inv s \<Longrightarrow> set (rows s) = {i. dm i}"
    and row_inv: "inv s \<Longrightarrow> dm i \<Longrightarrow> row i s = (s1, res) \<Longrightarrow> inv s1"
    and row_passed: "inv s \<Longrightarrow> dm i \<Longrightarrow> row i s = (s1, Some r) \<Longrightarrow> passed i r"
    and commit_inv: "inv s \<Longrightarrow> dm i \<Longrightarrow> passed i r \<Longrightarrow> inv (commit i r s)"
    and emit_inv: "inv s \<Longrightarrow> dm i \<Longrightarrow> passed i r \<Longrightarrow> inv (emit i r s)"
begin

lemma op_keeps_if:
  assumes rec: "\<And>n' is s s'. n = Suc n' \<Longrightarrow> inv s \<Longrightarrow> \<forall>j \<in> set is. dm j \<Longrightarrow>
                  ev_rows n' is s = Some s' \<Longrightarrow> inv s'"
    and "inv s" "dm i" "ev_op n i s = Some s'"
  shows "inv s'"
  using assms(4)
proof (cases rule: op_cases)
  case skip
  then show ?thesis using assms(2,3) row_inv by blast
next
  case (leaf s1 r)
  then show ?thesis using assms(2,3) row_inv row_passed commit_inv emit_inv by metis
next
  case (chain n' s1 r s2)
  have s1: "inv s1" and r: "passed i r" using assms(2,3) chain(2) row_inv row_passed by blast+
  have "inv s2"
    using rec[OF chain(1) commit_inv[OF s1 assms(3) r] _ chain(4)] rows_dm[OF s1] by simp
  then show ?thesis using chain(5) emit_inv[OF _ assms(3) r] by simp
qed

lemma rows_keep_if:
  assumes op: "\<And>i s s'. inv s \<Longrightarrow> dm i \<Longrightarrow> ev_op n i s = Some s' \<Longrightarrow> inv s'"
  shows "inv s \<Longrightarrow> \<forall>j \<in> set is. dm j \<Longrightarrow> ev_rows n is s = Some s' \<Longrightarrow> inv s'"
proof (induction "is" arbitrary: s)
  case Nil
  then show ?case by (simp add: rows_Nil)
next
  case (Cons i "is")
  from Cons.prems(3) obtain s1 where "ev_op n i s = Some s1" "ev_rows n is s1 = Some s'"
    by (rule rows_ConsD)
  then show ?case using Cons.IH[of s1] Cons.prems(1,2) op[of s i s1] by simp
qed

lemma rows_keep: "inv s \<Longrightarrow> \<forall>j \<in> set is. dm j \<Longrightarrow> ev_rows n is s = Some s' \<Longrightarrow> inv s'"
proof (induction n arbitrary: "is" s s')
  case 0
  show ?case by (rule rows_keep_if[OF op_keeps_if 0]) auto
next
  case (Suc n)
  show ?case by (rule rows_keep_if[OF op_keeps_if Suc.prems]) (use Suc.IH in auto)
qed

lemma op_keeps: "inv s \<Longrightarrow> dm i \<Longrightarrow> ev_op n i s = Some s' \<Longrightarrow> inv s'"
  using op_keeps_if[of n s i s'] rows_keep by blast

lemma all_keeps: "inv s \<Longrightarrow> ev_rows n (rows s) s = Some s' \<Longrightarrow> inv s'"
  by (rule rows_keep[of s "rows s" n s']) (simp_all add: rows_dm)

end

locale cascade = guarded ev_op ev_rows row commit emit unlocks rows inv dm passed
  for ev_op :: "nat \<Rightarrow> nat \<Rightarrow> 's \<Rightarrow> 's option"
    and ev_rows :: "nat \<Rightarrow> nat list \<Rightarrow> 's \<Rightarrow> 's option"
    and row :: "nat \<Rightarrow> 's \<Rightarrow> 's \<times> 'r option"
    and commit :: "nat \<Rightarrow> 'r \<Rightarrow> 's \<Rightarrow> 's"
    and emit :: "nat \<Rightarrow> 'r \<Rightarrow> 's \<Rightarrow> 's"
    and unlocks :: "nat \<Rightarrow> 's \<Rightarrow> bool"
    and rows :: "'s \<Rightarrow> nat list"
    and inv :: "'s \<Rightarrow> bool"
    and dm :: "nat \<Rightarrow> bool"
    and passed :: "nat \<Rightarrow> 'r \<Rightarrow> bool" +
  fixes potential :: "'s \<Rightarrow> nat"
  assumes row_potential: "inv s \<Longrightarrow> dm i \<Longrightarrow> row i s = (s1, res) \<Longrightarrow> potential s1 \<le> potential s"
    and chain_potential: "inv s \<Longrightarrow> dm i \<Longrightarrow> row i s = (s1, Some r) \<Longrightarrow> unlocks i s1 \<Longrightarrow>
                            potential (commit i r s1) < potential s"
    and leaf_potential: "inv s \<Longrightarrow> dm i \<Longrightarrow> row i s = (s1, Some r) \<Longrightarrow> \<not> unlocks i s1 \<Longrightarrow>
                            potential (commit i r s1) \<le> potential s"
    and emit_potential: "potential (emit i r s) = potential s"
begin

lemma rows_return_if:
  assumes op: "\<And>i s. inv s \<Longrightarrow> dm i \<Longrightarrow> potential s < n \<Longrightarrow>
                 \<exists>s'. ev_op n i s = Some s' \<and> potential s' \<le> potential s"
  shows "inv s \<Longrightarrow> \<forall>j \<in> set is. dm j \<Longrightarrow> potential s < n \<Longrightarrow>
           \<exists>s'. ev_rows n is s = Some s' \<and> potential s' \<le> potential s"
proof (induction "is" arbitrary: s)
  case Nil
  then show ?case by (simp add: rows_Nil)
next
  case (Cons i "is")
  from op[of s i] Cons.prems obtain s1 where s1: "ev_op n i s = Some s1" "potential s1 \<le> potential s"
    by auto
  have "inv s1" by (rule op_keeps[OF _ _ s1(1)]) (use Cons.prems in simp_all)
  then obtain s' where "ev_rows n is s1 = Some s'" "potential s' \<le> potential s1"
    using Cons.IH[of s1] Cons.prems s1(2) by auto
  then show ?case using s1 by (auto simp: rows_Cons)
qed

lemma rows_return:
  "inv s \<Longrightarrow> \<forall>j \<in> set is. dm j \<Longrightarrow> potential s < n \<Longrightarrow>
     \<exists>s'. ev_rows n is s = Some s' \<and> potential s' \<le> potential s"
proof (induction n arbitrary: "is" s)
  case 0
  then show ?case by simp
next
  case (Suc n)
  show ?case
  proof (rule rows_return_if[OF _ Suc.prems])
    fix i s
    assume inv: "inv s" and dm: "dm i" and fuel: "potential s < Suc n"
    obtain s1 res where row: "row i s = (s1, res)" by (cases "row i s")
    show "\<exists>s'. ev_op (Suc n) i s = Some s' \<and> potential s' \<le> potential s"
    proof (cases "\<exists>r. res = Some r \<and> unlocks i s1")
      case True
      then obtain r where r: "res = Some r" "unlocks i s1" by blast
      have s1: "inv s1" and c: "inv (commit i r s1)"
        using inv dm row r(1) row_inv row_passed commit_inv by blast+
      have less: "potential (commit i r s1) < potential s"
        using chain_potential inv dm row r by blast
      obtain s2 where "ev_rows n (rows s1) (commit i r s1) = Some s2"
          "potential s2 \<le> potential (commit i r s1)"
        using Suc.IH[OF c, of "rows s1"] rows_dm[OF s1] less fuel by auto
      then show ?thesis using row r less by (auto simp: op_Suc emit_potential)
    next
      case False
      then show ?thesis
        using inv dm row row_potential[OF inv dm row] leaf_potential[OF inv dm]
        by (cases res) (auto simp: op_Suc emit_potential)
    qed
  qed
qed

lemma all_return: "inv s \<Longrightarrow> potential s < n \<Longrightarrow> \<exists>s'. ev_rows n (rows s) s = Some s'"
  using rows_return[of s "rows s" n] rows_dm[of s] by auto

end

locale settling = guarded ev_op ev_rows row commit emit unlocks rows inv dm passed
  for ev_op :: "nat \<Rightarrow> nat \<Rightarrow> 's \<Rightarrow> 's option"
    and ev_rows :: "nat \<Rightarrow> nat list \<Rightarrow> 's \<Rightarrow> 's option"
    and row :: "nat \<Rightarrow> 's \<Rightarrow> 's \<times> 'r option"
    and commit :: "nat \<Rightarrow> 'r \<Rightarrow> 's \<Rightarrow> 's"
    and emit :: "nat \<Rightarrow> 'r \<Rightarrow> 's \<Rightarrow> 's"
    and unlocks :: "nat \<Rightarrow> 's \<Rightarrow> bool"
    and rows :: "'s \<Rightarrow> nat list"
    and inv :: "'s \<Rightarrow> bool"
    and dm :: "nat \<Rightarrow> bool"
    and passed :: "nat \<Rightarrow> 'r \<Rightarrow> bool" +
  fixes quiet :: "nat \<Rightarrow> 's \<Rightarrow> bool"
  assumes row_quiet: "inv s \<Longrightarrow> dm i \<Longrightarrow> row i s = (s1, res) \<Longrightarrow> quiet j s \<or> j = i \<Longrightarrow> quiet j s1"
    and leaf_quiet: "\<not> unlocks i s \<Longrightarrow> quiet j s \<Longrightarrow> quiet j (commit i r s)"
    and emit_quiet: "quiet j s \<Longrightarrow> quiet j (emit i r s)"
begin

lemma op_settles_if:
  assumes rec: "\<And>n' is s s'. n = Suc n' \<Longrightarrow> inv s \<Longrightarrow> \<forall>j \<in> set is. dm j \<Longrightarrow>
                  ev_rows n' is s = Some s' \<Longrightarrow> \<forall>j \<in> set is. quiet j s'"
    and "inv s" "dm i" "ev_op n i s = Some s'" "dm j" "quiet j s \<or> j = i"
  shows "quiet j s'"
  using assms(4)
proof (cases rule: op_cases)
  case skip
  then show ?thesis using assms row_quiet by blast
next
  case (leaf s1 r)
  then show ?thesis using assms row_quiet leaf_quiet emit_quiet by metis
next
  case (chain n' s1 r s2)
  have s1: "inv s1" and r: "passed i r" using assms(2,3) chain(2) row_inv row_passed by blast+
  have "\<forall>j \<in> set (rows s1). quiet j s2"
    by (rule rec[OF chain(1) commit_inv[OF s1 assms(3) r] _ chain(4)]) (simp add: rows_dm[OF s1])
  then show ?thesis using chain(5) assms(5) rows_dm[OF s1] emit_quiet by simp
qed

lemma rows_settle_if:
  assumes op: "\<And>i s s' j. inv s \<Longrightarrow> dm i \<Longrightarrow> ev_op n i s = Some s' \<Longrightarrow> dm j \<Longrightarrow>
                 quiet j s \<or> j = i \<Longrightarrow> quiet j s'"
  shows "inv s \<Longrightarrow> \<forall>j \<in> set is. dm j \<Longrightarrow> ev_rows n is s = Some s' \<Longrightarrow> dm j \<Longrightarrow>
           quiet j s \<or> j \<in> set is \<Longrightarrow> quiet j s'"
proof (induction "is" arbitrary: s)
  case Nil
  then show ?case by (simp add: rows_Nil)
next
  case (Cons i "is")
  from Cons.prems(3) obtain s1 where s1: "ev_op n i s = Some s1" "ev_rows n is s1 = Some s'"
    by (rule rows_ConsD)
  have "inv s1" by (rule op_keeps[OF _ _ s1(1)]) (use Cons.prems in simp_all)
  moreover have "quiet j s1" if "quiet j s \<or> j = i"
    by (rule op[OF _ _ s1(1) _ that]) (use Cons.prems in simp_all)
  ultimately show ?case using Cons.IH[of s1] Cons.prems s1(2) by auto
qed

lemma rows_settle:
  "inv s \<Longrightarrow> \<forall>j \<in> set is. dm j \<Longrightarrow> ev_rows n is s = Some s' \<Longrightarrow> dm j \<Longrightarrow>
     quiet j s \<or> j \<in> set is \<Longrightarrow> quiet j s'"
proof (induction n arbitrary: "is" s s' j)
  case 0
  have "quiet k s'" if "inv s" "dm i" "ev_op 0 i s = Some s'" for i s s' k
    using that by (simp add: op_0)
  from rows_settle_if[OF this 0] show ?case .
next
  case (Suc n)
  have rec: "\<forall>j \<in> set is. quiet j s'"
    if "Suc n = Suc m" "inv s" "\<forall>j \<in> set is. dm j" "ev_rows m is s = Some s'" for m "is" s s'
    using Suc.IH[OF that(2,3)] that by simp
  have "quiet k s'"
    if "inv s" "dm i" "ev_op (Suc n) i s = Some s'" "dm k" "quiet k s \<or> k = i" for i s s' k
    by (rule op_settles_if[OF rec that]) assumption+
  from rows_settle_if[OF this Suc.prems] show ?case .
qed

lemma all_settle: "inv s \<Longrightarrow> ev_rows n (rows s) s = Some s' \<Longrightarrow> dm j \<Longrightarrow> quiet j s'"
  using rows_settle[of s "rows s" n s' j] rows_dm[of s] by auto

end

interpretation bm_engine: row_engine "evaluate_op h" "evaluate_rows h" "evaluate_row h"
    commit_output send_put chains row_indices for h
  by unfold_locales (simp_all split: prod.split option.split)

end
