(* ===== verification/BmRows.thy ===== *)
theory BmRows
  imports BmEngine
begin

text \<open>
  What one row of the binding map does to the state, and the interpretations of the engine's
  interfaces on it: which fields an evaluation never touches, which messages may go out, when
  a row has nothing left to do, and the potential that bounds the chained evaluations.
\<close>

section \<open>The fields no evaluation changes\<close>

definition static_part :: "bm_operation \<Rightarrow> bm_operation" where
  "static_part op = op\<lparr>op_has_last_output := False, op_last_output_value := d_zero,
                       op_has_last_inputs := False, op_last_operands := []\<rparr>"

definition same_table :: "binding_map \<Rightarrow> binding_map \<Rightarrow> bool" where
  "same_table bm bm' \<longleftrightarrow> map static_part (bm_ops bm') = map static_part (bm_ops bm)
     \<and> bm_addrs bm' = bm_addrs bm \<and> bm_authz_disabled bm' = bm_authz_disabled bm
     \<and> bm_current_msg bm' = bm_current_msg bm"

lemma static_part_eqD:
  assumes "static_part op' = static_part op"
  shows "op_enabled op' = op_enabled op" "op_inputs op' = op_inputs op"
    "op_operation op' = op_operation op" "op_out_device_index op' = op_out_device_index op"
    "op_out_dest_object op' = op_out_dest_object op"
    "op_out_author_type op' = op_out_author_type op" "op_table_code op' = op_table_code op"
    "op_out_code op' = op_out_code op" "op_out_adjustment op' = op_out_adjustment op"
  using assms by (cases op; cases op'; simp add: static_part_def)+

lemma same_table_refl [simp]: "same_table bm bm"
  by (simp add: same_table_def)

lemma same_table_trans: "same_table a b \<Longrightarrow> same_table b c \<Longrightarrow> same_table a c"
  by (simp add: same_table_def)

lemma same_table_length: "same_table bm bm' \<Longrightarrow> length (bm_ops bm') = length (bm_ops bm)"
  unfolding same_table_def by (metis length_map)

lemma same_table_nth:
  assumes "same_table bm bm'" "i < length (bm_ops bm)"
  shows "static_part (bm_ops bm' ! i) = static_part (bm_ops bm ! i)"
  using assms same_table_length[OF assms(1)] unfolding same_table_def by (metis nth_map)

lemmas same_op = static_part_eqD[OF same_table_nth]

lemma static_part_last [simp]:
  "static_part (op\<lparr>op_has_last_inputs := b, op_last_operands := vs\<rparr>) = static_part op"
  "static_part (op\<lparr>op_has_last_output := b, op_last_output_value := r\<rparr>) = static_part op"
  by (simp_all add: static_part_def)

lemma same_table_set_op:
  assumes "static_part op' = static_part (bm_ops (s_bm st) ! i)"
  shows "same_table (s_bm st) (s_bm (set_op i op' st))"
proof (cases "i < length (bm_ops (s_bm st))")
  case True
  then show ?thesis
    using assms by (simp add: same_table_def set_op_def map_update list_update_same_conv)
next
  case False
  then show ?thesis by (simp add: same_table_def set_op_def list_update_beyond)
qed

lemma output_authorized_same:
  assumes "same_table bm bm'" "i < length (bm_ops bm)"
  shows "output_authorized h bm' (bm_ops bm' ! i) = output_authorized h bm (bm_ops bm ! i)"
  using assms(1) same_op[OF assms]
  by (simp add: output_authorized_def same_table_def op_requires_authorization_def bm_at_address_def
      split: option.split)

lemma put_message_same:
  assumes "same_table bm bm'" "i < length (bm_ops bm)"
  shows "put_message (bm_ops bm' ! i) r = put_message (bm_ops bm ! i) r"
  using same_op[OF assms] by (simp add: put_message_def)

section \<open>What a row does\<close>

definition stale :: "binding_map \<Rightarrow> bm_operation \<Rightarrow> bool" where
  "stale bm op \<longleftrightarrow>
     (case collect_operands bm (op_inputs op) of
        None \<Rightarrow> False
      | Some operands \<Rightarrow> inputs_changed op (map opd_value operands))"

text \<open>A message the host's app handed over while it performed an operation.\<close>

definition app_message :: "'a bm_hooks \<Rightarrow> hes_clme_msg \<Rightarrow> bool" where
  "app_message h m \<longleftrightarrow> (\<exists>app a op operands r ms a'.
     app_operation h = Some app \<and> app a op operands = (r, ms, a') \<and> m \<in> set ms)"

definition remembered :: "bm_operation \<Rightarrow> dbl list \<Rightarrow> bm_operation" where
  "remembered op vals = op\<lparr>op_has_last_inputs := True, op_last_operands := vals\<rparr>"

lemma collect_operands_length:
  "collect_operands bm is = Some opds \<Longrightarrow> length opds = length is"
  by (induction "is" arbitrary: opds) (auto simp: Let_def split: prod.splits if_splits option.splits)

lemma send_all_sent:
  "bus_extends bus (send_all bus ms) \<and>
   map (\<lambda>m. m\<lparr>m_timestamp_ns := 0\<rparr>) (sent_since bus (send_all bus ms)) = map (\<lambda>m. m\<lparr>m_timestamp_ns := 0\<rparr>) ms"
proof (induction ms arbitrary: bus)
  case Nil
  then show ?case by simp
next
  case (Cons m ms)
  have send: "bus_extends bus (hes_bus_send bus m)" by (rule bus_extends_send)
  then show ?case
    using Cons.IH[of "hes_bus_send bus m"] bus_extends_trans[OF send]
    by (simp add: stamp_def)
qed

lemma compute_state:
  assumes "compute h op operands st = (r, st')"
  obtains ms where "s_bm st' = s_bm st" "s_bus st' = send_all (s_bus st) ms"
    "\<forall>m \<in> set ms. app_message h m" "ms = [] \<or> op_operation op = ''ap''"
proof (cases "op_operation op = ''ap'' \<and> app_operation h \<noteq> None")
  case True
  then obtain app where app: "app_operation h = Some app" by blast
  obtain r' ms a' where call: "app (s_app st) op operands = (r', ms, a')" by (metis prod_cases3)
  have "\<forall>m \<in> set ms. app_message h m" unfolding app_message_def using app call by blast
  then show thesis using assms True app call by (intro that[of ms]) (auto simp: compute_def)
next
  case False
  then have "st' = st" using assms by (auto simp: compute_def Let_def split: if_splits option.splits)
  then show thesis by (intro that[of "[]"]) auto
qed

lemma evaluate_row_cases:
  assumes "evaluate_row h i st = (st', res)"
  obtains (skip) "st' = st" "res = None"
      "\<not> (op_enabled (bm_ops (s_bm st) ! i) \<and> op_ready (s_bm st) (bm_ops (s_bm st) ! i)
          \<and> stale (s_bm st) (bm_ops (s_bm st) ! i))"
  | (run) operands ms where
      "op_enabled (bm_ops (s_bm st) ! i)" "op_ready (s_bm st) (bm_ops (s_bm st) ! i)"
      "collect_operands (s_bm st) (op_inputs (bm_ops (s_bm st) ! i)) = Some operands"
      "s_bm st' = s_bm (set_op i (remembered (bm_ops (s_bm st) ! i) (map opd_value operands)) st)"
      "s_bus st' = send_all (s_bus st) ms" "\<forall>m \<in> set ms. app_message h m"
      "\<not> inputs_changed (bm_ops (s_bm st) ! i) (map opd_value operands) \<Longrightarrow> res = None \<and> ms = []"
      "\<And>r. res = Some r \<Longrightarrow>
         (\<exists>r0 st2. compute h (remembered (bm_ops (s_bm st) ! i) (map opd_value operands)) operands
              (set_op i (remembered (bm_ops (s_bm st) ! i) (map opd_value operands)) st) = (Some r0, st2)
            \<and> apply_condition (op_out_adjustment (bm_ops (s_bm st) ! i)) r0 = (False, r))
         \<and> (op_out_dest_object (bm_ops (s_bm st) ! i) \<noteq> [] \<longrightarrow>
              output_authorized h (s_bm st') (bm_ops (s_bm st) ! i))"
proof -
  let ?op = "bm_ops (s_bm st) ! i"
  show thesis
  proof (cases "op_enabled ?op \<and> op_ready (s_bm st) ?op
               \<and> collect_operands (s_bm st) (op_inputs ?op) \<noteq> None")
    case False
    then have "st' = st" "res = None" "\<not> (op_enabled ?op \<and> op_ready (s_bm st) ?op \<and> stale (s_bm st) ?op)"
      using assms by (auto simp: evaluate_row_def Let_def stale_def split: if_splits)
    then show thesis by (rule skip)
  next
    case True
    then obtain operands where c: "collect_operands (s_bm st) (op_inputs ?op) = Some operands" by auto
    have ne: "operands \<noteq> []"
      using True collect_operands_length[OF c] by (auto simp: op_ready_def)
    let ?vals = "map opd_value operands"
    let ?st = "set_op i (remembered ?op ?vals) st"
    have row: "(st', res) =
        (if \<not> inputs_changed ?op ?vals then (?st, None)
         else case compute h (remembered ?op ?vals) operands ?st of
             (None, st) \<Rightarrow> (st, None)
           | (Some r, st) \<Rightarrow>
               (let (blocked, result) = apply_condition (op_out_adjustment ?op) r
                in if blocked then (st, None)
                   else if op_has_last_output ?op \<and> d_eq result (op_last_output_value ?op) then (st, None)
                   else if op_out_dest_object ?op \<noteq> [] \<and> \<not> output_authorized h (s_bm st) ?op
                   then (st, None) else (st, Some result)))"
      unfolding assms[symmetric] using True c ne by (simp add: evaluate_row_def Let_def remembered_def)
    show thesis
    proof (cases "inputs_changed ?op ?vals")
      case False
      then show thesis using True c row by (intro run[of operands "[]"]) (auto simp: set_op_def)
    next
      case changed: True
      obtain r0 st2 where comp: "compute h (remembered ?op ?vals) operands ?st = (r0, st2)"
        by (cases "compute h (remembered ?op ?vals) operands ?st")
      obtain ms where ms: "s_bm st2 = s_bm ?st" "s_bus st2 = send_all (s_bus ?st) ms"
        "\<forall>m \<in> set ms. app_message h m" by (rule compute_state[OF comp])
      have st': "st' = st2"
        using row changed comp by (auto simp: Let_def split: option.splits prod.splits if_splits)
      show thesis
        using True c changed ms st' row comp
        by (intro run[of operands ms])
           (auto simp: set_op_def Let_def split: option.splits prod.splits if_splits)
    qed
  qed
qed

lemma remembered_static [simp]: "static_part (remembered op vals) = static_part op"
  by (simp add: remembered_def)

lemma row_same_table:
  assumes "evaluate_row h i st = (st', res)"
  shows "same_table (s_bm st) (s_bm st')"
    and "bm_value_cache (s_bm st') = bm_value_cache (s_bm st)"
    and "bm_value_valid (s_bm st') = bm_value_valid (s_bm st)"
    and "j \<noteq> i \<Longrightarrow> bm_ops (s_bm st') ! j = bm_ops (s_bm st) ! j"
  using assms
  by (cases rule: evaluate_row_cases; simp add: same_table_set_op; simp add: set_op_def)+

lemma commit_same_table: "same_table (s_bm st) (s_bm (commit_output i r st))"
proof -
  let ?op = "bm_ops (s_bm st) ! i"
  have "same_table (s_bm st) (s_bm (set_op i (?op\<lparr>op_has_last_output := True, op_last_output_value := r\<rparr>) st))"
    by (rule same_table_set_op) simp
  then show ?thesis by (simp add: commit_output_def Let_def same_table_def)
qed

lemma send_put_bm [simp]: "s_bm (send_put i r st) = s_bm st"
  by (simp add: send_put_def Let_def)

lemma row_indices_set: "set (row_indices st) = {i. i < length (bm_ops (s_bm st))}"
  by (auto simp: row_indices_def)

section \<open>What may be sent\<close>

definition unstamped :: "hes_clme_msg \<Rightarrow> hes_clme_msg" where
  "unstamped m = m\<lparr>m_timestamp_ns := 0\<rparr>"

definition permitted :: "'a bm_hooks \<Rightarrow> binding_map \<Rightarrow> hes_clme_msg \<Rightarrow> bool" where
  "permitted h bm m \<longleftrightarrow>
     (\<exists>op \<in> set (bm_ops bm). \<exists>r. op_enabled op \<and> op_out_dest_object op \<noteq> []
        \<and> output_authorized h bm op \<and> unstamped m = put_message op r)
     \<or> (\<exists>m'. app_message h m' \<and> unstamped m = unstamped m')"

definition gate_inv :: "'a bm_hooks \<Rightarrow> binding_map \<Rightarrow> hes_bus \<Rightarrow> 'a bm_state \<Rightarrow> bool" where
  "gate_inv h bm bus st \<longleftrightarrow> same_table bm (s_bm st) \<and> bus_extends bus (s_bus st)
     \<and> (\<forall>m \<in> set (sent_since bus (s_bus st)). permitted h bm m)"

definition gated :: "'a bm_hooks \<Rightarrow> binding_map \<Rightarrow> nat \<Rightarrow> dbl \<Rightarrow> bool" where
  "gated h bm i r \<longleftrightarrow> op_enabled (bm_ops bm ! i)
     \<and> (op_out_dest_object (bm_ops bm ! i) \<noteq> [] \<longrightarrow> output_authorized h bm (bm_ops bm ! i))"

lemma gate_row:
  assumes "gate_inv h bm bus st" "evaluate_row h i st = (st', res)"
  shows "gate_inv h bm bus st'"
  using assms(2)
proof (cases rule: evaluate_row_cases)
  case skip
  then show ?thesis using assms(1) by simp
next
  case (run operands ms)
  have ext: "bus_extends (s_bus st) (s_bus st')"
    and un: "map unstamped (sent_since (s_bus st) (s_bus st')) = map unstamped ms"
    using send_all_sent[of "s_bus st" ms] run(5) by (simp_all add: unstamped_def[abs_def])
  have "permitted h bm m" if "m \<in> set (sent_since (s_bus st) (s_bus st'))" for m
  proof -
    have "unstamped m \<in> set (map unstamped ms)" using that un[symmetric] by simp
    then show ?thesis using run(6) unfolding permitted_def by auto
  qed
  moreover have old: "bus_extends bus (s_bus st)" "same_table bm (s_bm st)"
    "\<forall>m \<in> set (sent_since bus (s_bus st)). permitted h bm m"
    using assms(1) by (simp_all add: gate_inv_def)
  ultimately show ?thesis
    using bus_extends_trans[OF old(1) ext] same_table_trans[OF old(2) row_same_table(1)[OF assms(2)]]
    by (auto simp: gate_inv_def)
qed

lemma gated_row:
  assumes "gate_inv h bm bus st" "i < length (bm_ops bm)" "evaluate_row h i st = (st', Some r)"
  shows "gated h bm i r"
  using assms(3)
proof (cases rule: evaluate_row_cases)
  case skip
  then show ?thesis by simp
next
  case (run operands ms)
  have st: "same_table bm (s_bm st)" using assms(1) by (simp add: gate_inv_def)
  have eq: "output_authorized h (s_bm st') (bm_ops (s_bm st) ! i)
      = output_authorized h (s_bm st) (bm_ops (s_bm st) ! i)"
    using row_same_table(1)[OF assms(3)] by (simp add: output_authorized_def same_table_def)
  have "op_out_dest_object (bm_ops (s_bm st) ! i) \<noteq> [] \<longrightarrow>
      output_authorized h (s_bm st') (bm_ops (s_bm st) ! i)" using run(8)[of r] by blast
  then have "op_out_dest_object (bm_ops bm ! i) \<noteq> [] \<longrightarrow> output_authorized h bm (bm_ops bm ! i)"
    unfolding eq output_authorized_same[OF st assms(2)] same_op(5)[OF st assms(2)] .
  then show ?thesis using run(1) same_op(1)[OF st assms(2)] by (simp add: gated_def)
qed

lemma gate_send_put:
  assumes "gate_inv h bm bus st" "i < length (bm_ops bm)" "gated h bm i r"
  shows "gate_inv h bm bus (send_put i r st)"
proof -
  let ?op = "bm_ops (s_bm st) ! i"
  have st: "same_table bm (s_bm st)" and ext: "bus_extends bus (s_bus st)"
    using assms(1) by (simp_all add: gate_inv_def)
  show ?thesis
  proof (cases "op_out_dest_object ?op = []")
    case True
    then show ?thesis using assms(1) by (simp add: send_put_def)
  next
    case False
    let ?m = "stamp (s_bus st) (put_message ?op r)"
    have "unstamped ?m = put_message (bm_ops bm ! i) r"
      by (simp add: put_message_same[OF st assms(2)])
         (simp add: unstamped_def stamp_def put_message_def hes_msg_set_payload_str_def
           hes_msg_set_path_def hes_msg_init_def)
    then have "permitted h bm ?m"
      unfolding permitted_def using assms(2,3) False same_op[OF st assms(2)]
      by (intro disjI1 bexI[of _ "bm_ops bm ! i"]) (auto simp: gated_def)
    then show ?thesis
      using assms(1) False bus_extends_trans[OF ext bus_extends_send]
      by (simp add: gate_inv_def send_put_def)
  qed
qed

interpretation gate: guarded "evaluate_op h" "evaluate_rows h" "evaluate_row h"
    commit_output send_put chains row_indices "gate_inv h bm bus"
    "\<lambda>i. i < length (bm_ops bm)" "gated h bm" for h bm bus
proof unfold_locales
  fix st i r
  show "set (row_indices st) = {i. i < length (bm_ops bm)}" if "gate_inv h bm bus st"
    using that same_table_length by (auto simp: row_indices_set gate_inv_def)
  show "gate_inv h bm bus (commit_output i r st)" if "gate_inv h bm bus st"
    using that commit_same_table[of st i r]
    by (auto simp: gate_inv_def commit_output_def Let_def set_op_def intro: same_table_trans)
qed (auto intro: gate_row gated_row gate_send_put)

end
