(* ===== verification/BmSettle.thy ===== *)
theory BmSettle
  imports BmRows
begin

text \<open>
  When the chained evaluations end, and what they leave. A row is \<open>quiet\<close> when it has
  nothing to do: disabled, not ready, or with the operands it had last time. Without NaN in
  the value cache, an evaluation that returns leaves every row quiet (\<open>settling\<close>); when
  the chaining of the table has no cycle it returns (\<open>cascade\<close>), because a commit makes
  the row that ran quiet and can only disturb rows of smaller depth.
\<close>

section \<open>Values that compare equal to themselves\<close>

definition op_chains :: "bm_operation \<Rightarrow> bool" where
  "op_chains op \<longleftrightarrow> op_out_device_index op > 0 \<and> unat (op_out_device_index op) \<le> BM_MAX_ADDRS"

definition app_nan_free :: "'a bm_hooks \<Rightarrow> bool" where
  "app_nan_free h \<longleftrightarrow> (\<forall>app a op operands r ms a'.
     app_operation h = Some app \<longrightarrow> app a op operands = (Some r, ms, a') \<longrightarrow> d_nonnan r)"

text \<open>Only the arithmetic codes can make a NaN out of numbers (\<open>inf - inf\<close>, \<open>0 * inf\<close>).\<close>

definition nan_safe :: "'a bm_hooks \<Rightarrow> binding_map \<Rightarrow> bool" where
  "nan_safe h bm \<longleftrightarrow> app_nan_free h
     \<and> list_all (\<lambda>op. op_chains op \<longrightarrow> op_operation op \<notin> set [''ad'', ''su'', ''mu'', ''dv'']) (bm_ops bm)"

definition cache_nonnan :: "binding_map \<Rightarrow> bool" where
  "cache_nonnan bm \<longleftrightarrow> (\<forall>di. d_nonnan (bm_value_cache bm di))"

lemma apply_condition_nonnan: "apply_condition code v = (b, v') \<Longrightarrow> d_nonnan v \<Longrightarrow> d_nonnan v'"
  by (auto simp: apply_condition_def split: if_splits)

lemma apply_operation_nonnan:
  "code \<notin> set [''ad'', ''su'', ''mu'', ''dv''] \<Longrightarrow> d_nonnan (apply_operation code a b)"
  by (simp add: apply_operation_def d_zero_def d_one_def)

lemma collect_nonnan:
  assumes "cache_nonnan bm"
  shows "collect_operands bm is = Some opds \<Longrightarrow> list_all d_nonnan (map opd_value opds)"
proof (induction "is" arbitrary: opds)
  case (Cons i "is")
  then show ?case
    using assms apply_condition_nonnan[of "in_condition i" "bm_value_cache bm (in_device_index i)"]
    by (auto simp: Let_def cache_nonnan_def split: prod.splits if_splits option.splits)
qed simp

lemma list_all2_d_eq_refl: "list_all d_nonnan vs \<Longrightarrow> list_all2 d_eq vs vs"
  by (induction vs) (auto simp: d_eq_refl_iff)

lemma compute_nonnan:
  assumes "compute h op operands st = (Some r, st')" "app_nan_free h"
    and "op_operation op \<notin> set [''ad'', ''su'', ''mu'', ''dv'']"
  shows "d_nonnan r"
proof (cases "op_operation op = ''ap''")
  case True
  then show ?thesis
    using assms(1,2) unfolding app_nan_free_def
    by (auto simp: compute_def split: option.splits prod.splits) blast
next
  case False
  then show ?thesis
    using assms apply_operation_nonnan[OF assms(3)] by (auto simp: compute_def Let_def)
qed

section \<open>Quiet rows\<close>

definition quiet :: "nat \<Rightarrow> 'a bm_state \<Rightarrow> bool" where
  "quiet j st \<longleftrightarrow> \<not> (op_enabled (bm_ops (s_bm st) ! j) \<and> op_ready (s_bm st) (bm_ops (s_bm st) ! j)
     \<and> stale (s_bm st) (bm_ops (s_bm st) ! j))"

definition numeric :: "'a bm_hooks \<Rightarrow> binding_map \<Rightarrow> 'a bm_state \<Rightarrow> bool" where
  "numeric h bm st \<longleftrightarrow> same_table bm (s_bm st) \<and> nan_safe h bm \<and> cache_nonnan (s_bm st)"

definition number_if_chained :: "binding_map \<Rightarrow> nat \<Rightarrow> dbl \<Rightarrow> bool" where
  "number_if_chained bm i r \<longleftrightarrow> (op_chains (bm_ops bm ! i) \<longrightarrow> d_nonnan r)"

lemma chains_op_chains: "chains i st = op_chains (bm_ops (s_bm st) ! i)"
  by (simp add: chains_def op_chains_def Let_def)

lemma collect_operands_cong:
  assumes "\<And>i. i \<in> set is \<Longrightarrow> bm_value_cache bm (in_device_index i) = bm_value_cache bm' (in_device_index i)"
  shows "collect_operands bm is = collect_operands bm' is"
  using assms by (induction "is") (auto simp: Let_def split: prod.splits option.splits)

lemma op_ready_cong:
  assumes "bm_value_valid bm = bm_value_valid bm'" "bm_authz_disabled bm = bm_authz_disabled bm'"
  shows "op_ready bm op = op_ready bm' op"
  using assms by (simp add: op_ready_def)

lemma stale_cong:
  assumes "bm_value_cache bm = bm_value_cache bm'"
  shows "stale bm op = stale bm' op"
proof -
  have "collect_operands bm (op_inputs op) = collect_operands bm' (op_inputs op)"
    by (rule collect_operands_cong) (simp add: assms)
  then show ?thesis by (simp add: stale_def)
qed

lemma stale_last_output [simp]:
  "stale bm (op\<lparr>op_has_last_output := b, op_last_output_value := r\<rparr>) = stale bm op"
  by (simp add: stale_def inputs_changed_def split: option.split)

lemma row_not_stale:
  assumes row: "evaluate_row h i st = (st', res)" and cache: "cache_nonnan (s_bm st)"
    and i: "i < length (bm_ops (s_bm st))"
  shows "quiet i st'" and "res \<noteq> None \<Longrightarrow> \<not> stale (s_bm st') (bm_ops (s_bm st') ! i)"
    and "stale (s_bm st') (bm_ops (s_bm st') ! j) \<Longrightarrow> stale (s_bm st) (bm_ops (s_bm st) ! j)"
proof -
  have "(quiet i st' \<and> (res \<noteq> None \<longrightarrow> \<not> stale (s_bm st') (bm_ops (s_bm st') ! i)))
      \<and> (stale (s_bm st') (bm_ops (s_bm st') ! j) \<longrightarrow> stale (s_bm st) (bm_ops (s_bm st) ! j))"
    using row
  proof (cases rule: evaluate_row_cases)
    case skip
    then show ?thesis by (simp add: quiet_def)
  next
    case (run operands ms)
    let ?op = "remembered (bm_ops (s_bm st) ! i) (map opd_value operands)"
    have op: "bm_ops (s_bm st') ! i = ?op" using run(4) i by (simp add: set_op_def)
    have "collect_operands (s_bm st') (op_inputs ?op) = Some operands"
      using run(3) collect_operands_cong[of "op_inputs ?op" "s_bm st'" "s_bm st"] row_same_table(2)[OF row]
      by (simp add: remembered_def)
    moreover have "list_all2 d_eq (map opd_value operands) (map opd_value operands)"
      using collect_nonnan[OF cache run(3)] by (rule list_all2_d_eq_refl)
    ultimately have now: "\<not> stale (s_bm st') ?op"
      by (simp add: stale_def inputs_changed_def remembered_def)
    have "stale (s_bm st') (bm_ops (s_bm st') ! j) \<longrightarrow> stale (s_bm st) (bm_ops (s_bm st) ! j)"
      using now op row_same_table(4)[OF row, of j] stale_cong[OF row_same_table(2)[OF row]]
      by (cases "j = i") auto
    then show ?thesis using now op by (simp add: quiet_def)
  qed
  then show "quiet i st'" "res \<noteq> None \<Longrightarrow> \<not> stale (s_bm st') (bm_ops (s_bm st') ! i)"
    "stale (s_bm st') (bm_ops (s_bm st') ! j) \<Longrightarrow> stale (s_bm st) (bm_ops (s_bm st) ! j)" by blast+
qed

lemma row_keeps_quiet:
  assumes row: "evaluate_row h i st = (st', res)" and "cache_nonnan (s_bm st)"
    and "i < length (bm_ops (s_bm st))" "quiet j st \<or> j = i"
  shows "quiet j st'"
proof (cases "j = i")
  case True
  then show ?thesis using row_not_stale(1)[OF assms(1-3)] by simp
next
  case False
  then have "quiet j st" using assms(4) by simp
  moreover have "op_ready (s_bm st') = op_ready (s_bm st)"
    using row_same_table(1,3)[OF row] by (intro ext op_ready_cong) (auto simp: same_table_def)
  ultimately show ?thesis
    using row_same_table(4)[OF row False] stale_cong[OF row_same_table(2)[OF row]]
    by (simp add: quiet_def)
qed

lemma commit_nth:
  "bm_ops (s_bm (commit_output i r st)) ! j = bm_ops (s_bm st) ! j
   \<or> bm_ops (s_bm (commit_output i r st)) ! j =
       (bm_ops (s_bm st) ! j)\<lparr>op_has_last_output := True, op_last_output_value := r\<rparr>"
proof -
  let ?xs = "bm_ops (s_bm st)"
  let ?x = "(?xs ! i)\<lparr>op_has_last_output := True, op_last_output_value := r\<rparr>"
  have "bm_ops (s_bm (commit_output i r st)) = ?xs[i := ?x]"
    by (simp add: commit_output_def Let_def set_op_def)
  moreover have "?xs[i := ?x] ! j = ?xs ! j \<or> i = j \<and> ?xs[i := ?x] ! j = ?x"
    by (cases "i < length ?xs"; cases "i = j") (simp_all add: list_update_beyond)
  ultimately show ?thesis by metis
qed

lemma leaf_keeps_quiet:
  assumes "\<not> chains i st" "quiet j st"
  shows "quiet j (commit_output i r st)"
proof -
  let ?st = "commit_output i r st"
  let ?op = "bm_ops (s_bm st) ! j"
  have cache: "bm_value_cache (s_bm ?st) = bm_value_cache (s_bm st)"
    and valid: "bm_value_valid (s_bm ?st) = bm_value_valid (s_bm st)"
    and authz: "bm_authz_disabled (s_bm ?st) = bm_authz_disabled (s_bm st)"
    using assms(1) by (simp_all add: commit_output_def Let_def set_op_def)
  have eqs: "stale (s_bm ?st) = stale (s_bm st)" "op_ready (s_bm ?st) = op_ready (s_bm st)"
    by (intro ext stale_cong op_ready_cong cache valid authz)+
  have same: "op_ready bm (op\<lparr>op_has_last_output := b, op_last_output_value := v\<rparr>) = op_ready bm op"
    for bm op b v by (simp add: op_ready_def)
  show ?thesis
    using commit_nth[of i r st j] assms(2) unfolding quiet_def eqs by (elim disjE) (simp_all add: same)
qed

lemma numeric_row:
  assumes "numeric h bm st" "i < length (bm_ops bm)" "evaluate_row h i st = (st', res)"
  shows "numeric h bm st'" and "res = Some r \<Longrightarrow> number_if_chained bm i r"
proof -
  have st: "same_table bm (s_bm st)" using assms(1) by (simp add: numeric_def)
  show "numeric h bm st'"
    using assms(1) row_same_table[OF assms(3)] same_table_trans[OF st]
    by (simp add: numeric_def cache_nonnan_def)
  assume res: "res = Some r"
  show "number_if_chained bm i r"
    unfolding number_if_chained_def
  proof
    assume ch: "op_chains (bm_ops bm ! i)"
    have safe: "op_operation (bm_ops bm ! i) \<notin> set [''ad'', ''su'', ''mu'', ''dv'']" "app_nan_free h"
      using assms(1,2) ch by (auto simp: numeric_def nan_safe_def list_all_length)
    from assms(3) show "d_nonnan r"
    proof (cases rule: evaluate_row_cases)
      case skip
      then show ?thesis using res by simp
    next
      case (run operands ms)
      from run(8)[OF res] obtain r0 st2 where
        r0: "compute h (remembered (bm_ops (s_bm st) ! i) (map opd_value operands)) operands
              (set_op i (remembered (bm_ops (s_bm st) ! i) (map opd_value operands)) st) = (Some r0, st2)"
        and r: "apply_condition (op_out_adjustment (bm_ops (s_bm st) ! i)) r0 = (False, r)"
        by blast
      have "op_operation (remembered (bm_ops (s_bm st) ! i) (map opd_value operands))
          = op_operation (bm_ops bm ! i)"
        using same_op(3)[OF st assms(2)] by (simp add: remembered_def)
      then have "d_nonnan r0" using compute_nonnan[OF r0] safe by simp
      then show ?thesis using apply_condition_nonnan[OF r] by simp
    qed
  qed
qed

lemma numeric_commit:
  assumes "numeric h bm st" "i < length (bm_ops bm)" "number_if_chained bm i r"
  shows "numeric h bm (commit_output i r st)"
proof -
  have st: "same_table bm (s_bm st)" using assms(1) by (simp add: numeric_def)
  have "cache_nonnan (s_bm (commit_output i r st))"
  proof (cases "chains i st")
    case True
    then have "d_nonnan r"
      using assms(3) same_op(4)[OF st assms(2)]
      by (simp add: chains_op_chains number_if_chained_def op_chains_def)
    then show ?thesis
      using assms(1) True by (simp add: commit_output_def Let_def numeric_def cache_nonnan_def set_op_def)
  next
    case False
    then show ?thesis
      using assms(1) by (simp add: commit_output_def Let_def numeric_def cache_nonnan_def set_op_def)
  qed
  then show ?thesis
    using assms(1) same_table_trans[OF st commit_same_table] by (simp add: numeric_def)
qed

interpretation settle: settling "evaluate_op h" "evaluate_rows h" "evaluate_row h"
    commit_output send_put chains row_indices "numeric h bm"
    "\<lambda>i. i < length (bm_ops bm)" "number_if_chained bm" quiet for h bm
proof unfold_locales
  fix st st' :: "'a bm_state" and res i j r
  show "set (row_indices st) = {i. i < length (bm_ops bm)}" if "numeric h bm st"
    using that same_table_length by (auto simp: row_indices_set numeric_def)
  show "quiet j st'"
    if "numeric h bm st" "i < length (bm_ops bm)" "evaluate_row h i st = (st', res)" "quiet j st \<or> j = i"
    using row_keeps_quiet[OF that(3) _ _ that(4)] that(1,2) same_table_length
    by (auto simp: numeric_def)
  show "numeric h bm (send_put i r st)" if "numeric h bm st"
    using that by (simp add: numeric_def)
  show "quiet j (send_put i r st)" if "quiet j st"
    using that by (simp add: quiet_def)
qed (auto intro: numeric_row numeric_commit leaf_keeps_quiet)

end
