(* ===== verification/BmCascade.thy ===== *)
theory BmCascade
  imports BmSettle
begin

text \<open>
  The bound on the chained evaluations of an acyclic table. The chaining of the rows is
  graded by a depth: a row that reads what row \<open>i\<close> writes has a smaller depth than
  \<open>i\<close>. The potential adds up \<open>(n + 1) ^ depth\<close> over the stale rows of an
  \<open>n\<close>-row table; running a stale row takes its term away, and its commit can only give
  back terms of smaller depth, of which there are at most \<open>n\<close>.
\<close>

definition reads :: "bm_operation \<Rightarrow> u32 \<Rightarrow> bool" where
  "reads op di \<longleftrightarrow> list_ex (\<lambda>i. in_device_index i = di) (op_inputs op)"

definition acyclic_table :: "(nat \<Rightarrow> nat) \<Rightarrow> binding_map \<Rightarrow> bool" where
  "acyclic_table depth bm \<longleftrightarrow>
     list_all (\<lambda>i. list_all (\<lambda>j.
         op_chains (bm_ops bm ! i) \<and> reads (bm_ops bm ! j) (op_out_device_index (bm_ops bm ! i))
           \<longrightarrow> depth j < depth i)
       [0 ..< length (bm_ops bm)]) [0 ..< length (bm_ops bm)]"

definition potential :: "(nat \<Rightarrow> nat) \<Rightarrow> 'a bm_state \<Rightarrow> nat" where
  "potential depth st =
     (\<Sum>j < length (bm_ops (s_bm st)).
        if stale (s_bm st) (bm_ops (s_bm st) ! j)
        then (length (bm_ops (s_bm st)) + 1) ^ depth j else 0)"

definition table_fuel :: "(nat \<Rightarrow> nat) \<Rightarrow> binding_map \<Rightarrow> nat" where
  "table_fuel depth bm = Suc (\<Sum>j < length (bm_ops bm). (length (bm_ops bm) + 1) ^ depth j)"

definition ranked :: "'a bm_hooks \<Rightarrow> (nat \<Rightarrow> nat) \<Rightarrow> binding_map \<Rightarrow> 'a bm_state \<Rightarrow> bool" where
  "ranked h depth bm st \<longleftrightarrow> numeric h bm st \<and> acyclic_table depth bm"

lemma acyclic_tableD:
  "acyclic_table depth bm \<Longrightarrow> i < length (bm_ops bm) \<Longrightarrow> j < length (bm_ops bm) \<Longrightarrow>
   op_chains (bm_ops bm ! i) \<Longrightarrow> reads (bm_ops bm ! j) (op_out_device_index (bm_ops bm ! i)) \<Longrightarrow>
   depth j < depth i"
  by (simp add: acyclic_table_def list_all_iff)

lemma potential_bound: "potential depth st < table_fuel depth (s_bm st)"
  unfolding potential_def table_fuel_def by (intro le_imp_less_Suc sum_mono) simp

lemma commit_ops_length [simp]:
  "length (bm_ops (s_bm (commit_output i r st))) = length (bm_ops (s_bm st))"
  by (simp add: commit_output_def Let_def set_op_def)

lemma commit_stale:
  assumes "\<not> chains i st \<or> \<not> reads (bm_ops (s_bm st) ! j) (op_out_device_index (bm_ops (s_bm st) ! i))"
  shows "stale (s_bm (commit_output i r st)) (bm_ops (s_bm (commit_output i r st)) ! j)
       = stale (s_bm st) (bm_ops (s_bm st) ! j)"
proof -
  let ?st = "commit_output i r st"
  let ?op = "bm_ops (s_bm st) ! j"
  have "collect_operands (s_bm ?st) (op_inputs ?op) = collect_operands (s_bm st) (op_inputs ?op)"
    by (rule collect_operands_cong)
       (use assms in \<open>auto simp: commit_output_def Let_def set_op_def reads_def list_ex_iff\<close>)
  then have "stale (s_bm ?st) ?op = stale (s_bm st) ?op" by (simp add: stale_def)
  then show ?thesis using commit_nth[of i r st j] by (elim disjE) simp_all
qed

lemma row_potential_le:
  assumes "cache_nonnan (s_bm st)" "i < length (bm_ops (s_bm st))" "evaluate_row h i st = (st', res)"
  shows "potential depth st' \<le> potential depth st"
proof -
  have len: "length (bm_ops (s_bm st')) = length (bm_ops (s_bm st))"
    using row_same_table(1)[OF assms(3)] by (rule same_table_length)
  show ?thesis
    unfolding potential_def len
    by (rule sum_mono) (use row_not_stale(3)[OF assms(3,1,2)] in auto)
qed

lemma fired_was_stale:
  assumes "evaluate_row h i st = (st', Some r)"
  shows "stale (s_bm st) (bm_ops (s_bm st) ! i)"
  using assms by (cases rule: evaluate_row_cases) (auto simp: stale_def)

lemma row_potential_fired:
  assumes "cache_nonnan (s_bm st)" "i < length (bm_ops (s_bm st))" "evaluate_row h i st = (st', Some r)"
  shows "potential depth st' + (length (bm_ops (s_bm st)) + 1) ^ depth i \<le> potential depth st"
proof -
  let ?n = "length (bm_ops (s_bm st))"
  let ?w = "\<lambda>st j. if stale (s_bm st) (bm_ops (s_bm st) ! j) then (?n + 1) ^ depth j else 0"
  have len: "length (bm_ops (s_bm st')) = ?n"
    using row_same_table(1)[OF assms(3)] by (rule same_table_length)
  have "?w st' j + (if j = i then (?n + 1) ^ depth i else 0) \<le> ?w st j" for j
    using row_not_stale(2)[OF assms(3,1,2)] row_not_stale(3)[OF assms(3,1,2), of j]
      fired_was_stale[OF assms(3)] by auto
  then have "(\<Sum>j < ?n. ?w st' j + (if j = i then (?n + 1) ^ depth i else 0)) \<le> (\<Sum>j < ?n. ?w st j)"
    by (intro sum_mono) blast
  moreover have "(\<Sum>j < ?n. if j = i then (?n + 1) ^ depth i else 0) = (?n + 1) ^ depth i"
    using assms(2) by (simp add: sum.delta)
  ultimately show ?thesis by (simp only: potential_def len sum.distrib)
qed

lemma commit_potential:
  assumes tab: "same_table bm (s_bm st)" "acyclic_table depth bm"
    and i: "i < length (bm_ops bm)" and chain: "chains i st"
  shows "potential depth (commit_output i r st) < potential depth st + (length (bm_ops bm) + 1) ^ depth i"
proof -
  let ?n = "length (bm_ops bm)" and ?st = "commit_output i r st"
  let ?w = "\<lambda>st j. if stale (s_bm st) (bm_ops (s_bm st) ! j) then (?n + 1) ^ depth j else 0"
  let ?rd = "\<lambda>j. reads (bm_ops bm ! j) (op_out_device_index (bm_ops bm ! i))"
  have len: "length (bm_ops (s_bm st)) = ?n" using tab(1) by (rule same_table_length)
  have ch: "op_chains (bm_ops bm ! i)"
    using chain same_op(4)[OF tab(1) i] by (simp add: chains_op_chains op_chains_def)
  have grow: "?w ?st j \<le> ?w st j + (?n + 1) ^ (depth i - 1) \<and> (?rd j \<longrightarrow> 0 < depth i)
      \<and> (\<not> ?rd j \<longrightarrow> ?w ?st j = ?w st j)" if j: "j < ?n" for j
  proof (cases "?rd j")
    case True
    have "depth j < depth i" by (rule acyclic_tableD[OF tab(2) i j ch True])
    then have "(?n + 1) ^ depth j \<le> (?n + 1) ^ (depth i - 1)" by (intro power_increasing) simp_all
    then show ?thesis using True \<open>depth j < depth i\<close> by auto
  next
    case False
    then show ?thesis
      using commit_stale[of i st j r] same_op(2)[OF tab(1) j] same_op(4)[OF tab(1) i]
      by (simp add: reads_def)
  qed
  have pot: "potential depth ?st = (\<Sum>j < ?n. ?w ?st j)" "potential depth st = (\<Sum>j < ?n. ?w st j)"
    by (simp_all only: potential_def len commit_ops_length)
  show ?thesis
  proof (cases "\<exists>j < ?n. ?rd j")
    case True
    then have pos: "0 < depth i" using grow by blast
    have "(\<Sum>j < ?n. ?w ?st j) \<le> (\<Sum>j < ?n. ?w st j + (?n + 1) ^ (depth i - 1))"
      by (rule sum_mono) (use grow in auto)
    also have "\<dots> = (\<Sum>j < ?n. ?w st j) + ?n * (?n + 1) ^ (depth i - 1)"
      by (simp add: sum.distrib)
    also have "\<dots> < (\<Sum>j < ?n. ?w st j) + (?n + 1) ^ depth i"
      using pos by (cases "depth i") auto
    finally show ?thesis by (simp only: pot)
  next
    case False
    then have "(\<Sum>j < ?n. ?w ?st j) = (\<Sum>j < ?n. ?w st j)" by (intro sum.cong) (use grow in auto)
    then show ?thesis by (simp add: pot)
  qed
qed

lemma leaf_potential_eq: "\<not> chains i st \<Longrightarrow> potential depth (commit_output i r st) = potential depth st"
  unfolding potential_def commit_ops_length by (intro sum.cong) (simp_all add: commit_stale)

interpretation chain: cascade "evaluate_op h" "evaluate_rows h" "evaluate_row h"
    commit_output send_put chains row_indices "ranked h depth bm"
    "\<lambda>i. i < length (bm_ops bm)" "number_if_chained bm" "potential depth" for h depth bm
proof unfold_locales
  fix st st' :: "'a bm_state" and res i r
  assume "ranked h depth bm st"
  then have num: "numeric h bm st" and acy: "acyclic_table depth bm" and tab: "same_table bm (s_bm st)"
    and cache: "cache_nonnan (s_bm st)" by (simp_all add: ranked_def numeric_def)
  note len = same_table_length[OF tab]
  show "set (row_indices st) = {i. i < length (bm_ops bm)}" by (rule settle.rows_dm[OF num])
  show "ranked h depth bm (send_put i r st)" using num acy by (simp add: ranked_def numeric_def)
  assume i: "i < length (bm_ops bm)"
  show "ranked h depth bm (commit_output i r st)" if "number_if_chained bm i r"
    using numeric_commit[OF num i that] acy by (simp add: ranked_def)
  show "ranked h depth bm st'" if "evaluate_row h i st = (st', res)"
    using numeric_row(1)[OF num i that] acy by (simp add: ranked_def)
  show "number_if_chained bm i r" if "evaluate_row h i st = (st', Some r)"
    using numeric_row(2)[OF num i that] by simp
  show "potential depth st' \<le> potential depth st" if "evaluate_row h i st = (st', res)"
    using row_potential_le[OF cache _ that] i len by simp
  show "potential depth (commit_output i r st') \<le> potential depth st"
    if "evaluate_row h i st = (st', Some r)" "\<not> chains i st'"
    using row_potential_le[OF cache _ that(1)] leaf_potential_eq[OF that(2)] i len by simp
  show "potential depth (commit_output i r st') < potential depth st"
    if row: "evaluate_row h i st = (st', Some r)" and ch: "chains i st'"
    using row_potential_fired[OF cache _ row, of depth] i len
      commit_potential[OF same_table_trans[OF tab row_same_table(1)[OF row]] acy i ch, of r] by simp
next
  show "potential depth (send_put i r st) = potential depth st" for i r and st :: "'a bm_state"
    by (simp only: potential_def send_put_bm)
qed

end
