(* ===== verification/BmProps.thy ===== *)
theory BmProps
  imports BmCascade
begin

text \<open>
  The properties of the binding map: the chained evaluations of an acyclic table return, what
  they leave is settled, every message that goes out passed the gates; and the two ways the
  change detection fails its purpose (a NaN, a refused command).
\<close>

section \<open>A sample table\<close>

text \<open>One row: a report of device 1 (above 0, for 'gt') commands device 2.\<close>

definition sample_input :: bm_input where
  "sample_input = \<lparr>in_device_index = 1, in_source_object = HES_LX_BTN_CV, in_condition = ''pt'',
     in_author_type = [], in_accompany_op = []\<rparr>"

definition sample_op :: "string \<Rightarrow> bm_input \<Rightarrow> bm_operation" where
  "sample_op code i = \<lparr>op_ref_id = 1, op_enabled = True, op_operation = code, op_table_code = ''ot1'',
     op_inputs = [i], op_input_params = [], op_ip_is_live = [], op_output_params = [],
     op_out_device_index = 2, op_out_dest_object = HES_LX_LIGHT_CV, op_out_method = [],
     op_out_adjustment = [], op_out_code = ''o1'', op_out_author_type = [],
     op_has_last_output = False, op_last_output_value = d_zero,
     op_has_last_inputs = False, op_last_operands = []\<rparr>"

definition sample_bm :: "bm_operation list \<Rightarrow> binding_map" where
  "sample_bm ops = bm_init\<lparr>bm_ops := ops, bm_addrs :=
     [\<lparr>ad_device_index = 1, ad_module_type = HES_MODTYPE_HI, ad_module_ref_index = 1,
       ad_net_ref_index = 1, ad_address = []\<rparr>]\<rparr>"

definition sample_bus :: hes_bus where
  "sample_bus = \<lparr>bus_sent = [], bus_clock = (\<lambda>_. Some (0, 0)), bus_offset_ns = 0\<rparr>"

definition sample_state :: "bm_operation list \<Rightarrow> unit bm_state" where
  "sample_state ops = \<lparr>s_bm = sample_bm ops, s_bus = sample_bus, s_app = ()\<rparr>"

text \<open>Commands of the user "ann" are authorized.\<close>

definition sample_hooks :: "unit bm_hooks" where
  "sample_hooks = \<lparr>app_operation = None, auth_authorize = Some (\<lambda>m _. m_user_name m = ''ann'')\<rparr>"

definition sample_report :: "string \<Rightarrow> string \<Rightarrow> hes_clme_msg" where
  "sample_report user v = hes_msg_set_payload_str (hes_msg_set_path
     (hes_msg_init\<lparr>m_verb := HES_VERB_EVENT, m_device_index := 1, m_user_name := user\<rparr>) HES_LX_BTN_CV) v"

text \<open>The sample table once a user has reported 1.\<close>

definition reported :: "string \<Rightarrow> bm_operation list \<Rightarrow> unit bm_state" where
  "reported user ops = (sample_state ops)\<lparr>s_bm := (sample_bm ops)\<lparr>
     bm_value_cache := (\<lambda>_. d_zero)(1 := d_one), bm_value_valid := (\<lambda>_. False)(1 := True),
     bm_current_msg := Some (sample_report user ''1'')\<rparr>\<rparr>"

lemmas sample_defs = reported_def sample_state_def sample_bm_def bm_init_def sample_op_def
  sample_input_def sample_bus_def sample_hooks_def

lemmas evaluation_defs = bm_evaluate_all_def evaluate_row_def Let_def op_ready_def apply_condition_def
  inputs_changed_def second_operand_def set_op_def compute_def apply_operation_def chains_def
  commit_output_def send_put_def row_indices_def output_authorized_def op_requires_authorization_def

section \<open>Reports\<close>

lemma store_input_frame:
  "bm_ops (fst (store_input msg v i acc)) = bm_ops (fst acc)"
  "bm_addrs (fst (store_input msg v i acc)) = bm_addrs (fst acc)"
  "bm_authz_disabled (fst (store_input msg v i acc)) = bm_authz_disabled (fst acc)"
  "bm_current_msg (fst (store_input msg v i acc)) = bm_current_msg (fst acc)"
  "d_nonnan v \<Longrightarrow> cache_nonnan (fst acc) \<Longrightarrow> cache_nonnan (fst (store_input msg v i acc))"
  by (auto simp: store_input_def cache_nonnan_def split: prod.splits if_splits)

lemma store_inputs_frame:
  "bm_ops (fst (fold (store_input msg v) is acc)) = bm_ops (fst acc)
   \<and> bm_addrs (fst (fold (store_input msg v) is acc)) = bm_addrs (fst acc)
   \<and> bm_authz_disabled (fst (fold (store_input msg v) is acc)) = bm_authz_disabled (fst acc)
   \<and> bm_current_msg (fst (fold (store_input msg v) is acc)) = bm_current_msg (fst acc)
   \<and> (d_nonnan v \<longrightarrow> cache_nonnan (fst acc) \<longrightarrow> cache_nonnan (fst (fold (store_input msg v) is acc)))"
  by (induction "is" arbitrary: acc) (simp_all add: store_input_frame)

lemma store_report_concat:
  "store_report msg v bm = fold (store_input msg v) (concat (map op_inputs (bm_ops bm))) (bm, False)"
proof -
  have "fold (\<lambda>op. fold (store_input msg v) (op_inputs op)) ops acc
      = fold (store_input msg v) (concat (map op_inputs ops)) acc" for ops acc
    by (induction ops arbitrary: acc) simp_all
  then show ?thesis by (simp add: store_report_def)
qed

lemma store_report_frame:
  "same_table bm (fst (store_report msg v bm))"
  "d_nonnan v \<Longrightarrow> cache_nonnan bm \<Longrightarrow> cache_nonnan (fst (store_report msg v bm))"
  using store_inputs_frame[of msg v "concat (map op_inputs (bm_ops bm))" "(bm, False)"]
  by (simp_all add: store_report_concat same_table_def)

definition with_report :: "hes_clme_msg \<Rightarrow> 'a bm_state \<Rightarrow> 'a bm_state" where
  "with_report msg st = st\<lparr>s_bm := fst (store_report msg
     (bm_datum_value (Some (m_payload msg)) (Some BM_LIVE_INPUT_PARAM))
     ((s_bm st)\<lparr>bm_current_msg := Some msg\<rparr>))\<rparr>"

lemma processor_cases:
  obtains "bm_processor_handle h fuel msg st = Some st"
  | "bm_processor_handle h fuel msg st = Some (with_report msg st)"
  | "bm_processor_handle h fuel msg st = bm_evaluate_all h fuel (with_report msg st)"
proof -
  have "bm_processor_handle h fuel msg st \<in>
      {Some st, Some (with_report msg st), bm_evaluate_all h fuel (with_report msg st)}"
    unfolding bm_processor_handle_def with_report_def by (simp add: Let_def split: prod.split)
  then show thesis using that by blast
qed

lemma with_report_table:
  "same_table ((s_bm st)\<lparr>bm_current_msg := Some msg\<rparr>) (s_bm (with_report msg st))"
  "s_bus (with_report msg st) = s_bus st"
  by (simp_all add: with_report_def store_report_frame(1))

text \<open>What a handled message leaves behind: the static part of the table, and on the bus only what passed
  the gates for it.\<close>

lemma processor_gate:
  assumes "bm_processor_handle h fuel msg st = Some st'"
  shows "bus_extends (s_bus st) (s_bus st')"
    and "m \<in> set (sent_since (s_bus st) (s_bus st')) \<Longrightarrow> permitted h ((s_bm st)\<lparr>bm_current_msg := Some msg\<rparr>) m"
    and "map static_part (bm_ops (s_bm st')) = map static_part (bm_ops (s_bm st))"
    and "bm_addrs (s_bm st') = bm_addrs (s_bm st)" "bm_authz_disabled (s_bm st') = bm_authz_disabled (s_bm st)"
proof -
  let ?bm = "(s_bm st)\<lparr>bm_current_msg := Some msg\<rparr>"
  have "st' = st \<or> gate_inv h ?bm (s_bus st) st'"
  proof (cases rule: processor_cases[of h fuel msg st])
    case 3
    have "gate_inv h ?bm (s_bus st) (with_report msg st)"
      by (simp add: gate_inv_def with_report_table)
    then have "gate_inv h ?bm (s_bus st) st'"
      by (rule gate.all_keeps) (use 3 assms(1) in \<open>simp add: bm_evaluate_all_def\<close>)
    then show ?thesis by blast
  qed (use assms in \<open>auto simp: gate_inv_def with_report_table\<close>)
  then show "bus_extends (s_bus st) (s_bus st')"
    and "m \<in> set (sent_since (s_bus st) (s_bus st')) \<Longrightarrow> permitted h ?bm m"
    and "map static_part (bm_ops (s_bm st')) = map static_part (bm_ops (s_bm st))"
    and "bm_addrs (s_bm st') = bm_addrs (s_bm st)" "bm_authz_disabled (s_bm st') = bm_authz_disabled (s_bm st)"
    by (auto simp: gate_inv_def same_table_def)
qed

section \<open>Properties\<close>

text \<open>C1: The processor returns. When the chaining of the table has no cycle, no chained row can
  compute a NaN and none is reported, a call depth of \<open>table_fuel\<close> is enough for
  \<open>bm_processor_handle\<close> to come back from the nested evaluations a report sets off.\<close>

theorem processor_returns:
  assumes "acyclic_table depth (s_bm st)" "nan_safe h (s_bm st)" "cache_nonnan (s_bm st)"
    and "d_nonnan (bm_datum_value (Some (m_payload msg)) (Some BM_LIVE_INPUT_PARAM))"
    and "table_fuel depth (s_bm st) \<le> fuel"
  shows "\<exists>st'. bm_processor_handle h fuel msg st = Some st'"
proof (cases rule: processor_cases[of h fuel msg st])
  case 3
  let ?bm = "(s_bm st)\<lparr>bm_current_msg := Some msg\<rparr>" and ?st = "with_report msg st"
  have tab: "same_table ?bm (s_bm ?st)" by (rule with_report_table)
  have "cache_nonnan (s_bm ?st)"
    using store_report_frame(2)[OF assms(4), of ?bm msg] assms(3)
    by (simp add: with_report_def cache_nonnan_def[of ?bm] cache_nonnan_def[of "s_bm st"])
  then have "ranked h depth ?bm ?st"
    using tab assms(1,2) by (simp add: ranked_def numeric_def nan_safe_def acyclic_table_def)
  moreover have "potential depth ?st < fuel"
    using potential_bound[of depth ?st] assms(5) same_table_length[OF tab] by (simp add: table_fuel_def)
  ultimately show ?thesis using 3 chain.all_return by (simp add: bm_evaluate_all_def)
qed simp_all

lemma sample_payload: "m_payload (sample_report u ''1'') = ''1''"
  by (simp add: sample_report_def hes_strlcpy_take)

lemma sample_datum: "bm_datum_value (Some ''1'') (Some BM_LIVE_INPUT_PARAM) = d_one"
  by (simp add: bm_datum_value_def datum_loop.simps atof_zero_one)

lemma sample_nan_safe: "bm_ops bm = [sample_op ''gt'' i] \<Longrightarrow> nan_safe sample_hooks bm"
  by (simp add: nan_safe_def app_nan_free_def sample_hooks_def sample_op_def)

lemma sample_cache: "cache_nonnan (sample_bm ops)"
  by (simp add: cache_nonnan_def sample_bm_def bm_init_def d_zero_def)

lemma sample_acyclic: "acyclic_table (\<lambda>_. 0) (sample_bm [sample_op ''gt'' sample_input])"
  by code_simp

theorem processor_returns_witness:
  "\<exists>st'. bm_processor_handle sample_hooks (table_fuel (\<lambda>_. 0) (s_bm (sample_state [sample_op ''gt'' sample_input])))
     (sample_report ''ann'' ''1'') (sample_state [sample_op ''gt'' sample_input]) = Some st'"
proof (rule processor_returns[of "\<lambda>_. 0"])
  show "d_nonnan (bm_datum_value (Some (m_payload (sample_report ''ann'' ''1''))) (Some BM_LIVE_INPUT_PARAM))"
    by (simp add: sample_payload sample_datum d_one_def)
  show "nan_safe sample_hooks (s_bm (sample_state [sample_op ''gt'' sample_input]))"
    by (rule sample_nan_safe) (simp add: sample_state_def sample_bm_def)
qed (simp_all add: sample_state_def sample_cache sample_acyclic)

text \<open>Two tables that differ at most in the operands remembered, and there in the sign of a zero only: what a
  row that finds its operands unchanged stores.\<close>

definition same_row :: "bm_operation \<Rightarrow> bm_operation \<Rightarrow> bool" where
  "same_row op op' \<longleftrightarrow> op'\<lparr>op_last_operands := []\<rparr> = op\<lparr>op_last_operands := []\<rparr>
     \<and> (op_last_operands op' = op_last_operands op \<or> list_all2 d_eq (op_last_operands op) (op_last_operands op'))"

definition same_map :: "binding_map \<Rightarrow> binding_map \<Rightarrow> bool" where
  "same_map bm bm' \<longleftrightarrow> bm'\<lparr>bm_ops := []\<rparr> = bm\<lparr>bm_ops := []\<rparr> \<and> list_all2 same_row (bm_ops bm) (bm_ops bm')"

lemma same_row_refl [simp]: "same_row op op"
  by (simp add: same_row_def)

lemma d_eq_list_trans: "list_all2 d_eq xs ys \<Longrightarrow> list_all2 d_eq ys zs \<Longrightarrow> list_all2 d_eq xs zs"
  by (rule list_all2_trans[of d_eq d_eq d_eq, OF d_eq_trans])

lemma same_row_trans: "same_row a b \<Longrightarrow> same_row b c \<Longrightarrow> same_row a c"
  unfolding same_row_def by (elim conjE disjE) (auto dest: d_eq_list_trans)

lemma same_map_refl [simp]: "same_map bm bm"
  by (simp add: same_map_def list.rel_refl)

lemma same_map_trans: "same_map a b \<Longrightarrow> same_map b c \<Longrightarrow> same_map a c"
  unfolding same_map_def by (elim conjE) (simp, rule list_all2_trans[of same_row same_row same_row, OF same_row_trans])

lemma same_map_set_op:
  assumes "same_row (bm_ops (s_bm st) ! i) op"
  shows "same_map (s_bm st) (s_bm (set_op i op st))"
proof -
  have "same_row (bm_ops (s_bm st) ! j) ((bm_ops (s_bm st))[i := op] ! j)" if "j < length (bm_ops (s_bm st))" for j
    by (cases "j = i") (use assms that in simp_all)
  then show ?thesis by (simp add: same_map_def set_op_def list_all2_conv_all_nth)
qed

lemma quiet_row:
  assumes "quiet i st"
  shows "\<exists>st1. evaluate_row h i st = (st1, None) \<and> s_bus st1 = s_bus st \<and> s_app st1 = s_app st
    \<and> same_map (s_bm st) (s_bm st1)"
proof (cases "op_enabled (bm_ops (s_bm st) ! i) \<and> op_ready (s_bm st) (bm_ops (s_bm st) ! i)")
  case True
  then have fresh: "\<not> stale (s_bm st) (bm_ops (s_bm st) ! i)" using assms by (simp add: quiet_def)
  show ?thesis
  proof (cases "collect_operands (s_bm st) (op_inputs (bm_ops (s_bm st) ! i))")
    case None
    then show ?thesis by (simp add: evaluate_row_def Let_def)
  next
    case (Some operands)
    let ?op = "bm_ops (s_bm st) ! i"
    let ?op' = "?op\<lparr>op_has_last_inputs := True, op_last_operands := map opd_value operands\<rparr>"
    have same: "\<not> inputs_changed ?op (map opd_value operands)" using fresh Some by (simp add: stale_def)
    then have "same_row ?op ?op'" by (simp add: same_row_def inputs_changed_def)
    from same_map_set_op[OF this] show ?thesis
      using Some same by (auto simp: evaluate_row_def Let_def set_op_def)
  qed
qed (auto simp: evaluate_row_def Let_def)

lemma quiet_rows:
  assumes "numeric h bm st" "\<forall>j < length (bm_ops bm). quiet j st" "\<forall>j \<in> set is. j < length (bm_ops bm)"
  shows "\<exists>st1. evaluate_rows h (Suc k) is st = Some st1 \<and> s_bus st1 = s_bus st \<and> s_app st1 = s_app st
    \<and> same_map (s_bm st) (s_bm st1)"
  using assms
proof (induction "is" arbitrary: st)
  case (Cons i "is")
  obtain st1 where st1: "evaluate_row h i st = (st1, None)" "s_bus st1 = s_bus st" "s_app st1 = s_app st"
      "same_map (s_bm st) (s_bm st1)"
    using quiet_row[of i st h] Cons.prems by auto
  have "numeric h bm st1" using numeric_row(1)[OF Cons.prems(1) _ st1(1)] Cons.prems(3) by simp
  moreover have "\<forall>j < length (bm_ops bm). quiet j st1"
    using settle.row_quiet[OF Cons.prems(1) _ st1(1)] Cons.prems(2,3) by auto
  ultimately obtain st2 where "evaluate_rows h (Suc k) is st1 = Some st2" "s_bus st2 = s_bus st1" "s_app st2 = s_app st1"
      "same_map (s_bm st1) (s_bm st2)"
    using Cons.IH[of st1] Cons.prems(3) by auto
  then show ?case using st1 same_map_trans by auto
qed simp

text \<open>C3: What an evaluation leaves. When the chained rows cannot produce NaN and no cached value is one, and
  \<open>bm_evaluate_all\<close> returns, every row is quiet: disabled, not ready, or with the operands it was last run
  on. Evaluating the table again returns, sends nothing, does not enter the host's app, and leaves the map as
  it is: the value cache, its validity, and every row, in which at most the sign of a remembered zero differs.\<close>

theorem evaluation_settles:
  assumes "nan_safe h (s_bm st)" "cache_nonnan (s_bm st)" "bm_evaluate_all h fuel st = Some st'"
  shows "(\<forall>j < length (bm_ops (s_bm st')). quiet j st')
     \<and> (\<exists>st''. bm_evaluate_all h (Suc k) st' = Some st'' \<and> s_bus st'' = s_bus st' \<and> s_app st'' = s_app st'
          \<and> same_map (s_bm st') (s_bm st''))"
proof -
  have num: "numeric h (s_bm st) st" using assms(1,2) by (simp add: numeric_def)
  note run = assms(3)[unfolded bm_evaluate_all_def]
  have num': "numeric h (s_bm st) st'" by (rule settle.all_keeps[OF num run])
  have len: "length (bm_ops (s_bm st')) = length (bm_ops (s_bm st))"
    using num' by (simp add: numeric_def same_table_length)
  have q: "\<forall>j < length (bm_ops (s_bm st)). quiet j st'" using settle.all_settle[OF num run] by blast
  show ?thesis
    using q quiet_rows[OF num' q, of "row_indices st'" k] by (simp add: len bm_evaluate_all_def row_indices_set)
qed

lemma sample_runs:
  "\<exists>st'. bm_evaluate_all sample_hooks (Suc (Suc (Suc 0))) (reported u [sample_op ''gt'' sample_input]) = Some st'
     \<and> map m_payload (bus_sent (s_bus st')) = [''1'']"
  by (simp add: sample_defs evaluation_defs upt_rec put_message_def hes_strlcpy_take hes_bus_send_sent)

lemma reported_cache: "cache_nonnan (s_bm (reported u ops))"
  by (simp add: cache_nonnan_def reported_def)

lemma reported_report:
  "with_report (sample_report u ''1'') (sample_state [sample_op c sample_input]) = reported u [sample_op c sample_input]"
  by (simp add: with_report_def sample_payload sample_datum store_report_def store_input_def
    sample_defs input_matches_def sample_report_def hes_strlcpy_take)

theorem evaluation_settles_witness:
  "\<exists>st'. map m_payload (bus_sent (s_bus st')) = [''1''] \<and> length (bm_ops (s_bm st')) = 1 \<and> quiet 0 st'
     \<and> (\<exists>st''. bm_evaluate_all sample_hooks 3 st' = Some st'' \<and> s_bus st'' = s_bus st')"
proof -
  let ?st = "reported ''ann'' [sample_op ''gt'' sample_input]"
  obtain st' where run: "bm_evaluate_all sample_hooks (Suc (Suc (Suc 0))) ?st = Some st'"
      and sent: "map m_payload (bus_sent (s_bus st')) = [''1'']"
    using sample_runs[of "''ann''"] by (elim exE conjE)
  have safe: "nan_safe sample_hooks (s_bm ?st)"
    by (rule sample_nan_safe) (simp add: reported_def sample_bm_def)
  have "numeric sample_hooks (s_bm ?st) ?st" using safe reported_cache by (simp add: numeric_def)
  then have "numeric sample_hooks (s_bm ?st) st'"
    by (rule settle.all_keeps[OF _ run[unfolded bm_evaluate_all_def]])
  then have "length (bm_ops (s_bm st')) = 1"
    using same_table_length by (fastforce simp: numeric_def sample_defs)
  then show ?thesis
    using evaluation_settles[OF safe reported_cache run, of 2] sent
    by (intro exI[of _ st']) (auto simp: eval_nat_numeral)
qed

text \<open>C2: Only what passed the gates goes out. While a report is processed, every message sent is
  the PUT of an enabled row with a destination whose output is authorized for that very report
  (or a message the host's app handed over), with the row's destination and device.\<close>

theorem sent_only_permitted:
  assumes "bm_processor_handle h fuel msg st = Some st'"
    and "m \<in> set (sent_since (s_bus st) (s_bus st'))"
  shows "permitted h ((s_bm st)\<lparr>bm_current_msg := Some msg\<rparr>) m"
  using processor_gate(2)[OF assms] .

lemma sample_processed:
  "bm_processor_handle h fuel (sample_report u ''1'') (sample_state [sample_op c sample_input])
     = bm_evaluate_all h fuel (reported u [sample_op c sample_input])"
proof -
  have "m_verb (sample_report u ''1'') = HES_VERB_EVENT" by (simp add: sample_report_def)
  moreover have "snd (store_report (sample_report u ''1'') d_one
      ((sample_bm [sample_op c sample_input])\<lparr>bm_current_msg := Some (sample_report u ''1'')\<rparr>))"
    by (simp add: store_report_def store_input_def input_matches_def sample_defs sample_report_def hes_strlcpy_take)
  ultimately show ?thesis
    unfolding bm_processor_handle_def reported_report[symmetric] with_report_def
    by (simp add: sample_payload sample_datum sample_state_def Let_def split_beta)
qed

theorem sent_only_permitted_witness:
  "\<exists>m. m_payload m = ''1''
     \<and> permitted sample_hooks ((sample_bm [sample_op ''gt'' sample_input])
          \<lparr>bm_current_msg := Some (sample_report ''ann'' ''1'')\<rparr>) m"
proof -
  let ?st = "sample_state [sample_op ''gt'' sample_input]"
  obtain st' where run: "bm_processor_handle sample_hooks (Suc (Suc (Suc 0))) (sample_report ''ann'' ''1'') ?st = Some st'"
      and sent: "map m_payload (bus_sent (s_bus st')) = [''1'']"
    using sample_runs[of "''ann''"] unfolding sample_processed by (elim exE conjE)
  then obtain m where m: "m \<in> set (bus_sent (s_bus st'))" "m_payload m = ''1''" by auto
  have "m \<in> set (sent_since (s_bus ?st) (s_bus st'))"
    using m(1) by (simp add: sent_since_def sample_state_def sample_bus_def)
  from sent_only_permitted[OF run this] m(2) show ?thesis by (auto simp: sample_state_def)
qed

text \<open>The sample row, with an input whose accompanied information must be authorized.\<close>

definition guarded_op :: bm_operation where
  "guarded_op = sample_op ''gt'' (sample_input\<lparr>in_accompany_op := ''au''\<rparr>)"

lemma guarded_refused:
  "op_out_dest_object (bm_ops (s_bm (reported ''bob'' [guarded_op])) ! 0) \<noteq> []"
  "\<not> output_authorized sample_hooks (s_bm (reported ''bob'' [guarded_op]))
      (bm_ops (s_bm (reported ''bob'' [guarded_op])) ! 0)"
  by (simp_all add: guarded_op_def sample_defs sample_report_def output_authorized_def op_requires_authorization_def)

definition no_trace :: "'a bm_hooks \<Rightarrow> 'a bm_state \<Rightarrow> 'a bm_state \<Rightarrow> bool" where
  "no_trace h st st' \<longleftrightarrow>
     bm_value_cache (s_bm st') = bm_value_cache (s_bm st)
     \<and> bm_value_valid (s_bm st') = bm_value_valid (s_bm st)
     \<and> map op_has_last_output (bm_ops (s_bm st')) = map op_has_last_output (bm_ops (s_bm st))
     \<and> map op_last_output_value (bm_ops (s_bm st')) = map op_last_output_value (bm_ops (s_bm st))
     \<and> (\<forall>m \<in> set (sent_since (s_bus st) (s_bus st')). \<exists>m'. app_message h m' \<and> unstamped m = unstamped m')"

lemma refused_row:
  assumes "op_out_dest_object (bm_ops (s_bm st) ! i) \<noteq> []"
    and "\<not> output_authorized h (s_bm st) (bm_ops (s_bm st) ! i)"
  obtains st' where "evaluate_row h i st = (st', None)" "no_trace h st st'"
    "\<And>fuel. evaluate_op h (Suc fuel) i st = Some st'"
proof -
  obtain st' res where row: "evaluate_row h i st = (st', res)" by (cases "evaluate_row h i st")
  have upd: "map f (xs[i := y]) = map f xs" if "f y = f (xs ! i)" for f :: "bm_operation \<Rightarrow> 'c" and xs y
    using that by (metis list_update_id map_update)
  from row have "res = None \<and> map op_has_last_output (bm_ops (s_bm st')) = map op_has_last_output (bm_ops (s_bm st))
     \<and> map op_last_output_value (bm_ops (s_bm st')) = map op_last_output_value (bm_ops (s_bm st))
     \<and> (\<forall>m \<in> set (sent_since (s_bus st) (s_bus st')). \<exists>m'. app_message h m' \<and> unstamped m = unstamped m')"
  proof (cases rule: evaluate_row_cases)
    case skip
    then show ?thesis by simp
  next
    case (run operands ms)
    have "output_authorized h (s_bm st') (bm_ops (s_bm st) ! i)
        = output_authorized h (s_bm st) (bm_ops (s_bm st) ! i)"
      using row_same_table(1)[OF row] by (simp add: output_authorized_def same_table_def)
    then have "res = None" using run(8) assms by (cases res) auto
    moreover have "map unstamped (sent_since (s_bus st) (s_bus st')) = map unstamped ms"
      using send_all_sent[of "s_bus st" ms] run(5) by (simp add: unstamped_def[abs_def])
    then have "\<forall>m \<in> set (sent_since (s_bus st) (s_bus st')). unstamped m \<in> unstamped ` set ms"
      by (metis list.set_map image_eqI)
    ultimately show ?thesis
      using run(4,6) by (auto simp: set_op_def remembered_def intro!: upd)
  qed
  then show thesis using row row_same_table(2,3)[OF row] by (intro that[of st']) (simp_all add: no_trace_def)
qed

text \<open>C4: A refused output leaves no trace in what other rows see: when a row has a destination object and its
  output is not authorized, running the row changes neither the value cache, nor which cached values are
  valid, nor any row's last output, chains into nothing, and sends nothing but what the host's app handed over
  while it performed the operation (an appService row runs its operation before the gate).\<close>

theorem refused_output_no_trace:
  assumes "op_out_dest_object (bm_ops (s_bm st) ! i) \<noteq> []"
    and "\<not> output_authorized h (s_bm st) (bm_ops (s_bm st) ! i)"
  shows "\<exists>st'. evaluate_op h (Suc fuel) i st = Some st'
     \<and> bm_value_cache (s_bm st') = bm_value_cache (s_bm st)
     \<and> bm_value_valid (s_bm st') = bm_value_valid (s_bm st)
     \<and> map op_has_last_output (bm_ops (s_bm st')) = map op_has_last_output (bm_ops (s_bm st))
     \<and> map op_last_output_value (bm_ops (s_bm st')) = map op_last_output_value (bm_ops (s_bm st))
     \<and> (\<forall>m \<in> set (sent_since (s_bus st) (s_bus st')). \<exists>m'. app_message h m' \<and> unstamped m = unstamped m')"
  by (rule refused_row[OF assms]) (auto simp: no_trace_def)

theorem refused_output_no_trace_witness:
  "\<exists>st'. evaluate_op sample_hooks 1 0 (reported ''bob'' [guarded_op]) = Some st'
     \<and> bm_value_cache (s_bm st') 2 = d_zero"
proof -
  have "bm_value_cache (s_bm (reported ''bob'' [guarded_op])) 2 = d_zero"
    by (simp add: reported_def)
  then show ?thesis using refused_output_no_trace[OF guarded_refused, of 0] by auto
qed

definition current :: "hes_clme_msg \<Rightarrow> 'a bm_state \<Rightarrow> 'a bm_state" where
  "current msg st = st\<lparr>s_bm := (s_bm st)\<lparr>bm_current_msg := Some msg\<rparr>\<rparr>"

text \<open>A refused command masks the next one. Although a refused output is not recorded, the
  operands of the row are: whoever reports the same values next, authorized or not, finds the
  row unchanged, and nothing is sent.\<close>

theorem refused_command_masks_next:
  assumes "op_out_dest_object (bm_ops (s_bm st) ! i) \<noteq> []"
    and "\<not> output_authorized h (s_bm st) (bm_ops (s_bm st) ! i)"
    and "i < length (bm_ops (s_bm st))" "cache_nonnan (s_bm st)"
    and "evaluate_op h (Suc fuel) i st = Some st1"
  shows "\<exists>st2. evaluate_op h (Suc fuel) i (current msg st1) = Some st2 \<and> s_bus st2 = s_bus st1"
proof -
  obtain st' where row: "evaluate_row h i st = (st', None)" and op: "evaluate_op h (Suc fuel) i st = Some st'"
    using refused_row[OF assms(1,2)] by metis
  then have "st1 = st'" using assms(5) by simp
  then have "quiet i st1" using row_not_stale(1)[OF row assms(4,3)] by simp
  moreover have "stale (bm\<lparr>bm_current_msg := m\<rparr>) op = stale bm op" for bm m op
    by (rule stale_cong) simp
  moreover have "op_ready (bm\<lparr>bm_current_msg := m\<rparr>) op = op_ready bm op" for bm m op
    by (simp add: op_ready_def)
  ultimately have "quiet i (current msg st1)" by (simp add: quiet_def current_def)
  then obtain st2 where "evaluate_row h i (current msg st1) = (st2, None)" "s_bus st2 = s_bus (current msg st1)"
    using quiet_row by blast
  then show ?thesis by (simp add: current_def)
qed

text \<open>"bob" is refused, and then the same report of "ann" is not acted upon, although it is when
  it comes first.\<close>

theorem refused_command_masks_next_witness:
  "\<exists>st1 st2 st3. evaluate_op sample_hooks (Suc (Suc (Suc 0))) 0 (reported ''bob'' [guarded_op]) = Some st1
     \<and> evaluate_op sample_hooks (Suc (Suc (Suc 0))) 0 (current (sample_report ''ann'' ''1'') st1) = Some st2
     \<and> bus_sent (s_bus st2) = []
     \<and> evaluate_op sample_hooks (Suc (Suc (Suc 0))) 0 (reported ''ann'' [guarded_op]) = Some st3
     \<and> map m_payload (bus_sent (s_bus st3)) = [''1'']"
proof -
  obtain st1 where st1: "evaluate_op sample_hooks (Suc (Suc (Suc 0))) 0 (reported ''bob'' [guarded_op]) = Some st1"
    "no_trace sample_hooks (reported ''bob'' [guarded_op]) st1"
    using refused_row[OF guarded_refused] by metis
  have "\<not> app_message sample_hooks m" for m by (simp add: app_message_def sample_hooks_def)
  then have none: "bus_sent (s_bus st1) = []"
    using st1(2) by (simp add: no_trace_def sent_since_def reported_def sample_state_def sample_bus_def)
  have "\<exists>st3. evaluate_op sample_hooks (Suc (Suc (Suc 0))) 0 (reported ''ann'' [guarded_op]) = Some st3
     \<and> map m_payload (bus_sent (s_bus st3)) = [''1'']"
    by (simp add: guarded_op_def sample_defs sample_report_def evaluation_defs upt_rec put_message_def
        hes_strlcpy_take hes_bus_send_sent)
  moreover have "0 < length (bm_ops (s_bm (reported ''bob'' [guarded_op])))" by (simp add: reported_def sample_bm_def)
  ultimately show ?thesis
    using refused_command_masks_next[OF guarded_refused _ reported_cache st1(1), of "sample_report ''ann'' ''1''"]
      st1(1) none by auto
qed

section \<open>Evaluations that do not end\<close>

lemma evaluate_row_fires:
  assumes "op_enabled (bm_ops (s_bm st) ! i)" "op_ready (s_bm st) (bm_ops (s_bm st) ! i)"
    and "collect_operands (s_bm st) (op_inputs (bm_ops (s_bm st) ! i)) = Some operands" "operands \<noteq> []"
    and "inputs_changed (bm_ops (s_bm st) ! i) (map opd_value operands)"
    and "compute h (remembered (bm_ops (s_bm st) ! i) (map opd_value operands)) operands
           (set_op i (remembered (bm_ops (s_bm st) ! i) (map opd_value operands)) st) = (Some r, st1)"
    and "apply_condition (op_out_adjustment (bm_ops (s_bm st) ! i)) r = (False, r')"
    and "\<not> (op_has_last_output (bm_ops (s_bm st) ! i) \<and> d_eq r' (op_last_output_value (bm_ops (s_bm st) ! i)))"
    and "op_out_dest_object (bm_ops (s_bm st) ! i) = [] \<or> output_authorized h (s_bm st1) (bm_ops (s_bm st) ! i)"
  shows "evaluate_row h i st = (st1, Some r')"
  using assms unfolding evaluate_row_def Let_def remembered_def by simp

text \<open>A row whose output is free to go: no destination, or authorized.\<close>

definition output_free :: "'a bm_hooks \<Rightarrow> binding_map \<Rightarrow> bm_operation \<Rightarrow> bool" where
  "output_free h bm op \<longleftrightarrow> op_out_dest_object op = [] \<or> output_authorized h bm op"

text \<open>A row that reads one input as it is, and publishes its result as it is.\<close>

definition plain_row :: "bm_operation \<Rightarrow> bm_input \<Rightarrow> bool" where
  "plain_row op i \<longleftrightarrow> op_enabled op \<and> op_inputs op = [i] \<and> in_condition i = ''pt''
     \<and> in_author_type i = [] \<and> op_out_adjustment op = [] \<and> op_chains op
     \<and> in_device_index i > 0 \<and> unat (in_device_index i) \<le> BM_MAX_ADDRS"

lemma plain_row_fires:
  fixes st :: "'a bm_state"
  assumes tab: "same_table bm (s_bm st)" and ops: "bm_ops bm = op # rest" "plain_row op i"
    and free: "output_free h bm op" and ap: "op_operation op \<noteq> ''ap''"
    and v: "bm_value_cache (s_bm st) (in_device_index i) = v" "bm_value_valid (s_bm st) (in_device_index i)"
    and changed: "op_has_last_inputs (bm_ops (s_bm st) ! 0) \<Longrightarrow>
                    \<not> list_all2 d_eq (op_last_operands (bm_ops (s_bm st) ! 0)) [v]"
    and new: "op_has_last_output (bm_ops (s_bm st) ! 0) \<Longrightarrow>
                \<not> d_eq (apply_operation (op_operation op) v (second_operand (bm_ops (s_bm st) ! 0) [v]))
                    (op_last_output_value (bm_ops (s_bm st) ! 0))"
  shows "evaluate_row h 0 st = (set_op 0 (remembered (bm_ops (s_bm st) ! 0) [v]) st,
           Some (apply_operation (op_operation op) v (second_operand (bm_ops (s_bm st) ! 0) [v])))"
proof -
  let ?op = "bm_ops (s_bm st) ! 0"
  let ?opds = "[\<lparr>opd_device_index = in_device_index i,
                 opd_source_object = hes_strlcpy HES_PATH_MAX (in_source_object i), opd_value = v\<rparr>]"
  have len: "0 < length (bm_ops bm)" using ops by simp
  note same = same_op[OF tab len]
  have op: "op_enabled ?op" "op_inputs ?op = [i]" "op_operation ?op = op_operation op"
    "op_out_adjustment ?op = []" using same ops by (simp_all add: plain_row_def)
  have cond: "apply_condition (in_condition i) v = (False, v)" "apply_condition [] r = (False, r)" for r
    using ops by (simp_all add: plain_row_def apply_condition_def)
  have free': "op_out_dest_object ?op = [] \<or> output_authorized h (s_bm (set_op 0 op' st)) ?op" for op'
    using free output_authorized_same[OF tab len, of h] same(5) ops(1)
    by (auto simp: output_free_def set_op_def output_authorized_def)
  show ?thesis
  proof (rule evaluate_row_fires[where operands = ?opds])
    show "collect_operands (s_bm st) (op_inputs ?op) = Some ?opds" using op v cond by simp
    show "op_ready (s_bm st) ?op" using op ops v(2) by (auto simp: op_ready_def plain_row_def)
  qed (use op cond free' ap changed new in
        \<open>auto simp: inputs_changed_def compute_def remembered_def second_operand_def\<close>)
qed

lemma chains_same:
  assumes "same_table bm (s_bm st)" "bm_ops bm = op # rest" "op_chains op"
  shows "chains 0 st"
  using same_op(4)[OF assms(1), of 0] assms(2,3) by (simp add: chains_op_chains op_chains_def)

lemma row_indices_same:
  assumes "same_table bm (s_bm st)" "bm_ops bm = op # rest"
  shows "row_indices st = 0 # [1 ..< length (bm_ops bm)]"
  using same_table_length[OF assms(1)] assms(2) by (simp add: row_indices_def upt_conv_Cons del: upt_Suc)

lemma chained_commit:
  assumes "chains 0 st"
  shows "bm_value_cache (s_bm (commit_output 0 r st)) =
           (bm_value_cache (s_bm st))(op_out_device_index (bm_ops (s_bm st) ! 0) := r)"
    and "bm_value_valid (s_bm (commit_output 0 r st)) =
           (bm_value_valid (s_bm st))(op_out_device_index (bm_ops (s_bm st) ! 0) := True)"
    and "bm_ops (s_bm st) \<noteq> [] \<Longrightarrow> op_last_operands (bm_ops (s_bm (commit_output 0 r st)) ! 0)
           = op_last_operands (bm_ops (s_bm st) ! 0)"
    and "bm_ops (s_bm st) \<noteq> [] \<Longrightarrow> op_last_output_value (bm_ops (s_bm (commit_output 0 r st)) ! 0) = r"
  using assms by (simp_all add: commit_output_def Let_def set_op_def)

text \<open>A NaN that a report has stored stays stored, whatever other inputs take from the report.\<close>

lemma nan_sticky:
  assumes "bm_value_cache (fst acc) di = DNaN" "bm_value_valid (fst acc) di" "snd acc"
  shows "bm_value_cache (fst (fold (store_input msg DNaN) is acc)) di = DNaN
    \<and> bm_value_valid (fst (fold (store_input msg DNaN) is acc)) di
    \<and> snd (fold (store_input msg DNaN) is acc)"
  using assms
proof (induction "is" arbitrary: acc)
  case (Cons j js)
  let ?acc = "store_input msg DNaN j acc"
  have "bm_value_cache (fst ?acc) di = DNaN" "bm_value_valid (fst ?acc) di" "snd ?acc"
    using Cons.prems by (cases acc; simp add: store_input_def)+
  then show ?case using Cons.IH[of ?acc] by simp
qed simp

text \<open>A NaN that chains does not end. If the first row of the table adds, subtracts or
  multiplies an input it reads as it is, and its output has a device index, then the report
  "nan" for that input never comes back, whatever the call depth: a NaN differs from itself,
  so neither change detector stops the recursion. The table may be acyclic.\<close>

theorem nan_report_diverges:
  fixes st :: "'a bm_state"
  assumes "bm_ops (s_bm st) = op # rest" "plain_row op i" "op_operation op \<in> set [''ad'', ''su'', ''mu'']"
    and "output_free h ((s_bm st)\<lparr>bm_current_msg := Some msg\<rparr>) op"
    and "m_verb msg = HES_VERB_EVENT" "m_payload msg = ''nan''" "input_matches msg i"
  shows "bm_processor_handle h fuel msg st = None"
proof -
  let ?bm = "(s_bm st)\<lparr>bm_current_msg := Some msg\<rparr>" and ?di = "in_device_index i"
  let ?P = "\<lambda>st' :: 'a bm_state. same_table ?bm (s_bm st') \<and> bm_value_cache (s_bm st') ?di = DNaN
              \<and> bm_value_valid (s_bm st') ?di"
  have di: "?di > 0" "unat ?di \<le> BM_MAX_ADDRS" and ch: "op_chains op" using assms(2) by (simp_all add: plain_row_def)
  have nan: "bm_datum_value (Some ''nan'') (Some BM_LIVE_INPUT_PARAM) = DNaN"
    by (simp add: bm_datum_value_def datum_loop.simps atof_zero_one)
  have stored: "bm_value_cache (fst (store_report msg DNaN ?bm)) ?di = DNaN
      \<and> bm_value_valid (fst (store_report msg DNaN ?bm)) ?di \<and> snd (store_report msg DNaN ?bm)"
    using nan_sticky[where ?is = "concat (map op_inputs rest)" and di = ?di and acc = "store_input msg DNaN i (?bm, False)"] assms(1,2,7) di
    by (simp add: store_report_concat plain_row_def store_input_def)
  have start: "?P (with_report msg st)"
    using stored with_report_table(1)[where st = st and msg = msg] assms(6)
    by (simp add: with_report_def nan)
  have again: "\<exists>s1 r is. evaluate_row h 0 s = (s1, Some r) \<and> chains 0 s1 \<and> row_indices s1 = 0 # is
      \<and> ?P (commit_output 0 r s1)" if P: "?P s" for s
  proof -
    let ?op = "bm_ops (s_bm s) ! 0" and ?b = "second_operand (bm_ops (s_bm s) ! 0) [DNaN]"
    let ?s1 = "set_op 0 (remembered ?op [DNaN]) s"
    have r: "apply_operation (op_operation op) DNaN ?b = DNaN"
      using assms(3) by (auto simp: apply_operation_def d_sub_def)
    have row: "evaluate_row h 0 s = (?s1, Some DNaN)"
      using plain_row_fires[of ?bm s op rest i h DNaN] P assms(1-4) r by (auto simp: list_all2_Cons2)
    have tab: "same_table ?bm (s_bm ?s1)" using P row_same_table(1)[OF row] same_table_trans by blast
    have ch1: "chains 0 ?s1" by (rule chains_same[OF tab _ ch]) (simp add: assms(1))
    have "?P (commit_output 0 DNaN ?s1)"
      using P row_same_table(2,3)[OF row] same_table_trans[OF tab commit_same_table]
      by (simp add: chained_commit[OF ch1])
    then show ?thesis using row ch1 row_indices_same[OF tab] assms(1) by force
  qed
  have rows: "row_indices (with_report msg st) = 0 # [1 ..< length (bm_ops ?bm)]"
    by (rule row_indices_same[OF with_report_table(1)]) (simp add: assms(1))
  from bm_engine.never_returns[of ?P h 0, OF again start]
  have "bm_evaluate_all h fuel (with_report msg st) = None"
    unfolding bm_evaluate_all_def rows bm_engine.rows_Cons by simp
  then show ?thesis
    using stored assms(5,6) by (simp add: bm_processor_handle_def with_report_def nan Let_def split_beta)
qed

theorem nan_report_diverges_witness:
  "bm_processor_handle sample_hooks 1000 (sample_report ''ann'' ''nan'')
     (sample_state [sample_op ''ad'' sample_input]) = None"
proof (rule nan_report_diverges)
  show "bm_ops (s_bm (sample_state [sample_op ''ad'' sample_input])) = sample_op ''ad'' sample_input # []"
    by (simp add: sample_state_def sample_bm_def)
  show "plain_row (sample_op ''ad'' sample_input) sample_input"
    by (simp add: plain_row_def op_chains_def sample_op_def sample_input_def)
qed (simp_all add: sample_defs sample_report_def hes_strlcpy_take input_matches_def output_free_def
    output_authorized_def op_requires_authorization_def)

text \<open>Acyclicity is needed. A first row that negates ('no') the value it writes back to its own
  device fires for ever, whatever the call depth, on any 0 or 1 in the cache.\<close>

theorem self_loop_diverges:
  fixes st :: "'a bm_state"
  assumes "bm_ops (s_bm st) = op # rest" "plain_row op i" "op_operation op = ''no''"
    and "output_free h (s_bm st) op" "op_out_device_index op = in_device_index i"
    and "\<not> op_has_last_inputs op" "\<not> op_has_last_output op"
    and "bm_value_valid (s_bm st) (in_device_index i)"
    and "bm_value_cache (s_bm st) (in_device_index i) = d_of_bool b"
  shows "bm_evaluate_all h fuel st = None"
proof -
  let ?bm = "s_bm st" and ?di = "in_device_index i"
  let ?P = "\<lambda>s :: 'a bm_state. same_table ?bm (s_bm s) \<and> bm_value_valid (s_bm s) ?di
     \<and> (\<exists>b. bm_value_cache (s_bm s) ?di = d_of_bool b
          \<and> (op_has_last_inputs (bm_ops (s_bm s) ! 0) \<longrightarrow>
               op_last_operands (bm_ops (s_bm s) ! 0) = [d_of_bool (\<not> b)])
          \<and> (op_has_last_output (bm_ops (s_bm s) ! 0) \<longrightarrow>
               op_last_output_value (bm_ops (s_bm s) ! 0) = d_of_bool b))"
  have ch: "op_chains op" using assms(2) by (simp add: plain_row_def)
  have again: "\<exists>s1 r is. evaluate_row h 0 s = (s1, Some r) \<and> chains 0 s1 \<and> row_indices s1 = 0 # is
      \<and> ?P (commit_output 0 r s1)" if P: "?P s" for s
  proof -
    let ?op = "bm_ops (s_bm s) ! 0"
    have len: "bm_ops (s_bm s) \<noteq> []" using P same_table_length[of ?bm "s_bm s"] assms(1) by auto
    from P obtain b where b: "bm_value_cache (s_bm s) ?di = d_of_bool b"
      "op_has_last_inputs ?op \<Longrightarrow> op_last_operands ?op = [d_of_bool (\<not> b)]"
      "op_has_last_output ?op \<Longrightarrow> op_last_output_value ?op = d_of_bool b" by blast
    let ?s1 = "set_op 0 (remembered ?op [d_of_bool b]) s"
    have r: "apply_operation ''no'' (d_of_bool b) v = d_of_bool (\<not> b)" for v
      by (cases b) (simp_all add: apply_operation_def)
    have ne: "\<not> d_eq (d_of_bool (\<not> b)) (d_of_bool b)" "\<not> d_eq (d_of_bool b) (d_of_bool (\<not> b))"
      by (cases b; simp)+
    have row: "evaluate_row h 0 s = (?s1, Some (d_of_bool (\<not> b)))"
      by (rule plain_row_fires[OF _ assms(1,2,4) _ b(1), unfolded assms(3) r])
         (use P b(2,3) ne in simp_all)
    have tab: "same_table ?bm (s_bm ?s1)" using P row_same_table(1)[OF row] same_table_trans by blast
    have ch1: "chains 0 ?s1" by (rule chains_same[OF tab assms(1) ch])
    have out: "op_out_device_index (bm_ops (s_bm ?s1) ! 0) = ?di"
      using same_op(4)[OF tab, of 0] assms(1,5) by simp
    have "op_last_operands (bm_ops (s_bm ?s1) ! 0) = [d_of_bool b]" "bm_ops (s_bm ?s1) \<noteq> []"
      using len by (simp_all add: set_op_def remembered_def)
    then have "?P (commit_output 0 (d_of_bool (\<not> b)) ?s1)"
      using same_table_trans[OF tab commit_same_table] chained_commit[OF ch1] out
      by (intro conjI exI[of _ "\<not> b"]) simp_all
    then show ?thesis using row ch1 row_indices_same[OF tab assms(1)] by force
  qed
  have "?P st" using assms by auto
  from bm_engine.never_returns[of ?P h 0, OF again this] show ?thesis
    unfolding bm_evaluate_all_def row_indices_same[OF same_table_refl assms(1)] bm_engine.rows_Cons by simp
qed

theorem self_loop_diverges_witness:
  "bm_evaluate_all sample_hooks 1000
     (reported ''ann'' [(sample_op ''no'' sample_input)\<lparr>op_out_device_index := 1\<rparr>]) = None"
proof (rule self_loop_diverges[where b = True and rest = "[]" and i = sample_input])
  show "plain_row ((sample_op ''no'' sample_input)\<lparr>op_out_device_index := 1\<rparr>) sample_input"
    by (simp add: plain_row_def op_chains_def sample_op_def sample_input_def)
qed (simp_all add: sample_defs output_free_def output_authorized_def op_requires_authorization_def)

end
