(* ===== verification/Records.thy ===== *)
theory Records
  imports CLib
begin

text \<open>
  The textual tables of the program's payloads: records \<open>name=value\<close>, separated by semicolons.
  Two readers walk them, \<open>bm_datum_value\<close> of the binding map and \<open>proof_field\<close> of the
  cryptographic service; the lemmas describe the segment both look at first.
\<close>

fun payload_of :: "(string \<times> string) list \<Rightarrow> string" where
  "payload_of [] = []"
| "payload_of ((k, v) # kvs) = k @ CHR ''='' # v @ (if kvs = [] then [] else CHR '';'' # payload_of kvs)"

definition plain_data :: "(string \<times> string) list \<Rightarrow> bool" where
  "plain_data kvs \<longleftrightarrow> list_all (\<lambda>(k, v). k \<noteq> [] \<and> CHR ''='' \<notin> set k \<and> CHR '';'' \<notin> set k \<and> CHR '';'' \<notin> set v) kvs"

lemma takeWhile_to: "x \<notin> set s \<Longrightarrow> takeWhile (\<lambda>c. c \<noteq> x) (s @ x # r) = s"
  by (induction s) auto

lemma dropWhile_to: "x \<notin> set s \<Longrightarrow> dropWhile (\<lambda>c. c \<noteq> x) (s @ x # r) = x # r"
  by (induction s) auto

lemma takeWhile_none: "x \<notin> set s \<Longrightarrow> takeWhile (\<lambda>c. c \<noteq> x) s = s \<and> dropWhile (\<lambda>c. c \<noteq> x) s = []"
  by (induction s) auto

lemma payload_segment:
  assumes "plain_data ((k, v) # kvs)"
  shows "takeWhile (\<lambda>c. c \<noteq> CHR '';'') (payload_of ((k, v) # kvs)) = k @ CHR ''='' # v"
    and "dropWhile (\<lambda>c. c \<noteq> CHR '';'') (payload_of ((k, v) # kvs)) =
           (if kvs = [] then [] else CHR '';'' # payload_of kvs)"
    and "takeWhile (\<lambda>c. c \<noteq> CHR ''='') (k @ CHR ''='' # v) = k"
proof -
  have sep: "CHR '';'' \<notin> set (k @ CHR ''='' # v)" and eq: "CHR ''='' \<notin> set k"
    using assms by (auto simp: plain_data_def)
  show "takeWhile (\<lambda>c. c \<noteq> CHR '';'') (payload_of ((k, v) # kvs)) = k @ CHR ''='' # v"
    using takeWhile_to[OF sep, of "payload_of kvs"] takeWhile_none[OF sep] by simp
  show "dropWhile (\<lambda>c. c \<noteq> CHR '';'') (payload_of ((k, v) # kvs)) =
      (if kvs = [] then [] else CHR '';'' # payload_of kvs)"
    using dropWhile_to[OF sep, of "payload_of kvs"] takeWhile_none[OF sep] by simp
  show "takeWhile (\<lambda>c. c \<noteq> CHR ''='') (k @ CHR ''='' # v) = k" using eq by (rule takeWhile_to)
qed

end
