(* ===== verification/BmControl.thy ===== *)
theory BmControl
  imports BmProps Records
begin

text \<open>
  The binding map's other services: reading a datum out of a payload (\<open>bm_datum_value\<close>),
  the subscriptions the controller asks for (\<open>bm_controller_start\<close>), setting an
  authorization type by its address (\<open>bm_set_at\<close>) and the declared destinations.
\<close>

section \<open>Reading a datum\<close>

text \<open>\<open>atof\<close> stops at a separator.\<close>

lemma sep_facts:
  "\<not> c_isdigit CHR '';''" "\<not> c_isxdigit CHR '';''" "\<not> c_isspace CHR '';''" "c_tolower CHR '';'' = CHR '';''"
  by code_simp+

lemma takeWhile_sep: "\<not> P c \<Longrightarrow> takeWhile P (s @ c # r) = takeWhile P s"
  by (induction s) auto

lemma dropWhile_sep: "\<not> P c \<Longrightarrow> dropWhile P (s @ c # r) = dropWhile P s @ c # r"
  by (induction s) auto

lemma sign_split_sep: "sign_split (s @ CHR '';'' # r) = (fst (sign_split s), snd (sign_split s) @ CHR '';'' # r)"
  by (cases s) (auto simp: sign_split_def)

lemma starts_with_snoc: "c \<notin> set p \<Longrightarrow> starts_with p (s @ c # r) = starts_with p s"
proof (induction p arbitrary: s)
  case Nil
  show ?case by (simp add: starts_with_def)
next
  case (Cons x p)
  then show ?case by (cases s) (auto simp: starts_with_def)
qed

lemma starts_with_sep:
  assumes "CHR '';'' \<notin> set p"
  shows "starts_with p (lower_str (s @ CHR '';'' # r)) = starts_with p (lower_str s)"
  using starts_with_snoc[OF assms, of "lower_str s" "lower_str r"] by (simp add: lower_str_def sep_facts)

lemma exp_part_sep: "mark \<noteq> CHR '';'' \<Longrightarrow> exp_part mark (s @ CHR '';'' # r) = exp_part mark s"
  by (cases s) (auto simp: exp_part_def sep_facts sign_split_sep takeWhile_sep Let_def split: prod.splits)

lemma mantissa_sep:
  assumes "\<not> isd CHR '';''"
  shows "mantissa isd (s @ CHR '';'' # r) =
    (fst (mantissa isd s), fst (snd (mantissa isd s)), snd (snd (mantissa isd s)) @ CHR '';'' # r)"
  using assms
  by (cases "dropWhile isd s") (auto simp: mantissa_def Let_def takeWhile_sep dropWhile_sep simp del: dropWhile_eq_Nil_conv)

lemma atof_sep: "atof (s @ CHR '';'' # r) = atof s"
proof -
  obtain neg t where t: "sign_split (dropWhile c_isspace s) = (neg, t)" by fastforce
  have t': "sign_split (dropWhile c_isspace (s @ CHR '';'' # r)) = (neg, t @ CHR '';'' # r)"
    by (simp add: dropWhile_sep sep_facts sign_split_sep t)
  have dec: "atof_dec neg (u @ CHR '';'' # r) = atof_dec neg u" for u
    by (simp add: atof_dec_def mantissa_sep sep_facts exp_part_sep split_beta)
  have hex: "atof_hex neg (u @ CHR '';'' # r) = atof_hex neg u" for u
    by (simp add: atof_hex_def mantissa_sep sep_facts exp_part_sep split_beta Let_def)
  have drop: "drop 2 (t @ CHR '';'' # r) = drop 2 t @ CHR '';'' # r" if "starts_with ''0x'' (lower_str t)"
  proof -
    have "length (take (length ''0x'') (lower_str t)) = length ''0x''"
      using that unfolding starts_with_def by (rule arg_cong)
    then show ?thesis by (simp add: lower_str_def)
  qed
  have word: "starts_with p (lower_str (t @ CHR '';'' # r)) = starts_with p (lower_str t)"
    if "p \<in> {''inf'', ''nan'', ''0x''}" for p
    by (rule starts_with_sep) (use that in auto)
  show ?thesis
    using drop unfolding atof_def t t' by (simp add: word dec hex Let_def)
qed

lemma datum_loop_data:
  assumes "plain_data kvs" "structured \<or> kvs \<noteq> []"
  shows "datum_loop payload (Some w) (payload_of kvs) structured =
    (case map_of kvs w of Some v \<Rightarrow> atof v | None \<Rightarrow> d_zero)"
  using assms
proof (induction kvs arbitrary: structured)
  case Nil
  then show ?case by (simp add: datum_loop.simps[of _ _ "[]"])
next
  case (Cons kv kvs)
  obtain k v where kv: "kv = (k, v)" by (cases kv)
  have plain: "k \<noteq> []" "plain_data kvs" "plain_data ((k, v) # kvs)"
    using Cons.prems(1) by (auto simp: plain_data_def kv)
  let ?p = "payload_of ((k, v) # kvs)"
  have val: "atof (drop (length k + 1) ?p) = atof v" by (simp add: atof_sep)
  show ?case
    using Cons.IH[OF plain(2), of True] plain(1)
    unfolding kv datum_loop.simps[of payload "Some w" ?p] Let_def payload_segment[OF plain(3)] val
    by (auto split: list.split)
qed

text \<open>A structured answer is read by name. Of a payload \<open>n1=v1;n2=v2;...\<close> the datum asked
  for is the number its first entry of that name holds, and 0 when no entry has the name; the
  other entries' numbers are never returned.\<close>

theorem datum_value_by_name:
  assumes "plain_data kvs" "kvs \<noteq> []"
  shows "bm_datum_value (Some (payload_of kvs)) (Some w) =
    (case map_of kvs w of Some v \<Rightarrow> atof v | None \<Rightarrow> d_zero)"
  using datum_loop_data[OF assms(1)] assms(2) by (simp add: bm_datum_value_def)

theorem datum_value_by_name_witness:
  "bm_datum_value (Some ''ri=7;va=1;st=0'') (Some ''va'') = d_one"
  using datum_value_by_name[of "[(''ri'', ''7''), (''va'', ''1''), (''st'', ''0'')]" "''va''"]
  by (simp add: plain_data_def atof_zero_one)

section \<open>Setting an authorization type\<close>

text \<open>\<open>bm_set_at\<close> hits the row it is addressed to. It fails exactly when no row has the
  address; otherwise it changes the authorization type of the first row that has it and nothing
  else, and 'bk' or 'pa' there refuses every output of that row, whoever sends.\<close>

theorem set_at_addressed_row:
  "case bm_set_at bm addr v of
     None \<Rightarrow> addr \<notin> set (map (\<lambda>op. bm_at_address op HES_PATH_MAX) (bm_ops bm))
   | Some bm' \<Rightarrow>
       (\<exists>i < length (bm_ops bm). bm_at_address (bm_ops bm ! i) HES_PATH_MAX = addr
          \<and> (\<forall>j < i. bm_at_address (bm_ops bm ! j) HES_PATH_MAX \<noteq> addr)
          \<and> bm' = bm\<lparr>bm_ops := (bm_ops bm)[i := (bm_ops bm ! i)\<lparr>op_out_author_type := hes_strlcpy 4 v\<rparr>]\<rparr>
          \<and> (v \<in> {''bk'', ''pa''} \<and> \<not> bm_authz_disabled bm \<longrightarrow>
               (\<forall>h :: 'a bm_hooks. \<forall>msg. \<not> output_authorized h (bm'\<lparr>bm_current_msg := msg\<rparr>) (bm_ops bm' ! i))))"
proof (cases "bm_set_at bm addr v")
  case None
  then have "\<forall>op \<in> set (bm_ops bm). bm_at_address op HES_PATH_MAX \<noteq> addr"
    by (auto simp: bm_set_at_def first_index_None split: option.splits)
  then show ?thesis using None by auto
next
  case (Some bm')
  then obtain i where i: "first_index (\<lambda>op. bm_at_address op HES_PATH_MAX = addr) (bm_ops bm) = Some i"
    and bm': "bm' = bm\<lparr>bm_ops := (bm_ops bm)[i := (bm_ops bm ! i)\<lparr>op_out_author_type := hes_strlcpy 4 v\<rparr>]\<rparr>"
    by (auto simp: bm_set_at_def split: option.splits)
  note first = first_index_Some[OF i]
  have refuse: "v \<in> {''bk'', ''pa''} \<and> \<not> bm_authz_disabled bm \<longrightarrow>
      \<not> output_authorized h (bm'\<lparr>bm_current_msg := msg\<rparr>) (bm_ops bm' ! i)" for h :: "'a bm_hooks" and msg
    using first by (auto simp: bm' output_authorized_def hes_strlcpy_take)
  have "\<exists>i < length (bm_ops bm). bm_at_address (bm_ops bm ! i) HES_PATH_MAX = addr
          \<and> (\<forall>j < i. bm_at_address (bm_ops bm ! j) HES_PATH_MAX \<noteq> addr)
          \<and> bm' = bm\<lparr>bm_ops := (bm_ops bm)[i := (bm_ops bm ! i)\<lparr>op_out_author_type := hes_strlcpy 4 v\<rparr>]\<rparr>
          \<and> (v \<in> {''bk'', ''pa''} \<and> \<not> bm_authz_disabled bm \<longrightarrow>
               (\<forall>h :: 'a bm_hooks. \<forall>msg. \<not> output_authorized h (bm'\<lparr>bm_current_msg := msg\<rparr>) (bm_ops bm' ! i)))"
    using first bm' refuse by blast
  then show ?thesis using Some by simp
qed

theorem set_at_addressed_row_witness:
  "\<exists>bm'. bm_set_at (sample_bm [guarded_op]) ''/lx/ob/bm/ot1/o1/at'' ''bk'' = Some bm'
     \<and> \<not> output_authorized sample_hooks (bm'\<lparr>bm_current_msg := Some (sample_report ''ann'' ''1'')\<rparr>) (bm_ops bm' ! 0)"
proof -
  have addr: "bm_at_address (bm_ops (sample_bm [guarded_op]) ! 0) HES_PATH_MAX = ''/lx/ob/bm/ot1/o1/at''"
    by (simp add: bm_at_address_def guarded_op_def sample_op_def sample_bm_def hes_strlcpy_take)
  then have "\<exists>bm'. bm_set_at (sample_bm [guarded_op]) ''/lx/ob/bm/ot1/o1/at'' ''bk'' = Some bm'"
    by (simp add: bm_set_at_def sample_bm_def)
  then obtain bm' where s: "bm_set_at (sample_bm [guarded_op]) ''/lx/ob/bm/ot1/o1/at'' ''bk'' = Some bm'" ..
  show ?thesis
    using set_at_addressed_row[where bm = "sample_bm [guarded_op]" and addr = "''/lx/ob/bm/ot1/o1/at''"
        and v = "''bk''" and 'a = unit] s
    by (auto simp: sample_bm_def bm_init_def)
qed

section \<open>Declared destinations\<close>

text \<open>Only a device behind a HAN or WAN interface module may be commanded.\<close>

lemma declared_destination_iff:
  "bm_is_declared_destination bm path di \<longleftrightarrow> path \<noteq> [] \<and> di \<noteq> 0
     \<and> (\<exists>a. bm_find_addr bm di = Some a \<and> ad_module_type a \<in> {HES_MODTYPE_HI, HES_MODTYPE_WI})"
  by (auto simp: bm_is_declared_destination_def split: option.splits)

section \<open>The controller's subscriptions\<close>

definition input_key :: "bm_input \<Rightarrow> sub_key" where
  "input_key i = (in_source_object i, in_device_index i)"

definition message_key :: "hes_clme_msg \<Rightarrow> sub_key" where
  "message_key m = (m_path m, m_device_index m)"

definition subscribable :: "binding_map \<Rightarrow> bm_input \<Rightarrow> bool" where
  "subscribable bm i \<longleftrightarrow> in_source_object i \<noteq> []
     \<and> (case bm_find_addr bm (in_device_index i) of
          None \<Rightarrow> False
        | Some a \<Rightarrow> ad_module_type a \<noteq> HES_MODTYPE_IT \<and> ad_module_type a \<noteq> HES_MODTYPE_NONE)"

definition wanted :: "binding_map \<Rightarrow> sub_key list" where
  "wanted bm = map input_key (filter (subscribable bm) (concat (map op_inputs (filter op_enabled (bm_ops bm)))))"

definition subscribed :: "hes_bus \<Rightarrow> sub_key set \<Rightarrow> hes_bus \<times> sub_key list \<Rightarrow> bool" where
  "subscribed bus0 K acc \<longleftrightarrow> bus_extends bus0 (fst acc)
     \<and> map message_key (sent_since bus0 (fst acc)) = snd acc \<and> distinct (snd acc) \<and> set (snd acc) = K
     \<and> list_all (\<lambda>m. m_verb m = HES_VERB_SUBSCRIBE) (sent_since bus0 (fst acc))"

lemma subscribed_input:
  assumes inv: "subscribed bus0 K acc"
    and fits: "subscribable bm i \<Longrightarrow> input_key i \<in> W \<and> length (in_source_object i) < HES_PATH_MAX"
    and W: "K \<subseteq> W" "finite W" "card W \<le> BM_MAX_ADDRS"
  shows "subscribed bus0 (K \<union> (if subscribable bm i then {input_key i} else {})) (controller_input bm i acc)"
proof -
  obtain bus sent where acc: "acc = (bus, sent)" by (cases acc)
  have already: "list_ex (\<lambda>(p, d). d = in_device_index i \<and> p = in_source_object i) sent
      \<longleftrightarrow> input_key i \<in> K"
    using inv by (auto simp: subscribed_def acc list_ex_iff input_key_def)
  show ?thesis
  proof (cases "subscribable bm i \<and> input_key i \<notin> K")
    case False
    then have "controller_input bm i acc = acc"
      using already by (auto simp: controller_input_def acc subscribable_def split: option.splits)
    moreover have "K \<union> (if subscribable bm i then {input_key i} else {}) = K" using False by auto
    ultimately show ?thesis using inv by simp
  next
    case True
    then have "K \<subset> W" using fits W(1) by auto
    then have "card K < card W" by (rule psubset_card_mono[OF W(2)])
    then have "card K < BM_MAX_ADDRS" using W(3) by simp
    moreover have "distinct sent" "set sent = K" using inv by (simp_all add: subscribed_def acc)
    then have "length sent = card K" by (metis distinct_card)
    ultimately have room: "length sent < BM_MAX_ADDRS" by simp
    have path: "hes_strlcpy HES_PATH_MAX (in_source_object i) = in_source_object i"
      using fits True by (simp add: hes_strlcpy_take)
    obtain a where "bm_find_addr bm (in_device_index i) = Some a"
        "ad_module_type a \<noteq> HES_MODTYPE_IT" "ad_module_type a \<noteq> HES_MODTYPE_NONE" "in_source_object i \<noteq> []"
      using True by (auto simp: subscribable_def split: option.splits)
    then have step: "controller_input bm i acc = (hes_bus_send bus (subscribe_message i), sent @ [input_key i])"
      using True already room path unfolding controller_input_def acc by (simp add: input_key_def)
    have ext: "bus_extends bus0 bus" using inv by (simp add: subscribed_def acc)
    note app = bus_extends_trans[OF ext bus_extends_send]
    have "message_key (stamp bus (subscribe_message i)) = input_key i"
      by (simp add: message_key_def subscribe_message_def input_key_def path)
    moreover have "m_verb (subscribe_message i) = HES_VERB_SUBSCRIBE" by (simp add: subscribe_message_def)
    moreover have "map message_key (sent_since bus0 bus) = sent" "distinct sent" "set sent = K"
      "list_all (\<lambda>m. m_verb m = HES_VERB_SUBSCRIBE) (sent_since bus0 bus)"
      using inv by (simp_all add: subscribed_def acc)
    ultimately show ?thesis
      using True app unfolding step by (simp add: subscribed_def)
  qed
qed

lemma subscribed_inputs:
  assumes "subscribed bus0 K acc"
    and "\<forall>i \<in> set is. subscribable bm i \<longrightarrow> input_key i \<in> W \<and> length (in_source_object i) < HES_PATH_MAX"
    and "K \<subseteq> W" "finite W" "card W \<le> BM_MAX_ADDRS"
  shows "subscribed bus0 (K \<union> input_key ` set (filter (subscribable bm) is)) (fold (controller_input bm) is acc)"
  using assms
proof (induction "is" arbitrary: K acc)
  case (Cons i "is")
  let ?K = "K \<union> (if subscribable bm i then {input_key i} else {})"
  have "subscribed bus0 ?K (controller_input bm i acc)"
    by (rule subscribed_input[where W = W]) (use Cons.prems in auto)
  moreover have "?K \<subseteq> W" using Cons.prems(2,3) by auto
  ultimately have "subscribed bus0 (?K \<union> input_key ` set (filter (subscribable bm) is))
      (fold (controller_input bm) is (controller_input bm i acc))"
    using Cons.IH Cons.prems by simp
  moreover have "?K \<union> input_key ` set (filter (subscribable bm) is)
      = K \<union> input_key ` set (filter (subscribable bm) (i # is))" by auto
  ultimately show ?case by simp
qed simp

lemma controller_concat:
  "fold (controller_op bm) ops acc
     = fold (controller_input bm) (concat (map op_inputs (filter op_enabled ops))) acc"
  by (induction ops arbitrary: acc) (simp_all add: controller_op_def)

text \<open>The controller subscribes once to everything its rules read. With at most 64 distinct
  (object, device) pairs to read, \<open>bm_controller_start\<close> sends one SUBSCRIBE for each pair an
  enabled row takes from an external module, no pair twice, and nothing else.\<close>

theorem controller_subscribes_once:
  assumes "card (set (wanted bm)) \<le> BM_MAX_ADDRS"
    and "\<forall>(p, d) \<in> set (wanted bm). length p < HES_PATH_MAX"
  shows "distinct (map message_key (sent_since bus (bm_controller_start bm bus)))
     \<and> set (map message_key (sent_since bus (bm_controller_start bm bus))) = set (wanted bm)
     \<and> list_all (\<lambda>m. m_verb m = HES_VERB_SUBSCRIBE) (sent_since bus (bm_controller_start bm bus))"
proof -
  let ?is = "concat (map op_inputs (filter op_enabled (bm_ops bm)))"
  have start: "subscribed bus {} (bus, [])" by (simp add: subscribed_def)
  have "subscribed bus ({} \<union> input_key ` set (filter (subscribable bm) ?is))
      (fold (controller_input bm) ?is (bus, []))"
    by (rule subscribed_inputs[OF start, where W = "set (wanted bm)"])
       (use assms in \<open>auto simp: wanted_def input_key_def\<close>)
  moreover have "input_key ` set (filter (subscribable bm) ?is) = set (wanted bm)" by (simp add: wanted_def)
  ultimately show ?thesis
    unfolding subscribed_def bm_controller_start_def controller_concat by auto
qed

theorem controller_subscribes_once_witness:
  "map message_key (sent_since sample_bus (bm_controller_start
     (sample_bm [sample_op ''gt'' sample_input, sample_op ''lt'' sample_input]) sample_bus))
   = [(HES_LX_BTN_CV, 1)]"
proof -
  let ?bm = "sample_bm [sample_op ''gt'' sample_input, sample_op ''lt'' sample_input]"
  have w: "set (wanted ?bm) = {(HES_LX_BTN_CV, 1)}"
    by (auto simp: wanted_def sample_bm_def sample_op_def subscribable_def sample_input_def bm_find_addr_def
        input_key_def)
  have "distinct (map message_key (sent_since sample_bus (bm_controller_start ?bm sample_bus)))
     \<and> set (map message_key (sent_since sample_bus (bm_controller_start ?bm sample_bus))) = {(HES_LX_BTN_CV, 1)}"
    using controller_subscribes_once[of ?bm sample_bus] w by simp
  then show ?thesis by (intro distinct_singleton) simp_all
qed

end
