(* ===== verification/Query.thy ===== *)
theory Query
  imports CDouble
begin

text \<open>
  The XML query layer (src/src/common/hes_query.c): the translation of its dotted paths into
  XPath, and the lookups built on it.

  libxml2 is not modelled. Parsing a file and evaluating an XPath expression are parameters: an
  evaluator takes the document's root element, the context node and an expression, and gives
  \<open>None\<close> for an expression it cannot evaluate. Handles are the nodes themselves and
  memory does not run out here; theory QueryStore has the same calls with their memory and
  \<open>last_error\<close>.
\<close>

datatype xml_node =
  Element (xml_name: string) (xml_attrs: "(string \<times> string) list") (xml_children: "xml_node list")
| Text string
| Other_node

text \<open>What an XPath result can hold, and the results that are not node sets.\<close>

datatype xpath_item = Node_item xml_node | Attr_item string

datatype xpath_object = Node_set "xpath_item list" | Other_object

type_synonym xpath = "xml_node \<Rightarrow> xml_node option \<Rightarrow> string \<Rightarrow> xpath_object option"

record hes_query_ctx =
  qc_root :: xml_node

section \<open>Translating a path\<close>

definition is_step_sep :: "char \<Rightarrow> bool" where
  "is_step_sep c \<longleftrightarrow> c = CHR ''.'' \<or> c = CHR ''/''"

text \<open>The position of a character, as \<open>memchr\<close> finds it.\<close>

definition memchr :: "char \<Rightarrow> string \<Rightarrow> nat option" where
  "memchr c s = first_index (\<lambda>x. x = c) s"

text \<open>The index of a step and where its bracket is, when the whole tail of the segment is one. \<open>rest\<close> is
  what follows the segment in the path, because \<open>strtol\<close> reads on.\<close>

definition segment_index :: "string \<Rightarrow> string \<Rightarrow> (nat \<times> int) option" where
  "segment_index seg rest =
     (case memchr CHR ''['' seg of
        None \<Rightarrow> None
      | Some b \<Rightarrow>
          (let after = drop (b + 1) seg @ rest;
               (parsed, endp) = (case strtol10 after of None \<Rightarrow> (0, after) | Some r \<Rightarrow> r);
               end_off = b + 1 + (length after - length endp)
           in if endp \<noteq> [] \<and> hd endp = CHR '']'' \<and> end_off = length seg - 1 then Some (b, parsed) else None))"

text \<open>One step; a long's overflow at \<open>idx + 1\<close> is written out as two's complement.\<close>

definition index_text :: "int \<Rightarrow> string" where
  "index_text idx = ''['' @ dec_int (sint (word_of_int (idx + 1) :: 64 word)) @ '']''"

definition translate_segment :: "string \<Rightarrow> string \<Rightarrow> string" where
  "translate_segment seg rest =
     (if hd seg = CHR ''@'' then ''@'' @ tl seg
      else if seg = ''text()'' then ''text()''
      else case segment_index seg rest of
             None \<Rightarrow> seg
           | Some (b, idx) \<Rightarrow> take b seg @ index_text idx)"

function translate_loop :: "string \<Rightarrow> bool \<Rightarrow> string \<Rightarrow> string" where
  "translate_loop p first out =
     (let p = dropWhile is_step_sep p
      in if p = [] then out
         else let seg = takeWhile (\<lambda>c. \<not> is_step_sep c) p;
                  rest = dropWhile (\<lambda>c. \<not> is_step_sep c) p
              in translate_loop rest False
                   (out @ (if first then [] else ''/'') @ translate_segment seg rest))"
  by pat_completeness auto
termination
proof (relation "measure (\<lambda>(p, _, _). length p)")
  fix p :: string and x xa xb :: string
  assume x: "x = dropWhile is_step_sep p" "x \<noteq> []" "xb = dropWhile (\<lambda>c. \<not> is_step_sep c) x"
  then obtain c cs where c: "x = c # cs" "\<not> is_step_sep c"
    by (metis dropWhile_hd_not list.exhaust)
  have "length xb < length x"
    using x(3) c by (simp add: le_imp_less_Suc length_dropWhile_le)
  then show "((xb, False, out @ (if first then [] else ''/'') @ translate_segment xa xb), p, first, out)
      \<in> measure (\<lambda>(p, _, _). length p)" for first out
    using x(1) length_dropWhile_le[of is_step_sep p] by simp
qed simp

declare translate_loop.simps [simp del]

definition translate_path :: "string \<Rightarrow> bool \<Rightarrow> string" where
  "translate_path path absolute = translate_loop path True (if absolute then ''/'' else [])"

section \<open>Lookups\<close>

text \<open>\<open>_node_text\<close>: an element's text is its first text child that is not blank.\<close>

definition is_blank :: "string \<Rightarrow> bool" where
  "is_blank s \<longleftrightarrow> list_all (\<lambda>c. c \<in> {CHR '' '', char_of (10 :: nat), char_of (9 :: nat), char_of (13 :: nat)}) s"

fun first_text :: "xml_node list \<Rightarrow> string" where
  "first_text [] = []"
| "first_text (Text s # cs) = (if is_blank s then first_text cs else s)"
| "first_text (_ # cs) = first_text cs"

fun node_text :: "xpath_item \<Rightarrow> string option" where
  "node_text (Attr_item s) = Some s"
| "node_text (Node_item (Text s)) = Some s"
| "node_text (Node_item (Element n as cs)) = Some (first_text cs)"
| "node_text (Node_item Other_node) = None"

definition query_eval :: "xpath \<Rightarrow> hes_query_ctx \<Rightarrow> xml_node option \<Rightarrow> string \<Rightarrow> bool \<Rightarrow> xpath_object option" where
  "query_eval xp ctx node path absolute = xp (qc_root ctx) node (translate_path path absolute)"

definition query_eval_root :: "xpath \<Rightarrow> hes_query_ctx \<Rightarrow> string \<Rightarrow> xpath_object option" where
  "query_eval_root xp ctx path = query_eval xp ctx (Some (qc_root ctx)) path True"

fun handle_list :: "xpath_object option \<Rightarrow> xpath_item list" where
  "handle_list (Some (Node_set items)) = items"
| "handle_list _ = []"

definition hes_query_open :: "(string \<Rightarrow> xml_node option option) \<Rightarrow> string option \<Rightarrow> hes_query_ctx option" where
  "hes_query_open xmlParseFile filepath =
     (case filepath of
        None \<Rightarrow> None
      | Some f \<Rightarrow> (case xmlParseFile f of
                     None \<Rightarrow> None
                   | Some None \<Rightarrow> None
                   | Some (Some root_elem) \<Rightarrow> Some \<lparr>qc_root = root_elem\<rparr>))"

fun first_text_of :: "xpath_object option \<Rightarrow> string option" where
  "first_text_of (Some (Node_set (i # is))) = node_text i"
| "first_text_of _ = None"

definition hes_query_string :: "xpath \<Rightarrow> hes_query_ctx \<Rightarrow> string \<Rightarrow> string option" where
  "hes_query_string xp ctx path = first_text_of (query_eval_root xp ctx path)"

definition hes_query_long :: "xpath \<Rightarrow> hes_query_ctx \<Rightarrow> string \<Rightarrow> int \<Rightarrow> int" where
  "hes_query_long xp ctx path dflt =
     (case hes_query_string xp ctx path of
        None \<Rightarrow> dflt
      | Some s \<Rightarrow> if s = [] then dflt else (case strtol10 s of None \<Rightarrow> dflt | Some (v, _) \<Rightarrow> v))"

definition hes_query_double :: "xpath \<Rightarrow> hes_query_ctx \<Rightarrow> string \<Rightarrow> dbl \<Rightarrow> dbl" where
  "hes_query_double xp ctx path dflt =
     (case hes_query_string xp ctx path of
        None \<Rightarrow> dflt
      | Some s \<Rightarrow> if s = [] then dflt else if d_converts s then atof s else dflt)"

definition hes_query_bool :: "xpath \<Rightarrow> hes_query_ctx \<Rightarrow> string \<Rightarrow> int \<Rightarrow> int" where
  "hes_query_bool xp ctx path dflt =
     (case hes_query_string xp ctx path of
        None \<Rightarrow> dflt
      | Some s \<Rightarrow> if s \<in> {''1'', ''true'', ''yes'', ''on''} then 1
                  else if s \<in> {''0'', ''false'', ''no'', ''off''} then 0 else dflt)"

definition hes_query_count :: "xpath \<Rightarrow> hes_query_ctx \<Rightarrow> string \<Rightarrow> int" where
  "hes_query_count xp ctx path =
     (case query_eval_root xp ctx path of Some (Node_set items) \<Rightarrow> int (length items) | _ \<Rightarrow> 0)"

definition hes_query_elem :: "xpath \<Rightarrow> hes_query_ctx \<Rightarrow> string \<Rightarrow> xpath_item option" where
  "hes_query_elem xp ctx path =
     (case query_eval_root xp ctx path of Some (Node_set (i # is)) \<Rightarrow> Some i | _ \<Rightarrow> None)"

definition hes_query_elem_list :: "xpath \<Rightarrow> hes_query_ctx \<Rightarrow> string \<Rightarrow> xpath_item list" where
  "hes_query_elem_list xp ctx path = handle_list (query_eval_root xp ctx path)"

text \<open>Attributes and relative lookups of a handle; only an element has either.\<close>

fun hes_query_elem_attr :: "xpath_item \<Rightarrow> string \<Rightarrow> string option" where
  "hes_query_elem_attr (Node_item (Element n as cs)) a = map_of as a"
| "hes_query_elem_attr _ a = None"

definition hes_query_elem_text :: "xpath_item \<Rightarrow> string option" where
  "hes_query_elem_text e = node_text e"

fun item_node :: "xpath_item \<Rightarrow> xml_node option" where
  "item_node (Node_item n) = Some n"
| "item_node (Attr_item s) = None"

definition hes_query_elem_string :: "xpath \<Rightarrow> hes_query_ctx \<Rightarrow> xpath_item \<Rightarrow> string \<Rightarrow> string option" where
  "hes_query_elem_string xp ctx e rel_path = first_text_of (query_eval xp ctx (item_node e) rel_path False)"

definition hes_query_elem_children :: "xpath \<Rightarrow> hes_query_ctx \<Rightarrow> xpath_item \<Rightarrow> string \<Rightarrow> xpath_item list" where
  "hes_query_elem_children xp ctx e name = handle_list (query_eval xp ctx (item_node e) name False)"

definition hes_query_find_all :: "xpath \<Rightarrow> hes_query_ctx \<Rightarrow> string \<Rightarrow> xpath_item list" where
  "hes_query_find_all xp ctx name =
     (if name = [] then [] else handle_list (xp (qc_root ctx) (Some (qc_root ctx)) (''//'' @ name)))"

section \<open>The path language\<close>

definition child_elems :: "string \<Rightarrow> xml_node list \<Rightarrow> xml_node list" where
  "child_elems n cs = filter (\<lambda>c. case c of Element m as ds \<Rightarrow> m = n | _ \<Rightarrow> False) cs"

text \<open>A path as its author means it: child steps by name, optionally the n-th (from 0), attributes
  and text.\<close>

datatype step = Child string "nat option" | Attribute string | Text_step

definition plain_step_name :: "string \<Rightarrow> bool" where
  "plain_step_name n \<longleftrightarrow> n \<noteq> [] \<and> list_all (\<lambda>c. \<not> is_step_sep c \<and> c \<noteq> CHR ''['') n"

fun plain_step :: "step \<Rightarrow> bool" where
  "plain_step (Child n i) \<longleftrightarrow> plain_step_name n \<and> hd n \<noteq> CHR ''@'' \<and> n \<noteq> ''text()''
     \<and> (case i of None \<Rightarrow> True | Some k \<Rightarrow> k < 2 ^ 63 - 1)"
| "plain_step (Attribute n) \<longleftrightarrow> list_all (\<lambda>c. \<not> is_step_sep c) n"
| "plain_step Text_step \<longleftrightarrow> True"

text \<open>A name that XPath can mean nothing else by: letters.\<close>

definition word_char :: "char \<Rightarrow> bool" where
  "word_char c \<longleftrightarrow> (of_char c :: nat) \<in> {65..90} \<union> {97..122}"

definition xml_word :: "string \<Rightarrow> bool" where
  "xml_word n \<longleftrightarrow> n \<noteq> [] \<and> list_all word_char n"

lemma word_not_special:
  "word_char c \<Longrightarrow> \<not> is_step_sep c" "word_char c \<Longrightarrow> c \<noteq> CHR ''[''" "word_char c \<Longrightarrow> c \<noteq> CHR ''@''"
  "word_char c \<Longrightarrow> c \<noteq> CHR ''(''"
  by (auto simp: word_char_def is_step_sep_def)

lemma word_plain:
  assumes "xml_word n"
  shows "plain_step (Child n None)" "k < 2 ^ 63 - 1 \<Longrightarrow> plain_step (Child n (Some k))" "plain_step (Attribute n)"
proof -
  have hd: "hd n \<noteq> CHR ''@''"
    using assms by (cases n) (auto simp: xml_word_def word_not_special)
  have not_text: "n \<noteq> ''text()''"
    using assms by (auto simp: xml_word_def word_char_def)
  have name: "plain_step_name n"
    using assms by (auto simp: xml_word_def plain_step_name_def list_all_iff word_not_special)
  show "plain_step (Child n None)" "k < 2 ^ 63 - 1 \<Longrightarrow> plain_step (Child n (Some k))"
    using hd not_text name by simp_all
  show "plain_step (Attribute n)" using name by (simp add: plain_step_name_def list_all_iff)
qed

text \<open>How a step is written in a path, and the XPath step that means the same: XPath counts from 1.\<close>

fun path_of_step :: "step \<Rightarrow> string" where
  "path_of_step (Child n None) = n"
| "path_of_step (Child n (Some k)) = n @ ''['' @ dec_int (int k) @ '']''"
| "path_of_step (Attribute n) = ''@'' @ n"
| "path_of_step Text_step = ''text()''"

fun xpath_of_step :: "step \<Rightarrow> string" where
  "xpath_of_step (Child n None) = n"
| "xpath_of_step (Child n (Some k)) = n @ ''['' @ dec_int (int k + 1) @ '']''"
| "xpath_of_step (Attribute n) = ''@'' @ n"
| "xpath_of_step Text_step = ''text()''"

fun joined :: "char \<Rightarrow> string list \<Rightarrow> string" where
  "joined c [] = []"
| "joined c [s] = s"
| "joined c (s # t # ss) = s @ c # joined c (t # ss)"

lemma memchr_bracket:
  assumes "plain_step_name n"
  shows "memchr CHR ''['' (n @ CHR ''['' # r) = Some (length n)" "memchr CHR ''['' n = None"
proof -
  have "first_index (\<lambda>x. x = CHR ''['') (n @ CHR ''['' # r) = Some (length n)"
    if "list_all (\<lambda>c. c \<noteq> CHR ''['') n"
    using that by (induction n) auto
  then show "memchr CHR ''['' (n @ CHR ''['' # r) = Some (length n)"
    using assms by (simp add: memchr_def plain_step_name_def list_all_iff)
  show "memchr CHR ''['' n = None"
    using assms by (auto simp: memchr_def first_index_None plain_step_name_def list_all_iff)
qed

lemma dec_int_plain: "0 \<le> k \<Longrightarrow> c \<in> set (dec_int k) \<Longrightarrow> c_isdigit c"
  using dec_digits_digits[of k] by (simp add: dec_int_def)

lemma digit_not_sep: "c_isdigit c \<Longrightarrow> \<not> is_step_sep c"
  by (auto simp: c_isdigit_def is_step_sep_def)

lemma path_of_step_plain:
  assumes "plain_step s"
  shows "path_of_step s \<noteq> []" "c \<in> set (path_of_step s) \<Longrightarrow> \<not> is_step_sep c"
proof -
  show "path_of_step s \<noteq> []"
    using assms by (cases s rule: path_of_step.cases) (auto simp: plain_step_name_def)
  assume c: "c \<in> set (path_of_step s)"
  show "\<not> is_step_sep c"
  proof (cases s)
    case (Child n i)
    then have "c \<in> set n \<or> c \<in> {CHR ''['', CHR '']''} \<or> (\<exists>k. c \<in> set (dec_int (int k)))"
      using c by (cases i) auto
    moreover have "\<not> is_step_sep c" if "c \<in> set (dec_int (int k))" for k
      using dec_int_plain[OF _ that] by (simp add: digit_not_sep)
    ultimately show ?thesis
      using assms Child by (auto simp: plain_step_name_def list_all_iff is_step_sep_def)
  qed (use assms c in \<open>auto simp: list_all_iff is_step_sep_def\<close>)
qed

lemma translate_plain_step:
  assumes "plain_step s"
  shows "translate_segment (path_of_step s) rest = xpath_of_step s"
proof (cases s)
  case (Child n i)
  note n = assms[unfolded Child plain_step.simps]
  have ne: "n \<noteq> []" using n by (simp add: plain_step_name_def)
  show ?thesis
  proof (cases i)
    case None
    then show ?thesis using Child n memchr_bracket(2) by (simp add: translate_segment_def segment_index_def)
  next
    case (Some k)
    have not_text: "n @ CHR ''['' # r \<noteq> ''text()''" for r
    proof
      assume "n @ CHR ''['' # r = ''text()''"
      then have "CHR ''['' \<in> set ''text()''" by (metis in_set_conv_decomp)
      then show False by simp
    qed
    have k: "int k < 2 ^ 63 - 1" using n Some by simp
    have "strtol10 (dec_int (int k) @ CHR '']'' # rest) = Some (int k, CHR '']'' # rest)"
      by (rule strtol10_dec_int) (use k in \<open>simp_all add: c_isdigit_def\<close>)
    moreover have "sint (word_of_int (int k + 1) :: 64 word) = int k + 1"
      using k by (simp only: sint_sbintrunc') (simp add: signed_take_bit_int_eq_self)
    ultimately show ?thesis
      using Child Some n ne memchr_bracket(1)[of n "dec_int (int k) @ '']''"] not_text[of "dec_int (int k) @ '']''"]
      by (simp add: translate_segment_def segment_index_def index_text_def)
  qed
qed (use assms in \<open>simp_all add: translate_segment_def\<close>)

lemma translate_loop_steps:
  assumes "list_all plain_step ss"
  shows "translate_loop (joined CHR ''.'' (map path_of_step ss)) first out
       = out @ (if first \<or> ss = [] then [] else ''/'') @ joined CHR ''/'' (map xpath_of_step ss)"
  using assms
proof (induction ss arbitrary: first out)
  case Nil
  then show ?case by (simp add: translate_loop.simps)
next
  case (Cons s ss)
  let ?t = "if ss = [] then [] else CHR ''.'' # joined CHR ''.'' (map path_of_step ss)"
  have path: "joined CHR ''.'' (map path_of_step (s # ss)) = path_of_step s @ ?t"
    by (cases ss) simp_all
  have s: "path_of_step s \<noteq> []" "\<And>c. c \<in> set (path_of_step s) \<Longrightarrow> \<not> is_step_sep c"
    using path_of_step_plain[of s] Cons.prems by auto
  have t: "?t = [] \<or> is_step_sep (hd ?t)" by (simp add: is_step_sep_def)
  have skip: "dropWhile is_step_sep (path_of_step s @ ?t) = path_of_step s @ ?t"
    using s by (cases "path_of_step s") auto
  have seg: "takeWhile (\<lambda>c. \<not> is_step_sep c) (path_of_step s @ ?t) = path_of_step s"
    using s t by (cases ?t) (auto simp: takeWhile_append2)
  have rest: "dropWhile (\<lambda>c. \<not> is_step_sep c) (path_of_step s @ ?t) = ?t"
    using s t by (cases ?t) (auto simp: dropWhile_append2)
  have "translate_loop (CHR ''.'' # q) f o' = translate_loop q f o'" for q f o'
    by (subst (1 2) translate_loop.simps) (simp add: is_step_sep_def Let_def)
  then have tail: "translate_loop ?t f o' = translate_loop (joined CHR ''.'' (map path_of_step ss)) f o'" for f o'
    by simp
  have "translate_loop (joined CHR ''.'' (map path_of_step (s # ss))) first out
      = translate_loop ?t False (out @ (if first then [] else ''/'') @ translate_segment (path_of_step s) ?t)"
    unfolding path by (subst translate_loop.simps, unfold Let_def skip seg rest) (simp add: s(1))
  also have "\<dots> = translate_loop (joined CHR ''.'' (map path_of_step ss)) False
      (out @ (if first then [] else ''/'') @ xpath_of_step s)"
    using Cons.prems by (simp only: tail translate_plain_step list.pred_inject(2))
  also have "\<dots> = out @ (if first then [] else ''/'') @ joined CHR ''/'' (map xpath_of_step (s # ss))"
    using Cons by (cases ss) simp_all
  finally show ?case by simp
qed

text \<open>C40: Paths mean what they say. A path of plain steps is translated into the XPath that takes
  the same steps in the same order, from the document's root when it is absolute; the index of
  a child, counted from 0, becomes XPath's, counted from 1.\<close>

theorem translate_path_steps:
  assumes "list_all plain_step ss"
  shows "translate_path (joined CHR ''.'' (map path_of_step ss)) absolute
       = (if absolute then ''/'' else []) @ joined CHR ''/'' (map xpath_of_step ss)"
  using translate_loop_steps[OF assms] by (simp add: translate_path_def)

theorem translate_path_steps_witness:
  "translate_path ''file.operationTable[0].@transCode'' True = ''/file/operationTable[1]/@transCode''"
proof -
  have "dec_int 0 = ''0'' \<and> dec_int 1 = ''1''" by code_simp
  then show ?thesis
    using translate_path_steps[of "[Child ''file'' None, Child ''operationTable'' (Some 0), Attribute ''transCode'']" True]
    by (simp add: plain_step_name_def is_step_sep_def)
qed

text \<open>An empty index and an index with blanks before it are taken as one, although the code's comment
  has only digits count.\<close>

lemma lenient_index: "translate_path ''a[]'' False = ''a[1]''" "translate_path ''a[ 2]'' False = ''a[3]''"
  by code_simp+

lemma translate_path_name:
  assumes "plain_step (Child n None)"
  shows "translate_path n False = n"
  using translate_loop_steps[of "[Child n None]" True "[]"] assms by (simp add: translate_path_def)

end
