(* ===== verification/BmLoad.thy ===== *)
theory BmLoad
  imports BmProps Query
begin

text \<open>
  Loading the binding map (the parsers and \<open>bm_load_xml\<close> of src/src/bm/bm.c) through the
  query layer, and what the loaded table promises the evaluation: it fits its arrays and
  buffers, its rows are the document's, and nothing is sent before something is reported.
\<close>

section \<open>The parsers\<close>

definition elem_text_copy :: "xpath_item \<Rightarrow> nat \<Rightarrow> string" where
  "elem_text_copy e outsz = (case hes_query_elem_text e of Some s \<Rightarrow> hes_strlcpy outsz s | None \<Rightarrow> [])"

definition parse_module_type :: "string \<Rightarrow> hes_module_type" where
  "parse_module_type s =
     (if s = ''hi'' then HES_MODTYPE_HI else if s = ''wi'' then HES_MODTYPE_WI
      else if s = ''sm'' then HES_MODTYPE_SM else if s = ''it'' then HES_MODTYPE_IT
      else HES_MODTYPE_NONE)"

text \<open>\<open>memset\<close> of a row.\<close>

definition addr_zero :: bm_addr where
  "addr_zero = \<lparr>ad_device_index = 0, ad_module_type = HES_MODTYPE_NONE, ad_module_ref_index = 0,
                ad_net_ref_index = 0, ad_address = []\<rparr>"

definition input_zero :: bm_input where
  "input_zero = \<lparr>in_device_index = 0, in_source_object = [], in_condition = [], in_author_type = [],
                 in_accompany_op = []\<rparr>"

definition op_zero :: bm_operation where
  "op_zero = \<lparr>op_ref_id = 0, op_enabled = False, op_operation = [], op_table_code = [], op_inputs = [],
     op_input_params = [], op_ip_is_live = [], op_output_params = [], op_out_device_index = 0,
     op_out_dest_object = [], op_out_method = [], op_out_adjustment = [], op_out_code = [],
     op_out_author_type = [], op_has_last_output = False, op_last_output_value = d_zero,
     op_has_last_inputs = False, op_last_operands = []\<rparr>"

definition addr_datum :: "xpath_item \<Rightarrow> bm_addr \<Rightarrow> bm_addr" where
  "addr_datum e a =
     (case hes_query_elem_attr e ''transCode'' of
        None \<Rightarrow> a
      | Some tc \<Rightarrow>
          (let buf = elem_text_copy e 128
           in if tc = ''di'' then a\<lparr>ad_device_index := u32_of_int (atoi buf)\<rparr>
              else if tc = ''mt'' then a\<lparr>ad_module_type := parse_module_type buf\<rparr>
              else if tc = ''mi'' then a\<lparr>ad_module_ref_index := u32_of_int (atoi buf)\<rparr>
              else if tc = ''ni'' then a\<lparr>ad_net_ref_index := u32_of_int (atoi buf)\<rparr>
              else if tc = ''ad'' then a\<lparr>ad_address := hes_strlcpy 64 buf\<rparr>
              else a))"

definition parse_addressing_table :: "xpath \<Rightarrow> hes_query_ctx \<Rightarrow> xpath_item \<Rightarrow> binding_map \<Rightarrow> binding_map" where
  "parse_addressing_table xp ctx atNode bm =
     (if length (bm_addrs bm) \<ge> BM_MAX_ADDRS then bm
      else bm\<lparr>bm_addrs := bm_addrs bm
                @ [fold addr_datum (hes_query_elem_children xp ctx atNode ''data'') addr_zero]\<rparr>)"

definition input_datum :: "xpath_item \<Rightarrow> bm_input \<Rightarrow> bm_input" where
  "input_datum e i =
     (case hes_query_elem_attr e ''transCode'' of
        None \<Rightarrow> i
      | Some tc \<Rightarrow>
          (let buf = elem_text_copy e HES_PATH_MAX
           in if tc = ''di'' then i\<lparr>in_device_index := u32_of_int (atoi buf)\<rparr>
              else if tc = ''so'' then i\<lparr>in_source_object := hes_strlcpy HES_PATH_MAX buf\<rparr>
              else if tc = ''co'' then i\<lparr>in_condition := hes_strlcpy 4 buf\<rparr>
              else if tc = ''at'' then i\<lparr>in_author_type := hes_strlcpy 4 buf\<rparr>
              else if tc = ''ap'' then i\<lparr>in_accompany_op := hes_strlcpy 4 buf\<rparr>
              else i))"

definition parse_inputs :: "xpath \<Rightarrow> hes_query_ctx \<Rightarrow> xpath_item \<Rightarrow> bm_operation \<Rightarrow> bm_operation" where
  "parse_inputs xp ctx inNode op =
     (if length (op_inputs op) \<ge> BM_MAX_INPUTS then op
      else op\<lparr>op_inputs := op_inputs op
                @ [fold input_datum (hes_query_elem_children xp ctx inNode ''data'') input_zero]\<rparr>)"

definition input_parameter :: "xpath_item \<Rightarrow> bm_operation \<Rightarrow> bm_operation" where
  "input_parameter e op =
     (if hes_query_elem_attr e ''transCode'' \<noteq> Some ''ip'' \<or> length (op_input_params op) \<ge> BM_MAX_INPUTS
      then op
      else let buf = elem_text_copy e 64
           in if buf = BM_LIVE_INPUT_PARAM
              then op\<lparr>op_ip_is_live := op_ip_is_live op @ [True],
                      op_input_params := op_input_params op @ [d_zero]\<rparr>
              else op\<lparr>op_ip_is_live := op_ip_is_live op @ [False],
                      op_input_params := op_input_params op @ [atof buf]\<rparr>)"

definition parse_input_parameters :: "xpath \<Rightarrow> hes_query_ctx \<Rightarrow> xpath_item \<Rightarrow> bm_operation \<Rightarrow> bm_operation" where
  "parse_input_parameters xp ctx ipNode op = fold input_parameter (hes_query_elem_children xp ctx ipNode ''data'') op"

definition output_parameter :: "xpath_item \<Rightarrow> bm_operation \<Rightarrow> bm_operation" where
  "output_parameter e op =
     (if hes_query_elem_attr e ''transCode'' \<noteq> Some ''op'' \<or> length (op_output_params op) \<ge> 2 then op
      else op\<lparr>op_output_params := op_output_params op @ [atoi (elem_text_copy e 64)]\<rparr>)"

definition parse_output_parameters :: "xpath \<Rightarrow> hes_query_ctx \<Rightarrow> xpath_item \<Rightarrow> bm_operation \<Rightarrow> bm_operation" where
  "parse_output_parameters xp ctx opNode op = fold output_parameter (hes_query_elem_children xp ctx opNode ''data'') op"

definition output_datum :: "xpath_item \<Rightarrow> bm_operation \<Rightarrow> bm_operation" where
  "output_datum e op =
     (case hes_query_elem_attr e ''transCode'' of
        None \<Rightarrow> op
      | Some tc \<Rightarrow>
          (let buf = elem_text_copy e HES_PATH_MAX
           in if tc = ''dl'' then op\<lparr>op_out_device_index := u32_of_int (atoi buf)\<rparr>
              else if tc = ''do'' then op\<lparr>op_out_dest_object := hes_strlcpy HES_PATH_MAX buf\<rparr>
              else if tc = ''me'' then op\<lparr>op_out_method := hes_strlcpy 4 buf\<rparr>
              else if tc = ''ad'' then op\<lparr>op_out_adjustment := hes_strlcpy 4 buf\<rparr>
              else if tc = ''at'' then op\<lparr>op_out_author_type := hes_strlcpy 4 buf\<rparr>
              else op))"

definition parse_outputs :: "xpath \<Rightarrow> hes_query_ctx \<Rightarrow> xpath_item \<Rightarrow> bm_operation \<Rightarrow> bm_operation" where
  "parse_outputs xp ctx outNode op =
     (let op = (case hes_query_elem_attr outNode ''transCode'' of
                  Some code \<Rightarrow> op\<lparr>op_out_code := hes_strlcpy 8 code\<rparr> | None \<Rightarrow> op)
      in fold output_datum (hes_query_elem_children xp ctx outNode ''data'') op)"

definition load_group ::
    "xpath \<Rightarrow> hes_query_ctx \<Rightarrow> xpath_item \<Rightarrow> string
     \<Rightarrow> (xpath \<Rightarrow> hes_query_ctx \<Rightarrow> xpath_item \<Rightarrow> bm_operation \<Rightarrow> bm_operation) \<Rightarrow> bm_operation \<Rightarrow> bm_operation" where
  "load_group xp ctx parent name loader op = fold (loader xp ctx) (hes_query_elem_children xp ctx parent name) op"

definition row_datum :: "xpath_item \<Rightarrow> bm_operation \<Rightarrow> bm_operation" where
  "row_datum e op =
     (case hes_query_elem_attr e ''transCode'' of
        None \<Rightarrow> op
      | Some tc \<Rightarrow>
          (let buf = elem_text_copy e 64
           in if tc = ''ri'' then op\<lparr>op_ref_id := u32_of_int (atoi buf)\<rparr>
              else if tc = ''en'' then op\<lparr>op_enabled := (buf = ''en'')\<rparr>
              else if tc = ''op'' then op\<lparr>op_operation := hes_strlcpy 4 buf\<rparr>
              else op))"

definition operation_row :: "xpath \<Rightarrow> hes_query_ctx \<Rightarrow> xpath_item \<Rightarrow> bm_operation" where
  "operation_row xp ctx otNode =
     (let op = op_zero\<lparr>op_enabled := True\<rparr>;
          op = (case hes_query_elem_attr otNode ''transCode'' of
                  Some code \<Rightarrow> op\<lparr>op_table_code := hes_strlcpy 8 code\<rparr> | None \<Rightarrow> op);
          op = fold row_datum (hes_query_elem_children xp ctx otNode ''data'') op;
          op = load_group xp ctx otNode ''inputs'' parse_inputs op;
          op = load_group xp ctx otNode ''inputParameters'' parse_input_parameters op;
          op = load_group xp ctx otNode ''outputParameters'' parse_output_parameters op
      in load_group xp ctx otNode ''outputs'' parse_outputs op)"

definition parse_operation_table :: "xpath \<Rightarrow> hes_query_ctx \<Rightarrow> xpath_item \<Rightarrow> binding_map \<Rightarrow> binding_map" where
  "parse_operation_table xp ctx otNode bm =
     (if length (bm_ops bm) \<ge> BM_MAX_OPS then bm
      else bm\<lparr>bm_ops := bm_ops bm @ [operation_row xp ctx otNode]\<rparr>)"

definition bm_load_tables ::
    "xpath \<Rightarrow> hes_query_ctx \<Rightarrow> string
     \<Rightarrow> (xpath \<Rightarrow> hes_query_ctx \<Rightarrow> xpath_item \<Rightarrow> binding_map \<Rightarrow> binding_map) \<Rightarrow> binding_map \<Rightarrow> binding_map" where
  "bm_load_tables xp ctx name loader bm = fold (loader xp ctx) (hes_query_find_all xp ctx name) bm"

text \<open>\<open>None\<close> stands for the return value -1.\<close>

definition bm_load_xml ::
    "xpath \<Rightarrow> (string \<Rightarrow> xml_node option option) \<Rightarrow> binding_map \<Rightarrow> string \<Rightarrow> binding_map option" where
  "bm_load_xml xp xmlParseFile bm path =
     (case hes_query_open xmlParseFile (Some path) of
        None \<Rightarrow> None
      | Some ctx \<Rightarrow>
          Some (bm_load_tables xp ctx ''addressingTable'' parse_addressing_table
                 (bm_load_tables xp ctx ''operationTable'' parse_operation_table bm)))"

section \<open>The loaded table fits\<close>

definition wf_input :: "bm_input \<Rightarrow> bool" where
  "wf_input i \<longleftrightarrow> length (in_source_object i) < HES_PATH_MAX \<and> length (in_condition i) < 4
     \<and> length (in_author_type i) < 4 \<and> length (in_accompany_op i) < 4"

definition wf_operation :: "bm_operation \<Rightarrow> bool" where
  "wf_operation op \<longleftrightarrow>
     length (op_operation op) < 4 \<and> length (op_table_code op) < 8 \<and> length (op_out_code op) < 8
     \<and> length (op_inputs op) \<le> BM_MAX_INPUTS \<and> list_all wf_input (op_inputs op)
     \<and> length (op_input_params op) \<le> BM_MAX_INPUTS \<and> length (op_ip_is_live op) = length (op_input_params op)
     \<and> length (op_output_params op) \<le> 2 \<and> length (op_out_dest_object op) < HES_PATH_MAX
     \<and> length (op_out_method op) < 4 \<and> length (op_out_adjustment op) < 4 \<and> length (op_out_author_type op) < 4"

text \<open>A row that has not run yet.\<close>

definition fresh_operation :: "bm_operation \<Rightarrow> bool" where
  "fresh_operation op \<longleftrightarrow> \<not> op_has_last_output op \<and> \<not> op_has_last_inputs op \<and> op_last_operands op = []"

definition wf_addr :: "bm_addr \<Rightarrow> bool" where
  "wf_addr a \<longleftrightarrow> length (ad_address a) < 64"

definition wf_table :: "binding_map \<Rightarrow> bool" where
  "wf_table bm \<longleftrightarrow> length (bm_ops bm) \<le> BM_MAX_OPS \<and> list_all wf_operation (bm_ops bm)
     \<and> length (bm_addrs bm) \<le> BM_MAX_ADDRS \<and> list_all wf_addr (bm_addrs bm)"

definition loaded_operation :: "bm_operation \<Rightarrow> bool" where
  "loaded_operation op \<longleftrightarrow> wf_operation op \<and> fresh_operation op"

definition loaded_map :: "binding_map \<Rightarrow> bool" where
  "loaded_map bm \<longleftrightarrow> wf_table bm \<and> list_all fresh_operation (bm_ops bm)
     \<and> bm_value_valid bm = (\<lambda>_. False) \<and> bm_value_cache bm = (\<lambda>_. d_zero)
     \<and> \<not> bm_authz_disabled bm \<and> bm_current_msg bm = None"

lemmas loaded_defs = loaded_operation_def wf_operation_def fresh_operation_def

lemma fold_keeps: "(\<And>x s. P s \<Longrightarrow> P (f x s)) \<Longrightarrow> P s \<Longrightarrow> P (fold f xs s)"
  by (rule fold_invariant[where Q = "\<lambda>_. True"]) simp_all

lemma wf_input_datum [wf_rules]: "wf_input i \<Longrightarrow> wf_input (input_datum e i)"
  by (simp add: wf_input_def input_datum_def Let_def buf_bounds split: option.split)

lemma wf_input_parsed: "wf_input (fold input_datum es input_zero)"
  by (rule fold_keeps[where P = wf_input], erule wf_input_datum) (simp add: wf_input_def input_zero_def)

lemma wf_addr_parsed: "wf_addr (fold addr_datum es addr_zero)"
  by (rule fold_keeps) (simp_all add: wf_addr_def addr_zero_def addr_datum_def Let_def buf_bounds split: option.split)

lemma loaded_parse_inputs [wf_rules]: "loaded_operation op \<Longrightarrow> loaded_operation (parse_inputs xp ctx e op)"
  by (simp add: loaded_defs parse_inputs_def wf_input_parsed)

lemma loaded_input_parameter: "loaded_operation op \<Longrightarrow> loaded_operation (input_parameter e op)"
  by (simp add: loaded_defs input_parameter_def Let_def)

lemma loaded_output_parameter: "loaded_operation op \<Longrightarrow> loaded_operation (output_parameter e op)"
  by (simp add: loaded_defs output_parameter_def)

lemma loaded_output_datum: "loaded_operation op \<Longrightarrow> loaded_operation (output_datum e op)"
  by (simp add: loaded_defs output_datum_def Let_def buf_bounds split: option.split)

lemma loaded_row_datum: "loaded_operation op \<Longrightarrow> loaded_operation (row_datum e op)"
  by (simp add: loaded_defs row_datum_def Let_def buf_bounds split: option.split)

lemma loaded_parse_parameters [wf_rules]:
  "loaded_operation op \<Longrightarrow> loaded_operation (parse_input_parameters xp ctx e op)"
  "loaded_operation op \<Longrightarrow> loaded_operation (parse_output_parameters xp ctx e op)"
  unfolding parse_input_parameters_def parse_output_parameters_def
  by (erule fold_keeps[rotated, where P = loaded_operation], erule loaded_input_parameter)
     (erule fold_keeps[rotated, where P = loaded_operation], erule loaded_output_parameter)

lemma loaded_parse_outputs [wf_rules]: "loaded_operation op \<Longrightarrow> loaded_operation (parse_outputs xp ctx e op)"
  unfolding parse_outputs_def Let_def
  by (rule fold_keeps[where P = loaded_operation], erule loaded_output_datum) (auto simp: loaded_defs buf_bounds split: option.split)

lemma loaded_group:
  "(\<And>e op. loaded_operation op \<Longrightarrow> loaded_operation (loader xp ctx e op)) \<Longrightarrow> loaded_operation op
   \<Longrightarrow> loaded_operation (load_group xp ctx p n loader op)"
  unfolding load_group_def by (rule fold_keeps)

lemma loaded_operation_row: "loaded_operation (operation_row xp ctx e)"
proof -
  have "loaded_operation (case hes_query_elem_attr e ''transCode'' of
          None \<Rightarrow> op_zero\<lparr>op_enabled := True\<rparr>
        | Some code \<Rightarrow> (op_zero\<lparr>op_enabled := True\<rparr>)\<lparr>op_table_code := hes_strlcpy 8 code\<rparr>)"
    by (auto simp: loaded_defs op_zero_def buf_bounds split: option.split)
  then show ?thesis
    unfolding operation_row_def Let_def
    by (intro loaded_group wf_rules fold_keeps[where P = loaded_operation] loaded_row_datum; assumption?)
qed

text \<open>What \<open>bm_load_tables\<close> leaves: the first rows of the document that fit.\<close>

lemma fold_capped:
  fixes field :: "'s \<Rightarrow> 'r list"
  assumes full: "\<And>e s. length (field s) \<ge> cap \<Longrightarrow> f e s = s"
    and room: "\<And>e s. length (field s) < cap \<Longrightarrow> field (f e s) = field s @ [row e]"
  shows "length (field s) \<le> cap \<Longrightarrow> field (fold f es s) = take cap (field s @ map row es)"
proof (induction es arbitrary: s)
  case Nil
  then show ?case by simp
next
  case (Cons e es)
  show ?case
  proof (cases "length (field s) < cap")
    case True
    then show ?thesis using Cons.IH[of "f e s"] room[OF True] by simp
  next
    case False
    then show ?thesis using Cons full[of s e] by simp
  qed
qed

lemma loaded_ops:
  "bm_ops bm = [] \<Longrightarrow> bm_ops (bm_load_tables xp ctx n parse_operation_table bm)
     = take BM_MAX_OPS (map (operation_row xp ctx) (hes_query_find_all xp ctx n))"
  unfolding bm_load_tables_def
  by (subst fold_capped[where cap = BM_MAX_OPS and row = "operation_row xp ctx"])
     (simp_all add: parse_operation_table_def)

lemma loaded_addrs:
  "bm_addrs bm = [] \<Longrightarrow> bm_addrs (bm_load_tables xp ctx n parse_addressing_table bm)
     = take BM_MAX_ADDRS (map (\<lambda>e. fold addr_datum (hes_query_elem_children xp ctx e ''data'') addr_zero)
                            (hes_query_find_all xp ctx n))"
  unfolding bm_load_tables_def
  by (subst fold_capped[where cap = BM_MAX_ADDRS
        and row = "\<lambda>e. fold addr_datum (hes_query_elem_children xp ctx e ''data'') addr_zero"])
     (simp_all add: parse_addressing_table_def)

lemma load_tables_frame:
  "bm_addrs (bm_load_tables xp ctx n parse_operation_table bm) = bm_addrs bm"
  "bm_ops (bm_load_tables xp ctx n parse_addressing_table bm) = bm_ops bm"
  "bm\<lparr>bm_ops := [], bm_addrs := []\<rparr>
     = (bm_load_tables xp ctx n parse_operation_table bm)\<lparr>bm_ops := [], bm_addrs := []\<rparr>"
  "bm\<lparr>bm_ops := [], bm_addrs := []\<rparr>
     = (bm_load_tables xp ctx n parse_addressing_table bm)\<lparr>bm_ops := [], bm_addrs := []\<rparr>"
  unfolding bm_load_tables_def
  subgoal by (rule fold_keeps[where P = "\<lambda>s. bm_addrs s = bm_addrs bm"]) (simp_all add: parse_operation_table_def)
  subgoal by (rule fold_keeps[where P = "\<lambda>s. bm_ops s = bm_ops bm"]) (simp_all add: parse_addressing_table_def)
  subgoal by (rule fold_keeps[where P = "\<lambda>s. bm\<lparr>bm_ops := [], bm_addrs := []\<rparr> = s\<lparr>bm_ops := [], bm_addrs := []\<rparr>"])
    (simp_all add: parse_operation_table_def)
  subgoal by (rule fold_keeps[where P = "\<lambda>s. bm\<lparr>bm_ops := [], bm_addrs := []\<rparr> = s\<lparr>bm_ops := [], bm_addrs := []\<rparr>"])
    (simp_all add: parse_addressing_table_def)
  done

text \<open>The two tables a load leaves, and that it touches nothing else of a cleared map.\<close>

lemma load_xml_tables:
  assumes "bm_load_xml xp xmlParseFile bm_init path = Some bm"
  obtains root_elem where "xmlParseFile path = Some (Some root_elem)"
    "bm_ops bm = take BM_MAX_OPS (map (operation_row xp \<lparr>qc_root = root_elem\<rparr>)
        (hes_query_find_all xp \<lparr>qc_root = root_elem\<rparr> ''operationTable''))"
    "bm_addrs bm = take BM_MAX_ADDRS
        (map (\<lambda>e. fold addr_datum (hes_query_elem_children xp \<lparr>qc_root = root_elem\<rparr> e ''data'') addr_zero)
          (hes_query_find_all xp \<lparr>qc_root = root_elem\<rparr> ''addressingTable''))"
    "bm\<lparr>bm_ops := [], bm_addrs := []\<rparr> = bm_init"
proof -
  obtain r where r: "xmlParseFile path = Some (Some r)"
    and bm: "bm = bm_load_tables xp \<lparr>qc_root = r\<rparr> ''addressingTable'' parse_addressing_table
               (bm_load_tables xp \<lparr>qc_root = r\<rparr> ''operationTable'' parse_operation_table bm_init)"
    using assms by (auto simp: bm_load_xml_def hes_query_open_def split: option.splits)
  have init: "bm_ops bm_init = []" "bm_addrs bm_init = []" "bm_init\<lparr>bm_ops := [], bm_addrs := []\<rparr> = bm_init"
    by (simp_all add: bm_init_def)
  show thesis
    by (rule that[OF r]) (simp_all only: bm load_tables_frame(1,2) load_tables_frame(3,4)[symmetric]
        loaded_ops[OF init(1)] loaded_addrs init)
qed

lemma load_xml_loaded:
  assumes "bm_load_xml xp xmlParseFile bm_init path = Some bm"
  shows "loaded_map bm"
proof -
  obtain r where bm: "bm_ops bm = take BM_MAX_OPS (map (operation_row xp \<lparr>qc_root = r\<rparr>)
        (hes_query_find_all xp \<lparr>qc_root = r\<rparr> ''operationTable''))"
    "bm_addrs bm = take BM_MAX_ADDRS
        (map (\<lambda>e. fold addr_datum (hes_query_elem_children xp \<lparr>qc_root = r\<rparr> e ''data'') addr_zero)
          (hes_query_find_all xp \<lparr>qc_root = r\<rparr> ''addressingTable''))"
    "bm\<lparr>bm_ops := [], bm_addrs := []\<rparr> = bm_init"
    by (rule load_xml_tables[OF assms])
  have "list_all loaded_operation (bm_ops bm)" "list_all wf_addr (bm_addrs bm)"
    unfolding bm(1,2) by (auto simp: list_all_iff loaded_operation_row wf_addr_parsed dest!: in_set_takeD)
  moreover have "bm_value_valid bm = bm_value_valid bm_init \<and> bm_value_cache bm = bm_value_cache bm_init
      \<and> bm_authz_disabled bm = bm_authz_disabled bm_init \<and> bm_current_msg bm = bm_current_msg bm_init"
    unfolding bm(3)[symmetric] by simp
  ultimately show ?thesis
    using bm(1,2) by (simp add: loaded_map_def wf_table_def bm_init_def loaded_operation_def list_all_iff)
qed

section \<open>A loaded map is silent\<close>

text \<open>What the program relies on in libxml2's XPath: a word selects the children of the context node,
  and \<open>//word\<close> the elements of the document, both in document order (elements in no namespace).\<close>

fun descendants :: "string \<Rightarrow> xml_node \<Rightarrow> xml_node list" where
  "descendants n (Element m as cs) =
     (if m = n then [Element m as cs] else []) @ concat (map (descendants n) cs)"
| "descendants n _ = []"

definition xpath_conforms :: "xpath \<Rightarrow> bool" where
  "xpath_conforms xp \<longleftrightarrow>
     (\<forall>r n m as cs. xml_word n \<longrightarrow>
        xp r (Some (Element m as cs)) n = Some (Node_set (map Node_item (child_elems n cs))))
     \<and> (\<forall>r n. xml_word n \<longrightarrow>
        xp r (Some r) (''//'' @ n) = Some (Node_set (map Node_item (descendants n r))))"

text \<open>An evaluator of these two forms.\<close>

definition tree_xpath :: xpath where
  "tree_xpath r ctx expr =
     (if take 2 expr = ''//'' then Some (Node_set (map Node_item (descendants (drop 2 expr) r)))
      else case ctx of
             Some (Element m as cs) \<Rightarrow> Some (Node_set (map Node_item (child_elems expr cs)))
           | _ \<Rightarrow> None)"

lemma tree_xpath_conforms: "xpath_conforms tree_xpath"
proof -
  have "take 2 n \<noteq> ''//''" if "xml_word n" for n
  proof
    assume "take 2 n = ''//''"
    then have "CHR ''/'' \<in> set n" by (metis in_set_takeD list.set_intros(1))
    then show False using that by (auto simp: xml_word_def list_all_iff word_char_def)
  qed
  then show ?thesis by (simp add: xpath_conforms_def tree_xpath_def)
qed

definition datum_elem :: "string \<Rightarrow> string \<Rightarrow> xml_node" where
  "datum_elem code txt = Element ''data'' [(''transCode'', code)] [Text txt]"

definition sample_document :: xml_node where
  "sample_document =
     Element ''objectType'' [(''transCode'', ''bm'')]
       [Element ''operationTable'' [(''transCode'', ''ot1'')]
          [datum_elem ''en'' ''en'', datum_elem ''op'' ''gt'',
           Element ''inputs'' [] [datum_elem ''di'' ''1'', datum_elem ''so'' ''/lx/a''],
           Element ''outputs'' [(''transCode'', ''o1'')] [datum_elem ''dl'' ''2'', datum_elem ''do'' ''/lx/b'']],
        Element ''addressingTable'' [(''transCode'', ''at1'')] [datum_elem ''di'' ''1'', datum_elem ''mt'' ''hi'']]"

text \<open>C30: A loaded map is sound and silent. Whatever document and evaluator it was loaded with, the
  tables fit their arrays and every text its buffer, no row has run, no value is known and
  authorization is on; evaluating it before anything is reported changes and sends nothing.\<close>

theorem loaded_map_silent:
  assumes "bm_load_xml xp xmlParseFile bm_init path = Some (s_bm st)"
  shows "loaded_map (s_bm st) \<and> bm_evaluate_all h (Suc fuel) st = Some st"
proof -
  have loaded: "loaded_map (s_bm st)" by (rule load_xml_loaded[OF assms])
  then have "\<not> op_ready (s_bm st) op" for op
    by (cases "op_inputs op") (auto simp: op_ready_def loaded_map_def)
  then have "evaluate_row h i st = (st, None)" for i by (simp add: evaluate_row_def Let_def)
  then have "evaluate_rows h (Suc fuel) is st = Some st" for "is"
    by (induction "is") simp_all
  then show ?thesis using loaded by (simp add: bm_evaluate_all_def)
qed

lemma sample_document_loads: "\<exists>bm. bm_load_xml xp (\<lambda>_. Some (Some sample_document)) bm_init p = Some bm"
  by (simp add: bm_load_xml_def hes_query_open_def)

theorem loaded_map_silent_witness:
  "\<exists>bm. bm_load_xml tree_xpath (\<lambda>_. Some (Some sample_document)) bm_init ''bm.xml'' = Some bm
     \<and> bm_evaluate_all sample_hooks 1 \<lparr>s_bm = bm, s_bus = sample_bus, s_app = ()\<rparr>
         = Some \<lparr>s_bm = bm, s_bus = sample_bus, s_app = ()\<rparr>"
proof -
  obtain bm where bm: "bm_load_xml tree_xpath (\<lambda>_. Some (Some sample_document)) bm_init ''bm.xml'' = Some bm"
    using sample_document_loads by blast
  then have "bm_load_xml tree_xpath (\<lambda>_. Some (Some sample_document)) bm_init ''bm.xml''
      = Some (s_bm \<lparr>s_bm = bm, s_bus = sample_bus, s_app = ()\<rparr>)" by simp
  from loaded_map_silent[OF this, of sample_hooks 0] bm show ?thesis by simp
qed

section \<open>The rows are the document's\<close>

text \<open>The value of a row's or an input's field: the text of its last datum with that code, cut to
  the parser's buffer.\<close>

definition last_datum :: "nat \<Rightarrow> string \<Rightarrow> xml_node list \<Rightarrow> string option" where
  "last_datum cap code cs =
     (case filter (\<lambda>d. map_of (xml_attrs d) ''transCode'' = Some code) (child_elems ''data'' cs) of
        [] \<Rightarrow> None
      | ds \<Rightarrow> Some (hes_strlcpy cap (first_text (xml_children (last ds)))))"

definition text_field :: "nat \<Rightarrow> string option \<Rightarrow> string" where
  "text_field cap v = (case v of None \<Rightarrow> [] | Some s \<Rightarrow> hes_strlcpy cap s)"

definition index_field :: "string option \<Rightarrow> u32" where
  "index_field v = (case v of None \<Rightarrow> 0 | Some s \<Rightarrow> u32_of_int (atoi s))"

definition input_of :: "xml_node \<Rightarrow> bm_input" where
  "input_of e =
     (let cs = xml_children e
      in \<lparr>in_device_index = index_field (last_datum HES_PATH_MAX ''di'' cs),
          in_source_object = text_field HES_PATH_MAX (last_datum HES_PATH_MAX ''so'' cs),
          in_condition = text_field 4 (last_datum HES_PATH_MAX ''co'' cs),
          in_author_type = text_field 4 (last_datum HES_PATH_MAX ''at'' cs),
          in_accompany_op = text_field 4 (last_datum HES_PATH_MAX ''ap'' cs)\<rparr>)"

lemma fold_field:
  assumes "\<And>e s. g (f e s) = (if key e then v e else g s)"
  shows "g (fold f es s) = (case filter key es of [] \<Rightarrow> g s | d # ds \<Rightarrow> v (last (d # ds)))"
  by (induction es arbitrary: s) (auto simp: assms split: list.splits)

lemma child_elems_elements: "e \<in> set (child_elems n cs) \<Longrightarrow> \<exists>as ds. e = Element n as ds"
  by (auto simp: child_elems_def split: xml_node.splits)

lemma children_of:
  assumes "xpath_conforms xp" "xml_word n"
  shows "hes_query_elem_children xp ctx (Node_item (Element m as cs)) n = map Node_item (child_elems n cs)"
  using assms translate_path_name[OF word_plain(1)[OF assms(2)]]
  by (simp add: hes_query_elem_children_def query_eval_def xpath_conforms_def)

lemma plain_names:
  "xml_word ''data''" "xml_word ''inputs''" "xml_word ''operationTable''"
  by (simp_all add: xml_word_def word_char_def)

lemmas conforming_children = children_of[OF _ plain_names(1)] children_of[OF _ plain_names(2)]

text \<open>A field a fold over the data children sets when it meets its code.\<close>

lemma datum_field:
  assumes step: "\<And>e s. g (f e s) = (if hes_query_elem_attr e ''transCode'' = Some code
                                        then v (elem_text_copy e cap) else g s)"
  shows "g (fold f (map Node_item (child_elems ''data'' cs)) s)
       = (case last_datum cap code cs of None \<Rightarrow> g s | Some t \<Rightarrow> v t)"
proof -
  have elem: "hes_query_elem_attr (Node_item d) ''transCode'' = map_of (xml_attrs d) ''transCode''
      \<and> elem_text_copy (Node_item d) cap = hes_strlcpy cap (first_text (xml_children d))"
    if "d \<in> set (child_elems ''data'' cs)" for d
    using child_elems_elements[OF that] by (auto simp: elem_text_copy_def hes_query_elem_text_def)
  let ?k = "\<lambda>d. map_of (xml_attrs d) ''transCode'' = Some code"
  have filt: "filter (\<lambda>e. hes_query_elem_attr e ''transCode'' = Some code) (map Node_item (child_elems ''data'' cs))
      = map Node_item (filter ?k (child_elems ''data'' cs))"
    using elem by (simp add: filter_map o_def cong: filter_cong)
  show ?thesis
    unfolding fold_field[where key = "\<lambda>e. hes_query_elem_attr e ''transCode'' = Some code"
        and v = "\<lambda>e. v (elem_text_copy e cap)", OF step] filt last_datum_def
    using elem[of "last (filter ?k (child_elems ''data'' cs))"] last_in_set[of "filter ?k (child_elems ''data'' cs)"]
    by (auto simp: last_map split: list.splits)
qed

lemma datum_text_field:
  assumes "\<And>e s. g (f e s) = (if hes_query_elem_attr e ''transCode'' = Some code
                               then hes_strlcpy n (elem_text_copy e cap) else g s)" "g s = []"
  shows "g (fold f (map Node_item (child_elems ''data'' cs)) s) = text_field n (last_datum cap code cs)"
  by (subst datum_field[where v = "hes_strlcpy n", OF assms(1)]) (simp add: text_field_def assms(2) split: option.split)

lemma datum_index_field:
  assumes "\<And>e s. g (f e s) = (if hes_query_elem_attr e ''transCode'' = Some code
                               then u32_of_int (atoi (elem_text_copy e cap)) else g s)" "g s = 0"
  shows "g (fold f (map Node_item (child_elems ''data'' cs)) s) = index_field (last_datum cap code cs)"
  by (subst datum_field[where v = "\<lambda>t. u32_of_int (atoi t)", OF assms(1)]) (simp add: index_field_def assms(2) split: option.split)

lemma input_of_parsed: "fold input_datum (map Node_item (child_elems ''data'' cs)) input_zero = input_of (Element m as cs)"
  unfolding input_of_def Let_def
  by (rule bm_input.equality; unfold bm_input.simps xml_node.sel; (rule datum_index_field datum_text_field refl)?)
     (auto simp: input_datum_def Let_def input_zero_def split: option.splits)

text \<open>The groups of a row write to separate fields.\<close>

lemma inputs_group:
  assumes "xpath_conforms xp" "length (op_inputs op) \<le> BM_MAX_INPUTS"
  shows "load_group xp ctx (Node_item (Element m as cs)) ''inputs'' parse_inputs op
       = op\<lparr>op_inputs := take BM_MAX_INPUTS (op_inputs op @ map input_of (child_elems ''inputs'' cs))\<rparr>"
proof -
  have row: "fold input_datum (hes_query_elem_children xp ctx (Node_item e) ''data'') input_zero = input_of e"
    if "e \<in> set (child_elems ''inputs'' cs)" for e
    using child_elems_elements[OF that] assms by (auto simp: conforming_children input_of_parsed)
  have "fold (parse_inputs xp ctx) (map Node_item es) op
      = op\<lparr>op_inputs := take BM_MAX_INPUTS (op_inputs op @ map input_of es)\<rparr>"
    if "set es \<subseteq> set (child_elems ''inputs'' cs)" "length (op_inputs op) \<le> BM_MAX_INPUTS" for es op
    using that
  proof (induction es arbitrary: op)
    case Nil
    then show ?case by simp
  next
    case (Cons e es)
    have "parse_inputs xp ctx (Node_item e) op = op\<lparr>op_inputs := take BM_MAX_INPUTS (op_inputs op @ [input_of e])\<rparr>"
      using Cons.prems row[of e] by (simp add: parse_inputs_def)
    moreover have "take BM_MAX_INPUTS (take BM_MAX_INPUTS (op_inputs op @ [input_of e]) @ map input_of es)
        = take BM_MAX_INPUTS (op_inputs op @ map input_of (e # es))"
      using Cons.prems(2) by (cases "length (op_inputs op) = BM_MAX_INPUTS") simp_all
    ultimately show ?case
      using Cons.IH[of "parse_inputs xp ctx (Node_item e) op"] Cons.prems by simp
  qed
  then show ?thesis using assms by (simp add: load_group_def conforming_children)
qed

lemma later_groups:
  "op_inputs (parse_input_parameters xp ctx e op) = op_inputs op"
  "op_inputs (parse_output_parameters xp ctx e op) = op_inputs op"
  "op_inputs (parse_outputs xp ctx e op) = op_inputs op"
  "op_enabled (parse_input_parameters xp ctx e op) = op_enabled op"
  "op_enabled (parse_output_parameters xp ctx e op) = op_enabled op"
  "op_enabled (parse_outputs xp ctx e op) = op_enabled op"
  "op_operation (parse_input_parameters xp ctx e op) = op_operation op"
  "op_operation (parse_output_parameters xp ctx e op) = op_operation op"
  "op_operation (parse_outputs xp ctx e op) = op_operation op"
proof -
  let ?P = "\<lambda>s. op_inputs s = op_inputs op \<and> op_enabled s = op_enabled op \<and> op_operation s = op_operation op"
  have "?P (parse_input_parameters xp ctx e op)"
    unfolding parse_input_parameters_def
    by (rule fold_keeps[where P = ?P]) (simp_all add: input_parameter_def Let_def)
  moreover have "?P (parse_output_parameters xp ctx e op)"
    unfolding parse_output_parameters_def
    by (rule fold_keeps[where P = ?P]) (simp_all add: output_parameter_def)
  moreover have "?P (parse_outputs xp ctx e op)"
    unfolding parse_outputs_def Let_def
    by (rule fold_keeps[where P = ?P]) (auto simp: output_datum_def Let_def split: option.split)
  ultimately show
    "op_inputs (parse_input_parameters xp ctx e op) = op_inputs op"
    "op_inputs (parse_output_parameters xp ctx e op) = op_inputs op"
    "op_inputs (parse_outputs xp ctx e op) = op_inputs op"
    "op_enabled (parse_input_parameters xp ctx e op) = op_enabled op"
    "op_enabled (parse_output_parameters xp ctx e op) = op_enabled op"
    "op_enabled (parse_outputs xp ctx e op) = op_enabled op"
    "op_operation (parse_input_parameters xp ctx e op) = op_operation op"
    "op_operation (parse_output_parameters xp ctx e op) = op_operation op"
    "op_operation (parse_outputs xp ctx e op) = op_operation op"
    by simp_all
qed

lemma group_keeps:
  assumes "\<And>e op. g (loader xp ctx e op) = g op"
  shows "g (load_group xp ctx p n loader op) = g op"
  unfolding load_group_def by (rule fold_keeps[where P = "\<lambda>s. g s = g op"]) (simp_all add: assms)

lemma row_fields:
  assumes "xpath_conforms xp"
  shows "op_enabled (operation_row xp ctx (Node_item (Element m as cs)))
       = (last_datum 64 ''en'' cs \<in> {None, Some ''en''})"
    and "op_operation (operation_row xp ctx (Node_item (Element m as cs))) = text_field 4 (last_datum 64 ''op'' cs)"
    and "op_inputs (operation_row xp ctx (Node_item (Element m as cs)))
       = map input_of (take BM_MAX_INPUTS (child_elems ''inputs'' cs))"
proof -
  define op0 where "op0 = (case hes_query_elem_attr (Node_item (Element m as cs)) ''transCode'' of
      Some code \<Rightarrow> (op_zero\<lparr>op_enabled := True\<rparr>)\<lparr>op_table_code := hes_strlcpy 8 code\<rparr>
    | None \<Rightarrow> op_zero\<lparr>op_enabled := True\<rparr>)"
  let ?op = "fold row_datum (map Node_item (child_elems ''data'' cs)) op0"
  have op0: "op_enabled op0" "op_operation op0 = []" "op_inputs op0 = []"
    by (simp_all add: op0_def op_zero_def split: option.split)
  have op: "op_inputs ?op = []"
    by (rule fold_keeps[where P = "\<lambda>s. op_inputs s = []"]) (simp_all add: op0 row_datum_def Let_def split: option.split)
  have rest: "f (operation_row xp ctx (Node_item (Element m as cs)))
      = f (load_group xp ctx (Node_item (Element m as cs)) ''inputs'' parse_inputs ?op)"
    if "\<And>e op. f (parse_input_parameters xp ctx e op) = f op" "\<And>e op. f (parse_output_parameters xp ctx e op) = f op"
      "\<And>e op. f (parse_outputs xp ctx e op) = f op" for f :: "bm_operation \<Rightarrow> 'b"
    using that conforming_children(1)[OF assms]
    by (simp only: operation_row_def Let_def group_keeps[where g = f] op0_def)
  have "op_enabled ?op = (last_datum 64 ''en'' cs \<in> {None, Some ''en''})"
    by (subst datum_field[where code = "''en''" and v = "\<lambda>t. t = ''en''" and cap = 64])
       (auto simp: row_datum_def Let_def op0 split: option.splits)
  then show "op_enabled (operation_row xp ctx (Node_item (Element m as cs))) = (last_datum 64 ''en'' cs \<in> {None, Some ''en''})"
    using inputs_group[OF assms, where ctx = ctx and m = m and as = as and cs = cs and op = ?op] op by (simp add: rest[of op_enabled] later_groups)
  have "op_operation ?op = text_field 4 (last_datum 64 ''op'' cs)"
    by (rule datum_text_field) (auto simp: row_datum_def Let_def op0 split: option.splits)
  then show "op_operation (operation_row xp ctx (Node_item (Element m as cs))) = text_field 4 (last_datum 64 ''op'' cs)"
    using inputs_group[OF assms, where ctx = ctx and m = m and as = as and cs = cs and op = ?op] op by (simp add: rest[of op_operation] later_groups)
  show "op_inputs (operation_row xp ctx (Node_item (Element m as cs)))
      = map input_of (take BM_MAX_INPUTS (child_elems ''inputs'' cs))"
    using inputs_group[OF assms, where ctx = ctx and m = m and as = as and cs = cs and op = ?op] op by (simp add: rest[of op_inputs] later_groups take_map)
qed

text \<open>C29: Loading reads the document's rows. With an XPath evaluator that conforms, the operation
  table is the document's first 32 operation elements in order; a row is enabled unless its last
  'en' datum says otherwise, its operation is its last 'op' datum, and its operands are its
  first four inputs in order, each with the values of its own data.\<close>

theorem load_reads_document:
  assumes "xpath_conforms xp" "xmlParseFile path = Some (Some doc)"
  shows "\<exists>bm. bm_load_xml xp xmlParseFile bm_init path = Some bm
     \<and> map (\<lambda>op. (op_enabled op, op_operation op, op_inputs op)) (bm_ops bm)
       = map (\<lambda>e. let cs = xml_children e
                   in (last_datum 64 ''en'' cs \<in> {None, Some ''en''}, text_field 4 (last_datum 64 ''op'' cs),
                       map input_of (take BM_MAX_INPUTS (child_elems ''inputs'' cs))))
           (take BM_MAX_OPS (descendants ''operationTable'' doc))"
proof -
  obtain bm where bm: "bm_load_xml xp xmlParseFile bm_init path = Some bm"
    using assms(2) by (simp add: bm_load_xml_def hes_query_open_def)
  obtain r where "xmlParseFile path = Some (Some r)"
    "bm_ops bm = take BM_MAX_OPS (map (operation_row xp \<lparr>qc_root = r\<rparr>)
        (hes_query_find_all xp \<lparr>qc_root = r\<rparr> ''operationTable''))"
    by (rule load_xml_tables[OF bm])
  then have ops: "bm_ops bm = map (\<lambda>e. operation_row xp \<lparr>qc_root = doc\<rparr> (Node_item e))
      (take BM_MAX_OPS (descendants ''operationTable'' doc))"
    using assms plain_names(3) by (simp add: hes_query_find_all_def xpath_conforms_def take_map o_def)
  have elem: "\<exists>as cs. e = Element n as cs" if "e \<in> set (descendants n doc)" for e n
    using that by (induction n doc rule: descendants.induct) (auto split: if_splits)
  have "map (\<lambda>op. (op_enabled op, op_operation op, op_inputs op)) (bm_ops bm)
      = map (\<lambda>e. let cs = xml_children e
                  in (last_datum 64 ''en'' cs \<in> {None, Some ''en''}, text_field 4 (last_datum 64 ''op'' cs),
                      map input_of (take BM_MAX_INPUTS (child_elems ''inputs'' cs))))
          (take BM_MAX_OPS (descendants ''operationTable'' doc))"
    unfolding ops map_map
  proof (rule map_cong[OF refl])
    fix e assume "e \<in> set (take BM_MAX_OPS (descendants ''operationTable'' doc))"
    then obtain as cs where "e = Element ''operationTable'' as cs" using elem in_set_takeD by metis
    then show "((\<lambda>op. (op_enabled op, op_operation op, op_inputs op)) \<circ> (\<lambda>e. operation_row xp \<lparr>qc_root = doc\<rparr> (Node_item e))) e
        = (let cs = xml_children e
           in (last_datum 64 ''en'' cs \<in> {None, Some ''en''}, text_field 4 (last_datum 64 ''op'' cs),
               map input_of (take BM_MAX_INPUTS (child_elems ''inputs'' cs))))"
      by (simp only: o_def Let_def xml_node.sel row_fields[OF assms(1)])
  qed
  then show ?thesis using bm by blast
qed

theorem load_reads_document_witness:
  "\<exists>bm. bm_load_xml tree_xpath (\<lambda>_. Some (Some sample_document)) bm_init ''bm.xml'' = Some bm
     \<and> map op_operation (bm_ops bm) = [''gt'']"
proof -
  obtain bm where bm: "bm_load_xml tree_xpath (\<lambda>_. Some (Some sample_document)) bm_init ''bm.xml'' = Some bm"
    "map (\<lambda>op. (op_enabled op, op_operation op, op_inputs op)) (bm_ops bm)
       = map (\<lambda>e. let cs = xml_children e
                   in (last_datum 64 ''en'' cs \<in> {None, Some ''en''}, text_field 4 (last_datum 64 ''op'' cs),
                       map input_of (take BM_MAX_INPUTS (child_elems ''inputs'' cs))))
           (take BM_MAX_OPS (descendants ''operationTable'' sample_document))"
    by (rule exE[OF load_reads_document[OF tree_xpath_conforms,
              of "\<lambda>_. Some (Some sample_document)" "''bm.xml''" sample_document, OF refl]]) (elim conjE)
  have "\<not> is_blank ''gt''" by code_simp
  with arg_cong[OF bm(2), of "map (fst \<circ> snd)"] have "map op_operation (bm_ops bm) = [''gt'']"
    by (simp add: sample_document_def datum_elem_def child_elems_def last_datum_def text_field_def Let_def
        hes_strlcpy_take o_def)
  then show ?thesis by (intro exI[of _ bm] conjI bm(1))
qed

end
