(* ===== verification/Json.thy ===== *)
theory Json
  imports CDouble
begin

text \<open>
  JSON values as the program sees them through Jansson: the parser itself
  (\<open>json_loads\<close>, \<open>json_load_file\<close>) is third-party code and stays an argument of the
  definitions that call it; its values are the data type below, and the accessors behave as
  Jansson documents them on a value of another kind (NULL, 0). The C conversions of a double
  to an integer type, which the standard leaves open out of range, are those of x86-64.
\<close>

datatype json =
    JNull
  | JBool bool
  | JInt int
  | JReal dbl
  | JStr string
  | JArr "json list"
  | JObj "(string \<times> json) list"

fun json_object_get :: "json \<Rightarrow> string \<Rightarrow> json option" where
  "json_object_get (JObj kvs) k = map_of kvs k"
| "json_object_get _ k = None"

definition json_is_object :: "json \<Rightarrow> bool" where
  "json_is_object j \<longleftrightarrow> (case j of JObj _ \<Rightarrow> True | _ \<Rightarrow> False)"

fun d_of_int :: "int \<Rightarrow> dbl" where
  "d_of_int n = round64 (n < 0) (of_int \<bar>n\<bar>)"

text \<open>\<open>json_number_value\<close> of a number; the Some is \<open>json_is_number\<close>.\<close>

fun json_number :: "json option \<Rightarrow> dbl option" where
  "json_number (Some (JInt n)) = Some (d_of_int n)"
| "json_number (Some (JReal d)) = Some d"
| "json_number _ = None"

fun json_string :: "json option \<Rightarrow> string option" where
  "json_string (Some (JStr s)) = Some s"
| "json_string _ = None"

fun json_array :: "json option \<Rightarrow> json list option" where
  "json_array (Some (JArr js)) = Some js"
| "json_array _ = None"

fun json_integer :: "json option \<Rightarrow> int option" where
  "json_integer (Some (JInt n)) = Some n"
| "json_integer _ = None"

text \<open>\<open>(long)d\<close>, \<open>(int)d\<close> and \<open>(uint32_t)d\<close>.\<close>

definition d_trunc :: "dbl \<Rightarrow> int option" where
  "d_trunc d = (case d of DFin s m \<Rightarrow> Some (if s then - \<lfloor>m\<rfloor> else \<lfloor>m\<rfloor>) | _ \<Rightarrow> None)"

definition d_to_long :: "dbl \<Rightarrow> int" where
  "d_to_long d =
     (case d_trunc d of
        Some n \<Rightarrow> if - (2 ^ 63) \<le> n \<and> n < 2 ^ 63 then n else - (2 ^ 63)
      | None \<Rightarrow> - (2 ^ 63))"

definition d_to_int :: "dbl \<Rightarrow> int" where
  "d_to_int d =
     (case d_trunc d of
        Some n \<Rightarrow> if - (2 ^ 31) \<le> n \<and> n < 2 ^ 31 then n else - (2 ^ 31)
      | None \<Rightarrow> - (2 ^ 31))"

definition d_to_u32 :: "dbl \<Rightarrow> u32" where
  "d_to_u32 d = word_of_int (d_to_long d)"

definition c_int :: "int \<Rightarrow> int" where
  "c_int n = sint (word_of_int n :: 32 word)"

text \<open>Integers up to 53 bits survive the way through a double.\<close>

lemma ibits_bound: "n < 2 ^ k \<Longrightarrow> ibits n \<le> int k"
proof (induction k arbitrary: n)
  case 0
  then show ?case by (subst ibits.simps) simp
next
  case (Suc k)
  show ?case
  proof (cases "n \<le> 0")
    case True
    then show ?thesis by (subst ibits.simps) simp
  next
    case False
    moreover have "n div 2 < 2 ^ k" using Suc.prems by simp
    ultimately show ?thesis using Suc.IH[of "n div 2"] by (subst ibits.simps) simp
  qed
qed

lemma round_even_int [simp]: "round_even (of_int n) = n"
  by (simp add: round_even_def)

lemma round64_int:
  assumes "0 \<le> n" "n < 2 ^ 53"
  shows "round64 s (of_int n) = DFin s (of_int n)"
proof (cases "n = 0")
  case False
  have one: "ibits 1 = 1" by (subst ibits.simps, subst ibits.simps) simp
  have "ilog2 (of_int n) \<le> 52"
    using ibits_bound[of n 53] assms by (simp add: ilog2_def one Let_def)
  then have e: "max (ilog2 (of_int n) - 52) (- 1074) \<le> 0" by simp
  define e where "e = max (ilog2 (of_int n) - 52) (- 1074)"
  obtain k where k: "e = - int k" using e unfolding e_def[symmetric] by (metis add.inverse_inverse nonneg_int_cases neg_0_le_iff_le)
  have p: "pow2r e = 1 / 2 ^ k" by (simp add: pow2r_def k)
  have "round_even (of_int n / pow2r e) = n * 2 ^ k"
  proof -
    have "of_int n / pow2r e = of_int (n * 2 ^ k)" by (simp add: p)
    then show ?thesis by (simp only: round_even_int)
  qed
  then have v: "of_int (round_even (of_int n / pow2r e)) * pow2r e = (of_int n :: rat)"
    by (simp add: p)
  have "(of_int n :: rat) < 2 ^ 1024"
  proof -
    have "n < 2 ^ 1024" using assms(2) by (rule less_trans) simp
    then have "(of_int n :: rat) < of_int (2 ^ 1024)" by (simp only: of_int_less_iff)
    then show ?thesis by simp
  qed
  then show ?thesis using False v by (simp add: round64_def e_def[symmetric] Let_def)
qed (simp add: round64_def)

lemma d_to_long_of_int:
  assumes "\<bar>n\<bar> < 2 ^ 53"
  shows "d_to_long (d_of_int n) = n"
proof -
  have "round64 (n < 0) (of_int \<bar>n\<bar>) = DFin (n < 0) (of_int \<bar>n\<bar>)"
    by (rule round64_int) (use assms in simp_all)
  then have "d_of_int n = DFin (n < 0) (of_int \<bar>n\<bar>)" by (simp only: d_of_int.simps)
  then have "d_trunc (d_of_int n) = Some n" by (simp add: d_trunc_def del: of_int_abs d_of_int.simps)
  moreover have "- (2 ^ 63) \<le> n \<and> n < 2 ^ 63" using assms by (auto simp: abs_less_iff)
  ultimately show ?thesis by (simp add: d_to_long_def del: d_of_int.simps)
qed

section \<open>The readers every loader of the program has\<close>

text \<open>\<open>jobj_int\<close> and \<open>jobj_str\<close> of auth.c; \<open>jobj_str\<close> leaves the destination as it is
  when there is no such string.\<close>

definition jobj_int :: "json \<Rightarrow> string \<Rightarrow> int \<Rightarrow> int" where
  "jobj_int o' key def =
     (case json_integer (json_object_get o' key) of Some n \<Rightarrow> c_int n | None \<Rightarrow> def)"

definition jobj_str :: "json \<Rightarrow> string \<Rightarrow> nat \<Rightarrow> string \<Rightarrow> string" where
  "jobj_str o' key cap dst =
     (case json_string (json_object_get o' key) of Some s \<Rightarrow> hes_strlcpy cap s | None \<Rightarrow> dst)"

definition jobj_array :: "json \<Rightarrow> string \<Rightarrow> json list option" where
  "jobj_array doc key = json_array (json_object_get doc key)"

text \<open>The loop every table is read with: the objects of an array, while there is room.\<close>

fun load_rows :: "nat \<Rightarrow> (json \<Rightarrow> 'a) \<Rightarrow> json list \<Rightarrow> 'a list \<Rightarrow> 'a list" where
  "load_rows mx row [] acc = acc"
| "load_rows mx row (j # js) acc =
     (if length acc \<ge> mx then acc
      else load_rows mx row js (if json_is_object j then acc @ [row j] else acc))"

lemma load_rows_take:
  "length acc \<le> mx \<Longrightarrow>
   load_rows mx row js acc = acc @ map row (take (mx - length acc) (filter json_is_object js))"
proof (induction js arbitrary: acc)
  case (Cons j js)
  show ?case
  proof (cases "length acc = mx")
    case False
    then have "mx - length acc = Suc (mx - Suc (length acc))" using Cons.prems by simp
    then show ?thesis using Cons.IH[of acc] Cons.IH[of "acc @ [row j]"] Cons.prems False by simp
  qed simp
qed simp

lemma load_rows_bound [buf_bounds]: "length (load_rows mx row js []) \<le> mx"
  by (simp add: load_rows_take)

lemma load_rows_all:
  assumes "\<And>j. P (row j)"
  shows "list_all P (load_rows mx row js [])"
  using assms by (simp add: load_rows_take list_all_iff)

lemma jobj_str_bound [buf_bounds]:
  "0 < cap \<Longrightarrow> length dst < cap \<Longrightarrow> length (jobj_str o' key cap dst) < cap"
  by (simp add: jobj_str_def buf_bounds split: option.split)

lemma c_int_range: "- (2 ^ 31) \<le> c_int n \<and> c_int n < 2 ^ 31"
  using sint_range_size[of "word_of_int n :: 32 word"] by (simp add: c_int_def word_size)

end
