(* ===== verification/Auth.thy ===== *)
theory Auth
  imports Json Bm Dispatch
begin

text \<open>
  The authorization service (src/src/services/auth/auth.c): the policy tables and their
  loader, the class list a GET is answered with, propagation of the permissions into the
  binding map, the per-message decision, and the proofs a permission requires.

  The service's state is \<open>auth_service_state\<close>; a table with its count is a list. The policy
  file is read by Jansson, an argument of the loader.
\<close>

abbreviation AUTH_MAX_CLASSES :: nat where "AUTH_MAX_CLASSES \<equiv> 16"
abbreviation AUTH_MAX_IDENTITIES :: nat where "AUTH_MAX_IDENTITIES \<equiv> 16"
abbreviation AUTH_MAX_CREDENTIALS :: nat where "AUTH_MAX_CREDENTIALS \<equiv> 16"
abbreviation AUTH_MAX_GROUPS :: nat where "AUTH_MAX_GROUPS \<equiv> 32"
abbreviation AUTH_MAX_PERMISSIONS :: nat where "AUTH_MAX_PERMISSIONS \<equiv> 32"
abbreviation AUTH_MAX_PROOF_REQUIREMENTS :: nat where "AUTH_MAX_PROOF_REQUIREMENTS \<equiv> 16"
abbreviation AUTH_NAME_MAX :: nat where "AUTH_NAME_MAX \<equiv> 32"
abbreviation AUTH_SECRET_MAX :: nat where "AUTH_SECRET_MAX \<equiv> 64"

section \<open>The tables\<close>

record auth_class =
  ac_class_id :: int
  ac_name :: string
  ac_status :: string
  ac_identity_ref :: int
  ac_group_id :: int
  ac_credential_ref :: int

record auth_identity =
  ai_identity :: int
  ai_type :: string
  ai_device_index :: u32

record auth_credential =
  cr_cred_id :: int
  cr_method :: string
  cr_protocol :: string
  cr_info :: string
  cr_timing :: int
  cr_valid :: bool

record auth_group =
  gr_group_id :: int
  gr_table_type :: string
  gr_permission_ref :: int

record auth_permission =
  pe_service_index :: int
  pe_status_check :: string
  pe_device_index :: u32
  pe_lexicon_object :: string
  pe_value_new :: string

record auth_proof_requirement =
  pr_at_address :: string
  pr_public_id :: string

record auth_service_state =
  as_classes :: "auth_class list"
  as_identities :: "auth_identity list"
  as_credentials :: "auth_credential list"
  as_groups :: "auth_group list"
  as_permissions :: "auth_permission list"
  as_proof_requirements :: "auth_proof_requirement list"
  as_loaded :: bool

definition auth_empty :: auth_service_state where
  "auth_empty = \<lparr>as_classes = [], as_identities = [], as_credentials = [], as_groups = [],
     as_permissions = [], as_proof_requirements = [], as_loaded = False\<rparr>"

section \<open>Loading the policy\<close>

definition class_row :: "json \<Rightarrow> auth_class" where
  "class_row row =
     \<lparr>ac_class_id = jobj_int row ''ci'' 0, ac_name = jobj_str row ''fn'' AUTH_NAME_MAX [],
      ac_status = jobj_str row ''st'' 4 [], ac_identity_ref = jobj_int row ''ti'' 0,
      ac_group_id = jobj_int row ''pi'' 0, ac_credential_ref = jobj_int row ''cr'' 0\<rparr>"

definition identity_row :: "json \<Rightarrow> auth_identity" where
  "identity_row row =
     \<lparr>ai_identity = jobj_int row ''id'' 0, ai_type = jobj_str row ''ta'' 4 [],
      ai_device_index = word_of_int (jobj_int row ''di'' 0)\<rparr>"

definition credential_row :: "json \<Rightarrow> auth_credential" where
  "credential_row row =
     \<lparr>cr_cred_id = jobj_int row ''id'' 0, cr_method = jobj_str row ''cm'' 4 [],
      cr_protocol = jobj_str row ''cp'' 4 [], cr_info = jobj_str row ''ci'' AUTH_SECRET_MAX [],
      cr_timing = jobj_int row ''ss'' 0, cr_valid = (jobj_str row ''cv'' 4 [] = ''ye'')\<rparr>"

definition group_row :: "json \<Rightarrow> auth_group" where
  "group_row row =
     \<lparr>gr_group_id = jobj_int row ''pi'' 0, gr_table_type = jobj_str row ''pt'' 4 [],
      gr_permission_ref = jobj_int row ''pr'' 0\<rparr>"

definition permission_row :: "json \<Rightarrow> auth_permission" where
  "permission_row row =
     \<lparr>pe_service_index = jobj_int row ''pi'' 0, pe_status_check = jobj_str row ''st'' 4 [],
      pe_device_index = word_of_int (jobj_int row ''di'' 0),
      pe_lexicon_object = jobj_str row ''lo'' HES_PATH_MAX [],
      pe_value_new = jobj_str row ''vn'' 4 []\<rparr>"

text \<open>A refused proof requirement stays in the slot the next one is read into.\<close>

definition empty_requirement :: auth_proof_requirement where
  "empty_requirement = \<lparr>pr_at_address = [], pr_public_id = []\<rparr>"

fun load_requirements ::
    "json list \<Rightarrow> auth_proof_requirement \<Rightarrow> auth_proof_requirement list \<Rightarrow> auth_proof_requirement list" where
  "load_requirements [] slot acc = acc"
| "load_requirements (row # rows) slot acc =
     (if length acc \<ge> AUTH_MAX_PROOF_REQUIREMENTS then acc
      else if \<not> json_is_object row then load_requirements rows slot acc
      else
        (let pr = \<lparr>pr_at_address = jobj_str row ''at'' HES_PATH_MAX (pr_at_address slot),
                   pr_public_id = jobj_str row ''pi'' 65 (pr_public_id slot)\<rparr>
         in if pr_at_address pr = [] \<or> length (pr_public_id pr) \<noteq> 64
            then load_requirements rows pr acc
            else load_requirements rows empty_requirement (acc @ [pr])))"

definition table :: "nat \<Rightarrow> (json \<Rightarrow> 'a) \<Rightarrow> json \<Rightarrow> string \<Rightarrow> 'a list" where
  "table mx row doc key =
     (case jobj_array doc key of None \<Rightarrow> [] | Some arr \<Rightarrow> load_rows mx row arr [])"

definition load_policy ::
    "(string \<Rightarrow> json option) \<Rightarrow> string option \<Rightarrow> auth_service_state \<Rightarrow> auth_service_state" where
  "load_policy json_load_file path st =
     (if path = None \<or> path = Some [] then st
      else case json_load_file (the path) of
             None \<Rightarrow> st
           | Some doc \<Rightarrow>
               \<lparr>as_classes = table AUTH_MAX_CLASSES class_row doc ''authClasses'',
                as_identities = table AUTH_MAX_IDENTITIES identity_row doc ''authIdentities'',
                as_credentials = table AUTH_MAX_CREDENTIALS credential_row doc ''credentials'',
                as_groups = table AUTH_MAX_GROUPS group_row doc ''permissionGroups'',
                as_permissions = table AUTH_MAX_PERMISSIONS permission_row doc ''permissionServices'',
                as_proof_requirements =
                  (case jobj_array doc ''proofRequired'' of
                     None \<Rightarrow> []
                   | Some arr \<Rightarrow> load_requirements arr empty_requirement []),
                as_loaded = True\<rparr>)"

definition auth_service_create :: "(string \<Rightarrow> json option) \<Rightarrow> string option \<Rightarrow> auth_service_state" where
  "auth_service_create json_load_file policy_path = load_policy json_load_file policy_path auth_empty"

section \<open>The service object\<close>

text \<open>\<open>off\<close> counts what \<open>snprintf\<close> reports, which may pass the buffer's end; the buffer
  itself keeps its first 511 characters.\<close>

definition class_item :: "nat \<Rightarrow> auth_class \<Rightarrow> string" where
  "class_item i c = (if i > 0 then '';'' else []) @ ''ci='' @ dec_int (ac_class_id c)
     @ '',fn='' @ ac_name c @ '',st='' @ ac_status c"

fun class_list :: "nat \<Rightarrow> auth_class list \<Rightarrow> string \<Rightarrow> string" where
  "class_list i [] buf = buf"
| "class_list i (c # cs) buf =
     (if length buf \<ge> HES_PAYLOAD_MAX - 1 then buf else class_list (i + 1) cs (buf @ class_item i c))"

definition auth_on_get :: "auth_service_state \<Rightarrow> hes_clme_msg \<Rightarrow> hes_clme_msg" where
  "auth_on_get st out =
     (let buf = class_list 0 (as_classes st) []
      in hes_msg_set_payload_str out
           (if buf = [] then ''no-auth-policy'' else hes_strlcpy HES_PAYLOAD_MAX buf))"

definition auth_on_put :: "auth_service_state \<Rightarrow> hes_clme_msg \<Rightarrow> auth_service_state" where
  "auth_on_put st msg = st"

section \<open>Propagation and decision\<close>

text \<open>The permission rows one class reaches: its group rows, and theirs, in table order.\<close>

definition group_permissions :: "auth_service_state \<Rightarrow> auth_class \<Rightarrow> auth_group \<Rightarrow> auth_permission list" where
  "group_permissions st cls grp =
     (if gr_group_id grp \<noteq> ac_group_id cls \<or> gr_table_type grp \<noteq> ''ps'' then []
      else filter (\<lambda>perm. pe_service_index perm = gr_permission_ref grp
                        \<and> pe_status_check perm = ac_status cls) (as_permissions st))"

definition class_permissions :: "auth_service_state \<Rightarrow> auth_class \<Rightarrow> auth_permission list" where
  "class_permissions st cls = concat (map (group_permissions st cls) (as_groups st))"

text \<open>One call of the writer; the count goes up when it succeeds.\<close>

definition write_permission ::
    "('b \<Rightarrow> string \<Rightarrow> string \<Rightarrow> 'b option) \<Rightarrow> auth_permission \<Rightarrow> 'b \<times> nat \<Rightarrow> 'b \<times> nat" where
  "write_permission write perm acc =
     (case acc of (ctx, writes) \<Rightarrow>
        (case write ctx (pe_lexicon_object perm) (pe_value_new perm) of
           None \<Rightarrow> (ctx, writes)
         | Some ctx' \<Rightarrow> (ctx', writes + 1)))"

definition auth_service_propagate ::
    "auth_service_state \<Rightarrow> ('b \<Rightarrow> string \<Rightarrow> string \<Rightarrow> 'b option) \<Rightarrow> 'b \<Rightarrow> 'b \<times> nat" where
  "auth_service_propagate st write ctx =
     fold (\<lambda>cls. fold (write_permission write) (class_permissions st cls)) (as_classes st) (ctx, 0)"

definition credential_matches :: "string \<Rightarrow> string \<Rightarrow> bool" where
  "credential_matches stored presented \<longleftrightarrow>
     (let n = length (takeWhile (\<lambda>c. c \<noteq> CHR '';'') presented)
      in length stored = n \<and> take n stored = take n presented)"

definition auth_service_authorize ::
    "auth_service_state \<Rightarrow> string option \<Rightarrow> string option \<Rightarrow> string option \<Rightarrow> bool" where
  "auth_service_authorize st cred_info user_name at_address =
     (if \<not> as_loaded st \<or> cred_info = None \<or> cred_info = Some [] \<or> at_address = None then False
      else
        (case List.find (\<lambda>c. credential_matches (cr_info c) (the cred_info)) (as_credentials st) of
           None \<Rightarrow> False
         | Some cred \<Rightarrow>
             if \<not> cr_valid cred then False
             else
               (case List.find (\<lambda>c. ac_credential_ref c = cr_cred_id cred) (as_classes st) of
                  None \<Rightarrow> False
                | Some cls \<Rightarrow>
                    if user_name \<noteq> None \<and> user_name \<noteq> Some [] \<and> the user_name \<noteq> ac_name cls then False
                    else
                      (let vn = fold (\<lambda>perm vn. if pe_lexicon_object perm = the at_address
                                                 then Some (pe_value_new perm) else vn)
                                     (class_permissions st cls) None
                       in vn = Some ''fl''))))"

definition auth_service_required_proof_pi :: "auth_service_state \<Rightarrow> string option \<Rightarrow> string option" where
  "auth_service_required_proof_pi st at_address =
     (case at_address of
        None \<Rightarrow> None
      | Some addr \<Rightarrow>
          map_option pr_public_id
            (List.find (\<lambda>pr. pr_at_address pr = addr) (as_proof_requirements st)))"

end
