(* ===== verification/AuthProps.thy ===== *)
theory AuthProps
  imports Auth BmControl
begin

text \<open>
  The properties of the authorization service: what a loaded policy satisfies, what the
  decision is, and what propagation writes. \<open>at_store\<close> is the interface propagation
  relies on, a store of authorization types by address; the binding map provides it.
\<close>

section \<open>The loaded policy\<close>

text \<open>Every table within its capacity, every string shorter than its buffer, every proof requirement complete.\<close>

definition class_fits :: "auth_class \<Rightarrow> bool" where
  "class_fits c \<longleftrightarrow> length (ac_name c) < AUTH_NAME_MAX \<and> length (ac_status c) < 4"

definition identity_fits :: "auth_identity \<Rightarrow> bool" where
  "identity_fits i \<longleftrightarrow> length (ai_type i) < 4"

definition credential_fits :: "auth_credential \<Rightarrow> bool" where
  "credential_fits c \<longleftrightarrow>
     length (cr_method c) < 4 \<and> length (cr_protocol c) < 4 \<and> length (cr_info c) < AUTH_SECRET_MAX"

definition group_fits :: "auth_group \<Rightarrow> bool" where
  "group_fits g \<longleftrightarrow> length (gr_table_type g) < 4"

definition permission_fits :: "auth_permission \<Rightarrow> bool" where
  "permission_fits p \<longleftrightarrow>
     length (pe_status_check p) < 4 \<and> length (pe_lexicon_object p) < HES_PATH_MAX \<and> length (pe_value_new p) < 4"

definition requirement_fits :: "auth_proof_requirement \<Rightarrow> bool" where
  "requirement_fits r \<longleftrightarrow>
     pr_at_address r \<noteq> [] \<and> length (pr_at_address r) < HES_PATH_MAX \<and> length (pr_public_id r) = 64"

lemmas fits_defs = class_fits_def identity_fits_def credential_fits_def group_fits_def permission_fits_def requirement_fits_def

definition wf_policy :: "auth_service_state \<Rightarrow> bool" where
  "wf_policy st \<longleftrightarrow>
     length (as_classes st) \<le> AUTH_MAX_CLASSES \<and> list_all class_fits (as_classes st)
     \<and> length (as_identities st) \<le> AUTH_MAX_IDENTITIES \<and> list_all identity_fits (as_identities st)
     \<and> length (as_credentials st) \<le> AUTH_MAX_CREDENTIALS \<and> list_all credential_fits (as_credentials st)
     \<and> length (as_groups st) \<le> AUTH_MAX_GROUPS \<and> list_all group_fits (as_groups st)
     \<and> length (as_permissions st) \<le> AUTH_MAX_PERMISSIONS \<and> list_all permission_fits (as_permissions st)
     \<and> length (as_proof_requirements st) \<le> AUTH_MAX_PROOF_REQUIREMENTS
     \<and> list_all requirement_fits (as_proof_requirements st)"

text \<open>The document that is read, if one is named and readable; and the rows under one of its keys.\<close>

definition readable_policy :: "(string \<Rightarrow> json option) \<Rightarrow> string option \<Rightarrow> json option" where
  "readable_policy json_load_file path =
     (case path of None \<Rightarrow> None | Some p \<Rightarrow> if p = [] then None else json_load_file p)"

definition object_rows :: "json \<Rightarrow> string \<Rightarrow> json list" where
  "object_rows doc key = filter json_is_object (case jobj_array doc key of None \<Rightarrow> [] | Some arr \<Rightarrow> arr)"

lemma table_rows: "table mx row doc key = map row (take mx (object_rows doc key))"
  by (simp add: table_def object_rows_def load_rows_take split: option.split)

lemma table_bound [buf_bounds]: "length (table mx row doc key) \<le> mx"
  by (simp add: table_def buf_bounds split: option.split)

lemma table_all: "(\<And>j. P (row j)) \<Longrightarrow> list_all P (table mx row doc key)"
  by (simp add: table_def load_rows_all split: option.split)

lemma row_fits:
  "class_fits (class_row j)" "identity_fits (identity_row j)" "credential_fits (credential_row j)"
  "group_fits (group_row j)" "permission_fits (permission_row j)"
  by (simp_all add: fits_defs class_row_def identity_row_def credential_row_def group_row_def permission_row_def
      jobj_str_bound)

lemma load_requirements_wf:
  assumes "length acc \<le> AUTH_MAX_PROOF_REQUIREMENTS" "length (pr_at_address slot) < HES_PATH_MAX"
    and "list_all requirement_fits acc"
  shows "length (load_requirements rows slot acc) \<le> AUTH_MAX_PROOF_REQUIREMENTS
     \<and> list_all requirement_fits (load_requirements rows slot acc)"
  using assms
proof (induction rows arbitrary: slot acc)
  case (Cons row rows)
  have fits: "length (jobj_str row ''at'' HES_PATH_MAX (pr_at_address slot)) < HES_PATH_MAX"
    using Cons.prems(2) by (simp add: jobj_str_bound)
  show ?case
    using Cons.IH[where slot = slot and acc = acc] Cons.prems fits
      Cons.IH[where acc = acc and slot = "\<lparr>pr_at_address = jobj_str row ''at'' HES_PATH_MAX (pr_at_address slot),
                   pr_public_id = jobj_str row ''pi'' 65 (pr_public_id slot)\<rparr>"]
      Cons.IH[where slot = empty_requirement and acc = "acc @ [\<lparr>pr_at_address = jobj_str row ''at'' HES_PATH_MAX (pr_at_address slot),
                   pr_public_id = jobj_str row ''pi'' 65 (pr_public_id slot)\<rparr>]"]
    by (auto simp: Let_def empty_requirement_def requirement_fits_def)
qed simp

lemma create_readable:
  "auth_service_create json_load_file path =
     (case readable_policy json_load_file path of
        None \<Rightarrow> auth_empty
      | Some doc \<Rightarrow> load_policy (\<lambda>_. Some doc) (Some ''p'') auth_empty)"
  by (simp add: auth_service_create_def readable_policy_def load_policy_def split: option.split)

lemma load_fits: "wf_policy (load_policy (\<lambda>_. Some doc) (Some (c # p)) st)"
proof -
  have reqs: "length (load_requirements arr empty_requirement []) \<le> AUTH_MAX_PROOF_REQUIREMENTS
     \<and> list_all requirement_fits (load_requirements arr empty_requirement [])" for arr
    by (rule load_requirements_wf) (simp_all add: empty_requirement_def)
  show ?thesis
    by (simp add: wf_policy_def load_policy_def table_bound table_all row_fits reqs split: option.split)
qed

text \<open>C36: Whatever the policy document holds, the loaded tables are within their capacities, every string
  of every row fits its buffer, and every proof requirement names an address and a 64-character id. Without a
  readable document the policy is the empty one, not loaded; with one it is loaded, and each of the other five
  tables holds the rows of the document's array that are objects, in order, up to the table's capacity.\<close>

theorem load_policy_wf:
  "wf_policy (auth_service_create json_load_file path)
   \<and> (case readable_policy json_load_file path of
        None \<Rightarrow> auth_service_create json_load_file path = auth_empty
      | Some doc \<Rightarrow>
          (\<exists>reqs. auth_service_create json_load_file path =
             \<lparr>as_classes = map class_row (take 16 (object_rows doc ''authClasses'')),
              as_identities = map identity_row (take 16 (object_rows doc ''authIdentities'')),
              as_credentials = map credential_row (take 16 (object_rows doc ''credentials'')),
              as_groups = map group_row (take 32 (object_rows doc ''permissionGroups'')),
              as_permissions = map permission_row (take 32 (object_rows doc ''permissionServices'')),
              as_proof_requirements = reqs, as_loaded = True\<rparr>))"
proof (cases "readable_policy json_load_file path")
  case None
  then show ?thesis by (simp add: create_readable wf_policy_def auth_empty_def)
next
  case (Some doc)
  moreover have "wf_policy (auth_service_create json_load_file path)"
    using load_fits by (simp add: create_readable Some)
  ultimately show ?thesis by (simp add: create_readable load_policy_def table_rows)
qed

section \<open>The decision\<close>

text \<open>The value the last permission row for an address writes.\<close>

definition governing :: "auth_permission list \<Rightarrow> string \<Rightarrow> string option" where
  "governing perms addr = fold (\<lambda>p vn. if pe_lexicon_object p = addr then Some (pe_value_new p) else vn) perms None"

lemma governing_snoc:
  "governing (ps @ [p]) addr = (if pe_lexicon_object p = addr then Some (pe_value_new p) else governing ps addr)"
  by (simp add: governing_def)

lemma governing_Some:
  "governing ps addr = Some v \<longleftrightarrow>
     (\<exists>xs p ys. ps = xs @ p # ys \<and> pe_lexicon_object p = addr \<and> pe_value_new p = v
        \<and> (\<forall>q \<in> set ys. pe_lexicon_object q \<noteq> addr))"
proof (induction ps rule: rev_induct)
  case Nil
  show ?case by (simp add: governing_def)
next
  case (snoc p ps)
  show ?case
  proof (cases "pe_lexicon_object p = addr")
    case True
    have "q = p" if "ps @ [p] = xs @ q # ys" "\<forall>r \<in> set ys. pe_lexicon_object r \<noteq> addr" for xs q ys
      using that True by (cases ys rule: rev_cases) auto
    then show ?thesis using True unfolding governing_snoc by fastforce
  next
    case False
    have "(\<exists>xs q ys. ps @ [p] = xs @ q # ys \<and> pe_lexicon_object q = addr \<and> pe_value_new q = v
            \<and> (\<forall>r \<in> set ys. pe_lexicon_object r \<noteq> addr))
        = (\<exists>xs q ys. ps = xs @ q # ys \<and> pe_lexicon_object q = addr \<and> pe_value_new q = v
            \<and> (\<forall>r \<in> set ys. pe_lexicon_object r \<noteq> addr))" (is "?L = ?R")
    proof
      assume ?L
      then obtain xs q ys where q: "ps @ [p] = xs @ q # ys" "pe_lexicon_object q = addr" "pe_value_new q = v"
          "\<forall>r \<in> set ys. pe_lexicon_object r \<noteq> addr" by blast
      then have "ys \<noteq> []" using False by auto
      then obtain zs where "ys = zs @ [p]" "ps = xs @ q # zs"
        using q(1) by (cases ys rule: rev_cases) auto
      then show ?R using q by auto
    next
      assume ?R
      then obtain xs q ys where q: "ps = xs @ q # ys" "pe_lexicon_object q = addr" "pe_value_new q = v"
          "\<forall>r \<in> set ys. pe_lexicon_object r \<noteq> addr" by blast
      show ?L
        by (rule exI[of _ xs], rule exI[of _ q], rule exI[of _ "ys @ [p]"]) (use q False in auto)
    qed
    then show ?thesis using snoc False by (simp add: governing_snoc)
  qed
qed

lemma credential_matches_iff:
  "credential_matches stored presented \<longleftrightarrow> stored = takeWhile (\<lambda>c. c \<noteq> CHR '';'') presented"
proof -
  have "take (length (takeWhile (\<lambda>c. c \<noteq> CHR '';'') presented)) presented = takeWhile (\<lambda>c. c \<noteq> CHR '';'') presented"
    by (rule takeWhile_eq_take[symmetric])
  then show ?thesis unfolding credential_matches_def Let_def by auto
qed

text \<open>Who a presented credential stands for: the first credential row with that secret must be valid,
  and the first class that refers to it is the sender's.\<close>

definition sender_class :: "auth_service_state \<Rightarrow> string \<Rightarrow> auth_class option" where
  "sender_class st info =
     (case List.find (\<lambda>c. cr_info c = takeWhile (\<lambda>c. c \<noteq> CHR '';'') info) (as_credentials st) of
        None \<Rightarrow> None
      | Some cred \<Rightarrow> if cr_valid cred
                     then List.find (\<lambda>c. ac_credential_ref c = cr_cred_id cred) (as_classes st) else None)"

lemma authorize_governing:
  "auth_service_authorize st (Some info) user (Some addr) \<longleftrightarrow>
     as_loaded st \<and> info \<noteq> [] \<and> (\<exists>cls. sender_class st info = Some cls
        \<and> user \<in> {None, Some [], Some (ac_name cls)} \<and> governing (class_permissions st cls) addr = Some ''fl'')"
  by (auto simp: auth_service_authorize_def sender_class_def credential_matches_iff governing_def Let_def
      split: option.splits)

text \<open>C5: The decision, and that it fails closed. A message is authorized for an address exactly
  when a policy is loaded, its credential -- the part of the credential information before the
  first semicolon -- is a valid row's secret that a class refers to, the user name it gives (if any) is that
  class's, and the last permission the class reaches for the address in its current status is 'fl'.\<close>

theorem authorize_iff:
  "auth_service_authorize st (Some info) user (Some addr) \<longleftrightarrow>
     as_loaded st \<and> info \<noteq> []
     \<and> (\<exists>cls. sender_class st info = Some cls
          \<and> user \<in> {None, Some [], Some (ac_name cls)}
          \<and> (\<exists>xs p ys. class_permissions st cls = xs @ p # ys \<and> pe_lexicon_object p = addr
               \<and> pe_value_new p = ''fl'' \<and> (\<forall>q \<in> set ys. pe_lexicon_object q \<noteq> addr)))"
  unfolding authorize_governing by (simp only: governing_Some)

text \<open>An empty secret is open to everyone. Empty credential information is refused, but a
  credential row without a secret ('ci' left out) is met by any information that starts with a
  semicolon, and then everything its class may do is authorized.\<close>

theorem empty_secret_matches_anything:
  assumes "as_loaded st" "as_credentials st = cred # rest" "cr_info cred = []" "cr_valid cred"
    and "List.find (\<lambda>c. ac_credential_ref c = cr_cred_id cred) (as_classes st) = Some cls"
    and "governing (class_permissions st cls) addr = Some ''fl''"
  shows "auth_service_authorize st (Some (CHR '';'' # anything)) None (Some addr)
     \<and> \<not> auth_service_authorize st (Some []) None (Some addr)"
proof -
  have "sender_class st (CHR '';'' # anything) = Some cls"
    using assms(2-5) by (simp add: sender_class_def)
  then have "auth_service_authorize st (Some (CHR '';'' # anything)) None (Some addr)"
    using assms(1,6) by (simp add: authorize_governing)
  then show ?thesis by (simp add: auth_service_authorize_def)
qed

definition open_policy :: auth_service_state where
  "open_policy = auth_empty\<lparr>as_loaded := True,
     as_credentials := [\<lparr>cr_cred_id = 1, cr_method = ''ak'', cr_protocol = ''tl'', cr_info = [],
                         cr_timing = 0, cr_valid = True\<rparr>],
     as_classes := [\<lparr>ac_class_id = 1, ac_name = ''ann'', ac_status = ''au'', ac_identity_ref = 1,
                     ac_group_id = 7, ac_credential_ref = 1\<rparr>],
     as_groups := [\<lparr>gr_group_id = 7, gr_table_type = ''ps'', gr_permission_ref = 3\<rparr>],
     as_permissions := [\<lparr>pe_service_index = 3, pe_status_check = ''au'', pe_device_index = 2,
                         pe_lexicon_object = ''/lx/ob/bm/ot1/o1/at'', pe_value_new = ''fl''\<rparr>]\<rparr>"

theorem authorize_iff_witness:
  "\<not> auth_service_authorize open_policy (Some ''guess'') None (Some ''/lx/ob/bm/ot1/o1/at'')"
proof -
  have "sender_class open_policy ''guess'' = None" by (simp add: sender_class_def open_policy_def)
  then show ?thesis using authorize_iff[of open_policy "''guess''" None "''/lx/ob/bm/ot1/o1/at''"] by simp
qed

theorem empty_secret_matches_anything_witness:
  "auth_service_authorize open_policy (Some '';guess'') None (Some ''/lx/ob/bm/ot1/o1/at'')"
proof -
  define cred where "cred = hd (as_credentials open_policy)"
  define cls where "cls = hd (as_classes open_policy)"
  have "auth_service_authorize open_policy (Some (CHR '';'' # ''guess'')) None (Some ''/lx/ob/bm/ot1/o1/at'')
      \<and> \<not> auth_service_authorize open_policy (Some []) None (Some ''/lx/ob/bm/ot1/o1/at'')"
    by (rule empty_secret_matches_anything[where cred = cred and rest = "[]" and cls = cls])
       (simp_all add: open_policy_def auth_empty_def cred_def cls_def governing_def class_permissions_def
          group_permissions_def)
  then show ?thesis by simp
qed

section \<open>Propagation\<close>

locale at_store =
  fixes put :: "'b \<Rightarrow> string \<Rightarrow> string \<Rightarrow> 'b option"
    and at_of :: "'b \<Rightarrow> string \<Rightarrow> string option"
    and fit :: "string \<Rightarrow> string"
  assumes at_write: "put c a v = Some c' \<Longrightarrow> at_of c' b = (if b = a then Some (fit v) else at_of c b)"
    and write_fails: "put c a v = None \<longleftrightarrow> at_of c a = None"
begin

lemma writes:
  "at_of (fst (fold (write_permission put) ps (c, k))) a =
     (case at_of c a of
        None \<Rightarrow> None
      | Some old \<Rightarrow> Some (case governing ps a of None \<Rightarrow> old | Some v \<Rightarrow> fit v))
   \<and> snd (fold (write_permission put) ps (c, k)) =
       k + length (filter (\<lambda>p. at_of c (pe_lexicon_object p) \<noteq> None) ps)"
proof (induction ps arbitrary: a rule: rev_induct)
  case Nil
  show ?case by (simp add: governing_def split: option.split)
next
  case (snoc p ps)
  obtain c1 k1 where acc: "fold (write_permission put) ps (c, k) = (c1, k1)" by fastforce
  have ih: "at_of c1 b = (case at_of c b of None \<Rightarrow> None
      | Some old \<Rightarrow> Some (case governing ps b of None \<Rightarrow> old | Some v \<Rightarrow> fit v))" for b
    using snoc[of b] acc by simp
  have k1: "k1 = k + length (filter (\<lambda>p. at_of c (pe_lexicon_object p) \<noteq> None) ps)"
    using snoc acc by simp
  have step: "fold (write_permission put) (ps @ [p]) (c, k) =
      (case put c1 (pe_lexicon_object p) (pe_value_new p) of None \<Rightarrow> (c1, k1) | Some c2 \<Rightarrow> (c2, k1 + 1))"
    using acc by (simp add: write_permission_def[of put p])
  show ?case
  proof (cases "put c1 (pe_lexicon_object p) (pe_value_new p)")
    case None
    then have "at_of c (pe_lexicon_object p) = None"
      using write_fails[of c1 "pe_lexicon_object p" "pe_value_new p"] ih[of "pe_lexicon_object p"]
      by (simp split: option.splits)
    then show ?thesis
      using None ih[of a] k1 unfolding step by (auto simp: governing_snoc split: option.split)
  next
    case (Some c2)
    then have "at_of c (pe_lexicon_object p) \<noteq> None"
      using write_fails[of c1 "pe_lexicon_object p" "pe_value_new p"] ih[of "pe_lexicon_object p"]
      by (auto split: option.splits)
    then show ?thesis
      using Some ih[of a] k1 at_write[OF Some, of a]
      unfolding step by (auto simp: governing_snoc split: option.split)
  qed
qed

end

text \<open>Every permission the policy's classes reach, in the order propagation writes them.\<close>

definition all_permissions :: "auth_service_state \<Rightarrow> auth_permission list" where
  "all_permissions st = concat (map (class_permissions st) (as_classes st))"

lemma propagate_fold:
  "auth_service_propagate st write ctx = fold (write_permission write) (all_permissions st) (ctx, 0)"
proof -
  have "fold (\<lambda>cls. fold (write_permission write) (class_permissions st cls)) cs acc
      = fold (write_permission write) (concat (map (class_permissions st) cs)) acc" for cs acc
    by (induction cs arbitrary: acc) simp_all
  then show ?thesis by (simp add: auth_service_propagate_def all_permissions_def)
qed

text \<open>The authorization type an address of the binding map stands for: its first row's.\<close>

definition bm_at_of :: "binding_map \<Rightarrow> string \<Rightarrow> string option" where
  "bm_at_of bm addr = map_option (\<lambda>i. op_out_author_type (bm_ops bm ! i))
     (first_index (\<lambda>op. bm_at_address op HES_PATH_MAX = addr) (bm_ops bm))"

lemma first_index_update:
  assumes "P x = P (xs ! i)"
  shows "first_index P (xs[i := x]) = first_index P xs"
  using assms by (induction xs arbitrary: i) (auto split: nat.splits)

lemma bm_at_of_set_at:
  assumes "bm_set_at bm a v = Some bm'"
  shows "bm_at_of bm' b = (if b = a then Some (hes_strlcpy 4 v) else bm_at_of bm b)"
proof -
  from assms obtain i where i: "first_index (\<lambda>op. bm_at_address op HES_PATH_MAX = a) (bm_ops bm) = Some i"
    and bm': "bm' = bm\<lparr>bm_ops := (bm_ops bm)[i := (bm_ops bm ! i)\<lparr>op_out_author_type := hes_strlcpy 4 v\<rparr>]\<rparr>"
    by (auto simp: bm_set_at_def split: option.splits)
  have same: "first_index (\<lambda>op. bm_at_address op HES_PATH_MAX = b) (bm_ops bm')
      = first_index (\<lambda>op. bm_at_address op HES_PATH_MAX = b) (bm_ops bm)" for b
    unfolding bm' by (simp add: first_index_update bm_at_address_def)
  show ?thesis
  proof (cases "b = a")
    case True
    then show ?thesis using same[of a] i first_index_Some[OF i] by (simp add: bm_at_of_def bm')
  next
    case False
    have "bm_ops bm' ! j = bm_ops bm ! j"
      if "first_index (\<lambda>op. bm_at_address op HES_PATH_MAX = b) (bm_ops bm) = Some j" for j
      using first_index_Some[OF that] first_index_Some[OF i] False by (cases "j = i") (auto simp: bm')
    then show ?thesis using False same[of b] by (auto simp: bm_at_of_def intro: map_option_cong)
  qed
qed

interpretation bm_at: at_store bm_set_at bm_at_of "hes_strlcpy 4"
  by unfold_locales (simp_all add: bm_at_of_set_at, auto simp: bm_set_at_def bm_at_of_def split: option.splits)

lemma propagate_at:
  "bm_at_of (fst (auth_service_propagate st bm_set_at bm)) addr =
     (case bm_at_of bm addr of
        None \<Rightarrow> None
      | Some old \<Rightarrow> Some (case governing (all_permissions st) addr of None \<Rightarrow> old | Some v \<Rightarrow> hes_strlcpy 4 v))"
  unfolding propagate_fold using bm_at.writes[of "all_permissions st" bm 0 addr] by simp

text \<open>Propagation writes the policy into the binding map. Afterwards the authorization type at
  an address is what the last permission any class reaches for it says, and what it was when
  none does; an address no row has is skipped, and the count returned is the permissions whose
  address some row has.\<close>

theorem propagate_last_match:
  "bm_at_of (fst (auth_service_propagate st bm_set_at bm)) addr =
     (case bm_at_of bm addr of
        None \<Rightarrow> None
      | Some old \<Rightarrow> Some (case governing (all_permissions st) addr of None \<Rightarrow> old | Some v \<Rightarrow> hes_strlcpy 4 v))
   \<and> snd (auth_service_propagate st bm_set_at bm) =
       length (filter (\<lambda>p. bm_at_of bm (pe_lexicon_object p) \<noteq> None) (all_permissions st))"
  using propagate_at bm_at.writes[of "all_permissions st" bm 0 addr] by (simp add: propagate_fold)

text \<open>The two ways a policy is enforced agree. With one class in the policy, a message the
  decision authorizes for an address goes to a row that propagation has set to 'fl', so the
  pre-computed gate and the per-message gate never contradict each other.\<close>

theorem authorized_row_flows:
  assumes "as_classes st = [cls]" "auth_service_authorize st (Some info) user (Some addr)"
    and "bm_at_of bm addr \<noteq> None"
  shows "bm_at_of (fst (auth_service_propagate st bm_set_at bm)) addr = Some ''fl''"
proof -
  have "sender_class st info = Some c \<Longrightarrow> c = cls" for c
    using assms(1) by (auto simp: sender_class_def split: option.splits if_splits)
  then have "governing (all_permissions st) addr = Some ''fl''"
    using assms(1,2) by (auto simp: authorize_governing all_permissions_def)
  then show ?thesis
    using assms(3) by (auto simp: propagate_at hes_strlcpy_take)
qed

theorem authorized_row_flows_witness:
  "bm_at_of (fst (auth_service_propagate open_policy bm_set_at (sample_bm [guarded_op]))) ''/lx/ob/bm/ot1/o1/at''
     = Some ''fl''"
proof (rule authorized_row_flows)
  show "as_classes open_policy = [hd (as_classes open_policy)]" by (simp add: open_policy_def)
  show "auth_service_authorize open_policy (Some '';'') None (Some ''/lx/ob/bm/ot1/o1/at'')"
    by (simp add: auth_service_authorize_def open_policy_def auth_empty_def credential_matches_def
        class_permissions_def group_permissions_def)
  show "bm_at_of (sample_bm [guarded_op]) ''/lx/ob/bm/ot1/o1/at'' \<noteq> None"
    by (simp add: bm_at_of_def sample_bm_def guarded_op_def sample_op_def bm_at_address_def hes_strlcpy_take)
qed

section \<open>Required proofs\<close>

text \<open>A refused proof requirement leaks into the next entry. An entry without a usable id is
  refused, but its address stays in the slot: an entry after it that has no address of its own
  takes it over and is accepted.\<close>

theorem refused_requirement_leaks:
  assumes "length pid = 64" "a \<noteq> []" "length a < HES_PATH_MAX"
  shows "load_requirements [JObj [(''at'', JStr a), (''pi'', JStr ''short'')], JObj [(''pi'', JStr pid)]]
           empty_requirement [] = [\<lparr>pr_at_address = a, pr_public_id = pid\<rparr>]
     \<and> load_requirements [JObj [(''pi'', JStr pid)]] empty_requirement [] = []"
  using assms
  by (simp add: json_is_object_def jobj_str_def empty_requirement_def hes_strlcpy_take Let_def)

theorem refused_requirement_leaks_witness:
  "load_requirements [JObj [(''at'', JStr ''/x''), (''pi'', JStr ''short'')], JObj [(''pi'', JStr (replicate 64 CHR ''a''))]]
     empty_requirement [] = [\<lparr>pr_at_address = ''/x'', pr_public_id = replicate 64 CHR ''a''\<rparr>]"
  using refused_requirement_leaks[of "replicate 64 CHR ''a''" "''/x''"] by simp

section \<open>The service object's answer\<close>

interpretation auth_get: get_object "\<lambda>st m. (auth_on_get st m, st)"
  by unfold_locales (simp_all add: auth_on_get_def Let_def hes_strlcpy_take min_less_iff_disj)

end
