(* ===== verification/Psa.thy ===== *)
theory Psa
  imports CLib
begin

text \<open>
  The PSA Crypto API of Mbed TLS, as far as the cryptographic and the identification service
  call it. It is third-party code: every function is a field of the record \<open>psa\<close>, an
  argument of the definitions that use it. A key handle stands for the attributes and the
  bytes it was imported with, an operation for what was put into it. What the program relies on is stated as
  predicates over the record, hypotheses of the properties that need them.
\<close>

type_synonym bytes = "u8 list"

datatype psa_status =
    PSA_SUCCESS
  | PSA_ERROR_INVALID_ARGUMENT
  | PSA_ERROR_NOT_SUPPORTED
  | PSA_ERROR_INVALID_SIGNATURE
  | PSA_ERROR_GENERIC_ERROR
  | PSA_ERROR_OTHER int

datatype psa_key_type =
    PSA_KEY_TYPE_NONE | PSA_KEY_TYPE_AES | PSA_KEY_TYPE_ARIA | PSA_KEY_TYPE_DERIVE
  | PSA_KEY_TYPE_ECC_KEY_PAIR | PSA_KEY_TYPE_ECC_PUBLIC_KEY

datatype psa_algorithm =
    PSA_ALG_NONE | PSA_ALG_CBC_NO_PADDING | PSA_ALG_CFB | PSA_ALG_CCM | PSA_ALG_GCM
  | PSA_ALG_SHA_256 | PSA_ALG_HKDF_SHA_256 | PSA_ALG_DETERMINISTIC_ECDSA_SHA_256

datatype psa_usage =
    PSA_KEY_USAGE_DECRYPT | PSA_KEY_USAGE_SIGN_HASH | PSA_KEY_USAGE_VERIFY_HASH
  | PSA_KEY_USAGE_EXPORT | PSA_KEY_USAGE_DERIVE

record psa_attributes =
  pa_type :: psa_key_type
  pa_bits :: nat
  pa_usage :: "psa_usage list"
  pa_algorithm :: psa_algorithm

type_synonym psa_key = "psa_attributes \<times> bytes"

datatype psa_derivation_input =
    PSA_KEY_DERIVATION_INPUT_SALT bytes
  | PSA_KEY_DERIVATION_INPUT_SECRET psa_key
  | PSA_KEY_DERIVATION_INPUT_INFO bytes

record psa =
  psa_crypto_init :: psa_status
  psa_import_key :: "psa_attributes \<Rightarrow> bytes \<Rightarrow> psa_status"
  psa_cipher_decrypt_setup :: "psa_key \<Rightarrow> psa_algorithm \<Rightarrow> psa_status"
  psa_cipher_set_iv :: "psa_key \<Rightarrow> psa_algorithm \<Rightarrow> bytes \<Rightarrow> psa_status"
  psa_cipher_update :: "psa_key \<Rightarrow> psa_algorithm \<Rightarrow> bytes \<Rightarrow> bytes \<Rightarrow> nat \<Rightarrow> psa_status \<times> bytes"
  psa_cipher_finish :: "psa_key \<Rightarrow> psa_algorithm \<Rightarrow> bytes \<Rightarrow> bytes \<Rightarrow> nat \<Rightarrow> psa_status \<times> bytes"
  psa_aead_decrypt :: "psa_key \<Rightarrow> psa_algorithm \<Rightarrow> bytes \<Rightarrow> bytes \<Rightarrow> nat \<Rightarrow> psa_status \<times> bytes"
  psa_hash_compute :: "psa_algorithm \<Rightarrow> bytes \<Rightarrow> psa_status \<times> bytes"
  psa_sign_hash :: "psa_key \<Rightarrow> psa_algorithm \<Rightarrow> bytes \<Rightarrow> psa_status \<times> bytes"
  psa_verify_hash :: "psa_key \<Rightarrow> psa_algorithm \<Rightarrow> bytes \<Rightarrow> bytes \<Rightarrow> psa_status"
  psa_export_public_key :: "psa_key \<Rightarrow> psa_status \<times> bytes"
  psa_key_derivation_setup :: "psa_algorithm \<Rightarrow> psa_status"
  psa_key_derivation_input :: "psa_derivation_input list \<Rightarrow> psa_derivation_input \<Rightarrow> psa_status"
  psa_key_derivation_output_bytes :: "psa_derivation_input list \<Rightarrow> nat \<Rightarrow> psa_status \<times> bytes"

end
