(* ===== verification/Hex.thy ===== *)
theory Hex
  imports Psa
begin

text \<open>
  The hexadecimal readers and writers of the cryptographic service (\<open>hex_decode\<close>,
  \<open>hex_encode\<close>, \<open>hex_encode_lower\<close> of services/crypto/crypto.c) and of the identification
  service (\<open>hex_val\<close>, \<open>hex_to_bytes\<close>, \<open>bytes_to_hex\<close> of services/id/id.c). \<open>hex_codec\<close>
  states what a pair of them promises, and gives the round trip.
\<close>

definition hex_digit_lower :: "nat \<Rightarrow> char" where
  "hex_digit_lower d = ''0123456789abcdef'' ! d"

definition hex_digit_upper :: "nat \<Rightarrow> char" where
  "hex_digit_upper d = ''0123456789ABCDEF'' ! d"

section \<open>The identification service's pair\<close>

definition hex_val :: "char \<Rightarrow> int" where
  "hex_val c =
     (let n = of_char c :: int
      in if 48 \<le> n \<and> n \<le> 57 then n - 48
         else if 97 \<le> n \<and> n \<le> 102 then n - 97 + 10
         else if 65 \<le> n \<and> n \<le> 70 then n - 65 + 10
         else - 1)"

text \<open>The text has at least \<open>2 n\<close> characters: its callers validated 64.\<close>

fun hex_to_bytes :: "string \<Rightarrow> nat \<Rightarrow> bytes option" where
  "hex_to_bytes hex 0 = Some []"
| "hex_to_bytes (h # l # hex) (Suc n) =
     (let hi = hex_val h; lo = hex_val l
      in if hi < 0 \<or> lo < 0 then None
         else map_option (Cons (word_of_int (hi * 16 + lo))) (hex_to_bytes hex n))"
| "hex_to_bytes _ (Suc n) = None"

definition bytes_to_hex :: "bytes \<Rightarrow> string" where
  "bytes_to_hex bs = concat (map (\<lambda>b. [hex_digit_lower (unat b div 16), hex_digit_lower (unat b mod 16)]) bs)"

section \<open>The cryptographic service's pair\<close>

text \<open>\<open>sscanf(pair, "%2x", &b)\<close>: white space is skipped, a sign and a \<open>0x\<close> prefix are taken, and
  one hexadecimal digit is enough. The value is the low byte.\<close>

definition sscanf_2x :: "char \<Rightarrow> char \<Rightarrow> u8 option" where
  "sscanf_2x a b =
     (let s = dropWhile c_isspace [a, b]; (neg, t) = sign_split s
      in case t of
           [] \<Rightarrow> None
         | d # r \<Rightarrow>
             if \<not> c_isxdigit d then None
             else
               (let v = (case r of
                           e # _ \<Rightarrow> if c_isxdigit e then hex_val d * 16 + hex_val e else hex_val d
                         | [] \<Rightarrow> hex_val d)
                in Some (word_of_int (if neg then - v else v))))"

fun hex_pairs :: "string \<Rightarrow> bytes option" where
  "hex_pairs (a # b # hex) =
     (case sscanf_2x a b of None \<Rightarrow> None | Some v \<Rightarrow> map_option (Cons v) (hex_pairs hex))"
| "hex_pairs _ = Some []"

definition hex_decode :: "string \<Rightarrow> nat \<Rightarrow> bytes option" where
  "hex_decode hex out_cap =
     (let hex_len = length hex; n = hex_len div 2
      in if hex_len mod 2 \<noteq> 0 then None
         else if n > out_cap then None
         else hex_pairs hex)"

fun hex_loop :: "(nat \<Rightarrow> char) \<Rightarrow> bytes \<Rightarrow> nat \<Rightarrow> string \<Rightarrow> string" where
  "hex_loop digit [] out_cap out = out"
| "hex_loop digit (b # bs) out_cap out =
     (if length out + 2 < out_cap
      then hex_loop digit bs out_cap (out @ [digit (unat b div 16), digit (unat b mod 16)])
      else out)"

definition hex_encode :: "bytes \<Rightarrow> nat \<Rightarrow> string" where
  "hex_encode data out_cap = hex_loop hex_digit_upper data out_cap []"

definition hex_encode_lower :: "bytes \<Rightarrow> nat \<Rightarrow> string" where
  "hex_encode_lower data out_cap = hex_loop hex_digit_lower data out_cap []"

section \<open>Facts on digits\<close>

lemma hex_digit_lower_val:
  assumes "d < 16"
  shows "hex_val (hex_digit_lower d) = int d" "c_isxdigit (hex_digit_lower d)"
    "\<not> c_isspace (hex_digit_lower d)" "c_tolower (hex_digit_lower d) = hex_digit_lower d"
    "hex_digit_lower d \<noteq> CHR ''-''" "hex_digit_lower d \<noteq> CHR ''+''" "hex_digit_lower d \<noteq> CHR '';''"
proof -
  have "list_all (\<lambda>d. hex_val (hex_digit_lower d) = int d \<and> c_isxdigit (hex_digit_lower d)
     \<and> \<not> c_isspace (hex_digit_lower d) \<and> c_tolower (hex_digit_lower d) = hex_digit_lower d
     \<and> hex_digit_lower d \<noteq> CHR ''-'' \<and> hex_digit_lower d \<noteq> CHR ''+'' \<and> hex_digit_lower d \<noteq> CHR '';'') [0 ..< 16]"
    by code_simp
  then show "hex_val (hex_digit_lower d) = int d" "c_isxdigit (hex_digit_lower d)"
    "\<not> c_isspace (hex_digit_lower d)" "c_tolower (hex_digit_lower d) = hex_digit_lower d"
    "hex_digit_lower d \<noteq> CHR ''-''" "hex_digit_lower d \<noteq> CHR ''+''" "hex_digit_lower d \<noteq> CHR '';''"
    using assms by (simp_all add: list_all_iff)
qed

lemma hex_digit_upper_val:
  assumes "d < 16"
  shows "hex_val (hex_digit_upper d) = int d" "c_isxdigit (hex_digit_upper d)"
    "\<not> c_isspace (hex_digit_upper d)" "c_tolower (hex_digit_upper d) = hex_digit_lower d"
    "hex_digit_upper d \<noteq> CHR ''-''" "hex_digit_upper d \<noteq> CHR ''+''" "hex_digit_upper d \<noteq> CHR '';''"
proof -
  have "list_all (\<lambda>d. hex_val (hex_digit_upper d) = int d \<and> c_isxdigit (hex_digit_upper d)
     \<and> \<not> c_isspace (hex_digit_upper d) \<and> c_tolower (hex_digit_upper d) = hex_digit_lower d
     \<and> hex_digit_upper d \<noteq> CHR ''-'' \<and> hex_digit_upper d \<noteq> CHR ''+'' \<and> hex_digit_upper d \<noteq> CHR '';'') [0 ..< 16]"
    by code_simp
  then show "hex_val (hex_digit_upper d) = int d" "c_isxdigit (hex_digit_upper d)"
    "\<not> c_isspace (hex_digit_upper d)" "c_tolower (hex_digit_upper d) = hex_digit_lower d"
    "hex_digit_upper d \<noteq> CHR ''-''" "hex_digit_upper d \<noteq> CHR ''+''" "hex_digit_upper d \<noteq> CHR '';''"
    using assms by (simp_all add: list_all_iff)
qed

lemma unat_less_256: "unat (b :: u8) < 256"
proof -
  have "unat b < 2 ^ LENGTH(8)" by (rule unsigned_less)
  then show ?thesis by simp
qed

lemma byte_nibbles: "unat (b :: u8) div 16 < 16" "unat b mod 16 < 16"
  using unat_less_256[of b] by (simp_all add: less_mult_imp_div_less)

lemma nibbles_byte: "word_of_int (int (unat b div 16) * 16 + int (unat b mod 16)) = (b :: u8)"
proof -
  have "int (unat b div 16) * 16 + int (unat b mod 16) = uint b"
    by (simp add: zdiv_int zmod_int)
  then show ?thesis by simp
qed

lemma sscanf_2x_digits:
  assumes "c_isxdigit h" "c_isxdigit l" "\<not> c_isspace h" "h \<noteq> CHR ''-''" "h \<noteq> CHR ''+''"
  shows "sscanf_2x h l = Some (word_of_int (hex_val h * 16 + hex_val l))"
  using assms by (simp add: sscanf_2x_def sign_split_def)

section \<open>The interface of a codec\<close>

locale hex_codec =
  fixes digit :: "nat \<Rightarrow> char"
    and decode :: "string \<Rightarrow> bytes option"
  assumes decode_Nil: "decode [] = Some []"
    and decode_pair: "x < 16 \<Longrightarrow> y < 16 \<Longrightarrow>
      decode (digit x # digit y # s) = map_option (Cons (word_of_int (int x * 16 + int y))) (decode s)"
begin

definition encode :: "bytes \<Rightarrow> string" where
  "encode bs = concat (map (\<lambda>b. [digit (unat b div 16), digit (unat b mod 16)]) bs)"

lemma encode_length: "length (encode bs) = 2 * length bs"
  by (induction bs) (simp_all add: encode_def)

lemma encode_Cons: "encode (b # bs) = digit (unat b div 16) # digit (unat b mod 16) # encode bs"
  by (simp add: encode_def)

lemma roundtrip: "decode (encode bs) = Some bs"
proof (induction bs)
  case Nil
  show ?case by (simp add: encode_def decode_Nil)
next
  case (Cons b bs)
  then show ?case
    by (simp only: encode_Cons decode_pair[OF byte_nibbles] nibbles_byte) simp
qed

lemma encode_inj:
  assumes "encode bs = encode bs'"
  shows "bs = bs'"
  using roundtrip[of bs] roundtrip[of bs'] unfolding assms by simp

end

lemma hex_pairs_digits:
  assumes "c_isxdigit h" "c_isxdigit l" "\<not> c_isspace h" "h \<noteq> CHR ''-''" "h \<noteq> CHR ''+''"
  shows "hex_pairs (h # l # s) = map_option (Cons (word_of_int (hex_val h * 16 + hex_val l))) (hex_pairs s)"
  using sscanf_2x_digits[OF assms] by simp

interpretation upper_codec: hex_codec hex_digit_upper hex_pairs
  by unfold_locales (simp, simp only: hex_pairs_digits hex_digit_upper_val not_False_eq_True simp_thms)

interpretation lower_codec: hex_codec hex_digit_lower hex_pairs
  by unfold_locales (simp, simp only: hex_pairs_digits hex_digit_lower_val not_False_eq_True simp_thms)

text \<open>The bytes of a text of any even length, as the identification service reads them.\<close>

definition id_decode :: "string \<Rightarrow> bytes option" where
  "id_decode s = hex_to_bytes s (length s div 2)"

interpretation id_codec: hex_codec hex_digit_lower id_decode
  by unfold_locales (simp_all add: id_decode_def hex_digit_lower_val Let_def)

lemma hex_loop_encode:
  "length out + 2 * length bs < out_cap \<Longrightarrow>
   hex_loop digit bs out_cap out = out @ concat (map (\<lambda>b. [digit (unat b div 16), digit (unat b mod 16)]) bs)"
  by (induction bs arbitrary: out) simp_all

lemma hex_encode_fits: "2 * length bs < out_cap \<Longrightarrow> hex_encode bs out_cap = upper_codec.encode bs"
  by (simp add: hex_encode_def hex_loop_encode upper_codec.encode_def)

lemma hex_encode_lower_fits: "2 * length bs < out_cap \<Longrightarrow> hex_encode_lower bs out_cap = lower_codec.encode bs"
  by (simp add: hex_encode_lower_def hex_loop_encode lower_codec.encode_def)

lemma hex_loop_bound:
  "length out < out_cap \<Longrightarrow> length (hex_loop digit bs out_cap out) < out_cap"
  by (induction bs arbitrary: out) simp_all

lemma hex_decode_roundtrip:
  assumes "length bs \<le> out_cap"
  shows "hex_decode (upper_codec.encode bs) out_cap = Some bs"
    and "hex_decode (lower_codec.encode bs) out_cap = Some bs"
  using assms
  by (simp_all add: hex_decode_def upper_codec.encode_length lower_codec.encode_length
      upper_codec.roundtrip lower_codec.roundtrip)

lemma bytes_to_hex_encode: "bytes_to_hex bs = id_codec.encode bs"
  by (simp add: bytes_to_hex_def id_codec.encode_def)

end
