(* ===== verification/Shared.thy ===== *)
theory Shared
  imports Prelude
begin

text \<open>
  A service whose state is shared by the objects at several addresses: one heap block with a
  reference count. \<open>Freed\<close> is the block after \<open>free\<close>; touching it again is the undefined
  behaviour the model reports as \<open>UseAfterFree\<close>. The allocator's answers are an argument.
\<close>

datatype 'st cell = Live nat 'st | Freed

datatype heap_error = UseAfterFree

text \<open>An object's \<open>destroy\<close>: only the last one out scrubs and frees the state.\<close>

definition shared_destroy :: "'st cell \<Rightarrow> heap_error + 'st cell" where
  "shared_destroy c =
     (case c of
        Freed \<Rightarrow> Inl UseAfterFree
      | Live refs st \<Rightarrow> if refs - 1 > 0 then Inr (Live (refs - 1) st) else Inr Freed)"

text \<open>Scrubbing a block and freeing it.\<close>

definition scrub_free :: "'st cell \<Rightarrow> heap_error + 'st cell" where
  "scrub_free c = (case c of Freed \<Rightarrow> Inl UseAfterFree | Live _ _ \<Rightarrow> Inr Freed)"

fun destroy_objects :: "nat \<Rightarrow> 'st cell \<Rightarrow> heap_error + 'st cell" where
  "destroy_objects 0 c = Inr c"
| "destroy_objects (Suc j) c =
     (case shared_destroy c of Inl e \<Rightarrow> Inl e | Inr c' \<Rightarrow> destroy_objects j c')"

text \<open>The loop that makes the \<open>count\<close> objects, from the \<open>i\<close>-th on: how many it made (\<open>None\<close> when
  memory ran out) and what became of the state.\<close>

function create_objects ::
    "(nat \<Rightarrow> bool) \<Rightarrow> nat \<Rightarrow> nat \<Rightarrow> 'st cell \<Rightarrow> heap_error + (nat option \<times> 'st cell)" where
  "create_objects alloc count i c =
     (if i \<ge> count then Inr (Some count, c)
      else if \<not> alloc i then
        (case destroy_objects i c of
           Inl e \<Rightarrow> Inl e
         | Inr c' \<Rightarrow> (case scrub_free c' of Inl e \<Rightarrow> Inl e | Inr c'' \<Rightarrow> Inr (None, c'')))
      else
        (case c of
           Freed \<Rightarrow> Inl UseAfterFree
         | Live refs st \<Rightarrow> create_objects alloc count (i + 1) (Live (refs + 1) st)))"
  by pat_completeness auto
termination
  by (relation "measure (\<lambda>(_, count, i, _). count - i)") auto

declare create_objects.simps [simp del]

lemma destroy_all: "0 < n \<Longrightarrow> destroy_objects n (Live n st) = Inr Freed"
proof (induction n)
  case (Suc n)
  then show ?case by (cases n) (simp_all add: shared_destroy_def)
qed simp

text \<open>What the loop does: it succeeds with one reference for each object when every allocation
  does; it gives the state back when the first one fails; and when a later one fails it frees
  the state twice.\<close>

lemma create_objects_from:
  assumes "i \<le> count" "\<forall>j < i. alloc j"
  shows "create_objects alloc count i (Live i st) =
    (if \<forall>j < count. alloc j then Inr (Some count, Live count st)
     else if \<not> alloc 0 then Inr (None, Freed) else Inl UseAfterFree)"
  using assms
proof (induction "count - i" arbitrary: i)
  case 0
  then show ?case by (subst create_objects.simps) simp
next
  case (Suc n)
  have lt: "i < count" using Suc.hyps(2) by simp
  show ?case
  proof (cases "alloc i")
    case True
    then have "\<forall>j < Suc i. alloc j" using Suc.prems(2) by (auto simp: less_Suc_eq)
    then have "create_objects alloc count (Suc i) (Live (Suc i) st) =
       (if \<forall>j < count. alloc j then Inr (Some count, Live count st)
        else if \<not> alloc 0 then Inr (None, Freed) else Inl UseAfterFree)"
      using Suc.hyps(1)[of "Suc i"] Suc.hyps(2) lt by simp
    then show ?thesis using True lt by (subst create_objects.simps) simp
  next
    case False
    then have "\<not> (\<forall>j < count. alloc j)" using lt by blast
    moreover have "create_objects alloc count i (Live i st) = (if i = 0 then Inr (None, Freed) else Inl UseAfterFree)"
      using False lt destroy_all[of i st] by (subst create_objects.simps) (auto simp: scrub_free_def)
    moreover have "i = 0 \<longleftrightarrow> \<not> alloc 0" using False Suc.prems(2) by (cases i) auto
    ultimately show ?thesis by simp
  qed
qed

lemma create_objects_outcome:
  "create_objects alloc count 0 (Live 0 st) =
     (if \<forall>j < count. alloc j then Inr (Some count, Live count st)
      else if \<not> alloc 0 then Inr (None, Freed) else Inl UseAfterFree)"
  by (rule create_objects_from) simp_all

end
