(* ===== verification/Crypto.thy ===== *)
theory Crypto
  imports Hex HesCommon Dispatch Shared
begin

text \<open>
  The cryptographic service (src/src/services/crypto/crypto.c): the cipher table, decryption
  on behalf of a GET, the identity key's signatures, and the check of a proof a peer
  presents. PSA Crypto is the argument \<open>psa\<close>; a buffer PSA writes to is the bytes it returned.
\<close>

abbreviation CRYPTO_MAX_PAYLOAD :: nat where "CRYPTO_MAX_PAYLOAD \<equiv> 128"
abbreviation CRYPTO_AEAD_NONCE_SIZE :: nat where "CRYPTO_AEAD_NONCE_SIZE \<equiv> 12"
abbreviation CRYPTO_AEAD_TAG_SIZE :: nat where "CRYPTO_AEAD_TAG_SIZE \<equiv> 16"
abbreviation CRYPTO_IDENTITY_EI :: int where "CRYPTO_IDENTITY_EI \<equiv> 100"
abbreviation CRYPTO_IDENTITY_KEY_BYTES :: nat where "CRYPTO_IDENTITY_KEY_BYTES \<equiv> 32"
abbreviation CRYPTO_IDENTITY_SIG_BYTES :: nat where "CRYPTO_IDENTITY_SIG_BYTES \<equiv> 64"
abbreviation CRYPTO_IDENTITY_PUB_BYTES :: nat where "CRYPTO_IDENTITY_PUB_BYTES \<equiv> 65"

record cipher_entry =
  ce_ei :: int
  ce_name_cipher :: string
  ce_key_size :: nat
  ce_mode_cipher :: string
  ce_key :: bytes
  ce_supported :: bool
  ce_internal_bits :: int
  ce_auth_bytes :: int

record crypto_service_state =
  cs_ciphers :: "cipher_entry list"
  cs_identity_scalar :: bytes
  cs_have_identity_key :: bool

section \<open>The cipher table\<close>

definition find_cipher :: "crypto_service_state \<Rightarrow> int \<Rightarrow> cipher_entry option" where
  "find_cipher st ei = List.find (\<lambda>c. ce_ei c = ei) (cs_ciphers st)"

definition parse_ei :: "string \<Rightarrow> int" where
  "parse_ei query = (case strstr ''ei='' query of None \<Rightarrow> - 1 | Some p \<Rightarrow> atoi (drop (p + 3) query))"

definition psa_cipher_key_type :: "cipher_entry \<Rightarrow> psa_key_type" where
  "psa_cipher_key_type c =
     (if ce_name_cipher c = ''ae'' then PSA_KEY_TYPE_AES
      else if ce_name_cipher c = ''ar'' then PSA_KEY_TYPE_ARIA
      else PSA_KEY_TYPE_NONE)"

definition psa_cipher_algorithm :: "cipher_entry \<Rightarrow> psa_algorithm" where
  "psa_cipher_algorithm c =
     (if ce_mode_cipher c = ''cb'' then PSA_ALG_CBC_NO_PADDING
      else if ce_mode_cipher c = ''cf'' then PSA_ALG_CFB
      else if ce_mode_cipher c = ''cc'' then PSA_ALG_CCM
      else if ce_mode_cipher c = ''gc'' then PSA_ALG_GCM
      else PSA_ALG_NONE)"

definition import_key :: "psa \<Rightarrow> cipher_entry \<Rightarrow> psa_status \<times> psa_key" where
  "import_key psa c =
     (let attributes = \<lparr>pa_type = psa_cipher_key_type c, pa_bits = ce_key_size c * 8,
                        pa_usage = [PSA_KEY_USAGE_DECRYPT], pa_algorithm = psa_cipher_algorithm c\<rparr>;
          key = take (ce_key_size c) (ce_key c)
      in (psa_import_key psa attributes key, (attributes, key)))"

section \<open>Decryption\<close>

text \<open>The plaintext replaces the data on success, so it is returned; the data is as it was otherwise.\<close>

definition decrypt_block_or_feedback ::
    "psa \<Rightarrow> bytes \<Rightarrow> cipher_entry \<Rightarrow> psa_status \<times> bytes" where
  "decrypt_block_or_feedback psa data c =
     (if data = [] \<or> (ce_mode_cipher c = ''cb'' \<and> length data mod 16 \<noteq> 0)
      then (PSA_ERROR_INVALID_ARGUMENT, data)
      else if psa_crypto_init psa \<noteq> PSA_SUCCESS then (psa_crypto_init psa, data)
      else
        (let (status, key_id) = import_key psa c
         in if status \<noteq> PSA_SUCCESS then (status, data)
            else
              (let alg = psa_cipher_algorithm c;
                   status = psa_cipher_decrypt_setup psa key_id alg;
                   iv = replicate 16 0;
                   status = (if status = PSA_SUCCESS then psa_cipher_set_iv psa key_id alg iv else status);
                   (status, output) = (if status = PSA_SUCCESS
                                       then psa_cipher_update psa key_id alg iv data 128 else (status, []));
                   (status, finish) = (if status = PSA_SUCCESS
                                       then psa_cipher_finish psa key_id alg iv data (128 - length output)
                                       else (status, []))
               in if status = PSA_SUCCESS \<and> length output + length finish = length data
                  then (PSA_SUCCESS, output @ finish)
                  else (PSA_ERROR_GENERIC_ERROR, data))))"

text \<open>The plaintext and its length; \<open>plaintext_len\<close> is 0 unless \<open>psa_aead_decrypt\<close> sets it.\<close>

definition decrypt_aead :: "psa \<Rightarrow> bytes \<Rightarrow> cipher_entry \<Rightarrow> psa_status \<times> bytes" where
  "decrypt_aead psa data c =
     (if length data \<le> CRYPTO_AEAD_NONCE_SIZE + CRYPTO_AEAD_TAG_SIZE then (PSA_ERROR_INVALID_ARGUMENT, [])
      else if psa_crypto_init psa \<noteq> PSA_SUCCESS then (psa_crypto_init psa, [])
      else
        (let (status, key_id) = import_key psa c
         in if status = PSA_SUCCESS
            then psa_aead_decrypt psa key_id (psa_cipher_algorithm c)
                   (take CRYPTO_AEAD_NONCE_SIZE data) (drop CRYPTO_AEAD_NONCE_SIZE data)
                   (length data - CRYPTO_AEAD_NONCE_SIZE)
            else (status, [])))"

text \<open>\<open>Inl\<close> is the error text to answer with, \<open>Inr\<close> the plaintext.\<close>

definition decrypt_error :: "psa \<Rightarrow> cipher_entry \<Rightarrow> string \<Rightarrow> string + bytes" where
  "decrypt_error psa c payload =
     (if \<not> ce_supported c then Inl ''error:unsupported-cipher''
      else
        (case hex_decode payload CRYPTO_MAX_PAYLOAD of
           None \<Rightarrow> Inl ''error:invalid-parameters''
         | Some data \<Rightarrow>
             if data = [] then Inl ''error:invalid-parameters''
             else if ce_mode_cipher c = ''cc'' \<or> ce_mode_cipher c = ''gc'' then
               (let (status, plaintext) = decrypt_aead psa data c
                in if status = PSA_ERROR_NOT_SUPPORTED then Inl ''error:unsupported-mode''
                   else if status = PSA_ERROR_INVALID_SIGNATURE then Inl ''error:authentication-failed''
                   else if status = PSA_SUCCESS then Inr plaintext
                   else Inl ''error:invalid-parameters'')
             else
               (let (status, plaintext) = decrypt_block_or_feedback psa data c
                in if status = PSA_ERROR_NOT_SUPPORTED then
                     (if ce_name_cipher c = ''ar'' then Inl ''error:unsupported-cipher''
                      else Inl ''error:unsupported-mode'')
                   else if status \<noteq> PSA_SUCCESS then Inl ''error:invalid-parameters''
                   else Inr plaintext)))"

section \<open>The identity key\<close>

definition ecdsa_attributes :: "psa_key_type \<Rightarrow> psa_usage \<Rightarrow> psa_attributes" where
  "ecdsa_attributes type usage =
     \<lparr>pa_type = type, pa_bits = 256, pa_usage = [usage],
      pa_algorithm = PSA_ALG_DETERMINISTIC_ECDSA_SHA_256\<rparr>"

definition sha256_digest :: "psa \<Rightarrow> bytes \<Rightarrow> bytes option" where
  "sha256_digest psa msg =
     (let (status, out) = psa_hash_compute psa PSA_ALG_SHA_256 msg
      in if status \<noteq> PSA_SUCCESS then None else if length out = 32 then Some out else None)"

definition crypto_service_set_identity_key :: "crypto_service_state \<Rightarrow> bytes \<Rightarrow> crypto_service_state" where
  "crypto_service_set_identity_key st priv =
     st\<lparr>cs_identity_scalar := priv, cs_have_identity_key := True\<rparr>"

definition crypto_service_sign :: "psa \<Rightarrow> crypto_service_state \<Rightarrow> bytes \<Rightarrow> bytes option" where
  "crypto_service_sign psa st msg =
     (if \<not> cs_have_identity_key st then None
      else if psa_crypto_init psa \<noteq> PSA_SUCCESS then None
      else
        (case sha256_digest psa msg of
           None \<Rightarrow> None
         | Some digest \<Rightarrow>
             (let attr = ecdsa_attributes PSA_KEY_TYPE_ECC_KEY_PAIR PSA_KEY_USAGE_SIGN_HASH
              in if psa_import_key psa attr (cs_identity_scalar st) \<noteq> PSA_SUCCESS then None
                 else
                   (let (status, sig) = psa_sign_hash psa (attr, cs_identity_scalar st)
                                          PSA_ALG_DETERMINISTIC_ECDSA_SHA_256 digest
                    in if status \<noteq> PSA_SUCCESS \<or> length sig \<noteq> CRYPTO_IDENTITY_SIG_BYTES
                       then None else Some sig))))"

definition crypto_service_public_key :: "psa \<Rightarrow> crypto_service_state \<Rightarrow> bytes option" where
  "crypto_service_public_key psa st =
     (if \<not> cs_have_identity_key st then None
      else if psa_crypto_init psa \<noteq> PSA_SUCCESS then None
      else
        (let attr = ecdsa_attributes PSA_KEY_TYPE_ECC_KEY_PAIR PSA_KEY_USAGE_EXPORT
         in if psa_import_key psa attr (cs_identity_scalar st) \<noteq> PSA_SUCCESS then None
            else
              (let (status, pub) = psa_export_public_key psa (attr, cs_identity_scalar st)
               in if status \<noteq> PSA_SUCCESS \<or> length pub \<noteq> CRYPTO_IDENTITY_PUB_BYTES
                  then None else Some pub)))"

definition crypto_verify_message :: "psa \<Rightarrow> bytes \<Rightarrow> bytes \<Rightarrow> bytes \<Rightarrow> bool" where
  "crypto_verify_message psa pub msg sig =
     (if hd pub \<noteq> 4 then False
      else if psa_crypto_init psa \<noteq> PSA_SUCCESS then False
      else
        (case sha256_digest psa msg of
           None \<Rightarrow> False
         | Some digest \<Rightarrow>
             (let attr = ecdsa_attributes PSA_KEY_TYPE_ECC_PUBLIC_KEY PSA_KEY_USAGE_VERIFY_HASH
              in if psa_import_key psa attr pub \<noteq> PSA_SUCCESS then False
                 else psa_verify_hash psa (attr, pub) PSA_ALG_DETERMINISTIC_ECDSA_SHA_256 digest sig
                        = PSA_SUCCESS)))"

definition crypto_pi_matches :: "bytes \<Rightarrow> string \<Rightarrow> bool" where
  "crypto_pi_matches pub pid =
     (if hd pub \<noteq> 4 \<or> length pid \<noteq> 64 then False
      else list_all (\<lambda>i.
             hex_digit_lower (unat (pub ! (1 + i)) div 16) = c_tolower (pid ! (2 * i))
             \<and> hex_digit_lower (unat (pub ! (1 + i)) mod 16) = c_tolower (pid ! (2 * i + 1))) [0 ..< 32])"

section \<open>Proofs\<close>

text \<open>\<open>None\<close>: absent, or too long for the caller's buffer.\<close>

function proof_field :: "string \<Rightarrow> string \<Rightarrow> nat \<Rightarrow> string option" where
  "proof_field p code out_cap =
     (if p = [] then None
      else
        (let seg = takeWhile (\<lambda>c. c \<noteq> CHR '';'') p;
             rest = dropWhile (\<lambda>c. c \<noteq> CHR '';'') p;
             name = takeWhile (\<lambda>c. c \<noteq> CHR ''='') seg
         in if CHR ''='' \<in> set seg \<and> name = code
            then (let v = drop (length code + 1) seg in if length v \<ge> out_cap then None else Some v)
            else (case rest of [] \<Rightarrow> None | _ # p' \<Rightarrow> proof_field p' code out_cap)))"
  by pat_completeness auto
termination
  by (relation "measure (\<lambda>(p, _, _). length p)") (auto dest: length_dropWhile_less')

declare proof_field.simps [simp del]

definition crypto_proof_message :: "string \<Rightarrow> string \<Rightarrow> nat \<Rightarrow> string" where
  "crypto_proof_message path payload out_cap =
     (if out_cap = 0 then []
      else
        (let out = hes_strlcpy out_cap path; used = length out
         in if used + 1 \<ge> out_cap then out
            else out @ CHR 0x0A # hes_strlcpy (out_cap - (used + 1)) payload))"

definition crypto_verify_proof :: "psa \<Rightarrow> string \<Rightarrow> string \<Rightarrow> bytes \<Rightarrow> bool" where
  "crypto_verify_proof psa cred_info expected_pi msg =
     (case (proof_field cred_info ''pi'' 65,
            proof_field cred_info ''pk'' (CRYPTO_IDENTITY_PUB_BYTES * 2 + 1),
            proof_field cred_info ''sig'' (CRYPTO_IDENTITY_SIG_BYTES * 2 + 1)) of
        (Some pid, Some pk_hex, Some sig_hex) \<Rightarrow>
          (case (hex_decode pk_hex CRYPTO_IDENTITY_PUB_BYTES, hex_decode sig_hex CRYPTO_IDENTITY_SIG_BYTES) of
             (Some pub, Some sig) \<Rightarrow>
               if length pub \<noteq> CRYPTO_IDENTITY_PUB_BYTES \<or> length sig \<noteq> CRYPTO_IDENTITY_SIG_BYTES then False
               else if \<not> crypto_pi_matches pub expected_pi then False
               else if \<not> crypto_pi_matches pub pid then False
               else crypto_verify_message psa pub msg sig
           | _ \<Rightarrow> False)
      | _ \<Rightarrow> False)"

definition crypto_identity_proof ::
    "psa \<Rightarrow> crypto_service_state \<Rightarrow> hes_clme_msg \<Rightarrow> hes_clme_msg" where
  "crypto_identity_proof psa st out =
     (case hex_decode (hes_strlcpy HES_PAYLOAD_MAX (m_payload out)) CRYPTO_MAX_PAYLOAD of
        None \<Rightarrow> hes_msg_set_payload_str out ''error:bad-challenge''
      | Some challenge \<Rightarrow>
          if challenge = [] then hes_msg_set_payload_str out ''error:bad-challenge''
          else
            (case (crypto_service_public_key psa st, crypto_service_sign psa st challenge) of
               (Some pub, Some sig) \<Rightarrow>
                 (let pid = hex_encode_lower (take 32 (drop 1 pub)) 65;
                      pk = hex_encode pub (CRYPTO_IDENTITY_PUB_BYTES * 2 + 1);
                      sig_hex = hex_encode sig (CRYPTO_IDENTITY_SIG_BYTES * 2 + 1);
                      buf = ''pi='' @ pid @ '';pk='' @ pk @ '';sig='' @ sig_hex
                  in if length buf \<ge> HES_PAYLOAD_MAX
                     then hes_msg_set_payload_str out ''error:proof-too-large''
                     else hes_msg_set_payload_str out buf)
             | _ \<Rightarrow> hes_msg_set_payload_str out ''error:no-identity-key''))"

section \<open>The service objects\<close>

definition crypto_on_get :: "psa \<Rightarrow> crypto_service_state \<Rightarrow> hes_clme_msg \<Rightarrow> hes_clme_msg" where
  "crypto_on_get psa st out =
     (let ei = parse_ei (m_query out)
      in case (if ei \<ge> 0 then find_cipher st ei else None) of
           None \<Rightarrow> hes_msg_set_payload_str out ''error:unknown-ei''
         | Some c \<Rightarrow>
             if ce_internal_bits c > 0 then
               (if m_payload_len out > 0 then crypto_identity_proof psa st out
                else hes_msg_set_payload_str out
                       (hes_strlcpy 128 (''ei='' @ dec_int (ce_ei c) @ '';ks='' @ dec_int (int (ce_key_size c))
                          @ '';it='' @ dec_int (ce_internal_bits c) @ '';au='' @ dec_int (ce_auth_bytes c))))
             else if m_payload_len out > 0 then
               (case decrypt_error psa c (m_payload out) of
                  Inl err \<Rightarrow> hes_msg_set_payload_str out err
                | Inr raw \<Rightarrow> hes_msg_set_payload_str out (hex_encode raw 257))
             else hes_msg_set_payload_str out
                    (hes_strlcpy 128 (''ei='' @ dec_int (ce_ei c) @ '';nc='' @ ce_name_cipher c
                       @ '';ks='' @ dec_int (int (ce_key_size c)) @ '';mc='' @ ce_mode_cipher c)))"

definition crypto_config_on_get :: "crypto_service_state \<Rightarrow> hes_clme_msg \<Rightarrow> hes_clme_msg" where
  "crypto_config_on_get st out = hes_msg_set_payload_str out ''vr=1.0.0;rq=ma;si=no''"

definition crypto_on_put :: "crypto_service_state \<Rightarrow> hes_clme_msg \<Rightarrow> crypto_service_state" where
  "crypto_on_put st msg = st"

section \<open>Creating and destroying the objects\<close>

definition cipher_definitions :: "(string \<times> string \<times> bool) list" where
  "cipher_definitions =
     [(''ae'', ''cb'', True), (''ae'', ''cf'', True), (''ae'', ''cc'', True), (''ae'', ''gc'', True),
      (''ar'', ''cb'', True), (''ar'', ''cf'', True), (''ar'', ''cc'', True), (''ar'', ''gc'', True),
      (''bf'', ''cb'', False), (''bf'', ''cc'', False), (''bf'', ''cf'', False), (''bf'', ''gc'', False)]"

definition preset_key :: bytes where
  "preset_key = map of_char ''0123456789ABCDEF''"

definition add_cipher :: "string \<times> string \<times> bool \<Rightarrow> cipher_entry list \<Rightarrow> cipher_entry list" where
  "add_cipher d cs =
     (case d of (nc, mc, ok) \<Rightarrow>
        cs @ [\<lparr>ce_ei = int (length cs) + 1, ce_name_cipher = take 3 nc, ce_key_size = 16,
               ce_mode_cipher = take 3 mc, ce_key = preset_key @ replicate 16 0, ce_supported = ok,
               ce_internal_bits = 0, ce_auth_bytes = 0\<rparr>])"

definition identity_entry :: cipher_entry where
  "identity_entry = \<lparr>ce_ei = CRYPTO_IDENTITY_EI, ce_name_cipher = [], ce_key_size = 32,
     ce_mode_cipher = [], ce_key = replicate 32 0, ce_supported = True, ce_internal_bits = 256,
     ce_auth_bytes = 64\<rparr>"

definition crypto_initial_state :: crypto_service_state where
  "crypto_initial_state =
     \<lparr>cs_ciphers = fold add_cipher cipher_definitions [] @ [identity_entry],
      cs_identity_scalar = replicate 32 0, cs_have_identity_key = False\<rparr>"

text \<open>The references live in the cell. \<open>alloc_state\<close> and \<open>alloc\<close> are the answers of the calls to
  \<open>calloc\<close>, for the state and for each object; \<open>None\<close> is the error return.\<close>

abbreviation CRYPTO_SERVICE_OBJECT_COUNT :: nat where "CRYPTO_SERVICE_OBJECT_COUNT \<equiv> 2"

definition crypto_destroy :: "crypto_service_state cell \<Rightarrow> heap_error + crypto_service_state cell" where
  "crypto_destroy c = shared_destroy c"

definition crypto_service_create ::
    "bool \<Rightarrow> (nat \<Rightarrow> bool) \<Rightarrow> nat \<Rightarrow> heap_error + (nat option \<times> crypto_service_state cell)" where
  "crypto_service_create alloc_state alloc max_out =
     (if max_out < CRYPTO_SERVICE_OBJECT_COUNT then Inr (None, Freed)
      else if \<not> alloc_state then Inr (None, Freed)
      else create_objects alloc CRYPTO_SERVICE_OBJECT_COUNT 0 (Live 0 crypto_initial_state))"

definition crypto_objects :: "psa \<Rightarrow> crypto_service_state service_object list" where
  "crypto_objects psa =
     [\<lparr>so_path = HES_LX_CRYPTO, so_on_get = Some (\<lambda>st m. (crypto_config_on_get st m, st)),
       so_on_put = Some crypto_on_put\<rparr>,
      \<lparr>so_path = HES_LX_CRYPTO_CI, so_on_get = Some (\<lambda>st m. (crypto_on_get psa st m, st)),
       so_on_put = Some crypto_on_put\<rparr>]"

end
