(* ===== verification/CryptoProps.thy ===== *)
theory CryptoProps
  imports Crypto Records
begin

text \<open>
  The properties of the cryptographic service: what its hexadecimal reader takes, what a
  presented proof must satisfy, that the service's own proofs satisfy it, the framing of the
  signed message, what the capability reports show, and the service's allocation path.
\<close>

interpretation crypto_get: get_object "\<lambda>st m. (crypto_on_get psa st m, st)" for psa
  by unfold_locales
    (auto simp: crypto_on_get_def crypto_identity_proof_def Let_def hes_strlcpy_take min_less_iff_disj
      split: option.split sum.split)

interpretation crypto_config: get_object "\<lambda>st m. (crypto_config_on_get st m, st)"
  by unfold_locales (simp_all add: crypto_config_on_get_def hes_strlcpy_take)

section \<open>Reading hexadecimal\<close>

text \<open>\<open>hex_decode\<close> takes more than hexadecimal. It is meant to refuse a character that is not
  a hexadecimal digit, but a pair passes when one digit can be read from it: any character
  after a digit is dropped, a blank before it is skipped, and a minus sign negates the byte.\<close>

theorem hex_decode_lenient:
  assumes "c_isxdigit d" "\<not> c_isxdigit c" "1 \<le> cap"
  shows "hex_decode [d, c] cap = Some [word_of_int (hex_val d)]
     \<and> hex_decode [CHR '' '', d] cap = Some [word_of_int (hex_val d)]
     \<and> hex_decode [CHR ''-'', d] cap = Some [word_of_int (- hex_val d)]"
proof -
  have d: "\<not> c_isspace d" "d \<noteq> CHR ''-''" "d \<noteq> CHR ''+''"
    using assms(1) by (auto simp: c_isxdigit_def c_isspace_def c_isdigit_def)
  have s: "c_isspace CHR '' ''" "\<not> c_isspace CHR ''-''" by code_simp+
  show ?thesis
    using assms d s by (simp add: hex_decode_def sscanf_2x_def sign_split_def)
qed

theorem hex_decode_lenient_witness:
  "hex_decode ''5g'' 128 = Some [5] \<and> hex_decode '' 5'' 128 = Some [5] \<and> hex_decode ''-1'' 128 = Some [255]"
proof -
  have "c_isxdigit CHR ''5''" "\<not> c_isxdigit CHR ''g''" "hex_val CHR ''5'' = 5"
    "c_isxdigit CHR ''1''" "hex_val CHR ''1'' = 1" by code_simp+
  then show ?thesis
    using hex_decode_lenient[of "CHR ''5''" "CHR ''g''" 128] hex_decode_lenient[of "CHR ''1''" "CHR ''g''" 128]
    by simp
qed

section \<open>Proofs\<close>

lemma proof_field_data:
  assumes "plain_data kvs"
  shows "proof_field (payload_of kvs) w cap =
    (case map_of kvs w of Some v \<Rightarrow> if length v < cap then Some v else None | None \<Rightarrow> None)"
  using assms
proof (induction kvs)
  case Nil
  show ?case by (simp add: proof_field.simps)
next
  case (Cons kv kvs)
  obtain k v where kv: "kv = (k, v)" by (cases kv)
  have plain: "k \<noteq> []" "plain_data kvs" "plain_data ((k, v) # kvs)"
    using Cons.prems(1) by (auto simp: plain_data_def kv)
  let ?p = "payload_of ((k, v) # kvs)"
  show ?case
    using Cons.IH[OF plain(2)] plain(1)
    unfolding kv proof_field.simps[of ?p] Let_def payload_segment[OF plain(3)]
    by (auto simp: proof_field.simps[of "[]"] split: list.split option.split)
qed

text \<open>The identity a public key names: the lower-case hexadecimal of its X coordinate.\<close>

definition key_identity :: "bytes \<Rightarrow> string" where
  "key_identity pub = bytes_to_hex (take 32 (drop 1 pub))"

lemma concat_pairs_nth:
  assumes "\<And>x. length (f x) = 2" "i < length xs"
  shows "concat (map f xs) ! (2 * i) = f (xs ! i) ! 0 \<and> concat (map f xs) ! (2 * i + 1) = f (xs ! i) ! 1"
  using assms(2)
proof (induction xs arbitrary: i)
  case (Cons x xs)
  then show ?case by (cases i) (auto simp: nth_append assms(1))
qed simp

lemma pi_matches_iff:
  assumes "length pub = 65"
  shows "crypto_pi_matches pub pid \<longleftrightarrow> hd pub = 4 \<and> map c_tolower pid = key_identity pub"
proof -
  let ?f = "\<lambda>b. [hex_digit_lower (unat b div 16), hex_digit_lower (unat (b :: u8) mod 16)]"
  let ?x = "take 32 (drop 1 pub)"
  have x: "length ?x = 32" "\<And>i. i < 32 \<Longrightarrow> ?x ! i = pub ! (1 + i)" using assms by simp_all
  have id: "key_identity pub = concat (map ?f ?x)" by (simp add: key_identity_def bytes_to_hex_def)
  have len: "length (key_identity pub) = 64"
    using id_codec.encode_length[of ?x] x(1) by (simp add: key_identity_def bytes_to_hex_encode)
  have at: "key_identity pub ! (2 * i) = hex_digit_lower (unat (pub ! (1 + i)) div 16)
      \<and> key_identity pub ! (2 * i + 1) = hex_digit_lower (unat (pub ! (1 + i)) mod 16)" if "i < 32" for i
    using concat_pairs_nth[of ?f i ?x] that x unfolding id by simp
  have "map c_tolower pid = key_identity pub \<longleftrightarrow>
      length pid = 64 \<and> (\<forall>k < 64. c_tolower (pid ! k) = key_identity pub ! k)"
    using len by (auto simp: list_eq_iff_nth_eq)
  also have "\<dots> \<longleftrightarrow> length pid = 64 \<and> (\<forall>i < 32. c_tolower (pid ! (2 * i)) = key_identity pub ! (2 * i)
        \<and> c_tolower (pid ! (2 * i + 1)) = key_identity pub ! (2 * i + 1))"
  proof -
    have "(\<forall>k < 64. Q k) \<longleftrightarrow> (\<forall>i < 32. Q (2 * i) \<and> Q (2 * i + 1))" for Q :: "nat \<Rightarrow> bool"
    proof
      assume r: "\<forall>i < 32. Q (2 * i) \<and> Q (2 * i + 1)"
      show "\<forall>k < 64. Q k"
      proof (intro allI impI)
        fix k :: nat assume "k < 64"
        then have "k div 2 < 32" "k = 2 * (k div 2) \<or> k = 2 * (k div 2) + 1" by presburger+
        then show "Q k" using r by metis
      qed
    qed auto
    then show ?thesis by simp
  qed
  finally have eq: "map c_tolower pid = key_identity pub \<longleftrightarrow> length pid = 64
      \<and> (\<forall>i < 32. c_tolower (pid ! (2 * i)) = key_identity pub ! (2 * i)
        \<and> c_tolower (pid ! (2 * i + 1)) = key_identity pub ! (2 * i + 1))" .
  have at2: "key_identity pub ! Suc (2 * i) = hex_digit_lower (unat (pub ! Suc i) mod 16)" if "i < 32" for i
    using at[OF that] by simp
  show ?thesis
    unfolding eq by (auto simp: crypto_pi_matches_def list_all_iff at at2)
qed

text \<open>The signature of a message under a public key, as \<open>crypto_verify_message\<close> has PSA check it.\<close>

definition signed_by :: "psa \<Rightarrow> bytes \<Rightarrow> bytes \<Rightarrow> bytes \<Rightarrow> bool" where
  "signed_by psa pub msg sig \<longleftrightarrow>
     psa_crypto_init psa = PSA_SUCCESS
     \<and> (\<exists>digest. psa_hash_compute psa PSA_ALG_SHA_256 msg = (PSA_SUCCESS, digest) \<and> length digest = 32
          \<and> (let attr = ecdsa_attributes PSA_KEY_TYPE_ECC_PUBLIC_KEY PSA_KEY_USAGE_VERIFY_HASH
             in psa_import_key psa attr pub = PSA_SUCCESS
                \<and> psa_verify_hash psa (attr, pub) PSA_ALG_DETERMINISTIC_ECDSA_SHA_256 digest sig = PSA_SUCCESS))"

lemma verify_message_iff: "crypto_verify_message psa pub msg sig \<longleftrightarrow> hd pub = 4 \<and> signed_by psa pub msg sig"
  by (auto simp: crypto_verify_message_def signed_by_def sha256_digest_def Let_def
      split: option.split prod.split)

lemma verify_proof_fields:
  "crypto_verify_proof psa cred expected msg \<longleftrightarrow>
     (\<exists>pid pk sg pub sig. proof_field cred ''pi'' 65 = Some pid
        \<and> proof_field cred ''pk'' 131 = Some pk \<and> proof_field cred ''sig'' 129 = Some sg
        \<and> hex_decode pk 65 = Some pub \<and> hex_decode sg 64 = Some sig
        \<and> length pub = 65 \<and> length sig = 64 \<and> crypto_pi_matches pub expected
        \<and> crypto_pi_matches pub pid \<and> crypto_verify_message psa pub msg sig)"
  by (cases "proof_field cred ''pi'' 65"; cases "proof_field cred ''pk'' 131";
      cases "proof_field cred ''sig'' 129"; simp add: crypto_verify_proof_def split: option.split) blast

text \<open>C6: What a proof proves. \<open>crypto_verify_proof\<close> accepts credential information exactly when it
  carries an identity, a 65-byte key and a 64-byte signature, the key is the one both the
  claimed and the expected identity name (its X coordinate, in either case of letters), and
  PSA verifies the signature of the message's SHA-256 under that very key.\<close>

theorem verify_proof_iff:
  "crypto_verify_proof psa cred expected msg \<longleftrightarrow>
     (\<exists>pid pk sg pub sig. proof_field cred ''pi'' 65 = Some pid
        \<and> proof_field cred ''pk'' 131 = Some pk \<and> proof_field cred ''sig'' 129 = Some sg
        \<and> hex_decode pk 65 = Some pub \<and> hex_decode sg 64 = Some sig
        \<and> length pub = 65 \<and> length sig = 64 \<and> hd pub = 4
        \<and> map c_tolower pid = key_identity pub \<and> map c_tolower expected = key_identity pub
        \<and> signed_by psa pub msg sig)"
proof -
  have "crypto_pi_matches pub expected \<and> crypto_pi_matches pub pid \<and> crypto_verify_message psa pub msg sig
      \<longleftrightarrow> hd pub = 4 \<and> map c_tolower pid = key_identity pub \<and> map c_tolower expected = key_identity pub
        \<and> signed_by psa pub msg sig" if "length pub = 65" for pub pid sig
    using that by (auto simp: pi_matches_iff verify_message_iff)
  then show ?thesis unfolding verify_proof_fields by meson
qed

text \<open>What the program relies on in PSA's ECDSA: a key pair can be imported, signs, exports an
  uncompressed point, and that point verifies what the key pair signed.\<close>

definition ecdsa_works :: "psa \<Rightarrow> bytes \<Rightarrow> bytes \<Rightarrow> bool" where
  "ecdsa_works psa scalar pub \<longleftrightarrow>
     psa_crypto_init psa = PSA_SUCCESS
     \<and> (\<forall>msg. fst (psa_hash_compute psa PSA_ALG_SHA_256 msg) = PSA_SUCCESS
            \<and> length (snd (psa_hash_compute psa PSA_ALG_SHA_256 msg)) = 32)
     \<and> psa_import_key psa (ecdsa_attributes PSA_KEY_TYPE_ECC_KEY_PAIR PSA_KEY_USAGE_SIGN_HASH) scalar = PSA_SUCCESS
     \<and> psa_import_key psa (ecdsa_attributes PSA_KEY_TYPE_ECC_KEY_PAIR PSA_KEY_USAGE_EXPORT) scalar = PSA_SUCCESS
     \<and> psa_import_key psa (ecdsa_attributes PSA_KEY_TYPE_ECC_PUBLIC_KEY PSA_KEY_USAGE_VERIFY_HASH) pub = PSA_SUCCESS
     \<and> psa_export_public_key psa (ecdsa_attributes PSA_KEY_TYPE_ECC_KEY_PAIR PSA_KEY_USAGE_EXPORT, scalar)
         = (PSA_SUCCESS, pub)
     \<and> length pub = 65 \<and> hd pub = 4
     \<and> (\<forall>digest. length digest = 32 \<longrightarrow>
          (\<exists>sig. psa_sign_hash psa (ecdsa_attributes PSA_KEY_TYPE_ECC_KEY_PAIR PSA_KEY_USAGE_SIGN_HASH, scalar)
                    PSA_ALG_DETERMINISTIC_ECDSA_SHA_256 digest = (PSA_SUCCESS, sig)
             \<and> length sig = 64
             \<and> psa_verify_hash psa (ecdsa_attributes PSA_KEY_TYPE_ECC_PUBLIC_KEY PSA_KEY_USAGE_VERIFY_HASH, pub)
                 PSA_ALG_DETERMINISTIC_ECDSA_SHA_256 digest sig = PSA_SUCCESS))"

lemma hex_text_plain:
  assumes "\<And>d. d < 16 \<Longrightarrow> digit d \<noteq> CHR '';''"
  shows "CHR '';'' \<notin> set (concat (map (\<lambda>b. [digit (unat b div 16), digit (unat (b :: u8) mod 16)]) bs))"
  using assms[OF byte_nibbles(1)] assms[OF byte_nibbles(2)] by (auto simp: eq_commute)

lemma identity_proof_reply:
  assumes psa: "ecdsa_works psa (cs_identity_scalar st) pub" and key: "cs_have_identity_key st"
    and chal: "hex_decode (hes_strlcpy HES_PAYLOAD_MAX (m_payload out)) CRYPTO_MAX_PAYLOAD = Some challenge" "challenge \<noteq> []"
  shows "\<exists>sig. length sig = 64 \<and> signed_by psa pub challenge sig
     \<and> m_payload (crypto_identity_proof psa st out) =
         payload_of [(''pi'', key_identity pub), (''pk'', upper_codec.encode pub), (''sig'', upper_codec.encode sig)]"
proof -
  obtain digest where digest: "psa_hash_compute psa PSA_ALG_SHA_256 challenge = (PSA_SUCCESS, digest)" "length digest = 32"
    using psa unfolding ecdsa_works_def by (metis prod.collapse)
  obtain sig where sig: "psa_sign_hash psa (ecdsa_attributes PSA_KEY_TYPE_ECC_KEY_PAIR PSA_KEY_USAGE_SIGN_HASH, cs_identity_scalar st)
        PSA_ALG_DETERMINISTIC_ECDSA_SHA_256 digest = (PSA_SUCCESS, sig)" "length sig = 64"
      "psa_verify_hash psa (ecdsa_attributes PSA_KEY_TYPE_ECC_PUBLIC_KEY PSA_KEY_USAGE_VERIFY_HASH, pub)
        PSA_ALG_DETERMINISTIC_ECDSA_SHA_256 digest sig = PSA_SUCCESS"
    using psa digest(2) unfolding ecdsa_works_def by blast
  have pub: "length pub = 65" and init: "psa_crypto_init psa = PSA_SUCCESS" using psa by (simp_all add: ecdsa_works_def)
  have sign: "crypto_service_sign psa st challenge = Some sig"
    using psa key digest sig by (simp add: crypto_service_sign_def sha256_digest_def ecdsa_works_def)
  have export: "crypto_service_public_key psa st = Some pub"
    using psa key by (simp add: crypto_service_public_key_def ecdsa_works_def)
  have sgn: "signed_by psa pub challenge sig"
    using psa digest sig(3) by (simp add: signed_by_def ecdsa_works_def)
  have pid: "hex_encode_lower (take 32 (drop 1 pub)) 65 = key_identity pub"
    using pub by (simp add: hex_encode_lower_fits key_identity_def bytes_to_hex_def lower_codec.encode_def)
  have enc: "hex_encode pub 131 = upper_codec.encode pub" "hex_encode sig 129 = upper_codec.encode sig"
    using pub sig(2) by (simp_all add: hex_encode_fits)
  let ?buf = "payload_of [(''pi'', key_identity pub), (''pk'', upper_codec.encode pub), (''sig'', upper_codec.encode sig)]"
  have "length (key_identity pub) = 64"
    using id_codec.encode_length[of "take 32 (drop 1 pub)"] pub by (simp add: key_identity_def bytes_to_hex_encode)
  then have len: "length ?buf = 334"
    using pub sig(2) by (simp add: upper_codec.encode_length)
  have "crypto_identity_proof psa st out = hes_msg_set_payload_str out ?buf"
    using chal sign export pid enc len by (simp add: crypto_identity_proof_def Let_def)
  then have "m_payload (crypto_identity_proof psa st out) = ?buf"
    using len by (simp only: set_payload_frame hes_strlcpy_take) simp
  then show ?thesis using sig(2) sgn by blast
qed

lemma own_proof_accepted_key:
  assumes "ecdsa_works psa (cs_identity_scalar st) pub" "cs_have_identity_key st"
    and "hex_decode (hes_strlcpy HES_PAYLOAD_MAX (m_payload out)) CRYPTO_MAX_PAYLOAD = Some challenge" "challenge \<noteq> []"
  shows "crypto_verify_proof psa (m_payload (crypto_identity_proof psa st out)) (key_identity pub) challenge"
proof -
  obtain sig where sig: "length sig = 64" "signed_by psa pub challenge sig"
    "m_payload (crypto_identity_proof psa st out) =
       payload_of [(''pi'', key_identity pub), (''pk'', upper_codec.encode pub), (''sig'', upper_codec.encode sig)]"
    using identity_proof_reply[OF assms] by blast
  have pub: "length pub = 65" "hd pub = 4" using assms(1) by (simp_all add: ecdsa_works_def)
  have len: "length (key_identity pub) = 64"
    using id_codec.encode_length[of "take 32 (drop 1 pub)"] pub by (simp add: key_identity_def bytes_to_hex_encode)
  let ?kvs = "[(''pi'', key_identity pub), (''pk'', upper_codec.encode pub), (''sig'', upper_codec.encode sig)]"
  have "CHR '';'' \<notin> set (key_identity pub)"
    unfolding key_identity_def bytes_to_hex_def by (rule hex_text_plain) (simp add: hex_digit_lower_val)
  moreover have "CHR '';'' \<notin> set (upper_codec.encode bs)" for bs
    unfolding upper_codec.encode_def by (rule hex_text_plain) (simp add: hex_digit_upper_val)
  ultimately have plain: "plain_data ?kvs" by (simp add: plain_data_def)
  have lower: "map c_tolower (key_identity pub) = key_identity pub"
    unfolding key_identity_def bytes_to_hex_def
    by (simp add: map_concat o_def hex_digit_lower_val byte_nibbles)
  show ?thesis
    unfolding verify_proof_fields sig(3) proof_field_data[OF plain]
    using len pub sig(1,2) lower pi_matches_iff[OF pub(1)] verify_message_iff hex_decode_roundtrip(1)[of pub 65] hex_decode_roundtrip(1)[of sig 64]
    by (simp add: upper_codec.encode_length)
qed

text \<open>The gateway's own proofs convince. Challenged with up to 128 bytes, a gateway that holds
  an identity key answers with a proof that \<open>crypto_verify_proof\<close> accepts for that challenge
  and the identity its key names; the answer always fits the message.\<close>

theorem own_proof_accepted:
  assumes "ecdsa_works psa (cs_identity_scalar st) pub" "cs_have_identity_key st"
    and "hex_decode (hes_strlcpy HES_PAYLOAD_MAX (m_payload out)) CRYPTO_MAX_PAYLOAD = Some challenge" "challenge \<noteq> []"
  shows "crypto_verify_proof psa (m_payload (crypto_identity_proof psa st out)) (key_identity pub) challenge"
  using own_proof_accepted_key[OF assms] .

text \<open>A PSA for the witness: one key, one signature.\<close>

definition toy_psa :: psa where
  "toy_psa =
     \<lparr>psa_crypto_init = PSA_SUCCESS, psa_import_key = (\<lambda>_ _. PSA_SUCCESS),
      psa_cipher_decrypt_setup = (\<lambda>_ _. PSA_ERROR_NOT_SUPPORTED), psa_cipher_set_iv = (\<lambda>_ _ _. PSA_SUCCESS),
      psa_cipher_update = (\<lambda>_ _ _ d _. (PSA_SUCCESS, d)), psa_cipher_finish = (\<lambda>_ _ _ _ _. (PSA_SUCCESS, [])),
      psa_aead_decrypt = (\<lambda>_ _ _ d _. (PSA_SUCCESS, take (length d - 16) d)),
      psa_hash_compute = (\<lambda>_ _. (PSA_SUCCESS, replicate 32 0)),
      psa_sign_hash = (\<lambda>_ _ _. (PSA_SUCCESS, replicate 64 1)),
      psa_verify_hash = (\<lambda>_ _ _ s. if s = replicate 64 1 then PSA_SUCCESS else PSA_ERROR_INVALID_SIGNATURE),
      psa_export_public_key = (\<lambda>_. (PSA_SUCCESS, 4 # replicate 64 0)),
      psa_key_derivation_setup = (\<lambda>_. PSA_SUCCESS), psa_key_derivation_input = (\<lambda>_ _. PSA_SUCCESS),
      psa_key_derivation_output_bytes = (\<lambda>_ n. (PSA_SUCCESS, replicate n 7))\<rparr>"

theorem own_proof_accepted_witness:
  "crypto_verify_proof toy_psa
     (m_payload (crypto_identity_proof toy_psa
        (crypto_service_set_identity_key crypto_initial_state (replicate 32 7))
        (hes_msg_set_payload_str hes_msg_init ''C0FFEE'')))
     (key_identity (4 # replicate 64 0)) [0xC0, 0xFF, 0xEE]"
proof (rule own_proof_accepted)
  show "ecdsa_works toy_psa
      (cs_identity_scalar (crypto_service_set_identity_key crypto_initial_state (replicate 32 7))) (4 # replicate 64 0)"
    by (simp add: ecdsa_works_def toy_psa_def)
  have "hex_decode ''C0FFEE'' 128 = Some [0xC0, 0xFF, 0xEE]" by code_simp
  then show "hex_decode (hes_strlcpy HES_PAYLOAD_MAX (m_payload (hes_msg_set_payload_str hes_msg_init ''C0FFEE'')))
      CRYPTO_MAX_PAYLOAD = Some [0xC0, 0xFF, 0xEE]" by (simp add: hes_strlcpy_take)
qed (simp_all add: crypto_service_set_identity_key_def)

section \<open>The message a proof signs\<close>

text \<open>The framing separates the address from the payload. As long as addresses have no line
  feed and the message fits, two (address, payload) pairs are signed alike only when they are
  the same, so a proof for one command does not carry over to another.\<close>

theorem proof_message_injective:
  assumes "CHR 0x0A \<notin> set path" "CHR 0x0A \<notin> set path'"
    and "length path + 1 + length payload < cap" "length path' + 1 + length payload' < cap"
    and "crypto_proof_message path payload cap = crypto_proof_message path' payload' cap"
  shows "path = path' \<and> payload = payload'"
proof -
  have fits: "crypto_proof_message p q cap = p @ CHR 0x0A # q" if "length p + 1 + length q < cap" for p q
    using that by (simp add: crypto_proof_message_def hes_strlcpy_take Let_def)
  have eq: "path @ CHR 0x0A # payload = path' @ CHR 0x0A # payload'"
    using assms(3-5) by (simp add: fits)
  then have "path = path'"
    using takeWhile_to[OF assms(1), of payload] takeWhile_to[OF assms(2), of payload'] by simp
  then show ?thesis using eq by simp
qed

theorem proof_message_injective_witness:
  "crypto_proof_message ''/lx/a'' ''1'' 64 \<noteq> crypto_proof_message ''/lx/a'' ''0'' 64"
  using proof_message_injective[of "''/lx/a''" "''/lx/a''" "''1''" 64 "''0''"] by auto

text \<open>Without that, it does not. An address with a line feed in it -- nothing refuses one on the
  bus -- moves the border: the proof of a payload for one address is a proof of another payload
  for another address.\<close>

theorem proof_message_ambiguous:
  assumes "length a + length b + length c + 2 < cap"
  shows "crypto_proof_message (a @ CHR 0x0A # b) c cap = crypto_proof_message a (b @ CHR 0x0A # c) cap"
  using assms by (simp add: crypto_proof_message_def hes_strlcpy_take Let_def)

theorem proof_message_ambiguous_witness:
  "crypto_proof_message (''/lx'' @ CHR 0x0A # ''on'') ''1'' 64 = crypto_proof_message ''/lx'' (''on'' @ CHR 0x0A # ''1'') 64"
  using proof_message_ambiguous[of "''/lx''" "''on''" "''1''" 64] by simp

section \<open>What a GET shows\<close>

definition without_keys :: "crypto_service_state \<Rightarrow> cipher_entry list" where
  "without_keys st = map (\<lambda>c. c\<lparr>ce_key := []\<rparr>) (cs_ciphers st)"

lemma find_cipher_without:
  assumes "without_keys st = without_keys st'"
  shows "map_option (\<lambda>c. c\<lparr>ce_key := []\<rparr>) (find_cipher st ei) = map_option (\<lambda>c. c\<lparr>ce_key := []\<rparr>) (find_cipher st' ei)"
proof -
  have "map_option (\<lambda>c. c\<lparr>ce_key := []\<rparr>) (List.find (\<lambda>c. ce_ei c = ei) cs)
      = List.find (\<lambda>c. ce_ei c = ei) (map (\<lambda>c. c\<lparr>ce_key := []\<rparr>) cs)" for cs
    by (induction cs) simp_all
  then show ?thesis using assms unfolding find_cipher_def without_keys_def by metis
qed

text \<open>A capability report shows no secret. What a GET without a payload is answered with does
  not depend on any key of the table nor on the identity key.\<close>

theorem capability_hides_keys:
  assumes "without_keys st = without_keys st'" "m_payload_len out = 0"
  shows "crypto_on_get psa st out = crypto_on_get psa st' out"
proof -
  have same: "c = c' \<or> ce_ei c = ce_ei c' \<and> ce_name_cipher c = ce_name_cipher c' \<and> ce_key_size c = ce_key_size c'
      \<and> ce_mode_cipher c = ce_mode_cipher c' \<and> ce_internal_bits c = ce_internal_bits c'
      \<and> ce_auth_bytes c = ce_auth_bytes c'" if "c\<lparr>ce_key := []\<rparr> = c'\<lparr>ce_key := []\<rparr>" for c c' :: cipher_entry
    using that by (cases c; cases c') simp
  show ?thesis
    using find_cipher_without[OF assms(1), of "parse_ei (m_query out)"] assms(2)
    by (cases "find_cipher st (parse_ei (m_query out))"; cases "find_cipher st' (parse_ei (m_query out))")
       (auto simp: crypto_on_get_def Let_def dest!: same)
qed

theorem capability_hides_keys_witness:
  "crypto_on_get toy_psa crypto_initial_state (hes_msg_init\<lparr>m_query := ''ei=1''\<rparr>)
     = crypto_on_get toy_psa (crypto_service_set_identity_key crypto_initial_state (replicate 32 7))
         (hes_msg_init\<lparr>m_query := ''ei=1''\<rparr>)"
  by (rule capability_hides_keys) (simp_all add: without_keys_def crypto_service_set_identity_key_def)

text \<open>The refusal of a mode is not reported. When PSA takes the key but not the mode (its
  \<open>psa_cipher_decrypt_setup\<close> answers NOT_SUPPORTED), the caller is told "invalid-parameters":
  the status is overwritten before it is looked at, and "unsupported-mode" is never answered.\<close>

theorem unsupported_mode_lost:
  assumes "ce_supported c" "ce_mode_cipher c \<in> {''cb'', ''cf''}" "hex_decode payload CRYPTO_MAX_PAYLOAD = Some data"
    and "psa_crypto_init psa = PSA_SUCCESS" "fst (import_key psa c) = PSA_SUCCESS"
    and "psa_cipher_decrypt_setup psa (snd (import_key psa c)) (psa_cipher_algorithm c) = PSA_ERROR_NOT_SUPPORTED"
  shows "decrypt_error psa c payload = Inl ''error:invalid-parameters''"
proof -
  obtain key where key: "import_key psa c = (PSA_SUCCESS, key)" using assms(5) by (metis prod.collapse)
  have "fst (decrypt_block_or_feedback psa data c) \<in> {PSA_ERROR_INVALID_ARGUMENT, PSA_ERROR_GENERIC_ERROR}"
    using assms(4,6) key by (simp add: decrypt_block_or_feedback_def Let_def)
  then show ?thesis
    using assms(1-3) by (auto simp: decrypt_error_def Let_def split: prod.split)
qed

theorem unsupported_mode_lost_witness:
  "decrypt_error toy_psa (hd (cs_ciphers crypto_initial_state)) ''00112233445566778899AABBCCDDEEFF''
     = Inl ''error:invalid-parameters''"
proof (rule unsupported_mode_lost)
  show "hex_decode ''00112233445566778899AABBCCDDEEFF'' CRYPTO_MAX_PAYLOAD =
      Some [0x00, 0x11, 0x22, 0x33, 0x44, 0x55, 0x66, 0x77, 0x88, 0x99, 0xAA, 0xBB, 0xCC, 0xDD, 0xEE, 0xFF]"
    by code_simp
qed (simp_all add: toy_psa_def import_key_def crypto_initial_state_def cipher_definitions_def add_cipher_def)

section \<open>Allocation\<close>

text \<open>Creating the service's objects. With memory for everything the two objects share one state;
  without memory for the state or the first object nothing is left behind; and when memory
  runs out at the second object, the state, already freed with the first one, is scrubbed and
  freed again.\<close>

theorem crypto_create_outcome:
  "crypto_service_create True alloc 2 =
     (if alloc 0 \<and> alloc 1 then Inr (Some 2, Live 2 crypto_initial_state)
      else if \<not> alloc 0 then Inr (None, Freed) else Inl UseAfterFree)"
proof -
  have "(\<forall>j < 2. alloc j) \<longleftrightarrow> alloc 0 \<and> alloc (1::nat)"
    by (metis One_nat_def Suc_1 less_2_cases less_Suc_eq zero_less_Suc)
  then show ?thesis by (simp add: crypto_service_create_def create_objects_outcome)
qed

end
