(* ===== verification/Id.thy ===== *)
theory Id
  imports Hex Json HesCommon Dispatch Shared
begin

text \<open>
  The identification service (src/src/services/id/id.c): the identity document, the derivation
  of the identity key from the fingerprint, the objects' answers and the hand-over of the key.
  The host's inventory callback is its answer, \<open>None\<close> when no source is set.
\<close>

abbreviation ID_HEX_CHARS :: nat where "ID_HEX_CHARS \<equiv> 64"
abbreviation ID_VALUE_MAX :: nat where "ID_VALUE_MAX \<equiv> 65"
abbreviation ID_VERSION_MAX :: nat where "ID_VERSION_MAX \<equiv> 16"
abbreviation ID_SYSNUM_MAX :: nat where "ID_SYSNUM_MAX \<equiv> 16"
abbreviation ID_DESC_MAX :: nat where "ID_DESC_MAX \<equiv> 64"
abbreviation ID_CLASS_MAX :: nat where "ID_CLASS_MAX \<equiv> 8"
abbreviation ID_IDENTITY_KEY_BYTES :: nat where "ID_IDENTITY_KEY_BYTES \<equiv> 32"
abbreviation ID_MAX_BINDING_MAPS :: nat where "ID_MAX_BINDING_MAPS \<equiv> 8"
abbreviation ID_KEY_TRIES :: nat where "ID_KEY_TRIES \<equiv> 4"
abbreviation ID_SERVICE_OBJECT_COUNT :: nat where "ID_SERVICE_OBJECT_COUNT \<equiv> 3"

record id_binding_map =
  ib_module_type :: string
  ib_module_ref_index :: u32
  ib_net_ref_index :: u32
  ib_address :: string

record id_inventory =
  iv_hans_number :: int
  iv_wans_number :: int
  iv_service_modules_number :: int
  iv_binding_maps :: "id_binding_map list"

record id_service_state =
  is_unique_public_id :: string
  is_digital_fingerprint :: string
  is_hes_clme_ver :: string
  is_hes_system_number :: string
  is_public_description :: string
  is_gateway_class :: string
  is_vulnerability :: int
  is_adverse_impact :: int
  is_likelihood :: int
  is_risk_level :: int
  is_identity_scalar :: bytes
  is_have_identity_key :: bool

definition id_zero :: id_service_state where
  "id_zero = \<lparr>is_unique_public_id = [], is_digital_fingerprint = [], is_hes_clme_ver = [],
     is_hes_system_number = [], is_public_description = [], is_gateway_class = [],
     is_vulnerability = 0, is_adverse_impact = 0, is_likelihood = 0, is_risk_level = 0,
     is_identity_scalar = replicate 32 0, is_have_identity_key = False\<rparr>"

definition empty_inventory :: id_inventory where
  "empty_inventory = \<lparr>iv_hans_number = 0, iv_wans_number = 0, iv_service_modules_number = 0,
     iv_binding_maps = []\<rparr>"

section \<open>The document's fields\<close>

definition take_hex256 :: "string option \<Rightarrow> nat \<Rightarrow> string option" where
  "take_hex256 val out_cap =
     (case val of
        None \<Rightarrow> None
      | Some v \<Rightarrow>
          if length v \<noteq> ID_HEX_CHARS \<or> out_cap < ID_VALUE_MAX then None
          else if \<not> list_all c_isxdigit v then None
          else Some (map c_tolower v))"

definition take_optional :: "json \<Rightarrow> string \<Rightarrow> nat \<Rightarrow> string \<Rightarrow> string" where
  "take_optional gw key cap fallback =
     hes_strlcpy cap (case json_string (json_object_get gw key) of Some s \<Rightarrow> s | None \<Rightarrow> fallback)"

definition take_optional_int :: "json \<Rightarrow> string \<Rightarrow> int" where
  "take_optional_int gw key =
     (case json_integer (json_object_get gw key) of Some n \<Rightarrow> if n > 0 then n else 0 | None \<Rightarrow> 0)"

section \<open>The identity key\<close>

definition P256_ORDER :: bytes where
  "P256_ORDER =
     [0xff, 0xff, 0xff, 0xff, 0x00, 0x00, 0x00, 0x00, 0xff, 0xff, 0xff,
      0xff, 0xff, 0xff, 0xff, 0xff, 0xbc, 0xe6, 0xfa, 0xad, 0xa7, 0x17,
      0x9e, 0x84, 0xf3, 0xb9, 0xca, 0xc2, 0xfc, 0x63, 0x25, 0x51]"

text \<open>The subtraction, from the last byte to the first; the lists are in that order.\<close>

fun negate_loop :: "bytes \<Rightarrow> bytes \<Rightarrow> int \<Rightarrow> bytes" where
  "negate_loop (p # ps) (d # ds) borrow =
     (let t = uint p - uint d - borrow
      in if t < 0 then word_of_int (t + 0x100) # negate_loop ps ds 1
         else word_of_int t # negate_loop ps ds 0)"
| "negate_loop _ _ _ = []"

definition scalar_negate :: "bytes \<Rightarrow> bytes" where
  "scalar_negate d = rev (negate_loop (rev P256_ORDER) (rev d) 0)"

definition ID_KEY_SALT :: bytes where
  "ID_KEY_SALT = map of_char ''openhes-id-v1''"

definition hkdf_sha256 :: "psa \<Rightarrow> bytes \<Rightarrow> string \<Rightarrow> nat \<Rightarrow> bytes option" where
  "hkdf_sha256 psa ikm info out_len =
     (if psa_crypto_init psa \<noteq> PSA_SUCCESS then None
      else
        (let attr = \<lparr>pa_type = PSA_KEY_TYPE_DERIVE, pa_bits = 0, pa_usage = [PSA_KEY_USAGE_DERIVE],
                     pa_algorithm = PSA_ALG_HKDF_SHA_256\<rparr>
         in if psa_import_key psa attr ikm \<noteq> PSA_SUCCESS then None
            else
              (let salt = PSA_KEY_DERIVATION_INPUT_SALT ID_KEY_SALT;
                   secret = PSA_KEY_DERIVATION_INPUT_SECRET (attr, ikm);
                   info_in = PSA_KEY_DERIVATION_INPUT_INFO (map of_char info);
                   status = psa_key_derivation_setup psa PSA_ALG_HKDF_SHA_256;
                   status = (if status = PSA_SUCCESS then psa_key_derivation_input psa [] salt else status);
                   status = (if status = PSA_SUCCESS then psa_key_derivation_input psa [salt] secret else status);
                   status = (if status = PSA_SUCCESS
                             then psa_key_derivation_input psa [salt, secret] info_in else status);
                   (status, out) = (if status = PSA_SUCCESS
                                    then psa_key_derivation_output_bytes psa [salt, secret, info_in] out_len
                                    else (status, []))
               in if status \<noteq> PSA_SUCCESS then None else Some out)))"

definition identity_attributes :: psa_attributes where
  "identity_attributes =
     \<lparr>pa_type = PSA_KEY_TYPE_ECC_KEY_PAIR, pa_bits = 256,
      pa_usage = [PSA_KEY_USAGE_EXPORT, PSA_KEY_USAGE_SIGN_HASH],
      pa_algorithm = PSA_ALG_DETERMINISTIC_ECDSA_SHA_256\<rparr>"

text \<open>The public point of a scalar PSA takes; the accepted scalar is the candidate.\<close>

definition public_from_scalar :: "psa \<Rightarrow> bytes \<Rightarrow> bytes option" where
  "public_from_scalar psa candidate =
     (if psa_import_key psa identity_attributes candidate \<noteq> PSA_SUCCESS then None
      else
        (let (status, pub) = psa_export_public_key psa (identity_attributes, candidate)
         in if status \<noteq> PSA_SUCCESS then None
            else if length pub \<noteq> 65 \<or> hd pub \<noteq> 4 then None
            else Some pub))"

definition key_info :: "nat \<Rightarrow> string" where
  "key_info attempt = hes_strlcpy 64 (''openhes-id-p256-v1'' @ ''/'' @ dec_int (int attempt))"

text \<open>The tries that are left, and the attempt's number: the scalar and its point.\<close>

fun derive_tries :: "psa \<Rightarrow> bytes \<Rightarrow> nat \<Rightarrow> nat \<Rightarrow> (bytes \<times> bytes) option" where
  "derive_tries psa fp attempt 0 = None"
| "derive_tries psa fp attempt (Suc left) =
     (case hkdf_sha256 psa fp (key_info attempt) ID_IDENTITY_KEY_BYTES of
        None \<Rightarrow> None
      | Some candidate \<Rightarrow>
          (case public_from_scalar psa candidate of
             Some pub \<Rightarrow> Some (candidate, pub)
           | None \<Rightarrow> derive_tries psa fp (attempt + 1) left))"

definition odd_y :: "bytes \<Rightarrow> bool" where
  "odd_y pub \<longleftrightarrow> odd (unat (pub ! 64))"

definition derive_identity_key :: "psa \<Rightarrow> id_service_state \<Rightarrow> id_service_state option" where
  "derive_identity_key psa st =
     (if psa_crypto_init psa \<noteq> PSA_SUCCESS then None
      else
        (case hex_to_bytes (is_digital_fingerprint st) ID_IDENTITY_KEY_BYTES of
           None \<Rightarrow> None
         | Some fp \<Rightarrow>
             (case derive_tries psa fp 0 ID_KEY_TRIES of
                None \<Rightarrow> None
              | Some (scalar, pub) \<Rightarrow>
                  (case (if odd_y pub
                         then (let negated = scalar_negate scalar
                               in case public_from_scalar psa negated of
                                    None \<Rightarrow> None
                                  | Some pub' \<Rightarrow> if odd_y pub' then None else Some (negated, pub'))
                         else Some (scalar, pub)) of
                     None \<Rightarrow> None
                   | Some (scalar, pub) \<Rightarrow>
                       Some (st\<lparr>is_identity_scalar := scalar,
                                is_unique_public_id := bytes_to_hex (take ID_IDENTITY_KEY_BYTES (drop 1 pub)),
                                is_have_identity_key := True\<rparr>)))))"

definition document_pi_matches :: "string option \<Rightarrow> string \<Rightarrow> bool" where
  "document_pi_matches pid derived =
     (case pid of
        None \<Rightarrow> True
      | Some v \<Rightarrow>
          (case take_hex256 (Some v) ID_VALUE_MAX of
             None \<Rightarrow> False
           | Some given \<Rightarrow> given = derived))"

definition load_identity ::
    "psa \<Rightarrow> (string \<Rightarrow> json option) \<Rightarrow> id_service_state \<Rightarrow> string \<Rightarrow> id_service_state option" where
  "load_identity psa json_load_file st path =
     (case json_load_file path of
        None \<Rightarrow> None
      | Some doc \<Rightarrow>
          (case json_object_get doc ''gatewayIdentity'' of
             None \<Rightarrow> None
           | Some gw \<Rightarrow>
               if \<not> json_is_object gw then None
               else
                 (let pid = json_string (json_object_get gw ''pi'');
                      fp = json_string (json_object_get gw ''fp'')
                  in case take_hex256 fp ID_VALUE_MAX of
                       None \<Rightarrow> None
                     | Some v \<Rightarrow>
                         (case derive_identity_key psa (st\<lparr>is_digital_fingerprint := v\<rparr>) of
                            None \<Rightarrow> None
                          | Some st \<Rightarrow>
                              if \<not> document_pi_matches pid (is_unique_public_id st) then None
                              else
                                Some (st\<lparr>is_hes_clme_ver := take_optional gw ''vr'' ID_VERSION_MAX ''1.0.0'',
                                         is_hes_system_number := take_optional gw ''hs'' ID_SYSNUM_MAX ''1'',
                                         is_public_description := take_optional gw ''pd'' ID_DESC_MAX [],
                                         is_gateway_class := take_optional gw ''ch'' ID_CLASS_MAX ''sh'',
                                         is_vulnerability := take_optional_int gw ''vl'',
                                         is_adverse_impact := take_optional_int gw ''il'',
                                         is_likelihood := take_optional_int gw ''ll'',
                                         is_risk_level := take_optional_int gw ''rl''\<rparr>)))))"

section \<open>The objects' answers\<close>

definition id_config_on_get :: "id_service_state \<Rightarrow> hes_clme_msg \<Rightarrow> hes_clme_msg" where
  "id_config_on_get st out = hes_msg_set_payload_str out ''rq=ma;si=ye''"

definition status_text :: "id_inventory \<Rightarrow> id_service_state \<Rightarrow> string" where
  "status_text iv st =
     ''pi='' @ is_unique_public_id st @ '';vr='' @ is_hes_clme_ver st
     @ '';hs='' @ is_hes_system_number st @ '';ch='' @ is_gateway_class st
     @ '';pd='' @ is_public_description st @ '';nh='' @ dec_int (iv_hans_number iv)
     @ '';nw='' @ dec_int (iv_wans_number iv) @ '';ns='' @ dec_int (iv_service_modules_number iv)
     @ '';vl='' @ dec_int (is_vulnerability st) @ '';il='' @ dec_int (is_adverse_impact st)
     @ '';ll='' @ dec_int (is_likelihood st) @ '';rl='' @ dec_int (is_risk_level st)"

definition id_status_on_get ::
    "id_inventory option \<Rightarrow> id_service_state \<Rightarrow> hes_clme_msg \<Rightarrow> hes_clme_msg" where
  "id_status_on_get inventory st out =
     (let iv = (case inventory of Some iv \<Rightarrow> iv | None \<Rightarrow> empty_inventory)
      in hes_msg_set_payload_str out (hes_strlcpy HES_PAYLOAD_MAX (status_text iv st)))"

definition discovery_row :: "nat \<Rightarrow> id_binding_map \<Rightarrow> string" where
  "discovery_row i m = (if i = 0 then [] else '';'') @ ''mt='' @ ib_module_type m
     @ '',mi='' @ dec_u32 (ib_module_ref_index m) @ '',ni='' @ dec_u32 (ib_net_ref_index m)
     @ '',ad='' @ ib_address m"

fun discovery_loop :: "nat \<Rightarrow> id_binding_map list \<Rightarrow> string \<Rightarrow> string" where
  "discovery_loop i [] buf = buf"
| "discovery_loop i (m # ms) buf =
     (if i \<ge> ID_MAX_BINDING_MAPS then buf
      else if length (discovery_row i m) \<ge> HES_PAYLOAD_MAX - length buf
      then hes_strlcpy HES_PAYLOAD_MAX (buf @ discovery_row i m)
      else discovery_loop (i + 1) ms (buf @ discovery_row i m))"

definition id_discovery_on_get ::
    "id_inventory option \<Rightarrow> id_service_state \<Rightarrow> hes_clme_msg \<Rightarrow> hes_clme_msg" where
  "id_discovery_on_get inventory st out =
     (let iv = (case inventory of Some iv \<Rightarrow> iv | None \<Rightarrow> empty_inventory)
      in hes_msg_set_payload_str out (discovery_loop 0 (iv_binding_maps iv) []))"

definition id_on_put :: "id_service_state \<Rightarrow> hes_clme_msg \<Rightarrow> id_service_state" where
  "id_on_put st msg = st"

section \<open>The service\<close>

definition id_destroy :: "id_service_state cell \<Rightarrow> heap_error + id_service_state cell" where
  "id_destroy c = shared_destroy c"

definition id_service_create ::
    "psa \<Rightarrow> (string \<Rightarrow> json option) \<Rightarrow> bool \<Rightarrow> (nat \<Rightarrow> bool) \<Rightarrow> string option \<Rightarrow> nat
     \<Rightarrow> heap_error + (nat option \<times> id_service_state cell)" where
  "id_service_create psa json_load_file alloc_state alloc identity_path max_out =
     (if identity_path = None \<or> identity_path = Some [] then Inr (None, Freed)
      else if max_out < ID_SERVICE_OBJECT_COUNT then Inr (None, Freed)
      else if \<not> alloc_state then Inr (None, Freed)
      else
        (case load_identity psa json_load_file id_zero (the identity_path) of
           None \<Rightarrow> Inr (None, Freed)
         | Some st \<Rightarrow> create_objects alloc ID_SERVICE_OBJECT_COUNT 0 (Live 0 st)))"

text \<open>Custody moves to the caller; \<open>None\<close> when there is no key (any more).\<close>

definition id_service_export_identity_key :: "id_service_state \<Rightarrow> (bytes \<times> id_service_state) option" where
  "id_service_export_identity_key st =
     (if \<not> is_have_identity_key st then None
      else Some (is_identity_scalar st,
                 st\<lparr>is_identity_scalar := replicate 32 0, is_have_identity_key := False\<rparr>))"

definition id_objects :: "id_inventory option \<Rightarrow> id_service_state service_object list" where
  "id_objects inventory =
     [\<lparr>so_path = HES_LX_ID, so_on_get = Some (\<lambda>st m. (id_config_on_get st m, st)), so_on_put = Some id_on_put\<rparr>,
      \<lparr>so_path = HES_LX_ID_CENTRALOPS_CV,
       so_on_get = Some (\<lambda>st m. (id_status_on_get inventory st m, st)), so_on_put = Some id_on_put\<rparr>,
      \<lparr>so_path = HES_LX_ID_DISCOVER_BM,
       so_on_get = Some (\<lambda>st m. (id_discovery_on_get inventory st m, st)), so_on_put = Some id_on_put\<rparr>]"

end
