(* ===== verification/IdProps.thy ===== *)
theory IdProps
  imports Id CryptoProps
begin

text \<open>
  The properties of the identification service: what a loaded identity is, that the public id
  is a function of the fingerprint, the scalar's negation, what the objects show, and the
  hand-over of the key to the cryptographic service.
\<close>

lemma discovery_loop_bound: "length buf < HES_PAYLOAD_MAX \<Longrightarrow> length (discovery_loop i ms buf) < HES_PAYLOAD_MAX"
proof (induction ms arbitrary: i buf)
  case (Cons m ms)
  show ?case
    using Cons.IH[of "buf @ discovery_row i m" "i + 1"] Cons.prems
    by (auto simp: hes_strlcpy_take min_less_iff_disj)
qed simp

interpretation id_config: get_object "\<lambda>st m. (id_config_on_get st m, st)"
  by unfold_locales (simp_all add: id_config_on_get_def hes_strlcpy_take)

interpretation id_status: get_object "\<lambda>st m. (id_status_on_get inventory st m, st)" for inventory
  by unfold_locales (simp_all add: id_status_on_get_def Let_def hes_strlcpy_take min_less_iff_disj)

interpretation id_discovery: get_object "\<lambda>st m. (id_discovery_on_get inventory st m, st)" for inventory
  by unfold_locales (simp_all add: id_discovery_on_get_def Let_def hes_strlcpy_take min_less_iff_disj)

section \<open>Negating a scalar\<close>

text \<open>The number 32 bytes stand for, the most significant first.\<close>

definition be_value :: "bytes \<Rightarrow> int" where
  "be_value bs = horner_sum uint 256 (rev bs)"

lemma le_nonneg: "0 \<le> horner_sum uint (256::int) bs" for bs :: bytes
  by (induction bs) simp_all

lemma le_less: "horner_sum uint (256::int) (bs :: bytes) < 256 ^ length bs"
proof (induction bs)
  case (Cons b bs)
  have "uint b < 256" using uint_lt2p[of b] by simp
  then show ?case using Cons by simp
qed simp

lemma uint_word_of_byte: "0 \<le> n \<Longrightarrow> n < 256 \<Longrightarrow> uint (word_of_int n :: u8) = n"
  by (simp add: uint_word_of_int_eq take_bit_int_eq_self)

lemma negate_loop_value:
  assumes "length ps = length ds" "borrow = 0 \<or> borrow = 1"
  shows "horner_sum uint 256 (negate_loop ps ds borrow)
     = (horner_sum uint 256 ps - horner_sum uint 256 ds - borrow) mod 256 ^ length ps"
  using assms
proof (induction ps ds borrow rule: negate_loop.induct)
  case (1 p ps d ds borrow)
  let ?t = "uint p - uint d - borrow"
  let ?P = "horner_sum uint (256::int) ps" and ?D = "horner_sum uint (256::int) ds"
  have "0 \<le> uint p" "uint p < 256" "0 \<le> uint d" "uint d < 256"
    using uint_lt2p[of p] uint_lt2p[of d] by simp_all
  then have range: "- 256 \<le> ?t" "?t < 256" using 1(4) by linarith+
  have split: "(c + 256 * x) mod (256 * 256 ^ n) = c + 256 * (x mod 256 ^ n)"
    if "0 \<le> c" "c < 256" for c x :: int and n
    using that zmod_zmult2_eq[of "256 ^ n" "c + 256 * x" 256] by simp
  show ?case
  proof (cases "?t < 0")
    case True
    have ih: "horner_sum uint 256 (negate_loop ps ds 1) = (?P - ?D - 1) mod 256 ^ length ps"
      using 1(1)[OF refl True] 1(3) by simp
    have byte: "uint (word_of_int (?t + 0x100) :: u8) = ?t + 256"
      by (subst uint_word_of_byte) (use True range in simp_all)
    have step: "negate_loop (p # ps) (d # ds) borrow = word_of_int (?t + 0x100) # negate_loop ps ds 1"
      using True by (simp only: negate_loop.simps Let_def if_True)
    have "(?t + 256) + 256 * (?P - ?D - 1) = horner_sum uint 256 (p # ps) - horner_sum uint 256 (d # ds) - borrow"
      by simp
    then show ?thesis
      using True split[of "?t + 256" "?P - ?D - 1" "length ps"] range(1)
      unfolding step horner_sum_simps byte ih by (simp add: algebra_simps)
  next
    case False
    have ih: "horner_sum uint 256 (negate_loop ps ds 0) = (?P - ?D) mod 256 ^ length ps"
      using 1(2)[OF refl False] 1(3) by simp
    have byte: "uint (word_of_int ?t :: u8) = ?t"
      by (rule uint_word_of_byte) (use False range in simp_all)
    have step: "negate_loop (p # ps) (d # ds) borrow = word_of_int ?t # negate_loop ps ds 0"
      using False by (simp only: negate_loop.simps Let_def if_False)
    have "?t + 256 * (?P - ?D) = horner_sum uint 256 (p # ps) - horner_sum uint 256 (d # ds) - borrow"
      by simp
    then show ?thesis
      using False split[of ?t "?P - ?D" "length ps"] range(2)
      unfolding step horner_sum_simps byte ih by (simp add: algebra_simps)
  qed
qed simp_all

lemma negate_loop_length: "length ps = length ds \<Longrightarrow> length (negate_loop ps ds b) = length ps"
  by (induction ps ds b rule: negate_loop.induct) (simp_all add: Let_def)

abbreviation p256_order :: int where
  "p256_order \<equiv> 0xffffffff00000000ffffffffffffffffbce6faada7179e84f3b9cac2fc632551"

lemma order_value: "be_value P256_ORDER = p256_order"
  by (simp add: be_value_def P256_ORDER_def)

text \<open>C39: The byte-wise subtraction is the group's negation. For every 32-byte scalar up to the
  order of the P-256 group, \<open>scalar_negate\<close> gives the 32 bytes of the order minus the scalar;
  negating twice gives the scalar back.\<close>

theorem scalar_negate_value:
  assumes "length d = 32" "be_value d \<le> p256_order"
  shows "length (scalar_negate d) = 32 \<and> be_value (scalar_negate d) = p256_order - be_value d
     \<and> be_value (scalar_negate (scalar_negate d)) = be_value d"
proof -
  have len: "length P256_ORDER = 32" by (simp add: P256_ORDER_def)
  have val: "be_value (scalar_negate e) = (p256_order - be_value e) mod 256 ^ 32"
    if "length e = 32" for e
    using negate_loop_value[of "rev P256_ORDER" "rev e" 0] that len order_value
    by (simp add: scalar_negate_def be_value_def)
  have nonneg: "0 \<le> be_value e" for e unfolding be_value_def by (rule le_nonneg)
  have small: "p256_order < 256 ^ 32" by simp
  have negl: "length (scalar_negate d) = 32"
    using assms(1) len by (simp add: scalar_negate_def negate_loop_length)
  have one: "be_value (scalar_negate d) = p256_order - be_value d"
    unfolding val[OF assms(1)] using assms(2) nonneg[of d] small by (intro mod_pos_pos_trivial) linarith+
  moreover have "be_value (scalar_negate (scalar_negate d)) = be_value d"
    unfolding val[OF negl] one using assms(2) nonneg[of d] small
    by (intro trans[OF mod_pos_pos_trivial]) linarith+
  ultimately show ?thesis using negl by blast
qed

theorem scalar_negate_value_witness:
  "be_value (scalar_negate (replicate 31 0 @ [1])) = p256_order - 1"
  using scalar_negate_value[of "replicate 31 0 @ [1]"] by (simp add: be_value_def numeral_eq_Suc)

section \<open>A loaded identity\<close>

lemma derive_tries_Some:
  "derive_tries psa fp a n = Some (scalar, pub) \<Longrightarrow> public_from_scalar psa scalar = Some pub"
  by (induction n arbitrary: a) (auto split: option.splits)

lemma derive_Some:
  assumes "derive_identity_key psa st = Some st'"
  obtains scalar pub where "public_from_scalar psa scalar = Some pub" "\<not> odd_y pub"
    "st' = st\<lparr>is_identity_scalar := scalar, is_unique_public_id := key_identity pub, is_have_identity_key := True\<rparr>"
proof -
  obtain fp scalar0 pub0 where tries: "derive_tries psa fp 0 ID_KEY_TRIES = Some (scalar0, pub0)"
    and rest: "(if odd_y pub0 then (case public_from_scalar psa (scalar_negate scalar0) of None \<Rightarrow> None
                    | Some pub' \<Rightarrow> if odd_y pub' then None else Some (scalar_negate scalar0, pub'))
                else Some (scalar0, pub0)) \<noteq> None"
    and st': "st' = (case (if odd_y pub0 then (case public_from_scalar psa (scalar_negate scalar0) of None \<Rightarrow> None
                    | Some pub' \<Rightarrow> if odd_y pub' then None else Some (scalar_negate scalar0, pub'))
                else Some (scalar0, pub0)) of Some (scalar, pub) \<Rightarrow>
              st\<lparr>is_identity_scalar := scalar, is_unique_public_id := key_identity pub, is_have_identity_key := True\<rparr>)"
    using assms by (auto simp: derive_identity_key_def key_identity_def Let_def split: if_splits option.splits)
  note point = derive_tries_Some[OF tries]
  show thesis
  proof (cases "odd_y pub0")
    case True
    with rest obtain pub' where "public_from_scalar psa (scalar_negate scalar0) = Some pub'" "\<not> odd_y pub'"
      by (auto split: option.splits if_splits)
    then show thesis using that st' True by simp
  next
    case False
    then show thesis using that point st' by simp
  qed
qed

lemma derive_fingerprint:
  assumes "derive_identity_key psa st = Some st'"
  shows "is_digital_fingerprint st' = is_digital_fingerprint st"
  by (rule derive_Some[OF assms]) simp

lemma load_identity_Some:
  assumes "load_identity psa json_load_file st path = Some st'"
  obtains doc gw fp st1 where "json_load_file path = Some doc" "json_object_get doc ''gatewayIdentity'' = Some gw"
    "json_string (json_object_get gw ''fp'') = Some fp" "length fp = 64" "list_all c_isxdigit fp"
    "derive_identity_key psa (st\<lparr>is_digital_fingerprint := map c_tolower fp\<rparr>) = Some st1"
    "document_pi_matches (json_string (json_object_get gw ''pi'')) (is_unique_public_id st1)"
    "is_identity_scalar st' = is_identity_scalar st1" "is_unique_public_id st' = is_unique_public_id st1"
    "is_digital_fingerprint st' = is_digital_fingerprint st1" "is_have_identity_key st' = is_have_identity_key st1"
    "length (is_hes_clme_ver st') < ID_VERSION_MAX" "length (is_hes_system_number st') < ID_SYSNUM_MAX"
    "length (is_public_description st') < ID_DESC_MAX" "length (is_gateway_class st') < ID_CLASS_MAX"
  using assms
  by (auto simp: load_identity_def take_hex256_def take_optional_def hes_strlcpy_take Let_def min_less_iff_disj
      split: option.splits if_splits)

lemma load_identity_key:
  assumes "load_identity psa json_load_file id_zero path = Some st"
  obtains pub where "is_have_identity_key st" "public_from_scalar psa (is_identity_scalar st) = Some pub"
    "\<not> odd_y pub" "is_unique_public_id st = key_identity pub"
proof -
  obtain fp st1 where l: "derive_identity_key psa (id_zero\<lparr>is_digital_fingerprint := map c_tolower fp\<rparr>) = Some st1"
    "is_identity_scalar st = is_identity_scalar st1" "is_unique_public_id st = is_unique_public_id st1"
    "is_have_identity_key st = is_have_identity_key st1"
    by (rule load_identity_Some[OF assms])
  obtain scalar pub where d: "public_from_scalar psa scalar = Some pub" "\<not> odd_y pub"
    "st1 = id_zero\<lparr>is_digital_fingerprint := map c_tolower fp, is_identity_scalar := scalar,
             is_unique_public_id := key_identity pub, is_have_identity_key := True\<rparr>"
    by (rule derive_Some[OF l(1)]) simp
  with l show ?thesis by (intro that) simp_all
qed

text \<open>C28: Loading the identity fails closed. When a document is accepted, its fingerprint was 64
  hexadecimal characters; the private key held is one PSA takes; the public id served is the X
  coordinate of that key's point, whose Y is even; and a public id the document states is this one.\<close>

theorem load_identity_sound:
  assumes "load_identity psa json_load_file id_zero path = Some st"
  shows "\<exists>doc gw fp pub. json_load_file path = Some doc \<and> json_object_get doc ''gatewayIdentity'' = Some gw
     \<and> json_string (json_object_get gw ''fp'') = Some fp \<and> length fp = 64 \<and> list_all c_isxdigit fp
     \<and> is_digital_fingerprint st = map c_tolower fp
     \<and> is_have_identity_key st \<and> public_from_scalar psa (is_identity_scalar st) = Some pub \<and> \<not> odd_y pub
     \<and> is_unique_public_id st = key_identity pub
     \<and> (\<forall>v. json_string (json_object_get gw ''pi'') = Some v \<longrightarrow> map c_tolower v = is_unique_public_id st)"
proof -
  obtain doc gw fp st1 where l: "json_load_file path = Some doc" "json_object_get doc ''gatewayIdentity'' = Some gw"
    "json_string (json_object_get gw ''fp'') = Some fp" "length fp = 64" "list_all c_isxdigit fp"
    "derive_identity_key psa (id_zero\<lparr>is_digital_fingerprint := map c_tolower fp\<rparr>) = Some st1"
    "document_pi_matches (json_string (json_object_get gw ''pi'')) (is_unique_public_id st1)"
    "is_identity_scalar st = is_identity_scalar st1" "is_unique_public_id st = is_unique_public_id st1"
    "is_digital_fingerprint st = is_digital_fingerprint st1" "is_have_identity_key st = is_have_identity_key st1"
    by (rule load_identity_Some[OF assms])
  obtain scalar pub where d: "public_from_scalar psa scalar = Some pub" "\<not> odd_y pub"
    "st1 = id_zero\<lparr>is_digital_fingerprint := map c_tolower fp, is_identity_scalar := scalar,
             is_unique_public_id := key_identity pub, is_have_identity_key := True\<rparr>"
    by (rule derive_Some[OF l(6)]) simp
  have "map c_tolower v = is_unique_public_id st" if "json_string (json_object_get gw ''pi'') = Some v" for v
    using l(7,9) that by (auto simp: document_pi_matches_def take_hex256_def split: if_splits)
  then show ?thesis using l d by (intro exI[of _ doc] exI[of _ gw] exI[of _ fp] exI[of _ pub]) simp
qed

definition sample_identity :: "string \<Rightarrow> json option" where
  "sample_identity path =
     Some (JObj [(''gatewayIdentity'', JObj [(''fp'', JStr (replicate 64 CHR ''A'')), (''vr'', JStr ''2.0'')])])"

lemma sample_identity_loads:
  "\<exists>st. load_identity toy_psa sample_identity id_zero ''id.json'' = Some st"
proof -
  have "hex_to_bytes (map c_tolower (replicate 64 CHR ''A'')) 32 \<noteq> None" by code_simp
  then obtain fp where "hex_to_bytes (map c_tolower (replicate 64 CHR ''A'')) 32 = Some fp" by blast
  moreover have "c_isxdigit CHR ''A''" by code_simp
  ultimately show ?thesis
    by (simp add: load_identity_def sample_identity_def json_is_object_def take_hex256_def derive_identity_key_def
        hkdf_sha256_def toy_psa_def numeral_eq_Suc public_from_scalar_def odd_y_def document_pi_matches_def Let_def)
qed

theorem load_identity_sound_witness:
  "\<exists>st pub. load_identity toy_psa sample_identity id_zero ''id.json'' = Some st
     \<and> public_from_scalar toy_psa (is_identity_scalar st) = Some pub \<and> is_unique_public_id st = key_identity pub"
  using sample_identity_loads load_identity_sound by meson

text \<open>The public id is stationary. Two documents with the same fingerprint, in whatever letter
  case and with whatever else in them, give the same public id and the same key.\<close>

theorem public_id_stationary:
  assumes "load_identity psa file1 id_zero path1 = Some st1" "load_identity psa file2 id_zero path2 = Some st2"
    and "is_digital_fingerprint st1 = is_digital_fingerprint st2"
  shows "is_unique_public_id st1 = is_unique_public_id st2 \<and> is_identity_scalar st1 = is_identity_scalar st2"
proof -
  obtain fp1 d1 where l1: "derive_identity_key psa (id_zero\<lparr>is_digital_fingerprint := map c_tolower fp1\<rparr>) = Some d1"
    "is_identity_scalar st1 = is_identity_scalar d1" "is_unique_public_id st1 = is_unique_public_id d1"
    "is_digital_fingerprint st1 = is_digital_fingerprint d1"
    by (rule load_identity_Some[OF assms(1)])
  obtain fp2 d2 where l2: "derive_identity_key psa (id_zero\<lparr>is_digital_fingerprint := map c_tolower fp2\<rparr>) = Some d2"
    "is_identity_scalar st2 = is_identity_scalar d2" "is_unique_public_id st2 = is_unique_public_id d2"
    "is_digital_fingerprint st2 = is_digital_fingerprint d2"
    by (rule load_identity_Some[OF assms(2)])
  have "is_digital_fingerprint d1 = map c_tolower fp1" "is_digital_fingerprint d2 = map c_tolower fp2"
    using derive_fingerprint[OF l1(1)] derive_fingerprint[OF l2(1)] by simp_all
  then have "map c_tolower fp1 = map c_tolower fp2" using assms(3) l1(4) l2(4) by simp
  then have "d1 = d2" using l1(1) l2(1) by simp
  then show ?thesis using l1 l2 by simp
qed

theorem public_id_stationary_witness:
  "\<exists>st1 st2. load_identity toy_psa sample_identity id_zero ''a'' = Some st1
     \<and> load_identity toy_psa sample_identity id_zero ''b'' = Some st2
     \<and> is_unique_public_id st1 = is_unique_public_id st2"
proof -
  have same: "load_identity toy_psa sample_identity id_zero p = load_identity toy_psa sample_identity id_zero ''id.json''"
    for p by (simp add: load_identity_def sample_identity_def)
  obtain st where st: "load_identity toy_psa sample_identity id_zero ''id.json'' = Some st"
    using sample_identity_loads by blast
  have "is_unique_public_id st = is_unique_public_id st"
    using public_id_stationary[of toy_psa sample_identity "''a''" st sample_identity "''b''" st] same st by simp
  then show ?thesis using same st by metis
qed

section \<open>What is shown, and what is handed over\<close>

text \<open>The secrets are never served. The answers of the three objects are the same for two states
  that differ in the fingerprint and the private key only.\<close>

theorem answers_hide_secrets:
  assumes "st'\<lparr>is_digital_fingerprint := [], is_identity_scalar := [], is_have_identity_key := False\<rparr>
       = st\<lparr>is_digital_fingerprint := [], is_identity_scalar := [], is_have_identity_key := False\<rparr>"
  shows "id_config_on_get st' out = id_config_on_get st out
     \<and> id_status_on_get inventory st' out = id_status_on_get inventory st out
     \<and> id_discovery_on_get inventory st' out = id_discovery_on_get inventory st out"
  using assms
  by (cases st; cases st')
     (simp add: id_config_on_get_def id_status_on_get_def id_discovery_on_get_def status_text_def)

theorem answers_hide_secrets_witness:
  "id_status_on_get None (id_zero\<lparr>is_digital_fingerprint := ''feed''\<rparr>) hes_msg_init
     = id_status_on_get None id_zero hes_msg_init"
  using answers_hide_secrets[of "id_zero\<lparr>is_digital_fingerprint := ''feed''\<rparr>" id_zero hes_msg_init None]
  by (simp add: id_zero_def)

text \<open>PSA exports the public key of the key material, whatever the key's usage policy.\<close>

definition export_by_material :: "psa \<Rightarrow> bool" where
  "export_by_material psa \<longleftrightarrow> (\<forall>a a' s. pa_type a = pa_type a' \<longrightarrow>
     psa_export_public_key psa (a, s) = psa_export_public_key psa (a', s))"

text \<open>C7: The gateway proves the identity it serves. The key a loaded identity hands over is handed
  over once and wiped behind it; installed in the cryptographic service, its answer to a
  challenge is a proof that verifies against the very public id the identification service serves.\<close>

theorem served_identity_proved:
  assumes "load_identity psa json_load_file id_zero path = Some st"
    and "id_service_export_identity_key st = Some (priv, st')"
    and "ecdsa_works psa priv pub" "export_by_material psa"
    and "hex_decode (hes_strlcpy HES_PAYLOAD_MAX (m_payload out)) CRYPTO_MAX_PAYLOAD = Some challenge" "challenge \<noteq> []"
  shows "id_service_export_identity_key st' = None \<and> is_identity_scalar st' = replicate 32 0
     \<and> crypto_verify_proof psa
         (m_payload (crypto_identity_proof psa (crypto_service_set_identity_key cs priv) out))
         (is_unique_public_id st) challenge"
proof -
  obtain pub' where pub': "public_from_scalar psa (is_identity_scalar st) = Some pub'"
      "is_unique_public_id st = key_identity pub'"
    by (rule load_identity_key[OF assms(1)])
  have priv: "priv = is_identity_scalar st"
    and st': "st' = st\<lparr>is_identity_scalar := replicate 32 0, is_have_identity_key := False\<rparr>"
    using assms(2) by (auto simp: id_service_export_identity_key_def split: if_splits)
  have "psa_export_public_key psa (identity_attributes, priv) = (PSA_SUCCESS, pub')"
    using pub'(1) priv by (auto simp: public_from_scalar_def split: if_splits prod.splits)
  moreover have "psa_export_public_key psa (ecdsa_attributes PSA_KEY_TYPE_ECC_KEY_PAIR PSA_KEY_USAGE_EXPORT, priv)
      = (PSA_SUCCESS, pub)" using assms(3) by (simp add: ecdsa_works_def)
  moreover have "psa_export_public_key psa (identity_attributes, priv)
      = psa_export_public_key psa (ecdsa_attributes PSA_KEY_TYPE_ECC_KEY_PAIR PSA_KEY_USAGE_EXPORT, priv)"
    using assms(4) unfolding export_by_material_def by (simp add: identity_attributes_def ecdsa_attributes_def)
  ultimately have "pub' = pub" by simp
  moreover have "crypto_verify_proof psa
      (m_payload (crypto_identity_proof psa (crypto_service_set_identity_key cs priv) out)) (key_identity pub) challenge"
    by (rule own_proof_accepted_key[OF _ _ assms(5,6)])
       (use assms(3) in \<open>simp_all add: crypto_service_set_identity_key_def\<close>)
  ultimately show ?thesis using pub'(2) st' by (simp add: id_service_export_identity_key_def)
qed

theorem served_identity_proved_witness:
  "\<exists>st priv st'. load_identity toy_psa sample_identity id_zero ''id.json'' = Some st
     \<and> id_service_export_identity_key st = Some (priv, st')
     \<and> crypto_verify_proof toy_psa
         (m_payload (crypto_identity_proof toy_psa (crypto_service_set_identity_key crypto_initial_state priv)
            (hes_msg_set_payload_str hes_msg_init ''C0FFEE'')))
         (is_unique_public_id st) [0xC0, 0xFF, 0xEE]"
proof -
  obtain st where st: "load_identity toy_psa sample_identity id_zero ''id.json'' = Some st"
    using sample_identity_loads by blast
  have "is_have_identity_key st" by (rule load_identity_key[OF st])
  then obtain priv st' where ex: "id_service_export_identity_key st = Some (priv, st')"
    by (simp add: id_service_export_identity_key_def)
  have works: "ecdsa_works toy_psa priv (4 # replicate 64 0)" by (simp add: ecdsa_works_def toy_psa_def)
  have by_mat: "export_by_material toy_psa" by (simp add: export_by_material_def toy_psa_def)
  have "hex_decode ''C0FFEE'' 128 = Some [0xC0, 0xFF, 0xEE]" by code_simp
  then have chal: "hex_decode (hes_strlcpy HES_PAYLOAD_MAX (m_payload (hes_msg_set_payload_str hes_msg_init ''C0FFEE'')))
      CRYPTO_MAX_PAYLOAD = Some [0xC0, 0xFF, 0xEE]" by (simp add: hes_strlcpy_take)
  show ?thesis using served_identity_proved[OF st ex works by_mat chal, of crypto_initial_state] st ex by auto
qed

section \<open>The status answer fits\<close>

text \<open>The status answer is never cut. With a loaded identity's fields, counts in the range of
  \<open>int\<close> and risk levels in the range of \<open>long\<close>, the text fits the payload, so every record of
  it arrives.\<close>

theorem status_answer_fits:
  assumes "load_identity psa json_load_file id_zero path = Some st"
    and "\<bar>iv_hans_number iv\<bar> \<le> 2 ^ 31" "\<bar>iv_wans_number iv\<bar> \<le> 2 ^ 31" "\<bar>iv_service_modules_number iv\<bar> \<le> 2 ^ 31"
    and "\<bar>is_vulnerability st\<bar> \<le> 2 ^ 63" "\<bar>is_adverse_impact st\<bar> \<le> 2 ^ 63"
    and "\<bar>is_likelihood st\<bar> \<le> 2 ^ 63" "\<bar>is_risk_level st\<bar> \<le> 2 ^ 63"
  shows "m_payload (id_status_on_get (Some iv) st out) = status_text iv st"
proof -
  have small: "length (dec_int n) \<le> 11" if "\<bar>n\<bar> \<le> 2 ^ 31" for n
    using dec_int_length[of n 10] that by simp
  have large: "length (dec_int n) \<le> 20" if "\<bar>n\<bar> \<le> 2 ^ 63" for n
    using dec_int_length[of n 19] that by simp
  obtain pub where "public_from_scalar psa (is_identity_scalar st) = Some pub"
      "is_unique_public_id st = key_identity pub"
    by (rule load_identity_key[OF assms(1)])
  then have "is_unique_public_id st = key_identity pub" "length pub = 65"
    by (auto simp: public_from_scalar_def split: if_splits prod.splits)
  then have pid: "length (is_unique_public_id st) = 64"
    using id_codec.encode_length[of "take 32 (drop 1 pub)"] by (simp add: key_identity_def bytes_to_hex_encode)
  have fields: "length (is_hes_clme_ver st) < 16" "length (is_hes_system_number st) < 16"
    "length (is_public_description st) < 64" "length (is_gateway_class st) < 8"
    by (rule load_identity_Some[OF assms(1)]; simp)+
  have "length (status_text iv st) < 512"
    using pid fields small[OF assms(2)] small[OF assms(3)] small[OF assms(4)]
      large[OF assms(5)] large[OF assms(6)] large[OF assms(7)] large[OF assms(8)]
    by (simp add: status_text_def)
  then show ?thesis by (simp add: id_status_on_get_def Let_def hes_strlcpy_take)
qed

theorem status_answer_fits_witness:
  "\<exists>st. load_identity toy_psa sample_identity id_zero ''id.json'' = Some st
     \<and> m_payload (id_status_on_get (Some empty_inventory) (st\<lparr>is_vulnerability := is_vulnerability st\<rparr>) hes_msg_init)
       = status_text empty_inventory st"
proof -
  obtain st where st: "load_identity toy_psa sample_identity id_zero ''id.json'' = Some st"
    using sample_identity_loads by blast
  then have "is_vulnerability st = 0" "is_adverse_impact st = 0" "is_likelihood st = 0" "is_risk_level st = 0"
    by (auto simp: load_identity_def sample_identity_def json_is_object_def take_optional_int_def Let_def
        split: option.splits if_splits)
  then show ?thesis
    using status_answer_fits[OF st, of empty_inventory hes_msg_init] st by (auto simp: empty_inventory_def)
qed

section \<open>Allocation\<close>

text \<open>Creating the service's objects, when the document is valid: three objects on one state;
  nothing left behind when there is no memory for the first; and the state freed and touched
  again when memory runs out at the second or the third.\<close>

theorem id_create_outcome:
  assumes "load_identity psa json_load_file id_zero path = Some st" "path \<noteq> []"
  shows "id_service_create psa json_load_file True alloc (Some path) 3 =
     (if alloc 0 \<and> alloc 1 \<and> alloc 2 then Inr (Some 3, Live 3 st)
      else if \<not> alloc 0 then Inr (None, Freed) else Inl UseAfterFree)"
proof -
  have "j < 3 \<longleftrightarrow> j = 0 \<or> j = 1 \<or> j = 2" for j :: nat by auto
  then have "(\<forall>j < 3. alloc j) \<longleftrightarrow> alloc 0 \<and> alloc 1 \<and> alloc (2::nat)" by auto
  then show ?thesis using assms by (simp add: id_service_create_def create_objects_outcome)
qed

theorem id_create_outcome_witness:
  "id_service_create toy_psa sample_identity True (\<lambda>i. i < 2) (Some ''id.json'') 3 = Inl UseAfterFree"
proof -
  obtain st where "load_identity toy_psa sample_identity id_zero ''id.json'' = Some st"
    using sample_identity_loads by blast
  from id_create_outcome[OF this, of "\<lambda>i. i < 2"] show ?thesis by simp
qed

end
