(* ===== verification/DevReg.thy ===== *)
theory DevReg
  imports Json HesCommon
begin

text \<open>
  The device registry of an interface module (src/src/common/hes_devreg.c): the slice of the
  manifest it fronts, parsed from JSON, and the lookups its bus loop is written with.
\<close>

abbreviation HES_DEVREG_MAX_DEVICES :: nat where "HES_DEVREG_MAX_DEVICES \<equiv> 16"
abbreviation HES_DEVREG_MAX_OBJECTS :: nat where "HES_DEVREG_MAX_OBJECTS \<equiv> 16"

record hes_dev_object =
  do_path :: string
  do_access :: string

record hes_device =
  dv_device_index :: u32
  dv_net_ref_index :: u32
  dv_role :: string
  dv_expected_hardware :: string
  dv_network_type :: string
  dv_address :: string
  dv_udp_port :: int
  dv_online :: bool
  dv_objects :: "hes_dev_object list"

record hes_devreg =
  rg_gateway_id :: string
  rg_module_type :: string
  rg_module_ref_index :: u32
  rg_network_type :: string
  rg_devices :: "hes_device list"

definition hes_devreg_init :: hes_devreg where
  "hes_devreg_init = \<lparr>rg_gateway_id = [], rg_module_type = [], rg_module_ref_index = 0,
     rg_network_type = [], rg_devices = []\<rparr>"

section \<open>Members\<close>

definition get_member_string :: "json \<Rightarrow> string \<Rightarrow> nat \<Rightarrow> string option" where
  "get_member_string j key dstsz = map_option (hes_strlcpy dstsz) (json_string (json_object_get j key))"

definition get_member_long :: "json \<Rightarrow> string \<Rightarrow> int option" where
  "get_member_long j key = map_option d_to_long (json_number (json_object_get j key))"

text \<open>A destination that keeps its (cleared) value when the member is missing.\<close>

definition member_string :: "json \<Rightarrow> string \<Rightarrow> nat \<Rightarrow> string" where
  "member_string j key dstsz = (case get_member_string j key dstsz of Some s \<Rightarrow> s | None \<Rightarrow> [])"

definition member_long :: "json \<Rightarrow> string \<Rightarrow> int" where
  "member_long j key = (case get_member_long j key of Some v \<Rightarrow> v | None \<Rightarrow> 0)"

definition status_to_online :: "json \<Rightarrow> bool" where
  "status_to_online dev = (case json_string (json_object_get dev ''status'') of None \<Rightarrow> True | Some s \<Rightarrow> s = ''online'')"

section \<open>Parsing\<close>

fun parse_objects :: "json list \<Rightarrow> hes_dev_object list \<Rightarrow> hes_dev_object list" where
  "parse_objects [] acc = acc"
| "parse_objects (ob # obs) acc =
     (if length acc \<ge> HES_DEVREG_MAX_OBJECTS then acc
      else parse_objects obs
        (if \<not> json_is_object ob then acc
         else case (get_member_string ob ''lexiconPath'' HES_PATH_MAX, get_member_string ob ''access'' 4) of
                (Some p, Some a) \<Rightarrow> acc @ [\<lparr>do_path = p, do_access = a\<rparr>]
              | _ \<Rightarrow> acc))"

definition parse_device :: "json \<Rightarrow> hes_device option" where
  "parse_device d =
     (case get_member_long d ''deviceIndex'' of
        None \<Rightarrow> None
      | Some v \<Rightarrow> Some
          \<lparr>dv_device_index = word_of_int v,
           dv_net_ref_index = word_of_int (member_long d ''netRefIndex''),
           dv_role = member_string d ''deviceRole'' 32,
           dv_expected_hardware = member_string d ''expectedHardware'' 48,
           dv_network_type = member_string d ''networkType'' 16,
           dv_address = member_string d ''address'' 64,
           dv_udp_port = (case get_member_long d ''udpPort'' of Some p \<Rightarrow> c_int p | None \<Rightarrow> 0),
           dv_online = status_to_online d,
           dv_objects = (case jobj_array d ''objects'' of None \<Rightarrow> [] | Some obs \<Rightarrow> parse_objects obs [])\<rparr>)"

fun parse_devices :: "json list \<Rightarrow> hes_devreg \<Rightarrow> hes_devreg" where
  "parse_devices [] reg = reg"
| "parse_devices (d # ds) reg =
     (if length (rg_devices reg) \<ge> HES_DEVREG_MAX_DEVICES then reg
      else if \<not> json_is_object d then parse_devices ds reg
      else case parse_device d of
             None \<Rightarrow> parse_devices ds reg
           | Some dev \<Rightarrow>
               parse_devices ds
                 ((if rg_network_type reg = [] \<and> dv_network_type dev \<noteq> []
                   then reg\<lparr>rg_network_type := dv_network_type dev\<rparr> else reg)
                  \<lparr>rg_devices := rg_devices reg @ [dev]\<rparr>))"

text \<open>The registry as it is left, and whether the result is 0; it is cleared first.\<close>

definition hes_devreg_parse :: "json \<Rightarrow> hes_devreg \<times> bool" where
  "hes_devreg_parse doc =
     (if \<not> json_is_object doc then (hes_devreg_init, False)
      else if json_string (json_object_get doc ''error'') \<noteq> None then (hes_devreg_init, False)
      else
        (let reg = hes_devreg_init
               \<lparr>rg_gateway_id := member_string doc ''gatewayId'' 64,
                rg_module_type := member_string doc ''moduleType'' 8,
                rg_network_type := member_string doc ''networkType'' 16,
                rg_module_ref_index := (case get_member_long doc ''moduleRefIndex'' of
                                          Some mi \<Rightarrow> word_of_int mi | None \<Rightarrow> 0)\<rparr>
         in case jobj_array doc ''devices'' of
              None \<Rightarrow> (reg, False)
            | Some ds \<Rightarrow> (parse_devices ds reg, True)))"

definition hes_devreg_load_file ::
    "(string \<Rightarrow> string option) \<Rightarrow> (string \<Rightarrow> json option) \<Rightarrow> hes_devreg \<Rightarrow> string \<Rightarrow> hes_devreg \<times> bool" where
  "hes_devreg_load_file read_file json_loads reg json_path =
     (case read_file json_path of
        None \<Rightarrow> (reg, False)
      | Some txt \<Rightarrow> (case json_loads txt of None \<Rightarrow> (reg, False) | Some doc \<Rightarrow> hes_devreg_parse doc))"

section \<open>Lookups\<close>

definition hes_devreg_find :: "hes_devreg \<Rightarrow> u32 \<Rightarrow> hes_device option" where
  "hes_devreg_find reg device_index = List.find (\<lambda>d. dv_device_index d = device_index) (rg_devices reg)"

definition hes_dev_object_find :: "hes_device \<Rightarrow> string \<Rightarrow> hes_dev_object option" where
  "hes_dev_object_find dev path = List.find (\<lambda>ob. do_path ob = path) (dv_objects dev)"

definition hes_dev_object_can :: "hes_device \<Rightarrow> string \<Rightarrow> char \<Rightarrow> bool" where
  "hes_dev_object_can dev path access =
     (case hes_dev_object_find dev path of
        None \<Rightarrow> False
      | Some ob \<Rightarrow> access \<in> set (do_access ob) \<or> access = char_of (0 :: nat))"

definition add_topic :: "nat \<Rightarrow> hes_dev_object \<Rightarrow> string list \<Rightarrow> string list" where
  "add_topic mx ob topics =
     (if length topics \<ge> mx \<or> do_path ob \<in> set topics then topics
      else topics @ [hes_strlcpy HES_PATH_MAX (do_path ob)])"

definition hes_devreg_collect_topics :: "hes_devreg \<Rightarrow> nat \<Rightarrow> string list" where
  "hes_devreg_collect_topics reg mx =
     fold (\<lambda>dev. fold (add_topic mx) (dv_objects dev)) (rg_devices reg) []"

section \<open>A parsed registry fits\<close>

definition wf_object :: "hes_dev_object \<Rightarrow> bool" where
  "wf_object ob \<longleftrightarrow> length (do_path ob) < HES_PATH_MAX \<and> length (do_access ob) < 4"

definition wf_device :: "hes_device \<Rightarrow> bool" where
  "wf_device d \<longleftrightarrow> length (dv_role d) < 32 \<and> length (dv_expected_hardware d) < 48
     \<and> length (dv_network_type d) < 16 \<and> length (dv_address d) < 64
     \<and> - (2 ^ 31) \<le> dv_udp_port d \<and> dv_udp_port d < 2 ^ 31
     \<and> length (dv_objects d) \<le> HES_DEVREG_MAX_OBJECTS \<and> list_all wf_object (dv_objects d)"

definition wf_devreg :: "hes_devreg \<Rightarrow> bool" where
  "wf_devreg reg \<longleftrightarrow> length (rg_gateway_id reg) < 64 \<and> length (rg_module_type reg) < 8
     \<and> length (rg_network_type reg) < 16 \<and> length (rg_devices reg) \<le> HES_DEVREG_MAX_DEVICES
     \<and> list_all wf_device (rg_devices reg)"

lemma member_string_bound [buf_bounds]: "0 < cap \<Longrightarrow> length (member_string j k cap) < cap"
  by (auto simp: member_string_def get_member_string_def buf_bounds split: option.split)

lemma wf_parse_objects:
  "length acc \<le> HES_DEVREG_MAX_OBJECTS \<Longrightarrow> list_all wf_object acc \<Longrightarrow>
   length (parse_objects obs acc) \<le> HES_DEVREG_MAX_OBJECTS \<and> list_all wf_object (parse_objects obs acc)"
proof (induction obs arbitrary: acc)
  case (Cons ob obs)
  have "list_all wf_object (acc @ [\<lparr>do_path = p, do_access = a\<rparr>])"
    if "get_member_string ob ''lexiconPath'' HES_PATH_MAX = Some p" "get_member_string ob ''access'' 4 = Some a" for p a
  proof -
    have "wf_object \<lparr>do_path = p, do_access = a\<rparr>"
      using that by (auto simp: wf_object_def get_member_string_def buf_bounds)
    then show ?thesis using Cons.prems by simp
  qed
  then show ?case using Cons by (auto split: option.splits)
qed simp

lemma wf_parse_device [wf_rules]: "parse_device d = Some dev \<Longrightarrow> wf_device dev"
  using wf_parse_objects[of "[]"] c_int_range
  by (auto simp: parse_device_def wf_device_def buf_bounds split: option.splits)

lemma wf_parse_devices: "wf_devreg reg \<Longrightarrow> wf_devreg (parse_devices ds reg)"
proof (induction ds arbitrary: reg)
  case (Cons d ds)
  show ?case
  proof (cases "parse_device d")
    case (Some dev)
    then have "wf_device dev" by (rule wf_parse_device)
    moreover have "length (dv_network_type dev) < 16" using \<open>wf_device dev\<close> by (simp add: wf_device_def)
    ultimately show ?thesis using Cons Some by (auto simp: wf_devreg_def)
  qed (use Cons in simp)
qed simp

lemma wf_devreg_parse: "wf_devreg (fst (hes_devreg_parse doc))"
proof -
  have init: "wf_devreg hes_devreg_init" by (simp add: wf_devreg_def hes_devreg_init_def)
  have "wf_devreg (hes_devreg_init\<lparr>rg_gateway_id := member_string doc ''gatewayId'' 64,
      rg_module_type := member_string doc ''moduleType'' 8, rg_network_type := member_string doc ''networkType'' 16,
      rg_module_ref_index := mi\<rparr>)" for mi
    by (simp add: wf_devreg_def hes_devreg_init_def buf_bounds)
  then show ?thesis
    using init wf_parse_devices by (auto simp: hes_devreg_parse_def Let_def split: option.split)
qed

section \<open>Topics\<close>

definition all_paths :: "hes_devreg \<Rightarrow> string set" where
  "all_paths reg = do_path ` set (concat (map dv_objects (rg_devices reg)))"

lemma collect_topics_concat:
  "hes_devreg_collect_topics reg mx = fold (add_topic mx) (concat (map dv_objects (rg_devices reg))) []"
proof -
  have "fold (\<lambda>dev. fold (add_topic mx) (dv_objects dev)) devs acc
      = fold (add_topic mx) (concat (map dv_objects devs)) acc" for devs acc
    by (induction devs arbitrary: acc) simp_all
  then show ?thesis by (simp add: hes_devreg_collect_topics_def)
qed

lemma add_topics:
  assumes "list_all wf_object obs"
  shows "distinct acc \<Longrightarrow> length acc \<le> mx \<Longrightarrow>
    distinct (fold (add_topic mx) obs acc) \<and> length (fold (add_topic mx) obs acc) \<le> mx
    \<and> set (fold (add_topic mx) obs acc) \<subseteq> set acc \<union> do_path ` set obs
    \<and> (length (fold (add_topic mx) obs acc) < mx \<longrightarrow>
         set (fold (add_topic mx) obs acc) = set acc \<union> do_path ` set obs)"
  using assms
proof (induction obs arbitrary: acc)
  case (Cons ob obs)
  have fit: "hes_strlcpy HES_PATH_MAX (do_path ob) = do_path ob"
    using Cons.prems(3) by (simp add: wf_object_def hes_strlcpy_id)
  show ?case
  proof (cases "length acc \<ge> mx \<or> do_path ob \<in> set acc")
    case True
    then have same: "add_topic mx ob acc = acc" by (simp add: add_topic_def)
    have grows: "length s \<le> length (fold (add_topic mx) os s)" for s os
    proof (induction os arbitrary: s)
      case (Cons b os)
      have "length s \<le> length (add_topic mx b s)" by (simp add: add_topic_def)
      then show ?case using Cons[of "add_topic mx b s"] by simp
    qed simp
    show ?thesis
      using True Cons.IH[of acc] Cons.prems grows[of acc obs] by (auto simp: same)
  next
    case False
    then have step: "add_topic mx ob acc = acc @ [do_path ob]" by (simp add: add_topic_def fit)
    show ?thesis using Cons.IH[of "acc @ [do_path ob]"] Cons.prems False by (auto simp: step)
  qed
qed simp

text \<open>A module's registry and its subscriptions. Whatever document a slice is parsed from, the
  registry fits its arrays and buffers; the topics collected from it are distinct paths of its
  devices' objects, at most as many as asked for, and all of them when there is room to spare.\<close>

theorem parsed_registry_topics:
  assumes "hes_devreg_parse doc = (reg, ok)"
  shows "wf_devreg reg \<and> distinct (hes_devreg_collect_topics reg mx)
     \<and> length (hes_devreg_collect_topics reg mx) \<le> mx
     \<and> set (hes_devreg_collect_topics reg mx) \<subseteq> all_paths reg
     \<and> (length (hes_devreg_collect_topics reg mx) < mx \<longrightarrow> set (hes_devreg_collect_topics reg mx) = all_paths reg)"
proof -
  have wf: "wf_devreg reg" using wf_devreg_parse[of doc] assms by simp
  then have "list_all wf_object (concat (map dv_objects (rg_devices reg)))"
    by (auto simp: wf_devreg_def wf_device_def list_all_iff)
  from add_topics[OF this, of "[]" mx] show ?thesis
    using wf by (simp add: collect_topics_concat all_paths_def)
qed

definition sample_slice :: json where
  "sample_slice = JObj [(''devices'', JArr
     [JObj [(''deviceIndex'', JInt 6),
            (''objects'', JArr [JObj [(''lexiconPath'', JStr ''/lx/a''), (''access'', JStr ''r'')],
                                JObj [(''lexiconPath'', JStr ''/lx/b''), (''access'', JStr ''rw'')]])],
      JObj [(''deviceIndex'', JInt 7),
            (''objects'', JArr [JObj [(''lexiconPath'', JStr ''/lx/a''), (''access'', JStr ''w'')]])]])]"

theorem parsed_registry_topics_witness:
  "hes_devreg_collect_topics (fst (hes_devreg_parse sample_slice)) 16 = [''/lx/a'', ''/lx/b'']
   \<and> wf_devreg (fst (hes_devreg_parse sample_slice))"
proof -
  have "hes_devreg_collect_topics (fst (hes_devreg_parse sample_slice)) 16 = [''/lx/a'', ''/lx/b'']"
    by (simp add: sample_slice_def hes_devreg_parse_def parse_device_def get_member_long_def json_is_object_def
        get_member_string_def member_string_def member_long_def d_to_long_of_int hes_strlcpy_take jobj_array_def
        hes_devreg_collect_topics_def hes_devreg_init_def add_topic_def Let_def del: d_of_int.simps)
  then show ?thesis
    using parsed_registry_topics[of sample_slice "fst (hes_devreg_parse sample_slice)" "snd (hes_devreg_parse sample_slice)"]
    by simp
qed

end
