(* ===== verification/Nng.thy ===== *)
theory Nng
  imports HesCommon
begin

text \<open>
  The program's use of NNG sockets: opening the hub and leaf ends of the bus
  (src/src/common/hes_bus.c) and the manifest service's own two (\<open>manifest_service_main\<close> of
  src/src/dm/dm.c). NNG itself is not modelled: a transcript keeps every call with the result NNG gave
  it, and the results are whatever the environment supplies, one for every call.
\<close>

datatype nng_sock = PubSock | SubSock | ReqSock | RepSock

datatype nng_call =
  Open nng_sock
| Listen nng_sock string
| Dial nng_sock string
| Subscribe nng_sock string
| Recv_timeout nng_sock int
| Recv nng_sock
| Msleep nat
| Close nng_sock

record nng =
  nn_calls :: "(nng_call \<times> int) list"
  nn_results :: "nat \<Rightarrow> int"

definition call :: "nng_call \<Rightarrow> nng \<Rightarrow> int \<times> nng" where
  "call c n = (let rv = nn_results n (length (nn_calls n)) in (rv, n\<lparr>nn_calls := nn_calls n @ [(c, rv)]\<rparr>))"

text \<open>A call whose result is not looked at.\<close>

definition run :: "nng_call \<Rightarrow> nng \<Rightarrow> nng" where
  "run c n = snd (call c n)"

section \<open>Dialing\<close>

abbreviation DIAL_ATTEMPTS :: nat where "DIAL_ATTEMPTS \<equiv> 50"

fun dial_loop :: "nat \<Rightarrow> nng_sock \<Rightarrow> string \<Rightarrow> int \<Rightarrow> nng \<Rightarrow> int \<times> nng" where
  "dial_loop 0 sock url rv n = (rv, n)"
| "dial_loop (Suc k) sock url rv n =
     (let (rv, n) = call (Dial sock url) n
      in if rv = 0 then (0, n) else dial_loop k sock url rv (run (Msleep 200) n))"

definition dial_with_retry :: "nng_sock \<Rightarrow> string \<Rightarrow> nng \<Rightarrow> int \<times> nng" where
  "dial_with_retry sock url n = dial_loop DIAL_ATTEMPTS sock url 0 n"

section \<open>Opening the bus\<close>

abbreviation HES_BUS_MAX_TOPICS :: nat where "HES_BUS_MAX_TOPICS \<equiv> 16"

definition hes_bus_hub_open :: "string \<Rightarrow> string \<Rightarrow> nng \<Rightarrow> int \<times> nng" where
  "hes_bus_hub_open pub_url sub_url n =
     (let (rv, n) = call (Open PubSock) n
      in if rv \<noteq> 0 then (rv, n)
         else let (rv, n) = call (Listen PubSock pub_url) n
         in if rv \<noteq> 0 then (rv, run (Close PubSock) n)
         else let (rv, n) = call (Open SubSock) n
         in if rv \<noteq> 0 then (rv, run (Close PubSock) n)
         else let n = run (Subscribe SubSock []) n;
                  (rv, n) = call (Listen SubSock sub_url) n
         in if rv \<noteq> 0 then (rv, run (Close SubSock) (run (Close PubSock) n))
         else (0, n))"

definition hes_bus_leaf_open :: "string \<Rightarrow> string \<Rightarrow> string list \<Rightarrow> nng \<Rightarrow> int \<times> nng" where
  "hes_bus_leaf_open hub_pub_url hub_sub_url topics n =
     (let (rv, n) = call (Open SubSock) n
      in if rv \<noteq> 0 then (rv, n)
         else let n = fold (\<lambda>t. run (Subscribe SubSock t)) (take HES_BUS_MAX_TOPICS topics) n;
                  (rv, n) = dial_with_retry SubSock hub_pub_url n
         in if rv \<noteq> 0 then (rv, run (Close SubSock) n)
         else let (rv, n) = call (Open PubSock) n
         in if rv \<noteq> 0 then (rv, run (Close SubSock) n)
         else let (rv, n) = dial_with_retry PubSock hub_sub_url n
         in if rv \<noteq> 0 then (rv, run (Close PubSock) (run (Close SubSock) n))
         else (0, n))"

definition hes_bus_close :: "nng \<Rightarrow> nng" where
  "hes_bus_close n = run (Close SubSock) (run (Close PubSock) n)"

text \<open>Receiving blocks for at most the given time; a negative one waits for ever. \<open>incoming\<close> is what
  NNG copies into the message when it reports success.\<close>

abbreviation NNG_DURATION_INFINITE :: int where "NNG_DURATION_INFINITE \<equiv> - 1"

definition hes_bus_recv :: "hes_clme_msg \<Rightarrow> int \<Rightarrow> nng \<Rightarrow> (int + hes_clme_msg) \<times> nng" where
  "hes_bus_recv incoming timeout_ms n =
     (let d = (if timeout_ms < 0 then NNG_DURATION_INFINITE else timeout_ms);
          n = run (Recv_timeout SubSock d) n;
          (rv, n) = call (Recv SubSock) n
      in (if rv = 0 then Inr incoming else Inl rv, n))"

section \<open>Opening the manifest service\<close>

text \<open>\<open>manifest_service_main\<close> up to its loop; the result is its exit code, 0 to go on serving.\<close>

definition manifest_service_open :: "string \<Rightarrow> string \<Rightarrow> nng \<Rightarrow> int \<times> nng" where
  "manifest_service_open rep_url pub_url n =
     (let (rv, n) = call (Open RepSock) n
      in if rv \<noteq> 0 then (1, n)
         else let (rv, n) = call (Recv_timeout RepSock 200) n
         in if rv \<noteq> 0 then (1, run (Close RepSock) n)
         else let (rv, n) = call (Listen RepSock rep_url) n
         in if rv \<noteq> 0 then (1, run (Close RepSock) n)
         else let (rv, n) = call (Open PubSock) n
         in if rv \<noteq> 0 then (1, run (Close RepSock) n)
         else let (rv, n) = call (Listen PubSock pub_url) n
         in if rv \<noteq> 0 then (1, run (Close RepSock) (run (Close PubSock) n))
         else (0, n))"

section \<open>What is left open\<close>

text \<open>The sockets a transcript leaves open, and the dials it made to one address.\<close>

fun live_after :: "nng_call \<times> int \<Rightarrow> nng_sock set \<Rightarrow> nng_sock set" where
  "live_after (Open s, rv) S = (if rv = 0 then insert s S else S)"
| "live_after (Close s, rv) S = S - {s}"
| "live_after _ S = S"

definition live :: "nng \<Rightarrow> nng_sock set" where
  "live n = fold live_after (nn_calls n) {}"

definition dials :: "string \<Rightarrow> nng \<Rightarrow> nat" where
  "dials url n = length (filter (\<lambda>(c, rv). \<exists>s. c = Dial s url) (nn_calls n))"

text \<open>How opening must end: with all its sockets open, or failed with none.\<close>

definition all_or_none :: "nng_sock set \<Rightarrow> int \<times> nng \<Rightarrow> bool" where
  "all_or_none socks res = (case res of (rv, n) \<Rightarrow> live n = (if rv = 0 then socks else {}))"

lemma live_call: "call c n = (rv, n') \<Longrightarrow> live n' = live_after (c, rv) (live n)"
  by (auto simp: call_def live_def Let_def)

lemma live_run [simp]:
  "live (run (Close s) n) = live n - {s}" "live (run (Msleep k) n) = live n"
  "live (run (Subscribe s t) n) = live n" "live (run (Recv_timeout s i) n) = live n"
  by (simp_all add: run_def call_def live_def Let_def)

lemma live_subscribes [simp]: "live (fold (\<lambda>t. run (Subscribe s t)) ts n) = live n"
  by (induction ts arbitrary: n) simp_all

lemma live_dial_loop: "dial_loop k s url rv n = (rv', n') \<Longrightarrow> live n' = live n"
proof (induction k arbitrary: rv n)
  case (Suc k)
  obtain rv1 n1 where c: "call (Dial s url) n = (rv1, n1)" by fastforce
  have "live n1 = live n" using live_call[OF c] by simp
  then show ?case using Suc.prems Suc.IH[of rv1 "run (Msleep 200) n1"] c by (auto split: if_splits)
qed simp

lemma live_dial: "dial_with_retry s url n = (rv, n') \<Longrightarrow> live n' = live n"
  unfolding dial_with_retry_def by (rule live_dial_loop)

lemma dials_dial_loop: "dial_loop k s url rv n = (rv', n') \<Longrightarrow> dials url n' \<le> dials url n + k"
proof (induction k arbitrary: rv n)
  case (Suc k)
  obtain rv1 n1 where c: "call (Dial s url) n = (rv1, n1)" by fastforce
  have "dials url n1 = Suc (dials url n)" "dials url (run (Msleep 200) n1) = dials url n1"
    using c by (auto simp: call_def run_def dials_def Let_def)
  then show ?case using Suc.prems Suc.IH[of rv1 "run (Msleep 200) n1"] c by (auto split: if_splits)
qed simp

lemma hub_open_live:
  assumes "live n = {}"
  shows "all_or_none {PubSock, SubSock} (hes_bus_hub_open purl surl n)"
  using assms by (auto simp: all_or_none_def hes_bus_hub_open_def Let_def dest!: live_call split: prod.splits if_splits)

text \<open>Opening is all or nothing, whatever NNG answers. The hub and the leaf end of the bus and
  the manifest service's sockets end either with success and both sockets open, or with an
  error and none; each endpoint is dialed at most 50 times.\<close>

theorem open_all_or_none:
  assumes "live n = {}"
  shows "all_or_none {PubSock, SubSock} (hes_bus_hub_open purl surl n)
     \<and> all_or_none {PubSock, SubSock} (hes_bus_leaf_open purl surl topics n)
     \<and> all_or_none {PubSock, RepSock} (manifest_service_open rurl purl n)
     \<and> dials url (snd (dial_with_retry s url n)) \<le> dials url n + DIAL_ATTEMPTS"
proof (intro conjI)
  show "all_or_none {PubSock, SubSock} (hes_bus_hub_open purl surl n)" by (rule hub_open_live[OF assms])
  show "all_or_none {PubSock, SubSock} (hes_bus_leaf_open purl surl topics n)"
    using assms by (auto simp: all_or_none_def hes_bus_leaf_open_def Let_def dest!: live_call live_dial
        split: prod.splits if_splits)
  show "all_or_none {PubSock, RepSock} (manifest_service_open rurl purl n)"
    using assms by (auto simp: all_or_none_def manifest_service_open_def Let_def dest!: live_call
        split: prod.splits if_splits)
  show "dials url (snd (dial_with_retry s url n)) \<le> dials url n + DIAL_ATTEMPTS"
    unfolding dial_with_retry_def by (rule dials_dial_loop[OF prod.collapse[symmetric]])
qed

text \<open>The third call failing: the publishing socket is closed again.\<close>

theorem open_all_or_none_witness:
  "hes_bus_hub_open ''ipc:///a'' ''ipc:///b'' \<lparr>nn_calls = [], nn_results = (\<lambda>i. if i = 2 then 7 else 0)\<rparr>
     = (7, \<lparr>nn_calls = [(Open PubSock, 0), (Listen PubSock ''ipc:///a'', 0), (Open SubSock, 7), (Close PubSock, 0)],
            nn_results = (\<lambda>i. if i = 2 then 7 else 0)\<rparr>)
   \<and> all_or_none {PubSock, SubSock} (hes_bus_hub_open ''ipc:///a'' ''ipc:///b''
        \<lparr>nn_calls = [], nn_results = (\<lambda>i. if i = 2 then 7 else 0)\<rparr>)"
  using open_all_or_none[of "\<lparr>nn_calls = [], nn_results = (\<lambda>i. if i = 2 then 7 else 0)\<rparr>" "''ipc:///a''" "''ipc:///b''"]
  by (auto simp: hes_bus_hub_open_def call_def run_def live_def Let_def)

end
