(* ===== verification/Dm.thy ===== *)
theory Dm
  imports Json
begin

text \<open>
  The device manifest service (src/src/dm/dm.c): the product profile it loads, the slice and
  module list it renders, and its request handler. The handler's effects are the texts it hands
  to the REP socket and to the PUB socket, in order. Parsing JSON (\<open>json_loads\<close>) and reading
  the file are arguments; allocating the texts is taken to succeed.
\<close>

abbreviation MS_MAX_MODULES :: nat where "MS_MAX_MODULES \<equiv> 8"
abbreviation MS_MAX_DEVICES :: nat where "MS_MAX_DEVICES \<equiv> 16"
abbreviation MS_MAX_OBJECTS :: nat where "MS_MAX_OBJECTS \<equiv> 8"
abbreviation MS_PATH :: nat where "MS_PATH \<equiv> 192"
abbreviation MAX_CMD_SIZE :: nat where "MAX_CMD_SIZE \<equiv> 32"
abbreviation MAX_ERR_MSG_SIZE :: nat where "MAX_ERR_MSG_SIZE \<equiv> 256"

record ms_object =
  mo_path :: string
  mo_access :: string

record ms_devprofile =
  md_device_index :: int
  md_net_ref_index :: int
  md_role :: string
  md_expected_hardware :: string
  md_network_type :: string
  md_objects :: "ms_object list"
  md_runtime_address :: string
  md_runtime_udp_port :: int
  md_runtime_bound :: bool
  md_online :: bool

record ms_module =
  mm_module_type :: string
  mm_module_ref_index :: int
  mm_service_module_type :: string
  mm_network_type :: string
  mm_devs :: "ms_devprofile list"

type_synonym ms_profile = "ms_module list"

section \<open>Reading JSON members\<close>

definition obj_long :: "json \<Rightarrow> string \<Rightarrow> int \<Rightarrow> int" where
  "obj_long j key dflt = (case json_number (json_object_get j key) of Some d \<Rightarrow> d_to_long d | None \<Rightarrow> dflt)"

text \<open>\<open>obj_str\<close> on a cleared destination.\<close>

definition obj_str :: "json \<Rightarrow> string \<Rightarrow> nat \<Rightarrow> string" where
  "obj_str j key dstsz =
     (case json_string (json_object_get j key) of Some s \<Rightarrow> hes_strlcpy dstsz s | None \<Rightarrow> [])"

section \<open>The product profile\<close>

definition ms_object_of :: "json \<Rightarrow> ms_object" where
  "ms_object_of ob = \<lparr>mo_path = obj_str ob ''lexiconPath'' MS_PATH, mo_access = obj_str ob ''access'' 8\<rparr>"

definition device_of :: "json \<Rightarrow> ms_devprofile" where
  "device_of dp =
     \<lparr>md_device_index = obj_long dp ''deviceIndex'' 0,
      md_net_ref_index = obj_long dp ''netRefIndex'' 0,
      md_role = obj_str dp ''deviceRole'' 64,
      md_expected_hardware = obj_str dp ''expectedHardware'' 96,
      md_network_type = obj_str dp ''networkType'' 16,
      md_objects = (case jobj_array dp ''objects'' of
                      None \<Rightarrow> [] | Some objs \<Rightarrow> load_rows MS_MAX_OBJECTS ms_object_of objs []),
      md_runtime_address = [], md_runtime_udp_port = 0, md_runtime_bound = False, md_online = False\<rparr>"

definition module_of :: "json \<Rightarrow> ms_module" where
  "module_of m =
     \<lparr>mm_module_type = obj_str m ''moduleType'' 8,
      mm_module_ref_index = obj_long m ''moduleRefIndex'' 0,
      mm_service_module_type = obj_str m ''serviceModuleType'' 8,
      mm_network_type = obj_str m ''networkType'' 16,
      mm_devs = (case jobj_array m ''deviceProfiles'' of
                   None \<Rightarrow> [] | Some dps \<Rightarrow> load_rows MS_MAX_DEVICES device_of dps [])\<rparr>"

definition load_profile ::
    "(string \<Rightarrow> string option) \<Rightarrow> (string \<Rightarrow> json option) \<Rightarrow> string \<Rightarrow> ms_profile option" where
  "load_profile read_file json_loads path =
     (case read_file path of
        None \<Rightarrow> None
      | Some txt \<Rightarrow>
          (case json_loads txt of
             None \<Rightarrow> None
           | Some doc \<Rightarrow>
               (case jobj_array doc ''modules'' of
                  None \<Rightarrow> None
                | Some modules \<Rightarrow>
                    (let pf = load_rows MS_MAX_MODULES module_of modules []
                     in if pf = [] then None else Some pf))))"

section \<open>Lookups\<close>

text \<open>A pointer into the profile is the position.\<close>

definition find_module :: "ms_profile \<Rightarrow> string \<Rightarrow> int \<Rightarrow> nat option" where
  "find_module pf module_type mi =
     first_index (\<lambda>m. mm_module_ref_index m = mi \<and> \<not> (module_type \<noteq> [] \<and> mm_module_type m \<noteq> module_type)) pf"

definition find_device :: "ms_module \<Rightarrow> int \<Rightarrow> nat option" where
  "find_device m di = first_index (\<lambda>d. md_device_index d = di) (mm_devs m)"

definition module_present :: "ms_module \<Rightarrow> bool" where
  "module_present m \<longleftrightarrow> list_ex md_runtime_bound (mm_devs m) \<or> mm_devs m = []"

section \<open>Rendering\<close>

text \<open>A line of the JSON text.\<close>

definition json_line :: "nat \<Rightarrow> string \<Rightarrow> string" where
  "json_line ind s = replicate ind CHR '' '' @ s @ [CHR 0x0A]"

definition member :: "string \<Rightarrow> string \<Rightarrow> string" where
  "member k v = quoted k @ '': '' @ v"

definition device_status :: "ms_devprofile \<Rightarrow> string" where
  "device_status d = (if md_runtime_bound d then (if md_online d then ''online'' else ''offline'') else ''unbound'')"

fun object_lines :: "ms_object list \<Rightarrow> string" where
  "object_lines [] = []"
| "object_lines (ob # obs) =
     json_line 8 (''{ '' @ member ''lexiconPath'' (quoted (mo_path ob)) @ '', ''
                    @ member ''access'' (quoted (mo_access ob)) @ '' }'' @ (if obs \<noteq> [] then '','' else []))
     @ object_lines obs"

definition device_text :: "ms_module \<Rightarrow> ms_devprofile \<Rightarrow> string" where
  "device_text m d =
     (let nt = (if md_network_type d \<noteq> [] then md_network_type d else mm_network_type m)
      in json_line 4 ''{''
         @ json_line 6 (member ''deviceIndex'' (dec_int (md_device_index d)) @ '','')
         @ json_line 6 (member ''netRefIndex'' (dec_int (md_net_ref_index d)) @ '','')
         @ json_line 6 (member ''deviceRole'' (quoted (md_role d)) @ '','')
         @ json_line 6 (member ''expectedHardware'' (quoted (md_expected_hardware d)) @ '','')
         @ json_line 6 (member ''networkType'' (quoted nt) @ '','')
         @ json_line 6 (member ''address'' (quoted (md_runtime_address d)) @ '','')
         @ json_line 6 (member ''udpPort'' (dec_int (md_runtime_udp_port d)) @ '','')
         @ json_line 6 (member ''status'' (quoted (device_status d)) @ '','')
         @ json_line 6 (member ''objects'' ''['')
         @ object_lines (md_objects d)
         @ json_line 6 '']'' @ ''    }'')"

text \<open>Entries separated as the loops do: a comma and a new line before all but the first.\<close>

fun separated :: "string list \<Rightarrow> string" where
  "separated [] = []"
| "separated [t] = t"
| "separated (t # ts) = t @ '','' @ [CHR 0x0A] @ separated ts"

definition build_slice :: "ms_module \<Rightarrow> string" where
  "build_slice m =
     json_line 0 ''{''
     @ json_line 2 (member ''gatewayId'' (quoted ''HES-GW-2026-99A1'') @ '','')
     @ json_line 2 (member ''moduleType'' (quoted (mm_module_type m)) @ '','')
     @ json_line 2 (member ''moduleRefIndex'' (dec_int (mm_module_ref_index m)) @ '','')
     @ json_line 2 (member ''networkType'' (quoted (mm_network_type m)) @ '','')
     @ json_line 2 (member ''devices'' ''['')
     @ separated (map (device_text m) (mm_devs m))
     @ json_line 0 [] @ json_line 2 '']'' @ json_line 0 ''}''"

definition module_entry_text :: "ms_module \<Rightarrow> string" where
  "module_entry_text m =
     json_line 4 ''{''
     @ json_line 6 (member ''moduleType'' (quoted (mm_module_type m)) @ '','')
     @ json_line 6 (member ''moduleRefIndex'' (dec_int (mm_module_ref_index m)) @ '','')
     @ json_line 6 (member ''serviceModuleType'' (quoted (mm_service_module_type m)) @ '','')
     @ json_line 6 (member ''present'' (if module_present m then ''1'' else ''0''))
     @ ''    }''"

definition build_modules_list :: "ms_profile \<Rightarrow> string" where
  "build_modules_list pf =
     json_line 0 ''{'' @ json_line 2 (member ''modules'' ''['')
     @ separated (map module_entry_text pf)
     @ json_line 0 [] @ json_line 2 '']'' @ json_line 0 ''}''"

section \<open>The request handler\<close>

text \<open>What leaves on the REP socket, and on the PUB socket.\<close>

datatype ms_output = Reply string | Publish string

definition error_reply :: "string \<Rightarrow> string" where
  "error_reply why = ''{'' @ quoted ''error'' @ '':'' @ quoted why @ ''}''"

definition publish_slice :: "ms_module \<Rightarrow> ms_output" where
  "publish_slice m = Publish (dec_int (mm_module_ref_index m) @ build_slice m)"

text \<open>One entry of a report, applied to the device it names.\<close>

definition report_device :: "json \<Rightarrow> ms_devprofile \<Rightarrow> ms_devprofile" where
  "report_device e d =
     (let addr = obj_str e ''address'' MS_PATH;
          udp = obj_long e ''udpPort'' (- 1);
          online = obj_long e ''online'' (- 1);
          d = d\<lparr>md_runtime_bound := True\<rparr>;
          d = (if addr \<noteq> [] then d\<lparr>md_runtime_address := addr\<rparr> else d);
          d = (if 0 \<le> udp then d\<lparr>md_runtime_udp_port := c_int udp\<rparr> else d)
      in if 0 \<le> online then d\<lparr>md_online := (online \<noteq> 0)\<rparr> else d)"

definition report_entry :: "json \<Rightarrow> ms_module \<times> bool \<Rightarrow> ms_module \<times> bool" where
  "report_entry e acc =
     (case acc of (m, changed) \<Rightarrow>
        if \<not> json_is_object e then acc
        else case find_device m (obj_long e ''deviceIndex'' (- 1)) of
               None \<Rightarrow> acc
             | Some i \<Rightarrow> (m\<lparr>mm_devs := (mm_devs m)[i := report_device e (mm_devs m ! i)]\<rparr>, True))"

definition report_devices :: "json \<Rightarrow> ms_module \<Rightarrow> ms_module \<times> bool" where
  "report_devices doc m =
     (case jobj_array doc ''devices'' of None \<Rightarrow> (m, False) | Some es \<Rightarrow> fold report_entry es (m, False))"

definition handle_request ::
    "(string \<Rightarrow> json option) \<Rightarrow> ms_profile \<Rightarrow> string \<Rightarrow> ms_profile \<times> ms_output list" where
  "handle_request json_loads pf req =
     (case json_loads req of
        None \<Rightarrow> (pf, [Reply (error_reply ''bad json'')])
      | Some doc \<Rightarrow>
          (let cmd = obj_str doc ''cmd'' MAX_CMD_SIZE
           in if cmd = ''modules'' then (pf, [Reply (build_modules_list pf)])
              else
                (let mi = obj_long doc ''moduleRefIndex'' (- 1)
                 in if mi < 0 then (pf, [Reply (error_reply ''missing moduleRefIndex'')])
                    else
                      (let mt = obj_str doc ''moduleType'' MAX_CMD_SIZE
                       in case find_module pf mt mi of
                            None \<Rightarrow>
                              (pf, [Reply (hes_strlcpy MAX_ERR_MSG_SIZE
                                      (error_reply (''no module '' @ (if mt \<noteq> [] then mt @ ''/'' else []) @ dec_int mi)))])
                          | Some i \<Rightarrow>
                              if cmd = ''query'' then (pf, [Reply (build_slice (pf ! i))])
                              else if cmd = ''report'' then
                                (let (m, changed) = report_devices doc (pf ! i)
                                 in (pf[i := m],
                                     (if changed then [publish_slice m] else [])
                                       @ [Reply (''{'' @ quoted ''ok'' @ '':1}'')]))
                              else (pf, [Reply (error_reply ''unknown cmd'')])))))"

text \<open>The service loop: every request that arrives is handled, on the profile the last one left.\<close>

inductive dm_step :: "(string \<Rightarrow> json option) \<Rightarrow> ms_profile \<Rightarrow> string \<Rightarrow> ms_output list \<Rightarrow> ms_profile \<Rightarrow> bool"
  for json_loads where
  request: "handle_request json_loads pf req = (pf', outs) \<Longrightarrow> dm_step json_loads pf req outs pf'"

inductive dm_run :: "(string \<Rightarrow> json option) \<Rightarrow> ms_profile \<Rightarrow> string list \<Rightarrow> ms_output list list \<Rightarrow> ms_profile \<Rightarrow> bool"
  for json_loads where
  idle: "dm_run json_loads pf [] [] pf"
| serve: "dm_step json_loads pf req outs pf1 \<Longrightarrow> dm_run json_loads pf1 reqs outss pf2
    \<Longrightarrow> dm_run json_loads pf (req # reqs) (outs # outss) pf2"

inductive_cases dm_stepE: "dm_step json_loads pf req outs pf'"
inductive_simps dm_run_simps: "dm_run json_loads pf [] outss pf'" "dm_run json_loads pf (req # reqs) outss pf'"

end
