(* ===== verification/Mreg.thy ===== *)
theory Mreg
  imports DevReg Nng Dm
begin

text \<open>
  The modules' client of the manifest service (src/src/common/hes_mreg.c): connecting, asking for
  the own slice and for the module list, reporting, and taking updates. What NNG answers -- the
  result of every call and the bytes of a reply or a notification -- are arguments, as is the
  JSON parser.
\<close>

abbreviation HES_MREG_REQ_MAX :: nat where "HES_MREG_REQ_MAX \<equiv> 8192"
abbreviation HES_MREG_REPLY_MAX :: nat where "HES_MREG_REPLY_MAX \<equiv> 65536"
abbreviation HES_MREG_REPLY_TIMEOUT_MS :: int where "HES_MREG_REPLY_TIMEOUT_MS \<equiv> 3000"
abbreviation HES_MODULES_MAX :: nat where "HES_MODULES_MAX \<equiv> 16"

text \<open>The flags tell whether the handle's socket fields name sockets, as \<open>nng_socket_id\<close> does.\<close>

record hes_mreg =
  mr_req :: bool
  mr_sub :: bool
  mr_module_type :: string
  mr_module_ref_index :: u32
  mr_topic :: string

record hes_module_entry =
  me_module_type :: string
  me_module_ref_index :: u32
  me_service_module_type :: string
  me_present :: bool

definition mreg_zero :: hes_mreg where
  "mreg_zero = \<lparr>mr_req = False, mr_sub = False, mr_module_type = [], mr_module_ref_index = 0, mr_topic = []\<rparr>"

section \<open>Connecting\<close>

definition dial_once :: "nng_sock \<Rightarrow> string \<Rightarrow> nng \<Rightarrow> int \<times> nng" where
  "dial_once sock url n = call (Dial sock url) n"

definition hes_mreg_open ::
    "string \<Rightarrow> string \<Rightarrow> string option \<Rightarrow> u32 \<Rightarrow> nng \<Rightarrow> int \<times> hes_mreg \<times> nng" where
  "hes_mreg_open rep_url pub_url module_type mi n =
     (let m = mreg_zero\<lparr>mr_module_type := (case module_type of Some t \<Rightarrow> hes_strlcpy 8 t | None \<Rightarrow> []),
                        mr_module_ref_index := mi, mr_topic := hes_strlcpy 16 (dec_u32 mi)\<rparr>;
          (rv, n) = call (Open ReqSock) n
      in if rv \<noteq> 0 then (rv, m, n)
         else let m = m\<lparr>mr_req := True\<rparr>;
                  n = run (Recv_timeout ReqSock HES_MREG_REPLY_TIMEOUT_MS) n;
                  (rv, n) = dial_with_retry ReqSock rep_url n
         in if rv \<noteq> 0 then (- 1, m, run (Close ReqSock) n)
         else let (rv, n) = call (Open SubSock) n
         in if rv \<noteq> 0 then (rv, m, run (Close ReqSock) n)
         else let m = m\<lparr>mr_sub := True\<rparr>;
                  n = run (Subscribe SubSock (mr_topic m)) n;
                  (rv, n) = dial_with_retry SubSock pub_url n
         in if rv \<noteq> 0 then (- 1, m, run (Close SubSock) (run (Close ReqSock) n))
         else (0, m, n))"

text \<open>A NULL handle or address, or an empty one, is refused before anything is opened.\<close>

definition hes_mreg_open_registry :: "string option \<Rightarrow> int \<Rightarrow> nng \<Rightarrow> int \<times> hes_mreg \<times> nng" where
  "hes_mreg_open_registry rep_url timeout_ms n =
     (if rep_url = None \<or> rep_url = Some [] then (- 1, mreg_zero, n)
      else let (rv, n) = call (Open ReqSock) n
      in if rv \<noteq> 0 then (rv, mreg_zero, n)
         else let n = run (Recv_timeout ReqSock (if 0 < timeout_ms then timeout_ms else HES_MREG_REPLY_TIMEOUT_MS)) n;
                  (rv, n) = dial_once ReqSock (the rep_url) n
         in if rv \<noteq> 0 then (- 1, mreg_zero, run (Close ReqSock) n)
         else (0, mreg_zero\<lparr>mr_req := True\<rparr>, n))"

definition hes_mreg_close :: "hes_mreg \<Rightarrow> nng \<Rightarrow> nng" where
  "hes_mreg_close m n =
     (let n = (if mr_req m then run (Close ReqSock) n else n)
      in if mr_sub m then run (Close SubSock) n else n)"

section \<open>Asking\<close>

text \<open>One exchange: what \<open>nng_send\<close> returned for the request, and what \<open>nng_recv\<close> did.\<close>

record exchange =
  ex_send :: "string \<Rightarrow> int"
  ex_recv :: "string \<Rightarrow> int + string"

definition req_reply :: "exchange \<Rightarrow> string \<Rightarrow> nat \<Rightarrow> string option" where
  "req_reply ex req replysz =
     (if ex_send ex req \<noteq> 0 then None
      else case ex_recv ex req of Inl rv \<Rightarrow> None | Inr bytes \<Rightarrow> Some (take (replysz - 1) bytes))"

definition parse_slice :: "(string \<Rightarrow> json option) \<Rightarrow> hes_devreg \<Rightarrow> string \<Rightarrow> hes_devreg \<times> bool" where
  "parse_slice json_loads reg txt =
     (case json_loads txt of None \<Rightarrow> (reg, False) | Some doc \<Rightarrow> hes_devreg_parse doc)"

definition query_text :: "hes_mreg \<Rightarrow> string" where
  "query_text m =
     hes_strlcpy HES_MREG_REQ_MAX
       (''{'' @ quoted ''cmd'' @ '':'' @ quoted ''query'' @ '','' @ quoted ''moduleType'' @ '':'' @ quoted (mr_module_type m)
        @ '','' @ quoted ''moduleRefIndex'' @ '':'' @ dec_u32 (mr_module_ref_index m) @ ''}'')"

definition hes_mreg_query ::
    "exchange \<Rightarrow> (string \<Rightarrow> json option) \<Rightarrow> hes_mreg \<Rightarrow> hes_devreg \<Rightarrow> hes_devreg \<times> bool" where
  "hes_mreg_query ex json_loads m reg =
     (case req_reply ex (query_text m) HES_MREG_REPLY_MAX of
        None \<Rightarrow> (reg, False)
      | Some reply \<Rightarrow> parse_slice json_loads reg reply)"

definition json_str_field :: "json \<Rightarrow> string \<Rightarrow> nat \<Rightarrow> string" where
  "json_str_field j key dstsz =
     (case json_string (json_object_get j key) of Some s \<Rightarrow> hes_strlcpy dstsz s | None \<Rightarrow> [])"

definition json_u32_field :: "json \<Rightarrow> string \<Rightarrow> u32" where
  "json_u32_field j key =
     (case json_number (json_object_get j key) of
        Some d \<Rightarrow> if d_lt d_zero d then d_to_u32 d else 0 | None \<Rightarrow> 0)"

definition json_flag_field :: "json \<Rightarrow> string \<Rightarrow> bool" where
  "json_flag_field j key =
     (case json_number (json_object_get j key) of Some d \<Rightarrow> \<not> d_eq d d_zero | None \<Rightarrow> False)"

definition module_entry :: "json \<Rightarrow> hes_module_entry" where
  "module_entry mo =
     \<lparr>me_module_type = json_str_field mo ''moduleType'' 8,
      me_module_ref_index = json_u32_field mo ''moduleRefIndex'',
      me_service_module_type = json_str_field mo ''serviceModuleType'' 8,
      me_present = json_flag_field mo ''present''\<rparr>"

definition modules_text :: string where
  "modules_text = ''{'' @ quoted ''cmd'' @ '':'' @ quoted ''modules'' @ ''}''"

definition hes_mreg_query_modules ::
    "exchange \<Rightarrow> (string \<Rightarrow> json option) \<Rightarrow> hes_module_entry list option" where
  "hes_mreg_query_modules ex json_loads =
     (case req_reply ex modules_text HES_MREG_REPLY_MAX of
        None \<Rightarrow> None
      | Some reply \<Rightarrow>
          (case json_loads reply of
             None \<Rightarrow> None
           | Some doc \<Rightarrow> map_option (\<lambda>arr. load_rows HES_MODULES_MAX module_entry arr []) (jobj_array doc ''modules'')))"

section \<open>Reporting\<close>

text \<open>\<open>snprintf(req + off, sizeof(req) - off, ..)\<close>: the text so far and the offset, which counts
  what would have been written.\<close>

definition append_at :: "string \<times> nat \<Rightarrow> string \<Rightarrow> string \<times> nat" where
  "append_at acc s =
     (case acc of (buf, off) \<Rightarrow> (take (HES_MREG_REQ_MAX - 1) (take off buf @ s), off + length s))"

definition report_item :: "nat \<Rightarrow> hes_device \<Rightarrow> string" where
  "report_item i d =
     (if i \<noteq> 0 then '','' else []) @ ''{'' @ quoted ''deviceIndex'' @ '':'' @ dec_u32 (dv_device_index d)
     @ '','' @ quoted ''netRefIndex'' @ '':'' @ dec_u32 (dv_net_ref_index d)
     @ '','' @ quoted ''address'' @ '':'' @ quoted (dv_address d)
     @ '','' @ quoted ''udpPort'' @ '':'' @ dec_int (dv_udp_port d)
     @ '','' @ quoted ''online'' @ '':'' @ (if dv_online d then ''1'' else ''0'') @ ''}''"

definition report_head :: "hes_mreg \<Rightarrow> string" where
  "report_head m =
     ''{'' @ quoted ''cmd'' @ '':'' @ quoted ''report'' @ '','' @ quoted ''moduleType'' @ '':'' @ quoted (mr_module_type m)
     @ '','' @ quoted ''moduleRefIndex'' @ '':'' @ dec_u32 (mr_module_ref_index m) @ '','' @ quoted ''devices'' @ '':[''"

fun report_loop :: "nat \<Rightarrow> hes_device list \<Rightarrow> string \<times> nat \<Rightarrow> string \<times> nat" where
  "report_loop i [] acc = acc"
| "report_loop i (d # ds) acc =
     (if snd acc < HES_MREG_REQ_MAX then report_loop (Suc i) ds (append_at acc (report_item i d)) else acc)"

text \<open>The request; \<open>None\<close> when the offset is past the end, where \<open>sizeof(req) - off\<close> wraps.\<close>

definition report_text :: "hes_mreg \<Rightarrow> hes_devreg \<Rightarrow> string option" where
  "report_text m reg =
     (let (buf, off) = report_loop 0 (rg_devices reg) (append_at ([], 0) (report_head m))
      in if off > HES_MREG_REQ_MAX then None else Some (fst (append_at (buf, off) '']}'')))"

definition hes_mreg_report :: "exchange \<Rightarrow> hes_mreg \<Rightarrow> hes_devreg \<Rightarrow> bool option" where
  "hes_mreg_report ex m reg = map_option (\<lambda>req. req_reply ex req 256 \<noteq> None) (report_text m reg)"

section \<open>Updates\<close>

text \<open>\<open>Inl\<close> is the error code of \<open>nng_recv\<close>.\<close>

definition hes_mreg_recv_update ::
    "(string \<Rightarrow> json option) \<Rightarrow> hes_mreg \<Rightarrow> int + string \<Rightarrow> hes_devreg \<Rightarrow> int + hes_devreg \<times> bool" where
  "hes_mreg_recv_update json_loads m received reg =
     (case received of
        Inl rv \<Rightarrow> Inl rv
      | Inr bytes \<Rightarrow>
          (let p = take (HES_MREG_REPLY_MAX - 1) bytes;
               tlen = length (mr_topic m);
               p = (if take tlen p = mr_topic m then drop tlen p else p)
           in Inr (parse_slice json_loads reg p)))"

end
