(* ===== verification/DmProps.thy ===== *)
theory DmProps
  imports Dm
begin

text \<open>
  The device manifest service is correct: a report reaches exactly the devices it names, every
  request gets exactly one reply, and over a whole run the declared profile never changes while a
  device once reported stays bound.
\<close>

section \<open>Reports\<close>

text \<open>What the product profile declares, without the runtime facts.\<close>

definition static_device :: "ms_devprofile \<Rightarrow> ms_devprofile" where
  "static_device d = d\<lparr>md_runtime_address := [], md_runtime_udp_port := 0, md_runtime_bound := False,
                       md_online := False\<rparr>"

definition static_module :: "ms_module \<Rightarrow> ms_module" where
  "static_module m = m\<lparr>mm_devs := map static_device (mm_devs m)\<rparr>"

lemma report_device_static [simp]: "static_device (report_device e d) = static_device d"
  by (simp add: report_device_def static_device_def Let_def)

lemma report_device_bound [simp]: "md_runtime_bound (report_device e d)"
  by (simp add: report_device_def Let_def)

lemma static_device_index: "static_device d = static_device d' \<Longrightarrow> md_device_index d = md_device_index d'"
  by (cases d; cases d') (simp add: static_device_def)

lemma static_index_map:
  assumes "static_module m = static_module m'"
  shows "map md_device_index (mm_devs m) = map md_device_index (mm_devs m')"
proof -
  have "map static_device (mm_devs m) = map static_device (mm_devs m')"
    using assms by (cases m; cases m') (simp add: static_module_def)
  then have "map (md_device_index \<circ> static_device) (mm_devs m) = map (md_device_index \<circ> static_device) (mm_devs m')"
    by (metis map_map)
  then show ?thesis by (simp add: o_def static_device_def)
qed

lemma find_device_static:
  assumes "static_module m = static_module m'"
  shows "find_device m di = find_device m' di"
  using static_index_map[OF assms] first_index_map[of "\<lambda>i. i = di" md_device_index "mm_devs m"]
    first_index_map[of "\<lambda>i. i = di" md_device_index "mm_devs m'"]
  by (simp add: find_device_def o_def)

text \<open>The position of the device an entry of a report is about.\<close>

definition entry_target :: "ms_module \<Rightarrow> json \<Rightarrow> nat option" where
  "entry_target m e = (if json_is_object e then find_device m (obj_long e ''deviceIndex'' (- 1)) else None)"

text \<open>A device after a report: the entries about it, one after the other.\<close>

definition reported_device :: "ms_module \<Rightarrow> json list \<Rightarrow> nat \<Rightarrow> ms_devprofile" where
  "reported_device m es k = fold report_device (filter (\<lambda>e. entry_target m e = Some k) es) (mm_devs m ! k)"

lemma report_entry_target:
  "report_entry e (m, b) =
     (case entry_target m e of
        None \<Rightarrow> (m, b)
      | Some i \<Rightarrow> (m\<lparr>mm_devs := (mm_devs m)[i := report_device e (mm_devs m ! i)]\<rparr>, True))"
  by (simp add: report_entry_def entry_target_def)

lemma find_device_bound: "find_device m di = Some i \<Longrightarrow> i < length (mm_devs m)"
  unfolding find_device_def by (drule first_index_Some) simp

lemma static_module_update:
  assumes "i < length (mm_devs m)" "static_device d = static_device (mm_devs m ! i)"
  shows "static_module (m\<lparr>mm_devs := (mm_devs m)[i := d]\<rparr>) = static_module m"
  using assms by (simp add: static_module_def map_update list_update_same_conv)

lemma report_entries:
  "fold report_entry es (m, b) =
     (m\<lparr>mm_devs := map (reported_device m es) [0 ..< length (mm_devs m)]\<rparr>, b \<or> list_ex (\<lambda>e. entry_target m e \<noteq> None) es)"
proof (induction es arbitrary: m b)
  case Nil
  show ?case by (simp add: reported_device_def map_nth)
next
  case (Cons e es)
  show ?case
  proof (cases "entry_target m e")
    case None
    then have "reported_device m (e # es) = reported_device m es" by (simp add: reported_device_def fun_eq_iff)
    with None show ?thesis by (simp add: report_entry_target Cons.IH)
  next
    case (Some i)
    then have i: "i < length (mm_devs m)"
      by (auto simp: entry_target_def intro: find_device_bound split: if_splits)
    let ?m = "m\<lparr>mm_devs := (mm_devs m)[i := report_device e (mm_devs m ! i)]\<rparr>"
    have "static_module ?m = static_module m" using i by (intro static_module_update) simp_all
    from find_device_static[OF this] have target: "entry_target ?m e' = entry_target m e'" for e'
      by (simp only: entry_target_def)
    have "reported_device ?m es k = reported_device m (e # es) k" if "k < length (mm_devs m)" for k
      using Some that by (simp add: reported_device_def target nth_list_update)
    then have "map (reported_device ?m es) [0 ..< length (mm_devs m)] = map (reported_device m (e # es)) [0 ..< length (mm_devs m)]"
      by simp
    with Some show ?thesis by (simp add: report_entry_target Cons.IH target)
  qed
qed

lemma reported_bound: "md_runtime_bound d \<Longrightarrow> md_runtime_bound (fold report_device es d)"
  by (induction es arbitrary: d) simp_all

lemma report_devices_keeps:
  assumes "report_devices doc m = (m', changed)"
  shows "static_module m' = static_module m"
    and "list_all2 (\<lambda>d d'. md_runtime_bound d \<longrightarrow> md_runtime_bound d') (mm_devs m) (mm_devs m')"
proof -
  have fold_static: "static_device (fold report_device es d) = static_device d" for es d
    by (induction es arbitrary: d) simp_all
  have same: "map (\<lambda>k. static_device (mm_devs m ! k)) [0 ..< length (mm_devs m)] = map static_device (mm_devs m)"
    by (rule nth_equalityI) simp_all
  obtain es where "m' = m \<or> m' = m\<lparr>mm_devs := map (reported_device m es) [0 ..< length (mm_devs m)]\<rparr>"
    using assms by (auto simp: report_devices_def report_entries split: option.splits)
  then show "static_module m' = static_module m"
    and "list_all2 (\<lambda>d d'. md_runtime_bound d \<longrightarrow> md_runtime_bound d') (mm_devs m) (mm_devs m')"
    by (auto simp: static_module_def reported_device_def fold_static o_def same list_all2_conv_all_nth reported_bound)
qed

text \<open>C26: A report reaches the devices it names and nothing else. The service answers it with
  \<open>{"ok":1}\<close>; a device of the addressed module becomes what the entries that carry its index
  make of it, in order, all others and all other modules stay; and the module's fresh slice is
  published, before the reply, exactly when an entry named a device.\<close>

theorem report_reaches_named:
  assumes "json_loads req = Some doc" "obj_str doc ''cmd'' MAX_CMD_SIZE = ''report''"
    and "0 \<le> obj_long doc ''moduleRefIndex'' (- 1)" "jobj_array doc ''devices'' = Some es"
    and "find_module pf (obj_str doc ''moduleType'' MAX_CMD_SIZE) (obj_long doc ''moduleRefIndex'' (- 1)) = Some i"
  shows "\<exists>m. handle_request json_loads pf req
         = (pf[i := m], (if list_ex (\<lambda>e. entry_target (pf ! i) e \<noteq> None) es then [publish_slice m] else [])
                          @ [Reply (''{'' @ quoted ''ok'' @ '':1}'')])
     \<and> length (mm_devs m) = length (mm_devs (pf ! i))
     \<and> (\<forall>k < length (mm_devs m). mm_devs m ! k =
          fold report_device (filter (\<lambda>e. entry_target (pf ! i) e = Some k) es) (mm_devs (pf ! i) ! k))
     \<and> static_module m = static_module (pf ! i)"
proof -
  let ?m = "(pf ! i)\<lparr>mm_devs := map (reported_device (pf ! i) es) [0 ..< length (mm_devs (pf ! i))]\<rparr>"
  have devs: "report_devices doc (pf ! i) = (?m, list_ex (\<lambda>e. entry_target (pf ! i) e \<noteq> None) es)"
    using assms(4) by (simp add: report_devices_def report_entries)
  have "static_module ?m = static_module (pf ! i)" by (rule report_devices_keeps(1)[OF devs])
  then show ?thesis
    using assms devs by (intro exI[of _ ?m]) (simp add: handle_request_def Let_def reported_device_def)
qed

section \<open>Whole runs\<close>

definition one_reply :: "ms_output list \<Rightarrow> bool" where
  "one_reply outs \<longleftrightarrow> (\<exists>r. outs = [Reply r] \<or> (\<exists>t. outs = [Publish t, Reply r]))"

text \<open>Every device of the first profile that is bound is bound in the second.\<close>

definition stays_bound :: "ms_profile \<Rightarrow> ms_profile \<Rightarrow> bool" where
  "stays_bound pf pf' \<longleftrightarrow>
     list_all2 (\<lambda>m m'. list_all2 (\<lambda>d d'. md_runtime_bound d \<longrightarrow> md_runtime_bound d') (mm_devs m) (mm_devs m')) pf pf'"

lemma stays_bound_refl: "stays_bound pf pf"
  by (simp add: stays_bound_def list.rel_refl)

lemma stays_bound_trans: "stays_bound a b \<Longrightarrow> stays_bound b c \<Longrightarrow> stays_bound a c"
  unfolding stays_bound_def
  by (erule list_all2_trans[rotated], assumption) (erule list_all2_trans[rotated], assumption, simp)

lemma request_keeps:
  assumes "handle_request json_loads pf req = (pf', outs)"
  shows "one_reply outs \<and> map static_module pf' = map static_module pf \<and> stays_bound pf pf'"
proof -
  have upd: "map static_module (pf[i := m]) = map static_module pf \<and> stays_bound pf (pf[i := m])"
    if "report_devices doc (pf ! i) = (m, changed)" for doc i m changed
  proof (cases "i < length pf")
    case True
    have "list_all2 (\<lambda>d d'. md_runtime_bound d \<longrightarrow> md_runtime_bound d') (mm_devs m) (mm_devs m)" for m
      by (simp add: list.rel_refl)
    then show ?thesis
      using report_devices_keeps[OF that] True
      by (simp add: map_update list_update_same_conv stays_bound_def list_all2_conv_all_nth nth_list_update)
  qed (simp add: list_update_beyond stays_bound_refl)
  show ?thesis
    using assms
    by (auto simp: handle_request_def Let_def one_reply_def stays_bound_refl upd publish_slice_def
        split: option.splits if_splits prod.splits)
qed

text \<open>C27: The service over a whole run. Whatever requests arrive and however they parse, each gets
  exactly one reply, after at most one notification; the declared profile is the one it was
  started with; and a device that has been reported once stays bound.\<close>

theorem run_discipline:
  assumes "dm_run json_loads pf reqs outss pf'"
  shows "length outss = length reqs \<and> list_all one_reply outss
     \<and> map static_module pf' = map static_module pf \<and> stays_bound pf pf'"
  using assms
proof (induction rule: dm_run.induct)
  case (idle pf)
  show ?case by (simp add: stays_bound_refl)
next
  case (serve pf req outs pf1 reqs outss pf2)
  from serve.hyps(1) have "handle_request json_loads pf req = (pf1, outs)" by (cases rule: dm_step.cases) simp
  from request_keeps[OF this] serve.IH show ?case using stays_bound_trans[of pf pf1 pf2] by simp
qed

definition sample_profile :: ms_profile where
  "sample_profile =
     [\<lparr>mm_module_type = ''sm'', mm_module_ref_index = 1, mm_service_module_type = ''id'', mm_network_type = [],
       mm_devs = []\<rparr>,
      \<lparr>mm_module_type = ''hi'', mm_module_ref_index = 1, mm_service_module_type = [], mm_network_type = ''WiFi'',
       mm_devs = [\<lparr>md_device_index = 6, md_net_ref_index = 1, md_role = ''lamp'', md_expected_hardware = ''bulb'',
                   md_network_type = [], md_objects = [\<lparr>mo_path = ''/lx/a'', mo_access = ''rw''\<rparr>],
                   md_runtime_address = [], md_runtime_udp_port = 0, md_runtime_bound = False, md_online = False\<rparr>]\<rparr>]"

text \<open>A parser that knows two requests: a report about device 6 (and an unknown one), and a query.\<close>

definition sample_requests :: "string \<Rightarrow> json option" where
  "sample_requests txt =
     (if txt = ''report'' then Some (JObj [(''cmd'', JStr ''report''), (''moduleType'', JStr ''hi''),
          (''moduleRefIndex'', JInt 1),
          (''devices'', JArr [JObj [(''deviceIndex'', JInt 6), (''address'', JStr ''10.0.0.9''), (''online'', JInt 1)],
                              JObj [(''deviceIndex'', JInt 99)]])])
      else if txt = ''query'' then Some (JObj [(''cmd'', JStr ''query''), (''moduleRefIndex'', JInt 1)])
      else None)"

lemmas sample_dm_defs = sample_profile_def sample_requests_def obj_str_def obj_long_def d_to_long_of_int
  hes_strlcpy_take jobj_array_def find_module_def

text \<open>No request blocks the service.\<close>

lemma dm_run_total: "\<exists>outss pf'. dm_run json_loads pf reqs outss pf'"
proof (induction reqs arbitrary: pf)
  case (Cons req reqs)
  obtain pf1 outs where "dm_step json_loads pf req outs pf1"
    using dm_step.request[OF surjective_pairing] by blast
  with Cons[of pf1] show ?case using dm_run.serve by blast
qed (use dm_run.idle in blast)

theorem run_discipline_witness:
  "\<exists>outss pf'. dm_run sample_requests sample_profile [''report'', ''query'', ''junk''] outss pf'
     \<and> length outss = 3 \<and> list_all one_reply outss"
proof -
  obtain outss pf' where "dm_run sample_requests sample_profile [''report'', ''query'', ''junk''] outss pf'"
    using dm_run_total by blast
  with run_discipline[OF this] show ?thesis by auto
qed

theorem report_reaches_named_witness:
  "\<exists>m t. handle_request sample_requests sample_profile ''report''
       = (sample_profile[1 := m], [publish_slice m, Reply t])
     \<and> md_runtime_address (mm_devs m ! 0) = ''10.0.0.9'' \<and> md_online (mm_devs m ! 0)"
proof -
  define doc where "doc = the (sample_requests ''report'')"
  define es where "es = the (jobj_array doc ''devices'')"
  have req: "sample_requests ''report'' = Some doc" "obj_str doc ''cmd'' MAX_CMD_SIZE = ''report''"
    "0 \<le> obj_long doc ''moduleRefIndex'' (- 1)" "jobj_array doc ''devices'' = Some es"
    "find_module sample_profile (obj_str doc ''moduleType'' MAX_CMD_SIZE) (obj_long doc ''moduleRefIndex'' (- 1)) = Some 1"
    unfolding es_def doc_def by (simp_all add: sample_dm_defs del: d_of_int.simps)
  have target: "map (entry_target (sample_profile ! 1)) es = [Some 0, None]"
    by (simp add: es_def doc_def entry_target_def find_device_def json_is_object_def sample_dm_defs del: d_of_int.simps)
  then have named: "list_ex (\<lambda>e. entry_target (sample_profile ! 1) e \<noteq> None) es"
    and filt: "filter (\<lambda>e. entry_target (sample_profile ! 1) e = Some 0) es = [hd es]"
    by (cases es; cases "tl es"; auto)+
  obtain m where m: "handle_request sample_requests sample_profile ''report''
       = (sample_profile[1 := m], (if list_ex (\<lambda>e. entry_target (sample_profile ! 1) e \<noteq> None) es then [publish_slice m] else [])
            @ [Reply (''{'' @ quoted ''ok'' @ '':1}'')])"
    "length (mm_devs m) = length (mm_devs (sample_profile ! 1))"
    "\<forall>k < length (mm_devs m). mm_devs m ! k =
       fold report_device (filter (\<lambda>e. entry_target (sample_profile ! 1) e = Some k) es) (mm_devs (sample_profile ! 1) ! k)"
    using report_reaches_named[where json_loads = sample_requests and pf = sample_profile and req = "''report''", OF req]
    by (elim exE conjE)
  have "mm_devs m ! 0 = report_device (hd es) (mm_devs (sample_profile ! 1) ! 0)"
    using m(2,3) filt by (simp add: sample_profile_def)
  then have "md_runtime_address (mm_devs m ! 0) = ''10.0.0.9''" "md_online (mm_devs m ! 0)"
    by (simp_all add: report_device_def es_def doc_def sample_dm_defs Let_def del: d_of_int.simps)
  then show ?thesis using m(1) named by auto
qed

end
