(* ===== verification/MregProps.thy ===== *)
theory MregProps
  imports Mreg DmProps
begin

text \<open>
  The manifest service and its clients together: a report always reaches the service whole, a
  slice always fits the client's reply buffer, a module's query is answered with its own devices,
  and -- what the per-module topics are meant to prevent -- a module takes over the slice of
  another module that has the same index.
\<close>

section \<open>A report is complete\<close>

definition items_text :: "nat \<Rightarrow> hes_device list \<Rightarrow> string" where
  "items_text i ds = concat (map (\<lambda>(k, d). report_item k d) (enumerate i ds))"

lemma report_item_length:
  assumes "wf_device d"
  shows "length (report_item i d) \<le> 180"
proof -
  have "length (dec_int (dv_udp_port d)) \<le> 11"
    by (rule dec_int_length[of _ 10, simplified]) (use assms in \<open>auto simp: wf_device_def abs_less_iff\<close>)
  then show ?thesis
    using assms dec_u32_length[of "dv_device_index d"] dec_u32_length[of "dv_net_ref_index d"]
    by (simp add: report_item_def quoted_def wf_device_def)
qed

lemma append_at_room:
  "length buf = off \<Longrightarrow> off + length s < HES_MREG_REQ_MAX \<Longrightarrow>
   append_at (buf, off) s = (buf @ s, off + length s)"
  by (simp add: append_at_def)

lemma report_loop_room:
  assumes "list_all wf_device ds"
  shows "length buf + 180 * length ds < HES_MREG_REQ_MAX \<Longrightarrow>
    report_loop i ds (buf, length buf) = (buf @ items_text i ds, length buf + length (items_text i ds))
    \<and> length (items_text i ds) \<le> 180 * length ds"
  using assms
proof (induction ds arbitrary: i buf)
  case Nil
  show ?case by (simp add: items_text_def)
next
  case (Cons d ds)
  have len: "length (report_item i d) \<le> 180" using Cons.prems(2) by (simp add: report_item_length)
  have it: "items_text i (d # ds) = report_item i d @ items_text (Suc i) ds" by (simp add: items_text_def)
  have ap: "append_at (buf, length buf) (report_item i d) = (buf @ report_item i d, length (buf @ report_item i d))"
    using append_at_room[of buf "length buf" "report_item i d"] len Cons.prems(1) by simp
  show ?case
    using Cons.IH[of "buf @ report_item i d" "Suc i"] Cons.prems len unfolding it by (simp add: ap)
qed

text \<open>Reports are never cut. For every registry a slice can be parsed into, the request is the
  head, one object for each device in order, and the closing brackets, well inside the buffer --
  so the offset arithmetic of \<open>hes_mreg_report\<close> never wraps.\<close>

theorem report_complete:
  assumes "wf_devreg reg" "length (mr_module_type m) < 8"
  shows "report_text m reg = Some (report_head m @ items_text 0 (rg_devices reg) @ '']}'')
     \<and> length (the (report_text m reg)) < HES_MREG_REQ_MAX"
proof -
  have head: "length (report_head m) \<le> 80"
    using assms(2) dec_u32_length[of "mr_module_ref_index m"] by (simp add: report_head_def quoted_def)
  have ap: "append_at ([], 0) (report_head m) = (report_head m, length (report_head m))"
    using append_at_room[of "[]" 0 "report_head m"] head by simp
  have devs: "list_all wf_device (rg_devices reg)" "length (rg_devices reg) \<le> 16"
    using assms(1) by (simp_all add: wf_devreg_def)
  then have loop: "report_loop 0 (rg_devices reg) (report_head m, length (report_head m))
      = (report_head m @ items_text 0 (rg_devices reg), length (report_head m @ items_text 0 (rg_devices reg)))"
    "length (items_text 0 (rg_devices reg)) \<le> 2880"
    using report_loop_room[OF devs(1), of "report_head m" 0] head by simp_all
  have "append_at (report_head m @ items_text 0 (rg_devices reg), length (report_head m @ items_text 0 (rg_devices reg))) '']}''
      = ((report_head m @ items_text 0 (rg_devices reg)) @ '']}'', length (report_head m @ items_text 0 (rg_devices reg)) + 2)"
    using append_at_room[of "report_head m @ items_text 0 (rg_devices reg)" _ "'']}''"] head loop(2) by simp
  then show ?thesis
    using head loop by (simp add: report_text_def ap)
qed

theorem report_complete_witness:
  "report_text mreg_zero (fst (hes_devreg_parse sample_slice)) \<noteq> None"
proof -
  have "report_text mreg_zero (fst (hes_devreg_parse sample_slice))
      = Some (report_head mreg_zero @ items_text 0 (rg_devices (fst (hes_devreg_parse sample_slice))) @ '']}'')
    \<and> length (the (report_text mreg_zero (fst (hes_devreg_parse sample_slice)))) < HES_MREG_REQ_MAX"
    by (rule report_complete) (simp_all add: wf_devreg_parse mreg_zero_def)
  then show ?thesis by simp
qed

section \<open>A slice fits\<close>

definition fits_object :: "ms_object \<Rightarrow> bool" where
  "fits_object ob \<longleftrightarrow> length (mo_path ob) < MS_PATH \<and> length (mo_access ob) < 8"

definition fits_device :: "ms_devprofile \<Rightarrow> bool" where
  "fits_device d \<longleftrightarrow> \<bar>md_device_index d\<bar> \<le> 2 ^ 63 \<and> \<bar>md_net_ref_index d\<bar> \<le> 2 ^ 63 \<and> length (md_role d) < 64
     \<and> length (md_expected_hardware d) < 96 \<and> length (md_network_type d) < 16
     \<and> length (md_objects d) \<le> MS_MAX_OBJECTS \<and> list_all fits_object (md_objects d)
     \<and> length (md_runtime_address d) < MS_PATH \<and> \<bar>md_runtime_udp_port d\<bar> \<le> 2 ^ 31"

definition fits_module :: "ms_module \<Rightarrow> bool" where
  "fits_module m \<longleftrightarrow> length (mm_module_type m) < 8 \<and> \<bar>mm_module_ref_index m\<bar> \<le> 2 ^ 63
     \<and> length (mm_service_module_type m) < 8 \<and> length (mm_network_type m) < 16
     \<and> length (mm_devs m) \<le> MS_MAX_DEVICES \<and> list_all fits_device (mm_devs m)"

lemma obj_str_bound [buf_bounds]: "0 < cap \<Longrightarrow> length (obj_str j k cap) < cap"
  by (auto simp: obj_str_def buf_bounds split: option.split)

lemma obj_long_bound: "\<bar>dflt\<bar> \<le> 2 ^ 63 \<Longrightarrow> \<bar>obj_long j k dflt\<bar> \<le> 2 ^ 63"
  by (auto simp: obj_long_def d_to_long_def abs_le_iff split: option.split)

lemma fits_loaded_device: "fits_device (device_of dp)"
proof -
  have "list_all fits_object (load_rows MS_MAX_OBJECTS ms_object_of obs [])" for obs
    by (rule load_rows_all) (simp add: fits_object_def ms_object_of_def buf_bounds)
  then show ?thesis
    by (simp add: fits_device_def device_of_def buf_bounds obj_long_bound[of 0, simplified] split: option.split)
qed

lemma fits_loaded_module [wf_rules]: "fits_module (module_of m)"
  by (simp add: fits_module_def module_of_def buf_bounds obj_long_bound[of 0, simplified] load_rows_all
      fits_loaded_device split: option.split)

lemma fits_report_device: "fits_device d \<Longrightarrow> fits_device (report_device e d)"
proof -
  have "\<bar>c_int n\<bar> \<le> 2 ^ 31" for n using c_int_range[of n] by (auto simp: abs_le_iff)
  then show "fits_device d \<Longrightarrow> fits_device (report_device e d)"
    by (simp add: report_device_def fits_device_def buf_bounds Let_def)
qed

lemma fits_report_devices [wf_rules]: "fits_module m \<Longrightarrow> fits_module (fst (report_devices doc m))"
proof -
  assume m: "fits_module m"
  have entry: "fits_module (fst (report_entry e acc))" if "fits_module (fst acc)" for e acc
  proof (cases "entry_target (fst acc) e")
    case None
    then show ?thesis using that by (cases acc) (simp add: report_entry_target)
  next
    case (Some i)
    then have "i < length (mm_devs (fst acc))"
      by (auto simp: entry_target_def intro: find_device_bound split: if_splits)
    then show ?thesis
      using that Some fits_report_device by (cases acc) (auto simp: report_entry_target fits_module_def list_all_iff
          dest!: set_list_update_memI)
  qed
  have "fits_module (fst (fold report_entry es acc))" if "fits_module (fst acc)" for es acc
    using that by (induction es arbitrary: acc) (simp_all add: entry)
  then show ?thesis using m by (simp add: report_devices_def split: option.split)
qed

lemma json_line_length [simp]: "length (json_line ind s) = ind + length s + 1"
  by (simp add: json_line_def)

lemma member_length [simp]: "length (member k v) = length k + length v + 4"
  by (simp add: member_def quoted_def)

lemma quoted_length [simp]: "length (quoted s) = length s + 2"
  by (simp add: quoted_def)

lemma object_lines_length: "list_all fits_object obs \<Longrightarrow> length (object_lines obs) \<le> 260 * length obs"
  by (induction obs rule: object_lines.induct) (auto simp: fits_object_def)

lemma device_text_length:
  assumes "fits_device d" "length (mm_network_type m) < 16"
  shows "length (device_text m d) \<le> 2950"
proof -
  have ints: "length (dec_int (md_device_index d)) \<le> 20" "length (dec_int (md_net_ref_index d)) \<le> 20"
    "length (dec_int (md_runtime_udp_port d)) \<le> 11"
    using assms(1) dec_int_length[of _ 19] dec_int_length[of _ 10] by (simp_all add: fits_device_def)
  have objs: "length (object_lines (md_objects d)) \<le> 2080"
    using assms(1) object_lines_length[of "md_objects d"] by (simp add: fits_device_def)
  have "length (device_status d) \<le> 7" by (simp add: device_status_def)
  then show ?thesis using assms ints objs by (simp add: device_text_def Let_def fits_device_def)
qed

lemma separated_length:
  "list_all (\<lambda>t. length t \<le> n) ts \<Longrightarrow> length (separated ts) \<le> (n + 2) * length ts"
  by (induction ts rule: separated.induct) auto

lemma slice_length:
  assumes "fits_module m"
  shows "length (build_slice m) < 48000"
proof -
  have "length (dec_int (mm_module_ref_index m)) \<le> 20"
    using assms dec_int_length[of _ 19] by (simp add: fits_module_def)
  moreover have "list_all (\<lambda>t. length t \<le> 2950) (map (device_text m) (mm_devs m))"
    using assms device_text_length by (auto simp: fits_module_def list_all_iff)
  then have "length (separated (map (device_text m) (mm_devs m))) \<le> 2952 * 16"
    using separated_length[of 2950 "map (device_text m) (mm_devs m)"] assms
    by (simp add: fits_module_def)
  ultimately show ?thesis using assms by (simp add: build_slice_def fits_module_def)
qed

section \<open>A query is answered with the module's own devices\<close>

text \<open>The JSON values the texts stand for, when no text in them needs escaping.\<close>

definition object_json :: "ms_object \<Rightarrow> json" where
  "object_json ob = JObj [(''lexiconPath'', JStr (mo_path ob)), (''access'', JStr (mo_access ob))]"

definition device_json :: "ms_module \<Rightarrow> ms_devprofile \<Rightarrow> json" where
  "device_json m d =
     JObj [(''deviceIndex'', JInt (md_device_index d)), (''netRefIndex'', JInt (md_net_ref_index d)),
           (''deviceRole'', JStr (md_role d)), (''expectedHardware'', JStr (md_expected_hardware d)),
           (''networkType'', JStr (if md_network_type d \<noteq> [] then md_network_type d else mm_network_type m)),
           (''address'', JStr (md_runtime_address d)), (''udpPort'', JInt (md_runtime_udp_port d)),
           (''status'', JStr (device_status d)), (''objects'', JArr (map object_json (md_objects d)))]"

definition slice_json :: "ms_module \<Rightarrow> json" where
  "slice_json m =
     JObj [(''gatewayId'', JStr ''HES-GW-2026-99A1''), (''moduleType'', JStr (mm_module_type m)),
           (''moduleRefIndex'', JInt (mm_module_ref_index m)), (''networkType'', JStr (mm_network_type m)),
           (''devices'', JArr (map (device_json m) (mm_devs m)))]"

definition query_json :: "hes_mreg \<Rightarrow> json" where
  "query_json h = JObj [(''cmd'', JStr ''query''), (''moduleType'', JStr (mr_module_type h)),
                        (''moduleRefIndex'', JInt (uint (mr_module_ref_index h)))]"

text \<open>How a module sees a device of its slice.\<close>

definition device_view :: "ms_module \<Rightarrow> ms_devprofile \<Rightarrow> hes_device" where
  "device_view m d =
     \<lparr>dv_device_index = word_of_int (md_device_index d), dv_net_ref_index = word_of_int (md_net_ref_index d),
      dv_role = hes_strlcpy 32 (md_role d), dv_expected_hardware = hes_strlcpy 48 (md_expected_hardware d),
      dv_network_type = (if md_network_type d \<noteq> [] then md_network_type d else mm_network_type m),
      dv_address = hes_strlcpy 64 (md_runtime_address d), dv_udp_port = md_runtime_udp_port d,
      dv_online = (md_runtime_bound d \<and> md_online d),
      dv_objects = map (\<lambda>ob. \<lparr>do_path = hes_strlcpy HES_PATH_MAX (mo_path ob), do_access = hes_strlcpy 4 (mo_access ob)\<rparr>)
                     (md_objects d)\<rparr>"

definition json_exact :: "ms_module \<Rightarrow> bool" where
  "json_exact m \<longleftrightarrow> \<bar>mm_module_ref_index m\<bar> < 2 ^ 53
     \<and> list_all (\<lambda>d. \<bar>md_device_index d\<bar> < 2 ^ 53 \<and> \<bar>md_net_ref_index d\<bar> < 2 ^ 53
                   \<and> - (2 ^ 31) \<le> md_runtime_udp_port d \<and> md_runtime_udp_port d < 2 ^ 31) (mm_devs m)"

lemma parse_objects_json:
  "length acc + length obs \<le> HES_DEVREG_MAX_OBJECTS \<Longrightarrow>
   parse_objects (map object_json obs) acc
     = acc @ map (\<lambda>ob. \<lparr>do_path = hes_strlcpy HES_PATH_MAX (mo_path ob), do_access = hes_strlcpy 4 (mo_access ob)\<rparr>) obs"
  by (induction obs arbitrary: acc) (simp_all add: object_json_def json_is_object_def get_member_string_def)

lemma parse_device_json:
  assumes "fits_device d" "length (mm_network_type m) < 16" "json_exact (m\<lparr>mm_devs := [d]\<rparr>)"
  shows "parse_device (device_json m d) = Some (device_view m d)"
proof -
  have port: "c_int (md_runtime_udp_port d) = md_runtime_udp_port d" "\<bar>md_runtime_udp_port d\<bar> < 2 ^ 53"
    using assms(3) by (simp_all add: json_exact_def c_int_def sint_sbintrunc' signed_take_bit_int_eq_self abs_less_iff)
  have online: "status_to_online (device_json m d) = (md_runtime_bound d \<and> md_online d)"
    by (simp add: status_to_online_def device_json_def device_status_def)
  have objs: "parse_objects (map object_json (md_objects d)) []
      = map (\<lambda>ob. \<lparr>do_path = hes_strlcpy HES_PATH_MAX (mo_path ob), do_access = hes_strlcpy 4 (mo_access ob)\<rparr>) (md_objects d)"
    using assms(1) by (simp add: parse_objects_json fits_device_def)
  have nt: "length (md_network_type d) < 16" using assms(1) by (simp add: fits_device_def)
  show ?thesis
    using assms(2,3) port nt unfolding parse_device_def online
    by (simp add: device_json_def device_view_def get_member_long_def member_long_def member_string_def
        get_member_string_def d_to_long_of_int json_exact_def jobj_array_def objs hes_strlcpy_id
        del: d_of_int.simps)
qed

lemma parse_devices_json:
  assumes "list_all fits_device ds" "length (mm_network_type m) < 16" "json_exact (m\<lparr>mm_devs := ds\<rparr>)"
  shows "length (rg_devices reg) + length ds \<le> HES_DEVREG_MAX_DEVICES \<Longrightarrow>
    rg_devices (parse_devices (map (device_json m) ds) reg) = rg_devices reg @ map (device_view m) ds
    \<and> rg_module_type (parse_devices (map (device_json m) ds) reg) = rg_module_type reg
    \<and> rg_module_ref_index (parse_devices (map (device_json m) ds) reg) = rg_module_ref_index reg"
  using assms
proof (induction ds arbitrary: reg)
  case (Cons d ds)
  have d: "parse_device (device_json m d) = Some (device_view m d)"
    by (rule parse_device_json) (use Cons.prems in \<open>simp_all add: json_exact_def\<close>)
  have obj: "json_is_object (device_json m d)" by (simp add: device_json_def json_is_object_def)
  show ?case using Cons d obj by (simp add: json_exact_def)
qed simp

lemma parse_slice_json:
  assumes "fits_module m" "json_exact m"
  obtains reg where "hes_devreg_parse (slice_json m) = (reg, True)"
    "rg_devices reg = map (device_view m) (mm_devs m)" "rg_module_type reg = mm_module_type m"
    "rg_module_ref_index reg = word_of_int (mm_module_ref_index m)"
proof -
  let ?reg = "hes_devreg_init
               \<lparr>rg_gateway_id := member_string (slice_json m) ''gatewayId'' 64,
                rg_module_type := member_string (slice_json m) ''moduleType'' 8,
                rg_network_type := member_string (slice_json m) ''networkType'' 16,
                rg_module_ref_index := word_of_int (mm_module_ref_index m)\<rparr>"
  have mi: "get_member_long (slice_json m) ''moduleRefIndex'' = Some (mm_module_ref_index m)"
    using assms(2) by (simp add: get_member_long_def slice_json_def json_exact_def d_to_long_of_int del: d_of_int.simps)
  have mt: "member_string (slice_json m) ''moduleType'' 8 = mm_module_type m"
    using assms(1) by (simp add: member_string_def get_member_string_def slice_json_def fits_module_def hes_strlcpy_id)
  have "hes_devreg_parse (slice_json m) = (parse_devices (map (device_json m) (mm_devs m)) ?reg, True)"
    unfolding hes_devreg_parse_def mi by (simp add: slice_json_def json_is_object_def jobj_array_def Let_def)
  then show thesis
    using that parse_devices_json[of "mm_devs m" m ?reg] assms mt by (simp add: fits_module_def hes_devreg_init_def)
qed

text \<open>C25: A module is given its own devices. When the JSON parser reads back the query and the slice,
  and the service's reply comes back, a module that asks is given the devices of the first module of the
  profile with its type and index -- addresses, ports and presence included -- and the whole
  slice fits the client's buffer.\<close>

theorem query_gets_own_slice:
  assumes "find_module pf (mr_module_type h) (uint (mr_module_ref_index h)) = Some i"
    and "fits_module (pf ! i)" "json_exact (pf ! i)" "length (mr_module_type h) < 8"
    and "json_loads (query_text h) = Some (query_json h)"
    and "json_loads (build_slice (pf ! i)) = Some (slice_json (pf ! i))"
    and "handle_request json_loads pf (query_text h) = (pf', [Reply reply])"
    and "ex_send ex (query_text h) = 0" "ex_recv ex (query_text h) = Inr reply"
  shows "\<exists>reg. hes_mreg_query ex json_loads h reg0 = (reg, True) \<and> pf' = pf
     \<and> rg_devices reg = map (device_view (pf ! i)) (mm_devs (pf ! i))
     \<and> rg_module_type reg = mm_module_type (pf ! i)
     \<and> rg_module_ref_index reg = word_of_int (mm_module_ref_index (pf ! i))"
proof -
  have mi: "obj_long (query_json h) ''moduleRefIndex'' (- 1) = uint (mr_module_ref_index h)"
    using uint_bounded[of "mr_module_ref_index h"]
    by (simp add: obj_long_def query_json_def d_to_long_of_int del: d_of_int.simps)
  have mt: "obj_str (query_json h) ''moduleType'' MAX_CMD_SIZE = mr_module_type h"
    "obj_str (query_json h) ''cmd'' MAX_CMD_SIZE = ''query''"
    using assms(4) by (simp_all add: obj_str_def query_json_def hes_strlcpy_id)
  have "pf' = pf \<and> reply = build_slice (pf ! i)"
    using assms(1,5,7) by (auto simp: handle_request_def mi mt)
  moreover have "take (HES_MREG_REPLY_MAX - 1) (build_slice (pf ! i)) = build_slice (pf ! i)"
    using slice_length[OF assms(2)] by simp
  ultimately have "hes_mreg_query ex json_loads h reg0 = hes_devreg_parse (slice_json (pf ! i))" "pf' = pf"
    using assms(6,8,9) by (simp_all add: hes_mreg_query_def req_reply_def parse_slice_def)
  then show ?thesis using parse_slice_json[OF assms(2,3)] by metis
qed

section \<open>Another module's slice is taken over\<close>

text \<open>The per-module topics do not separate modules of different types. The slice a module of
  another type but the same index publishes passes the subscription's prefix filter, and the
  client makes it its own registry without looking at the type it carries.\<close>

theorem foreign_slice_taken:
  assumes "mr_topic h = dec_u32 (mr_module_ref_index h)" "mm_module_ref_index m = uint (mr_module_ref_index h)"
    and "mm_module_type m \<noteq> mr_module_type h" "fits_module m" "json_exact m"
    and "json_loads (build_slice m) = Some (slice_json m)"
  shows "\<exists>txt reg. publish_slice m = Publish txt \<and> take (length (mr_topic h)) txt = mr_topic h
     \<and> hes_mreg_recv_update json_loads h (Inr txt) reg0 = Inr (reg, True)
     \<and> rg_module_type reg \<noteq> mr_module_type h \<and> rg_devices reg = map (device_view m) (mm_devs m)"
proof -
  let ?txt = "mr_topic h @ build_slice m"
  have pub: "publish_slice m = Publish ?txt"
    using assms(1,2) uint_ge_0[of "mr_module_ref_index h"] by (simp add: publish_slice_def dec_u32_def dec_int_def)
  have "length (mr_topic h) \<le> 10" using assms(1) dec_u32_length by simp
  then have whole: "take (HES_MREG_REPLY_MAX - 1) ?txt = ?txt" using slice_length[OF assms(4)] by simp
  obtain reg where reg: "hes_devreg_parse (slice_json m) = (reg, True)"
    "rg_devices reg = map (device_view m) (mm_devs m)" "rg_module_type reg = mm_module_type m"
    by (rule parse_slice_json[OF assms(4,5)])
  have "hes_mreg_recv_update json_loads h (Inr ?txt) reg0 = Inr (reg, True)"
    unfolding hes_mreg_recv_update_def sum.case Let_def whole using assms(6) reg(1) by (simp add: parse_slice_def)
  then show ?thesis using pub reg assms(3) by auto
qed

definition hi_client :: hes_mreg where
  "hi_client = mreg_zero\<lparr>mr_module_type := ''hi'', mr_module_ref_index := 1, mr_topic := ''1''\<rparr>"

definition hi_module :: ms_module where
  "hi_module = sample_profile ! 1"

text \<open>A parser that reads the client's query and one module's slice.\<close>

definition reads_slice :: "ms_module \<Rightarrow> string \<Rightarrow> json option" where
  "reads_slice m txt = (if txt = build_slice m then Some (slice_json m)
                        else if txt = query_text hi_client then Some (query_json hi_client) else None)"

lemma sample_module_fits:
  "fits_module (hi_module\<lparr>mm_module_type := t\<rparr>)" "json_exact (hi_module\<lparr>mm_module_type := t\<rparr>)" if "length t < 8" for t
  using that by (simp_all add: hi_module_def sample_profile_def fits_module_def json_exact_def fits_device_def fits_object_def)

lemma query_not_slice: "query_text hi_client \<noteq> build_slice m"
proof -
  have "query_text hi_client ! 1 = CHR 0x22"
    by (simp add: query_text_def quoted_def hes_strlcpy_take)
  moreover have "build_slice m ! 1 = CHR 0x0A" by (simp add: build_slice_def json_line_def)
  ultimately show ?thesis by auto
qed

theorem query_gets_own_slice_witness:
  "\<exists>ex reg. hes_mreg_query ex (reads_slice hi_module) hi_client hes_devreg_init = (reg, True)
     \<and> map dv_device_index (rg_devices reg) = [6]"
proof -
  define ex where "ex = \<lparr>ex_send = \<lambda>_. 0, ex_recv = \<lambda>_. Inr (build_slice hi_module)\<rparr>"
  have hi: "hi_module\<lparr>mm_module_type := ''hi''\<rparr> = hi_module" by (simp add: hi_module_def sample_profile_def)
  have h: "find_module sample_profile (mr_module_type hi_client) (uint (mr_module_ref_index hi_client)) = Some 1"
    by (simp add: find_module_def sample_profile_def hi_client_def)
  have fits: "fits_module (sample_profile ! 1)" "json_exact (sample_profile ! 1)"
    using sample_module_fits[of "''hi''"] hi by (simp_all add: hi_module_def)
  have req: "handle_request (reads_slice hi_module) sample_profile (query_text hi_client) = (sample_profile, [Reply (build_slice hi_module)])"
    using query_not_slice[of hi_module]
    by (simp add: handle_request_def reads_slice_def query_json_def obj_str_def obj_long_def hi_client_def mreg_zero_def
        hes_strlcpy_take find_module_def sample_profile_def hi_module_def d_to_long_of_int Let_def del: d_of_int.simps)
  obtain reg where "hes_mreg_query ex (reads_slice hi_module) hi_client hes_devreg_init = (reg, True)"
      "rg_devices reg = map (device_view (sample_profile ! 1)) (mm_devs (sample_profile ! 1))"
    using query_gets_own_slice[of sample_profile hi_client 1 "reads_slice hi_module" sample_profile "build_slice hi_module" ex
        hes_devreg_init, OF h fits _ _ _ req] query_not_slice[of hi_module]
    by (auto simp: reads_slice_def ex_def hi_module_def hi_client_def mreg_zero_def)
  then have "map dv_device_index (rg_devices reg) = [6]" by (simp add: sample_profile_def device_view_def)
  with \<open>hes_mreg_query ex _ _ _ = _\<close> show ?thesis by (intro exI conjI)
qed

theorem foreign_slice_taken_witness:
  "\<exists>txt reg. publish_slice (hi_module\<lparr>mm_module_type := ''wi''\<rparr>) = Publish txt
     \<and> hes_mreg_recv_update (reads_slice (hi_module\<lparr>mm_module_type := ''wi''\<rparr>)) hi_client (Inr txt) hes_devreg_init = Inr (reg, True)
     \<and> rg_module_type reg \<noteq> ''hi''"
proof -
  let ?m = "hi_module\<lparr>mm_module_type := ''wi''\<rparr>"
  have "dec_u32 1 = ''1''" by code_simp
  then have h: "mr_topic hi_client = dec_u32 (mr_module_ref_index hi_client)" "mr_module_type hi_client = ''hi''"
    "mm_module_ref_index ?m = uint (mr_module_ref_index hi_client)" "mm_module_type ?m \<noteq> mr_module_type hi_client"
    by (simp_all add: hi_client_def hi_module_def sample_profile_def)
  have "reads_slice ?m (build_slice ?m) = Some (slice_json ?m)" by (simp add: reads_slice_def)
  moreover have "fits_module ?m" "json_exact ?m" by (rule sample_module_fits; simp)+
  ultimately have "\<exists>txt reg. publish_slice ?m = Publish txt \<and> take (length (mr_topic hi_client)) txt = mr_topic hi_client
     \<and> hes_mreg_recv_update (reads_slice ?m) hi_client (Inr txt) hes_devreg_init = Inr (reg, True)
     \<and> rg_module_type reg \<noteq> mr_module_type hi_client \<and> rg_devices reg = map (device_view ?m) (mm_devs ?m)"
    by (intro foreign_slice_taken h)
  then show ?thesis unfolding h(2) by (elim exE conjE) (intro exI conjI)
qed

end
