(* ===== verification/AppLua.thy ===== *)
theory AppLua
  imports Bm Dispatch
begin

text \<open>
  The bridge to the customer's app (src/src/modules/core/app_lua.c): the \<open>hes.get\<close> and
  \<open>hes.put\<close> functions a script can call, the operation of an appService row, and the
  periodic tick.

  The Lua interpreter is a parameter. A script is what it does with the gateway: an interaction
  tree of its \<open>hes.get\<close> and \<open>hes.put\<close> calls, each continued with what the call returned. An
  uncaught error is part of the value it ends with.
\<close>

section \<open>Scripts\<close>

datatype 'r script =
    Return 'r
  | Get string "string option \<Rightarrow> 'r script"
  | Put string string "bool \<Rightarrow> 'r script"

datatype lua_value = LuaError | LuaNumber dbl | LuaOther

text \<open>The globals a script may have defined, on its state \<open>'l\<close>: \<open>None\<close> is "not a function".\<close>

record 'l lua =
  lua_hes_op :: "'l \<Rightarrow> (u32 \<Rightarrow> bm_operand list \<Rightarrow> (lua_value \<times> 'l) script) option"
  lua_on_tick :: "'l \<Rightarrow> (bool \<times> 'l) script option"

section \<open>The functions a script calls\<close>

text \<open>Only an exact address of a local object that can be read; no router, no selector.\<close>

fun l_hes_get :: "'st service_object list \<Rightarrow> string \<Rightarrow> 'st \<Rightarrow> string option \<times> 'st" where
  "l_hes_get [] path st = (None, st)"
| "l_hes_get (so # objs) path st =
     (case (so_path so = path, so_on_get so) of
        (True, Some on_get) \<Rightarrow>
          (let (out, st') = on_get st (hes_msg_set_path hes_msg_init path) in (Some (m_payload out), st'))
      | _ \<Rightarrow> l_hes_get objs path st)"

definition lua_put_message :: "string \<Rightarrow> string \<Rightarrow> hes_clme_msg" where
  "lua_put_message path value =
     hes_msg_set_payload_str (hes_msg_set_path (hes_msg_init\<lparr>m_verb := HES_VERB_PUT\<rparr>) path) value"

text \<open>\<open>send_ok\<close> is whether the bus took the message. The messages are kept in order.\<close>

primrec run_script ::
    "(hes_clme_msg \<Rightarrow> bool) \<Rightarrow> 'st service_object list \<Rightarrow> 'r script \<Rightarrow> 'st
      \<Rightarrow> 'r \<times> 'st \<times> hes_clme_msg list" where
  "run_script send_ok objs (Return r) st = (r, st, [])"
| "run_script send_ok objs (Get path k) st =
     (let (value, st') = l_hes_get objs path st in run_script send_ok objs (k value) st')"
| "run_script send_ok objs (Put path value k) st =
     (let msg = lua_put_message path value;
          (r, st', ms) = run_script send_ok objs (k (send_ok msg)) st
      in (r, st', msg # ms))"

section \<open>Entry points\<close>

text \<open>The row's result; \<open>None\<close> when the script has no handler or fails. \<open>lua_tonumber\<close> of anything
  but a number is zero.\<close>

definition app_lua_call_op ::
    "(hes_clme_msg \<Rightarrow> bool) \<Rightarrow> 'st service_object list \<Rightarrow> 'l lua \<Rightarrow> u32 \<Rightarrow> bm_operand list \<Rightarrow> 'l \<times> 'st
      \<Rightarrow> dbl option \<times> hes_clme_msg list \<times> 'l \<times> 'st" where
  "app_lua_call_op send_ok objs app ref_id operands ls =
     (let (l, st) = ls
      in case lua_hes_op app l of
           None \<Rightarrow> (None, [], l, st)
         | Some hes_op \<Rightarrow>
             (let ((v, l'), st', ms) = run_script send_ok objs (hes_op ref_id operands) st
              in (case v of LuaError \<Rightarrow> None | LuaNumber d \<Rightarrow> Some d | LuaOther \<Rightarrow> Some d_zero,
                  ms, l', st')))"

definition app_lua_tick ::
    "(hes_clme_msg \<Rightarrow> bool) \<Rightarrow> 'st service_object list \<Rightarrow> 'l lua \<Rightarrow> 'l \<times> 'st
      \<Rightarrow> hes_clme_msg list \<times> 'l \<times> 'st" where
  "app_lua_tick send_ok objs app ls =
     (let (l, st) = ls
      in case lua_on_tick app l of
           None \<Rightarrow> ([], l, st)
         | Some on_tick \<Rightarrow>
             (let ((_, l'), st', ms) = run_script send_ok objs on_tick st in (ms, l', st')))"

section \<open>What a script can send\<close>

text \<open>A script's messages are PUTs without a device, a credential or a user name, whatever it does.\<close>

definition app_put :: "hes_clme_msg \<Rightarrow> bool" where
  "app_put m \<longleftrightarrow> (\<exists>path value. m = lua_put_message path value)"

lemma app_put_fields:
  assumes "app_put m"
  shows "m_verb m = HES_VERB_PUT" "m_device_index m = 0" "m_cred_info m = []" "m_user_name m = []"
    "wf_msg m"
  using assms by (auto simp: app_put_def lua_put_message_def intro!: wf_rules)
    (simp add: wf_msg_def)

lemma script_puts: "run_script send_ok objs s st = (r, st', ms) \<Longrightarrow> m \<in> set ms \<Longrightarrow> app_put m"
proof (induction s arbitrary: st r st' ms)
  case (Return x)
  then show ?case by simp
next
  case (Get path k)
  then show ?case using Get.IH[OF rangeI] by (auto simp: split_beta)
next
  case (Put p v k)
  then obtain ms' where "run_script send_ok objs (k (send_ok (lua_put_message p v))) st = (r, st', ms')"
      "ms = lua_put_message p v # ms'"
    by (auto simp: Let_def split: prod.splits)
  then show ?case using Put.IH[OF rangeI] Put.prems(2) by (auto simp: app_put_def)
qed

lemma call_op_puts:
  "app_lua_call_op send_ok objs app ref_id operands ls = (d, ms, ls') \<Longrightarrow> m \<in> set ms \<Longrightarrow> app_put m"
  by (auto simp: app_lua_call_op_def Let_def split: prod.splits option.splits dest: script_puts)

lemma tick_puts: "app_lua_tick send_ok objs app ls = (ms, ls') \<Longrightarrow> m \<in> set ms \<Longrightarrow> app_put m"
  by (auto simp: app_lua_tick_def Let_def split: prod.splits option.splits dest: script_puts)

text \<open>\<open>hes.get\<close> reads what a GET at that very address would answer, untrimmed.\<close>

lemma hes_get_local:
  "l_hes_get objs path st = (v, st') \<Longrightarrow>
     (v = None \<and> st' = st \<and> (\<forall>so \<in> set objs. so_path so = path \<longrightarrow> so_on_get so = None))
     \<or> (\<exists>so \<in> set objs. \<exists>f out. so_path so = path \<and> so_on_get so = Some f
          \<and> f st (hes_msg_set_path hes_msg_init path) = (out, st') \<and> v = Some (m_payload out))"
  by (induction objs) (auto simp: Let_def split: prod.splits option.splits bool.splits)

end
