(* ===== verification/Sntp.thy ===== *)
theory Sntp
  imports HesCommon
begin

text \<open>
  The SNTP client of the time service (src/src/services/time/sntp.c): the big-endian fields,
  the 64-bit NTP timestamps, the request, the validation of a reply and the offset arithmetic,
  and the query of one server over the addresses its name resolves to.

  A packet is the list of its bytes. \<open>long long\<close> arithmetic is on integers: \<open>compute_no_overflow\<close>
  shows that no intermediate value of the offset arithmetic leaves 64 bits. Name resolution, the
  sockets and the clock readings are the fields of \<open>sntp_net\<close>, an argument of the query.
\<close>

section \<open>Packet fields\<close>

abbreviation SNTP_PACKET_LEN :: nat where "SNTP_PACKET_LEN \<equiv> 48"
abbreviation SNTP_UNIX_EPOCH_DELTA :: int where "SNTP_UNIX_EPOCH_DELTA \<equiv> 2208988800"
abbreviation SNTP_MAX_OFFSET_NS :: int where "SNTP_MAX_OFFSET_NS \<equiv> 86400 * NS_PER_SEC"
abbreviation SNTP_MAX_DELAY_NS :: int where "SNTP_MAX_DELAY_NS \<equiv> 60 * NS_PER_SEC"
abbreviation NTP_ORIGINATE_TS :: nat where "NTP_ORIGINATE_TS \<equiv> 24"
abbreviation NTP_RECEIVE_TS :: nat where "NTP_RECEIVE_TS \<equiv> 32"
abbreviation NTP_TRANSMIT_TS :: nat where "NTP_TRANSMIT_TS \<equiv> 40"

type_synonym packet = "u8 list"

unbundle bit_operations_syntax

definition read_be32 :: "packet \<Rightarrow> nat \<Rightarrow> u32" where
  "read_be32 p i =
     push_bit 24 (ucast (p ! i)) OR push_bit 16 (ucast (p ! (i + 1)))
       OR push_bit 8 (ucast (p ! (i + 2))) OR ucast (p ! (i + 3))"

definition write_be32 :: "packet \<Rightarrow> nat \<Rightarrow> u32 \<Rightarrow> packet" where
  "write_be32 p i v =
     p[i := ucast (drop_bit 24 v), i + 1 := ucast (drop_bit 16 v),
       i + 2 := ucast (drop_bit 8 v), i + 3 := ucast v]"

lemma write_be32_length [simp]: "length (write_be32 p i v) = length p"
  by (simp add: write_be32_def)

lemma be32_bytes:
  "push_bit 24 (ucast (ucast (drop_bit 24 v) :: u8)) OR push_bit 16 (ucast (ucast (drop_bit 16 v) :: u8))
     OR push_bit 8 (ucast (ucast (drop_bit 8 v) :: u8)) OR ucast (ucast v :: u8) = (v :: u32)"
proof (rule bit_word_eqI)
  fix n assume n: "n < LENGTH(32)"
  consider "n < 8" | "8 \<le> n" "n < 16" | "16 \<le> n" "n < 24" | "24 \<le> n" by linarith
  then show "bit (push_bit 24 (ucast (ucast (drop_bit 24 v) :: u8)) OR push_bit 16 (ucast (ucast (drop_bit 16 v) :: u8))
     OR push_bit 8 (ucast (ucast (drop_bit 8 v) :: u8)) OR ucast (ucast v :: u8) :: u32) n = bit v n"
    using n by cases (simp_all add: bit_or_iff bit_push_bit_iff bit_ucast_iff bit_drop_bit_eq less_diff_conv2)
qed

lemma read_write_be32: "i + 4 \<le> length p \<Longrightarrow> read_be32 (write_be32 p i v) i = v"
  by (simp add: read_be32_def write_be32_def nth_list_update be32_bytes)

lemma read_write_be32_other:
  "i + 4 \<le> j \<or> j + 4 \<le> i \<Longrightarrow> read_be32 (write_be32 p i v) j = read_be32 p j"
  by (auto simp: read_be32_def write_be32_def nth_list_update)

section \<open>Timestamps\<close>

record timespec =
  tv_sec :: int
  tv_nsec :: int

definition timespec_to_ns :: "timespec \<Rightarrow> int" where
  "timespec_to_ns ts = tv_sec ts * NS_PER_SEC + tv_nsec ts"

definition unix_ns_to_ntp_ts :: "int \<Rightarrow> packet \<Rightarrow> nat \<Rightarrow> packet" where
  "unix_ns_to_ntp_ts unix_ns p i =
     (let sec = c_quot unix_ns NS_PER_SEC; rem_ns = c_rem unix_ns NS_PER_SEC;
          (rem_ns, sec) = (if rem_ns < 0 then (rem_ns + NS_PER_SEC, sec - 1) else (rem_ns, sec));
          p = write_be32 p i (word_of_int (sec + SNTP_UNIX_EPOCH_DELTA))
      in write_be32 p (i + 4) (word_of_int (c_quot (rem_ns * 2 ^ 32) NS_PER_SEC)))"

definition ntp_ts_to_unix_ns :: "packet \<Rightarrow> nat \<Rightarrow> int option" where
  "ntp_ts_to_unix_ns p i =
     (let sec = uint (read_be32 p i); frac = uint (read_be32 p (i + 4))
      in if sec < SNTP_UNIX_EPOCH_DELTA then None
         else Some ((sec - SNTP_UNIX_EPOCH_DELTA) * NS_PER_SEC + drop_bit 32 (frac * NS_PER_SEC)))"

text \<open>The carry of a time before 1970 makes quotient and remainder those of floored division.\<close>

lemma floor_carry:
  assumes "0 < b"
  shows "(if c_rem a b < 0 then (c_rem a b + b, c_quot a b - 1) else (c_rem a b, c_quot a b)) = (a mod b, a div b)"
proof (cases "0 \<le> a")
  case True
  then have "\<not> c_rem a b < 0" using assms by (simp add: not_less)
  then show ?thesis using True by simp
next
  case False
  let ?q = "c_quot a b"
  have "a \<le> b * ?q" "b * ?q < a + b" using c_quot_bounds(2)[OF assms] False by auto
  moreover have "a div b = (if a < b * ?q then ?q - 1 else ?q)" if "a \<le> b * ?q" "b * ?q < a + b"
  proof (cases "a < b * ?q")
    case True
    with that have "0 \<le> a - b * (?q - 1)" "a - b * (?q - 1) < b" by (auto simp: algebra_simps)
    then show ?thesis using True int_div_pos_eq[of a b "?q - 1" "a - b * (?q - 1)"] by simp
  next
    case False
    with that have "a = b * ?q" by simp
    then show ?thesis using False assms by (metis nonzero_mult_div_cancel_left less_irrefl)
  qed
  ultimately have d: "a div b = (if a < b * ?q then ?q - 1 else ?q)" by blast
  then show ?thesis
    using minus_div_mult_eq_mod[of a b] by (auto simp: c_rem_def algebra_simps split: if_splits)
qed

lemma unix_ns_to_ntp_ts_floor:
  "unix_ns_to_ntp_ts ns p i =
     write_be32 (write_be32 p i (word_of_int (ns div NS_PER_SEC + SNTP_UNIX_EPOCH_DELTA))) (i + 4)
       (word_of_int ((ns mod NS_PER_SEC) * 2 ^ 32 div NS_PER_SEC))"
  by (simp add: unix_ns_to_ntp_ts_def floor_carry Let_def)

lemma unix_ns_to_ntp_ts_length [simp]: "length (unix_ns_to_ntp_ts ns p i) = length p"
  by (simp add: unix_ns_to_ntp_ts_floor)

text \<open>The fraction loses less than a nanosecond.\<close>

lemma frac_roundtrip:
  fixes r :: int
  assumes "0 \<le> r" "r < NS_PER_SEC"
  defines "f \<equiv> r * 2 ^ 32 div NS_PER_SEC"
  shows "0 \<le> f" "f < 2 ^ 32" "f * NS_PER_SEC div 2 ^ 32 \<le> r" "r - 1 \<le> f * NS_PER_SEC div 2 ^ 32"
proof -
  have eq: "NS_PER_SEC * f + r * 2 ^ 32 mod NS_PER_SEC = r * 2 ^ 32"
    unfolding f_def by (rule mult_div_mod_eq)
  have m: "0 \<le> r * 2 ^ 32 mod NS_PER_SEC" "r * 2 ^ 32 mod NS_PER_SEC < NS_PER_SEC" by simp_all
  show "0 \<le> f" using assms by simp
  show "f < 2 ^ 32" using eq m assms by simp
  have eq2: "2 ^ 32 * (f * NS_PER_SEC div 2 ^ 32) + f * NS_PER_SEC mod 2 ^ 32 = f * NS_PER_SEC"
    by (rule mult_div_mod_eq)
  have m2: "0 \<le> f * NS_PER_SEC mod 2 ^ 32" "f * NS_PER_SEC mod 2 ^ 32 < 2 ^ 32" by simp_all
  show "f * NS_PER_SEC div 2 ^ 32 \<le> r" using eq eq2 m m2 by simp
  show "r - 1 \<le> f * NS_PER_SEC div 2 ^ 32" using eq eq2 m m2 by simp
qed

lemma ntp_ts_decode:
  assumes "0 \<le> s" "s < 2 ^ 32" "SNTP_UNIX_EPOCH_DELTA \<le> s" "0 \<le> f" "f < 2 ^ 32"
    "read_be32 p i = word_of_int s" "read_be32 p (i + 4) = word_of_int f"
  shows "ntp_ts_to_unix_ns p i = Some ((s - SNTP_UNIX_EPOCH_DELTA) * NS_PER_SEC + f * NS_PER_SEC div 2 ^ 32)"
  using assms by (simp add: ntp_ts_to_unix_ns_def uint_word_of_int_eq take_bit_int_eq_self drop_bit_int_def)

lemma ntp_ts_range:
  assumes "ntp_ts_to_unix_ns p i = Some t"
  shows "0 \<le> t" "t < (2 ^ 32 - SNTP_UNIX_EPOCH_DELTA) * NS_PER_SEC"
proof -
  define s where "s = uint (read_be32 p i)"
  define f where "f = uint (read_be32 p (i + 4))"
  have b: "0 \<le> s" "s < 2 ^ 32" "0 \<le> f" "f < 2 ^ 32"
    unfolding s_def f_def using uint_bounded[where 'a = 32] by simp_all
  have t: "SNTP_UNIX_EPOCH_DELTA \<le> s" "t = (s - SNTP_UNIX_EPOCH_DELTA) * NS_PER_SEC + f * NS_PER_SEC div 2 ^ 32"
    using assms by (auto simp: ntp_ts_to_unix_ns_def s_def f_def drop_bit_int_def Let_def split: if_splits)
  have "f * NS_PER_SEC div 2 ^ 32 < NS_PER_SEC" "0 \<le> f * NS_PER_SEC div 2 ^ 32" using b by auto
  then show "0 \<le> t" "t < (2 ^ 32 - SNTP_UNIX_EPOCH_DELTA) * NS_PER_SEC" using t b by auto
qed

text \<open>What the packets carry: the seconds and the fraction of the time written.\<close>

lemma written_timestamp:
  assumes "i + 8 \<le> length p"
  shows "read_be32 (unix_ns_to_ntp_ts ns p i) i = word_of_int (ns div NS_PER_SEC + SNTP_UNIX_EPOCH_DELTA)"
    and "read_be32 (unix_ns_to_ntp_ts ns p i) (i + 4) = word_of_int ((ns mod NS_PER_SEC) * 2 ^ 32 div NS_PER_SEC)"
  using assms by (simp_all add: unix_ns_to_ntp_ts_floor read_write_be32 read_write_be32_other)

text \<open>From 1970 until the 32-bit seconds wrap in 2036, reading d_back what was written loses at most
  a nanosecond.\<close>

lemma timestamp_roundtrip:
  assumes "0 \<le> ns" "ns < (2 ^ 32 - SNTP_UNIX_EPOCH_DELTA) * NS_PER_SEC" "i + 8 \<le> length p"
  shows "\<exists>v. ntp_ts_to_unix_ns (unix_ns_to_ntp_ts ns p i) i = Some v \<and> ns - 1 \<le> v \<and> v \<le> ns"
proof -
  let ?r = "ns mod NS_PER_SEC" and ?q = "ns div NS_PER_SEC"
  have r: "0 \<le> ?r" "?r < NS_PER_SEC" by simp_all
  have q: "0 \<le> ?q" "?q + SNTP_UNIX_EPOCH_DELTA < 2 ^ 32" using assms(1,2) by auto
  have ns: "ns = ?q * NS_PER_SEC + ?r" by simp
  have q': "0 \<le> ?q + SNTP_UNIX_EPOCH_DELTA" "SNTP_UNIX_EPOCH_DELTA \<le> ?q + SNTP_UNIX_EPOCH_DELTA"
    using q(1) by linarith+
  have "ntp_ts_to_unix_ns (unix_ns_to_ntp_ts ns p i) i =
      Some ((?q + SNTP_UNIX_EPOCH_DELTA - SNTP_UNIX_EPOCH_DELTA) * NS_PER_SEC
        + ?r * 2 ^ 32 div NS_PER_SEC * NS_PER_SEC div 2 ^ 32)"
    by (rule ntp_ts_decode[OF q'(1) q(2) q'(2) frac_roundtrip(1,2)[OF r] written_timestamp[OF assms(3)]])
  then have "ntp_ts_to_unix_ns (unix_ns_to_ntp_ts ns p i) i =
      Some (?q * NS_PER_SEC + ?r * 2 ^ 32 div NS_PER_SEC * NS_PER_SEC div 2 ^ 32)"
    by (simp only: add_diff_cancel_right')
  moreover have "ns - 1 \<le> ?q * NS_PER_SEC + ?r * 2 ^ 32 div NS_PER_SEC * NS_PER_SEC div 2 ^ 32"
    "?q * NS_PER_SEC + ?r * 2 ^ 32 div NS_PER_SEC * NS_PER_SEC div 2 ^ 32 \<le> ns"
    using frac_roundtrip(3,4)[OF r] ns by linarith+
  ultimately show ?thesis by blast
qed

text \<open>From 2036 on, for the next seventy years, what was written does not read d_back at all.\<close>

lemma timestamp_era_lost:
  assumes "(2 ^ 32 - SNTP_UNIX_EPOCH_DELTA) * NS_PER_SEC \<le> ns" "ns < 2 ^ 32 * NS_PER_SEC" "i + 8 \<le> length p"
  shows "ntp_ts_to_unix_ns (unix_ns_to_ntp_ts ns p i) i = None"
proof -
  let ?s = "ns div NS_PER_SEC + SNTP_UNIX_EPOCH_DELTA"
  have "2 ^ 32 \<le> ?s" "?s < 2 ^ 32 + SNTP_UNIX_EPOCH_DELTA" using assms(1,2) by auto
  then have "uint (word_of_int ?s :: u32) = ?s - 2 ^ 32"
    unfolding uint_word_of_int by (intro int_mod_pos_eq[where q = 1]) auto
  then show ?thesis
    using assms \<open>?s < _\<close> by (simp add: ntp_ts_to_unix_ns_def written_timestamp Let_def)
qed

section \<open>One exchange\<close>

record sntp_result =
  r_offset_ns :: int
  r_delay_ms :: int
  r_stratum :: int
  r_leap :: int
  r_server_time :: int

definition sntp_build_request :: "timespec \<Rightarrow> packet" where
  "sntp_build_request now =
     (let packet = replicate SNTP_PACKET_LEN 0;
          packet = packet[0 := push_bit 3 4 OR 3]
      in unix_ns_to_ntp_ts (timespec_to_ns now) packet NTP_TRANSMIT_TS)"

definition sntp_compute_offset ::
    "packet \<Rightarrow> packet \<Rightarrow> nat \<Rightarrow> timespec \<Rightarrow> sntp_result option" where
  "sntp_compute_offset request reply reply_len local_recv =
     (if reply_len < SNTP_PACKET_LEN then None
      else
        let leap = uint (drop_bit 6 (reply ! 0)); mode = reply ! 0 AND 7; stratum = uint (reply ! 1)
        in
          if mode \<noteq> 4 then None
          else if leap = 3 then None
          else if stratum = 0 then None
          else if stratum > 15 then None
          else if take 8 (drop NTP_ORIGINATE_TS reply) \<noteq> take 8 (drop NTP_TRANSMIT_TS request) then None
          else
            case ntp_ts_to_unix_ns request NTP_TRANSMIT_TS of
              None \<Rightarrow> None
            | Some t1 \<Rightarrow>
            case ntp_ts_to_unix_ns reply NTP_RECEIVE_TS of
              None \<Rightarrow> None
            | Some t2 \<Rightarrow>
            case ntp_ts_to_unix_ns reply NTP_TRANSMIT_TS of
              None \<Rightarrow> None
            | Some t3 \<Rightarrow>
              let t4 = timespec_to_ns local_recv in
              if t3 < t2 then None
              else
                let delay = (t4 - t1) - (t3 - t2) in
                if delay < 0 \<or> delay > SNTP_MAX_DELAY_NS then None
                else
                  let offset = c_quot ((t2 - t1) + (t3 - t4)) 2 in
                  if offset > SNTP_MAX_OFFSET_NS \<or> offset < - SNTP_MAX_OFFSET_NS then None
                  else Some \<lparr>r_offset_ns = offset, r_delay_ms = c_quot delay 1000000,
                             r_stratum = stratum, r_leap = leap,
                             r_server_time = c_quot t3 NS_PER_SEC\<rparr>)"

text \<open>What an accepted reply passed, and what it says.\<close>

definition sntp_times :: "packet \<Rightarrow> packet \<Rightarrow> int \<Rightarrow> int \<Rightarrow> int \<Rightarrow> bool" where
  "sntp_times request reply t1 t2 t3 \<longleftrightarrow>
     ntp_ts_to_unix_ns request NTP_TRANSMIT_TS = Some t1
     \<and> ntp_ts_to_unix_ns reply NTP_RECEIVE_TS = Some t2
     \<and> ntp_ts_to_unix_ns reply NTP_TRANSMIT_TS = Some t3"

definition server_reply :: "packet \<Rightarrow> packet \<Rightarrow> bool" where
  "server_reply request reply \<longleftrightarrow>
     reply ! 0 AND 7 = 4 \<and> uint (drop_bit 6 (reply ! 0)) \<noteq> 3
     \<and> 1 \<le> uint (reply ! 1) \<and> uint (reply ! 1) \<le> 15
     \<and> take 8 (drop NTP_ORIGINATE_TS reply) = take 8 (drop NTP_TRANSMIT_TS request)"

lemma sntp_accepts_iff:
  "sntp_compute_offset request reply n now = Some r \<longleftrightarrow>
     SNTP_PACKET_LEN \<le> n \<and> server_reply request reply
     \<and> (\<exists>t1 t2 t3. sntp_times request reply t1 t2 t3 \<and> t2 \<le> t3
          \<and> (let t4 = timespec_to_ns now; delay = (t4 - t1) - (t3 - t2); off = c_quot ((t2 - t1) + (t3 - t4)) 2
             in 0 \<le> delay \<and> delay \<le> SNTP_MAX_DELAY_NS
                \<and> - SNTP_MAX_OFFSET_NS \<le> off \<and> off \<le> SNTP_MAX_OFFSET_NS
                \<and> r = \<lparr>r_offset_ns = off, r_delay_ms = delay div 1000000, r_stratum = uint (reply ! 1),
                       r_leap = uint (drop_bit 6 (reply ! 0)), r_server_time = t3 div NS_PER_SEC\<rparr>))"
    (is "?c = Some r \<longleftrightarrow> ?R")
proof -
  have pos: "0 \<le> uint (reply ! 1)" by simp
  then have st: "1 \<le> uint (reply ! 1) \<longleftrightarrow> uint (reply ! 1) \<noteq> 0" by linarith
  show ?thesis
  proof (cases "SNTP_PACKET_LEN \<le> n \<and> server_reply request reply")
    case False
    then have "?c = None"
      unfolding sntp_compute_offset_def server_reply_def st Let_def
      by (simp add: not_le) (metis not_le_imp_less)
    then show ?thesis using False by auto
  next
    case True
    then have "?c =
      (case ntp_ts_to_unix_ns request NTP_TRANSMIT_TS of None \<Rightarrow> None | Some t1 \<Rightarrow>
       case ntp_ts_to_unix_ns reply NTP_RECEIVE_TS of None \<Rightarrow> None | Some t2 \<Rightarrow>
       case ntp_ts_to_unix_ns reply NTP_TRANSMIT_TS of None \<Rightarrow> None | Some t3 \<Rightarrow>
       let t4 = timespec_to_ns now; delay = (t4 - t1) - (t3 - t2); off = c_quot ((t2 - t1) + (t3 - t4)) 2 in
       if t3 < t2 \<or> delay < 0 \<or> delay > SNTP_MAX_DELAY_NS \<or> off > SNTP_MAX_OFFSET_NS \<or> off < - SNTP_MAX_OFFSET_NS
       then None
       else Some \<lparr>r_offset_ns = off, r_delay_ms = c_quot delay 1000000, r_stratum = uint (reply ! 1),
                  r_leap = uint (drop_bit 6 (reply ! 0)), r_server_time = c_quot t3 NS_PER_SEC\<rparr>)"
      unfolding sntp_compute_offset_def server_reply_def st
      by (auto simp: Let_def split: option.splits)
    then show ?thesis
      using True ntp_ts_range(1)[of reply NTP_TRANSMIT_TS]
      by (auto simp: sntp_times_def Let_def not_less split: option.splits if_splits)
  qed
qed

text \<open>The 64-bit arithmetic of an exchange does not overflow while the local clock is below
  \<open>2 ^ 62\<close> nanoseconds (the year 2116).\<close>

lemma compute_no_overflow:
  assumes "sntp_times request reply t1 t2 t3" "0 \<le> t4" "t4 < 2 ^ 62"
  shows "\<bar>(t4 - t1) - (t3 - t2)\<bar> < 2 ^ 63" "\<bar>(t2 - t1) + (t3 - t4)\<bar> < 2 ^ 63"
  using assms ntp_ts_range[of request NTP_TRANSMIT_TS t1] ntp_ts_range[of reply NTP_RECEIVE_TS t2]
    ntp_ts_range[of reply NTP_TRANSMIT_TS t3]
  by (auto simp: sntp_times_def)

lemma request_time:
  assumes "0 \<le> timespec_to_ns now" "timespec_to_ns now < (2 ^ 32 - SNTP_UNIX_EPOCH_DELTA) * NS_PER_SEC"
  shows "\<exists>t1. ntp_ts_to_unix_ns (sntp_build_request now) NTP_TRANSMIT_TS = Some t1
           \<and> timespec_to_ns now - 1 \<le> t1 \<and> t1 \<le> timespec_to_ns now"
  unfolding sntp_build_request_def Let_def by (rule timestamp_roundtrip[OF assms]) simp

text \<open>After 2036 no answer of any server is accepted.\<close>

lemma request_era_lost:
  assumes "(2 ^ 32 - SNTP_UNIX_EPOCH_DELTA) * NS_PER_SEC \<le> timespec_to_ns now"
    "timespec_to_ns now < 2 ^ 32 * NS_PER_SEC"
  shows "sntp_compute_offset (sntp_build_request now) reply n t4 = None"
proof -
  have "ntp_ts_to_unix_ns (sntp_build_request now) NTP_TRANSMIT_TS = None"
    unfolding sntp_build_request_def Let_def by (rule timestamp_era_lost[OF assms]) simp
  then show ?thesis
    by (cases "sntp_compute_offset (sntp_build_request now) reply n t4") (auto simp: sntp_accepts_iff sntp_times_def)
qed

section \<open>One server\<close>

text \<open>What the query uses of the system, for each address the name resolves to. \<open>net_recv\<close> is the
  datagram that arrives within the receive timeout (seconds, microseconds), if any.\<close>

record 'a sntp_net =
  net_getaddrinfo :: "string \<Rightarrow> 'a list option"
  net_socket :: "'a \<Rightarrow> bool"
  net_connect :: "'a \<Rightarrow> bool"
  net_t1 :: "'a \<Rightarrow> timespec"
  net_send :: "'a \<Rightarrow> packet \<Rightarrow> int"
  net_recv :: "'a \<Rightarrow> int \<times> int \<Rightarrow> packet \<Rightarrow> packet option"
  net_t4 :: "'a \<Rightarrow> timespec"

definition sntp_timeout :: "int \<Rightarrow> int \<times> int" where
  "sntp_timeout timeout_ms =
     (let timeout_ms = (if timeout_ms \<le> 0 then 3000 else timeout_ms);
          sec = c_quot timeout_ms 1000; usec = c_rem timeout_ms 1000 * 1000
      in if sec = 0 \<and> usec = 0 then (1, usec) else (sec, usec))"

definition sntp_try :: "'a sntp_net \<Rightarrow> int \<times> int \<Rightarrow> 'a \<Rightarrow> sntp_result option" where
  "sntp_try net tv ai =
     (if \<not> net_socket net ai then None
      else if \<not> net_connect net ai then None
      else
        let t1 = net_t1 net ai; request = sntp_build_request t1
        in if net_send net ai request \<noteq> int (length request) then None
           else
             case net_recv net ai tv request of
               None \<Rightarrow> None
             | Some datagram \<Rightarrow>
                 (let reply = take SNTP_PACKET_LEN datagram; n = length reply; t4 = net_t4 net ai
                  in if n < SNTP_PACKET_LEN then None
                     else sntp_compute_offset request reply n t4))"

fun sntp_addresses :: "'a sntp_net \<Rightarrow> int \<times> int \<Rightarrow> 'a list \<Rightarrow> sntp_result option" where
  "sntp_addresses net tv [] = None"
| "sntp_addresses net tv (ai # res) =
     (case sntp_try net tv ai of Some r \<Rightarrow> Some r | None \<Rightarrow> sntp_addresses net tv res)"

definition sntp_query :: "'a sntp_net \<Rightarrow> string option \<Rightarrow> int \<Rightarrow> sntp_result option" where
  "sntp_query net server timeout_ms =
     (case server of
        None \<Rightarrow> None
      | Some server \<Rightarrow>
          (case net_getaddrinfo net server of
             None \<Rightarrow> None
           | Some res \<Rightarrow> sntp_addresses net (sntp_timeout timeout_ms) res))"

text \<open>The receive timeout is never zero, which would wait for ever.\<close>

lemma sntp_timeout_positive:
  "0 \<le> fst (sntp_timeout ms)" "0 \<le> snd (sntp_timeout ms)" "snd (sntp_timeout ms) < 1000000"
  "sntp_timeout ms \<noteq> (0, 0)"
  by (auto simp: sntp_timeout_def Let_def)

lemma sntp_addresses_Some:
  "sntp_addresses net tv res = Some r \<longleftrightarrow>
     (\<exists>i < length res. sntp_try net tv (res ! i) = Some r \<and> (\<forall>j < i. sntp_try net tv (res ! j) = None))"
proof (induction res)
  case (Cons a res)
  show ?case
  proof (cases "sntp_try net tv a")
    case None
    then show ?thesis using Cons.IH by (simp add: Ex_less_Suc2 All_less_Suc2)
  next
    case (Some x)
    then show ?thesis by (simp add: Ex_less_Suc2 All_less_Suc2)
  qed
qed simp

lemma sntp_query_Some:
  assumes "sntp_query net server ms = Some r"
  obtains name ai datagram where
    "server = Some name" "sntp_try net (sntp_timeout ms) ai = Some r"
    "net_recv net ai (sntp_timeout ms) (sntp_build_request (net_t1 net ai)) = Some datagram"
    "sntp_compute_offset (sntp_build_request (net_t1 net ai)) (take SNTP_PACKET_LEN datagram)
       (length (take SNTP_PACKET_LEN datagram)) (net_t4 net ai) = Some r"
proof -
  obtain name res where n: "server = Some name" "sntp_addresses net (sntp_timeout ms) res = Some r"
    using assms by (auto simp: sntp_query_def split: option.splits)
  then obtain i where i: "sntp_try net (sntp_timeout ms) (res ! i) = Some r"
    by (auto simp: sntp_addresses_Some)
  then obtain dg where
    "net_recv net (res ! i) (sntp_timeout ms) (sntp_build_request (net_t1 net (res ! i))) = Some dg"
    "sntp_compute_offset (sntp_build_request (net_t1 net (res ! i))) (take SNTP_PACKET_LEN dg)
       (length (take SNTP_PACKET_LEN dg)) (net_t4 net (res ! i)) = Some r"
    by (auto simp: sntp_try_def Let_def split: if_splits option.splits)
  with that[OF n(1) i] show thesis by blast
qed

section \<open>An honest exchange\<close>

text \<open>The packet of a synchronized server that received at \<open>t2\<close> and sent at \<open>t3\<close> (nanoseconds on its
  clock).\<close>

definition honest_reply :: "packet \<Rightarrow> u8 \<Rightarrow> u8 \<Rightarrow> int \<Rightarrow> int \<Rightarrow> packet" where
  "honest_reply request leap stratum t2 t3 =
     (let p = (push_bit 6 leap OR push_bit 3 4 OR 4) # stratum # replicate 22 0
              @ take 8 (drop NTP_TRANSMIT_TS request) @ replicate 16 0
      in unix_ns_to_ntp_ts t3 (unix_ns_to_ntp_ts t2 p NTP_RECEIVE_TS) NTP_TRANSMIT_TS)"

lemma honest_reply_length [simp]:
  "length (honest_reply (sntp_build_request t1) leap stratum t2 t3) = SNTP_PACKET_LEN"
  by (simp add: honest_reply_def sntp_build_request_def Let_def)

lemma timestamp_frame:
  assumes "j < i \<or> i + 8 \<le> j"
  shows "unix_ns_to_ntp_ts ns p i ! j = p ! j"
proof -
  have w: "write_be32 q k v ! j = q ! j" if "j < k \<or> k + 4 \<le> j" for q k v
    using that by (elim disjE) (simp_all add: write_be32_def)
  show ?thesis unfolding unix_ns_to_ntp_ts_floor using assms by (subst w, linarith)+ simp
qed

lemma timestamp_frame_read:
  assumes "i + 8 \<le> j \<or> j + 8 \<le> i"
  shows "ntp_ts_to_unix_ns (unix_ns_to_ntp_ts ns p i) j = ntp_ts_to_unix_ns p j"
proof -
  have r: "read_be32 (unix_ns_to_ntp_ts ns p i) k = read_be32 p k" if "i + 8 \<le> k \<or> k + 4 \<le> i" for k
    unfolding unix_ns_to_ntp_ts_floor using that by (subst read_write_be32_other, linarith)+ simp
  show ?thesis
    unfolding ntp_ts_to_unix_ns_def using r[of j] r[of "j + 4"] assms by (auto simp: Let_def)
qed

lemma honest_server_reply:
  assumes "leap < 3" "1 \<le> stratum" "stratum \<le> 15"
  shows "server_reply (sntp_build_request t1) (honest_reply (sntp_build_request t1) leap stratum t2 t3)"
proof -
  let ?q = "sntp_build_request t1"
  let ?r = "honest_reply ?q leap stratum t2 t3"
  have len: "length ?q = SNTP_PACKET_LEN" by (simp add: sntp_build_request_def Let_def)
  have b0: "?r ! 0 = push_bit 6 leap OR push_bit 3 4 OR 4" and b1: "?r ! 1 = stratum"
    by (simp_all add: honest_reply_def Let_def timestamp_frame)
  have "take 8 (drop NTP_ORIGINATE_TS ?r) = take 8 (drop NTP_TRANSMIT_TS ?q)"
  proof (rule nth_equalityI)
    fix i assume "i < length (take 8 (drop NTP_ORIGINATE_TS ?r))"
    then have "i < 8" by simp
    then show "take 8 (drop NTP_ORIGINATE_TS ?r) ! i = take 8 (drop NTP_TRANSMIT_TS ?q) ! i"
      using len by (simp add: honest_reply_def Let_def timestamp_frame nth_append)
  qed (simp add: len)
  moreover have "leap \<in> {0, 1, 2}"
  proof -
    have "unat leap < 3" using assms(1) by (simp add: word_less_nat_alt)
    then have "unat leap = 0 \<or> unat leap = 1 \<or> unat leap = 2" by linarith
    then show ?thesis by (auto intro: unsigned_word_eqI simp: word_unat_eq_iff)
  qed
  then have "?r ! 0 AND 7 = 4 \<and> uint (drop_bit 6 (?r ! 0)) \<noteq> 3" unfolding b0 by auto
  moreover have "1 \<le> uint (?r ! 1) \<and> uint (?r ! 1) \<le> 15"
    unfolding b1 using assms(2,3) by (simp add: word_le_def)
  ultimately show ?thesis by (simp add: server_reply_def)
qed

abbreviation sntp_era :: "int \<Rightarrow> bool" where
  "sntp_era ns \<equiv> 0 \<le> ns \<and> ns < (2 ^ 32 - SNTP_UNIX_EPOCH_DELTA) * NS_PER_SEC"

lemma honest_times:
  assumes "sntp_era (timespec_to_ns t1)" "sntp_era t2" "sntp_era t3"
  shows "\<exists>s1 s2 s3. sntp_times (sntp_build_request t1)
            (honest_reply (sntp_build_request t1) leap stratum t2 t3) s1 s2 s3
          \<and> timespec_to_ns t1 - 1 \<le> s1 \<and> s1 \<le> timespec_to_ns t1
          \<and> t2 - 1 \<le> s2 \<and> s2 \<le> t2 \<and> t3 - 1 \<le> s3 \<and> s3 \<le> t3 \<and> (t2 = t3 \<longrightarrow> s2 = s3)"
proof -
  define q where "q = sntp_build_request t1"
  define p where "p = (push_bit 6 leap OR push_bit 3 4 OR 4) # stratum # replicate 22 0
              @ take 8 (drop NTP_TRANSMIT_TS q) @ replicate 16 0"
  have len: "length q = SNTP_PACKET_LEN" by (simp add: q_def sntp_build_request_def Let_def)
  have d: "ntp_ts_to_unix_ns (unix_ns_to_ntp_ts n p i) i = ntp_ts_to_unix_ns (unix_ns_to_ntp_ts n p' j) j"
    if "i + 8 \<le> length p" "j + 8 \<le> length p'" for n p p' i j
    unfolding ntp_ts_to_unix_ns_def written_timestamp[OF that(1)] written_timestamp[OF that(2)] by simp
  have l: "length p = SNTP_PACKET_LEN" using len by (simp add: p_def)
  obtain s1 where s1: "ntp_ts_to_unix_ns q NTP_TRANSMIT_TS = Some s1"
    "timespec_to_ns t1 - 1 \<le> s1" "s1 \<le> timespec_to_ns t1"
    using request_time[of t1] assms(1) unfolding q_def by blast
  obtain s2 where s2: "ntp_ts_to_unix_ns (unix_ns_to_ntp_ts t2 p NTP_RECEIVE_TS) NTP_RECEIVE_TS = Some s2"
    "t2 - 1 \<le> s2" "s2 \<le> t2"
    using timestamp_roundtrip[of t2 NTP_RECEIVE_TS p] assms(2) l by auto
  obtain s3 where s3:
    "ntp_ts_to_unix_ns (unix_ns_to_ntp_ts t3 (unix_ns_to_ntp_ts t2 p NTP_RECEIVE_TS) NTP_TRANSMIT_TS) NTP_TRANSMIT_TS = Some s3"
    "t3 - 1 \<le> s3" "s3 \<le> t3"
    using timestamp_roundtrip[of t3 NTP_TRANSMIT_TS "unix_ns_to_ntp_ts t2 p NTP_RECEIVE_TS"] assms(3) l by auto
  have "s2 = s3" if "t2 = t3"
    using s2(1) s3(1) d[of NTP_RECEIVE_TS p NTP_TRANSMIT_TS "unix_ns_to_ntp_ts t2 p NTP_RECEIVE_TS" t2] l that
    by simp
  moreover have "sntp_times q (honest_reply q leap stratum t2 t3) s1 s2 s3"
    using s1(1) s2(1) s3(1) by (simp add: sntp_times_def honest_reply_def p_def timestamp_frame_read)
  ultimately show ?thesis using s1 s2 s3 unfolding q_def by blast
qed

text \<open>The reply of an honest synchronized server is accepted when the round trip takes between a
  nanosecond and just under a minute and the clocks are less than a day apart.\<close>

lemma honest_reply_accepted:
  assumes "leap < 3" "1 \<le> stratum" "stratum \<le> 15"
    and era: "sntp_era (timespec_to_ns t1)" "sntp_era t2" "sntp_era t3" and "t2 \<le> t3"
    and out: "t2 = timespec_to_ns t1 + \<theta> + d_out" "0 \<le> d_out"
    and ret: "timespec_to_ns t4 = t3 - \<theta> + d_back" "0 \<le> d_back"
    and delay: "1 \<le> d_out + d_back" "d_out + d_back \<le> SNTP_MAX_DELAY_NS - 2"
    and off: "\<bar>\<theta>\<bar> \<le> SNTP_MAX_OFFSET_NS - SNTP_MAX_DELAY_NS"
  shows "\<exists>r. sntp_compute_offset (sntp_build_request t1)
           (honest_reply (sntp_build_request t1) leap stratum t2 t3) SNTP_PACKET_LEN t4 = Some r"
proof -
  let ?q = "sntp_build_request t1"
  let ?r = "honest_reply ?q leap stratum t2 t3"
  obtain s1 s2 s3 where s: "sntp_times ?q ?r s1 s2 s3" "timespec_to_ns t1 - 1 \<le> s1" "s1 \<le> timespec_to_ns t1"
      "t2 - 1 \<le> s2" "s2 \<le> t2" "t3 - 1 \<le> s3" "s3 \<le> t3" "t2 = t3 \<longrightarrow> s2 = s3"
    using honest_times[OF era, of leap stratum] by (elim exE conjE)
  let ?t4 = "timespec_to_ns t4"
  have "s2 \<le> s3" using s(4-8) \<open>t2 \<le> t3\<close> by linarith
  have dl: "0 \<le> (?t4 - s1) - (s3 - s2)" "(?t4 - s1) - (s3 - s2) \<le> SNTP_MAX_DELAY_NS"
    using s out ret delay by linarith+
  define x where "x = (s2 - s1) + (s3 - ?t4)"
  have x: "\<bar>x\<bar> \<le> 2 * SNTP_MAX_OFFSET_NS"
    unfolding x_def using s out ret delay off by linarith
  have c: "- SNTP_MAX_OFFSET_NS \<le> c_quot x 2" "c_quot x 2 \<le> SNTP_MAX_OFFSET_NS"
    using x c_quot_bounds[of 2 x] by (cases "0 \<le> x"; simp)+
  have "sntp_compute_offset ?q ?r SNTP_PACKET_LEN t4 =
     Some \<lparr>r_offset_ns = c_quot x 2, r_delay_ms = ((?t4 - s1) - (s3 - s2)) div 1000000,
           r_stratum = uint (?r ! 1), r_leap = uint (drop_bit 6 (?r ! 0)), r_server_time = s3 div NS_PER_SEC\<rparr>"
    unfolding sntp_accepts_iff Let_def
    by (rule conjI, simp, rule conjI, rule honest_server_reply[OF assms(1-3)], rule exI[of _ s1],
        rule exI[of _ s2], rule exI[of _ s3]) (use s(1) \<open>s2 \<le> s3\<close> dl c x_def in simp)
  then show ?thesis by blast
qed

text \<open>C24: The offset a reply gives is within half the round trip of the true offset \<open>\<theta>\<close> of the server's
  clock, however unevenly the two ways share the delay.\<close>

theorem sntp_offset_accurate:
  assumes "sntp_compute_offset (sntp_build_request t1) reply n t4 = Some r"
    and "ntp_ts_to_unix_ns reply NTP_RECEIVE_TS = Some t2" "t2 = timespec_to_ns t1 + \<theta> + d_out" "0 \<le> d_out"
    and "ntp_ts_to_unix_ns reply NTP_TRANSMIT_TS = Some t3" "timespec_to_ns t4 = t3 - \<theta> + d_back" "0 \<le> d_back"
    and "sntp_era (timespec_to_ns t1)"
  shows "\<bar>r_offset_ns r - \<theta>\<bar> \<le> (r_delay_ms r + 1) * 500000"
proof -
  let ?t4 = "timespec_to_ns t4"
  obtain s1 where s1: "sntp_times (sntp_build_request t1) reply s1 t2 t3"
    and r: "r_offset_ns r = c_quot ((t2 - s1) + (t3 - ?t4)) 2" "r_delay_ms r = ((?t4 - s1) - (t3 - t2)) div 1000000"
    using assms(1,2,5) by (auto simp: sntp_accepts_iff sntp_times_def Let_def)
  have e: "timespec_to_ns t1 - 1 \<le> s1" "s1 \<le> timespec_to_ns t1"
    using request_time[of t1] assms(8) s1 by (auto simp: sntp_times_def)
  let ?x = "(t2 - s1) + (t3 - ?t4)" and ?d = "(?t4 - s1) - (t3 - t2)"
  have "?d < 1000000 * (?d div 1000000) + 1000000"
    using mult_div_mod_eq[of 1000000 ?d] pos_mod_bound[of 1000000 ?d] by linarith
  moreover have "2 * c_quot ?x 2 \<le> ?x + 1" "?x - 1 \<le> 2 * c_quot ?x 2"
    using c_quot_bounds[of 2 ?x] by (cases "0 \<le> ?x"; simp)+
  moreover have "\<bar>?x - 2 * \<theta>\<bar> \<le> ?d" using assms(3,4,6,7) e by linarith
  moreover have "\<bar>k - \<theta>\<bar> \<le> (d' + 1) * 500000"
    if "d < 1000000 * d' + 1000000" "2 * k \<le> x + 1" "x - 1 \<le> 2 * k" "\<bar>x - 2 * \<theta>\<bar> \<le> d" for d d' k x
    using that by (auto simp: abs_le_iff)
  ultimately show ?thesis unfolding r by blast
qed

text \<open>A gateway that is 250 ms slow asks a server 40 ms away.\<close>

definition sample_t1 :: timespec where "sample_t1 = \<lparr>tv_sec = 1700000000, tv_nsec = 0\<rparr>"
definition sample_t4 :: timespec where "sample_t4 = \<lparr>tv_sec = 1700000000, tv_nsec = 60000000\<rparr>"

lemma sample_exchange:
  "\<exists>r. sntp_compute_offset (sntp_build_request sample_t1)
     (honest_reply (sntp_build_request sample_t1) 0 1 1700000000280000000 1700000000290000000)
     SNTP_PACKET_LEN sample_t4 = Some r"
  by (rule honest_reply_accepted[where \<theta> = 250000000 and d_out = 30000000 and d_back = 20000000])
    (simp_all add: sample_t1_def sample_t4_def timespec_to_ns_def)

theorem sntp_offset_accurate_witness:
  "\<exists>r. sntp_compute_offset (sntp_build_request sample_t1)
       (honest_reply (sntp_build_request sample_t1) 0 1 1700000000280000000 1700000000290000000)
       SNTP_PACKET_LEN sample_t4 = Some r
     \<and> \<bar>r_offset_ns r - 250000000\<bar> \<le> (r_delay_ms r + 1) * 500000"
proof -
  obtain r where r: "sntp_compute_offset (sntp_build_request sample_t1)
       (honest_reply (sntp_build_request sample_t1) 0 1 1700000000280000000 1700000000290000000)
       SNTP_PACKET_LEN sample_t4 = Some r"
    using sample_exchange by blast
  have ns: "timespec_to_ns sample_t1 = 1700000000000000000" "timespec_to_ns sample_t4 = 1700000000060000000"
    by (simp_all add: timespec_to_ns_def sample_t1_def sample_t4_def)
  then have era: "sntp_era (timespec_to_ns sample_t1)" by simp
  obtain s1 s2 s3 where s: "sntp_times (sntp_build_request sample_t1)
       (honest_reply (sntp_build_request sample_t1) 0 1 1700000000280000000 1700000000290000000) s1 s2 s3"
     "1700000000280000000 - 1 \<le> s2" "1700000000290000000 - 1 \<le> s3" "s3 \<le> 1700000000290000000"
    using honest_times[OF era, of 1700000000280000000 1700000000290000000 0 1] by auto
  have "\<bar>r_offset_ns r - 250000000\<bar> \<le> (r_delay_ms r + 1) * 500000"
    by (rule sntp_offset_accurate[OF r, where ?t2.0 = s2 and ?t3.0 = s3
          and d_out = "s2 - timespec_to_ns sample_t1 - 250000000"
          and d_back = "timespec_to_ns sample_t4 - s3 + 250000000"])
      (use s ns in \<open>simp_all add: sntp_times_def\<close>)
  with r show ?thesis by blast
qed

end
