(* ===== verification/Https.thy ===== *)
theory Https
  imports HesCommon
begin

text \<open>
  The blocking HTTPS GET (src/src/common/hes_https.c): the options of the exchange, the sink that
  libcurl's write callback fills, and the checks before a body is reported.

  libcurl is an argument: what it does with a request is the record \<open>https_exchange\<close>, the chunks the
  network produced and, when every chunk was taken, how the transfer ended. As libcurl documents,
  a callback that takes fewer bytes than it was given ends the transfer with an error.
\<close>

section \<open>The sink\<close>

record body_sink =
  sink_body :: string
  sink_cap :: nat
  sink_overflow :: bool

text \<open>The length is that of the body; the room left is \<open>cap - 1 - len\<close>.\<close>

definition sink_write :: "string \<Rightarrow> body_sink \<Rightarrow> nat \<times> body_sink" where
  "sink_write data sink =
     (let n = length data
      in if n > sink_cap sink - 1 - length (sink_body sink) then (0, sink\<lparr>sink_overflow := True\<rparr>)
         else (n, sink\<lparr>sink_body := sink_body sink @ data\<rparr>))"

text \<open>The callback's side of a transfer: chunk after chunk, until one is refused. The Boolean tells
  whether all were taken.\<close>

fun deliver :: "string list \<Rightarrow> body_sink \<Rightarrow> bool \<times> body_sink" where
  "deliver [] sink = (True, sink)"
| "deliver (c # cs) sink =
     (let (n, sink) = sink_write c sink
      in if n < length c then (False, sink) else deliver cs sink)"

definition wf_sink :: "body_sink \<Rightarrow> bool" where
  "wf_sink s \<longleftrightarrow> length (sink_body s) < sink_cap s"

lemma wf_sink_write [wf_rules]: "wf_sink s \<Longrightarrow> wf_sink (snd (sink_write c s))"
  by (auto simp: wf_sink_def sink_write_def Let_def)

lemma deliver_step:
  "deliver (c # cs) s =
     (if length c > sink_cap s - 1 - length (sink_body s) then (False, s\<lparr>sink_overflow := True\<rparr>)
      else deliver cs (s\<lparr>sink_body := sink_body s @ c\<rparr>))"
  by (auto simp: sink_write_def Let_def)

lemma deliver_outcome:
  assumes "wf_sink s" "\<not> sink_overflow s"
  shows "wf_sink (snd (deliver cs s)) \<and> fst (deliver cs s) = (\<not> sink_overflow (snd (deliver cs s)))
     \<and> (fst (deliver cs s) \<longleftrightarrow> length (sink_body s) + length (concat cs) < sink_cap s)
     \<and> (fst (deliver cs s) \<longrightarrow> sink_body (snd (deliver cs s)) = sink_body s @ concat cs)"
  using assms
proof (induction cs arbitrary: s)
  case Nil
  then show ?case by (simp add: wf_sink_def)
next
  case (Cons c cs)
  let ?s = "s\<lparr>sink_body := sink_body s @ c\<rparr>"
  show ?case
  proof (cases "length c > sink_cap s - 1 - length (sink_body s)")
    case True
    then show ?thesis using Cons.prems unfolding deliver_step by (auto simp: wf_sink_def)
  next
    case False
    then have "wf_sink ?s" "\<not> sink_overflow ?s" using Cons.prems by (auto simp: wf_sink_def)
    from Cons.IH[OF this] show ?thesis unfolding deliver_step using False by (auto simp: add.assoc)
  qed
qed

section \<open>The request\<close>

record curl_request =
  curl_url :: string
  curl_protocols :: string
  curl_redir_protocols :: string
  curl_verifypeer :: bool
  curl_verifyhost :: nat
  curl_cainfo :: string
  curl_timeout_ms :: int
  curl_headers :: "string list"
  curl_useragent :: string

record https_exchange =
  hx_chunks :: "string list"
  hx_ok :: bool
  hx_status :: int

abbreviation HES_HTTPS_BODY_MAX :: nat where "HES_HTTPS_BODY_MAX \<equiv> 4096"

definition https_request :: "string \<Rightarrow> string \<Rightarrow> int \<Rightarrow> curl_request" where
  "https_request ca_bundle url timeout_ms =
     \<lparr>curl_url = url, curl_protocols = ''https'', curl_redir_protocols = ''https'',
      curl_verifypeer = True, curl_verifyhost = 2, curl_cainfo = ca_bundle,
      curl_timeout_ms = timeout_ms, curl_headers = [''Accept: application/json''],
      curl_useragent = ''openhes-ohmg/1.0''\<rparr>"

text \<open>\<open>None\<close> from \<open>curl\<close> is \<open>curl_easy_init\<close> failing.\<close>

definition hes_https_get ::
    "(curl_request \<Rightarrow> https_exchange option) \<Rightarrow> string \<Rightarrow> string option \<Rightarrow> nat \<Rightarrow> int \<Rightarrow> string option" where
  "hes_https_get curl ca_bundle url body_cap timeout_ms =
     (case url of
        None \<Rightarrow> None
      | Some url \<Rightarrow>
          if body_cap < 2 then None
          else
            let timeout_ms = (if timeout_ms \<le> 0 then 8000 else timeout_ms)
            in case curl (https_request ca_bundle url timeout_ms) of
                 None \<Rightarrow> None
               | Some ex \<Rightarrow>
                   (let (taken, sink) = deliver (hx_chunks ex)
                          \<lparr>sink_body = [], sink_cap = body_cap, sink_overflow = False\<rparr>;
                        rv = taken \<and> hx_ok ex;
                        status = (if rv then hx_status ex else 0)
                    in if sink_overflow sink then None
                       else if \<not> rv then None
                       else if status < 200 \<or> status > 299 then None
                       else Some (sink_body sink)))"

text \<open>A body is reported only when the whole entity fits, the transfer ended well and the status is a
  success, and it is then exactly the entity: nothing is cut off. The certificate and the host name
  are verified in every request, and only https is allowed.\<close>

lemma https_get_Some:
  "hes_https_get curl ca url cap ms = Some body \<longleftrightarrow>
     (\<exists>u ex. url = Some u \<and> 2 \<le> cap
        \<and> curl (https_request ca u (if ms \<le> 0 then 8000 else ms)) = Some ex
        \<and> hx_ok ex \<and> 200 \<le> hx_status ex \<and> hx_status ex \<le> 299
        \<and> body = concat (hx_chunks ex) \<and> length body < cap)"
proof -
  define s where "s = \<lparr>sink_body = [], sink_cap = cap, sink_overflow = False\<rparr>"
  have d: "fst (deliver cs s) = (\<not> sink_overflow (snd (deliver cs s)))"
    "fst (deliver cs s) \<longleftrightarrow> length (concat cs) < cap"
    "fst (deliver cs s) \<Longrightarrow> sink_body (snd (deliver cs s)) = concat cs" if "2 \<le> cap" for cs
    using deliver_outcome[of s cs] that by (auto simp: s_def wf_sink_def)
  show ?thesis
  proof (cases "2 \<le> cap")
    case True
    show ?thesis
      unfolding hes_https_get_def s_def[symmetric] Let_def split_beta
      using d[OF True] True by (auto split: option.splits)
  qed (auto simp: hes_https_get_def split: option.splits)
qed

end
