(* ===== verification/GeoTz.thy ===== *)
theory GeoTz
  imports Https Dispatch Json
begin

text \<open>
  Which time zone the gateway is in (src/src/services/time/geo_tz.c): the check on zone names, the
  provider's JSON answer, the host's own setting, and the two offsets of a zone, read from the
  host's database by pointing \<open>TZ\<close> at it for a moment.

  The database is an argument: whether the file of a zone can be read, and what
  \<open>localtime_r\<close> answers under a value of \<open>TZ\<close> (the offset in seconds and the daylight flag,
  positive when daylight saving is in force).
\<close>

abbreviation GEO_TZ_NAME_MAX :: nat where "GEO_TZ_NAME_MAX \<equiv> 64"
abbreviation GEO_TZ_DEFAULT_URL :: string where "GEO_TZ_DEFAULT_URL \<equiv> ''https://ipapi.co/json/''"
abbreviation GEO_TZ_DEFAULT_URLS :: string where
  "GEO_TZ_DEFAULT_URLS \<equiv> ''https://ipapi.co/json/,https://worldtimeapi.org/api/ip''"
abbreviation GEO_TZ_DEFAULT_KEY :: string where "GEO_TZ_DEFAULT_KEY \<equiv> ''timezone''"
abbreviation TZ_DIR :: string where "TZ_DIR \<equiv> ''/usr/share/zoneinfo/''"
abbreviation TZ_ENV_SAVE_MAX :: nat where "TZ_ENV_SAVE_MAX \<equiv> 256"

section \<open>Zone names\<close>

definition zone_char :: "char \<Rightarrow> bool" where
  "zone_char c \<longleftrightarrow>
     (let n = of_char c :: nat
      in 65 \<le> n \<and> n \<le> 90 \<or> 97 \<le> n \<and> n \<le> 122 \<or> 48 \<le> n \<and> n \<le> 57
         \<or> c = CHR ''/'' \<or> c = CHR ''_'' \<or> c = CHR ''-'' \<or> c = CHR ''+'')"

definition zone_name_is_sane :: "string \<Rightarrow> bool" where
  "zone_name_is_sane name \<longleftrightarrow>
     (if name = [] then False
      else if length name \<ge> GEO_TZ_NAME_MAX then False
      else if \<not> list_all zone_char name then False
      else if hd name = CHR ''/'' \<or> last name = CHR ''/'' then False
      else strstr ''//'' name = None)"

definition adopt_zone_name :: "string \<Rightarrow> nat \<Rightarrow> string option" where
  "adopt_zone_name src buf_size =
     (if \<not> zone_name_is_sane src then None
      else if length src \<ge> buf_size then None
      else Some src)"

definition zone_from_path :: "string \<Rightarrow> nat \<Rightarrow> string option" where
  "zone_from_path path buf_size =
     (let zone = (case strstr ''zoneinfo/'' path of
                    Some i \<Rightarrow> drop (i + length ''zoneinfo/'') path
                  | None \<Rightarrow> path)
      in adopt_zone_name zone buf_size)"

lemma adopt_sane: "adopt_zone_name s n = Some z \<Longrightarrow> z = s \<and> zone_name_is_sane z \<and> length z < n"
  by (auto simp: adopt_zone_name_def split: if_splits)

lemma zone_from_path_sane: "zone_from_path p n = Some z \<Longrightarrow> zone_name_is_sane z \<and> length z < n"
  by (auto simp: zone_from_path_def Let_def dest!: adopt_sane)

text \<open>A sane name has no dot, so it cannot climb out of the database's directory.\<close>

lemma sane_no_dot: "zone_name_is_sane z \<Longrightarrow> CHR ''.'' \<notin> set z"
  by (auto simp: zone_name_is_sane_def list_all_iff zone_char_def Let_def split: if_splits)

section \<open>Where the name comes from\<close>

fun in_containers :: "json \<Rightarrow> string \<Rightarrow> string list \<Rightarrow> json option" where
  "in_containers doc want [] = None"
| "in_containers doc want (c # cs) =
     (case json_object_get doc c of
        Some inner \<Rightarrow>
          (if json_is_object inner then
             (case json_object_get inner want of
                Some v \<Rightarrow> Some v
              | None \<Rightarrow> in_containers doc want cs)
           else in_containers doc want cs)
      | None \<Rightarrow> in_containers doc want cs)"

definition geo_tz_parse_json ::
    "(string \<Rightarrow> json option) \<Rightarrow> string \<Rightarrow> string option \<Rightarrow> nat \<Rightarrow> string option" where
  "geo_tz_parse_json json_loads body key cap =
     (if cap = 0 then None
      else
        let want = (case key of
                      Some k \<Rightarrow> if k \<noteq> [] then k else GEO_TZ_DEFAULT_KEY
                    | None \<Rightarrow> GEO_TZ_DEFAULT_KEY)
        in case json_loads body of
             None \<Rightarrow> None
           | Some doc \<Rightarrow>
               (let value = (case json_object_get doc want of
                               Some v \<Rightarrow> Some v
                             | None \<Rightarrow> in_containers doc want [''data'', ''location''])
                in case json_string value of
                     Some zone \<Rightarrow> adopt_zone_name zone cap
                   | None \<Rightarrow> None))"

text \<open>The body reaches the JSON parser as a C string, up to its first NUL.\<close>

definition geo_tz_detect ::
    "(curl_request \<Rightarrow> https_exchange option) \<Rightarrow> string \<Rightarrow> (string \<Rightarrow> json option) \<Rightarrow>
     string option \<Rightarrow> string option \<Rightarrow> nat \<Rightarrow> int \<Rightarrow> string option" where
  "geo_tz_detect curl ca_bundle json_loads url json_key cap timeout_ms =
     (if cap = 0 then None
      else
        let endpoint = (case url of
                          Some u \<Rightarrow> if u \<noteq> [] then u else GEO_TZ_DEFAULT_URL
                        | None \<Rightarrow> GEO_TZ_DEFAULT_URL)
        in case hes_https_get curl ca_bundle (Some endpoint) HES_HTTPS_BODY_MAX timeout_ms of
             None \<Rightarrow> None
           | Some body \<Rightarrow> geo_tz_parse_json json_loads (c_string body) json_key cap)"

text \<open>\<open>TZ\<close> of the environment, and the target of the link \<open>/etc/localtime\<close>; \<open>readlink\<close> fills at
  most 511 bytes.\<close>

definition geo_tz_system_name :: "string option \<Rightarrow> string option \<Rightarrow> nat \<Rightarrow> string option" where
  "geo_tz_system_name tz localtime_link cap =
     (if cap = 0 then None
      else
        let from_tz =
              (case tz of
                 None \<Rightarrow> None
               | Some tz \<Rightarrow>
                   if tz = [] then None
                   else
                     let tz = (if hd tz = CHR '':'' then tl tz else tz)
                     in if tz \<noteq> [] then zone_from_path tz cap else None)
        in case from_tz of
             Some z \<Rightarrow> Some z
           | None \<Rightarrow>
               (case localtime_link of
                  None \<Rightarrow> None
                | Some link \<Rightarrow>
                    (let link = take 511 link
                     in if link \<noteq> [] then zone_from_path (c_string link) cap else None)))"

lemma parse_json_sane:
  "geo_tz_parse_json jl body key cap = Some z \<Longrightarrow> zone_name_is_sane z \<and> length z < cap"
  by (auto simp: geo_tz_parse_json_def Let_def split: if_splits option.splits dest!: adopt_sane)

lemma detect_sane:
  "geo_tz_detect curl ca jl url key cap ms = Some z \<Longrightarrow> zone_name_is_sane z \<and> length z < cap"
  by (auto simp: geo_tz_detect_def Let_def parse_json_sane split: if_splits option.splits)

lemma system_name_sane:
  "geo_tz_system_name tz link cap = Some z \<Longrightarrow> zone_name_is_sane z \<and> length z < cap"
  by (auto simp: geo_tz_system_name_def Let_def split: if_splits option.splits dest!: zone_from_path_sane)

section \<open>The calendar\<close>

definition leap_year :: "int \<Rightarrow> bool" where
  "leap_year y \<longleftrightarrow> y mod 4 = 0 \<and> (y mod 100 \<noteq> 0 \<or> y mod 400 = 0)"

definition year_length :: "int \<Rightarrow> int" where
  "year_length y = (if leap_year y then 366 else 365)"

text \<open>The year \<open>gmtime_r\<close> gives for a number of days after the first of January of year \<open>y\<close>.\<close>

function gm_year :: "int \<Rightarrow> int \<Rightarrow> int" where
  "gm_year y d = (if d < year_length y then y else gm_year (y + 1) (d - year_length y))"
  by pat_completeness auto
termination
  by (relation "measure (\<lambda>(y, d). nat d)") (auto simp: year_length_def split: if_splits)

declare gm_year.simps [simp del]

text \<open>Days from 1970 to a year, and the days of a year before a month (0 is January).\<close>

definition days_to_year :: "int \<Rightarrow> int" where
  "days_to_year y = sum_list (map year_length [1970..y - 1])"

definition days_to_month :: "int \<Rightarrow> nat \<Rightarrow> int" where
  "days_to_month y mon =
     sum_list (take mon [31, if leap_year y then 29 else 28, 31, 30, 31, 30, 31, 31, 30, 31, 30, 31])"

text \<open>\<open>timegm\<close> of noon on the first of the month.\<close>

definition first_of_month_utc :: "int \<Rightarrow> nat \<Rightarrow> int" where
  "first_of_month_utc year mon = (days_to_year year + days_to_month year mon) * 86400 + 12 * 3600"

lemma year_length_pos: "0 < year_length y"
  by (simp add: year_length_def)

lemma gm_year_days:
  assumes "y0 \<le> y" "0 \<le> r" "r < year_length y"
  shows "gm_year y0 (sum_list (map year_length [y0..y - 1]) + r) = y"
  using assms
proof (induction "nat (y - y0)" arbitrary: y0)
  case 0
  then show ?case by (subst gm_year.simps) simp
next
  case (Suc n)
  then have lt: "y0 < y" by linarith
  have "[y0..y - 1] = y0 # [y0 + 1..y - 1]" using lt by (simp add: upto_rec1)
  moreover have "0 \<le> sum_list (map year_length [y0 + 1..y - 1])"
    by (rule sum_list_nonneg) (auto intro: less_imp_le[OF year_length_pos])
  ultimately show ?case
    using Suc.hyps(1)[of "y0 + 1"] Suc.hyps(2) Suc.prems lt by (subst gm_year.simps) simp
qed

text \<open>Both samples lie in the year they were taken for.\<close>

lemma sample_in_year:
  assumes "1970 \<le> y" "mon \<in> {0, 6}"
  shows "gm_year 1970 (first_of_month_utc y mon div 86400) = y"
proof -
  have "first_of_month_utc y mon div 86400 = days_to_year y + days_to_month y mon"
    by (simp add: first_of_month_utc_def)
  moreover have "0 \<le> days_to_month y mon" "days_to_month y mon < year_length y"
    using assms(2) by (auto simp: days_to_month_def year_length_def)
  ultimately show ?thesis unfolding days_to_year_def using gm_year_days[OF assms(1)] by simp
qed

section \<open>The two offsets of a zone\<close>

record tz_db =
  tz_access :: "string \<Rightarrow> bool"
  tz_localtime :: "string option \<Rightarrow> int \<Rightarrow> (int \<times> int) option"

definition zone_offsets :: "int \<times> int \<Rightarrow> int \<times> int \<Rightarrow> int \<times> int" where
  "zone_offsets jan_local jul_local =
     (let jan_off = c_quot (fst jan_local) 60; jul_off = c_quot (fst jul_local) 60;
          jan_dst = snd jan_local > 0; jul_dst = snd jul_local > 0
      in if jan_dst \<and> \<not> jul_dst then (jul_off, jan_off - jul_off)
         else if jul_dst \<and> \<not> jan_dst then (jan_off, jul_off - jan_off)
         else if \<not> jan_dst \<and> \<not> jul_dst then (jan_off, 0)
         else (jan_off, jul_off - jan_off))"

text \<open>The answer, and \<open>TZ\<close> as it is left: the old value comes back from a buffer of 256 bytes.\<close>

definition geo_tz_offsets ::
    "tz_db \<Rightarrow> int \<Rightarrow> string \<Rightarrow> string option \<Rightarrow> (int \<times> int) option \<times> string option" where
  "geo_tz_offsets db now name tz =
     (if \<not> zone_name_is_sane name then (None, tz)
      else if length (TZ_DIR @ name) \<ge> length TZ_DIR + 1 + GEO_TZ_NAME_MAX + 1
              \<or> \<not> tz_access db (TZ_DIR @ name) then (None, tz)
      else
        let saved = (case tz of
                       Some current \<Rightarrow> if length current < TZ_ENV_SAVE_MAX then current else []
                     | None \<Rightarrow> []);
            year = gm_year 1970 (now div 86400);
            jan = first_of_month_utc year 0; jul = first_of_month_utc year 6;
            answer = (case (tz_localtime db (Some name) jan, tz_localtime db (Some name) jul) of
                        (Some jan_local, Some jul_local) \<Rightarrow> Some (zone_offsets jan_local jul_local)
                      | _ \<Rightarrow> None)
        in (answer, case tz of Some _ \<Rightarrow> Some saved | None \<Rightarrow> None))"

text \<open>The zone is put back, unless the host's own \<open>TZ\<close> is 256 characters or longer: then it is lost.\<close>

lemma offsets_tz_restored:
  assumes "\<And>t. tz = Some t \<Longrightarrow> length t < TZ_ENV_SAVE_MAX"
  shows "snd (geo_tz_offsets db now name tz) = tz"
  using assms by (auto simp: geo_tz_offsets_def Let_def split: option.splits)

lemma offsets_tz_lost:
  assumes "fst (geo_tz_offsets db now name (Some t)) \<noteq> None" "TZ_ENV_SAVE_MAX \<le> length t"
  shows "snd (geo_tz_offsets db now name (Some t)) = Some []"
  using assms by (auto simp: geo_tz_offsets_def Let_def split: if_splits)

text \<open>The pair describes both samples: the standard offset is the one not in daylight saving, on either
  hemisphere, and the sum is the other.\<close>

lemma zone_offsets_correct:
  assumes "zone_offsets jan jul = (std, dst)" "(snd jan > 0) \<noteq> (snd jul > 0)"
  shows "std = c_quot (fst (if snd jan > 0 then jul else jan)) 60"
    and "std + dst = c_quot (fst (if snd jan > 0 then jan else jul)) 60"
  using assms by (auto simp: zone_offsets_def Let_def split: if_splits)

lemma offsets_Some:
  "fst (geo_tz_offsets db now name tz) = Some p \<longleftrightarrow>
     zone_name_is_sane name \<and> tz_access db (TZ_DIR @ name)
     \<and> (\<exists>jan jul. tz_localtime db (Some name) (first_of_month_utc (gm_year 1970 (now div 86400)) 0) = Some jan
          \<and> tz_localtime db (Some name) (first_of_month_utc (gm_year 1970 (now div 86400)) 6) = Some jul
          \<and> p = zone_offsets jan jul)"
  by (auto simp: geo_tz_offsets_def zone_name_is_sane_def Let_def split: option.splits)

end
