(* ===== verification/TimeSync.thy ===== *)
theory TimeSync
  imports Sntp GeoTz
begin

text \<open>
  The time service's worker thread (src/src/services/time/time_sync.c): its configuration, the
  snapshot it keeps, the refresh of the clock and of the zone, the schedule, and the protocol with
  the thread that stops it.

  A round's view of the outside is one record \<open>sync_env\<close>: the networks of the servers, the HTTPS
  exchanges, the host's zone settings and every clock reading the round makes, named by the point
  it is made at. \<open>TZ\<close> and the gateway's clock offset are the process-wide state a round leaves
  behind, and are kept in the worker's state. Log lines are left out. A round is not atomic: \<open>round_step\<close>
  makes one effect of it, a section under the lock or a call outside of it, and \<open>sync_pc\<close> says where the
  worker stands between two.
\<close>

section \<open>Comma-separated lists\<close>

definition rstrip_blanks :: "string \<Rightarrow> string" where
  "rstrip_blanks s = rev (dropWhile (\<lambda>c. c = CHR '' '' \<or> c = CHR 0x09) (rev s))"

text \<open>The field read, if there is one, and the advanced cursor.\<close>

definition next_csv :: "string \<Rightarrow> nat \<Rightarrow> string option \<times> string" where
  "next_csv cursor cap =
     (let cursor = dropWhile (\<lambda>c. c = CHR '' '' \<or> c = CHR '','') cursor
      in if cursor = [] then (None, cursor)
         else
           let out = take (cap - 1) (takeWhile (\<lambda>c. c \<noteq> CHR '','') cursor);
               p = dropWhile (\<lambda>c. c \<noteq> CHR '','') cursor;
               out = rstrip_blanks out;
               cursor = (case p of c # p' \<Rightarrow> p' | [] \<Rightarrow> [])
           in (if out \<noteq> [] then Some out else None, cursor))"

lemma next_csv_shorter:
  assumes "next_csv cursor cap = (Some f, rest)"
  shows "length rest < length cursor"
proof -
  let ?c = "dropWhile (\<lambda>c. c = CHR '' '' \<or> c = CHR '','') cursor"
  have ne: "?c \<noteq> []"
  proof
    assume "?c = []"
    then have "next_csv cursor cap = (None, [])" by (simp only: next_csv_def Let_def if_True simp_thms)
    then show False using assms by simp
  qed
  let ?p = "dropWhile (\<lambda>c. c \<noteq> CHR '','') ?c"
  have "next_csv cursor cap =
     (let out = rstrip_blanks (take (cap - 1) (takeWhile (\<lambda>c. c \<noteq> CHR '','') ?c))
      in (if out \<noteq> [] then Some out else None, case ?p of c # p' \<Rightarrow> p' | [] \<Rightarrow> []))"
    unfolding next_csv_def using ne by (simp only: Let_def if_False)
  then have rest: "rest = (case ?p of c # p' \<Rightarrow> p' | [] \<Rightarrow> [])"
    unfolding assms by (simp only: Let_def prod.inject)
  have tl: "length (case p of c # p' \<Rightarrow> p' | [] \<Rightarrow> []) < n" if "length p \<le> n" "0 < n" for p :: string and n
    using that by (cases p) auto
  have "length rest < length ?c"
    unfolding rest by (rule tl[OF length_dropWhile_le]) (rule ne[folded length_greater_0_conv])
  also have "\<dots> \<le> length cursor" by (rule length_dropWhile_le)
  finally show ?thesis .
qed

text \<open>The fields a \<open>while (next_csv(...))\<close> loop sees.\<close>

function csv_fields :: "string \<Rightarrow> nat \<Rightarrow> string list" where
  "csv_fields cursor cap =
     (case next_csv cursor cap of
        (Some f, rest) \<Rightarrow> f # csv_fields rest cap
      | (None, _) \<Rightarrow> [])"
  by pat_completeness auto
termination
  by (relation "measure (length \<circ> fst)") (auto dest: next_csv_shorter[OF sym])

declare csv_fields.simps [simp del]

lemma next_csv_bound: "next_csv cursor cap = (Some f, rest) \<Longrightarrow> f \<noteq> [] \<and> length f \<le> cap - 1"
proof -
  assume a: "next_csv cursor cap = (Some f, rest)"
  have "length (rstrip_blanks s) \<le> length s" for s
    unfolding rstrip_blanks_def length_rev using length_dropWhile_le[of _ "rev s"] by simp
  moreover obtain s where "f = rstrip_blanks (take (cap - 1) s)" "f \<noteq> []"
    using a by (auto simp: next_csv_def Let_def split: if_splits)
  ultimately show ?thesis by (metis dual_order.trans length_take min.cobounded2)
qed

lemma csv_fields_fit: "f \<in> set (csv_fields cursor cap) \<Longrightarrow> f \<noteq> [] \<and> length f \<le> cap - 1"
proof (induction cursor cap rule: csv_fields.induct)
  case (1 cursor cap)
  obtain out rest where n: "next_csv cursor cap = (out, rest)" by fastforce
  show ?case
  proof (cases out)
    case None
    then show ?thesis using "1.prems" n by (simp add: csv_fields.simps[of cursor cap])
  next
    case (Some g)
    then have "f = g \<or> f \<in> set (csv_fields rest cap)"
      using "1.prems" n by (simp add: csv_fields.simps[of cursor cap])
    then show ?thesis using "1.IH"[OF n[symmetric] Some] next_csv_bound[of cursor cap g rest] n Some by blast
  qed
qed

section \<open>Configuration and state\<close>

abbreviation MIN_NTP_INTERVAL_S :: int where "MIN_NTP_INTERVAL_S \<equiv> 60"
abbreviation MIN_TZ_INTERVAL_S :: int where "MIN_TZ_INTERVAL_S \<equiv> 300"
abbreviation IDLE_WAIT_S :: int where "IDLE_WAIT_S \<equiv> 3600"
abbreviation TIME_SYNC_DEFAULT_SERVERS :: string where
  "TIME_SYNC_DEFAULT_SERVERS \<equiv> ''pool.ntp.org,time.google.com,time.cloudflare.com''"
abbreviation TIME_SYNC_DEFAULT_NTP_INTERVAL_S :: int where "TIME_SYNC_DEFAULT_NTP_INTERVAL_S \<equiv> 3600"
abbreviation TIME_SYNC_DEFAULT_TZ_INTERVAL_S :: int where "TIME_SYNC_DEFAULT_TZ_INTERVAL_S \<equiv> 21600"
abbreviation TIME_SYNC_DEFAULT_TIMEOUT_MS :: int where "TIME_SYNC_DEFAULT_TIMEOUT_MS \<equiv> 4000"

record time_sync_config =
  cf_ntp_servers :: "string option"
  cf_ntp_interval_s :: int
  cf_ntp_enabled :: bool
  cf_tz_name :: "string option"
  cf_tz_urls :: "string option"
  cf_tz_enabled :: bool
  cf_tz_interval_s :: int
  cf_timeout_ms :: int

record time_snapshot =
  sn_ntp_valid :: bool
  sn_offset_ns :: int
  sn_delay_ms :: int
  sn_stratum :: int
  sn_last_sync :: int
  sn_tz_valid :: bool
  sn_tz_name :: string
  sn_std_offset_min :: int
  sn_dst_offset_min :: int
  sn_reachable :: bool

definition zero_snapshot :: time_snapshot where
  "zero_snapshot =
     \<lparr>sn_ntp_valid = False, sn_offset_ns = 0, sn_delay_ms = 0, sn_stratum = 0, sn_last_sync = 0,
      sn_tz_valid = False, sn_tz_name = [], sn_std_offset_min = 0, sn_dst_offset_min = 0,
      sn_reachable = False\<rparr>"

text \<open>The worker's own copy of the configuration; its strings are buffers of the struct.\<close>

record sync_cfg =
  ts_servers :: string
  ts_ntp_interval_s :: int
  ts_ntp_enabled :: bool
  ts_forced_tz :: string
  ts_tz_urls :: string
  ts_tz_enabled :: bool
  ts_tz_interval_s :: int
  ts_timeout_ms :: int

definition copy_config :: "time_sync_config \<Rightarrow> sync_cfg" where
  "copy_config cfg =
     \<lparr>ts_servers = hes_strlcpy 256
        (case cf_ntp_servers cfg of Some s \<Rightarrow> if s \<noteq> [] then s else TIME_SYNC_DEFAULT_SERVERS
         | None \<Rightarrow> TIME_SYNC_DEFAULT_SERVERS),
      ts_ntp_interval_s = (if cf_ntp_interval_s cfg \<ge> MIN_NTP_INTERVAL_S then cf_ntp_interval_s cfg
                           else TIME_SYNC_DEFAULT_NTP_INTERVAL_S),
      ts_ntp_enabled = cf_ntp_enabled cfg,
      ts_forced_tz = hes_strlcpy GEO_TZ_NAME_MAX (case cf_tz_name cfg of Some z \<Rightarrow> z | None \<Rightarrow> []),
      ts_tz_urls = hes_strlcpy 256
        (case cf_tz_urls cfg of Some s \<Rightarrow> if s \<noteq> [] then s else GEO_TZ_DEFAULT_URLS
         | None \<Rightarrow> GEO_TZ_DEFAULT_URLS),
      ts_tz_enabled = cf_tz_enabled cfg,
      ts_tz_interval_s = (if cf_tz_interval_s cfg \<ge> MIN_TZ_INTERVAL_S then cf_tz_interval_s cfg
                          else TIME_SYNC_DEFAULT_TZ_INTERVAL_S),
      ts_timeout_ms = (if cf_timeout_ms cfg > 0 then cf_timeout_ms cfg else TIME_SYNC_DEFAULT_TIMEOUT_MS)\<rparr>"

record sync_state =
  ss_snap :: time_snapshot
  ss_clock_offset :: int
  ss_tz :: "string option"
  ss_next_ntp :: int
  ss_next_tz :: int

record 'a sync_env =
  se_sntp :: "string \<Rightarrow> 'a sntp_net"
  se_curl :: "curl_request \<Rightarrow> https_exchange option"
  se_ca :: string
  se_json :: "string \<Rightarrow> json option"
  se_localtime_link :: "string option"
  se_tz_db :: tz_db
  se_realtime :: clock_reading
  se_time :: int
  se_mono_tz :: int
  se_mono_tz_done :: int
  se_mono_ntp :: int
  se_mono_ntp_done :: int

section \<open>One refresh of the clock\<close>

fun ask_servers :: "sync_cfg \<Rightarrow> 'a sync_env \<Rightarrow> string list \<Rightarrow> sntp_result option" where
  "ask_servers cfg env [] = None"
| "ask_servers cfg env (server # rest) =
     (case sntp_query (se_sntp env server) (Some server) (ts_timeout_ms cfg) of
        Some r \<Rightarrow> Some r
      | None \<Rightarrow> ask_servers cfg env rest)"

definition refresh_time :: "sync_cfg \<Rightarrow> 'a sync_env \<Rightarrow> sync_state \<Rightarrow> sync_state" where
  "refresh_time cfg env st =
     (case ask_servers cfg env (csv_fields (ts_servers cfg) 128) of
        None \<Rightarrow> st
      | Some r \<Rightarrow>
          st\<lparr>ss_clock_offset := r_offset_ns r,
             ss_snap := (ss_snap st)\<lparr>sn_ntp_valid := True, sn_offset_ns := r_offset_ns r,
               sn_delay_ms := r_delay_ms r, sn_stratum := r_stratum r,
               sn_last_sync := se_time env, sn_reachable := True\<rparr>\<rparr>)"

section \<open>One refresh of the zone\<close>

fun ask_providers :: "sync_cfg \<Rightarrow> 'a sync_env \<Rightarrow> string list \<Rightarrow> string option" where
  "ask_providers cfg env [] = None"
| "ask_providers cfg env (url # rest) =
     (case geo_tz_detect (se_curl env) (se_ca env) (se_json env) (Some url) None GEO_TZ_NAME_MAX
             (ts_timeout_ms cfg) of
        Some name \<Rightarrow> Some name
      | None \<Rightarrow> ask_providers cfg env rest)"

text \<open>The name to adopt, and whether a provider gave it.\<close>

definition zone_name :: "sync_cfg \<Rightarrow> 'a sync_env \<Rightarrow> sync_state \<Rightarrow> string option \<times> bool" where
  "zone_name cfg env st =
     (if ts_forced_tz cfg \<noteq> [] then (Some (hes_strlcpy GEO_TZ_NAME_MAX (ts_forced_tz cfg)), False)
      else
        case (if ts_tz_enabled cfg then ask_providers cfg env (csv_fields (ts_tz_urls cfg) 192) else None) of
          Some name \<Rightarrow> (Some name, True)
        | None \<Rightarrow>
            if sn_tz_valid (ss_snap st) then (None, False)
            else (geo_tz_system_name (ss_tz st) (se_localtime_link env) GEO_TZ_NAME_MAX, False))"

definition refresh_zone :: "sync_cfg \<Rightarrow> 'a sync_env \<Rightarrow> sync_state \<Rightarrow> sync_state" where
  "refresh_zone cfg env st =
     (let (name, from_provider) = zone_name cfg env st;
          st = (if from_provider then st\<lparr>ss_snap := (ss_snap st)\<lparr>sn_reachable := True\<rparr>\<rparr> else st)
      in case name of
           None \<Rightarrow> st
         | Some name \<Rightarrow>
             (let now = hes_clock_now (ss_clock_offset st) (se_realtime env);
                  (offsets, tz) = geo_tz_offsets (se_tz_db env) now name (ss_tz st);
                  st = st\<lparr>ss_tz := tz\<rparr>
              in case offsets of
                   None \<Rightarrow> st
                 | Some (std_min, dst_min) \<Rightarrow>
                     st\<lparr>ss_snap := (ss_snap st)\<lparr>sn_tz_valid := True,
                          sn_tz_name := hes_strlcpy GEO_TZ_NAME_MAX name,
                          sn_std_offset_min := std_min, sn_dst_offset_min := dst_min\<rparr>\<rparr>))"

section \<open>The schedule\<close>

definition zone_due :: "'a sync_env \<Rightarrow> sync_state \<Rightarrow> bool" where
  "zone_due env st \<longleftrightarrow> ss_next_tz st \<ge> 0 \<and> se_mono_tz env \<ge> ss_next_tz st"

definition ntp_due :: "'a sync_env \<Rightarrow> sync_state \<Rightarrow> bool" where
  "ntp_due env st \<longleftrightarrow> ss_next_ntp st \<ge> 0 \<and> se_mono_ntp env \<ge> ss_next_ntp st"

text \<open>The body of the worker's loop, up to the lock.\<close>

definition sync_round :: "sync_cfg \<Rightarrow> 'a sync_env \<Rightarrow> sync_state \<Rightarrow> sync_state" where
  "sync_round cfg env st =
     (let st = (if zone_due env st then
                  (refresh_zone cfg env st)\<lparr>ss_next_tz :=
                     if ts_tz_enabled cfg then se_mono_tz_done env + ts_tz_interval_s cfg * 1000 else - 1\<rparr>
                else st)
      in if ntp_due env st then
           (refresh_time cfg env st)\<lparr>ss_next_ntp := se_mono_ntp_done env + ts_ntp_interval_s cfg * 1000\<rparr>
         else st)"

definition next_deadline :: "sync_state \<Rightarrow> int" where
  "next_deadline st =
     (let next = (if ss_next_tz st \<ge> 0 then ss_next_tz st else - 1)
      in if ss_next_ntp st \<ge> 0 \<and> (next < 0 \<or> ss_next_ntp st < next) then ss_next_ntp st else next)"

text \<open>The absolute time (seconds, nanoseconds) the worker sleeps to.\<close>

definition wait_until :: "int \<Rightarrow> timespec \<Rightarrow> int \<Rightarrow> timespec" where
  "wait_until deadline_mono now mono_ms =
     (let delta_ms = (if deadline_mono < 0 then IDLE_WAIT_S * 1000 else deadline_mono - mono_ms);
          delta_ms = (if delta_ms < 0 then 0 else delta_ms);
          sec = tv_sec now + c_quot delta_ms 1000;
          nsec = tv_nsec now + c_rem delta_ms 1000 * 1000000
      in if nsec \<ge> 1000000000 then \<lparr>tv_sec = sec + 1, tv_nsec = nsec - 1000000000\<rparr>
         else \<lparr>tv_sec = sec, tv_nsec = nsec\<rparr>)"

definition sync_init :: "sync_cfg \<Rightarrow> string option \<Rightarrow> sync_state" where
  "sync_init cfg tz =
     \<lparr>ss_snap = zero_snapshot, ss_clock_offset = 0, ss_tz = tz,
      ss_next_ntp = (if ts_ntp_enabled cfg then 0 else - 1), ss_next_tz = 0\<rparr>"

text \<open>The worker sleeps to a proper time, for exactly the time that is left.\<close>

lemma wait_until_exact:
  assumes "0 \<le> tv_nsec now" "tv_nsec now < NS_PER_SEC" "0 \<le> d"
  shows "0 \<le> tv_nsec (wait_until d now mono_ms)" "tv_nsec (wait_until d now mono_ms) < NS_PER_SEC"
    and "timespec_to_ns (wait_until d now mono_ms) = timespec_to_ns now + max 0 (d - mono_ms) * 1000000"
proof -
  define m where "m = max 0 (d - mono_ms)"
  have m: "0 \<le> m" "0 \<le> m mod 1000" "m mod 1000 < 1000" "m = m div 1000 * 1000 + m mod 1000"
    by (simp_all add: m_def)
  have eq: "wait_until d now mono_ms =
     (let sec = tv_sec now + m div 1000; nsec = tv_nsec now + m mod 1000 * 1000000
      in if nsec \<ge> 1000000000 then \<lparr>tv_sec = sec + 1, tv_nsec = nsec - 1000000000\<rparr>
         else \<lparr>tv_sec = sec, tv_nsec = nsec\<rparr>)"
    using assms(3) m(1) by (simp add: wait_until_def m_def Let_def max_def not_less)
  show "0 \<le> tv_nsec (wait_until d now mono_ms)" "tv_nsec (wait_until d now mono_ms) < NS_PER_SEC"
    unfolding eq using assms m by (auto simp: Let_def)
  show "timespec_to_ns (wait_until d now mono_ms) = timespec_to_ns now + max 0 (d - mono_ms) * 1000000"
  proof -
    have "m mod 1000 * 1000000 + m div 1000 * NS_PER_SEC = m * 1000000"
      using mult_div_mod_eq[of 1000 m] by linarith
    then show ?thesis
      unfolding m_def[symmetric] eq timespec_to_ns_def by (auto simp: Let_def algebra_simps)
  qed
qed

text \<open>Nothing scheduled is slept through.\<close>

lemma next_deadline_first:
  "0 \<le> ss_next_ntp st \<Longrightarrow> 0 \<le> next_deadline st \<and> next_deadline st \<le> ss_next_ntp st"
  "0 \<le> ss_next_tz st \<Longrightarrow> 0 \<le> next_deadline st \<and> next_deadline st \<le> ss_next_tz st"
  by (auto simp: next_deadline_def Let_def)

section \<open>Starting, reading, stopping\<close>

text \<open>Where the worker stands, between two of its effects: the sections it holds the lock for, the store to
  the clock's offset, and what it does to the process's \<open>TZ\<close> are each a step of their own. A round carries
  the surroundings it meets. \<open>Working\<close> is the top of the loop, \<open>Deciding\<close> the lock at its bottom, \<open>Asleep\<close>
  inside \<open>pthread_cond_timedwait\<close>.\<close>

datatype 'a sync_pc =
    Working
  | Naming "'a sync_env"
  | Told "'a sync_env" string
  | Unnamed "'a sync_env"
  | Named "'a sync_env" string
  | Offsets_known "'a sync_env" string int int
  | Zone_over "'a sync_env"
  | Time_check "'a sync_env"
  | Answered "'a sync_env" sntp_result
  | Clock_set "'a sync_env" sntp_result
  | Time_over "'a sync_env"
  | Deciding
  | Asleep
  | Woken
  | Exited

record 'a sync_world =
  sw_pc :: "'a sync_pc"
  sw_stop :: bool
  sw_st :: sync_state

definition begin_round :: "'a sync_env \<Rightarrow> sync_state \<Rightarrow> 'a sync_pc" where
  "begin_round env st = (if zone_due env st then Naming env else Time_check env)"

text \<open>One step of a round: the zone's name (the operator's, a provider's, or the host's while none is known),
  its offsets, the snapshot; then the time: a server's answer, the clock, the snapshot.\<close>

fun round_step :: "sync_cfg \<Rightarrow> 'a sync_pc \<Rightarrow> sync_state \<Rightarrow> 'a sync_pc \<times> sync_state" where
  "round_step cfg (Naming env) st =
     (if ts_forced_tz cfg \<noteq> [] then (Named env (hes_strlcpy GEO_TZ_NAME_MAX (ts_forced_tz cfg)), st)
      else
        case (if ts_tz_enabled cfg then ask_providers cfg env (csv_fields (ts_tz_urls cfg) 192) else None) of
          Some name \<Rightarrow> (Told env name, st)
        | None \<Rightarrow> (Unnamed env, st))"
| "round_step cfg (Told env name) st = (Named env name, st\<lparr>ss_snap := (ss_snap st)\<lparr>sn_reachable := True\<rparr>\<rparr>)"
| "round_step cfg (Unnamed env) st =
     (if sn_tz_valid (ss_snap st) then (Zone_over env, st)
      else
        case geo_tz_system_name (ss_tz st) (se_localtime_link env) GEO_TZ_NAME_MAX of
          None \<Rightarrow> (Zone_over env, st)
        | Some name \<Rightarrow> (Named env name, st))"
| "round_step cfg (Named env name) st =
     (let now = hes_clock_now (ss_clock_offset st) (se_realtime env);
          (offsets, tz) = geo_tz_offsets (se_tz_db env) now name (ss_tz st);
          st = st\<lparr>ss_tz := tz\<rparr>
      in case offsets of
           None \<Rightarrow> (Zone_over env, st)
         | Some (std_min, dst_min) \<Rightarrow> (Offsets_known env name std_min dst_min, st))"
| "round_step cfg (Offsets_known env name std_min dst_min) st =
     (Zone_over env,
      st\<lparr>ss_snap := (ss_snap st)\<lparr>sn_tz_valid := True, sn_tz_name := hes_strlcpy GEO_TZ_NAME_MAX name,
           sn_std_offset_min := std_min, sn_dst_offset_min := dst_min\<rparr>\<rparr>)"
| "round_step cfg (Zone_over env) st =
     (Time_check env,
      st\<lparr>ss_next_tz := if ts_tz_enabled cfg then se_mono_tz_done env + ts_tz_interval_s cfg * 1000 else - 1\<rparr>)"
| "round_step cfg (Time_check env) st =
     (if \<not> ntp_due env st then (Deciding, st)
      else
        case ask_servers cfg env (csv_fields (ts_servers cfg) 128) of
          None \<Rightarrow> (Time_over env, st)
        | Some r \<Rightarrow> (Answered env r, st))"
| "round_step cfg (Answered env r) st = (Clock_set env r, st\<lparr>ss_clock_offset := r_offset_ns r\<rparr>)"
| "round_step cfg (Clock_set env r) st =
     (Time_over env,
      st\<lparr>ss_snap := (ss_snap st)\<lparr>sn_ntp_valid := True, sn_offset_ns := r_offset_ns r, sn_delay_ms := r_delay_ms r,
           sn_stratum := r_stratum r, sn_last_sync := se_time env, sn_reachable := True\<rparr>\<rparr>)"
| "round_step cfg (Time_over env) st =
     (Deciding, st\<lparr>ss_next_ntp := se_mono_ntp_done env + ts_ntp_interval_s cfg * 1000\<rparr>)"
| "round_step cfg pc st = (pc, st)"

fun in_round :: "'a sync_pc \<Rightarrow> bool" where
  "in_round Working = False"
| "in_round Deciding = False"
| "in_round Asleep = False"
| "in_round Woken = False"
| "in_round Exited = False"
| "in_round _ = True"

text \<open>The allocation and the thread creation may fail.\<close>

definition time_sync_start ::
    "bool \<Rightarrow> bool \<Rightarrow> time_sync_config \<Rightarrow> string option \<Rightarrow> (sync_cfg \<times> 'a sync_world) option" where
  "time_sync_start calloc_ok pthread_ok cfg tz =
     (if \<not> calloc_ok then None
      else
        let c = copy_config cfg
        in if \<not> pthread_ok then None
           else Some (c, \<lparr>sw_pc = Working, sw_stop = False, sw_st = sync_init c tz\<rparr>))"

definition time_sync_get :: "'a sync_world option \<Rightarrow> time_snapshot" where
  "time_sync_get ts = (case ts of None \<Rightarrow> zero_snapshot | Some w \<Rightarrow> ss_snap (sw_st w))"

definition time_sync_source_code :: "time_snapshot option \<Rightarrow> string" where
  "time_sync_source_code snap =
     (case snap of Some s \<Rightarrow> if sn_ntp_valid s then ''nt'' else ''lx'' | None \<Rightarrow> ''lx'')"

text \<open>A step of the worker, or the stopping thread setting the flag and signalling under the lock; a round
  meets any surroundings of \<open>envs\<close>. A sleeper may wake at its time, spuriously, or by the signal. Whoever
  reads the snapshot or the clock does so in a state between two steps.\<close>

inductive sync_step :: "sync_cfg \<Rightarrow> 'a sync_env set \<Rightarrow> 'a sync_world \<Rightarrow> 'a sync_world \<Rightarrow> bool"
  for cfg :: sync_cfg and envs :: "'a sync_env set" where
  start_round: "sw_pc w = Working \<Longrightarrow> env \<in> envs \<Longrightarrow>
     sync_step cfg envs w (w\<lparr>sw_pc := begin_round env (sw_st w)\<rparr>)"
| work: "in_round (sw_pc w) \<Longrightarrow> round_step cfg (sw_pc w) (sw_st w) = (pc, st) \<Longrightarrow>
     sync_step cfg envs w (w\<lparr>sw_pc := pc, sw_st := st\<rparr>)"
| sleep: "sw_pc w = Deciding \<Longrightarrow> \<not> sw_stop w \<Longrightarrow> sync_step cfg envs w (w\<lparr>sw_pc := Asleep\<rparr>)"
| finish: "sw_pc w = Deciding \<Longrightarrow> sw_stop w \<Longrightarrow> sync_step cfg envs w (w\<lparr>sw_pc := Exited\<rparr>)"
| wake: "sw_pc w = Asleep \<Longrightarrow> sync_step cfg envs w (w\<lparr>sw_pc := Woken\<rparr>)"
| again: "sw_pc w = Woken \<Longrightarrow> \<not> sw_stop w \<Longrightarrow> sync_step cfg envs w (w\<lparr>sw_pc := Working\<rparr>)"
| leave: "sw_pc w = Woken \<Longrightarrow> sw_stop w \<Longrightarrow> sync_step cfg envs w (w\<lparr>sw_pc := Exited\<rparr>)"
| stop: "\<not> sw_stop w \<Longrightarrow>
     sync_step cfg envs w (w\<lparr>sw_stop := True, sw_pc := if sw_pc w = Asleep then Woken else sw_pc w\<rparr>)"

inductive_cases sync_stepE: "sync_step cfg envs w w'"

inductive sync_reach :: "sync_cfg \<Rightarrow> 'a sync_env set \<Rightarrow> 'a sync_world \<Rightarrow> bool"
  for cfg :: sync_cfg and envs :: "'a sync_env set" where
  start: "time_sync_start True True c tz = Some (cfg, w) \<Longrightarrow> sync_reach cfg envs w"
| step: "sync_reach cfg envs w \<Longrightarrow> sync_step cfg envs w w' \<Longrightarrow> sync_reach cfg envs w'"

section \<open>A round is its steps\<close>

text \<open>How many steps lead out, once the flag is set.\<close>

fun steps_left :: "'a sync_pc \<Rightarrow> nat" where
  "steps_left Working = 11"
| "steps_left (Naming _) = 10"
| "steps_left (Told _ _) = 9"
| "steps_left (Unnamed _) = 9"
| "steps_left (Named _ _) = 8"
| "steps_left (Offsets_known _ _ _ _) = 7"
| "steps_left (Zone_over _) = 6"
| "steps_left (Time_check _) = 5"
| "steps_left (Answered _ _) = 4"
| "steps_left (Clock_set _ _) = 3"
| "steps_left (Time_over _) = 2"
| "steps_left Deciding = 1"
| "steps_left Asleep = 2"
| "steps_left Woken = 1"
| "steps_left Exited = 0"

lemma round_step_left:
  "in_round pc \<Longrightarrow> round_step cfg pc st = (pc', st') \<Longrightarrow>
     steps_left pc' < steps_left pc \<and> pc' \<noteq> Working \<and> pc' \<noteq> Asleep \<and> pc' \<noteq> Woken \<and> pc' \<noteq> Exited"
  by (cases pc) (auto simp: Let_def split: if_splits option.splits prod.splits)

text \<open>The steps to the end of a round, and that together they are \<open>sync_round\<close>: nobody else writes what a
  round works on.\<close>

function finish_round :: "sync_cfg \<Rightarrow> 'a sync_pc \<Rightarrow> sync_state \<Rightarrow> 'a sync_pc \<times> sync_state" where
  "finish_round cfg pc st =
     (if in_round pc then case round_step cfg pc st of (pc', st') \<Rightarrow> finish_round cfg pc' st' else (pc, st))"
  by pat_completeness auto
termination
  by (relation "measure (\<lambda>(cfg, pc, st). steps_left pc)") (auto split: prod.split dest: round_step_left)

declare finish_round.simps [simp del]

lemma finish_deciding [simp]: "finish_round cfg Deciding st = (Deciding, st)"
  by (simp add: finish_round.simps)

lemma finish_time:
  "finish_round cfg (Time_check env) st =
     (Deciding, if ntp_due env st
                then (refresh_time cfg env st)\<lparr>ss_next_ntp := se_mono_ntp_done env + ts_ntp_interval_s cfg * 1000\<rparr>
                else st)"
proof -
  have over: "finish_round cfg (Time_over env) st
      = (Deciding, st\<lparr>ss_next_ntp := se_mono_ntp_done env + ts_ntp_interval_s cfg * 1000\<rparr>)" for st
    by (subst finish_round.simps) simp
  have set: "finish_round cfg (Answered env r) st = (Deciding,
      st\<lparr>ss_clock_offset := r_offset_ns r, ss_snap := (ss_snap st)\<lparr>sn_ntp_valid := True, sn_offset_ns := r_offset_ns r,
          sn_delay_ms := r_delay_ms r, sn_stratum := r_stratum r, sn_last_sync := se_time env, sn_reachable := True\<rparr>,
        ss_next_ntp := se_mono_ntp_done env + ts_ntp_interval_s cfg * 1000\<rparr>)" for r st
    by (subst finish_round.simps, simp, subst finish_round.simps, simp add: over)
  show ?thesis
    by (subst finish_round.simps) (simp add: over set refresh_time_def split: option.split)
qed

lemma finish_zone:
  "finish_round cfg (Naming env) st = finish_round cfg (Time_check env)
     ((refresh_zone cfg env st)\<lparr>ss_next_tz :=
        if ts_tz_enabled cfg then se_mono_tz_done env + ts_tz_interval_s cfg * 1000 else - 1\<rparr>)"
proof -
  have over: "finish_round cfg (Zone_over env) st = finish_round cfg (Time_check env)
      (st\<lparr>ss_next_tz := if ts_tz_enabled cfg then se_mono_tz_done env + ts_tz_interval_s cfg * 1000 else - 1\<rparr>)" for st
    by (subst finish_round.simps) simp
  have stored: "finish_round cfg (Offsets_known env z std dst) st = finish_round cfg (Zone_over env)
      (st\<lparr>ss_snap := (ss_snap st)\<lparr>sn_tz_valid := True, sn_tz_name := hes_strlcpy GEO_TZ_NAME_MAX z,
           sn_std_offset_min := std, sn_dst_offset_min := dst\<rparr>\<rparr>)" for z std dst st
    by (subst finish_round.simps) simp
  have named: "finish_round cfg (Named env z) st = finish_round cfg (Zone_over env)
      (case geo_tz_offsets (se_tz_db env) (hes_clock_now (ss_clock_offset st) (se_realtime env)) z (ss_tz st) of
         (None, tz) \<Rightarrow> st\<lparr>ss_tz := tz\<rparr>
       | (Some (std, dst), tz) \<Rightarrow> st\<lparr>ss_tz := tz, ss_snap := (ss_snap st)\<lparr>sn_tz_valid := True,
           sn_tz_name := hes_strlcpy GEO_TZ_NAME_MAX z, sn_std_offset_min := std, sn_dst_offset_min := dst\<rparr>\<rparr>)" for z st
    by (subst finish_round.simps) (simp add: stored Let_def split: prod.split option.split)
  have told: "finish_round cfg (Told env z) st
      = finish_round cfg (Named env z) (st\<lparr>ss_snap := (ss_snap st)\<lparr>sn_reachable := True\<rparr>\<rparr>)" for z st
    by (subst finish_round.simps) simp
  have unnamed: "finish_round cfg (Unnamed env) st =
      (case (if sn_tz_valid (ss_snap st) then None
             else geo_tz_system_name (ss_tz st) (se_localtime_link env) GEO_TZ_NAME_MAX) of
         None \<Rightarrow> finish_round cfg (Zone_over env) st | Some z \<Rightarrow> finish_round cfg (Named env z) st)" for st
    by (subst finish_round.simps) (simp split: option.split)
  show ?thesis
    unfolding over[symmetric]
    by (subst finish_round.simps)
      (simp add: told unnamed named refresh_zone_def zone_name_def Let_def split: option.split prod.split)
qed

lemma round_is_its_steps: "finish_round cfg (begin_round env st) st = (Deciding, sync_round cfg env st)"
  by (simp add: begin_round_def sync_round_def finish_zone finish_time Let_def)

end
