(* ===== verification/TimeSvc.thy ===== *)
theory TimeSvc
  imports TimeSync Shared
begin

text \<open>
  The time service's three objects (src/src/services/time/time.c): their tables, the reports the
  real-time object sends of its own accord, and their creation on one shared state.

  The snapshot provider is an argument, called again every time the code samples it:
  \<open>snapshot n\<close> is the answer of the \<open>n\<close>-th call within an operation, \<open>None\<close> when no provider
  is set.
\<close>

abbreviation REALTIME_MAX_SECONDS :: int where "REALTIME_MAX_SECONDS \<equiv> 4294967295"
abbreviation REALTIME_EVENT_PERIOD_S :: int where "REALTIME_EVENT_PERIOD_S \<equiv> 5"
abbreviation TIME_SERVICE_OBJECT_COUNT :: nat where "TIME_SERVICE_OBJECT_COUNT \<equiv> 3"

text \<open>The state the objects share; its reference count is the cell's.\<close>

record time_state =
  tm_last_event :: int
  tm_have_tz :: bool
  tm_tz_name :: string
  tm_tz_std :: int
  tm_tz_dst :: int
  tm_have_source :: bool
  tm_source_is_ntp :: bool

definition time_zero :: time_state where
  "time_zero = \<lparr>tm_last_event = 0, tm_have_tz = False, tm_tz_name = [], tm_tz_std = 0, tm_tz_dst = 0,
                tm_have_source = False, tm_source_is_ntp = False\<rparr>"

type_synonym snapshot_fn = "(nat \<Rightarrow> time_snapshot) option"

definition time_sample_state :: "snapshot_fn \<Rightarrow> nat \<Rightarrow> time_snapshot" where
  "time_sample_state snapshot n = (case snapshot of Some f \<Rightarrow> f n | None \<Rightarrow> zero_snapshot)"

section \<open>The tables\<close>

definition build_realtime_payload :: "int \<Rightarrow> clock_reading \<Rightarrow> nat \<Rightarrow> string" where
  "build_realtime_payload offset_ns clock cap =
     (let now = hes_clock_now offset_ns clock;
          now = (if now < 0 then 0 else now);
          now = (if now > REALTIME_MAX_SECONDS then REALTIME_MAX_SECONDS else now)
      in hes_strlcpy cap
           (''vr=1.0.0;dt=ss;sz='' @ dec_int 10 @ '';ne=1;nr=0;um=se;sc=0;mp=me;ar=100;''
            @ ''pr=100;rq=op;pt=tm;ac=in;cd=no;cp=0;df=0;mn=0;mx='' @ dec_int REALTIME_MAX_SECONDS
            @ '';vl=0;rl=0;va='' @ dec_int now))"

definition build_localtz_payload :: "time_snapshot \<Rightarrow> nat \<Rightarrow> string" where
  "build_localtz_payload snap cap =
     (let std_min = (if sn_tz_valid snap then sn_std_offset_min snap else 0);
          dst_min = (if sn_tz_valid snap then sn_dst_offset_min snap else 0)
      in hes_strlcpy cap
           (''dt=ai,ai;sz='' @ dec_int 12 @ '';ne=2;nr=0;um=mi,mi;sc=0;mp=pr;ar=100;pr=100;rq=op;''
            @ ''pt=tm;ac=in;cd=no;cp=0;df=0,0;mn=-1440,-1440;mx=1440,1440;vl=0;rl=0;''
            @ ''va='' @ dec_int std_min @ '','' @ dec_int dst_min))"

definition build_source_payload :: "time_snapshot \<Rightarrow> nat \<Rightarrow> string" where
  "build_source_payload snap cap =
     hes_strlcpy cap
       (''dt=sl;sz='' @ dec_int 2 @ '';ne=1;nr=0;sc=0;mp=pr;ar=100;pr=100;rq=op;pt=tm;ac=in;''
        @ ''cd=no;cp=0;df=lx;vl=0;rl=0;va='' @ time_sync_source_code (Some snap))"

section \<open>Answers\<close>

definition realtime_on_get :: "int \<Rightarrow> clock_reading \<Rightarrow> hes_clme_msg \<Rightarrow> hes_clme_msg" where
  "realtime_on_get offset_ns clock out =
     hes_msg_set_payload_str out (build_realtime_payload offset_ns clock HES_PAYLOAD_MAX)"

definition localtz_on_get :: "snapshot_fn \<Rightarrow> hes_clme_msg \<Rightarrow> hes_clme_msg" where
  "localtz_on_get snapshot out =
     hes_msg_set_payload_str out (build_localtz_payload (time_sample_state snapshot 0) HES_PAYLOAD_MAX)"

definition source_on_get :: "snapshot_fn \<Rightarrow> hes_clme_msg \<Rightarrow> hes_clme_msg" where
  "source_on_get snapshot out =
     hes_msg_set_payload_str out (build_source_payload (time_sample_state snapshot 0) HES_PAYLOAD_MAX)"

text \<open>A PUT changes nothing.\<close>

definition time_on_put :: "time_state \<Rightarrow> hes_clme_msg \<Rightarrow> time_state" where
  "time_on_put st in_msg = st"

definition time_objects :: "int \<Rightarrow> clock_reading \<Rightarrow> snapshot_fn \<Rightarrow> time_state service_object list" where
  "time_objects offset_ns clock snapshot =
     [\<lparr>so_path = HES_LX_TIME_REALTIME_CV,
       so_on_get = Some (\<lambda>st m. (realtime_on_get offset_ns clock m, st)), so_on_put = Some time_on_put\<rparr>,
      \<lparr>so_path = HES_LX_TIME_LOCALTZ_CV,
       so_on_get = Some (\<lambda>st m. (localtz_on_get snapshot m, st)), so_on_put = Some time_on_put\<rparr>,
      \<lparr>so_path = HES_LX_TIME_SOURCE_CV,
       so_on_get = Some (\<lambda>st m. (source_on_get snapshot m, st)), so_on_put = Some time_on_put\<rparr>]"

section \<open>Reports\<close>

definition event_msg :: "string \<Rightarrow> string \<Rightarrow> hes_clme_msg" where
  "event_msg path payload =
     (let msg = hes_msg_init\<lparr>m_verb := HES_VERB_EVENT\<rparr>;
          msg = hes_msg_set_path msg path;
          msg = msg\<lparr>m_query := hes_strlcpy HES_QUERY_MAX ''va''\<rparr>
      in hes_msg_set_payload_str msg payload)"

definition publish_event :: "hes_bus \<Rightarrow> string \<Rightarrow> string \<Rightarrow> hes_bus" where
  "publish_event bus path payload = hes_bus_send bus (event_msg path payload)"

text \<open>\<open>now\<close> is \<open>time(NULL)\<close>; \<open>clock\<close> the reading behind the report's value. The snapshot is sampled
  once for the comparison and again by each builder.\<close>

definition tick_clock :: "int \<Rightarrow> clock_reading \<Rightarrow> time_state \<times> hes_bus \<Rightarrow> time_state \<times> hes_bus" where
  "tick_clock now clock sb =
     (let (st, bus) = sb
      in if tm_last_event st = 0 \<or> now - tm_last_event st \<ge> REALTIME_EVENT_PERIOD_S then
           (st\<lparr>tm_last_event := now\<rparr>,
            publish_event bus HES_LX_TIME_REALTIME_CV
              (build_realtime_payload (bus_offset_ns bus) clock HES_PAYLOAD_MAX))
         else (st, bus))"

definition zone_changed :: "time_state \<Rightarrow> time_snapshot \<Rightarrow> bool" where
  "zone_changed st snap \<longleftrightarrow>
     sn_tz_valid snap \<and> (\<not> tm_have_tz st \<or> tm_tz_name st \<noteq> sn_tz_name snap
        \<or> tm_tz_std st \<noteq> sn_std_offset_min snap \<or> tm_tz_dst st \<noteq> sn_dst_offset_min snap)"

definition tick_zone :: "time_snapshot \<Rightarrow> time_snapshot \<Rightarrow> time_state \<times> hes_bus \<Rightarrow> time_state \<times> hes_bus" where
  "tick_zone snap again sb =
     (let (st, bus) = sb
      in if zone_changed st snap then
           (st\<lparr>tm_have_tz := True, tm_tz_name := hes_strlcpy GEO_TZ_NAME_MAX (sn_tz_name snap),
               tm_tz_std := sn_std_offset_min snap, tm_tz_dst := sn_dst_offset_min snap\<rparr>,
            publish_event bus HES_LX_TIME_LOCALTZ_CV (build_localtz_payload again HES_PAYLOAD_MAX))
         else (st, bus))"

definition source_changed :: "time_state \<Rightarrow> time_snapshot \<Rightarrow> bool" where
  "source_changed st snap \<longleftrightarrow> \<not> tm_have_source st \<or> tm_source_is_ntp st \<noteq> sn_ntp_valid snap"

definition tick_source :: "time_snapshot \<Rightarrow> time_snapshot \<Rightarrow> time_state \<times> hes_bus \<Rightarrow> time_state \<times> hes_bus" where
  "tick_source snap again sb =
     (let (st, bus) = sb
      in if source_changed st snap then
           (st\<lparr>tm_have_source := True, tm_source_is_ntp := sn_ntp_valid snap\<rparr>,
            publish_event bus HES_LX_TIME_SOURCE_CV (build_source_payload again HES_PAYLOAD_MAX))
         else (st, bus))"

definition realtime_tick ::
    "int \<Rightarrow> clock_reading \<Rightarrow> snapshot_fn \<Rightarrow> time_state \<Rightarrow> hes_bus \<Rightarrow> time_state \<times> hes_bus" where
  "realtime_tick now clock snapshot st bus =
     (let sb = tick_clock now clock (st, bus);
          snap = time_sample_state snapshot 0;
          n = (if zone_changed (fst sb) snap then 2 else 1);
          sb = tick_zone snap (time_sample_state snapshot 1) sb
      in tick_source snap (time_sample_state snapshot n) sb)"

section \<open>Creation\<close>

definition time_destroy :: "time_state cell \<Rightarrow> heap_error + time_state cell" where
  "time_destroy c = shared_destroy c"

definition time_service_create ::
    "bool \<Rightarrow> (nat \<Rightarrow> bool) \<Rightarrow> nat \<Rightarrow> heap_error + (nat option \<times> time_state cell)" where
  "time_service_create alloc_state alloc max_out =
     (if max_out < TIME_SERVICE_OBJECT_COUNT then Inr (None, Freed)
      else if \<not> alloc_state then Inr (None, Freed)
      else create_objects alloc TIME_SERVICE_OBJECT_COUNT 0 (Live 0 time_zero))"

section \<open>What the objects promise\<close>

interpretation time_realtime: get_object "\<lambda>st m. (realtime_on_get offset_ns clock m, st)" for offset_ns clock
  by unfold_locales (simp_all add: realtime_on_get_def hes_strlcpy_take)

interpretation time_localtz: get_object "\<lambda>st m. (localtz_on_get snapshot m, st)" for snapshot
  by unfold_locales (simp_all add: localtz_on_get_def hes_strlcpy_take)

interpretation time_source: get_object "\<lambda>st m. (source_on_get snapshot m, st)" for snapshot
  by unfold_locales (simp_all add: source_on_get_def hes_strlcpy_take)

text \<open>No table is cut off: the answers end with the value they are about.\<close>

lemma realtime_payload_whole:
  "\<exists>n. 0 \<le> n \<and> n \<le> REALTIME_MAX_SECONDS
     \<and> build_realtime_payload off clock HES_PAYLOAD_MAX =
        ''vr=1.0.0;dt=ss;sz='' @ dec_int 10 @ '';ne=1;nr=0;um=se;sc=0;mp=me;ar=100;''
            @ ''pr=100;rq=op;pt=tm;ac=in;cd=no;cp=0;df=0;mn=0;mx='' @ dec_int REALTIME_MAX_SECONDS
            @ '';vl=0;rl=0;va='' @ dec_int n"
proof -
  define n where "n = (let now = hes_clock_now off clock; now = (if now < 0 then 0 else now)
                       in if now > REALTIME_MAX_SECONDS then REALTIME_MAX_SECONDS else now)"
  have n: "0 \<le> n" "n \<le> REALTIME_MAX_SECONDS" by (auto simp: n_def Let_def)
  have "length (dec_int n) \<le> 11" "length (dec_int 10) \<le> 11" "length (dec_int REALTIME_MAX_SECONDS) \<le> 11"
    using n by (auto intro!: dec_int_length[where k = 10, simplified] simp: abs_le_iff)
  then have "build_realtime_payload off clock HES_PAYLOAD_MAX =
        ''vr=1.0.0;dt=ss;sz='' @ dec_int 10 @ '';ne=1;nr=0;um=se;sc=0;mp=me;ar=100;''
            @ ''pr=100;rq=op;pt=tm;ac=in;cd=no;cp=0;df=0;mn=0;mx='' @ dec_int REALTIME_MAX_SECONDS
            @ '';vl=0;rl=0;va='' @ dec_int n"
    unfolding build_realtime_payload_def n_def Let_def by (intro hes_strlcpy_id) simp
  with n show ?thesis by blast
qed

lemma localtz_payload_whole:
  assumes "\<bar>sn_std_offset_min snap\<bar> \<le> 2 ^ 31" "\<bar>sn_dst_offset_min snap\<bar> \<le> 2 ^ 31" "sn_tz_valid snap"
  shows "build_localtz_payload snap HES_PAYLOAD_MAX =
    ''dt=ai,ai;sz='' @ dec_int 12 @ '';ne=2;nr=0;um=mi,mi;sc=0;mp=pr;ar=100;pr=100;rq=op;''
            @ ''pt=tm;ac=in;cd=no;cp=0;df=0,0;mn=-1440,-1440;mx=1440,1440;vl=0;rl=0;''
            @ ''va='' @ dec_int (sn_std_offset_min snap) @ '','' @ dec_int (sn_dst_offset_min snap)"
proof -
  have "length (dec_int n) \<le> 11" if "\<bar>n\<bar> \<le> 2 ^ 31" for n
    using dec_int_length[of n 10] that by simp
  from this[OF assms(1)] this[OF assms(2)] this[of 12] show ?thesis
    unfolding build_localtz_payload_def Let_def using assms(3) by (intro hes_strlcpy_id[THEN trans]) simp_all
qed

lemma tick_clock_effect:
  "tick_clock now clock (st, bus) =
     (if tm_last_event st = 0 \<or> now - tm_last_event st \<ge> REALTIME_EVENT_PERIOD_S
      then (st\<lparr>tm_last_event := now\<rparr>, hes_bus_send bus (event_msg HES_LX_TIME_REALTIME_CV
              (build_realtime_payload (bus_offset_ns bus) clock HES_PAYLOAD_MAX)))
      else (st, bus))"
  by (simp add: tick_clock_def publish_event_def)

definition tick_due :: "int \<Rightarrow> time_state \<Rightarrow> bool" where
  "tick_due now st \<longleftrightarrow> tm_last_event st = 0 \<or> now - tm_last_event st \<ge> REALTIME_EVENT_PERIOD_S"

text \<open>The addresses a tick reports, in order.\<close>

definition tick_paths :: "int \<Rightarrow> time_snapshot \<Rightarrow> time_state \<Rightarrow> string list" where
  "tick_paths now snap st =
     (if tick_due now st then [HES_LX_TIME_REALTIME_CV] else [])
     @ (if zone_changed st snap then [HES_LX_TIME_LOCALTZ_CV] else [])
     @ (if source_changed st snap then [HES_LX_TIME_SOURCE_CV] else [])"

lemma send_report:
  "map m_path (bus_sent (hes_bus_send bus (event_msg path payload))) =
     map m_path (bus_sent bus) @ [hes_strlcpy HES_PATH_MAX path]"
  by (simp add: hes_bus_send_def event_msg_def)

lemma tick_reports:
  "map m_path (bus_sent (snd (realtime_tick now clock snapshot st bus))) =
     map m_path (bus_sent bus) @ tick_paths now (time_sample_state snapshot 0) st"
proof -
  let ?s = "time_sample_state snapshot 0"
  define sb where "sb = tick_clock now clock (st, bus)"
  have 1: "zone_changed (fst sb) ?s = zone_changed st ?s" "source_changed (fst sb) ?s = source_changed st ?s"
    "map m_path (bus_sent (snd sb)) = map m_path (bus_sent bus)
       @ (if tick_due now st then [HES_LX_TIME_REALTIME_CV] else [])"
    unfolding sb_def tick_clock_effect tick_due_def
    by (simp_all add: zone_changed_def source_changed_def send_report hes_strlcpy_take)
  define sb' where "sb' = tick_zone ?s (time_sample_state snapshot 1) sb"
  have 2: "source_changed (fst sb') ?s = source_changed (fst sb) ?s"
    "map m_path (bus_sent (snd sb')) = map m_path (bus_sent (snd sb))
       @ (if zone_changed (fst sb) ?s then [HES_LX_TIME_LOCALTZ_CV] else [])"
    unfolding sb'_def tick_zone_def publish_event_def
    by (simp_all add: split_beta Let_def source_changed_def send_report hes_strlcpy_take)
  show ?thesis
    unfolding realtime_tick_def Let_def sb_def[symmetric] sb'_def[symmetric] tick_source_def publish_event_def
    using 1 2 by (simp add: split_beta tick_paths_def send_report hes_strlcpy_take)
qed

lemma tick_state:
  defines "st' \<equiv> \<lambda>now clock snapshot st bus. fst (realtime_tick now clock snapshot st bus)"
  assumes "length (sn_tz_name (time_sample_state snapshot 0)) < GEO_TZ_NAME_MAX"
  shows "tm_last_event (st' now clock snapshot st bus) = (if tick_due now st then now else tm_last_event st)"
    and "\<not> zone_changed (st' now clock snapshot st bus) (time_sample_state snapshot 0)"
    and "\<not> source_changed (st' now clock snapshot st bus) (time_sample_state snapshot 0)"
  using hes_strlcpy_id[OF assms(2)]
  by (auto simp: st'_def realtime_tick_def tick_clock_effect tick_due_def tick_zone_def tick_source_def
      zone_changed_def source_changed_def Let_def)

text \<open>The zone and the source are reported exactly when they change, and the clock every five seconds:
  after a tick that saw a snapshot, a tick that sees the same one sends nothing until the period is
  over, and then the clock alone.\<close>

theorem tick_on_change:
  assumes "length (sn_tz_name (time_sample_state snapshot 0)) < GEO_TZ_NAME_MAX"
    and "realtime_tick now clock snapshot st bus = (st', bus')"
    and "time_sample_state snapshot' 0 = time_sample_state snapshot 0" "0 < now"
  shows "map m_path (bus_sent bus') = map m_path (bus_sent bus) @ tick_paths now (time_sample_state snapshot 0) st
    \<and> map m_path (bus_sent (snd (realtime_tick now' clock' snapshot' st' bus'))) = map m_path (bus_sent bus')
       @ (if now' - tm_last_event st' \<ge> REALTIME_EVENT_PERIOD_S then [HES_LX_TIME_REALTIME_CV] else [])"
proof -
  have s: "\<not> zone_changed st' (time_sample_state snapshot 0)" "\<not> source_changed st' (time_sample_state snapshot 0)"
    "tm_last_event st' = (if tick_due now st then now else tm_last_event st)"
    using tick_state[OF assms(1), of now clock st bus] assms(2) by simp_all
  then have "tm_last_event st' \<noteq> 0" using assms(4) by (auto simp: tick_due_def)
  then show ?thesis
    using s tick_reports[of now clock snapshot st bus] tick_reports[of now' clock' snapshot' st' bus'] assms(2,3)
    by (simp add: tick_paths_def tick_due_def)
qed

theorem tick_on_change_witness:
  "\<exists>st' bus'. realtime_tick 1700000000 None None time_zero \<lparr>bus_sent = [], bus_clock = \<lambda>_. None, bus_offset_ns = 0\<rparr>
        = (st', bus')
     \<and> map m_path (bus_sent bus') = [HES_LX_TIME_REALTIME_CV, HES_LX_TIME_SOURCE_CV]
     \<and> map m_path (bus_sent (snd (realtime_tick 1700000003 None None st' bus'))) = map m_path (bus_sent bus')"
proof -
  obtain st' bus' where t: "realtime_tick 1700000000 None None time_zero
      \<lparr>bus_sent = [], bus_clock = \<lambda>_. None, bus_offset_ns = 0\<rparr> = (st', bus')" by fastforce
  have "tm_last_event st' = 1700000000"
    using tick_state(1)[of None 1700000000 None time_zero "\<lparr>bus_sent = [], bus_clock = \<lambda>_. None, bus_offset_ns = 0\<rparr>"] t
    by (simp add: time_sample_state_def zero_snapshot_def tick_due_def time_zero_def)
  then show ?thesis
    using tick_on_change[OF _ t, of None 1700000003 None] t
    by (simp add: time_sample_state_def zero_snapshot_def tick_paths_def tick_due_def time_zero_def zone_changed_def source_changed_def)
qed

text \<open>Creation, as for the other services: a failed allocation after the first frees the state twice.\<close>

lemma time_create_outcome:
  "3 \<le> max_out \<Longrightarrow> time_service_create True alloc max_out =
     (if alloc 0 \<and> alloc 1 \<and> alloc 2 then Inr (Some 3, Live 3 time_zero)
      else if \<not> alloc 0 then Inr (None, Freed) else Inl UseAfterFree)"
proof -
  have "j < 3 \<longleftrightarrow> j = 0 \<or> j = 1 \<or> j = 2" for j :: nat by auto
  then have "(\<forall>j < 3. alloc j) \<longleftrightarrow> alloc 0 \<and> alloc 1 \<and> alloc (2::nat)" by auto
  then show "3 \<le> max_out \<Longrightarrow> ?thesis" by (simp add: time_service_create_def create_objects_outcome)
qed

end
