(* ===== verification/Core.thy ===== *)
theory Core
  imports AppLua BmLoad Auth Crypto Id Mreg TimeSvc
begin

text \<open>
  The core service module (src/src/modules/core/core.c): the hub that owns the binding map, the
  service objects and the app, and the loop that moves messages between them.

  A start or a turn of the loop reads its surroundings from a record of results: the received
  message, the clocks, the time snapshot, NNG, PSA, the parsers and the Lua interpreter are
  arguments. The services live in one store \<open>core_services\<close>; an object of one service is
  lifted to it. Within one run of a script the clock and the snapshot stand still.
\<close>

section \<open>The services' store\<close>

record core_services =
  sv_id :: id_service_state
  sv_time :: time_state
  sv_auth :: auth_service_state
  sv_crypto :: crypto_service_state

definition lift_object ::
    "('s \<Rightarrow> 'p) \<Rightarrow> ('p \<Rightarrow> 's \<Rightarrow> 's) \<Rightarrow> 'p service_object \<Rightarrow> 's service_object" where
  "lift_object get put ob =
     \<lparr>so_path = so_path ob,
      so_on_get = map_option (\<lambda>f st m. let (out, p) = f (get st) m in (out, put p st)) (so_on_get ob),
      so_on_put = map_option (\<lambda>f st m. put (f (get st) m) st) (so_on_put ob)\<rparr>"

definition auth_object :: "auth_service_state service_object" where
  "auth_object = \<lparr>so_path = ''/lx/ob/so/aa/ac/cv'', so_on_get = Some (\<lambda>st m. (auth_on_get st m, st)),
                  so_on_put = Some auth_on_put\<rparr>"

section \<open>The binding map's hooks\<close>

definition core_write_at :: "binding_map \<Rightarrow> string \<Rightarrow> string \<Rightarrow> binding_map option" where
  "core_write_at bm at_address value = bm_set_at bm at_address value"

text \<open>The two gates of a Mode B decision.\<close>

definition core_authorize ::
    "psa \<Rightarrow> auth_service_state \<Rightarrow> hes_clme_msg \<Rightarrow> string \<Rightarrow> bool" where
  "core_authorize psa auth msg at_address =
     (if \<not> auth_service_authorize auth (Some (m_cred_info msg)) (Some (m_user_name msg)) (Some at_address)
      then False
      else
        case auth_service_required_proof_pi auth (Some at_address) of
          None \<Rightarrow> True
        | Some expected_pi \<Rightarrow>
            (let framed = crypto_proof_message (m_path msg) (m_payload msg) (HES_PATH_MAX + HES_PAYLOAD_MAX + 2)
             in crypto_verify_proof psa (m_cred_info msg) expected_pi (map of_char framed)))"

section \<open>The gateway's inventory\<close>

fun count_loop :: "hes_module_type \<Rightarrow> bm_addr list \<Rightarrow> u32 list \<Rightarrow> u32 list" where
  "count_loop type [] seen = seen"
| "count_loop type (a # addrs) seen =
     (if ad_module_type a \<noteq> type then count_loop type addrs seen
      else if ad_module_ref_index a \<in> set seen then count_loop type addrs seen
      else count_loop type addrs (seen @ [ad_module_ref_index a]))"

definition count_distinct_modules :: "bm_addr list \<Rightarrow> hes_module_type \<Rightarrow> int" where
  "count_distinct_modules addrs type = int (length (count_loop type addrs []))"

record core_inventory =
  ci_svc_rep_url :: "string option"
  ci_mreg :: hes_mreg
  ci_mreg_open :: bool
  ci_have_modules :: bool
  ci_modules :: "hes_module_entry list"

abbreviation CORE_INVENTORY_TIMEOUT_MS :: int where "CORE_INVENTORY_TIMEOUT_MS \<equiv> 500"
abbreviation CORE_INVENTORY_REFRESH_S :: int where "CORE_INVENTORY_REFRESH_S \<equiv> 10"

definition core_inventory_refresh ::
    "exchange \<Rightarrow> (string \<Rightarrow> json option) \<Rightarrow> core_inventory \<times> nng \<Rightarrow> core_inventory \<times> nng" where
  "core_inventory_refresh ex json_loads invn =
     (let (iv, n) = invn
      in if ci_svc_rep_url iv = None \<or> ci_svc_rep_url iv = Some [] then (iv, n)
         else
           let (opened, iv, n) =
                 (if ci_mreg_open iv then (True, iv, n)
                  else
                    let (rv, m, n) = hes_mreg_open_registry (ci_svc_rep_url iv) CORE_INVENTORY_TIMEOUT_MS n
                    in if rv \<noteq> 0 then (False, iv\<lparr>ci_mreg := m\<rparr>, n)
                       else (True, iv\<lparr>ci_mreg := m, ci_mreg_open := True\<rparr>, n))
           in if \<not> opened then (iv, n)
              else
                case hes_mreg_query_modules ex json_loads of
                  None \<Rightarrow> (iv, n)
                | Some modules \<Rightarrow> (iv\<lparr>ci_modules := modules, ci_have_modules := True\<rparr>, n))"

definition own_map_row :: "u32 \<Rightarrow> id_binding_map" where
  "own_map_row mi = \<lparr>ib_module_type = hes_strlcpy 4 ''sm'', ib_module_ref_index = mi,
                     ib_net_ref_index = 0, ib_address = []\<rparr>"

definition roster_entry :: "hes_module_entry \<Rightarrow> id_inventory \<Rightarrow> id_inventory" where
  "roster_entry m out =
     (if me_module_type m = ''hi'' then out\<lparr>iv_hans_number := iv_hans_number out + 1\<rparr>
      else if me_module_type m = ''wi'' then out\<lparr>iv_wans_number := iv_wans_number out + 1\<rparr>
      else if me_module_type m = ''sm'' then
        (let out = out\<lparr>iv_service_modules_number := iv_service_modules_number out + 1\<rparr>
         in if length (iv_binding_maps out) < ID_MAX_BINDING_MAPS
            then out\<lparr>iv_binding_maps := iv_binding_maps out @ [own_map_row (me_module_ref_index m)]\<rparr>
            else out)
      else out)"

definition core_gateway_inventory :: "core_inventory \<Rightarrow> bm_addr list \<Rightarrow> id_inventory" where
  "core_gateway_inventory iv addrs =
     (if ci_have_modules iv then fold roster_entry (ci_modules iv) empty_inventory
      else
        \<lparr>iv_hans_number = count_distinct_modules addrs HES_MODTYPE_HI,
         iv_wans_number = count_distinct_modules addrs HES_MODTYPE_WI,
         iv_service_modules_number = 1 + count_distinct_modules addrs HES_MODTYPE_SM,
         iv_binding_maps = [own_map_row 1]\<rparr>)"

lemma count_loop_set:
  assumes "distinct seen"
  shows "distinct (count_loop t addrs seen)"
    and "set (count_loop t addrs seen) = set seen \<union> {ad_module_ref_index a |a. a \<in> set addrs \<and> ad_module_type a = t}"
  using assms by (induction addrs arbitrary: seen) auto

text \<open>Every module is counted once, however many devices are behind it.\<close>

lemma count_distinct_card:
  "count_distinct_modules addrs t = int (card {ad_module_ref_index a |a. a \<in> set addrs \<and> ad_module_type a = t})"
  using distinct_card[OF count_loop_set(1)[of "[]" t addrs]] count_loop_set(2)[of "[]" t addrs]
  by (simp add: count_distinct_modules_def)

lemma roster_fold:
  "iv_hans_number (fold roster_entry ms out) =
     iv_hans_number out + int (length (filter (\<lambda>m. me_module_type m = ''hi'') ms))"
  "iv_wans_number (fold roster_entry ms out) =
     iv_wans_number out + int (length (filter (\<lambda>m. me_module_type m = ''wi'') ms))"
  "iv_service_modules_number (fold roster_entry ms out) =
     iv_service_modules_number out + int (length (filter (\<lambda>m. me_module_type m = ''sm'') ms))"
  by (induction ms arbitrary: out) (auto simp: roster_entry_def Let_def)

lemma roster_maps:
  "length (iv_binding_maps out) \<le> ID_MAX_BINDING_MAPS \<Longrightarrow>
   iv_binding_maps (fold roster_entry ms out) =
     take ID_MAX_BINDING_MAPS (iv_binding_maps out
        @ map (own_map_row \<circ> me_module_ref_index) (filter (\<lambda>m. me_module_type m = ''sm'') ms))"
proof (induction ms arbitrary: out)
  case (Cons m ms)
  have "length (iv_binding_maps (roster_entry m out)) \<le> ID_MAX_BINDING_MAPS"
    using Cons.prems by (auto simp: roster_entry_def Let_def)
  from Cons.IH[OF this] Cons.prems show ?case by (auto simp: roster_entry_def Let_def take_Cons')
qed simp

section \<open>One turn of the loop\<close>

text \<open>What a turn finds: the clock offset the sync thread has published; the message received within 200 ms, if any; the clock readings and the snapshots
  of the sync thread as a GET, the tick and the internal feed see them; \<open>time(NULL)\<close> in the tick and
  in the loop; whether the bus takes a script's message; and the answer of the manifest service.\<close>

record core_env =
  ev_offset_ns :: int
  ev_recv :: "hes_clme_msg option"
  ev_clock_get :: clock_reading
  ev_snapshot_get :: "nat \<Rightarrow> time_snapshot"
  ev_tick_now :: int
  ev_clock_tick :: clock_reading
  ev_snapshot_tick :: "nat \<Rightarrow> time_snapshot"
  ev_now :: int
  ev_clock_feed :: clock_reading
  ev_send_ok :: "hes_clme_msg \<Rightarrow> bool"
  ev_mreg :: exchange

text \<open>What does not change during a run: PSA, the JSON parser, the Lua globals, and the fuel the binding
  map's evaluation may use.\<close>

record 'l core_world =
  cw_psa :: psa
  cw_json :: "string \<Rightarrow> json option"
  cw_lua :: "'l lua"
  cw_fuel :: nat

text \<open>The binding map's state carries the app's: the script's own and the services it can read.\<close>

record 'l core_state =
  co_map :: "('l \<times> core_services) bm_state"
  co_inv :: core_inventory
  co_nng :: nng
  co_last_feed :: int
  co_last_refresh :: int

definition core_objs ::
    "psa \<Rightarrow> core_env \<Rightarrow> int \<Rightarrow> core_inventory \<Rightarrow> bm_addr list \<Rightarrow> core_services service_object list" where
  "core_objs psa env offset_ns iv addrs =
     map (lift_object sv_id (\<lambda>p. sv_id_update (\<lambda>_. p))) (id_objects (Some (core_gateway_inventory iv addrs)))
     @ map (lift_object sv_time (\<lambda>p. sv_time_update (\<lambda>_. p)))
         (time_objects offset_ns (ev_clock_get env) (Some (ev_snapshot_get env)))
     @ [lift_object sv_auth (\<lambda>p. sv_auth_update (\<lambda>_. p)) auth_object]
     @ map (lift_object sv_crypto (\<lambda>p. sv_crypto_update (\<lambda>_. p))) (crypto_objects psa)"

definition state_objs :: "'l core_world \<Rightarrow> core_env \<Rightarrow> 'l core_state \<Rightarrow> core_services service_object list" where
  "state_objs cw env st =
     core_objs (cw_psa cw) env (bus_offset_ns (s_bus (co_map st))) (co_inv st) (bm_addrs (s_bm (co_map st)))"

definition app_service_op ::
    "(hes_clme_msg \<Rightarrow> bool) \<Rightarrow> core_services service_object list \<Rightarrow> 'l lua
      \<Rightarrow> 'l \<times> core_services \<Rightarrow> bm_operation \<Rightarrow> bm_operand list
      \<Rightarrow> dbl option \<times> hes_clme_msg list \<times> 'l \<times> core_services" where
  "app_service_op send_ok objs lua app op operands =
     app_lua_call_op send_ok objs lua (op_ref_id op) operands app"

definition core_hooks :: "'l core_world \<Rightarrow> core_env \<Rightarrow> 'l core_state \<Rightarrow> ('l \<times> core_services) bm_hooks" where
  "core_hooks cw env st =
     \<lparr>app_operation = Some (app_service_op (ev_send_ok env) (state_objs cw env st) (cw_lua cw)),
      auth_authorize = Some (core_authorize (cw_psa cw) (sv_auth (snd (s_app (co_map st)))))\<rparr>"

abbreviation co_bus :: "'l core_state \<Rightarrow> hes_bus" where "co_bus st \<equiv> s_bus (co_map st)"
abbreviation co_services :: "'l core_state \<Rightarrow> core_services" where "co_services st \<equiv> snd (s_app (co_map st))"

definition set_bus :: "hes_bus \<Rightarrow> 'l core_state \<Rightarrow> 'l core_state" where
  "set_bus bus st = st\<lparr>co_map := (co_map st)\<lparr>s_bus := bus\<rparr>\<rparr>"

definition set_services :: "core_services \<Rightarrow> 'l core_state \<Rightarrow> 'l core_state" where
  "set_services sv st = st\<lparr>co_map := (co_map st)\<lparr>s_app := (fst (s_app (co_map st)), sv)\<rparr>\<rparr>"

text \<open>\<open>Overflow\<close> is the router's unchecked copy, \<open>NoFuel\<close> an evaluation that needs more than the fuel.\<close>

datatype core_stop = Overflow | NoFuel

definition core_process ::
    "'l core_world \<Rightarrow> core_env \<Rightarrow> hes_clme_msg \<Rightarrow> 'l core_state \<Rightarrow> core_stop + 'l core_state" where
  "core_process cw env msg st =
     (case bm_processor_handle (core_hooks cw env st) (cw_fuel cw) msg (co_map st) of
        None \<Rightarrow> Inl NoFuel
      | Some m \<Rightarrow> Inr (st\<lparr>co_map := m\<rparr>))"

definition core_relay :: "bool \<Rightarrow> hes_clme_msg \<Rightarrow> 'l core_state \<Rightarrow> 'l core_state" where
  "core_relay handled msg st =
     (if \<not> handled \<and> m_verb msg = HES_VERB_PUT
         \<and> bm_is_declared_destination (s_bm (co_map st)) (m_path msg) (m_device_index msg)
      then set_bus (hes_bus_send (co_bus st) msg) st else st)"

definition core_receive ::
    "'l core_world \<Rightarrow> core_env \<Rightarrow> 'l core_state \<Rightarrow> core_stop + 'l core_state" where
  "core_receive cw env st =
     (case ev_recv env of
        None \<Rightarrow> Inr st
      | Some msg \<Rightarrow>
          (case dispatch_to_local_objects (co_bus st) (state_objs cw env st) (co_services st) msg of
             Inl PayloadOverflow \<Rightarrow> Inl Overflow
           | Inr (handled, bus, sv) \<Rightarrow>
               core_process cw env msg (core_relay handled msg (set_services sv (set_bus bus st)))))"

text \<open>Only the real-time object ticks.\<close>

definition core_tick :: "core_env \<Rightarrow> 'l core_state \<Rightarrow> 'l core_state" where
  "core_tick env st =
     (let (tm, bus) = realtime_tick (ev_tick_now env) (ev_clock_tick env) (Some (ev_snapshot_tick env))
                        (sv_time (co_services st)) (co_bus st)
      in set_services ((co_services st)\<lparr>sv_time := tm\<rparr>) (set_bus bus st))"

definition self_event :: "core_env \<Rightarrow> 'l core_state \<Rightarrow> hes_clme_msg" where
  "self_event env st =
     realtime_on_get (bus_offset_ns (co_bus st)) (ev_clock_feed env)
       (hes_msg_set_path (hes_msg_init\<lparr>m_verb := HES_VERB_EVENT\<rparr>) HES_LX_TIME_REALTIME_CV)"

definition core_feed ::
    "'l core_world \<Rightarrow> core_env \<Rightarrow> 'l core_state \<Rightarrow> core_stop + 'l core_state" where
  "core_feed cw env st =
     (if ev_now env = co_last_feed st then Inr st
      else core_process cw env (self_event env st) (st\<lparr>co_last_feed := ev_now env\<rparr>))"

definition core_app_tick :: "'l core_world \<Rightarrow> core_env \<Rightarrow> 'l core_state \<Rightarrow> 'l core_state" where
  "core_app_tick cw env st =
     (let (ms, app) = app_lua_tick (ev_send_ok env) (state_objs cw env st) (cw_lua cw) (s_app (co_map st))
      in st\<lparr>co_map := (co_map st)\<lparr>s_bus := send_all (co_bus st) ms, s_app := app\<rparr>\<rparr>)"

definition core_refresh :: "'l core_world \<Rightarrow> core_env \<Rightarrow> 'l core_state \<Rightarrow> 'l core_state" where
  "core_refresh cw env st =
     (if ev_now env - co_last_refresh st \<ge> CORE_INVENTORY_REFRESH_S then
        (let (iv, n) = core_inventory_refresh (ev_mreg env) (cw_json cw) (co_inv st, co_nng st)
         in st\<lparr>co_inv := iv, co_nng := n, co_last_refresh := ev_now env\<rparr>)
      else st)"

definition core_offset :: "core_env \<Rightarrow> 'l core_state \<Rightarrow> 'l core_state" where
  "core_offset env st = set_bus ((co_bus st)\<lparr>bus_offset_ns := ev_offset_ns env\<rparr>) st"

definition core_turn ::
    "'l core_world \<Rightarrow> core_env \<Rightarrow> 'l core_state \<Rightarrow> core_stop + 'l core_state" where
  "core_turn cw env st =
     (case core_receive cw env (core_offset env st) of
        Inl e \<Rightarrow> Inl e
      | Inr st \<Rightarrow>
          (case core_feed cw env (core_tick env st) of
             Inl e \<Rightarrow> Inl e
           | Inr st \<Rightarrow> Inr (core_refresh cw env (core_app_tick cw env st))))"

end
