(* ===== verification/TimeSyncProps.thy ===== *)
theory TimeSyncProps
  imports TimeSync
begin

text \<open>
  What the time service's worker promises: its snapshot describes the clock correction in force, but
  for the moment between setting the clock and recording it, and a zone the host knows; it refines a
  specification in which knowledge is only gained from accepted answers, in the order the sources
  have; a stop is never lost; and a server that answers is heard in the end.
\<close>

section \<open>What an answer guarantees\<close>

lemma query_result_bounds:
  assumes "sntp_query net server ms = Some r"
  shows "1 \<le> r_stratum r" "r_stratum r \<le> 15" "\<bar>r_offset_ns r\<bar> \<le> SNTP_MAX_OFFSET_NS"
    "0 \<le> r_delay_ms r" "r_delay_ms r \<le> 60000"
proof -
  obtain q reply n t4 where "sntp_compute_offset q reply n t4 = Some r"
    using assms by (rule sntp_query_Some) blast
  then obtain t1 t2 t3 where d: "0 \<le> timespec_to_ns t4 - t1 - (t3 - t2)"
      "timespec_to_ns t4 - t1 - (t3 - t2) \<le> SNTP_MAX_DELAY_NS"
      "r_delay_ms r = (timespec_to_ns t4 - t1 - (t3 - t2)) div 1000000"
    and s: "server_reply q reply" "r_stratum r = uint (reply ! 1)"
    and o: "- SNTP_MAX_OFFSET_NS \<le> r_offset_ns r" "r_offset_ns r \<le> SNTP_MAX_OFFSET_NS"
    by (auto simp: sntp_accepts_iff Let_def)
  show "1 \<le> r_stratum r" "r_stratum r \<le> 15" using s by (auto simp: server_reply_def)
  show "\<bar>r_offset_ns r\<bar> \<le> SNTP_MAX_OFFSET_NS" using o by linarith
  show "0 \<le> r_delay_ms r" unfolding d(3) using d(1) by simp
  have "r_delay_ms r \<le> SNTP_MAX_DELAY_NS div 1000000" unfolding d(3) by (rule zdiv_mono1[OF d(2)]) simp
  then show "r_delay_ms r \<le> 60000" by simp
qed

lemma ask_servers_Some:
  "ask_servers cfg env ss = Some r \<Longrightarrow>
     \<exists>s \<in> set ss. sntp_query (se_sntp env s) (Some s) (ts_timeout_ms cfg) = Some r"
  by (induction ss) (auto split: option.splits)

lemma ask_servers_None:
  "ask_servers cfg env ss = None \<longleftrightarrow>
     (\<forall>s \<in> set ss. sntp_query (se_sntp env s) (Some s) (ts_timeout_ms cfg) = None)"
  by (induction ss) (auto split: option.splits)

lemma ask_providers_sane:
  "ask_providers cfg env us = Some z \<Longrightarrow> zone_name_is_sane z \<and> length z < GEO_TZ_NAME_MAX"
  by (induction us) (auto split: option.splits dest: detect_sane)

section \<open>The invariant\<close>

definition good_sync :: "int \<Rightarrow> int \<Rightarrow> int \<Rightarrow> bool" where
  "good_sync off stratum delay \<longleftrightarrow>
     \<bar>off\<bar> \<le> SNTP_MAX_OFFSET_NS \<and> 1 \<le> stratum \<and> stratum \<le> 15 \<and> 0 \<le> delay \<and> delay \<le> 60000"

lemma ask_servers_good:
  assumes "ask_servers cfg env ss = Some r"
  shows "good_sync (r_offset_ns r) (r_stratum r) (r_delay_ms r)"
proof -
  obtain s where "sntp_query (se_sntp env s) (Some s) (ts_timeout_ms cfg) = Some r"
    using ask_servers_Some[OF assms] by blast
  from query_result_bounds[OF this] show ?thesis by (simp add: good_sync_def)
qed

text \<open>A refresh of the zone leaves the clock alone and changes the rest in one of three ways.\<close>

lemma refresh_zone_cases:
  obtains
    (none) tz reach where
      "refresh_zone cfg env st = st\<lparr>ss_tz := tz, ss_snap := (ss_snap st)\<lparr>sn_reachable := reach\<rparr>\<rparr>"
  | (set) z std dst tz tz' reach where
      "refresh_zone cfg env st = st\<lparr>ss_tz := tz, ss_snap := (ss_snap st)\<lparr>sn_tz_valid := True,
          sn_tz_name := z, sn_std_offset_min := std, sn_dst_offset_min := dst, sn_reachable := reach\<rparr>\<rparr>"
      "fst (zone_name cfg env st) = Some z"
      "fst (geo_tz_offsets (se_tz_db env) (hes_clock_now (ss_clock_offset st) (se_realtime env)) z tz') = Some (std, dst)"
proof -
  obtain name prov where zn: "zone_name cfg env st = (name, prov)" by fastforce
  show thesis
  proof (cases name)
    case None
    show thesis
      by (rule none[where tz = "ss_tz st" and reach = "prov \<or> sn_reachable (ss_snap st)"])
        (simp add: refresh_zone_def zn None)
  next
    case (Some z)
    define now where "now = hes_clock_now (ss_clock_offset st) (se_realtime env)"
    obtain off tz where g: "geo_tz_offsets (se_tz_db env) now z (ss_tz st) = (off, tz)" by fastforce
    show thesis
    proof (cases off)
      case None
      show thesis
        by (rule none[where tz = tz and reach = "prov \<or> sn_reachable (ss_snap st)"])
          (simp add: refresh_zone_def zn Some now_def[symmetric] g None)
    next
      case (Some p)
      obtain std dst where p: "p = (std, dst)" by fastforce
      have sane: "zone_name_is_sane z" using g Some by (metis fst_conv offsets_Some)
      then have "hes_strlcpy GEO_TZ_NAME_MAX z = z"
        by (intro hes_strlcpy_id) (auto simp: zone_name_is_sane_def split: if_splits)
      then show thesis
        using \<open>name = Some z\<close> zn g Some p
        by (intro set[where tz = tz and z = z and std = std and dst = dst and tz' = "ss_tz st" and reach = "prov \<or> sn_reachable (ss_snap st)"])
          (auto simp: refresh_zone_def now_def[symmetric] intro!: sync_state.equality time_snapshot.equality)
    qed
  qed
qed

section \<open>Where a zone comes from\<close>

text \<open>The sources in their order: the operator's zone; else the first provider of the list that answers; and
  the host's own idea of it only when no provider does and no zone is known.\<close>

inductive zone_source :: "sync_cfg \<Rightarrow> 'a sync_env \<Rightarrow> bool \<Rightarrow> string option \<Rightarrow> string \<Rightarrow> bool"
  for cfg :: sync_cfg and env :: "'a sync_env" where
  forced: "ts_forced_tz cfg \<noteq> [] \<Longrightarrow> zone_source cfg env known tz (ts_forced_tz cfg)"
| provider: "ts_forced_tz cfg = [] \<Longrightarrow> ts_tz_enabled cfg \<Longrightarrow> csv_fields (ts_tz_urls cfg) 192 = us @ u # vs \<Longrightarrow>
     \<forall>v \<in> set us. geo_tz_detect (se_curl env) (se_ca env) (se_json env) (Some v) None GEO_TZ_NAME_MAX (ts_timeout_ms cfg) = None \<Longrightarrow>
     geo_tz_detect (se_curl env) (se_ca env) (se_json env) (Some u) None GEO_TZ_NAME_MAX (ts_timeout_ms cfg) = Some z \<Longrightarrow>
     zone_source cfg env known tz z"
| host: "ts_forced_tz cfg = [] \<Longrightarrow>
     ts_tz_enabled cfg \<longrightarrow> (\<forall>v \<in> set (csv_fields (ts_tz_urls cfg) 192).
       geo_tz_detect (se_curl env) (se_ca env) (se_json env) (Some v) None GEO_TZ_NAME_MAX (ts_timeout_ms cfg) = None) \<Longrightarrow>
     \<not> known \<Longrightarrow> geo_tz_system_name tz (se_localtime_link env) GEO_TZ_NAME_MAX = Some z \<Longrightarrow>
     zone_source cfg env known tz z"

lemma ask_providers_first:
  "ask_providers cfg env xs = Some z \<Longrightarrow> \<exists>us u vs. xs = us @ u # vs
     \<and> (\<forall>v \<in> set us. geo_tz_detect (se_curl env) (se_ca env) (se_json env) (Some v) None GEO_TZ_NAME_MAX (ts_timeout_ms cfg) = None)
     \<and> geo_tz_detect (se_curl env) (se_ca env) (se_json env) (Some u) None GEO_TZ_NAME_MAX (ts_timeout_ms cfg) = Some z"
proof (induction xs)
  case (Cons x xs)
  let ?d = "geo_tz_detect (se_curl env) (se_ca env) (se_json env) (Some x) None GEO_TZ_NAME_MAX (ts_timeout_ms cfg)"
  show ?case
  proof (cases ?d)
    case None
    then obtain us u vs where "xs = us @ u # vs"
        "\<forall>v \<in> set us. geo_tz_detect (se_curl env) (se_ca env) (se_json env) (Some v) None GEO_TZ_NAME_MAX (ts_timeout_ms cfg) = None"
        "geo_tz_detect (se_curl env) (se_ca env) (se_json env) (Some u) None GEO_TZ_NAME_MAX (ts_timeout_ms cfg) = Some z"
      using Cons by auto
    then show ?thesis using None by (intro exI[of _ "x # us"] exI[of _ u] exI[of _ vs]) simp
  next
    case (Some y)
    then show ?thesis using Cons.prems by (intro exI[of _ "[]"] exI[of _ x] exI[of _ xs]) simp
  qed
qed simp

lemma ask_providers_none:
  "ask_providers cfg env xs = None \<Longrightarrow> v \<in> set xs \<Longrightarrow>
     geo_tz_detect (se_curl env) (se_ca env) (se_json env) (Some v) None GEO_TZ_NAME_MAX (ts_timeout_ms cfg) = None"
  by (induction xs) (auto split: option.splits)

lemma ask_servers_first:
  "ask_servers cfg env xs = Some r \<Longrightarrow> \<exists>us s vs. xs = us @ s # vs
     \<and> (\<forall>v \<in> set us. sntp_query (se_sntp env v) (Some v) (ts_timeout_ms cfg) = None)
     \<and> sntp_query (se_sntp env s) (Some s) (ts_timeout_ms cfg) = Some r"
proof (induction xs)
  case (Cons x xs)
  show ?case
  proof (cases "sntp_query (se_sntp env x) (Some x) (ts_timeout_ms cfg)")
    case None
    then obtain us s vs where "xs = us @ s # vs"
        "\<forall>v \<in> set us. sntp_query (se_sntp env v) (Some v) (ts_timeout_ms cfg) = None"
        "sntp_query (se_sntp env s) (Some s) (ts_timeout_ms cfg) = Some r"
      using Cons by auto
    then show ?thesis using None by (intro exI[of _ "x # us"] exI[of _ s] exI[of _ vs]) simp
  next
    case (Some y)
    then show ?thesis using Cons.prems by (intro exI[of _ "[]"] exI[of _ x] exI[of _ xs]) simp
  qed
qed simp

section \<open>What holds at every point of a round\<close>

text \<open>What the worker carries in its hands: the surroundings are those of the round, a name has its source, an
  answer is a server's.\<close>

fun pc_ok :: "sync_cfg \<Rightarrow> 'a sync_env set \<Rightarrow> sync_state \<Rightarrow> 'a sync_pc \<Rightarrow> bool" where
  "pc_ok cfg envs st (Naming env) \<longleftrightarrow> env \<in> envs"
| "pc_ok cfg envs st (Told env z) \<longleftrightarrow> env \<in> envs \<and> (\<forall>known tz. zone_source cfg env known tz z)"
| "pc_ok cfg envs st (Unnamed env) \<longleftrightarrow> env \<in> envs \<and> ts_forced_tz cfg = []
     \<and> (ts_tz_enabled cfg \<longrightarrow> ask_providers cfg env (csv_fields (ts_tz_urls cfg) 192) = None)"
| "pc_ok cfg envs st (Named env z) \<longleftrightarrow> env \<in> envs \<and> zone_source cfg env (sn_tz_valid (ss_snap st)) (ss_tz st) z"
| "pc_ok cfg envs st (Offsets_known env z std dst) \<longleftrightarrow> env \<in> envs \<and> zone_name_is_sane z"
| "pc_ok cfg envs st (Zone_over env) \<longleftrightarrow> env \<in> envs"
| "pc_ok cfg envs st (Time_check env) \<longleftrightarrow> env \<in> envs"
| "pc_ok cfg envs st (Answered env r) \<longleftrightarrow> env \<in> envs \<and> ask_servers cfg env (csv_fields (ts_servers cfg) 128) = Some r"
| "pc_ok cfg envs st (Clock_set env r) \<longleftrightarrow> env \<in> envs \<and> ask_servers cfg env (csv_fields (ts_servers cfg) 128) = Some r"
| "pc_ok cfg envs st (Time_over env) \<longleftrightarrow> env \<in> envs"
| "pc_ok cfg envs st _ \<longleftrightarrow> True"

lemma pc_ok_idle [simp]: "\<not> in_round pc \<Longrightarrow> pc_ok cfg envs st pc"
  by (cases pc) simp_all

lemma pc_ok_step:
  assumes "pc_ok cfg envs st pc" "round_step cfg pc st = (pc', st')" "length (ts_forced_tz cfg) < GEO_TZ_NAME_MAX"
  shows "pc_ok cfg envs st' pc'"
proof (cases pc)
  case (Naming env)
  show ?thesis
  proof (cases "ts_forced_tz cfg = []")
    case False
    then show ?thesis using assms Naming zone_source.forced[OF False] by (auto simp: hes_strlcpy_id)
  next
    case True
    show ?thesis
    proof (cases "if ts_tz_enabled cfg then ask_providers cfg env (csv_fields (ts_tz_urls cfg) 192) else None")
      case None
      then show ?thesis using assms(1,2) Naming True by (auto split: if_splits)
    next
      case (Some z)
      then have "ts_tz_enabled cfg" "ask_providers cfg env (csv_fields (ts_tz_urls cfg) 192) = Some z"
        by (simp_all split: if_splits)
      then have "zone_source cfg env known tz z" for known tz
        using ask_providers_first[of cfg env "csv_fields (ts_tz_urls cfg) 192" z] zone_source.provider[OF True] by blast
      then show ?thesis using assms(1,2) Naming True Some by auto
    qed
  qed
next
  case (Unnamed env)
  have "zone_source cfg env (sn_tz_valid (ss_snap st)) (ss_tz st) z"
    if "\<not> sn_tz_valid (ss_snap st)" "geo_tz_system_name (ss_tz st) (se_localtime_link env) GEO_TZ_NAME_MAX = Some z" for z
    using assms(1) that ask_providers_none unfolding Unnamed by (intro zone_source.host) auto
  then show ?thesis using assms(1,2) Unnamed by (auto split: if_splits option.splits)
next
  case (Named env z)
  obtain off tz where g: "geo_tz_offsets (se_tz_db env) (hes_clock_now (ss_clock_offset st) (se_realtime env)) z (ss_tz st) = (off, tz)"
    by fastforce
  then have "off = Some p \<Longrightarrow> zone_name_is_sane z" for p by (metis fst_conv offsets_Some)
  then show ?thesis using assms(1,2) Named g by (auto simp: Let_def split: option.splits)
qed (use assms in \<open>auto split: if_splits option.splits\<close>)

lemma started_forced_fits:
  assumes "sync_reach cfg envs w"
  shows "length (ts_forced_tz cfg) < GEO_TZ_NAME_MAX"
  using assms
proof (induction rule: sync_reach.induct)
  case (start c tz w)
  then show ?case by (auto simp: time_sync_start_def copy_config_def Let_def hes_strlcpy_take)
qed

text \<open>A step works on the round, or moves without touching the state, or is the stop.\<close>

definition in_hand :: "'a sync_pc \<Rightarrow> bool" where
  "in_hand pc \<longleftrightarrow> (case pc of Clock_set _ _ \<Rightarrow> True | Offsets_known _ _ _ _ \<Rightarrow> True | _ \<Rightarrow> False)"

lemma in_hand_simps [simp]:
  "in_hand (Clock_set env r)" "in_hand (Offsets_known env z std dst)"
  "\<not> in_hand Working" "\<not> in_hand Deciding" "\<not> in_hand Asleep" "\<not> in_hand Woken" "\<not> in_hand Exited"
  "\<not> in_hand (begin_round env st)"
  by (simp_all add: in_hand_def begin_round_def)

lemma step_kinds:
  assumes "sync_step cfg envs w w'"
  obtains
    (work) pc st where "in_round (sw_pc w)" "round_step cfg (sw_pc w) (sw_st w) = (pc, st)" "w' = w\<lparr>sw_pc := pc, sw_st := st\<rparr>"
  | (idle) pc where "\<not> in_hand (sw_pc w)" "\<not> in_hand pc" "w' = w\<lparr>sw_pc := pc\<rparr>"
  | (stop) "w' = w\<lparr>sw_stop := True\<rparr>"
  | (woken) "\<not> in_hand (sw_pc w)" "w' = w\<lparr>sw_stop := True, sw_pc := Woken\<rparr>"
  using assms
proof (cases rule: sync_step.cases)
  case stop
  then show thesis using that(3,4) by (cases w; cases "sw_pc w = Asleep") simp_all
next
  case (start_round env)
  then show thesis by (intro that(2)[of "begin_round env (sw_st w)"]) simp_all
next
  case (work pc st)
  then show thesis by (intro that(1)[of pc st]) simp_all
next
  case sleep
  then show thesis by (intro that(2)[of Asleep]) simp_all
next
  case finish
  then show thesis by (intro that(2)[of Exited]) simp_all
next
  case wake
  then show thesis by (intro that(2)[of Woken]) simp_all
next
  case again
  then show thesis by (intro that(2)[of Working]) simp_all
next
  case leave
  then show thesis by (intro that(2)[of Exited]) simp_all
qed

lemma pc_ok_begin: "env \<in> envs \<Longrightarrow> pc_ok cfg envs st (begin_round env st)"
  by (simp add: begin_round_def)

lemma reach_pc_ok:
  assumes "sync_reach cfg envs w"
  shows "pc_ok cfg envs (sw_st w) (sw_pc w)"
  using assms
proof (induction rule: sync_reach.induct)
  case (start c tz w)
  then show ?case by (auto simp: time_sync_start_def Let_def)
next
  case (step w w')
  from step.hyps(2) show ?case
    using step.IH pc_ok_step[OF step.IH _ started_forced_fits[OF step.hyps(1)]]
    by (cases rule: sync_stepE) (auto intro: pc_ok_begin)
qed

section \<open>The snapshot and the clock\<close>

text \<open>The correction the clock applies is the one of the snapshot, and none while the snapshot has none; but
  the worker sets the clock before it takes the lock for the snapshot, and in between the clock is ahead. What
  the snapshot says of the time came from an answer that passed every check, its zone is a well-formed name.\<close>

definition snap_ok :: "'a sync_world \<Rightarrow> bool" where
  "snap_ok w \<longleftrightarrow>
     (let st = sw_st w; sn = ss_snap st
      in (case sw_pc w of
            Clock_set env r \<Rightarrow> ss_clock_offset st = r_offset_ns r \<and> good_sync (r_offset_ns r) (r_stratum r) (r_delay_ms r)
          | _ \<Rightarrow> ss_clock_offset st = (if sn_ntp_valid sn then sn_offset_ns sn else 0))
         \<and> (sn_ntp_valid sn \<longrightarrow> good_sync (sn_offset_ns sn) (sn_stratum sn) (sn_delay_ms sn))
         \<and> (sn_tz_valid sn \<longrightarrow> zone_name_is_sane (sn_tz_name sn)))"

lemma sane_fits: "zone_name_is_sane z \<Longrightarrow> hes_strlcpy GEO_TZ_NAME_MAX z = z"
  by (intro hes_strlcpy_id) (auto simp: zone_name_is_sane_def split: if_splits)

lemma snap_ok_work:
  assumes "snap_ok w" "pc_ok cfg envs (sw_st w) (sw_pc w)" "in_round (sw_pc w)" "round_step cfg (sw_pc w) (sw_st w) = (pc, st)"
  shows "snap_ok (w\<lparr>sw_pc := pc, sw_st := st\<rparr>)"
  using assms
  by (cases "sw_pc w")
    (auto simp: snap_ok_def Let_def ask_servers_good sane_fits split: if_splits option.splits prod.splits)

lemma snap_ok_idle:
  assumes "\<not> in_hand (sw_pc w)" "\<not> in_hand pc"
  shows "snap_ok (w\<lparr>sw_pc := pc\<rparr>) = snap_ok w" "snap_ok (w\<lparr>sw_stop := b, sw_pc := pc\<rparr>) = snap_ok w"
  using assms by (auto simp: snap_ok_def in_hand_def Let_def split: sync_pc.splits)

lemma snap_ok_stop: "snap_ok (w\<lparr>sw_stop := b\<rparr>) = snap_ok w"
  by (simp add: snap_ok_def)

lemma snapshot_invariant:
  assumes "sync_reach cfg envs w"
  shows "snap_ok w"
  using assms
proof (induction rule: sync_reach.induct)
  case (start c tz w)
  then show ?case by (auto simp: time_sync_start_def snap_ok_def sync_init_def zero_snapshot_def Let_def)
next
  case (step w w')
  from step.hyps(2) show ?case
  proof (cases rule: step_kinds)
    case (work pc st)
    then show ?thesis using snap_ok_work[OF step.IH reach_pc_ok[OF step.hyps(1)]] by simp
  qed (use step.IH snap_ok_stop in \<open>auto simp: snap_ok_idle\<close>)
qed

text \<open>C21: Whatever the network does and however the threads interleave, whoever looks between two effects of the
  worker finds: the correction the clock applies is the one the snapshot gives, and none when the snapshot does
  not say the time is synchronized -- except between the worker's store to the clock and the lock section that
  records it, when the clock already applies the new answer, which passed every check. Synchronization in
  the snapshot always comes from an answer that passed every check; its zone is a well-formed name.\<close>

theorem snapshot_describes_clock:
  assumes "sync_reach cfg envs w"
  shows "snap_ok w"
  by (rule snapshot_invariant[OF assms])

section \<open>Stopping\<close>

lemma stop_not_asleep:
  assumes "sync_reach cfg envs w"
  shows "sw_stop w \<longrightarrow> sw_pc w \<noteq> Asleep"
  using assms
proof (induction rule: sync_reach.induct)
  case (start c tz w)
  then show ?case by (auto simp: time_sync_start_def Let_def)
next
  case (step w w')
  from step.hyps(2) step.IH show ?case
    by (cases rule: sync_stepE) (auto simp: begin_round_def dest: round_step_left split: if_splits)
qed

lemma stop_progress:
  assumes "sync_step cfg envs w w'" "sw_stop w" "sw_pc w \<noteq> Asleep"
  shows "sw_stop w' \<and> sw_pc w' \<noteq> Asleep \<and> sw_pc w' \<noteq> Working \<and> steps_left (sw_pc w') < steps_left (sw_pc w)"
  using assms by (cases rule: sync_stepE) (auto simp: begin_round_def dest: round_step_left split: if_splits)

lemma stop_enabled:
  assumes "envs \<noteq> {}" "sw_stop w" "sw_pc w \<noteq> Exited"
  shows "\<exists>w'. sync_step cfg envs w w'"
proof (cases "in_round (sw_pc w)")
  case True
  obtain pc st where "round_step cfg (sw_pc w) (sw_st w) = (pc, st)" by fastforce
  then show ?thesis using sync_step.work[OF True] by blast
next
  case False
  obtain env where "env \<in> envs" using assms(1) by blast
  then show ?thesis
    using False assms(2,3) sync_step.start_round[of w env envs cfg] sync_step.finish[of w cfg envs]
      sync_step.wake[of w cfg envs] sync_step.leave[of w cfg envs]
    by (cases "sw_pc w") auto
qed

lemma exited_stays: "sw_pc w = Exited \<Longrightarrow> sw_stop w \<Longrightarrow> \<not> sync_step cfg envs w w'"
  by (auto elim: sync_stepE)

text \<open>C22: A stop is never lost: once the flag is set, in any interleaving, the worker is not asleep and does
  not fall asleep again, begins no further round, and has exited after at most eleven of its own steps, the
  ten of a whole round and the one that leaves the loop (one, when no round is under way); until then it can
  always take a step, and a call to the network ends by its timeout. So the join returns.\<close>

theorem stop_joins:
  assumes "sync_reach cfg envs w" "sw_stop w" "envs \<noteq> {}" "(sync_step cfg envs ^^ n) w w'"
  shows "n + steps_left (sw_pc w') \<le> steps_left (sw_pc w) \<and> n \<le> 11
     \<and> (sw_pc w = Deciding \<or> sw_pc w = Woken \<longrightarrow> n \<le> 1)
     \<and> sw_stop w' \<and> sw_pc w' \<noteq> Asleep \<and> (n \<noteq> 0 \<longrightarrow> sw_pc w' \<noteq> Working)
     \<and> (sw_pc w' = Exited \<longleftrightarrow> (\<nexists>w''. sync_step cfg envs w' w''))"
proof -
  have inv: "n + steps_left (sw_pc w') \<le> steps_left (sw_pc w) \<and> sw_stop w' \<and> sw_pc w' \<noteq> Asleep
      \<and> (n \<noteq> 0 \<longrightarrow> sw_pc w' \<noteq> Working)"
    using assms(4)
  proof (induction n arbitrary: w')
    case 0
    then show ?case using stop_not_asleep[OF assms(1)] assms(2) by simp
  next
    case (Suc n)
    then obtain v where v: "(sync_step cfg envs ^^ n) w v" "sync_step cfg envs v w'" by auto
    have "n + steps_left (sw_pc v) \<le> steps_left (sw_pc w)" "sw_stop v" "sw_pc v \<noteq> Asleep" using Suc.IH[OF v(1)] by blast+
    then show ?case using stop_progress[OF v(2)] by linarith
  qed
  have "steps_left pc \<le> 11" for pc :: "'a sync_pc" by (cases pc) simp_all
  moreover have "sw_pc w = Deciding \<or> sw_pc w = Woken \<longrightarrow> steps_left (sw_pc w) = 1" by auto
  moreover have "sw_pc w' = Exited \<longleftrightarrow> (\<nexists>w''. sync_step cfg envs w' w'')"
    using inv stop_enabled[OF assms(3), of w' cfg] exited_stays by metis
  moreover have "n \<le> steps_left (sw_pc w)" using inv by linarith
  ultimately show ?thesis using inv le_trans[of n "steps_left (sw_pc w)" 11] by auto
qed

section \<open>What the worker knows, and how it learns\<close>

text \<open>The specification: what is known of the time and of the zone, and the \<open>TZ\<close> of the process. The time is
  learned from the first server of the list that answers; a zone from its source, with the offsets the host's
  zone data give for the year of the clock as it is corrected so far; a zone the data do not know is not
  adopted. Nothing is ever unlearned.\<close>

record knowledge =
  kn_time :: "(int \<times> int \<times> int \<times> int) option"
  kn_zone :: "(string \<times> int \<times> int) option"
  kn_tz :: "string option"

definition kn_correction :: "knowledge \<Rightarrow> int" where
  "kn_correction k = (case kn_time k of Some (offset, _) \<Rightarrow> offset | None \<Rightarrow> 0)"

inductive learn :: "sync_cfg \<Rightarrow> 'a sync_env set \<Rightarrow> knowledge \<Rightarrow> knowledge \<Rightarrow> bool"
  for cfg :: sync_cfg and envs :: "'a sync_env set" where
  time: "env \<in> envs \<Longrightarrow> csv_fields (ts_servers cfg) 128 = us @ s # vs \<Longrightarrow>
     \<forall>v \<in> set us. sntp_query (se_sntp env v) (Some v) (ts_timeout_ms cfg) = None \<Longrightarrow>
     sntp_query (se_sntp env s) (Some s) (ts_timeout_ms cfg) = Some r \<Longrightarrow>
     learn cfg envs k (k\<lparr>kn_time := Some (r_offset_ns r, r_delay_ms r, r_stratum r, se_time env)\<rparr>)"
| zone: "env \<in> envs \<Longrightarrow> zone_source cfg env (kn_zone k \<noteq> None) (kn_tz k) z \<Longrightarrow>
     geo_tz_offsets (se_tz_db env) (hes_clock_now (kn_correction k) (se_realtime env)) z (kn_tz k) = (Some (std, dst), tz) \<Longrightarrow>
     learn cfg envs k (k\<lparr>kn_zone := Some (z, std, dst), kn_tz := tz\<rparr>)"
| unknown_zone: "env \<in> envs \<Longrightarrow> zone_source cfg env (kn_zone k \<noteq> None) (kn_tz k) z \<Longrightarrow>
     geo_tz_offsets (se_tz_db env) (hes_clock_now (kn_correction k) (se_realtime env)) z (kn_tz k) = (None, tz) \<Longrightarrow>
     learn cfg envs k (k\<lparr>kn_tz := tz\<rparr>)"

text \<open>What the worker knows: what its snapshot says, and the one thing it has in hand on the way to it.\<close>

definition knows :: "'a sync_world \<Rightarrow> knowledge" where
  "knows w =
     (let st = sw_st w; sn = ss_snap st
      in \<lparr>kn_time = (case sw_pc w of
             Clock_set env r \<Rightarrow> Some (r_offset_ns r, r_delay_ms r, r_stratum r, se_time env)
           | _ \<Rightarrow> if sn_ntp_valid sn then Some (sn_offset_ns sn, sn_delay_ms sn, sn_stratum sn, sn_last_sync sn) else None),
          kn_zone = (case sw_pc w of
             Offsets_known env z std dst \<Rightarrow> Some (z, std, dst)
           | _ \<Rightarrow> if sn_tz_valid sn then Some (sn_tz_name sn, sn_std_offset_min sn, sn_dst_offset_min sn) else None),
          kn_tz = ss_tz st\<rparr>)"

lemma knows_idle:
  assumes "\<not> in_hand (sw_pc w)" "\<not> in_hand pc"
  shows "knows (w\<lparr>sw_pc := pc\<rparr>) = knows w" "knows (w\<lparr>sw_stop := b, sw_pc := pc\<rparr>) = knows w"
  using assms by (auto simp: knows_def in_hand_def Let_def split: sync_pc.splits)

lemma knows_stop: "knows (w\<lparr>sw_stop := b\<rparr>) = knows w"
  by (simp add: knows_def)

lemma knows_correction:
  assumes "snap_ok w" "\<not> in_hand (sw_pc w)"
  shows "kn_correction (knows w) = ss_clock_offset (sw_st w)"
    "kn_zone (knows w) \<noteq> None \<longleftrightarrow> sn_tz_valid (ss_snap (sw_st w))" "kn_tz (knows w) = ss_tz (sw_st w)"
  using assms by (auto simp: knows_def kn_correction_def snap_ok_def in_hand_def Let_def split: sync_pc.splits)

lemma named_learns:
  assumes "snap_ok w" "pc_ok cfg envs (sw_st w) (sw_pc w)" "sw_pc w = Named env z"
    and "round_step cfg (sw_pc w) (sw_st w) = (pc, st)"
  shows "learn cfg envs (knows w) (knows (w\<lparr>sw_pc := pc, sw_st := st\<rparr>))"
proof -
  have here: "\<not> in_hand (sw_pc w)" using assms(3) by (simp add: in_hand_def)
  note k = knows_correction[OF assms(1) here]
  have src: "env \<in> envs" "zone_source cfg env (kn_zone (knows w) \<noteq> None) (kn_tz (knows w)) z"
    unfolding k(2,3) using assms(2,3) by simp_all
  obtain off tz where g: "geo_tz_offsets (se_tz_db env) (hes_clock_now (ss_clock_offset (sw_st w)) (se_realtime env)) z
      (ss_tz (sw_st w)) = (off, tz)" by fastforce
  show ?thesis
  proof (cases off)
    case None
    then have "knows (w\<lparr>sw_pc := pc, sw_st := st\<rparr>) = (knows w)\<lparr>kn_tz := tz\<rparr>"
      using g assms(3,4) by (auto simp: knows_def Let_def)
    then show ?thesis using learn.unknown_zone[OF src, of tz] g None k by simp
  next
    case (Some p)
    obtain std dst where p: "p = (std, dst)" by fastforce
    then have "knows (w\<lparr>sw_pc := pc, sw_st := st\<rparr>) = (knows w)\<lparr>kn_zone := Some (z, std, dst), kn_tz := tz\<rparr>"
      using g assms(3,4) Some by (auto simp: knows_def Let_def)
    then show ?thesis using learn.zone[OF src, of std dst tz] g Some p k by simp
  qed
qed

lemma work_learns:
  assumes "snap_ok w" "pc_ok cfg envs (sw_st w) (sw_pc w)" "in_round (sw_pc w)" "round_step cfg (sw_pc w) (sw_st w) = (pc, st)"
  shows "knows (w\<lparr>sw_pc := pc, sw_st := st\<rparr>) = knows w \<or> learn cfg envs (knows w) (knows (w\<lparr>sw_pc := pc, sw_st := st\<rparr>))"
proof (cases "sw_pc w")
  case (Named env z)
  then show ?thesis using named_learns[OF assms(1,2) Named assms(4)] by blast
next
  case (Answered env r)
  then have "ask_servers cfg env (csv_fields (ts_servers cfg) 128) = Some r" "env \<in> envs" using assms(2) by simp_all
  then have "learn cfg envs (knows w) ((knows w)\<lparr>kn_time := Some (r_offset_ns r, r_delay_ms r, r_stratum r, se_time env)\<rparr>)"
    using ask_servers_first[of cfg env "csv_fields (ts_servers cfg) 128" r] learn.time by blast
  moreover have "knows (w\<lparr>sw_pc := pc, sw_st := st\<rparr>)
      = (knows w)\<lparr>kn_time := Some (r_offset_ns r, r_delay_ms r, r_stratum r, se_time env)\<rparr>"
    using Answered assms(4) by (auto simp: knows_def Let_def)
  ultimately show ?thesis by simp
qed (use assms in \<open>auto simp: knows_def Let_def sane_fits split: if_splits option.splits prod.splits\<close>)

lemma step_learns:
  assumes "sync_reach cfg envs w" "sync_step cfg envs w w'"
  shows "knows w' = knows w \<or> learn cfg envs (knows w) (knows w')"
  using assms(2)
proof (cases rule: step_kinds)
  case (work pc st)
  then show ?thesis
    using work_learns[OF snapshot_invariant[OF assms(1)] reach_pc_ok[OF assms(1)]] by simp
qed (simp_all add: knows_idle knows_stop)

text \<open>C20: The worker is a learner: it starts knowing nothing, and each of its effects, in any interleaving with
  a stop, is seen through what it knows either one step of that specification or none. So what it knows of the
  zone has come from the sources in their order of precedence, with the offsets of the host's zone data, what it
  knows of the time from the first server that answered, and what is known stays known.\<close>

theorem worker_refines_learning:
  assumes "sync_reach cfg envs w"
  shows "(\<exists>tz. (learn cfg envs)\<^sup>*\<^sup>* \<lparr>kn_time = None, kn_zone = None, kn_tz = tz\<rparr> (knows w))
     \<and> (\<forall>w'. sync_step cfg envs w w' \<longrightarrow> knows w' = knows w \<or> learn cfg envs (knows w) (knows w'))"
proof -
  have "\<exists>tz. (learn cfg envs)\<^sup>*\<^sup>* \<lparr>kn_time = None, kn_zone = None, kn_tz = tz\<rparr> (knows w)"
    using assms
  proof (induction rule: sync_reach.induct)
    case (start c tz w)
    then have "knows w = \<lparr>kn_time = None, kn_zone = None, kn_tz = tz\<rparr>"
      by (auto simp: time_sync_start_def knows_def sync_init_def zero_snapshot_def Let_def)
    then show ?case by auto
  next
    case (step w w')
    then show ?case using step_learns[OF step.hyps] by (metis rtranclp.rtrancl_into_rtrancl)
  qed
  then show ?thesis using step_learns[OF assms] by blast
qed

text \<open>So what was once known stays known.\<close>

lemma learn_keeps:
  "(learn cfg envs)\<^sup>*\<^sup>* k k' \<Longrightarrow>
     (kn_time k \<noteq> None \<longrightarrow> kn_time k' \<noteq> None) \<and> (kn_zone k \<noteq> None \<longrightarrow> kn_zone k' \<noteq> None)"
  by (induction rule: rtranclp_induct) (auto elim!: learn.cases)

text \<open>The flag that says the last attempt reached the network is never taken back.\<close>

lemma reachable_sticky: "sn_reachable (ss_snap st) \<Longrightarrow> sn_reachable (ss_snap (sync_round cfg env st))"
  by (auto simp: sync_round_def refresh_zone_def refresh_time_def Let_def split: option.splits prod.splits)

text \<open>An interval below the minimum is not raised to it but replaced by the default.\<close>

lemma short_interval_replaced:
  "cf_ntp_interval_s c < MIN_NTP_INTERVAL_S \<Longrightarrow> ts_ntp_interval_s (copy_config c) = TIME_SYNC_DEFAULT_NTP_INTERVAL_S"
  by (simp add: copy_config_def)

section \<open>Hearing a server\<close>

fun rounds :: "sync_cfg \<Rightarrow> (nat \<Rightarrow> 'a sync_env) \<Rightarrow> sync_state \<Rightarrow> nat \<Rightarrow> sync_state" where
  "rounds cfg e st 0 = st"
| "rounds cfg e st (Suc k) = sync_round cfg (e k) (rounds cfg e st k)"

lemma refresh_zone_next [simp]:
  "ss_next_ntp (refresh_zone cfg env st) = ss_next_ntp st" "ss_next_tz (refresh_zone cfg env st) = ss_next_tz st"
  "sn_ntp_valid (ss_snap (refresh_zone cfg env st)) = sn_ntp_valid (ss_snap st)"
  by (cases rule: refresh_zone_cases[of cfg env st]; simp)+

lemma refresh_time_next [simp]:
  "ss_next_ntp (refresh_time cfg env st) = ss_next_ntp st" "ss_next_tz (refresh_time cfg env st) = ss_next_tz st"
  by (simp_all add: refresh_time_def split: option.splits)

lemma round_next_ntp:
  "ss_next_ntp (sync_round cfg env st) =
     (if ntp_due env st then se_mono_ntp_done env + ts_ntp_interval_s cfg * 1000 else ss_next_ntp st)"
  by (auto simp: sync_round_def ntp_due_def Let_def)

lemma round_synced:
  assumes "ntp_due env st" "ask_servers cfg env (csv_fields (ts_servers cfg) 128) \<noteq> None"
  shows "sn_ntp_valid (ss_snap (sync_round cfg env st))"
  using assms by (auto simp: sync_round_def ntp_due_def refresh_time_def Let_def split: option.splits)

lemma round_stays_synced: "sn_ntp_valid (ss_snap st) \<Longrightarrow> sn_ntp_valid (ss_snap (sync_round cfg env st))"
  by (simp add: sync_round_def refresh_time_def Let_def split: option.splits)

lemma rounds_stay_synced:
  "sn_ntp_valid (ss_snap (rounds cfg e st k)) \<Longrightarrow> k \<le> j \<Longrightarrow> sn_ntp_valid (ss_snap (rounds cfg e st j))"
  by (induction j) (auto simp: le_Suc_eq round_stays_synced)

text \<open>Rounds may be any number and come at any time, early wake-ups included; as long as the monotonic
  clock keeps advancing, NTP is asked again and again.\<close>

lemma asked_again:
  assumes "ts_ntp_enabled cfg" "0 \<le> ts_ntp_interval_s cfg"
    and "\<And>k. 0 \<le> se_mono_ntp_done (e k)"
    and "\<And>b k. \<exists>j \<ge> k. b \<le> se_mono_ntp (e j)"
  shows "\<exists>j \<ge> k. ntp_due (e j) (rounds cfg e (sync_init cfg tz) j)"
proof (rule ccontr)
  assume "\<not> ?thesis"
  then have no: "\<not> ntp_due (e j) (rounds cfg e (sync_init cfg tz) j)" if "k \<le> j" for j using that by blast
  have pos: "0 \<le> ss_next_ntp (rounds cfg e (sync_init cfg tz) j)" for j
    using assms(1-3) by (induction j) (auto simp: sync_init_def round_next_ntp)
  define n where "n = ss_next_ntp (rounds cfg e (sync_init cfg tz) k)"
  have "ss_next_ntp (rounds cfg e (sync_init cfg tz) j) = n" if "k \<le> j" for j
    using that
  proof (induction j)
    case 0
    then show ?case by (simp add: n_def)
  next
    case (Suc j)
    then show ?case using no[of j] by (cases "k = Suc j") (auto simp: n_def round_next_ntp)
  qed
  moreover obtain j where "k \<le> j" "n \<le> se_mono_ntp (e j)" using assms(4) by blast
  ultimately show False using no[of j] pos[of j] by (simp add: ntp_due_def)
qed

text \<open>C23: If from some round on a server answers whenever it is asked, the gateway's time comes from the
  network in the end, and for good.\<close>

theorem sync_happens:
  assumes "cf_ntp_enabled c" "cfg = copy_config c"
    and "\<And>j. 0 \<le> se_mono_ntp_done (e j)" "\<And>b i. \<exists>j \<ge> i. b \<le> se_mono_ntp (e j)"
    and "\<And>j. k \<le> j \<Longrightarrow> ask_servers cfg (e j) (csv_fields (ts_servers cfg) 128) \<noteq> None"
  shows "\<exists>n. \<forall>j \<ge> n. time_sync_source_code (Some (ss_snap (rounds cfg e (sync_init cfg tz) j))) = ''nt''"
proof -
  have "ts_ntp_enabled cfg" "0 \<le> ts_ntp_interval_s cfg" using assms(1,2) by (auto simp: copy_config_def)
  then obtain j where j: "k \<le> j" "ntp_due (e j) (rounds cfg e (sync_init cfg tz) j)"
    using asked_again assms(3,4) by blast
  then have "sn_ntp_valid (ss_snap (rounds cfg e (sync_init cfg tz) (Suc j)))"
    using round_synced[OF j(2) assms(5)[OF j(1)]] by simp
  then have "sn_ntp_valid (ss_snap (rounds cfg e (sync_init cfg tz) i))" if "Suc j \<le> i" for i
    using rounds_stay_synced that by blast
  then show ?thesis by (auto simp: time_sync_source_code_def intro!: exI[of _ "Suc j"])
qed

section \<open>A gateway with one server\<close>

definition sample_net :: "unit sntp_net" where
  "sample_net =
     \<lparr>net_getaddrinfo = (\<lambda>_. Some [()]), net_socket = (\<lambda>_. True), net_connect = (\<lambda>_. True),
      net_t1 = (\<lambda>_. sample_t1), net_send = (\<lambda>_ p. int (length p)),
      net_recv = (\<lambda>_ _ q. Some (honest_reply q 0 1 1700000000280000000 1700000000290000000)),
      net_t4 = (\<lambda>_. sample_t4)\<rparr>"

definition sample_env :: "int \<Rightarrow> unit sync_env" where
  "sample_env m =
     \<lparr>se_sntp = (\<lambda>_. sample_net), se_curl = (\<lambda>_. None), se_ca = [], se_json = (\<lambda>_. None),
      se_localtime_link = Some ''/usr/share/zoneinfo/Asia/Taipei'',
      se_tz_db = \<lparr>tz_access = (\<lambda>_. True), tz_localtime = (\<lambda>_ _. Some (28800, 0))\<rparr>,
      se_realtime = Some (1700000000, 0), se_time = 1700000000,
      se_mono_tz = m, se_mono_tz_done = m, se_mono_ntp = m, se_mono_ntp_done = m\<rparr>"

definition sample_config :: time_sync_config where
  "sample_config =
     \<lparr>cf_ntp_servers = Some ''ntp'', cf_ntp_interval_s = 0, cf_ntp_enabled = True, cf_tz_name = None,
      cf_tz_urls = None, cf_tz_enabled = False, cf_tz_interval_s = 0, cf_timeout_ms = 0\<rparr>"

lemma sample_servers: "csv_fields (ts_servers (copy_config sample_config)) 128 = [''ntp'']"
  by (simp add: copy_config_def sample_config_def csv_fields.simps hes_strlcpy_take next_csv_def rstrip_blanks_def Let_def)

lemma sample_answers:
  "\<exists>r. ask_servers (copy_config sample_config) (sample_env m) (csv_fields (ts_servers (copy_config sample_config)) 128) = Some r"
proof -
  obtain r where "sntp_compute_offset (sntp_build_request sample_t1)
       (honest_reply (sntp_build_request sample_t1) 0 1 1700000000280000000 1700000000290000000)
       SNTP_PACKET_LEN sample_t4 = Some r"
    using sample_exchange by blast
  then have "sntp_query sample_net (Some ''ntp'') ms = Some r" for ms
    by (simp add: sntp_query_def sntp_try_def sample_net_def Let_def)
  then show ?thesis by (simp add: sample_servers sample_env_def)
qed

theorem sync_happens_witness:
  "\<exists>n. time_sync_source_code (Some (ss_snap (rounds (copy_config sample_config)
      (\<lambda>k. sample_env (int k)) (sync_init (copy_config sample_config) None) n))) = ''nt''"
proof -
  let ?cfg = "copy_config sample_config" and ?e = "\<lambda>k. sample_env (int k)"
  have "cf_ntp_enabled sample_config" by (simp add: sample_config_def)
  moreover have "0 \<le> se_mono_ntp_done (?e j)" for j by (simp add: sample_env_def)
  moreover have "\<exists>j \<ge> i. b \<le> se_mono_ntp (?e j)" for b i
    by (rule exI[of _ "max i (nat b)"]) (simp add: sample_env_def)
  moreover have "ask_servers ?cfg (?e j) (csv_fields (ts_servers ?cfg) 128) \<noteq> None" for j
    using sample_answers by auto
  ultimately have "\<exists>n. \<forall>j \<ge> n. time_sync_source_code (Some (ss_snap (rounds ?cfg ?e (sync_init ?cfg None) j))) = ''nt''"
    by (intro sync_happens[where k = 0 and c = sample_config]) auto
  then show ?thesis by blast
qed

abbreviation sample_world :: "unit sync_world" where
  "sample_world \<equiv> \<lparr>sw_pc = Working, sw_stop = False, sw_st = sync_init (copy_config sample_config) None\<rparr>"

lemma sample_reach: "sync_reach (copy_config sample_config) (range sample_env) sample_world"
  by (rule sync_reach.start[where c = sample_config and tz = None]) (simp add: time_sync_start_def Let_def)

text \<open>A round runs to its end in steps.\<close>

lemma reach_finish:
  "sync_reach cfg envs (w\<lparr>sw_pc := pc, sw_st := st\<rparr>) \<Longrightarrow> finish_round cfg pc st = (pc', st') \<Longrightarrow>
     sync_reach cfg envs (w\<lparr>sw_pc := pc', sw_st := st'\<rparr>)"
proof (induction cfg pc st rule: finish_round.induct)
  case (1 cfg pc st)
  show ?case
  proof (cases "in_round pc")
    case True
    obtain pc1 st1 where s: "round_step cfg pc st = (pc1, st1)" by fastforce
    have "sync_step cfg envs (w\<lparr>sw_pc := pc, sw_st := st\<rparr>) (w\<lparr>sw_pc := pc1, sw_st := st1\<rparr>)"
      using sync_step.work[of "w\<lparr>sw_pc := pc, sw_st := st\<rparr>" cfg pc1 st1 envs] True s by simp
    then have "sync_reach cfg envs (w\<lparr>sw_pc := pc1, sw_st := st1\<rparr>)" by (rule sync_reach.step[OF "1.prems"(1)])
    moreover have "finish_round cfg pc1 st1 = (pc', st')"
      using "1.prems"(2) True s by (subst (asm) finish_round.simps) simp
    ultimately show ?thesis using "1.IH"[OF True s[symmetric]] by blast
  next
    case False
    then have "pc' = pc" "st' = st" using "1.prems"(2) by (subst (asm) finish_round.simps, simp)+
    then show ?thesis using "1.prems"(1) by simp
  qed
qed

lemma reach_round:
  assumes "sync_reach cfg envs w" "sw_pc w = Working" "env \<in> envs"
  shows "sync_reach cfg envs (w\<lparr>sw_pc := Deciding, sw_st := sync_round cfg env (sw_st w)\<rparr>)"
proof (rule reach_finish[OF _ round_is_its_steps])
  show "sync_reach cfg envs (w\<lparr>sw_pc := begin_round env (sw_st w), sw_st := sw_st w\<rparr>)"
    using sync_reach.step[OF assms(1) sync_step.start_round[OF assms(2,3)]] by simp
qed

abbreviation sample_synced :: "unit sync_world" where
  "sample_synced \<equiv> sample_world\<lparr>sw_pc := Deciding,
     sw_st := sync_round (copy_config sample_config) (sample_env 0) (sync_init (copy_config sample_config) None)\<rparr>"

lemma sample_synced_reach: "sync_reach (copy_config sample_config) (range sample_env) sample_synced"
  using reach_round[OF sample_reach, of "sample_env 0"] by simp

lemma sample_synced_valid: "sn_ntp_valid (ss_snap (sw_st sample_synced))"
proof -
  have "ntp_due (sample_env 0) (sync_init (copy_config sample_config) None)"
    by (simp add: ntp_due_def sample_env_def sync_init_def copy_config_def sample_config_def)
  then show ?thesis using round_synced[of "sample_env 0"] sample_answers[of 0] by simp
qed

text \<open>The clock can be seen ahead of the snapshot: the first answer is applied, and nobody is told yet.\<close>

lemma sample_offset:
  "map_option r_offset_ns (sntp_compute_offset (sntp_build_request sample_t1)
       (honest_reply (sntp_build_request sample_t1) 0 1 1700000000280000000 1700000000290000000)
       SNTP_PACKET_LEN sample_t4) \<noteq> Some 0"
  by code_simp

lemma clock_ahead:
  "\<exists>w. sync_reach (copy_config sample_config) {(sample_env 0)\<lparr>se_mono_tz := - 1\<rparr>} w
     \<and> \<not> sn_ntp_valid (ss_snap (sw_st w)) \<and> ss_clock_offset (sw_st w) \<noteq> 0"
proof -
  let ?cfg = "copy_config sample_config" and ?env = "(sample_env 0)\<lparr>se_mono_tz := - 1\<rparr>"
  let ?st = "sync_init ?cfg None"
  obtain r where r: "sntp_compute_offset (sntp_build_request sample_t1)
       (honest_reply (sntp_build_request sample_t1) 0 1 1700000000280000000 1700000000290000000)
       SNTP_PACKET_LEN sample_t4 = Some r"
    using sample_exchange by blast
  then have off: "r_offset_ns r \<noteq> 0" using sample_offset by auto
  have "sntp_query sample_net (Some ''ntp'') ms = Some r" for ms
    using r by (simp add: sntp_query_def sntp_try_def sample_net_def Let_def)
  then have ask: "ask_servers ?cfg ?env (csv_fields (ts_servers ?cfg) 128) = Some r"
    by (simp add: sample_servers sample_env_def)
  have due: "ntp_due ?env ?st" "\<not> zone_due ?env ?st"
    by (simp_all add: ntp_due_def zone_due_def sample_env_def sync_init_def copy_config_def sample_config_def)
  have "sync_reach ?cfg {?env} sample_world"
    by (rule sync_reach.start[where c = sample_config and tz = None]) (simp add: time_sync_start_def Let_def)
  then have "sync_reach ?cfg {?env} (sample_world\<lparr>sw_pc := begin_round ?env (sw_st sample_world)\<rparr>)"
    by (rule sync_reach.step) (rule sync_step.start_round, simp_all)
  then have "sync_reach ?cfg {?env} (sample_world\<lparr>sw_pc := Time_check ?env\<rparr>)"
    using due by (simp add: begin_round_def)
  then have "sync_reach ?cfg {?env} (sample_world\<lparr>sw_pc := Answered ?env r\<rparr>)"
    by (rule sync_reach.step) (use sync_step.work[of "sample_world\<lparr>sw_pc := Time_check ?env\<rparr>"] due ask in simp)
  then have "sync_reach ?cfg {?env} (sample_world\<lparr>sw_pc := Clock_set ?env r, sw_st := ?st\<lparr>ss_clock_offset := r_offset_ns r\<rparr>\<rparr>)"
    by (rule sync_reach.step) (use sync_step.work[of "sample_world\<lparr>sw_pc := Answered ?env r\<rparr>"] in simp)
  then show ?thesis using off by (intro exI conjI) (assumption, simp_all add: sync_init_def zero_snapshot_def)
qed

theorem snapshot_describes_clock_witness:
  "sn_ntp_valid (ss_snap (sw_st sample_synced))
   \<and> ss_clock_offset (sw_st sample_synced) = sn_offset_ns (ss_snap (sw_st sample_synced))"
  using snapshot_describes_clock[OF sample_synced_reach] sample_synced_valid by (simp add: snap_ok_def Let_def)

theorem worker_refines_learning_witness:
  "kn_time (knows sample_synced) \<noteq> None
   \<and> (\<exists>tz. (learn (copy_config sample_config) (range sample_env))\<^sup>*\<^sup>*
        \<lparr>kn_time = None, kn_zone = None, kn_tz = tz\<rparr> (knows sample_synced))"
  using worker_refines_learning[OF sample_synced_reach] sample_synced_valid by (simp add: knows_def Let_def)

lemma sample_stopped:
  "sync_reach (copy_config sample_config) (range sample_env) (sample_synced\<lparr>sw_stop := True\<rparr>)"
  using sync_reach.step[OF sample_synced_reach sync_step.stop] by simp

theorem stop_joins_witness:
  "\<exists>w'. (sync_step (copy_config sample_config) (range sample_env) ^^ 1) (sample_synced\<lparr>sw_stop := True\<rparr>) w'
     \<and> sw_pc w' = Exited \<and> (\<nexists>w''. sync_step (copy_config sample_config) (range sample_env) w' w'')"
proof -
  let ?w = "sample_synced\<lparr>sw_stop := True\<rparr>"
  have "sync_step (copy_config sample_config) (range sample_env) ?w (?w\<lparr>sw_pc := Exited\<rparr>)"
    by (rule sync_step.finish) simp_all
  then have run: "(sync_step (copy_config sample_config) (range sample_env) ^^ 1) ?w (?w\<lparr>sw_pc := Exited\<rparr>)" by (simp only: relpowp_1)
  have "\<nexists>w''. sync_step (copy_config sample_config) (range sample_env) (?w\<lparr>sw_pc := Exited\<rparr>) w''"
    using stop_joins[OF sample_stopped _ _ run] by simp
  then show ?thesis using run by auto
qed

end
