(* ===== verification/CoreProps.thy ===== *)
theory CoreProps
  imports Core BmProps AuthProps IdProps TimeSyncProps
begin

text \<open>
  What holds of the core as a whole: the two gates of a Mode B decision together, what a turn of the
  loop can put on the bus, and that the policy and the table a turn decides by are those it
  started with.
\<close>

section \<open>Two gates\<close>

text \<open>The text a proof signs is the whole address and the whole payload, never cut off.\<close>

lemma framed_whole:
  assumes "wf_msg msg"
  shows "crypto_proof_message (m_path msg) (m_payload msg) (HES_PATH_MAX + HES_PAYLOAD_MAX + 2)
     = m_path msg @ CHR 0x0A # m_payload msg"
proof -
  have "length (m_path msg) < 128" "length (m_payload msg) < 512" using assms by (simp_all add: wf_msg_def)
  then have "length (m_payload msg) \<le> 640 - length (m_path msg)" by linarith
  with \<open>length (m_path msg) < 128\<close> show ?thesis
    by (simp add: crypto_proof_message_def hes_strlcpy_take Let_def)
qed

definition proves :: "psa \<Rightarrow> hes_clme_msg \<Rightarrow> string \<Rightarrow> bool" where
  "proves psa msg pid \<longleftrightarrow>
     (\<exists>pub sig. length pub = 65 \<and> map c_tolower pid = key_identity pub
        \<and> signed_by psa pub (map of_char (m_path msg @ CHR 0x0A # m_payload msg)) sig)"

lemma verified_proves:
  assumes "wf_msg msg"
    and "crypto_verify_proof psa (m_cred_info msg) pid
      (map of_char (crypto_proof_message (m_path msg) (m_payload msg) (HES_PATH_MAX + HES_PAYLOAD_MAX + 2)))"
  shows "proves psa msg pid"
proof -
  obtain pub sig where "length pub = 65" "length sig = 64" "crypto_pi_matches pub pid"
      "crypto_verify_message psa pub (map of_char (m_path msg @ CHR 0x0A # m_payload msg)) sig"
    using assms(2) unfolding framed_whole[OF assms(1)] verify_proof_fields by blast
  then show ?thesis unfolding proves_def by (auto simp: pi_matches_iff verify_message_iff)
qed

text \<open>C8: A Mode B decision lets a message through only when the policy authorizes its sender for the row's
  address, and, where the policy asks for a proof, only when the message carries a signature of the
  required identity over this very address and payload.\<close>

theorem core_authorize_sound:
  assumes "core_authorize psa auth msg addr" "wf_msg msg"
  shows "(\<exists>cls. sender_class auth (m_cred_info msg) = Some cls
           \<and> governing (class_permissions auth cls) addr = Some ''fl'')
     \<and> (\<forall>pid. auth_service_required_proof_pi auth (Some addr) = Some pid \<longrightarrow> proves psa msg pid)"
proof -
  have "auth_service_authorize auth (Some (m_cred_info msg)) (Some (m_user_name msg)) (Some addr)"
    using assms(1) by (auto simp: core_authorize_def split: if_splits)
  then show ?thesis
    using assms verified_proves[OF assms(2)]
    by (auto simp: core_authorize_def authorize_governing Let_def split: if_splits option.splits)
qed

section \<open>The services are read, never written\<close>

text \<open>A service's place in the store.\<close>

locale slot =
  fixes get :: "'s \<Rightarrow> 'p" and put :: "'p \<Rightarrow> 's \<Rightarrow> 's"
  assumes get_put: "get (put p s) = p"
    and put_get: "put (get s) s = s"
begin

lemma lift_get_object:
  assumes "get_object f"
  shows "get_object (\<lambda>s m. let (out, p) = f (get s) m in (out, put p s))"
  using assms unfolding get_object_def by (simp add: split_beta Let_def)

lemma lift_pure: "(\<And>p m. snd (f p m) = p) \<Longrightarrow> snd (let (out, p) = f (get s) m in (out, put p s)) = s"
  by (simp add: split_beta put_get)

end

interpretation id_slot: slot sv_id "\<lambda>p. sv_id_update (\<lambda>_. p)"
  by unfold_locales simp_all

interpretation time_slot: slot sv_time "\<lambda>p. sv_time_update (\<lambda>_. p)"
  by unfold_locales simp_all

interpretation auth_slot: slot sv_auth "\<lambda>p. sv_auth_update (\<lambda>_. p)"
  by unfold_locales simp_all

interpretation crypto_slot: slot sv_crypto "\<lambda>p. sv_crypto_update (\<lambda>_. p)"
  by unfold_locales simp_all

text \<open>What the core relies on in each of its objects.\<close>

definition read_only :: "'st service_object \<Rightarrow> bool" where
  "read_only ob \<longleftrightarrow>
     (\<forall>f. so_on_get ob = Some f \<longrightarrow> get_object f \<and> (\<forall>st m. snd (f st m) = st))
     \<and> (\<forall>f. so_on_put ob = Some f \<longrightarrow> (\<forall>st m. f st m = st))"

definition service_addresses :: "string list" where
  "service_addresses =
     [HES_LX_ID, HES_LX_ID_CENTRALOPS_CV, HES_LX_ID_DISCOVER_BM, HES_LX_TIME_REALTIME_CV,
      HES_LX_TIME_LOCALTZ_CV, HES_LX_TIME_SOURCE_CV, ''/lx/ob/so/aa/ac/cv'', HES_LX_CRYPTO, HES_LX_CRYPTO_CI]"

lemmas object_contracts =
  id_config.get_object_axioms id_status.get_object_axioms id_discovery.get_object_axioms
  time_realtime.get_object_axioms time_localtz.get_object_axioms time_source.get_object_axioms
  auth_get.get_object_axioms crypto_get.get_object_axioms crypto_config.get_object_axioms

lemma id_objects_read_only: "ob \<in> set (id_objects inventory) \<Longrightarrow> read_only ob"
  using object_contracts by (auto simp: id_objects_def read_only_def id_on_put_def)

lemma time_objects_read_only: "ob \<in> set (time_objects off clock snapshot) \<Longrightarrow> read_only ob"
  using object_contracts by (auto simp: time_objects_def read_only_def time_on_put_def)

lemma crypto_objects_read_only: "ob \<in> set (crypto_objects psa) \<Longrightarrow> read_only ob"
  using object_contracts by (auto simp: crypto_objects_def read_only_def crypto_on_put_def)

lemma auth_object_read_only: "read_only auth_object"
  using object_contracts by (auto simp: auth_object_def read_only_def auth_on_put_def)

context slot begin

lemma lift_read_only: "read_only ob \<Longrightarrow> read_only (lift_object get put ob)"
  using lift_get_object lift_pure put_get by (fastforce simp: read_only_def lift_object_def)

end

lemma core_objs_read_only: "ob \<in> set (core_objs psa env off iv addrs) \<Longrightarrow> read_only ob"
  using id_slot.lift_read_only[OF id_objects_read_only] time_slot.lift_read_only[OF time_objects_read_only]
    auth_slot.lift_read_only[OF auth_object_read_only] crypto_slot.lift_read_only[OF crypto_objects_read_only]
  by (auto simp: core_objs_def)

lemma core_objs_paths: "map so_path (core_objs psa env off iv addrs) = service_addresses"
  by (simp add: core_objs_def id_objects_def time_objects_def auth_object_def crypto_objects_def
      lift_object_def service_addresses_def)

lemma core_objs_addresses: "so_path ` set (core_objs psa env off iv addrs) = set service_addresses"
  by (metis core_objs_paths set_map)

section \<open>What the local objects do\<close>

lemma sent_by_send:
  "m \<in> set (sent_since bus (hes_bus_send bus msg)) \<Longrightarrow>
     unstamped m = unstamped msg \<and> m_verb m = m_verb msg \<and> m_path m = m_path msg"
  by (auto simp: sent_since_def hes_bus_send_def unstamped_def)

lemma dispatch_read_only:
  assumes "dispatch_to_local_objects bus objs st msg = Inr (handled, bus', st')" "\<forall>ob \<in> set objs. read_only ob"
  shows "st' = st" and "bus_extends bus bus'"
    and "m \<in> set (sent_since bus bus') \<Longrightarrow> m_verb m = HES_VERB_EVENT
           \<and> m_path m \<in> hes_strlcpy HES_PATH_MAX ` so_path ` set objs"
proof -
  have "st' = st \<and> bus_extends bus bus' \<and> (m \<in> set (sent_since bus bus') \<longrightarrow> m_verb m = HES_VERB_EVENT
           \<and> m_path m \<in> hes_strlcpy HES_PATH_MAX ` so_path ` set objs)"
  proof (cases "find_object objs (m_path msg)")
    case None
    then show ?thesis using assms(1) by (simp add: dispatch_to_local_objects_def)
  next
    case (Some a)
    obtain i selector where f: "find_object objs (m_path msg) = Some (i, selector)" using Some by (cases a) auto
    have ob: "objs ! i \<in> set objs" using find_object_Some[OF f] by auto
    then have ro: "read_only (objs ! i)" using assms(2) by blast
    show ?thesis
    proof (cases "m_verb msg = HES_VERB_GET \<and> so_on_get (objs ! i) \<noteq> None")
      case False
      then have "bus' = bus \<and> st' = st"
        using assms(1) ro by (auto simp: dispatch_to_local_objects_def f read_only_def Let_def
            split: option.splits bool.splits)
      then show ?thesis by simp
    next
      case True
      then obtain g where g: "so_on_get (objs ! i) = Some g" "get_object g" "\<And>st m. snd (g st m) = st"
        using ro by (auto simp: read_only_def)
      obtain req where req: "get_request (so_path (objs ! i)) msg = Inr req"
        "m_verb req = HES_VERB_EVENT" "m_path req = hes_strlcpy HES_PATH_MAX (so_path (objs ! i))"
        using assms(1) True g(1) by (auto simp: dispatch_to_local_objects_def f get_request_def memcpy_into_def Let_def
            split: if_splits)
      obtain out where out: "g st req = (out, st)" using g(3)[of st req] by (cases "g st req") auto
      have o: "m_verb out = HES_VERB_EVENT" "m_path out = hes_strlcpy HES_PATH_MAX (so_path (objs ! i))"
        using get_object.get_verb[OF g(2), of st req] get_object.get_path[OF g(2), of st req] out req(2,3) by simp_all
      obtain out' where "bus' = hes_bus_send bus out'" "st' = st"
        "m_verb out' = m_verb out" "m_path out' = m_path out"
        using assms(1) True g(1) req(1) out
        by (auto simp: dispatch_to_local_objects_def f Let_def trim_payload_def split: option.splits)
      then show ?thesis using o ob by (auto simp: bus_extends_send dest: sent_by_send)
    qed
  qed
  then show "st' = st" and "bus_extends bus bus'"
    and "m \<in> set (sent_since bus bus') \<Longrightarrow> m_verb m = HES_VERB_EVENT
           \<and> m_path m \<in> hes_strlcpy HES_PATH_MAX ` so_path ` set objs" by blast+
qed

lemma hes_get_read_only: "\<forall>ob \<in> set objs. read_only ob \<Longrightarrow> snd (l_hes_get objs path st) = st"
  by (induction objs) (auto simp: read_only_def split_beta Let_def split: option.splits bool.splits)

lemma script_read_only:
  "\<forall>ob \<in> set objs. read_only ob \<Longrightarrow> run_script ok objs s st = (r, st', ms) \<Longrightarrow> st' = st"
proof (induction s arbitrary: st r st' ms)
  case (Get path k)
  have "snd (l_hes_get objs path st) = st" by (rule hes_get_read_only[OF Get.prems(1)])
  then show ?case using Get.IH[OF rangeI] Get.prems by (auto simp: split_beta)
next
  case (Put p v k)
  then show ?case using Put.IH[OF rangeI] by (auto simp: Let_def split: prod.splits)
qed simp

lemma call_op_read_only:
  "\<forall>ob \<in> set objs. read_only ob \<Longrightarrow> app_lua_call_op ok objs lua ri operands (l, st) = (d, ms, l', st') \<Longrightarrow> st' = st"
  by (auto simp: app_lua_call_op_def Let_def split: prod.splits option.splits dest: script_read_only)

lemma lua_tick_read_only:
  "\<forall>ob \<in> set objs. read_only ob \<Longrightarrow> app_lua_tick ok objs lua (l, st) = (ms, l', st') \<Longrightarrow> st' = st"
  by (auto simp: app_lua_tick_def Let_def split: prod.splits option.splits dest: script_read_only)

section \<open>What an evaluation leaves of the app's state\<close>

definition app_keeps :: "'a bm_hooks \<Rightarrow> ('a \<Rightarrow> bool) \<Rightarrow> bool" where
  "app_keeps h P \<longleftrightarrow>
     (\<forall>app a op operands r ms a'. app_operation h = Some app \<longrightarrow> P a \<longrightarrow> app a op operands = (r, ms, a') \<longrightarrow> P a')"

definition app_inv :: "'a bm_hooks \<Rightarrow> ('a \<Rightarrow> bool) \<Rightarrow> nat \<Rightarrow> 'a bm_state \<Rightarrow> bool" where
  "app_inv h P n st \<longleftrightarrow> app_keeps h P \<and> P (s_app st) \<and> length (bm_ops (s_bm st)) = n"

lemma app_inv_row:
  assumes "app_inv h P n st" "evaluate_row h i st = (st', res)"
  shows "app_inv h P n st'"
proof -
  have c: "P (s_app st2)" if "compute h op operands st1 = (r, st2)" "P (s_app st1)" for op operands st1 r st2
    using that assms(1)
    by (auto simp: compute_def app_inv_def app_keeps_def Let_def split: if_splits option.splits prod.splits)
  have "P (s_app st')"
    using assms c[where ?st1.0 = "set_op i _ st"]
    by (auto simp: evaluate_row_def app_inv_def set_op_def Let_def
        split: if_splits option.splits prod.splits)
  moreover have "length (bm_ops (s_bm st')) = length (bm_ops (s_bm st))"
    by (rule same_table_length[OF row_same_table(1)[OF assms(2)]])
  ultimately show ?thesis using assms(1) by (simp add: app_inv_def)
qed

interpretation keeper: guarded "evaluate_op h" "evaluate_rows h" "evaluate_row h"
    commit_output send_put chains row_indices "app_inv h P n" "\<lambda>i. i < n" "\<lambda>_ _. True" for h P n
proof unfold_locales
  fix st i r
  show "set (row_indices st) = {i. i < n}" if "app_inv h P n st"
    using that by (auto simp: row_indices_set app_inv_def)
  show "app_inv h P n (commit_output i r st)" if "app_inv h P n st"
    using that same_table_length[OF commit_same_table[of st i r]]
    by (auto simp: app_inv_def commit_output_def Let_def set_op_def)
  show "app_inv h P n (send_put i r st)" if "app_inv h P n st"
    using that by (auto simp: app_inv_def send_put_def Let_def)
qed (auto intro: app_inv_row)

lemma with_report_app [simp]: "s_app (with_report msg st) = s_app st"
  by (simp add: with_report_def)

lemma processor_app:
  assumes "bm_processor_handle h fuel msg st = Some st'" "app_keeps h P" "P (s_app st)"
  shows "P (s_app st')"
proof (cases rule: processor_cases[of h fuel msg st])
  case 3
  have "app_inv h P (length (bm_ops (s_bm (with_report msg st)))) (with_report msg st)"
    using assms(2,3) by (simp add: app_inv_def)
  then have "app_inv h P (length (bm_ops (s_bm (with_report msg st)))) st'"
    by (rule keeper.all_keeps) (use 3 assms(1) in \<open>simp add: bm_evaluate_all_def\<close>)
  then show ?thesis by (simp add: app_inv_def)
qed (use assms in auto)

section \<open>What a turn sends\<close>

text \<open>What the gates decide by.\<close>

definition same_decisions :: "'l core_state \<Rightarrow> 'l core_state \<Rightarrow> bool" where
  "same_decisions st st' \<longleftrightarrow>
     map static_part (bm_ops (s_bm (co_map st'))) = map static_part (bm_ops (s_bm (co_map st)))
     \<and> bm_addrs (s_bm (co_map st')) = bm_addrs (s_bm (co_map st))
     \<and> bm_authz_disabled (s_bm (co_map st')) = bm_authz_disabled (s_bm (co_map st))
     \<and> sv_id (co_services st') = sv_id (co_services st) \<and> sv_auth (co_services st') = sv_auth (co_services st)
     \<and> sv_crypto (co_services st') = sv_crypto (co_services st)"

text \<open>A report of one of the gateway's own objects.\<close>

definition own_report :: "hes_clme_msg \<Rightarrow> bool" where
  "own_report m \<longleftrightarrow> m_verb m = HES_VERB_EVENT \<and> m_path m \<in> set service_addresses"

text \<open>The received PUT itself, for a device of the addressing table.\<close>

definition relayed :: "core_env \<Rightarrow> 'l core_state \<Rightarrow> hes_clme_msg \<Rightarrow> bool" where
  "relayed env st m \<longleftrightarrow>
     (\<exists>msg. ev_recv env = Some msg \<and> unstamped m = unstamped msg \<and> m_verb msg = HES_VERB_PUT
        \<and> bm_is_declared_destination (s_bm (co_map st)) (m_path msg) (m_device_index msg))"

text \<open>The output of an enabled row whose gates let it through for the message that set it off.\<close>

definition row_output :: "'l core_world \<Rightarrow> core_env \<Rightarrow> 'l core_state \<Rightarrow> hes_clme_msg \<Rightarrow> bool" where
  "row_output cw env st m \<longleftrightarrow>
     (\<exists>op \<in> set (bm_ops (s_bm (co_map st))). \<exists>r msg.
        op_enabled op \<and> op_out_dest_object op \<noteq> [] \<and> unstamped m = put_message op r
        \<and> (ev_recv env = Some msg \<or> m_cred_info msg = [])
        \<and> output_authorized (core_hooks cw env st) ((s_bm (co_map st))\<lparr>bm_current_msg := Some msg\<rparr>) op)"

definition script_put :: "hes_clme_msg \<Rightarrow> bool" where
  "script_put m \<longleftrightarrow> (\<exists>m'. app_put m' \<and> unstamped m = unstamped m')"

definition turn_message :: "'l core_world \<Rightarrow> core_env \<Rightarrow> 'l core_state \<Rightarrow> hes_clme_msg \<Rightarrow> bool" where
  "turn_message cw env st m \<longleftrightarrow> own_report m \<or> relayed env st m \<or> row_output cw env st m \<or> script_put m"

definition grows :: "(hes_clme_msg \<Rightarrow> bool) \<Rightarrow> 'l core_state \<Rightarrow> 'l core_state \<Rightarrow> bool" where
  "grows P st st' \<longleftrightarrow> same_decisions st st'
     \<and> (\<exists>ms. bus_sent (co_bus st') = bus_sent (co_bus st) @ ms \<and> (\<forall>m \<in> set ms. P m))"

lemma same_decisions_refl [simp]: "same_decisions st st"
  by (simp add: same_decisions_def)

lemma same_decisions_trans: "same_decisions a b \<Longrightarrow> same_decisions b c \<Longrightarrow> same_decisions a c"
  by (simp add: same_decisions_def)

lemma grows_trans: "grows P a b \<Longrightarrow> grows P b c \<Longrightarrow> grows P a c"
  unfolding grows_def by (auto intro: same_decisions_trans)

lemma grows_same: "grows P a b \<Longrightarrow> same_decisions a b"
  by (simp add: grows_def)

lemma growsI:
  "same_decisions st st' \<Longrightarrow> bus_extends (co_bus st) (co_bus st') \<Longrightarrow>
     (\<And>m. m \<in> set (sent_since (co_bus st) (co_bus st')) \<Longrightarrow> P m) \<Longrightarrow> grows P st st'"
  unfolding grows_def bus_extends_def by blast

lemma state_objs_read_only: "\<forall>ob \<in> set (state_objs cw env st). read_only ob"
  by (auto simp: state_objs_def intro: core_objs_read_only)

lemma hooks_app_put: "app_message (core_hooks cw env st) m \<Longrightarrow> app_put m"
  by (auto simp: app_message_def core_hooks_def app_service_op_def dest!: call_op_puts)

lemma hooks_keep_services: "app_keeps (core_hooks cw env st) (\<lambda>a. snd a = sv)"
  unfolding app_keeps_def core_hooks_def app_service_op_def
  using call_op_read_only[OF state_objs_read_only] by fastforce

lemma static_mem:
  assumes "map static_part ops' = map static_part ops" "op' \<in> set ops'"
  obtains op where "op \<in> set ops" "static_part op' = static_part op"
  using assms by (metis (no_types, lifting) imageE image_eqI list.set_map)

lemma output_authorized_decision:
  assumes "static_part op' = static_part op" "auth_authorize h' = auth_authorize h"
    and "bm_authz_disabled bm' = bm_authz_disabled bm" "bm_current_msg bm' = bm_current_msg bm"
  shows "output_authorized h' bm' op' = output_authorized h bm op"
  using static_part_eqD[OF assms(1)] assms(2-4)
  by (simp add: output_authorized_def op_requires_authorization_def bm_at_address_def split: option.split)

lemma permitted_row:
  assumes "permitted (core_hooks cw env st) ((s_bm (co_map st))\<lparr>bm_current_msg := Some msg\<rparr>) m"
    and "same_decisions st0 st" "ev_recv env = Some msg \<or> m_cred_info msg = []"
  shows "row_output cw env st0 m \<or> script_put m"
  using assms(1) unfolding permitted_def
proof (elim disjE bexE exE conjE)
  fix op r
  assume op: "op \<in> set (bm_ops ((s_bm (co_map st))\<lparr>bm_current_msg := Some msg\<rparr>))" "op_enabled op"
    "op_out_dest_object op \<noteq> []" "unstamped m = put_message op r"
    and auth: "output_authorized (core_hooks cw env st) ((s_bm (co_map st))\<lparr>bm_current_msg := Some msg\<rparr>) op"
  obtain op0 where op0: "op0 \<in> set (bm_ops (s_bm (co_map st0)))" "static_part op = static_part op0"
    using static_mem[of "bm_ops (s_bm (co_map st))" "bm_ops (s_bm (co_map st0))" op] op(1) assms(2)
    by (auto simp: same_decisions_def)
  have "output_authorized (core_hooks cw env st0) ((s_bm (co_map st0))\<lparr>bm_current_msg := Some msg\<rparr>) op0"
    using auth assms(2)
    by (subst output_authorized_decision[OF op0(2)[symmetric]]) (auto simp: same_decisions_def core_hooks_def)
  moreover have "put_message op0 r = put_message op r"
    using static_part_eqD[OF op0(2)] by (simp add: put_message_def)
  ultimately show ?thesis
    unfolding row_output_def using op0(1) op(2-4) static_part_eqD(1,5)[OF op0(2)] assms(3)
    by (intro disjI1 bexI[of _ op0] exI[of _ r] exI[of _ msg]) auto
next
  fix m' assume m': "app_message (core_hooks cw env st) m'" "unstamped m = unstamped m'"
  have "script_put m" unfolding script_put_def using hooks_app_put[OF m'(1)] m'(2) by blast
  then show ?thesis by simp
qed

lemma process_grows:
  assumes "core_process cw env msg st = Inr st'" "same_decisions st0 st"
    and "ev_recv env = Some msg \<or> m_cred_info msg = []"
  shows "grows (turn_message cw env st0) st st'" and "co_services st' = co_services st"
proof -
  obtain mp where mp: "bm_processor_handle (core_hooks cw env st) (cw_fuel cw) msg (co_map st) = Some mp"
      "st' = st\<lparr>co_map := mp\<rparr>"
    using assms(1) by (auto simp: core_process_def split: option.splits)
  show sv: "co_services st' = co_services st"
    using processor_app[OF mp(1) hooks_keep_services refl] mp(2) by simp
  show "grows (turn_message cw env st0) st st'"
  proof (rule growsI)
    show "same_decisions st st'"
      using processor_gate(3-5)[OF mp(1)] mp(2) sv by (simp add: same_decisions_def)
    show "bus_extends (co_bus st) (co_bus st')" using processor_gate(1)[OF mp(1)] mp(2) by simp
    show "turn_message cw env st0 m" if "m \<in> set (sent_since (co_bus st) (co_bus st'))" for m
      using permitted_row[OF processor_gate(2)[OF mp(1)] assms(2,3)] that mp(2)
      by (auto simp: turn_message_def)
  qed
qed

lemma report_message: "path \<in> set service_addresses \<Longrightarrow> own_report (event_msg path payload)"
  by (auto simp: own_report_def event_msg_def service_addresses_def hes_strlcpy_take)

lemma service_addresses_fit: "p \<in> set service_addresses \<Longrightarrow> hes_strlcpy HES_PATH_MAX p = p"
  by (auto simp: service_addresses_def hes_strlcpy_take)

lemma publish_sent:
  "path \<in> set service_addresses \<Longrightarrow>
     \<exists>ms. bus_sent (publish_event bus path payload) = bus_sent bus @ ms \<and> (\<forall>m \<in> set ms. own_report m)"
  using report_message[of path payload]
  by (auto simp: publish_event_def hes_bus_send_def own_report_def)

lemma sent_append_trans:
  "\<exists>ms. b = a @ ms \<and> (\<forall>m \<in> set ms. P m) \<Longrightarrow> \<exists>ms. c = b @ ms \<and> (\<forall>m \<in> set ms. P m)
     \<Longrightarrow> \<exists>ms. c = a @ ms \<and> (\<forall>m \<in> set ms. P m)"
  by (metis Un_iff append.assoc set_append)

lemma tick_sent:
  "\<exists>ms. bus_sent (snd (realtime_tick now clock snapshot st bus)) = bus_sent bus @ ms \<and> (\<forall>m \<in> set ms. own_report m)"
proof -
  let ?sent = "\<lambda>a b. \<exists>ms. b = a @ ms \<and> (\<forall>m \<in> set ms. own_report m)"
  have addr: "HES_LX_TIME_REALTIME_CV \<in> set service_addresses" "HES_LX_TIME_LOCALTZ_CV \<in> set service_addresses"
    "HES_LX_TIME_SOURCE_CV \<in> set service_addresses" by (simp_all add: service_addresses_def)
  have c: "?sent (bus_sent bus) (bus_sent (snd (tick_clock now clock (st, bus))))"
    using publish_sent[OF addr(1)] by (simp add: tick_clock_def)
  have z: "?sent (bus_sent (snd sb)) (bus_sent (snd (tick_zone a b sb)))" for a b sb
    using publish_sent[OF addr(2)] by (simp add: tick_zone_def split_beta Let_def)
  have s: "?sent (bus_sent (snd sb)) (bus_sent (snd (tick_source a b sb)))" for a b sb
    using publish_sent[OF addr(3)] by (simp add: tick_source_def split_beta Let_def)
  show ?thesis
    unfolding realtime_tick_def Let_def by (rule sent_append_trans[OF sent_append_trans[OF c z] s])
qed

lemma tick_grows: "grows (turn_message cw env st0) st (core_tick env st)"
proof -
  obtain tm bus where t: "realtime_tick (ev_tick_now env) (ev_clock_tick env) (Some (ev_snapshot_tick env))
      (sv_time (co_services st)) (co_bus st) = (tm, bus)" by fastforce
  have "co_bus (core_tick env st) = bus" "same_decisions st (core_tick env st)"
    by (simp_all add: core_tick_def t set_bus_def set_services_def same_decisions_def)
  then show ?thesis
    using tick_sent[of "ev_tick_now env" "ev_clock_tick env" "Some (ev_snapshot_tick env)"
        "sv_time (co_services st)" "co_bus st"] t
    by (auto simp: grows_def turn_message_def)
qed

lemma dispatched_grows:
  assumes "dispatch_to_local_objects (co_bus st) (state_objs cw env st) (co_services st) msg = Inr (handled, bus, sv)"
  shows "grows (turn_message cw env st0) st (set_services sv (set_bus bus st))"
proof (rule growsI)
  note ro = dispatch_read_only[OF assms state_objs_read_only]
  let ?st1 = "set_services sv (set_bus bus st)"
  show "same_decisions st ?st1" using ro(1) by (simp add: set_services_def set_bus_def same_decisions_def)
  show "bus_extends (co_bus st) (co_bus ?st1)" using ro(2) by (simp add: set_services_def set_bus_def)
  fix m assume "m \<in> set (sent_since (co_bus st) (co_bus ?st1))"
  then have "m_verb m = HES_VERB_EVENT" "m_path m \<in> hes_strlcpy HES_PATH_MAX ` set service_addresses"
    using ro(3)[of m] by (auto simp: set_services_def set_bus_def state_objs_def core_objs_addresses)
  then show "turn_message cw env st0 m" by (auto simp: turn_message_def own_report_def service_addresses_fit)
qed

lemma relay_grows:
  assumes "ev_recv env = Some msg" "same_decisions st0 st"
  shows "grows (turn_message cw env st0) st (core_relay handled msg st)"
proof (cases "core_relay handled msg st = st")
  case True
  then show ?thesis by (simp add: grows_def)
next
  case False
  then have r: "core_relay handled msg st = set_bus (hes_bus_send (co_bus st) msg) st" "m_verb msg = HES_VERB_PUT"
      "bm_is_declared_destination (s_bm (co_map st)) (m_path msg) (m_device_index msg)"
    by (auto simp: core_relay_def split: if_splits)
  have "bm_addrs (s_bm (co_map st)) = bm_addrs (s_bm (co_map st0))" using assms(2) by (simp add: same_decisions_def)
  then have "bm_is_declared_destination (s_bm (co_map st)) (m_path msg) (m_device_index msg)
      = bm_is_declared_destination (s_bm (co_map st0)) (m_path msg) (m_device_index msg)"
    by (simp add: bm_is_declared_destination_def bm_find_addr_def)
  with r(3) have "bm_is_declared_destination (s_bm (co_map st0)) (m_path msg) (m_device_index msg)" by simp
  then have rel: "relayed env st0 m" if "unstamped m = unstamped msg" for m
    using that r(2) assms(1) by (auto simp: relayed_def)
  show ?thesis
    unfolding r(1)
  proof (rule growsI)
    show "same_decisions st (set_bus (hes_bus_send (co_bus st) msg) st)" by (simp add: set_bus_def same_decisions_def)
    show "bus_extends (co_bus st) (co_bus (set_bus (hes_bus_send (co_bus st) msg) st))"
      by (simp add: set_bus_def bus_extends_send)
    fix m assume "m \<in> set (sent_since (co_bus st) (co_bus (set_bus (hes_bus_send (co_bus st) msg) st)))"
    then have "m \<in> set (sent_since (co_bus st) (hes_bus_send (co_bus st) msg))" by (simp add: set_bus_def)
    then have "unstamped m = unstamped msg" using sent_by_send by blast
    then show "turn_message cw env st0 m" by (simp add: rel turn_message_def)
  qed
qed

lemma receive_grows:
  assumes "core_receive cw env st = Inr st'" "same_decisions st0 st"
  shows "grows (turn_message cw env st0) st st'"
proof (cases "ev_recv env")
  case None
  then show ?thesis using assms(1) by (simp add: core_receive_def grows_def)
next
  case (Some msg)
  obtain handled bus sv where d: "dispatch_to_local_objects (co_bus st) (state_objs cw env st) (co_services st) msg
        = Inr (handled, bus, sv)"
      and p: "core_process cw env msg (core_relay handled msg (set_services sv (set_bus bus st))) = Inr st'"
    using assms(1) Some by (auto simp: core_receive_def split: sum.splits dispatch_error.splits)
  have d1: "grows (turn_message cw env st0) st (set_services sv (set_bus bus st))" by (rule dispatched_grows[OF d])
  have "same_decisions st0 (set_services sv (set_bus bus st))"
    by (rule same_decisions_trans[OF assms(2) grows_same[OF d1]])
  from grows_trans[OF d1 relay_grows[OF Some this]]
  have g: "grows (turn_message cw env st0) st (core_relay handled msg (set_services sv (set_bus bus st)))" .
  from same_decisions_trans[OF assms(2) grows_same[OF this]] have
    "same_decisions st0 (core_relay handled msg (set_services sv (set_bus bus st)))" .
  from grows_trans[OF g process_grows(1)[OF p this]] Some show ?thesis by simp
qed

lemma send_all_sent_mem:
  "bus_extends bus (send_all bus ms)
     \<and> (\<forall>m \<in> set (sent_since bus (send_all bus ms)). \<exists>m' \<in> set ms. unstamped m = unstamped m')"
proof -
  have "map unstamped (sent_since bus (send_all bus ms)) = map unstamped ms"
    using send_all_sent[of bus ms] by (simp add: unstamped_def[abs_def])
  then have "unstamped ` set (sent_since bus (send_all bus ms)) = unstamped ` set ms" by (metis set_map)
  then show ?thesis using send_all_sent[of bus ms] by blast
qed

lemma app_tick_grows: "grows (turn_message cw env st0) st (core_app_tick cw env st)"
proof -
  obtain ms l' sv' where t: "app_lua_tick (ev_send_ok env) (state_objs cw env st) (cw_lua cw)
      (fst (s_app (co_map st)), co_services st) = (ms, l', sv')" by (metis prod_cases3)
  then have eq: "core_app_tick cw env st = st\<lparr>co_map := (co_map st)\<lparr>s_bus := send_all (co_bus st) ms, s_app := (l', sv')\<rparr>\<rparr>"
    by (simp add: core_app_tick_def)
  have sv: "sv' = co_services st" by (rule lua_tick_read_only[OF state_objs_read_only t])
  show ?thesis
  proof (rule growsI)
    show "same_decisions st (core_app_tick cw env st)" unfolding eq using sv by (simp add: same_decisions_def)
    show "bus_extends (co_bus st) (co_bus (core_app_tick cw env st))" unfolding eq using send_all_sent_mem by simp
    fix m assume "m \<in> set (sent_since (co_bus st) (co_bus (core_app_tick cw env st)))"
    then obtain m' where "m' \<in> set ms" "unstamped m = unstamped m'"
      unfolding eq using send_all_sent_mem[of "co_bus st" ms] by auto
    then show "turn_message cw env st0 m"
      using tick_puts[OF t] by (auto simp: turn_message_def script_put_def)
  qed
qed

lemma feed_grows:
  assumes "core_feed cw env st = Inr st'" "same_decisions st0 st"
  shows "grows (turn_message cw env st0) st st'"
proof (cases "ev_now env = co_last_feed st")
  case True
  then show ?thesis using assms(1) by (simp add: core_feed_def grows_def)
next
  case False
  then have p: "core_process cw env (self_event env st) (st\<lparr>co_last_feed := ev_now env\<rparr>) = Inr st'"
    using assms(1) by (simp add: core_feed_def)
  have "m_cred_info (self_event env st) = []" by (simp add: self_event_def realtime_on_get_def)
  then have "grows (turn_message cw env st0) (st\<lparr>co_last_feed := ev_now env\<rparr>) st'"
    using assms(2) by (intro process_grows(1)[OF p]) (simp_all add: same_decisions_def)
  then show ?thesis by (simp add: grows_def same_decisions_def)
qed

lemma turn_grows:
  assumes "core_turn cw env st = Inr st'"
  shows "grows (turn_message cw env st) st st'"
proof -
  let ?P = "turn_message cw env st"
  obtain st1 st2 where r: "core_receive cw env (core_offset env st) = Inr st1"
      and f: "core_feed cw env (core_tick env st1) = Inr st2"
      and st': "st' = core_refresh cw env (core_app_tick cw env st2)"
    using assms by (auto simp: core_turn_def split: sum.splits)
  have 0: "grows ?P st (core_offset env st)"
    by (simp add: grows_def core_offset_def set_bus_def same_decisions_def)
  have 1: "grows ?P st st1" by (rule grows_trans[OF 0 receive_grows[OF r grows_same[OF 0]]])
  have 2: "grows ?P st (core_tick env st1)" by (rule grows_trans[OF 1 tick_grows])
  have 3: "grows ?P st st2" by (rule grows_trans[OF 2 feed_grows[OF f grows_same[OF 2]]])
  have 4: "grows ?P st (core_app_tick cw env st2)" by (rule grows_trans[OF 3 app_tick_grows])
  have "grows ?P (core_app_tick cw env st2) st'"
    unfolding st' by (simp add: core_refresh_def grows_def same_decisions_def Let_def split: prod.split)
  then show ?thesis by (rule grows_trans[OF 4])
qed

text \<open>C9: Everything a turn of the core puts on the bus is one of four things: a report of one of the
  gateway's own objects, from its own address; the received PUT, unchanged, when the addressing table
  declares its device behind an interface module; the output of a row whose gates let it through for
  the message that set it off; or a PUT of the customer's app, which carries no credential.\<close>

theorem turn_sends_only:
  assumes "core_turn cw env st = Inr st'" "m \<in> set (sent_since (co_bus st) (co_bus st'))"
  shows "turn_message cw env st m"
  using turn_grows[OF assms(1)] assms(2) by (auto simp: grows_def sent_since_def)

text \<open>An output to a device whose rows all ask for authorization was authorized.\<close>

lemma row_output_guarded:
  assumes "row_output cw env st m" "\<not> bm_authz_disabled (s_bm (co_map st))"
    and "\<And>op. op \<in> set (bm_ops (s_bm (co_map st))) \<Longrightarrow> op_out_device_index op = m_device_index m \<Longrightarrow>
           op_requires_authorization op"
  shows "\<exists>msg op r. ev_recv env = Some msg \<and> op \<in> set (bm_ops (s_bm (co_map st)))
           \<and> unstamped m = put_message op r
           \<and> core_authorize (cw_psa cw) (sv_auth (co_services st)) msg (bm_at_address op HES_PATH_MAX)"
proof -
  obtain op r msg where op: "op \<in> set (bm_ops (s_bm (co_map st)))" "unstamped m = put_message op r"
      "ev_recv env = Some msg \<or> m_cred_info msg = []"
      "output_authorized (core_hooks cw env st) ((s_bm (co_map st))\<lparr>bm_current_msg := Some msg\<rparr>) op"
    using assms(1) by (auto simp: row_output_def)
  have "m_device_index m = m_device_index (unstamped m)" by (simp add: unstamped_def)
  then have "op_out_device_index op = m_device_index m"
    unfolding op(2) by (simp add: put_message_def)
  then have "op_requires_authorization op" using assms(3) op(1) by simp
  then have a: "core_authorize (cw_psa cw) (sv_auth (co_services st)) msg (bm_at_address op HES_PATH_MAX)"
    using op(4) assms(2) by (auto simp: output_authorized_def core_hooks_def split: if_splits)
  then have "m_cred_info msg \<noteq> []"
    by (auto simp: core_authorize_def auth_service_authorize_def split: if_splits)
  then show ?thesis using op(1-3) a by blast
qed

text \<open>C10: A guarded device hears only from authorized senders. While authorization is not switched off
  (\<open>--no-authz\<close>), when every row that outputs to a device asks for authorization, a PUT with that (non-zero)
  device index that a turn sends and that is not the relay of a received PUT was set off by the message received
  in this turn, whose sender the policy authorizes for the row and who gave the proof the policy asks for. A PUT
  of the host's app carries the index 0: what its path means is left to the module that receives it.\<close>

theorem guarded_device_authorized:
  assumes "core_turn cw env st = Inr st'" "m \<in> set (sent_since (co_bus st) (co_bus st'))"
    and "m_verb m = HES_VERB_PUT" "m_device_index m \<noteq> 0" "\<not> relayed env st m"
    and "\<not> bm_authz_disabled (s_bm (co_map st))"
    and "\<And>op. op \<in> set (bm_ops (s_bm (co_map st))) \<Longrightarrow> op_out_device_index op = m_device_index m \<Longrightarrow>
           op_requires_authorization op"
  shows "\<exists>msg op r. ev_recv env = Some msg \<and> op \<in> set (bm_ops (s_bm (co_map st)))
           \<and> unstamped m = put_message op r
           \<and> core_authorize (cw_psa cw) (sv_auth (co_services st)) msg (bm_at_address op HES_PATH_MAX)"
proof (rule row_output_guarded)
  have "turn_message cw env st m" using turn_grows[OF assms(1)] assms(2) by (auto simp: grows_def sent_since_def)
  moreover have "\<not> script_put m"
  proof
    assume "script_put m"
    then obtain m' where "app_put m'" "unstamped m = unstamped m'" by (auto simp: script_put_def)
    moreover have "m_device_index x = m_device_index (unstamped x)" for x by (simp add: unstamped_def)
    ultimately show False using app_put_fields(2) assms(4) by metis
  qed
  ultimately show "row_output cw env st m" using assms(3,5) by (auto simp: turn_message_def own_report_def)
qed (use assms(6,7) in auto)

fun core_run :: "'l core_world \<Rightarrow> core_env list \<Rightarrow> 'l core_state \<Rightarrow> core_stop + 'l core_state" where
  "core_run cw [] st = Inr st"
| "core_run cw (env # envs) st =
     (case core_turn cw env st of Inl e \<Rightarrow> Inl e | Inr st' \<Rightarrow> core_run cw envs st')"

text \<open>Whatever is received over any number of turns, the policy, the identity, the key and the table the
  gates decide by stay those the core started with.\<close>

lemma run_same_decisions:
  assumes "core_run cw envs st = Inr st'"
  shows "same_decisions st st'"
  using assms
proof (induction envs arbitrary: st)
  case (Cons env envs)
  then obtain st1 where "core_turn cw env st = Inr st1" "core_run cw envs st1 = Inr st'"
    by (auto split: sum.splits)
  then show ?case using Cons.IH[of st1] grows_same[OF turn_grows] same_decisions_trans by blast
qed simp

section \<open>A gateway at work\<close>

definition quiet_lua :: "unit lua" where
  "quiet_lua = \<lparr>lua_hes_op = (\<lambda>_. None), lua_on_tick = (\<lambda>_. None)\<rparr>"

definition sample_cw :: "unit core_world" where
  "sample_cw = \<lparr>cw_psa = toy_psa, cw_json = (\<lambda>_. None), cw_lua = quiet_lua, cw_fuel = Suc (Suc (Suc 0))\<rparr>"

definition sample_turn :: "hes_clme_msg option \<Rightarrow> core_env" where
  "sample_turn msg =
     \<lparr>ev_offset_ns = 0, ev_recv = msg, ev_clock_get = None, ev_snapshot_get = (\<lambda>_. zero_snapshot),
      ev_tick_now = 1, ev_clock_tick = None, ev_snapshot_tick = (\<lambda>_. zero_snapshot), ev_now = 0,
      ev_clock_feed = None, ev_send_ok = (\<lambda>_. True), ev_mreg = \<lparr>ex_send = (\<lambda>_. 0), ex_recv = (\<lambda>_. Inl 5)\<rparr>\<rparr>"

definition sample_services :: core_services where
  "sample_services = \<lparr>sv_id = id_zero, sv_time = time_zero, sv_auth = open_policy, sv_crypto = crypto_initial_state\<rparr>"

definition sample_core :: "bm_operation list \<Rightarrow> unit core_state" where
  "sample_core ops =
     \<lparr>co_map = \<lparr>s_bm = sample_bm ops, s_bus = sample_bus, s_app = ((), sample_services)\<rparr>,
      co_inv = \<lparr>ci_svc_rep_url = None, ci_mreg = mreg_zero, ci_mreg_open = False, ci_have_modules = False, ci_modules = []\<rparr>,
      co_nng = \<lparr>nn_calls = [], nn_results = (\<lambda>_. 0)\<rparr>, co_last_feed = 0, co_last_refresh = 0\<rparr>"

text \<open>A report of 1 by a sender the sample policy knows sets off the guarded row.\<close>

definition sample_command :: hes_clme_msg where
  "sample_command = (sample_report [] ''1'')\<lparr>m_cred_info := '';''\<rparr>"

lemma sample_no_object:
  "find_object (state_objs cw env st) HES_LX_BTN_CV = None"
proof -
  have "serves HES_LX_BTN_CV p = None" if "p \<in> set service_addresses" for p
    using that by (auto simp: service_addresses_def serves_def Let_def)
  then have "serves HES_LX_BTN_CV (so_path ob) = None" if "ob \<in> set (state_objs cw env st)" for ob
    using that core_objs_addresses[of "cw_psa cw" env "bus_offset_ns (co_bus st)" "co_inv st" "bm_addrs (s_bm (co_map st))"]
    unfolding state_objs_def by blast
  then show ?thesis by (simp add: find_object_None)
qed

lemma sample_authorized:
  "core_authorize toy_psa open_policy sample_command ''/lx/ob/bm/ot1/o1/at''"
  by (simp add: core_authorize_def auth_service_authorize_def open_policy_def auth_empty_def credential_matches_def
      class_permissions_def group_permissions_def auth_service_required_proof_pi_def sample_command_def sample_report_def)

lemma sample_command_fields:
  "m_path sample_command = HES_LX_BTN_CV" "m_verb sample_command = HES_VERB_EVENT" "m_payload sample_command = ''1''"
  "m_device_index sample_command = 1"
  by (simp_all add: sample_command_def sample_report_def hes_strlcpy_take)

lemma sample_processed_core:
  "\<exists>mp m. bm_processor_handle (core_hooks sample_cw env (core_offset env' (sample_core [guarded_op])))
       (Suc (Suc (Suc 0))) sample_command (co_map (core_offset env' (sample_core [guarded_op]))) = Some mp
     \<and> bus_sent (s_bus mp) = [m] \<and> m_verb m = HES_VERB_PUT \<and> m_device_index m = 2"
  using sample_datum sample_authorized
  by (simp add: bm_processor_handle_def sample_command_fields store_report_def store_input_def input_matches_def
      core_offset_def set_bus_def sample_core_def guarded_op_def sample_defs evaluation_defs upt_rec
      core_hooks_def sample_cw_def sample_services_def bm_at_address_def hes_strlcpy_take
      put_message_def hes_bus_send_sent)

lemma sample_turn_runs:
  "\<exists>st' m ms. core_turn sample_cw (sample_turn (Some sample_command)) (sample_core [guarded_op]) = Inr st'
     \<and> bus_sent (co_bus st') = m # ms \<and> m_verb m = HES_VERB_PUT \<and> m_device_index m = 2"
proof -
  let ?env = "sample_turn (Some sample_command)"
  let ?st = "core_offset ?env (sample_core [guarded_op])"
  obtain mp m where p: "bm_processor_handle (core_hooks sample_cw ?env ?st) (Suc (Suc (Suc 0))) sample_command (co_map ?st) = Some mp"
      and m: "bus_sent (s_bus mp) = [m]" "m_verb m = HES_VERB_PUT" "m_device_index m = 2"
    using sample_processed_core[of ?env ?env] by blast
  have none: "find_object (state_objs sample_cw ?env ?st) (m_path sample_command) = None"
    unfolding sample_command_fields by (rule sample_no_object)
  have back_to: "set_services (co_services ?st) (set_bus (co_bus ?st) ?st) = ?st"
    by (simp add: set_services_def set_bus_def core_offset_def sample_core_def)
  have rcv: "core_receive sample_cw ?env ?st = Inr (?st\<lparr>co_map := mp\<rparr>)"
  proof -
    have "dispatch_to_local_objects (co_bus ?st) (state_objs sample_cw ?env ?st) (co_services ?st) sample_command
        = Inr (False, co_bus ?st, co_services ?st)"
      unfolding dispatch_to_local_objects_def none by simp
    moreover have "core_relay False sample_command ?st = ?st" by (simp add: core_relay_def sample_command_fields)
    moreover have "core_process sample_cw ?env sample_command ?st = Inr (?st\<lparr>co_map := mp\<rparr>)"
      using p by (simp add: core_process_def sample_cw_def)
    ultimately show ?thesis using back_to by (simp add: core_receive_def sample_turn_def)
  qed
  define st1 where "st1 = ?st\<lparr>co_map := mp\<rparr>"
  have last: "co_last_feed st1 = 0" by (simp add: st1_def core_offset_def set_bus_def sample_core_def)
  have "core_feed sample_cw ?env (core_tick ?env st1) = Inr (core_tick ?env st1)"
    using last by (simp add: core_feed_def core_tick_def set_services_def set_bus_def sample_turn_def split: prod.split)
  then have t: "core_turn sample_cw ?env (sample_core [guarded_op])
      = Inr (core_refresh sample_cw ?env (core_app_tick sample_cw ?env (core_tick ?env st1)))"
    using rcv by (simp add: core_turn_def st1_def)
  have sent: "bus_sent (co_bus st1) = [m]" using m(1) by (simp add: st1_def)
  obtain ms where "bus_sent (co_bus (core_tick ?env st1)) = [m] @ ms"
    using tick_grows[of sample_cw ?env st1 st1] sent by (auto simp: grows_def)
  moreover obtain ms' where "bus_sent (co_bus (core_app_tick sample_cw ?env (core_tick ?env st1)))
      = bus_sent (co_bus (core_tick ?env st1)) @ ms'"
    using app_tick_grows[of sample_cw ?env st1 "core_tick ?env st1"] by (auto simp: grows_def)
  moreover have "co_bus (core_refresh sample_cw ?env st) = co_bus st" for st :: "unit core_state"
    by (simp add: core_refresh_def Let_def split: prod.split)
  ultimately show ?thesis using t m(2,3) by simp
qed

theorem guarded_device_authorized_witness:
  "\<exists>msg op. op \<in> {guarded_op}
     \<and> core_authorize toy_psa open_policy msg (bm_at_address op HES_PATH_MAX)
     \<and> ev_recv (sample_turn (Some sample_command)) = Some msg"
proof -
  let ?env = "sample_turn (Some sample_command)" and ?st = "sample_core [guarded_op]"
  obtain st' m ms where t: "core_turn sample_cw ?env ?st = Inr st'" "bus_sent (co_bus st') = m # ms"
      and m: "m_verb m = HES_VERB_PUT" "m_device_index m = 2"
    using sample_turn_runs by blast
  have sent: "m \<in> set (sent_since (co_bus ?st) (co_bus st'))"
    using t(2) by (simp add: sent_since_def sample_core_def sample_bus_def)
  have nr: "\<not> relayed ?env ?st m" by (simp add: relayed_def sample_turn_def sample_command_fields)
  have en: "\<not> bm_authz_disabled (s_bm (co_map ?st))" by (simp add: sample_core_def sample_bm_def bm_init_def)
  have g: "op_requires_authorization op" if "op \<in> set (bm_ops (s_bm (co_map ?st)))" for op
    using that by (simp add: sample_core_def sample_bm_def guarded_op_def sample_op_def op_requires_authorization_def)
  have "m_device_index m \<noteq> 0" using m(2) by simp
  from guarded_device_authorized[OF t(1) sent m(1) this nr en g] show ?thesis
    by (auto simp: sample_core_def sample_bm_def sample_cw_def sample_services_def)
qed

theorem turn_sends_only_witness:
  "\<exists>m. m_verb m = HES_VERB_PUT
     \<and> turn_message sample_cw (sample_turn (Some sample_command)) (sample_core [guarded_op]) m"
proof -
  obtain st' m ms where t: "core_turn sample_cw (sample_turn (Some sample_command)) (sample_core [guarded_op]) = Inr st'"
      "bus_sent (co_bus st') = m # ms" "m_verb m = HES_VERB_PUT"
    using sample_turn_runs by blast
  have "m \<in> set (sent_since (co_bus (sample_core [guarded_op])) (co_bus st'))"
    using t(2) by (simp add: sent_since_def sample_core_def sample_bus_def)
  from turn_sends_only[OF t(1) this] t(3) show ?thesis by blast
qed

theorem core_authorize_sound_witness:
  "\<exists>cls. sender_class open_policy (m_cred_info sample_command) = Some cls
     \<and> governing (class_permissions open_policy cls) ''/lx/ob/bm/ot1/o1/at'' = Some ''fl''"
proof -
  have "wf_msg sample_command"
    by (simp add: wf_msg_def sample_command_def sample_report_def hes_msg_set_payload_str_def hes_strlcpy_take)
  from core_authorize_sound[OF sample_authorized this] show ?thesis by blast
qed

end
