(* ===== verification/CoreStart.thy ===== *)
theory CoreStart
  imports CoreProps
begin

text \<open>
  Starting and stopping the core service module: \<open>core_main\<close> of src/src/modules/core/core.c up to
  its loop, every refusal with what it gives back, and the way down after the loop.

  What the start meets is the record \<open>start_env\<close>: the allocator's answers, the documents, NNG and
  what the app's script does while it is loaded. The sync thread is represented by its state, and
  stopping it by dropping that state: \<open>stop_joins\<close> of TimeSyncProps is why the join returns.
\<close>

section \<open>Configuration and surroundings\<close>

record core_config =
  cc_pub_url :: string
  cc_sub_url :: string
  cc_bm_xml :: string
  cc_auth_policy :: "string option"
  cc_no_authz :: bool
  cc_identity_path :: "string option"
  cc_manifest_rep_url :: "string option"
  cc_ntp_servers :: "string option"
  cc_tz_name :: "string option"
  cc_tz_urls :: "string option"
  cc_ntp_enabled :: bool
  cc_tz_enabled :: bool

abbreviation CORE_MAX_SERVICE_OBJECTS :: nat where "CORE_MAX_SERVICE_OBJECTS \<equiv> 12"

text \<open>The allocator's answers come in pairs: for the state, and for each object on it.\<close>

record 'l start_env =
  se_nng :: nng
  se_bus :: hes_bus
  se_files :: "string \<Rightarrow> json option"
  se_xpath :: xpath
  se_xml :: "string \<Rightarrow> xml_node option option"
  se_id_alloc :: "bool \<times> (nat \<Rightarrow> bool)"
  se_time_alloc :: "bool \<times> (nat \<Rightarrow> bool)"
  se_auth_alloc :: bool
  se_crypto_alloc :: "bool \<times> (nat \<Rightarrow> bool)"
  se_lua_alloc :: bool
  se_sync_alloc :: bool
  se_sync_thread :: bool
  se_tz :: "string option"
  se_turn :: core_env
  se_script :: "'l script"

definition core_sync_config :: "core_config \<Rightarrow> time_sync_config" where
  "core_sync_config cfg =
     \<lparr>cf_ntp_servers = cc_ntp_servers cfg, cf_ntp_interval_s = 0, cf_ntp_enabled = cc_ntp_enabled cfg,
      cf_tz_name = cc_tz_name cfg, cf_tz_urls = cc_tz_urls cfg, cf_tz_enabled = cc_tz_enabled cfg,
      cf_tz_interval_s = 0, cf_timeout_ms = 0\<rparr>"

section \<open>What the start holds\<close>

text \<open>The blocks, the thread and the sockets taken so far: the states of the services, one block for each
  object of the table \<open>objs\<close> in its order, the block of the app and its Lua state. \<open>Freed\<close> also stands
  for a block never taken.\<close>

datatype core_object = Id_object | Time_object | Auth_object | Crypto_object

record core_held =
  he_objs :: "core_object list"
  he_id :: "id_service_state cell"
  he_time :: "time_state cell"
  he_auth :: "auth_service_state cell"
  he_crypto :: "crypto_service_state cell"
  he_sync :: "(sync_cfg \<times> unit sync_world) option"
  he_app :: bool
  he_lua :: bool
  he_nng :: nng

definition holds_nothing :: "nng \<Rightarrow> core_held" where
  "holds_nothing n =
     \<lparr>he_objs = [], he_id = Freed, he_time = Freed, he_auth = Freed, he_crypto = Freed, he_sync = None,
      he_app = False, he_lua = False, he_nng = n\<rparr>"

lemma holds_nothing_nng [simp]: "he_nng (holds_nothing n) = n"
  by (simp add: holds_nothing_def)

text \<open>\<open>Refused\<close> is a non-zero exit with what is still held; \<open>Crashed\<close> is undefined behaviour: a state
  touched after it was freed, or a missing allocation dereferenced.\<close>

datatype 'l core_result = Refused core_held | Crashed | Started core_held "'l core_state"

text \<open>The authorization service has one object, which frees the state.\<close>

definition auth_destroy :: "'st cell \<Rightarrow> heap_error + 'st cell" where
  "auth_destroy c = (case c of Freed \<Rightarrow> Inl UseAfterFree | Live _ _ \<Rightarrow> Inr Freed)"

text \<open>The \<open>destroy\<close> of an object.\<close>

definition destroy_object :: "core_object \<Rightarrow> core_held \<Rightarrow> heap_error + core_held" where
  "destroy_object ob h =
     (case ob of
        Id_object \<Rightarrow> map_sum id (\<lambda>c. h\<lparr>he_id := c\<rparr>) (shared_destroy (he_id h))
      | Time_object \<Rightarrow> map_sum id (\<lambda>c. h\<lparr>he_time := c\<rparr>) (shared_destroy (he_time h))
      | Auth_object \<Rightarrow> map_sum id (\<lambda>c. h\<lparr>he_auth := c\<rparr>) (auth_destroy (he_auth h))
      | Crypto_object \<Rightarrow> map_sum id (\<lambda>c. h\<lparr>he_crypto := c\<rparr>) (shared_destroy (he_crypto h)))"

text \<open>The loop over the table: each object is destroyed and its block freed, in order.\<close>

primrec destroy_table :: "core_object list \<Rightarrow> core_held \<Rightarrow> heap_error + core_held" where
  "destroy_table [] h = Inr h"
| "destroy_table (ob # obs) h =
     (case destroy_object ob h of Inl e \<Rightarrow> Inl e | Inr h \<Rightarrow> destroy_table obs (h\<lparr>he_objs := obs\<rparr>))"

definition core_destroy :: "core_held \<Rightarrow> heap_error + core_held" where
  "core_destroy h = destroy_table (he_objs h) h"

text \<open>Giving up: the thread first, then the objects, then the bus when it is open.\<close>

definition core_refuse :: "bool \<Rightarrow> core_held \<Rightarrow> 'l core_result" where
  "core_refuse bus_open h =
     (case core_destroy (h\<lparr>he_sync := None\<rparr>) of
        Inl UseAfterFree \<Rightarrow> Crashed
      | Inr h \<Rightarrow> Refused (if bus_open then h\<lparr>he_nng := hes_bus_close (he_nng h)\<rparr> else h))"

definition cell_state :: "'st cell \<Rightarrow> 'st \<Rightarrow> 'st" where
  "cell_state c dflt = (case c of Live _ st \<Rightarrow> st | Freed \<Rightarrow> dflt)"

definition put_cell :: "'st cell \<Rightarrow> 'st \<Rightarrow> 'st cell" where
  "put_cell c st = (case c of Live refs _ \<Rightarrow> Live refs st | Freed \<Rightarrow> Freed)"

section \<open>The map, the policy and the app\<close>

text \<open>A document that cannot be read leaves the map as \<open>bm_init\<close> made it.\<close>

definition core_load_map ::
    "'l start_env \<Rightarrow> core_config \<Rightarrow> auth_service_state \<Rightarrow> binding_map" where
  "core_load_map se cfg auth =
     (let bm = (case bm_load_xml (se_xpath se) (se_xml se) bm_init (cc_bm_xml cfg) of
                  Some bm \<Rightarrow> bm | None \<Rightarrow> bm_init);
          bm = (if cc_no_authz cfg then bm_disable_authorization bm else bm)
      in fst (auth_service_propagate auth core_write_at bm))"

text \<open>Closing the Lua state and freeing the app's block.\<close>

definition app_lua_destroy :: "core_held \<Rightarrow> core_held" where
  "app_lua_destroy h =
     (if \<not> he_app h then h
      else (if he_lua h then h\<lparr>he_lua := False\<rparr> else h)\<lparr>he_app := False\<rparr>)"

text \<open>The script runs with the objects and the bus of the started core; whatever it defines is then part
  of its state.\<close>

definition core_load_app ::
    "'l core_world \<Rightarrow> 'l start_env \<Rightarrow> 'l core_state \<Rightarrow> 'l core_state" where
  "core_load_app cw se st =
     (let (l, sv, ms) = run_script (ev_send_ok (se_turn se)) (state_objs cw (se_turn se) st) (se_script se) (co_services st)
      in st\<lparr>co_map := (co_map st)\<lparr>s_bus := send_all (co_bus st) ms, s_app := (l, sv)\<rparr>\<rparr>)"

definition no_inventory :: "string option \<Rightarrow> core_inventory" where
  "no_inventory url =
     \<lparr>ci_svc_rep_url = url, ci_mreg = mreg_zero, ci_mreg_open = False, ci_have_modules = False, ci_modules = []\<rparr>"

section \<open>The start\<close>

text \<open>From the identity key on: everything that is needed is there.\<close>

definition core_assemble ::
    "'l core_world \<Rightarrow> core_config \<Rightarrow> 'l start_env \<Rightarrow> 'l \<Rightarrow> core_held \<Rightarrow> 'l core_result" where
  "core_assemble cw cfg se l h =
     (case id_service_export_identity_key (cell_state (he_id h) id_zero) of
        None \<Rightarrow> core_refuse True h
      | Some (identity_key, id_st) \<Rightarrow>
          (let crypto_st = crypto_service_set_identity_key (cell_state (he_crypto h) crypto_initial_state) identity_key;
               auth_st = cell_state (he_auth h) auth_empty;
               bm = core_load_map se cfg auth_st;
               (iv, n) = core_inventory_refresh (ev_mreg (se_turn se)) (cw_json cw)
                           (no_inventory (cc_manifest_rep_url cfg), he_nng h);
               bus = bm_controller_start bm (se_bus se);
               sv = \<lparr>sv_id = id_st, sv_time = cell_state (he_time h) time_zero, sv_auth = auth_st, sv_crypto = crypto_st\<rparr>;
               st = \<lparr>co_map = \<lparr>s_bm = bm, s_bus = bus, s_app = (l, sv)\<rparr>, co_inv = iv, co_nng = n,
                     co_last_feed = 0, co_last_refresh = 0\<rparr>;
               h = h\<lparr>he_id := put_cell (he_id h) id_st, he_crypto := put_cell (he_crypto h) crypto_st, he_nng := n\<rparr>
           in if \<not> se_lua_alloc se then Crashed
              else Started (h\<lparr>he_app := True, he_lua := True\<rparr>) (core_load_app cw se st)))"

text \<open>The start in the order of the code: the identity and the bus, the clock and the time service, then
  authorization and cryptography.\<close>

definition core_start_crypto ::
    "'l core_world \<Rightarrow> core_config \<Rightarrow> 'l start_env \<Rightarrow> 'l \<Rightarrow> nat \<Rightarrow> core_held \<Rightarrow> 'l core_result" where
  "core_start_crypto cw cfg se l crypto_start h =
     (if \<not> se_auth_alloc se then Crashed
      else
        (let h = h\<lparr>he_auth := Live 1 (auth_service_create (se_files se) (cc_auth_policy cfg)),
                   he_objs := he_objs h @ [Auth_object]\<rparr>
         in case crypto_service_create (fst (se_crypto_alloc se)) (snd (se_crypto_alloc se))
                   (CORE_MAX_SERVICE_OBJECTS - crypto_start) of
              Inl UseAfterFree \<Rightarrow> Crashed
            | Inr (None, c) \<Rightarrow> core_refuse True (h\<lparr>he_crypto := c\<rparr>)
            | Inr (Some crypto_objs, c) \<Rightarrow>
                core_assemble cw cfg se l
                  (h\<lparr>he_crypto := c, he_objs := he_objs h @ replicate crypto_objs Crypto_object\<rparr>)))"

definition core_start_time ::
    "'l core_world \<Rightarrow> core_config \<Rightarrow> 'l start_env \<Rightarrow> 'l \<Rightarrow> nat \<Rightarrow> core_held \<Rightarrow> 'l core_result" where
  "core_start_time cw cfg se l n_objs h =
     (let h = h\<lparr>he_sync := time_sync_start (se_sync_alloc se) (se_sync_thread se) (core_sync_config cfg) (se_tz se)\<rparr>
      in case time_service_create (fst (se_time_alloc se)) (snd (se_time_alloc se)) (CORE_MAX_SERVICE_OBJECTS - n_objs) of
           Inl UseAfterFree \<Rightarrow> Crashed
         | Inr (None, c) \<Rightarrow> core_refuse True (h\<lparr>he_time := c\<rparr>)
         | Inr (Some time_objs, c) \<Rightarrow>
             core_start_crypto cw cfg se l (n_objs + time_objs + 1)
               (h\<lparr>he_time := c, he_objs := he_objs h @ replicate time_objs Time_object\<rparr>))"

definition core_start ::
    "'l core_world \<Rightarrow> core_config \<Rightarrow> 'l start_env \<Rightarrow> 'l \<Rightarrow> 'l core_result" where
  "core_start cw cfg se l =
     (let h = holds_nothing (se_nng se)
      in case id_service_create (cw_psa cw) (se_files se) (fst (se_id_alloc se)) (snd (se_id_alloc se))
                (cc_identity_path cfg) CORE_MAX_SERVICE_OBJECTS of
           Inl UseAfterFree \<Rightarrow> Crashed
         | Inr (None, c) \<Rightarrow> Refused (h\<lparr>he_id := c\<rparr>)
         | Inr (Some n_objs, c) \<Rightarrow>
             (let h = h\<lparr>he_id := c, he_objs := replicate n_objs Id_object\<rparr>;
                  (rv, n) = hes_bus_hub_open (cc_pub_url cfg) (cc_sub_url cfg) (he_nng h);
                  h = h\<lparr>he_nng := n\<rparr>
              in if rv \<noteq> 0 then core_refuse False h else core_start_time cw cfg se l n_objs h))"

section \<open>The way down\<close>

text \<open>The app, the objects, the sync thread, the manifest service's socket when it is open, the bus.\<close>

definition core_shutdown :: "'l core_state \<Rightarrow> core_held \<Rightarrow> heap_error + core_held" where
  "core_shutdown st h =
     (case core_destroy (app_lua_destroy h) of
        Inl e \<Rightarrow> Inl e
      | Inr h \<Rightarrow>
          (let n = (if ci_mreg_open (co_inv st) then hes_mreg_close (ci_mreg (co_inv st)) (co_nng st) else co_nng st)
           in Inr (h\<lparr>he_sync := None, he_nng := hes_bus_close n\<rparr>)))"

text \<open>The whole of \<open>core_main\<close>, with the turns the loop makes before a signal ends it: its exit code and
  what is left; \<open>None\<close> when it crashed, overran the router's buffer or needs more fuel.\<close>

definition core_main ::
    "'l core_world \<Rightarrow> core_config \<Rightarrow> 'l start_env \<Rightarrow> 'l \<Rightarrow> core_env list \<Rightarrow> (int \<times> core_held) option" where
  "core_main cw cfg se l turns =
     (case core_start cw cfg se l of
        Crashed \<Rightarrow> None
      | Refused h \<Rightarrow> Some (1, h)
      | Started h st \<Rightarrow>
          (case core_run cw turns st of
             Inl e \<Rightarrow> None
           | Inr st' \<Rightarrow> (case core_shutdown st' h of Inl e \<Rightarrow> None | Inr h' \<Rightarrow> Some (0, h'))))"

section \<open>Cells that destroying empties\<close>

text \<open>A state with one reference for each of its \<open>n\<close> objects: gone when there is none.\<close>

definition holds_cell :: "nat \<Rightarrow> 'st cell \<Rightarrow> bool" where
  "holds_cell n c \<longleftrightarrow> (case c of Freed \<Rightarrow> n = 0 | Live refs _ \<Rightarrow> refs = n \<and> 0 < n)"

lemma holds_cell_0 [simp]: "holds_cell 0 c \<longleftrightarrow> c = Freed"
  by (simp add: holds_cell_def split: cell.split)

lemma holds_put_cell [simp]: "holds_cell n (put_cell c st) = holds_cell n c"
  by (simp add: holds_cell_def put_cell_def split: cell.split)

lemma destroy_one: "holds_cell (Suc n) c \<Longrightarrow> \<exists>c'. shared_destroy c = Inr c' \<and> holds_cell n c'"
  by (auto simp: holds_cell_def shared_destroy_def split: cell.splits)

text \<open>The table and the states agree.\<close>

definition full_held :: "core_held \<Rightarrow> bool" where
  "full_held h \<longleftrightarrow> holds_cell (count_list (he_objs h) Id_object) (he_id h)
     \<and> holds_cell (count_list (he_objs h) Time_object) (he_time h)
     \<and> holds_cell (count_list (he_objs h) Auth_object) (he_auth h) \<and> count_list (he_objs h) Auth_object \<le> 1
     \<and> holds_cell (count_list (he_objs h) Crypto_object) (he_crypto h)"

lemma count_replicate [simp]: "count_list (replicate n x) y = (if x = y then n else 0)"
  by (induction n) auto

lemma destroy_step:
  assumes "full_held h" "he_objs h = ob # obs"
  shows "\<exists>h'. destroy_object ob h = Inr h' \<and> full_held (h'\<lparr>he_objs := obs\<rparr>)
     \<and> (\<exists>i t a c. h' = h\<lparr>he_id := i, he_time := t, he_auth := a, he_crypto := c\<rparr>)"
proof (cases ob)
  case Id_object
  then obtain c where "shared_destroy (he_id h) = Inr c" "holds_cell (count_list obs Id_object) c"
    using assms destroy_one[of "count_list obs Id_object" "he_id h"] by (auto simp: full_held_def)
  then show ?thesis using assms Id_object
    by (intro exI[of _ "h\<lparr>he_id := c\<rparr>"]) (simp add: destroy_object_def full_held_def, cases h, auto)
next
  case Time_object
  then obtain c where "shared_destroy (he_time h) = Inr c" "holds_cell (count_list obs Time_object) c"
    using assms destroy_one[of "count_list obs Time_object" "he_time h"] by (auto simp: full_held_def)
  then show ?thesis using assms Time_object
    by (intro exI[of _ "h\<lparr>he_time := c\<rparr>"]) (simp add: destroy_object_def full_held_def, cases h, auto)
next
  case Auth_object
  then have "count_list obs Auth_object = 0" "he_auth h \<noteq> Freed"
    using assms by (auto simp: full_held_def holds_cell_def)
  then show ?thesis using assms Auth_object
    by (intro exI[of _ "h\<lparr>he_auth := Freed\<rparr>"])
      (simp add: destroy_object_def auth_destroy_def full_held_def split: cell.split, cases h, auto)
next
  case Crypto_object
  then obtain c where "shared_destroy (he_crypto h) = Inr c" "holds_cell (count_list obs Crypto_object) c"
    using assms destroy_one[of "count_list obs Crypto_object" "he_crypto h"] by (auto simp: full_held_def)
  then show ?thesis using assms Crypto_object
    by (intro exI[of _ "h\<lparr>he_crypto := c\<rparr>"]) (simp add: destroy_object_def full_held_def, cases h, auto)
qed

lemma destroy_table_full:
  "full_held h \<Longrightarrow> he_objs h = obs \<Longrightarrow> destroy_table obs h =
     Inr (h\<lparr>he_objs := [], he_id := Freed, he_time := Freed, he_auth := Freed, he_crypto := Freed\<rparr>)"
proof (induction obs arbitrary: h)
  case Nil
  then show ?case by (cases h) (simp add: full_held_def)
next
  case (Cons ob obs)
  obtain h' i t a c where h': "destroy_object ob h = Inr h'" "full_held (h'\<lparr>he_objs := obs\<rparr>)"
      "h' = h\<lparr>he_id := i, he_time := t, he_auth := a, he_crypto := c\<rparr>"
    using destroy_step[OF Cons.prems] by blast
  show ?case using Cons.IH[OF h'(2)] h'(1,3) by simp
qed

lemma core_destroy_full:
  "full_held h \<Longrightarrow> core_destroy h =
     Inr (h\<lparr>he_objs := [], he_id := Freed, he_time := Freed, he_auth := Freed, he_crypto := Freed\<rparr>)"
  by (simp add: core_destroy_def destroy_table_full)

lemma id_created:
  assumes "id_service_create psa files a alloc path mx = Inr (r, c)"
  shows "(r = None \<longrightarrow> c = Freed)
     \<and> (r \<noteq> None \<longrightarrow> (\<exists>p st. path = Some p \<and> load_identity psa files id_zero p = Some st
           \<and> c = Live ID_SERVICE_OBJECT_COUNT st \<and> r = Some ID_SERVICE_OBJECT_COUNT))"
proof (cases "path = None \<or> path = Some [] \<or> mx < ID_SERVICE_OBJECT_COUNT \<or> \<not> a
     \<or> load_identity psa files id_zero (the path) = None")
  case True
  then show ?thesis using assms by (auto simp: id_service_create_def split: if_splits)
next
  case False
  then obtain p st where "path = Some p" "load_identity psa files id_zero p = Some st"
    by (cases path; cases "load_identity psa files id_zero (the path)") simp_all
  moreover from this False have "create_objects alloc ID_SERVICE_OBJECT_COUNT 0 (Live 0 st) = Inr (r, c)"
    using assms by (simp add: id_service_create_def)
  ultimately show ?thesis by (auto simp: create_objects_outcome split: if_splits)
qed

lemma time_created:
  assumes "time_service_create a alloc mx = Inr (r, c)"
  shows "(r = None \<longrightarrow> c = Freed)
     \<and> (r \<noteq> None \<longrightarrow> c = Live TIME_SERVICE_OBJECT_COUNT time_zero \<and> r = Some TIME_SERVICE_OBJECT_COUNT)"
  using assms by (auto simp: time_service_create_def create_objects_outcome split: if_splits)

lemma crypto_created:
  assumes "crypto_service_create a alloc mx = Inr (r, c)"
  shows "(r = None \<longrightarrow> c = Freed)
     \<and> (r \<noteq> None \<longrightarrow> c = Live CRYPTO_SERVICE_OBJECT_COUNT crypto_initial_state \<and> r = Some CRYPTO_SERVICE_OBJECT_COUNT)"
  using assms by (auto simp: crypto_service_create_def create_objects_outcome split: if_splits)

text \<open>When memory suffices no service is created half.\<close>

definition memory_suffices :: "'l start_env \<Rightarrow> bool" where
  "memory_suffices se \<longleftrightarrow> se_auth_alloc se \<and> se_lua_alloc se
     \<and> (\<forall>j. snd (se_id_alloc se) j \<and> snd (se_time_alloc se) j \<and> snd (se_crypto_alloc se) j)"

lemma not_crashed:
  assumes "\<forall>j. alloc j"
  shows "id_service_create psa files a alloc path mx \<noteq> Inl e" "time_service_create a alloc mx \<noteq> Inl e"
    "crypto_service_create a alloc mx \<noteq> Inl e"
  using assms
  by (auto simp: id_service_create_def time_service_create_def crypto_service_create_def create_objects_outcome
      split: option.splits)

section \<open>Sockets over a run\<close>

text \<open>Beside the bus, the core opens one socket, to the manifest service.\<close>

definition inventory_sockets :: "core_inventory \<Rightarrow> nng \<Rightarrow> bool" where
  "inventory_sockets iv n \<longleftrightarrow>
     live n = {PubSock, SubSock} \<union> (if ci_mreg_open iv then {ReqSock} else {})
     \<and> (ci_mreg_open iv \<longrightarrow> mr_req (ci_mreg iv) \<and> \<not> mr_sub (ci_mreg iv))"

lemma open_registry_live:
  assumes "hes_mreg_open_registry url ms n = (rv, m, n')" "ReqSock \<notin> live n"
  shows "live n' = (if rv = 0 then insert ReqSock (live n) else live n) \<and> (rv = 0 \<longrightarrow> mr_req m \<and> \<not> mr_sub m)"
proof (cases "url = None \<or> url = Some []")
  case True
  then show ?thesis using assms(1) by (auto simp: hes_mreg_open_registry_def)
next
  case False
  then obtain u where u: "url = Some u" "u \<noteq> []" by (cases url) auto
  define t where "t = (if 0 < ms then ms else HES_MREG_REPLY_TIMEOUT_MS)"
  obtain rv1 n1 where o: "call (Open ReqSock) n = (rv1, n1)" by fastforce
  obtain rv2 n2 where d: "call (Dial ReqSock (the url)) (run (Recv_timeout ReqSock t) n1) = (rv2, n2)" by fastforce
  have "(rv, m, n') = (if rv1 \<noteq> 0 then (rv1, mreg_zero, n1)
      else if rv2 \<noteq> 0 then (- 1, mreg_zero, run (Close ReqSock) n2) else (0, mreg_zero\<lparr>mr_req := True\<rparr>, n2))"
    unfolding assms(1)[symmetric] hes_mreg_open_registry_def dial_once_def t_def[symmetric] using u o d by simp
  then show ?thesis
    using live_call[OF o] live_call[OF d] assms(2) by (auto simp: mreg_zero_def split: if_splits)
qed

lemma refresh_sockets:
  assumes "core_inventory_refresh ex js (iv, n) = (iv', n')" "inventory_sockets iv n"
  shows "inventory_sockets iv' n'"
proof -
  have keep: "inventory_sockets (iv\<lparr>ci_modules := ms, ci_have_modules := b\<rparr>) n = inventory_sockets iv n" for iv n ms b
    by (simp add: inventory_sockets_def)
  consider "ci_svc_rep_url iv = None \<or> ci_svc_rep_url iv = Some []"
    | u where "ci_svc_rep_url iv = Some u" "u \<noteq> []" "ci_mreg_open iv"
    | u where "ci_svc_rep_url iv = Some u" "u \<noteq> []" "\<not> ci_mreg_open iv"
    by (cases "ci_svc_rep_url iv") auto
  then show ?thesis
  proof cases
    case 1
    then show ?thesis using assms by (auto simp: core_inventory_refresh_def)
  next
    case 2
    then have "core_inventory_refresh ex js (iv, n) =
        (case hes_mreg_query_modules ex js of None \<Rightarrow> (iv, n)
         | Some ms \<Rightarrow> (iv\<lparr>ci_modules := ms, ci_have_modules := True\<rparr>, n))"
      by (simp add: core_inventory_refresh_def)
    then show ?thesis using assms by (cases "hes_mreg_query_modules ex js") (auto simp: keep)
  next
    case 3
    obtain rv m n1 where o: "hes_mreg_open_registry (ci_svc_rep_url iv) CORE_INVENTORY_TIMEOUT_MS n = (rv, m, n1)"
      by (rule prod_cases3)
    have "ReqSock \<notin> live n" using 3 assms(2) by (simp add: inventory_sockets_def)
    note l = open_registry_live[OF o this]
    let ?iv = "iv\<lparr>ci_mreg := m, ci_mreg_open := True\<rparr>"
    have r: "core_inventory_refresh ex js (iv, n) =
        (if rv \<noteq> 0 then (iv\<lparr>ci_mreg := m\<rparr>, n1)
         else case hes_mreg_query_modules ex js of None \<Rightarrow> (?iv, n1)
              | Some ms \<Rightarrow> (?iv\<lparr>ci_modules := ms, ci_have_modules := True\<rparr>, n1))"
      using 3 o by (simp add: core_inventory_refresh_def)
    show ?thesis
    proof (cases "rv = 0")
      case True
      then have "inventory_sockets ?iv n1" using l 3 assms(2) by (auto simp: inventory_sockets_def)
      then show ?thesis using r True assms(1) by (cases "hes_mreg_query_modules ex js") (auto simp: keep)
    next
      case False
      then show ?thesis using r l 3 assms by (auto simp: inventory_sockets_def)
    qed
  qed
qed

lemma turn_sockets:
  assumes "core_turn cw env st = Inr st'" "inventory_sockets (co_inv st) (co_nng st)"
  shows "inventory_sockets (co_inv st') (co_nng st')"
proof -
  have p: "co_inv s' = co_inv s \<and> co_nng s' = co_nng s" if "core_process cw env msg s = Inr s'" for msg s s'
    using that by (auto simp: core_process_def split: option.splits)
  have r: "co_inv (core_relay b msg s) = co_inv s \<and> co_nng (core_relay b msg s) = co_nng s" for b msg s
    by (simp add: core_relay_def set_bus_def)
  have set: "co_inv (set_services sv s) = co_inv s \<and> co_nng (set_services sv s) = co_nng s"
      "co_inv (set_bus b s) = co_inv s \<and> co_nng (set_bus b s) = co_nng s" for sv b s
    by (simp_all add: set_services_def set_bus_def)
  obtain s1 where s1: "core_receive cw env (core_offset env st) = Inr s1"
    using assms(1) by (auto simp: core_turn_def split: sum.splits)
  obtain s2 where s2: "core_feed cw env (core_tick env s1) = Inr s2"
    using assms(1) s1 by (auto simp: core_turn_def split: sum.splits)
  have st': "st' = core_refresh cw env (core_app_tick cw env s2)"
    using assms(1) s1 s2 by (simp add: core_turn_def)
  have off: "co_inv (core_offset env st) = co_inv st \<and> co_nng (core_offset env st) = co_nng st"
    by (simp add: core_offset_def set)
  have a: "co_inv s1 = co_inv st \<and> co_nng s1 = co_nng st"
  proof (cases "ev_recv env")
    case None
    then show ?thesis using s1 off by (simp add: core_receive_def)
  next
    case (Some msg)
    then obtain b bus sv where "core_process cw env msg
        (core_relay b msg (set_services sv (set_bus bus (core_offset env st)))) = Inr s1"
      using s1 by (auto simp: core_receive_def split: sum.splits dispatch_error.splits)
    from p[OF this] show ?thesis using off by (simp add: r set)
  qed
  have t: "co_inv (core_tick env s1) = co_inv s1 \<and> co_nng (core_tick env s1) = co_nng s1"
    by (simp add: core_tick_def set split: prod.split)
  have b: "co_inv s2 = co_inv s1 \<and> co_nng s2 = co_nng s1"
  proof (cases "ev_now env = co_last_feed (core_tick env s1)")
    case True
    then show ?thesis using s2 t by (simp add: core_feed_def)
  next
    case False
    then have "core_process cw env (self_event env (core_tick env s1)) ((core_tick env s1)\<lparr>co_last_feed := ev_now env\<rparr>) = Inr s2"
      using s2 by (simp add: core_feed_def)
    from p[OF this] show ?thesis using t by simp
  qed
  have c: "co_inv (core_app_tick cw env s2) = co_inv s2 \<and> co_nng (core_app_tick cw env s2) = co_nng s2"
    by (simp add: core_app_tick_def split: prod.split)
  obtain iv n where i: "core_inventory_refresh (ev_mreg env) (cw_json cw) (co_inv st, co_nng st) = (iv, n)" by fastforce
  show ?thesis
    unfolding st' core_refresh_def using a b c i assms(2) refresh_sockets[OF i assms(2)] by simp
qed

lemma run_sockets:
  assumes "core_run cw turns st = Inr st'" "inventory_sockets (co_inv st) (co_nng st)"
  shows "inventory_sockets (co_inv st') (co_nng st')"
  using assms by (induction turns arbitrary: st) (auto split: sum.splits dest: turn_sockets)

section \<open>Every way out\<close>

text \<open>What a finished run leaves.\<close>

definition nothing_held :: "core_held \<Rightarrow> bool" where
  "nothing_held h \<longleftrightarrow> h = holds_nothing (he_nng h) \<and> live (he_nng h) = {}"

lemma live_close: "live (hes_bus_close n) = live n - {PubSock, SubSock}"
  by (auto simp: hes_bus_close_def)

lemma refuse_holds_nothing:
  assumes "full_held h" "\<not> he_app h" "\<not> he_lua h" "live (he_nng h) = (if b then {PubSock, SubSock} else {})"
  shows "\<exists>h'. core_refuse b h = Refused h' \<and> nothing_held h'"
proof -
  have "full_held (h\<lparr>he_sync := None\<rparr>)" using assms(1) by (simp add: full_held_def)
  from core_destroy_full[OF this] show ?thesis
    using assms(2-4) by (auto simp: core_refuse_def nothing_held_def holds_nothing_def live_close)
qed

text \<open>What the start holds once it is up, and how it ends: a crash means that memory did not suffice.\<close>

definition holds_all :: "core_held \<Rightarrow> 'l core_state \<Rightarrow> bool" where
  "holds_all h st \<longleftrightarrow> full_held h \<and> he_app h \<and> he_lua h \<and> inventory_sockets (co_inv st) (co_nng st)"

definition start_ok :: "'l start_env \<Rightarrow> 'l core_result \<Rightarrow> bool" where
  "start_ok se r \<longleftrightarrow> (case r of Refused h \<Rightarrow> nothing_held h | Crashed \<Rightarrow> \<not> memory_suffices se
     | Started h st \<Rightarrow> holds_all h st)"

lemma start_ok_simps [simp]:
  "start_ok se (Refused h) = nothing_held h" "start_ok se Crashed = (\<not> memory_suffices se)"
  "start_ok se (Started h st) = holds_all h st"
  by (simp_all add: start_ok_def)

lemma refuse_ok:
  "full_held h \<Longrightarrow> \<not> he_app h \<Longrightarrow> \<not> he_lua h \<Longrightarrow> live (he_nng h) = (if b then {PubSock, SubSock} else {}) \<Longrightarrow>
     start_ok se (core_refuse b h)"
  by (metis refuse_holds_nothing start_ok_simps(1))

lemma assemble_outcome:
  assumes "full_held h" "\<not> he_app h" "\<not> he_lua h" "live (he_nng h) = {PubSock, SubSock}"
  shows "start_ok se (core_assemble cw cfg se l h)"
proof (cases "id_service_export_identity_key (cell_state (he_id h) id_zero)")
  case None
  then have "core_assemble cw cfg se l h = core_refuse True h" by (simp add: core_assemble_def)
  then show ?thesis using refuse_ok[OF assms(1-3), of True] assms(4) by simp
next
  case (Some p)
  obtain iv n where r: "core_inventory_refresh (ev_mreg (se_turn se)) (cw_json cw)
      (no_inventory (cc_manifest_rep_url cfg), he_nng h) = (iv, n)" by fastforce
  have "inventory_sockets (no_inventory (cc_manifest_rep_url cfg)) (he_nng h)"
    using assms(4) by (simp add: inventory_sockets_def no_inventory_def)
  from refresh_sockets[OF r this] have s: "inventory_sockets iv n" .
  have load: "co_inv (core_load_app cw se st) = co_inv st" "co_nng (core_load_app cw se st) = co_nng st" for st
    by (simp_all add: core_load_app_def split: prod.split)
  show ?thesis
    using Some r s assms(1)
    by (simp add: core_assemble_def holds_all_def full_held_def load memory_suffices_def Let_def split: prod.split)
qed

lemma crypto_stage_ok:
  assumes "full_held h" "Auth_object \<notin> set (he_objs h)" "Crypto_object \<notin> set (he_objs h)" "\<not> he_app h" "\<not> he_lua h"
    and "live (he_nng h) = {PubSock, SubSock}"
  shows "start_ok se (core_start_crypto cw cfg se l i h)"
proof (cases "crypto_service_create (fst (se_crypto_alloc se)) (snd (se_crypto_alloc se)) (CORE_MAX_SERVICE_OBJECTS - i)")
  case (Inl e)
  then have "\<not> memory_suffices se" using not_crashed(3)[of "snd (se_crypto_alloc se)"] by (metis memory_suffices_def)
  then show ?thesis using Inl by (cases e) (simp add: core_start_crypto_def Let_def)
next
  case (Inr rc)
  obtain r c where rc: "rc = (r, c)" by fastforce
  note made = crypto_created[OF Inr[unfolded rc]]
  have none: "count_list (he_objs h) Auth_object = 0" "count_list (he_objs h) Crypto_object = 0"
    using assms(2,3) by (simp_all add: count_list_0_iff)
  let ?h = "h\<lparr>he_auth := Live 1 (auth_service_create (se_files se) (cc_auth_policy cfg)), he_objs := he_objs h @ [Auth_object]\<rparr>"
  show ?thesis
  proof (cases "se_auth_alloc se")
    case False
    then show ?thesis by (simp add: core_start_crypto_def memory_suffices_def)
  next
    case auth: True
    show ?thesis
    proof (cases r)
      case None
      then have "full_held (?h\<lparr>he_crypto := c\<rparr>)"
        using assms(1) made none by (simp add: full_held_def holds_cell_def)
      from refuse_ok[OF this, of True se] show ?thesis
        using Inr rc None auth assms(4-6) by (simp add: core_start_crypto_def)
    next
      case (Some k)
      then have "full_held (?h\<lparr>he_crypto := c, he_objs := he_objs ?h @ replicate k Crypto_object\<rparr>)"
        using assms(1) made none by (simp add: full_held_def holds_cell_def)
      from assemble_outcome[OF this, of se cw cfg l] show ?thesis
        using Inr rc Some auth assms(4-6) by (simp add: core_start_crypto_def)
    qed
  qed
qed

lemma time_stage_ok:
  assumes "full_held h" "set (he_objs h) \<subseteq> {Id_object}" "\<not> he_app h" "\<not> he_lua h" "live (he_nng h) = {PubSock, SubSock}"
  shows "start_ok se (core_start_time cw cfg se l n_objs h)"
proof (cases "time_service_create (fst (se_time_alloc se)) (snd (se_time_alloc se)) (CORE_MAX_SERVICE_OBJECTS - n_objs)")
  case (Inl e)
  then have "\<not> memory_suffices se" using not_crashed(2)[of "snd (se_time_alloc se)"] by (metis memory_suffices_def)
  then show ?thesis using Inl by (cases e) (simp add: core_start_time_def Let_def)
next
  case (Inr rc)
  obtain r c where rc: "rc = (r, c)" by fastforce
  note made = time_created[OF Inr[unfolded rc]]
  have none: "count_list (he_objs h) Time_object = 0" using assms(2) by (auto simp: count_list_0_iff)
  let ?h = "h\<lparr>he_sync := time_sync_start (se_sync_alloc se) (se_sync_thread se) (core_sync_config cfg) (se_tz se)\<rparr>"
  show ?thesis
  proof (cases r)
    case None
    then have "full_held (?h\<lparr>he_time := c\<rparr>)" using assms(1) made none by (simp add: full_held_def holds_cell_def)
    from refuse_ok[OF this, of True se] show ?thesis
      using Inr rc None assms(3-5) by (simp add: core_start_time_def)
  next
    case (Some k)
    then have "full_held (?h\<lparr>he_time := c, he_objs := he_objs h @ replicate k Time_object\<rparr>)"
      using assms(1) made none by (simp add: full_held_def holds_cell_def)
    from crypto_stage_ok[OF this, of se cw cfg l "n_objs + k + 1"] show ?thesis
      using Inr rc Some assms(2-5) by (auto simp: core_start_time_def)
  qed
qed

lemma start_outcome:
  assumes "live (se_nng se) = {}"
  shows "start_ok se (core_start cw cfg se l)"
proof (cases "id_service_create (cw_psa cw) (se_files se) (fst (se_id_alloc se)) (snd (se_id_alloc se))
    (cc_identity_path cfg) CORE_MAX_SERVICE_OBJECTS")
  case (Inl e)
  then have "\<not> memory_suffices se" using not_crashed(1)[of "snd (se_id_alloc se)"] by (metis memory_suffices_def)
  then show ?thesis using Inl by (cases e) (simp add: core_start_def Let_def)
next
  case (Inr rc)
  obtain r c where rc: "rc = (r, c)" by fastforce
  note id = id_created[OF Inr[unfolded rc]]
  obtain rv n where hub: "hes_bus_hub_open (cc_pub_url cfg) (cc_sub_url cfg) (se_nng se) = (rv, n)" by fastforce
  have lv: "live n = (if rv = 0 then {PubSock, SubSock} else {})"
    using hub_open_live[OF assms, of "cc_pub_url cfg" "cc_sub_url cfg"] hub by (simp add: all_or_none_def)
  show ?thesis
  proof (cases r)
    case None
    then show ?thesis using Inr rc id assms by (simp add: core_start_def nothing_held_def holds_nothing_def Let_def)
  next
    case (Some k)
    let ?h = "holds_nothing n\<lparr>he_id := c, he_objs := replicate k Id_object\<rparr>"
    have h: "full_held ?h" "set (he_objs ?h) \<subseteq> {Id_object}" "\<not> he_app ?h" "\<not> he_lua ?h" "he_nng ?h = n"
      using id Some by (auto simp: full_held_def holds_cell_def holds_nothing_def)
    have "core_start cw cfg se l = (if rv \<noteq> 0 then core_refuse False ?h else core_start_time cw cfg se l k ?h)"
      using Inr rc Some hub by (simp add: core_start_def holds_nothing_def Let_def)
    then show ?thesis
      using refuse_ok[OF h(1,3,4), of False se] time_stage_ok[OF h(1-4), of se cw cfg l k] lv h(5) by simp
  qed
qed

lemma shutdown_leaves_nothing:
  assumes "holds_all h st0" "inventory_sockets (co_inv st) (co_nng st)"
  shows "\<exists>h'. core_shutdown st h = Inr h' \<and> nothing_held h'"
proof -
  define n where "n = (if ci_mreg_open (co_inv st) then hes_mreg_close (ci_mreg (co_inv st)) (co_nng st) else co_nng st)"
  have "live n \<subseteq> {PubSock, SubSock}"
    using assms(2) unfolding n_def inventory_sockets_def hes_mreg_close_def by (cases "ci_mreg_open (co_inv st)") auto
  then have "live (hes_bus_close n) = {}" by (auto simp: live_close)
  moreover have "full_held (app_lua_destroy h)" "\<not> he_app (app_lua_destroy h)" "\<not> he_lua (app_lua_destroy h)"
    using assms(1) by (simp_all add: holds_all_def app_lua_destroy_def full_held_def)
  ultimately show ?thesis
    using core_destroy_full[of "app_lua_destroy h"]
    by (simp add: core_shutdown_def n_def[symmetric] nothing_held_def holds_nothing_def)
qed

text \<open>C12: Every way out of the core gives everything back: whether it refused to start, for whatever reason and
  at whatever point, or ran any number of turns and was stopped, no socket stays open, the state of every
  service, the authorization tables among them, has been freed exactly once, and so has the block of every
  object of the table, the app's block and its Lua state, and the sync thread has been joined. There is no
  other way out: \<open>core_main\<close> has no result only when the start crashed, which it does for want of memory
  alone, or when a turn did (it overran the router's buffer, or an evaluation did not end).\<close>

theorem core_leaves_nothing:
  assumes "live (se_nng se) = {}"
  shows "(case core_main cw cfg se l turns of
            Some (code, h) \<Rightarrow> nothing_held h
          | None \<Rightarrow> core_start cw cfg se l = Crashed \<and> \<not> memory_suffices se
                  \<or> (\<exists>h st e. core_start cw cfg se l = Started h st \<and> core_run cw turns st = Inl e))"
proof (cases "core_start cw cfg se l")
  case (Refused h')
  then show ?thesis using start_outcome[OF assms, of cw cfg l] by (simp add: core_main_def)
next
  case Crashed
  then show ?thesis using start_outcome[OF assms, of cw cfg l] by (simp add: core_main_def)
next
  case (Started h0 st)
  then have held: "holds_all h0 st" using start_outcome[OF assms, of cw cfg l] by simp
  show ?thesis
  proof (cases "core_run cw turns st")
    case (Inl e)
    then show ?thesis using Started by (simp add: core_main_def)
  next
    case (Inr st')
    have "inventory_sockets (co_inv st') (co_nng st')"
      using run_sockets[OF Inr] held by (simp add: holds_all_def)
    then obtain h' where "core_shutdown st' h0 = Inr h'" "nothing_held h'"
      using shutdown_leaves_nothing[OF held] by blast
    then show ?thesis using Started Inr by (simp add: core_main_def)
  qed
qed

section \<open>What runs is what was configured\<close>

lemma not_created: "\<not> (\<exists>n c. x = Inr (Some n, c)) \<Longrightarrow> x = Inl UseAfterFree \<or> (\<exists>c. x = Inr (None, c))"
  for x :: "heap_error + (nat option \<times> 'st cell)"
  by (cases x; cases "fst (projr x)"; cases "projl x"; cases "projr x") auto

lemma started_by:
  assumes "core_start cw cfg se l = Started h st"
  obtains path id0 h0 where "cc_identity_path cfg = Some path" "load_identity (cw_psa cw) (se_files se) id_zero path = Some id0"
    "he_id h0 = Live ID_SERVICE_OBJECT_COUNT id0" "he_crypto h0 = Live CRYPTO_SERVICE_OBJECT_COUNT crypto_initial_state"
    "he_auth h0 = Live 1 (auth_service_create (se_files se) (cc_auth_policy cfg))"
    "core_assemble cw cfg se l h0 = Started h st"
proof -
  have nr: "core_refuse b k \<noteq> Started h st" for b k
    by (auto simp: core_refuse_def split: sum.splits heap_error.splits)
  let ?id = "id_service_create (cw_psa cw) (se_files se) (fst (se_id_alloc se)) (snd (se_id_alloc se))
    (cc_identity_path cfg) CORE_MAX_SERVICE_OBJECTS"
  obtain n_objs c where id: "?id = Inr (Some n_objs, c)"
    using assms by (auto simp: core_start_def core_start_time_def core_start_crypto_def Let_def split: sum.splits heap_error.splits option.splits)
  from id_created[OF id] obtain path id0 where p: "cc_identity_path cfg = Some path"
      "load_identity (cw_psa cw) (se_files se) id_zero path = Some id0" "c = Live ID_SERVICE_OBJECT_COUNT id0" by auto
  obtain rv n where hub: "hes_bus_hub_open (cc_pub_url cfg) (cc_sub_url cfg) (se_nng se) = (rv, n)" by fastforce
  have rv: "rv = 0" using assms id hub nr by (auto simp: core_start_def core_start_time_def core_start_crypto_def Let_def split: if_splits)
  let ?tm = "time_service_create (fst (se_time_alloc se)) (snd (se_time_alloc se)) (CORE_MAX_SERVICE_OBJECTS - n_objs)"
  have "\<exists>time_objs t. ?tm = Inr (Some time_objs, t)"
  proof (rule ccontr)
    assume no: "\<not> ?thesis"
    then have "?tm = Inl UseAfterFree \<or> (\<exists>t. ?tm = Inr (None, t))" by (rule not_created)
    then show False using assms id hub rv nr by (auto simp: core_start_def core_start_time_def core_start_crypto_def Let_def)
  qed
  then obtain time_objs t where tm: "?tm = Inr (Some time_objs, t)" by blast
  have au: "se_auth_alloc se" using assms id hub rv tm by (auto simp: core_start_def core_start_time_def core_start_crypto_def Let_def split: if_splits)
  let ?cr = "crypto_service_create (fst (se_crypto_alloc se)) (snd (se_crypto_alloc se))
     (CORE_MAX_SERVICE_OBJECTS - (n_objs + time_objs + 1))"
  have "\<exists>m k. ?cr = Inr (Some m, k)"
  proof (rule ccontr)
    assume no: "\<not> ?thesis"
    then have "?cr = Inl UseAfterFree \<or> (\<exists>k. ?cr = Inr (None, k))" by (rule not_created)
    then show False using assms id hub rv tm au nr by (auto simp: core_start_def core_start_time_def core_start_crypto_def Let_def)
  qed
  then obtain m k where cr: "?cr = Inr (Some m, k)" by blast
  let ?h = "\<lparr>he_objs = replicate n_objs Id_object @ replicate time_objs Time_object @ Auth_object # replicate m Crypto_object,
     he_id = c, he_time = t, he_auth = Live 1 (auth_service_create (se_files se) (cc_auth_policy cfg)), he_crypto = k,
     he_sync = time_sync_start (se_sync_alloc se) (se_sync_thread se) (core_sync_config cfg) (se_tz se),
     he_app = False, he_lua = False, he_nng = n\<rparr>"
  have "core_assemble cw cfg se l ?h = Started h st"
    using assms id hub rv tm au cr
    by (simp add: core_start_def core_start_time_def core_start_crypto_def holds_nothing_def Let_def)
  with that[of path id0 ?h] p crypto_created[OF cr] show thesis by simp
qed

lemma at_of_same_rows:
  assumes "map static_part (bm_ops bm') = map static_part (bm_ops bm)"
  shows "bm_at_of bm' a = bm_at_of bm a"
proof -
  let ?P = "\<lambda>op. bm_at_address op HES_PATH_MAX = a"
  have p: "?P \<circ> static_part = ?P" by (simp add: fun_eq_iff bm_at_address_def static_part_def)
  have "bm_at_of b a = map_option (\<lambda>i. op_out_author_type (map static_part (bm_ops b) ! i))
      (first_index ?P (map static_part (bm_ops b)))" for b
    unfolding bm_at_of_def first_index_map p
    by (cases "first_index ?P (bm_ops b)") (auto dest!: first_index_Some simp: static_part_def)
  from this[of bm'] this[of bm] assms show ?thesis by simp
qed

lemma propagate_disabled:
  "bm_authz_disabled (fst (auth_service_propagate st bm_set_at bm)) = bm_authz_disabled bm"
proof -
  have "bm_authz_disabled (fst (fold (write_permission bm_set_at) ps (bm, k))) = bm_authz_disabled bm" for ps k
  proof (induction ps arbitrary: bm k)
    case (Cons p ps)
    have "bm_authz_disabled (fst (write_permission bm_set_at p (bm, k))) = bm_authz_disabled bm"
      by (auto simp: write_permission_def bm_set_at_def split: option.splits)
    then show ?case using Cons.IH[of "fst (write_permission bm_set_at p (bm, k))" "snd (write_permission bm_set_at p (bm, k))"]
      by simp
  qed simp
  then show ?thesis by (simp add: propagate_fold)
qed

definition configured_map :: "'l start_env \<Rightarrow> core_config \<Rightarrow> binding_map" where
  "configured_map se cfg =
     (case bm_load_xml (se_xpath se) (se_xml se) bm_init (cc_bm_xml cfg) of Some bm \<Rightarrow> bm | None \<Rightarrow> bm_init)"

lemma configured_enabled: "\<not> bm_authz_disabled (configured_map se cfg)"
proof (cases "bm_load_xml (se_xpath se) (se_xml se) bm_init (cc_bm_xml cfg)")
  case None
  then show ?thesis by (simp add: configured_map_def bm_init_def)
next
  case (Some bm)
  have "bm\<lparr>bm_ops := [], bm_addrs := []\<rparr> = bm_init" by (rule load_xml_tables[OF Some])
  then have "bm_authz_disabled bm = bm_authz_disabled bm_init" by (metis binding_map.select_convs(5) binding_map.update_convs(1,2) binding_map.surjective)
  then show ?thesis using Some by (simp add: configured_map_def bm_init_def)
qed

lemma assembled:
  assumes "core_assemble cw cfg se l h0 = Started h st" "he_id h0 = Live n id0"
    and "he_crypto h0 = Live m crypto_initial_state"
    and "he_auth h0 = Live 1 (auth_service_create (se_files se) (cc_auth_policy cfg))"
  shows "s_bm (co_map st) = core_load_map se cfg (sv_auth (co_services st))
     \<and> sv_auth (co_services st) = auth_service_create (se_files se) (cc_auth_policy cfg)
     \<and> is_have_identity_key id0
     \<and> sv_id (co_services st) = id0\<lparr>is_identity_scalar := replicate 32 0, is_have_identity_key := False\<rparr>
     \<and> sv_crypto (co_services st) = crypto_service_set_identity_key crypto_initial_state (is_identity_scalar id0)"
proof -
  have load: "s_bm (co_map (core_load_app cw se s)) = s_bm (co_map s)"
      "co_services (core_load_app cw se s) = co_services s" for s
  proof -
    obtain l' sv ms where r: "run_script (ev_send_ok (se_turn se)) (state_objs cw (se_turn se) s) (se_script se)
        (co_services s) = (l', sv, ms)" by (rule prod_cases3)
    from script_read_only[OF state_objs_read_only r] r
    show "s_bm (co_map (core_load_app cw se s)) = s_bm (co_map s)"
      "co_services (core_load_app cw se s) = co_services s" by (simp_all add: core_load_app_def)
  qed
  show ?thesis
    using assms
    by (auto simp: core_assemble_def id_service_export_identity_key_def cell_state_def core_refuse_def load Let_def
        split: if_splits prod.splits sum.splits heap_error.splits)
qed

lemma configured_run:
  assumes "core_start cw cfg se l = Started h st0" "core_run cw turns st0 = Inr st"
  defines "policy \<equiv> auth_service_create (se_files se) (cc_auth_policy cfg)"
  shows "sv_auth (co_services st) = policy
     \<and> bm_authz_disabled (s_bm (co_map st)) = cc_no_authz cfg
     \<and> bm_at_of (s_bm (co_map st)) addr =
          (case bm_at_of (configured_map se cfg) addr of
             None \<Rightarrow> None
           | Some old \<Rightarrow> Some (case governing (all_permissions policy) addr of None \<Rightarrow> old | Some v \<Rightarrow> hes_strlcpy 4 v))
     \<and> (\<exists>path id0. cc_identity_path cfg = Some path
          \<and> load_identity (cw_psa cw) (se_files se) id_zero path = Some id0
          \<and> is_unique_public_id (sv_id (co_services st)) = is_unique_public_id id0
          \<and> is_identity_scalar (sv_id (co_services st)) = replicate 32 0
          \<and> sv_crypto (co_services st) = crypto_service_set_identity_key crypto_initial_state (is_identity_scalar id0))"
proof -
  obtain path id0 h0 where b: "cc_identity_path cfg = Some path"
      "load_identity (cw_psa cw) (se_files se) id_zero path = Some id0"
      "he_id h0 = Live ID_SERVICE_OBJECT_COUNT id0" "he_crypto h0 = Live CRYPTO_SERVICE_OBJECT_COUNT crypto_initial_state"
      "he_auth h0 = Live 1 (auth_service_create (se_files se) (cc_auth_policy cfg))"
      "core_assemble cw cfg se l h0 = Started h st0"
    by (rule started_by[OF assms(1)])
  note a = assembled[OF b(6,3,4,5)]
  have same: "same_decisions st0 st" by (rule run_same_decisions[OF assms(2)])
  have map: "s_bm (co_map st0) = fst (auth_service_propagate policy bm_set_at
      (if cc_no_authz cfg then bm_disable_authorization (configured_map se cfg) else configured_map se cfg))"
    using a by (simp add: core_load_map_def configured_map_def policy_def core_write_at_def[abs_def] Let_def)
  have dis: "bm_at_of (bm_disable_authorization bm) addr = bm_at_of bm addr" for bm
    by (simp add: bm_at_of_def bm_disable_authorization_def)
  have "bm_at_of (s_bm (co_map st)) addr = bm_at_of (s_bm (co_map st0)) addr"
    using same by (intro at_of_same_rows) (simp add: same_decisions_def)
  then have at: "bm_at_of (s_bm (co_map st)) addr =
          (case bm_at_of (configured_map se cfg) addr of
             None \<Rightarrow> None
           | Some old \<Rightarrow> Some (case governing (all_permissions policy) addr of None \<Rightarrow> old | Some v \<Rightarrow> hes_strlcpy 4 v))"
    unfolding map propagate_at by (simp add: dis)
  have "bm_authz_disabled (s_bm (co_map st0)) = cc_no_authz cfg"
    unfolding map propagate_disabled using configured_enabled[of se cfg] by (simp add: bm_disable_authorization_def)
  then have off: "bm_authz_disabled (s_bm (co_map st)) = cc_no_authz cfg"
    using same by (simp add: same_decisions_def)
  have sv: "sv_auth (co_services st) = sv_auth (co_services st0)" "sv_id (co_services st) = sv_id (co_services st0)"
      "sv_crypto (co_services st) = sv_crypto (co_services st0)"
    using same by (simp_all add: same_decisions_def)
  show ?thesis
    unfolding sv using a b(1,2) off at by (simp add: policy_def)
qed

text \<open>C11: What runs is what was configured, for as long as it runs. After a start and any number of turns, with
  whatever messages and scripts, authorization is decided by the policy of the document; the rows
  carry the authorization types that policy prescribes, over those of the map's document; the gates
  are open only if the operator switched them off; and the private key of the identity document is
  held by the cryptographic service alone.\<close>

theorem gateway_as_configured:
  assumes "core_start cw cfg se l = Started h st0" "core_run cw turns st0 = Inr st"
  defines "policy \<equiv> auth_service_create (se_files se) (cc_auth_policy cfg)"
  shows "sv_auth (co_services st) = policy
     \<and> bm_authz_disabled (s_bm (co_map st)) = cc_no_authz cfg
     \<and> bm_at_of (s_bm (co_map st)) addr =
          (case bm_at_of (configured_map se cfg) addr of
             None \<Rightarrow> None
           | Some old \<Rightarrow> Some (case governing (all_permissions policy) addr of None \<Rightarrow> old | Some v \<Rightarrow> hes_strlcpy 4 v))
     \<and> (\<exists>path id0. cc_identity_path cfg = Some path
          \<and> load_identity (cw_psa cw) (se_files se) id_zero path = Some id0
          \<and> is_unique_public_id (sv_id (co_services st)) = is_unique_public_id id0
          \<and> is_identity_scalar (sv_id (co_services st)) = replicate 32 0
          \<and> sv_crypto (co_services st) = crypto_service_set_identity_key crypto_initial_state (is_identity_scalar id0))"
  using configured_run[OF assms(1,2)] unfolding policy_def .

section \<open>A gateway that starts\<close>

definition plain_config :: core_config where
  "plain_config =
     \<lparr>cc_pub_url = ''ipc:///pub'', cc_sub_url = ''ipc:///sub'', cc_bm_xml = ''bm.xml'', cc_auth_policy = None,
      cc_no_authz = False, cc_identity_path = Some ''id.json'', cc_manifest_rep_url = None, cc_ntp_servers = None,
      cc_tz_name = None, cc_tz_urls = None, cc_ntp_enabled = False, cc_tz_enabled = False\<rparr>"

definition plain_start :: "unit start_env" where
  "plain_start =
     \<lparr>se_nng = \<lparr>nn_calls = [], nn_results = (\<lambda>_. 0)\<rparr>, se_bus = sample_bus, se_files = sample_identity,
      se_xpath = tree_xpath, se_xml = (\<lambda>_. None), se_id_alloc = (True, \<lambda>_. True), se_time_alloc = (True, \<lambda>_. True),
      se_auth_alloc = True, se_crypto_alloc = (True, \<lambda>_. True), se_lua_alloc = True, se_sync_alloc = True,
      se_sync_thread = True, se_tz = None, se_turn = sample_turn None, se_script = Return ()\<rparr>"

lemma plain_starts: "\<exists>h st. core_start sample_cw plain_config plain_start () = Started h st"
proof -
  obtain id0 where id0: "load_identity toy_psa sample_identity id_zero ''id.json'' = Some id0"
    using sample_identity_loads by blast
  have key: "is_have_identity_key id0" by (rule load_identity_key[OF id0])
  show ?thesis
    using id0 key
    by (simp add: core_start_def core_start_time_def core_start_crypto_def plain_config_def plain_start_def sample_cw_def id_service_create_def time_service_create_def
        crypto_service_create_def create_objects_outcome hes_bus_hub_open_def call_def run_def core_assemble_def
        cell_state_def id_service_export_identity_key_def Let_def split: prod.split)
qed

theorem gateway_as_configured_witness:
  "\<exists>h st id0. core_start sample_cw plain_config plain_start () = Started h st
     \<and> load_identity toy_psa sample_identity id_zero ''id.json'' = Some id0
     \<and> cs_identity_scalar (sv_crypto (co_services st)) = is_identity_scalar id0
     \<and> is_identity_scalar (sv_id (co_services st)) = replicate 32 0"
proof -
  obtain h st where s: "core_start sample_cw plain_config plain_start () = Started h st"
    using plain_starts by blast
  have "core_run sample_cw [] st = Inr st" by simp
  from gateway_as_configured[OF s this] obtain path id0 where
      "cc_identity_path plain_config = Some path"
      "load_identity (cw_psa sample_cw) (se_files plain_start) id_zero path = Some id0"
      "is_identity_scalar (sv_id (co_services st)) = replicate 32 0"
      "sv_crypto (co_services st) = crypto_service_set_identity_key crypto_initial_state (is_identity_scalar id0)"
    by blast
  then show ?thesis
    using s by (simp add: plain_config_def sample_cw_def plain_start_def crypto_service_set_identity_key_def)
qed

theorem core_leaves_nothing_witness:
  "\<exists>h. core_main sample_cw plain_config plain_start () [] = Some (0, h) \<and> nothing_held h"
proof -
  have l: "live (se_nng plain_start) = {}" by (simp add: plain_start_def live_def)
  obtain h st where s: "core_start sample_cw plain_config plain_start () = Started h st"
    using plain_starts by blast
  then have "holds_all h st" using start_outcome[OF l, of sample_cw plain_config "()"] by simp
  then obtain h' where "core_main sample_cw plain_config plain_start () [] = Some (0, h')"
    using s shutdown_leaves_nothing[of h st st] by (auto simp: core_main_def holds_all_def)
  then show ?thesis using core_leaves_nothing[OF l, of sample_cw plain_config "()" "[]"] by simp
qed

end
