(* ===== verification/Wiz.thy ===== *)
theory Wiz
  imports Json HesCommon
begin

text \<open>
  The UDP client of a WiZ bulb (src/src/han/wifi/wiz_client.c): one request out, and the reply that
  belongs to it back.

  The network is an argument. For every exchange it is a record \<open>wiz_net\<close>: the datagrams queued
  when the exchange starts, whether each send is taken, and what each blocking receive finds within
  its time. What the client puts on the wire is kept, in order, in the record \<open>wiz_io\<close>. Log lines
  and the round-trip time they print are left out.
\<close>

abbreviation MAX_PACKET_BUF_SIZE :: nat where "MAX_PACKET_BUF_SIZE \<equiv> 512"
abbreviation WIZ_MAX_IGNORED_REPLIES :: nat where "WIZ_MAX_IGNORED_REPLIES \<equiv> 4"
abbreviation WIZ_SEND_ATTEMPTS :: nat where "WIZ_SEND_ATTEMPTS \<equiv> 2"

record wiz_client =
  wc_ip :: string
  wc_port :: int

text \<open>\<open>Expired\<close> is a receive that ends with \<open>EWOULDBLOCK\<close>, \<open>Broken\<close> one that fails otherwise.\<close>

datatype received = Datagram string | Expired | Broken

record wiz_net =
  wn_queued :: "string list"
  wn_send :: "nat \<Rightarrow> bool"
  wn_recv :: "nat \<Rightarrow> received"

record wiz_io =
  io_net :: "nat \<Rightarrow> wiz_net"
  io_exchanges :: nat
  io_sent :: "(string \<times> 16 word \<times> string) list"

section \<open>Addresses\<close>

text \<open>\<open>inet_pton(AF_INET, ..)\<close>: four decimal numbers up to 255, without leading zeros, joined by
  dots.\<close>

definition is_octet :: "string \<Rightarrow> bool" where
  "is_octet s \<longleftrightarrow> s \<noteq> [] \<and> length s \<le> 3 \<and> list_all c_isdigit s \<and> (hd s = CHR ''0'' \<longrightarrow> s = ''0'')
     \<and> digits_val s \<le> 255"

fun octets :: "nat \<Rightarrow> string \<Rightarrow> bool" where
  "octets 0 s \<longleftrightarrow> False"
| "octets (Suc 0) s \<longleftrightarrow> is_octet s"
| "octets (Suc (Suc n)) s \<longleftrightarrow>
     (let p = takeWhile (\<lambda>c. c \<noteq> CHR ''.'') s; r = dropWhile (\<lambda>c. c \<noteq> CHR ''.'') s
      in is_octet p \<and> r \<noteq> [] \<and> octets (Suc n) (tl r))"

definition inet_pton4 :: "string \<Rightarrow> bool" where
  "inet_pton4 ip \<longleftrightarrow> octets 4 ip"

section \<open>One exchange\<close>

definition reply_is_answer :: "(string \<Rightarrow> json option) \<Rightarrow> string \<Rightarrow> string \<Rightarrow> bool" where
  "reply_is_answer json_loads resp meth =
     (case json_loads resp of
        None \<Rightarrow> True
      | Some doc \<Rightarrow>
          (case json_string (json_object_get doc ''method'') of None \<Rightarrow> True | Some m \<Rightarrow> m = meth))"

text \<open>Draining takes datagrams until the queue is empty, or until one that is empty itself. What is left
  comes before whatever arrives later.\<close>

fun drop_stale :: "string list \<Rightarrow> string list" where
  "drop_stale [] = []"
| "drop_stale (d # q) = (if d = [] then q else drop_stale q)"

definition next_datagram :: "string list \<Rightarrow> (nat \<Rightarrow> received) \<Rightarrow> nat \<Rightarrow> received" where
  "next_datagram left recv n = (if n < length left then Datagram (left ! n) else recv (n - length left))"

datatype waited = Answer string | Timed_out | Given_up

text \<open>The receive loop of one attempt, from the \<open>n\<close>-th receive on; the numbers of receives and of
  ignored replies go on over the attempts.\<close>

function wiz_wait ::
    "(string \<Rightarrow> json option) \<Rightarrow> (nat \<Rightarrow> received) \<Rightarrow> string \<Rightarrow> nat \<Rightarrow> nat \<Rightarrow> nat \<Rightarrow> waited \<times> nat \<times> nat" where
  "wiz_wait json_loads recv meth resp_sz n ignored =
     (case recv n of
        Broken \<Rightarrow> (Given_up, Suc n, ignored)
      | Expired \<Rightarrow> (Timed_out, Suc n, ignored)
      | Datagram d \<Rightarrow>
          (let resp = c_string (take (resp_sz - 1) d)
           in if reply_is_answer json_loads resp meth then (Answer resp, Suc n, ignored)
              else if Suc ignored > WIZ_MAX_IGNORED_REPLIES then (Given_up, Suc n, Suc ignored)
              else wiz_wait json_loads recv meth resp_sz (Suc n) (Suc ignored)))"
  by pat_completeness auto
termination
  by (relation "measure (\<lambda>(_, _, _, _, _, ignored). Suc WIZ_MAX_IGNORED_REPLIES - ignored)") auto

declare wiz_wait.simps [simp del]

text \<open>The attempts left; \<open>sends\<close> are the requests put on the wire.\<close>

fun wiz_attempts ::
    "nat \<Rightarrow> (string \<Rightarrow> json option) \<Rightarrow> (nat \<Rightarrow> bool) \<Rightarrow> (nat \<Rightarrow> received) \<Rightarrow> string \<Rightarrow> nat \<Rightarrow> nat \<Rightarrow> nat \<Rightarrow> nat
      \<Rightarrow> string option \<times> nat" where
  "wiz_attempts 0 json_loads send recv meth resp_sz sends n ignored = (None, sends)"
| "wiz_attempts (Suc k) json_loads send recv meth resp_sz sends n ignored =
     (if \<not> send sends then (None, sends)
      else
        case wiz_wait json_loads recv meth resp_sz n ignored of
          (Answer resp, _, _) \<Rightarrow> (Some resp, Suc sends)
        | (Given_up, _, _) \<Rightarrow> (None, Suc sends)
        | (Timed_out, n, ignored) \<Rightarrow> wiz_attempts k json_loads send recv meth resp_sz (Suc sends) n ignored)"

definition wiz_send_recv ::
    "(string \<Rightarrow> json option) \<Rightarrow> wiz_client \<Rightarrow> string \<Rightarrow> string \<Rightarrow> nat \<Rightarrow> wiz_io \<Rightarrow> string option \<times> wiz_io" where
  "wiz_send_recv json_loads c meth req resp_sz io =
     (if \<not> inet_pton4 (wc_ip c) then (None, io)
      else
        let net = io_net io (io_exchanges io);
            recv = next_datagram (drop_stale (wn_queued net)) (wn_recv net);
            (resp, sends) = wiz_attempts WIZ_SEND_ATTEMPTS json_loads (wn_send net) recv meth resp_sz 0 0 0
        in (resp, io\<lparr>io_exchanges := Suc (io_exchanges io),
                     io_sent := io_sent io @ replicate sends (wc_ip c, word_of_int (wc_port c), req)\<rparr>))"

section \<open>Replies\<close>

definition reply_field :: "json \<Rightarrow> string \<Rightarrow> json option" where
  "reply_field doc key =
     (case json_object_get doc ''result'' of
        Some result \<Rightarrow>
          (if json_is_object result
           then (case json_object_get result key of Some v \<Rightarrow> Some v | None \<Rightarrow> json_object_get doc key)
           else json_object_get doc key)
      | None \<Rightarrow> json_object_get doc key)"

definition clamp255 :: "int \<Rightarrow> int" where
  "clamp255 v = (if v < 0 then 0 else if v > 255 then 255 else v)"

definition clamp100 :: "int \<Rightarrow> int" where
  "clamp100 v = (if v < 0 then 0 else if v > 100 then 100 else v)"

text \<open>The three channels, when the reply has them as numbers.\<close>

definition reply_rgb :: "json \<Rightarrow> (int \<times> int \<times> int) option" where
  "reply_rgb doc =
     (case (json_number (reply_field doc ''r''), json_number (reply_field doc ''g''), json_number (reply_field doc ''b'')) of
        (Some r, Some g, Some b) \<Rightarrow> Some (d_to_int r, d_to_int g, d_to_int b)
      | _ \<Rightarrow> None)"

text \<open>The peak channel as a percentage. The product overflows an \<open>int\<close> for a channel a bulb never
  sends; it is the wrapped one here.\<close>

definition peak_percent :: "int \<times> int \<times> int \<Rightarrow> int" where
  "peak_percent rgb =
     (case rgb of (peak, gv, bv) \<Rightarrow>
        (let peak = (if gv > peak then gv else peak);
             peak = (if bv > peak then bv else peak)
         in c_quot (c_int (peak * 100 + 127)) 255))"

definition reply_brightness :: "json \<Rightarrow> int option" where
  "reply_brightness doc =
     (case json_number (reply_field doc ''dimming'') of
        Some dimming \<Rightarrow> Some (clamp100 (d_to_int dimming))
      | None \<Rightarrow> map_option peak_percent (reply_rgb doc))"

definition reply_state :: "json \<Rightarrow> bool option" where
  "reply_state doc = (case reply_field doc ''state'' of Some (JBool b) \<Rightarrow> Some b | _ \<Rightarrow> None)"

section \<open>Requests\<close>

definition member :: "string \<Rightarrow> string \<Rightarrow> string" where
  "member key val = quoted key @ '':'' @ val"

definition set_pilot :: "string \<Rightarrow> string" where
  "set_pilot params = ''{'' @ member ''method'' (quoted ''setPilot'') @ '','' @ member ''params'' (''{'' @ params @ ''}'') @ ''}''"

definition get_pilot :: string where
  "get_pilot = ''{'' @ member ''method'' (quoted ''getPilot'') @ '','' @ member ''params'' ''{}'' @ ''}''"

definition state_request :: "bool \<Rightarrow> string" where
  "state_request on = hes_strlcpy MAX_PACKET_BUF_SIZE (set_pilot (member ''state'' (if on then ''true'' else ''false'')))"

definition rgb_request :: "int \<Rightarrow> int \<Rightarrow> int \<Rightarrow> string" where
  "rgb_request r g b =
     hes_strlcpy MAX_PACKET_BUF_SIZE
       (set_pilot (member ''r'' (dec_int r) @ '','' @ member ''g'' (dec_int g) @ '','' @ member ''b'' (dec_int b)))"

definition dimming_request :: "int \<Rightarrow> string" where
  "dimming_request level = hes_strlcpy MAX_PACKET_BUF_SIZE (set_pilot (member ''dimming'' (dec_int level)))"

section \<open>The client's operations\<close>

definition wiz_client_open :: "bool \<Rightarrow> string \<Rightarrow> int \<Rightarrow> wiz_client option" where
  "wiz_client_open socket_ok ip port =
     (if socket_ok then Some \<lparr>wc_ip = hes_strlcpy 64 ip, wc_port = port\<rparr> else None)"

text \<open>A command succeeds when it is answered at all.\<close>

definition wiz_command ::
    "(string \<Rightarrow> json option) \<Rightarrow> wiz_client \<Rightarrow> string \<Rightarrow> wiz_io \<Rightarrow> bool \<times> wiz_io" where
  "wiz_command json_loads c req io =
     (let (resp, io) = wiz_send_recv json_loads c ''setPilot'' req MAX_PACKET_BUF_SIZE io in (resp \<noteq> None, io))"

definition wiz_client_set_state ::
    "(string \<Rightarrow> json option) \<Rightarrow> wiz_client \<Rightarrow> bool \<Rightarrow> wiz_io \<Rightarrow> bool \<times> wiz_io" where
  "wiz_client_set_state json_loads c on io = wiz_command json_loads c (state_request on) io"

definition wiz_client_set_rgb ::
    "(string \<Rightarrow> json option) \<Rightarrow> wiz_client \<Rightarrow> int \<Rightarrow> int \<Rightarrow> int \<Rightarrow> wiz_io \<Rightarrow> bool \<times> wiz_io" where
  "wiz_client_set_rgb json_loads c r g b io =
     wiz_command json_loads c (rgb_request (clamp255 r) (clamp255 g) (clamp255 b)) io"

definition wiz_client_set_brightness ::
    "(string \<Rightarrow> json option) \<Rightarrow> wiz_client \<Rightarrow> int \<Rightarrow> wiz_io \<Rightarrow> bool \<times> wiz_io" where
  "wiz_client_set_brightness json_loads c level io =
     (let level = (if level < 10 then 10 else level);
          level = (if level > 100 then 100 else level)
      in wiz_command json_loads c (dimming_request level) io)"

text \<open>A reading: what is found in the reply, if it is JSON.\<close>

definition wiz_reading ::
    "(string \<Rightarrow> json option) \<Rightarrow> wiz_client \<Rightarrow> (json \<Rightarrow> 'v option) \<Rightarrow> wiz_io \<Rightarrow> 'v option \<times> wiz_io" where
  "wiz_reading json_loads c field io =
     (let (resp, io) = wiz_send_recv json_loads c ''getPilot'' get_pilot MAX_PACKET_BUF_SIZE io
      in (case resp of None \<Rightarrow> None | Some resp \<Rightarrow> (case json_loads resp of None \<Rightarrow> None | Some doc \<Rightarrow> field doc), io))"

definition wiz_client_get_state ::
    "(string \<Rightarrow> json option) \<Rightarrow> wiz_client \<Rightarrow> wiz_io \<Rightarrow> bool option \<times> wiz_io" where
  "wiz_client_get_state json_loads c io = wiz_reading json_loads c reply_state io"

definition wiz_client_get_rgb ::
    "(string \<Rightarrow> json option) \<Rightarrow> wiz_client \<Rightarrow> wiz_io \<Rightarrow> (int \<times> int \<times> int) option \<times> wiz_io" where
  "wiz_client_get_rgb json_loads c io = wiz_reading json_loads c reply_rgb io"

definition wiz_client_get_brightness ::
    "(string \<Rightarrow> json option) \<Rightarrow> wiz_client \<Rightarrow> wiz_io \<Rightarrow> int option \<times> wiz_io" where
  "wiz_client_get_brightness json_loads c io = wiz_reading json_loads c reply_brightness io"

section \<open>What an answer is\<close>

lemma drop_stale_suffix: "\<exists>dropped. q = dropped @ drop_stale q"
proof (induction q)
  case (Cons d q)
  show ?case
  proof (cases "d = []")
    case True
    then show ?thesis by (intro exI[of _ "[d]"]) simp
  next
    case False
    obtain dropped where "q = dropped @ drop_stale q" using Cons.IH by blast
    then show ?thesis using False by (intro exI[of _ "d # dropped"]) simp
  qed
qed simp

text \<open>Without an empty datagram in it the queue is gone, whatever it held.\<close>

lemma drop_stale_all: "[] \<notin> set q \<Longrightarrow> drop_stale q = []"
  by (induction q) auto

text \<open>How the loop of one attempt ends, and that it makes at most one receive for each reply it may still
  ignore, and one more.\<close>

lemma wiz_wait_outcome:
  assumes "wiz_wait js recv meth sz n ignored = (w, n', ignored')" "ignored \<le> WIZ_MAX_IGNORED_REPLIES"
  shows "n < n' \<and> n' + ignored \<le> n + Suc ignored' \<and> ignored' \<le> Suc WIZ_MAX_IGNORED_REPLIES
     \<and> (w \<noteq> Given_up \<longrightarrow> ignored' \<le> WIZ_MAX_IGNORED_REPLIES \<and> n' + ignored = n + Suc ignored')
     \<and> (\<forall>resp. w = Answer resp \<longrightarrow>
          reply_is_answer js resp meth \<and> (\<exists>d. recv (n' - 1) = Datagram d \<and> resp = c_string (take (sz - 1) d)))"
  using assms
proof (induction js recv meth sz n ignored arbitrary: w n' ignored' rule: wiz_wait.induct)
  case (1 js recv meth sz n ignored)
  show ?case
  proof (cases "recv n")
    case (Datagram d)
    let ?resp = "c_string (take (sz - 1) d)"
    show ?thesis
    proof (cases "reply_is_answer js ?resp meth")
      case True
      then show ?thesis using "1.prems" Datagram by (auto simp: wiz_wait.simps[of js recv meth sz n ignored])
    next
      case False
      show ?thesis
      proof (cases "Suc ignored > WIZ_MAX_IGNORED_REPLIES")
        case True
        then show ?thesis using "1.prems" Datagram False by (auto simp: wiz_wait.simps[of js recv meth sz n ignored])
      next
        case False2: False
        then have "wiz_wait js recv meth sz (Suc n) (Suc ignored) = (w, n', ignored')"
          using "1.prems"(1) Datagram False by (simp add: wiz_wait.simps[of js recv meth sz n ignored])
        from "1.IH"[OF Datagram refl False False2 this] False2 show ?thesis by auto
      qed
    qed
  qed (use "1.prems" in \<open>auto simp: wiz_wait.simps[of js recv meth sz n ignored]\<close>)
qed

lemma attempts_outcome:
  assumes "wiz_attempts k js send recv meth sz sends n ignored = (r, sends')" "ignored \<le> WIZ_MAX_IGNORED_REPLIES"
  shows "sends \<le> sends' \<and> sends' \<le> sends + k
     \<and> (\<forall>resp. r = Some resp \<longrightarrow> sends < sends' \<and> reply_is_answer js resp meth
          \<and> (\<exists>m d. m < n + k + (WIZ_MAX_IGNORED_REPLIES - ignored) \<and> recv m = Datagram d \<and> resp = c_string (take (sz - 1) d)))"
  using assms
proof (induction k arbitrary: sends n ignored)
  case (Suc k)
  show ?case
  proof (cases "send sends")
    case True
    obtain w n1 ig1 where w: "wiz_wait js recv meth sz n ignored = (w, n1, ig1)" by (rule prod_cases3)
    note o = wiz_wait_outcome[OF w Suc.prems(2)]
    show ?thesis
    proof (cases w)
      case (Answer resp)
      then have r: "r = Some resp" "sends' = Suc sends" using Suc.prems(1) True w by auto
      obtain d where "recv (n1 - 1) = Datagram d" "resp = c_string (take (sz - 1) d)" using o Answer by blast
      moreover have "n1 - 1 < n + Suc k + (WIZ_MAX_IGNORED_REPLIES - ignored)" using o Answer Suc.prems(2) by auto
      ultimately show ?thesis using r o Answer by (auto intro: exI[of _ "n1 - 1"])
    next
      case Timed_out
      then have "wiz_attempts k js send recv meth sz (Suc sends) n1 ig1 = (r, sends')" using Suc.prems(1) True w by simp
      moreover have ig: "ig1 \<le> WIZ_MAX_IGNORED_REPLIES" "n1 + ignored = n + Suc ig1" using o Timed_out by auto
      ultimately have ih: "Suc sends \<le> sends'" "sends' \<le> Suc sends + k"
          "\<And>resp. r = Some resp \<Longrightarrow> reply_is_answer js resp meth \<and> (\<exists>m d. m < n1 + k + (WIZ_MAX_IGNORED_REPLIES - ig1)
             \<and> recv m = Datagram d \<and> resp = c_string (take (sz - 1) d))"
        using Suc.IH[of "Suc sends" n1 ig1] by auto
      have "n1 + k + (WIZ_MAX_IGNORED_REPLIES - ig1) = n + Suc k + (WIZ_MAX_IGNORED_REPLIES - ignored)"
        using ig Suc.prems(2) by linarith
      then show ?thesis using ih by (metis Suc_leD Suc_le_eq add_Suc add_Suc_right)
    qed (use Suc.prems(1) True w in auto)
  qed (use Suc.prems(1) in simp)
qed simp

text \<open>C17: An answer is an answer to this request. A request goes out at most twice, to the bulb alone; what
  comes back as its reply is a datagram that arrived after it was sent, is not recognisably the reply
  to another request, and is among the first six received -- whatever was queued before, as long as
  no empty datagram was.\<close>

theorem wiz_answer_own:
  assumes "wiz_send_recv js c meth req sz io = (r, io')"
    and "[] \<notin> set (wn_queued (io_net io (io_exchanges io)))"
  shows "\<exists>k \<le> WIZ_SEND_ATTEMPTS.
       io_sent io' = io_sent io @ replicate k (wc_ip c, word_of_int (wc_port c), req)
     \<and> (\<forall>resp. r = Some resp \<longrightarrow>
          0 < k \<and> reply_is_answer js resp meth
          \<and> (\<exists>m < 6. \<exists>d. wn_recv (io_net io (io_exchanges io)) m = Datagram d \<and> resp = c_string (take (sz - 1) d)))"
proof (cases "inet_pton4 (wc_ip c)")
  case False
  then show ?thesis using assms(1) by (intro exI[of _ 0]) (auto simp: wiz_send_recv_def)
next
  case True
  let ?net = "io_net io (io_exchanges io)"
  have recv: "next_datagram (drop_stale (wn_queued ?net)) (wn_recv ?net) = wn_recv ?net"
    by (simp add: drop_stale_all[OF assms(2)] next_datagram_def fun_eq_iff)
  obtain r' k where a: "wiz_attempts WIZ_SEND_ATTEMPTS js (wn_send ?net) (wn_recv ?net) meth sz 0 0 0 = (r', k)" by fastforce
  then have "r' = r" "io_sent io' = io_sent io @ replicate k (wc_ip c, word_of_int (wc_port c), req)"
    using assms(1) True unfolding wiz_send_recv_def Let_def recv by auto
  then show ?thesis using attempts_outcome[OF a] by (intro exI[of _ k]) auto
qed

text \<open>An acknowledgement left over from before, a first attempt that expires, a stray acknowledgement, and
  then the reading.\<close>

definition late_net :: wiz_net where
  "late_net = \<lparr>wn_queued = [''ack''], wn_send = (\<lambda>_. True),
     wn_recv = (\<lambda>n. if n = 0 then Expired else if n = 1 then Datagram ''ack'' else Datagram ''on'')\<rparr>"

definition late_json :: "string \<Rightarrow> json option" where
  "late_json s = (if s = ''ack'' then Some (JObj [(''method'', JStr ''setPilot'')])
                  else if s = ''on'' then Some (JObj [(''method'', JStr ''getPilot''), (''result'', JObj [(''state'', JBool True)])])
                  else None)"

lemma sample_address: "inet_pton4 ''192.168.1.142''"
  by code_simp

theorem wiz_answer_own_witness:
  "\<exists>io'. wiz_send_recv late_json \<lparr>wc_ip = ''192.168.1.142'', wc_port = 38899\<rparr> ''getPilot'' get_pilot MAX_PACKET_BUF_SIZE
        \<lparr>io_net = (\<lambda>_. late_net), io_exchanges = 0, io_sent = []\<rparr> = (Some ''on'', io')
     \<and> (\<exists>k \<le> WIZ_SEND_ATTEMPTS. io_sent io' = replicate k (''192.168.1.142'', 38899, get_pilot))"
proof -
  let ?c = "\<lparr>wc_ip = ''192.168.1.142'', wc_port = 38899\<rparr>"
  let ?io = "\<lparr>io_net = (\<lambda>_. late_net), io_exchanges = 0, io_sent = []\<rparr>"
  obtain io' where r: "wiz_send_recv late_json ?c ''getPilot'' get_pilot MAX_PACKET_BUF_SIZE ?io = (Some ''on'', io')"
    using sample_address
    by (simp add: wiz_send_recv_def late_net_def late_json_def next_datagram_def wiz_wait.simps c_string_def
        reply_is_answer_def numeral_2_eq_2 Let_def)
  have "[] \<notin> set (wn_queued (io_net ?io (io_exchanges ?io)))" by (simp add: late_net_def)
  from wiz_answer_own[OF r this] r show ?thesis by auto
qed

end
