(* ===== verification/Han.thy ===== *)
theory Han
  imports DevReg
begin

text \<open>
  What the two interface modules share: the Wi-Fi module (src/src/han/wifi/wifi.c) and the Bluetooth
  module (src/src/han/ble/ble.c) resolve the device a message addresses, take over the manifest's
  updates and build their event reports in the same way, each with a copy of its own. The map names
  the Wi-Fi module's.
\<close>

section \<open>Whom a message addresses\<close>

definition index_by_di :: "hes_devreg \<Rightarrow> u32 \<Rightarrow> nat option" where
  "index_by_di reg di = first_index (\<lambda>d. dv_device_index d = di) (rg_devices reg)"

text \<open>Online, with an object at the path.\<close>

definition answers_at :: "hes_device \<Rightarrow> string \<Rightarrow> bool" where
  "answers_at d path \<longleftrightarrow> dv_online d \<and> hes_dev_object_find d path \<noteq> None"

fun resolve_loop :: "string \<Rightarrow> hes_device list \<Rightarrow> nat \<Rightarrow> nat option \<Rightarrow> nat option" where
  "resolve_loop path [] i found = found"
| "resolve_loop path (d # ds) i found =
     (if answers_at d path then
        (if found \<noteq> None then None else resolve_loop path ds (Suc i) (Some i))
      else resolve_loop path ds (Suc i) found)"

definition resolve_index :: "hes_devreg \<Rightarrow> string \<Rightarrow> u32 \<Rightarrow> nat option" where
  "resolve_index reg path di =
     (case index_by_di reg di of
        Some idx \<Rightarrow>
          (if answers_at (rg_devices reg ! idx) path then Some idx
           else if di \<noteq> 0 then None else resolve_loop path (rg_devices reg) 0 None)
      | None \<Rightarrow> if di \<noteq> 0 then None else resolve_loop path (rg_devices reg) 0 None)"

section \<open>The manifest's updates\<close>

definition merge_device :: "hes_devreg \<Rightarrow> hes_device \<Rightarrow> hes_device" where
  "merge_device upd d =
     (case index_by_di upd (dv_device_index d) of
        None \<Rightarrow> d
      | Some j \<Rightarrow>
          (let u = rg_devices upd ! j; d = d\<lparr>dv_online := dv_online u\<rparr>
           in if dv_address u \<noteq> [] then d\<lparr>dv_address := hes_strlcpy 64 (dv_address u)\<rparr> else d))"

definition merge_slice :: "hes_devreg \<Rightarrow> hes_devreg \<Rightarrow> hes_devreg" where
  "merge_slice reg upd = reg\<lparr>rg_devices := map (merge_device upd) (rg_devices reg)\<rparr>"

section \<open>Presence and reports\<close>

definition set_online :: "nat \<Rightarrow> bool \<Rightarrow> hes_devreg \<Rightarrow> hes_devreg" where
  "set_online i b reg = reg\<lparr>rg_devices := (rg_devices reg)[i := (rg_devices reg ! i)\<lparr>dv_online := b\<rparr>]\<rparr>"

definition answer_msg :: "u32 \<Rightarrow> string \<Rightarrow> string \<Rightarrow> hes_clme_msg" where
  "answer_msg di path val =
     hes_msg_set_payload_str
       (hes_msg_set_path (hes_msg_init\<lparr>m_verb := HES_VERB_EVENT, m_device_index := di\<rparr>) path) val"

definition polled_msg :: "u32 \<Rightarrow> string \<Rightarrow> string \<Rightarrow> hes_clme_msg" where
  "polled_msg di path val =
     hes_msg_set_payload_str
       ((hes_msg_set_path (hes_msg_init\<lparr>m_verb := HES_VERB_EVENT, m_device_index := di\<rparr>) path)
          \<lparr>m_query := ''va''\<rparr>) val"

section \<open>The resolved device\<close>

lemma resolve_loop_found:
  "resolve_loop path ds i (Some j) = (if \<exists>d \<in> set ds. answers_at d path then None else Some j)"
  by (induction ds arbitrary: i) auto

lemma resolve_loop_Some:
  "resolve_loop path ds i None = Some j \<longleftrightarrow>
     (\<exists>ds1 d ds2. ds = ds1 @ d # ds2 \<and> j = i + length ds1 \<and> answers_at d path
        \<and> (\<forall>x \<in> set ds1 \<union> set ds2. \<not> answers_at x path))" (is "?l ds i \<longleftrightarrow> ?r ds i")
proof
  show "?l ds i \<Longrightarrow> ?r ds i"
  proof (induction ds arbitrary: i)
    case (Cons d ds)
    show ?case
    proof (cases "answers_at d path")
      case True
      then show ?thesis using Cons.prems
        by (intro exI[of _ "[]"] exI[of _ d] exI[of _ ds]) (auto simp: resolve_loop_found split: if_splits)
    next
      case False
      then have "?l ds (Suc i)" using Cons.prems by simp
      from Cons.IH[OF this] obtain ds1 e ds2 where "ds = ds1 @ e # ds2" "j = Suc i + length ds1"
          "answers_at e path" "\<forall>x \<in> set ds1 \<union> set ds2. \<not> answers_at x path" by blast
      then show ?thesis using False by (intro exI[of _ "d # ds1"] exI[of _ e] exI[of _ ds2]) auto
    qed
  qed simp
  show "?r ds i \<Longrightarrow> ?l ds i"
  proof (elim exE conjE)
    fix ds1 d ds2
    assume "ds = ds1 @ d # ds2" "j = i + length ds1" "answers_at d path" "\<forall>x \<in> set ds1 \<union> set ds2. \<not> answers_at x path"
    then show "?l ds i" by (induction ds1 arbitrary: ds i) (auto simp: resolve_loop_found)
  qed
qed

text \<open>The device a message reaches: online, with an object at the path, and either the first with the
  message's index or, for a message without one, the only such device.\<close>

lemma resolve_index_sound:
  assumes "resolve_index reg path di = Some i"
  shows "i < length (rg_devices reg) \<and> answers_at (rg_devices reg ! i) path
     \<and> (dv_device_index (rg_devices reg ! i) = di
        \<or> di = 0 \<and> (\<forall>k < length (rg_devices reg). answers_at (rg_devices reg ! k) path \<longrightarrow> k = i))"
proof (cases "index_by_di reg di = Some i \<and> answers_at (rg_devices reg ! i) path")
  case True
  then show ?thesis by (auto simp: index_by_di_def dest!: first_index_Some)
next
  case False
  then have "di = 0" "resolve_loop path (rg_devices reg) 0 None = Some i"
    using assms by (auto simp: resolve_index_def split: option.splits if_splits)
  then obtain ds1 d ds2 where d: "rg_devices reg = ds1 @ d # ds2" "i = length ds1" "answers_at d path"
      "\<forall>x \<in> set ds1 \<union> set ds2. \<not> answers_at x path"
    by (auto simp: resolve_loop_Some)
  have "k = i" if k: "k < length (rg_devices reg)" "answers_at (rg_devices reg ! k) path" for k
  proof (rule ccontr)
    assume "k \<noteq> i"
    then consider "k < length ds1" | "length ds1 < k" using d(2) by linarith
    then have "rg_devices reg ! k \<in> set ds1 \<union> set ds2"
    proof cases
      case 1
      then show ?thesis unfolding d(1) by (simp add: nth_append)
    next
      case 2
      then have "rg_devices reg ! k = ds2 ! (k - Suc (length ds1))" "k - Suc (length ds1) < length ds2"
        using k(1) unfolding d(1) by (simp_all add: nth_append nth_Cons')
      then show ?thesis by simp
    qed
    then show False using d(4) k(2) by blast
  qed
  moreover have "rg_devices reg ! i = d" "i < length (rg_devices reg)" using d(1,2) by simp_all
  ultimately show ?thesis using d(3) \<open>di = 0\<close> by blast
qed

lemma set_online_devices [simp]:
  "length (rg_devices (set_online i b reg)) = length (rg_devices reg)"
  "j < length (rg_devices reg) \<Longrightarrow>
     rg_devices (set_online i b reg) ! j = (if j = i then (rg_devices reg ! i)\<lparr>dv_online := b\<rparr> else rg_devices reg ! j)"
  by (auto simp: set_online_def)

lemma set_online_index [simp]: "map dv_device_index (rg_devices (set_online i b reg)) = map dv_device_index (rg_devices reg)"
  by (cases "i < length (rg_devices reg)") (simp_all add: set_online_def list_eq_iff_nth_eq nth_list_update)

text \<open>Equal up to the presence of the devices.\<close>

definition same_devices :: "hes_devreg \<Rightarrow> hes_devreg \<Rightarrow> bool" where
  "same_devices reg reg' \<longleftrightarrow>
     map (dv_online_update (\<lambda>_. False)) (rg_devices reg') = map (dv_online_update (\<lambda>_. False)) (rg_devices reg)"

lemma same_set_online: "i < length (rg_devices reg) \<Longrightarrow> same_devices reg (set_online i b reg)"
  by (simp add: same_devices_def list_eq_iff_nth_eq)

lemma same_devices_trans: "same_devices a b \<Longrightarrow> same_devices b c \<Longrightarrow> same_devices a c"
  by (simp add: same_devices_def)

lemma same_devices_index:
  "same_devices a b \<Longrightarrow> map dv_device_index (rg_devices b) = map dv_device_index (rg_devices a)"
proof -
  have off: "map dv_device_index (map (dv_online_update (\<lambda>_. False)) ds) = map dv_device_index ds" for ds by simp
  assume "same_devices a b"
  then show ?thesis unfolding same_devices_def by (metis off)
qed

lemma same_devices_length: "same_devices a b \<Longrightarrow> length (rg_devices b) = length (rg_devices a)"
  unfolding same_devices_def by (metis length_map)

lemma merge_index [simp]: "dv_device_index (merge_device upd d) = dv_device_index d"
  by (simp add: merge_device_def Let_def split: option.split)

end
