(* ===== verification/Wifi.thy ===== *)
theory Wifi
  imports Wiz Mreg Han
begin

text \<open>
  The Wi-Fi interface module (src/src/han/wifi/wifi.c): starting from the manifest's slice, turning
  the bus's PUTs into commands to the bulbs, answering its GETs, taking the manifest's updates, and
  the poll that publishes what the bulbs say.

  A turn of the loop reads its surroundings from the record \<open>wifi_env\<close>. The manifest client and the
  bus are two handles with an NNG transcript each. The registries reported to the manifest service
  are kept in order in the state. Log lines are left out.
\<close>

abbreviation POLL_PERIOD_SEC :: int where "POLL_PERIOD_SEC \<equiv> 10"
abbreviation WIZ_PORT :: int where "WIZ_PORT \<equiv> 38899"

type_synonym wifi_dev = "nat \<times> wiz_client"

record wifi_state =
  wf_reg :: hes_devreg
  wf_devs :: "wifi_dev list"
  wf_bus :: hes_bus
  wf_io :: wiz_io
  wf_last_poll :: int
  wf_reported :: "hes_devreg list"

section \<open>Whom a message addresses\<close>

definition payload_to_bool :: "string \<Rightarrow> bool" where
  "payload_to_bool payload \<longleftrightarrow> payload = ''1'' \<or> payload = ''on'' \<or> payload = ''true''"

definition find_open :: "wifi_dev list \<Rightarrow> nat \<Rightarrow> nat option" where
  "find_open devs reg_idx = first_index (\<lambda>w. fst w = reg_idx) devs"

section \<open>Reading and writing a bulb\<close>

definition read_object ::
    "(string \<Rightarrow> json option) \<Rightarrow> wiz_client \<Rightarrow> string \<Rightarrow> nat \<Rightarrow> wiz_io \<Rightarrow> string option \<times> wiz_io" where
  "read_object js c path bufsz io =
     (if path = HES_LX_LIGHT_CV then
        (let (on, io) = wiz_client_get_state js c io
         in (map_option (\<lambda>on. hes_strlcpy bufsz (dec_int (if on then 1 else 0))) on, io))
      else if path = HES_LX_LIGHT_BRIGHTNESS_CV then
        (let (level, io) = wiz_client_get_brightness js c io
         in (map_option (\<lambda>level. hes_strlcpy bufsz (dec_int level)) level, io))
      else (None, io))"

definition write_object ::
    "(string \<Rightarrow> json option) \<Rightarrow> wiz_client \<Rightarrow> string \<Rightarrow> string \<Rightarrow> wiz_io \<Rightarrow> bool \<times> wiz_io" where
  "write_object js c path payload io =
     (if path = HES_LX_LIGHT_CV then wiz_client_set_state js c (payload_to_bool payload) io
      else if path = HES_LX_LIGHT_BRIGHTNESS_CV then
        (let level = atoi payload
         in if level \<le> 0 then wiz_client_set_state js c False io
            else wiz_client_set_brightness js c level (snd (wiz_client_set_state js c True io)))
      else (False, io))"

section \<open>The loop\<close>

text \<open>The message received within 200 ms, if any; what the manifest's socket holds; and \<open>time(NULL)\<close>.\<close>

record wifi_env =
  we_recv :: "hes_clme_msg option"
  we_update :: "int + string"
  we_now :: int

text \<open>The open device a message may use in the given way, and the object's path.\<close>

definition wifi_target :: "wifi_state \<Rightarrow> hes_clme_msg \<Rightarrow> char \<Rightarrow> (nat \<times> wiz_client \<times> string) option" where
  "wifi_target st msg acc =
     (case resolve_index (wf_reg st) (m_path msg) (m_device_index msg) of
        None \<Rightarrow> None
      | Some ridx \<Rightarrow>
          (case (find_open (wf_devs st) ridx, hes_dev_object_find (rg_devices (wf_reg st) ! ridx) (m_path msg)) of
             (Some didx, Some ob) \<Rightarrow>
               (if acc \<in> set (do_access ob) then Some (ridx, snd (wf_devs st ! didx), do_path ob) else None)
           | _ \<Rightarrow> None))"

definition wifi_put :: "(string \<Rightarrow> json option) \<Rightarrow> hes_clme_msg \<Rightarrow> wifi_state \<Rightarrow> wifi_state" where
  "wifi_put js msg st =
     (case wifi_target st msg CHR ''w'' of
        None \<Rightarrow> st
      | Some (ridx, c, path) \<Rightarrow> st\<lparr>wf_io := snd (write_object js c path (m_payload msg) (wf_io st))\<rparr>)"

definition wifi_get :: "(string \<Rightarrow> json option) \<Rightarrow> hes_clme_msg \<Rightarrow> wifi_state \<Rightarrow> wifi_state" where
  "wifi_get js msg st =
     (case wifi_target st msg CHR ''r'' of
        None \<Rightarrow> st
      | Some (ridx, c, path) \<Rightarrow>
          (let (val, io) = read_object js c path 32 (wf_io st); st = st\<lparr>wf_io := io\<rparr>
           in case val of
                None \<Rightarrow> st
              | Some val \<Rightarrow>
                  st\<lparr>wf_bus := hes_bus_send (wf_bus st)
                       (answer_msg (dv_device_index (rg_devices (wf_reg st) ! ridx)) (m_path msg) val)\<rparr>))"

definition wifi_receive :: "(string \<Rightarrow> json option) \<Rightarrow> hes_clme_msg \<Rightarrow> wifi_state \<Rightarrow> wifi_state" where
  "wifi_receive js msg st =
     (if m_verb msg = HES_VERB_PUT then wifi_put js msg st
      else if m_verb msg = HES_VERB_GET then wifi_get js msg st
      else st)"

definition wifi_update :: "(string \<Rightarrow> json option) \<Rightarrow> hes_mreg \<Rightarrow> int + string \<Rightarrow> wifi_state \<Rightarrow> wifi_state" where
  "wifi_update js m received st =
     (case hes_mreg_recv_update js m received hes_devreg_init of
        Inl rv \<Rightarrow> st
      | Inr (upd, ok) \<Rightarrow> if ok then st\<lparr>wf_reg := merge_slice (wf_reg st) upd\<rparr> else st)"

text \<open>The objects of one device: whether one answered, the bus, the network.\<close>

fun poll_objects ::
    "(string \<Rightarrow> json option) \<Rightarrow> u32 \<Rightarrow> wiz_client \<Rightarrow> hes_dev_object list \<Rightarrow> bool \<times> hes_bus \<times> wiz_io
      \<Rightarrow> bool \<times> hes_bus \<times> wiz_io" where
  "poll_objects js di c [] acc = acc"
| "poll_objects js di c (ob # obs) (reachable, bus, io) =
     (if CHR ''r'' \<notin> set (do_access ob) then poll_objects js di c obs (reachable, bus, io)
      else
        case read_object js c (do_path ob) 32 io of
          (None, io) \<Rightarrow> poll_objects js di c obs (reachable, bus, io)
        | (Some val, io) \<Rightarrow> poll_objects js di c obs (True, hes_bus_send bus (polled_msg di (do_path ob) val), io))"

definition poll_device :: "(string \<Rightarrow> json option) \<Rightarrow> wifi_dev \<Rightarrow> wifi_state \<Rightarrow> wifi_state" where
  "poll_device js w st =
     (let (ridx, c) = w; d = rg_devices (wf_reg st) ! ridx;
          (reachable, bus, io) = poll_objects js (dv_device_index d) c (dv_objects d) (False, wf_bus st, wf_io st);
          st = st\<lparr>wf_bus := bus, wf_io := io\<rparr>
      in if reachable \<noteq> dv_online d then
           (let reg = set_online ridx reachable (wf_reg st)
            in st\<lparr>wf_reg := reg, wf_reported := wf_reported st @ [reg]\<rparr>)
         else st)"

definition wifi_poll :: "(string \<Rightarrow> json option) \<Rightarrow> int \<Rightarrow> wifi_state \<Rightarrow> wifi_state" where
  "wifi_poll js now st =
     (if now - wf_last_poll st \<ge> POLL_PERIOD_SEC
      then fold (poll_device js) (wf_devs st) (st\<lparr>wf_last_poll := now\<rparr>) else st)"

definition wifi_turn :: "(string \<Rightarrow> json option) \<Rightarrow> hes_mreg \<Rightarrow> wifi_env \<Rightarrow> wifi_state \<Rightarrow> wifi_state" where
  "wifi_turn js m env st =
     (let st = (case we_recv env of None \<Rightarrow> st | Some msg \<Rightarrow> wifi_receive js msg st);
          st = wifi_update js m (we_update env) st
      in wifi_poll js (we_now env) st)"

section \<open>The start\<close>

text \<open>What the module assigns before its report: a bulb without an address gets the configured one.\<close>

definition assign_bulb :: "string \<Rightarrow> hes_device \<Rightarrow> hes_device" where
  "assign_bulb bulb_ip d =
     (if hes_dev_object_find d HES_LX_LIGHT_CV = None then d
      else
        let d = (if dv_address d = [] then d\<lparr>dv_address := hes_strlcpy 64 bulb_ip\<rparr> else d);
            d = (if dv_udp_port d \<le> 0 then d\<lparr>dv_udp_port := WIZ_PORT\<rparr> else d)
        in d\<lparr>dv_online := True\<rparr>)"

text \<open>A client for every device that is online and has an address and a port; \<open>socket_ok i\<close> is whether
  the socket for the device at \<open>i\<close> is given.\<close>

fun open_clients :: "(nat \<Rightarrow> bool) \<Rightarrow> nat \<Rightarrow> hes_device list \<Rightarrow> wifi_dev list \<Rightarrow> wifi_dev list" where
  "open_clients socket_ok i [] devs = devs"
| "open_clients socket_ok i (d # ds) devs =
     (if \<not> dv_online d \<or> dv_address d = [] \<or> dv_udp_port d \<le> 0 then open_clients socket_ok (Suc i) ds devs
      else
        case wiz_client_open (socket_ok i) (dv_address d) (dv_udp_port d) of
          None \<Rightarrow> open_clients socket_ok (Suc i) ds devs
        | Some c \<Rightarrow> open_clients socket_ok (Suc i) ds (devs @ [(i, c)]))"

text \<open>What the start meets: NNG for either handle, the answers to the two queries and the report, the
  sockets, and the bus and the network the loop will work on.\<close>

record wifi_boot =
  wb_mreg_nng :: nng
  wb_bus_nng :: nng
  wb_query :: exchange
  wb_report :: exchange
  wb_requery :: exchange
  wb_socket :: "nat \<Rightarrow> bool"
  wb_bus :: hes_bus
  wb_io :: wiz_io

definition wifi_start ::
    "(string \<Rightarrow> json option) \<Rightarrow> string \<Rightarrow> string \<Rightarrow> u32 \<Rightarrow> string \<Rightarrow> string \<Rightarrow> string \<Rightarrow> wifi_boot
      \<Rightarrow> (hes_mreg \<times> wifi_state) option" where
  "wifi_start js svc_rep svc_pub module_ref hub_pub_url hub_sub_url bulb_ip wb =
     (let (rv, m, n) = hes_mreg_open svc_rep svc_pub (Some ''hi'') module_ref (wb_mreg_nng wb)
      in if rv \<noteq> 0 then None
         else let (reg, ok) = hes_mreg_query (wb_query wb) js m hes_devreg_init
         in if \<not> ok then None
         else if rg_devices reg = [] then None
         else let reg = reg\<lparr>rg_devices := map (assign_bulb bulb_ip) (rg_devices reg)\<rparr>
         in case hes_mreg_report (wb_report wb) m reg of
              None \<Rightarrow> None
            | Some reported \<Rightarrow>
                (let (reg2, ok) = hes_mreg_query (wb_requery wb) js m hes_devreg_init
                 in if \<not> ok then None
                    else let devs = open_clients (wb_socket wb) 0 (rg_devices reg2) []
                    in if devs = [] then None
                    else let topics = hes_devreg_collect_topics reg2 HES_BUS_MAX_TOPICS;
                             (rv, n) = hes_bus_leaf_open hub_pub_url hub_sub_url topics (wb_bus_nng wb)
                    in if rv \<noteq> 0 then None
                       else Some (m, \<lparr>wf_reg = reg2, wf_devs = devs, wf_bus = wb_bus wb, wf_io = wb_io wb,
                                      wf_last_poll = 0, wf_reported = [reg]\<rparr>)))"

end
