(* ===== verification/WifiProps.thy ===== *)
theory WifiProps
  imports Wifi BmProps
begin

text \<open>
  What the Wi-Fi module does with the messages of the bus and with what the bulbs answer.
\<close>

section \<open>What reaches the bulbs\<close>

text \<open>The datagrams an operation adds all satisfy \<open>P\<close>.\<close>

definition sends :: "(string \<times> 16 word \<times> string \<Rightarrow> bool) \<Rightarrow> wiz_io \<Rightarrow> wiz_io \<Rightarrow> bool" where
  "sends P io io' \<longleftrightarrow> (\<exists>out. io_sent io' = io_sent io @ out \<and> (\<forall>x \<in> set out. P x))"

definition to_client :: "wiz_client \<Rightarrow> string set \<Rightarrow> string \<times> 16 word \<times> string \<Rightarrow> bool" where
  "to_client c reqs x \<longleftrightarrow> (\<exists>req \<in> reqs. x = (wc_ip c, word_of_int (wc_port c), req))"

lemma sends_refl [simp]: "sends P io io"
  by (simp add: sends_def)

lemma sends_trans: "sends P a b \<Longrightarrow> sends P b d \<Longrightarrow> sends P a d"
  unfolding sends_def by (elim exE conjE, rule_tac x = "out @ outa" in exI) auto

lemma sends_mono: "sends P a b \<Longrightarrow> (\<And>x. P x \<Longrightarrow> Q x) \<Longrightarrow> sends Q a b"
  unfolding sends_def by blast

lemma send_recv_sends: "wiz_send_recv js c meth req sz io = (r, io') \<Longrightarrow> sends (to_client c {req}) io io'"
  by (auto simp: sends_def to_client_def wiz_send_recv_def Let_def split: if_splits prod.splits)

lemma command_sends: "req \<in> reqs \<Longrightarrow> sends (to_client c reqs) io (snd (wiz_command js c req io))"
  using sends_mono[OF send_recv_sends[of js c], of _ req _ _ _ _ "to_client c reqs"]
  by (auto simp: wiz_command_def to_client_def split: prod.split)

lemma reading_sends: "sends (to_client c {get_pilot}) io (snd (wiz_reading js c field io))"
  using send_recv_sends[of js c] by (auto simp: wiz_reading_def split: prod.split)

text \<open>The requests a payload asks for, at an object.\<close>

definition dimmed :: "int \<Rightarrow> int" where
  "dimmed level = max 10 (min 100 level)"

definition asked :: "string \<Rightarrow> string \<Rightarrow> string set" where
  "asked path payload =
     (if path = HES_LX_LIGHT_CV then {state_request (payload_to_bool payload)}
      else if path = HES_LX_LIGHT_BRIGHTNESS_CV then
        (if atoi payload \<le> 0 then {state_request False}
         else {state_request True, dimming_request (dimmed (atoi payload))})
      else {})"

lemma write_sends: "sends (to_client c (asked path payload)) io (snd (write_object js c path payload io))"
proof -
  have b: "wiz_client_set_brightness js c level io = wiz_command js c (dimming_request (dimmed level)) io" for level io
    by (simp add: wiz_client_set_brightness_def dimmed_def max_def min_def)
  show ?thesis
    unfolding write_object_def asked_def wiz_client_set_state_def b Let_def
    by (auto intro: command_sends sends_trans[OF command_sends command_sends])
qed

lemma read_sends: "sends (to_client c {get_pilot}) io (snd (read_object js c path k io))"
  by (auto simp: read_object_def wiz_client_get_state_def wiz_client_get_brightness_def split_beta intro: reading_sends)

section \<open>What the poll does\<close>

lemma poll_objects_effect:
  assumes "poll_objects js di c obs (r, bus, io) = (r', bus', io')"
  shows "\<exists>ms. bus_sent bus' = bus_sent bus @ ms \<and> (\<forall>m \<in> set ms. m_device_index m = di)
     \<and> (r' \<longleftrightarrow> r \<or> ms \<noteq> []) \<and> sends (to_client c {get_pilot}) io io'"
  using assms
proof (induction obs arbitrary: r bus io)
  case (Cons ob obs)
  show ?case
  proof (cases "CHR ''r'' \<in> set (do_access ob)")
    case False
    then show ?thesis using Cons by simp
  next
    case True
    obtain v io1 where rd: "read_object js c (do_path ob) 32 io = (v, io1)" by fastforce
    have s1: "sends (to_client c {get_pilot}) io io1" using read_sends[of c io js "do_path ob" 32] rd by simp
    show ?thesis
    proof (cases v)
      case None
      then have "poll_objects js di c obs (r, bus, io1) = (r', bus', io')" using Cons.prems True rd by simp
      from Cons.IH[OF this] show ?thesis using sends_trans[OF s1] by blast
    next
      case (Some val)
      let ?b = "hes_bus_send bus (polled_msg di (do_path ob) val)"
      have "poll_objects js di c obs (True, ?b, io1) = (r', bus', io')" using Cons.prems True rd Some by simp
      from Cons.IH[OF this] obtain ms where ms: "bus_sent bus' = bus_sent ?b @ ms" "\<forall>m \<in> set ms. m_device_index m = di"
          "r'" "sends (to_client c {get_pilot}) io1 io'" by blast
      have "m_device_index (stamp bus (polled_msg di (do_path ob) val)) = di"
        by (simp add: stamp_def polled_msg_def hes_msg_set_payload_str_def hes_msg_set_path_def)
      then show ?thesis using ms sends_trans[OF s1]
        by (intro exI[of _ "stamp bus (polled_msg di (do_path ob) val) # ms"]) (auto simp: hes_bus_send_sent)
    qed
  qed
qed simp

abbreviation dev_at :: "wifi_state \<Rightarrow> nat \<Rightarrow> hes_device" where "dev_at st i \<equiv> rg_devices (wf_reg st) ! i"

text \<open>The poll of one open device, the first of \<open>w # ws\<close>.\<close>

lemma poll_device_effect:
  assumes "poll_device js (i, c) st = st'" "i < length (rg_devices (wf_reg st))"
  shows "\<exists>ms. bus_sent (wf_bus st') = bus_sent (wf_bus st) @ ms \<and> (\<forall>m \<in> set ms. m_device_index m = dv_device_index (dev_at st i))
     \<and> wf_reg st' = set_online i (ms \<noteq> []) (wf_reg st) \<and> wf_devs st' = wf_devs st
     \<and> sends (to_client c {get_pilot}) (wf_io st) (wf_io st')
     \<and> wf_reported st' = wf_reported st @ (if wf_reg st' = wf_reg st then [] else [wf_reg st'])"
proof -
  obtain r bus io where p: "poll_objects js (dv_device_index (dev_at st i)) c (dv_objects (dev_at st i)) (False, wf_bus st, wf_io st)
      = (r, bus, io)" by (rule prod_cases3)
  from poll_objects_effect[OF p] obtain ms where ms: "bus_sent bus = bus_sent (wf_bus st) @ ms"
      "\<forall>m \<in> set ms. m_device_index m = dv_device_index (dev_at st i)" "r = (ms \<noteq> [])"
      "sends (to_client c {get_pilot}) (wf_io st) io" by auto
  have same: "set_online i r (wf_reg st) = wf_reg st \<longleftrightarrow> r = dv_online (dev_at st i)"
  proof
    assume "set_online i r (wf_reg st) = wf_reg st"
    then have "dv_online (rg_devices (set_online i r (wf_reg st)) ! i) = dv_online (dev_at st i)" by simp
    then show "r = dv_online (dev_at st i)" using assms(2) by simp
  next
    assume "r = dv_online (dev_at st i)"
    then show "set_online i r (wf_reg st) = wf_reg st" by (simp add: set_online_def)
  qed
  have st': "st' = (let st1 = st\<lparr>wf_bus := bus, wf_io := io\<rparr>
      in if r \<noteq> dv_online (dev_at st i)
         then st1\<lparr>wf_reg := set_online i r (wf_reg st), wf_reported := wf_reported st @ [set_online i r (wf_reg st)]\<rparr>
         else st1)"
    unfolding assms(1)[symmetric] poll_device_def using p by (simp add: Let_def)
  show ?thesis
    using same ms by (intro exI[of _ ms]) (auto simp: st' Let_def)
qed

text \<open>Any report made since is up to date.\<close>

definition reported_since :: "wifi_state \<Rightarrow> wifi_state \<Rightarrow> bool" where
  "reported_since st st' \<longleftrightarrow>
     (\<exists>more. wf_reported st' = wf_reported st @ more
        \<and> (if more = [] then wf_reg st' = wf_reg st else last more = wf_reg st'))"

lemma reported_since_trans:
  assumes "reported_since a b" "reported_since b c"
  shows "reported_since a c"
proof -
  obtain m1 m2 where "wf_reported b = wf_reported a @ m1" "if m1 = [] then wf_reg b = wf_reg a else last m1 = wf_reg b"
      "wf_reported c = wf_reported b @ m2" "if m2 = [] then wf_reg c = wf_reg b else last m2 = wf_reg c"
    using assms unfolding reported_since_def by blast
  then show ?thesis unfolding reported_since_def by (intro exI[of _ "m1 @ m2"]) (auto split: if_splits)
qed

text \<open>What polling the devices of a list does, and how polling one more adds to it.\<close>

definition polled :: "(nat \<times> wiz_client) list \<Rightarrow> wifi_state \<Rightarrow> wifi_state \<Rightarrow> hes_clme_msg list \<Rightarrow> bool" where
  "polled ws st st' ms \<longleftrightarrow> bus_sent (wf_bus st') = bus_sent (wf_bus st) @ ms
     \<and> (\<forall>m \<in> set ms. \<exists>w \<in> set ws. m_device_index m = dv_device_index (dev_at st (fst w)))
     \<and> (\<forall>w \<in> set ws. dv_online (dev_at st' (fst w)) \<longleftrightarrow> (\<exists>m \<in> set ms. m_device_index m = dv_device_index (dev_at st (fst w))))
     \<and> (\<forall>i < length (rg_devices (wf_reg st)). i \<notin> fst ` set ws \<longrightarrow> dev_at st' i = dev_at st i)
     \<and> same_devices (wf_reg st) (wf_reg st') \<and> reported_since st st' \<and> wf_devs st' = wf_devs st
     \<and> sends (\<lambda>x. \<exists>w \<in> set ws. to_client (snd w) {get_pilot} x) (wf_io st) (wf_io st')"

lemma polled_online:
  assumes s1: "\<forall>m \<in> set ms1. m_device_index m = dv_device_index (dev_at st i)"
      "wf_reg st1 = set_online i (ms1 \<noteq> []) (wf_reg st)"
    and s2: "polled ws st1 st2 ms2"
    and i: "i < length (rg_devices (wf_reg st))" "\<forall>v \<in> set ws. fst v < length (rg_devices (wf_reg st)) \<and> fst v \<noteq> i"
    and d: "distinct (map dv_device_index (rg_devices (wf_reg st)))" and v: "v \<in> set ((i, c) # ws)"
  shows "dv_online (dev_at st2 (fst v)) \<longleftrightarrow> (\<exists>m \<in> set (ms1 @ ms2). m_device_index m = dv_device_index (dev_at st (fst v)))"
proof -
  have dvi: "dv_device_index (dev_at st1 j) = dv_device_index (dev_at st j)" if "j < length (rg_devices (wf_reg st))" for j
    using that s1(2) by simp
  have apart: "dv_device_index (dev_at st (fst u)) \<noteq> dv_device_index (dev_at st i)" if "u \<in> set ws" for u
    using d i that by (simp add: distinct_conv_nth)
  have ms2: "\<forall>m \<in> set ms2. \<exists>u \<in> set ws. m_device_index m = dv_device_index (dev_at st1 (fst u))"
    "\<forall>u \<in> set ws. dv_online (dev_at st2 (fst u)) \<longleftrightarrow> (\<exists>m \<in> set ms2. m_device_index m = dv_device_index (dev_at st1 (fst u)))"
    "\<forall>j < length (rg_devices (wf_reg st1)). j \<notin> fst ` set ws \<longrightarrow> dev_at st2 j = dev_at st1 j"
    using s2 by (simp_all add: polled_def)
  show ?thesis
  proof (cases "v \<in> set ws")
    case True
    then show ?thesis using ms2(2) dvi i(2) s1(1) apart[OF True] by (metis Un_iff set_append)
  next
    case False
    then have v: "fst v = i" using v by auto
    have "i \<notin> fst ` set ws" using i(2) by auto
    then have "dv_online (dev_at st2 i) \<longleftrightarrow> ms1 \<noteq> []" using ms2(3) s1(2) i(1) by simp
    moreover have "m_device_index m \<noteq> dv_device_index (dev_at st i)" if "m \<in> set ms2" for m
      using ms2(1) that apart dvi i(2) by metis
    ultimately show ?thesis using s1(1) by (cases ms1) (auto simp: v)
  qed
qed

lemma polled_Cons:
  assumes "poll_device js (i, c) st = st1" "polled ws st1 st2 ms2" "i < length (rg_devices (wf_reg st))"
    and ws: "\<forall>v \<in> set ws. fst v < length (rg_devices (wf_reg st)) \<and> fst v \<noteq> i"
    and d: "distinct (map dv_device_index (rg_devices (wf_reg st)))"
  shows "\<exists>ms. polled ((i, c) # ws) st st2 ms"
proof -
  obtain ms1 where s1: "bus_sent (wf_bus st1) = bus_sent (wf_bus st) @ ms1"
      "\<forall>m \<in> set ms1. m_device_index m = dv_device_index (dev_at st i)"
      "wf_reg st1 = set_online i (ms1 \<noteq> []) (wf_reg st)" "wf_devs st1 = wf_devs st"
      "sends (to_client c {get_pilot}) (wf_io st) (wf_io st1)"
      "wf_reported st1 = wf_reported st @ (if wf_reg st1 = wf_reg st then [] else [wf_reg st1])"
    using poll_device_effect[OF assms(1,3)] by blast
  note s2 = assms(2)[unfolded polled_def]
  have io: "sends (\<lambda>x. \<exists>w \<in> set ws. to_client (snd w) {get_pilot} x) (wf_io st1) (wf_io st2)" using s2 by blast
  have since: "reported_since st st1" using s1(6) by (auto simp: reported_since_def)
  have dvi: "dv_device_index (dev_at st1 j) = dv_device_index (dev_at st j)" if "j < length (rg_devices (wf_reg st))" for j
    using that s1(3) by simp
  have "polled ((i, c) # ws) st st2 (ms1 @ ms2)"
    unfolding polled_def
  proof (intro conjI)
    show "bus_sent (wf_bus st2) = bus_sent (wf_bus st) @ ms1 @ ms2" using s1(1) s2 by simp
    show "\<forall>m \<in> set (ms1 @ ms2). \<exists>v \<in> set ((i, c) # ws). m_device_index m = dv_device_index (dev_at st (fst v))"
      using s1(2) s2 dvi ws by fastforce
    show "\<forall>v \<in> set ((i, c) # ws). dv_online (dev_at st2 (fst v)) \<longleftrightarrow>
        (\<exists>m \<in> set (ms1 @ ms2). m_device_index m = dv_device_index (dev_at st (fst v)))"
      using polled_online[OF s1(2,3) assms(2,3) ws d] by blast
    show "\<forall>j < length (rg_devices (wf_reg st)). j \<notin> fst ` set ((i, c) # ws) \<longrightarrow> dev_at st2 j = dev_at st j"
      using s2 s1(3) by auto
    have "same_devices (wf_reg st) (wf_reg st1)" using same_set_online[OF assms(3)] s1(3) by simp
    then show "same_devices (wf_reg st) (wf_reg st2)" using same_devices_trans s2 by blast
    show "reported_since st st2" using reported_since_trans[OF since] s2 by blast
    show "wf_devs st2 = wf_devs st" using s2 s1(4) by simp
    show "sends (\<lambda>x. \<exists>v \<in> set ((i, c) # ws). to_client (snd v) {get_pilot} x) (wf_io st) (wf_io st2)"
      by (rule sends_trans[OF sends_mono[OF s1(5)] sends_mono[OF io]]) auto
  qed
  then show ?thesis by blast
qed

lemma poll_all:
  assumes "distinct (map fst ws)" "\<forall>w \<in> set ws. fst w < length (rg_devices (wf_reg st))"
    and "distinct (map dv_device_index (rg_devices (wf_reg st)))"
    and "fold (poll_device js) ws st = st'"
  shows "\<exists>ms. polled ws st st' ms"
  using assms(1-3) unfolding assms(4)[symmetric]
proof (induction ws arbitrary: st)
  case Nil
  then show ?case by (auto simp: polled_def same_devices_def reported_since_def)
next
  case (Cons w ws)
  obtain i c where w: "w = (i, c)" by fastforce
  have i: "i < length (rg_devices (wf_reg st))" using Cons.prems(2) w by simp
  have "\<exists>ms. wf_reg (poll_device js w st) = set_online i (ms \<noteq> ([] :: hes_clme_msg list)) (wf_reg st)"
    using poll_device_effect[OF refl i] w by blast
  then obtain ms :: "hes_clme_msg list" where reg: "wf_reg (poll_device js w st) = set_online i (ms \<noteq> []) (wf_reg st)" by blast
  have "\<exists>ms. polled ws (poll_device js w st) (fold (poll_device js) ws (poll_device js w st)) ms"
    by (rule Cons.IH) (use Cons.prems reg in auto)
  then show ?case using polled_Cons[OF _ _ i] Cons.prems w by fastforce
qed

section \<open>What the module promises\<close>

text \<open>A message addresses a device that is online and has its object, by the device's index, or without an
  index when no other device could be meant.\<close>

definition addressed :: "hes_devreg \<Rightarrow> hes_clme_msg \<Rightarrow> nat \<Rightarrow> bool" where
  "addressed reg msg i \<longleftrightarrow>
     i < length (rg_devices reg) \<and> answers_at (rg_devices reg ! i) (m_path msg)
     \<and> (dv_device_index (rg_devices reg ! i) = m_device_index msg
        \<or> m_device_index msg = 0
          \<and> (\<forall>k < length (rg_devices reg). answers_at (rg_devices reg ! k) (m_path msg) \<longrightarrow> k = i))"

lemma object_found: "hes_dev_object_find d path = Some ob \<Longrightarrow> ob \<in> set (dv_objects d) \<and> do_path ob = path"
  by (auto simp: hes_dev_object_find_def find_Some_iff)

lemma wifi_target_Some:
  assumes "wifi_target st msg acc = Some (i, c, path)"
  shows "addressed (wf_reg st) msg i \<and> (i, c) \<in> set (wf_devs st) \<and> path = m_path msg
     \<and> (\<exists>ob \<in> set (dv_objects (dev_at st i)). do_path ob = path \<and> acc \<in> set (do_access ob))"
proof -
  obtain didx ob where t: "resolve_index (wf_reg st) (m_path msg) (m_device_index msg) = Some i"
      "find_open (wf_devs st) i = Some didx" "hes_dev_object_find (dev_at st i) (m_path msg) = Some ob"
      "acc \<in> set (do_access ob)" "c = snd (wf_devs st ! didx)" "path = do_path ob"
    using assms by (auto simp: wifi_target_def split: option.splits if_splits)
  have "(i, c) \<in> set (wf_devs st)"
    using t(5) first_index_Some[OF t(2)[unfolded find_open_def]] by (metis nth_mem prod.collapse)
  then show ?thesis
    using resolve_index_sound[OF t(1)] object_found[OF t(3)] t(4,6) by (auto simp: addressed_def)
qed

text \<open>A datagram a turn may send: a question to an open client, or what the received PUT asks for, to the
  client of the device it addresses, at an object that may be written.\<close>

definition wifi_datagram :: "wifi_env \<Rightarrow> wifi_state \<Rightarrow> string \<times> 16 word \<times> string \<Rightarrow> bool" where
  "wifi_datagram env st x \<longleftrightarrow>
     (\<exists>w \<in> set (wf_devs st). to_client (snd w) {get_pilot} x)
     \<or> (\<exists>msg i c ob. we_recv env = Some msg \<and> m_verb msg = HES_VERB_PUT \<and> (i, c) \<in> set (wf_devs st)
          \<and> addressed (wf_reg st) msg i \<and> ob \<in> set (dv_objects (dev_at st i)) \<and> do_path ob = m_path msg
          \<and> CHR ''w'' \<in> set (do_access ob) \<and> to_client c (asked (m_path msg) (m_payload msg)) x)"

lemma receive_sends:
  assumes "we_recv env = Some msg"
  shows "sends (wifi_datagram env st) (wf_io st) (wf_io (wifi_receive js msg st))
     \<and> wf_devs (wifi_receive js msg st) = wf_devs st \<and> wf_reg (wifi_receive js msg st) = wf_reg st"
proof -
  consider "m_verb msg = HES_VERB_PUT" | "m_verb msg = HES_VERB_GET" "m_verb msg \<noteq> HES_VERB_PUT"
    | "m_verb msg \<noteq> HES_VERB_PUT" "m_verb msg \<noteq> HES_VERB_GET" by blast
  then show ?thesis
  proof cases
    case 1
    show ?thesis
    proof (cases "wifi_target st msg CHR ''w''")
      case None
      then show ?thesis using 1 by (simp add: wifi_receive_def wifi_put_def)
    next
      case (Some t)
      obtain i c path where t: "t = (i, c, path)" by (rule prod_cases3)
      note w = wifi_target_Some[OF Some[unfolded t]]
      have "sends (to_client c (asked path (m_payload msg))) (wf_io st)
          (snd (write_object js c path (m_payload msg) (wf_io st)))" by (rule write_sends)
      then have "sends (wifi_datagram env st) (wf_io st) (snd (write_object js c path (m_payload msg) (wf_io st)))"
        by (rule sends_mono) (use w 1 assms in \<open>unfold wifi_datagram_def, blast\<close>)
      then show ?thesis using 1 Some t by (simp add: wifi_receive_def wifi_put_def)
    qed
  next
    case 2
    show ?thesis
    proof (cases "wifi_target st msg CHR ''r''")
      case None
      then show ?thesis using 2 by (simp add: wifi_receive_def wifi_get_def)
    next
      case (Some t)
      obtain i c path where t: "t = (i, c, path)" by (rule prod_cases3)
      note w = wifi_target_Some[OF Some[unfolded t]]
      obtain v io where rd: "read_object js c path 32 (wf_io st) = (v, io)" by fastforce
      have "sends (to_client c {get_pilot}) (wf_io st) io" using read_sends[of c "wf_io st" js path 32] rd by simp
      then have "sends (wifi_datagram env st) (wf_io st) io"
        by (rule sends_mono) (use w in \<open>unfold wifi_datagram_def, force\<close>)
      then show ?thesis using 2 Some t rd by (auto simp: wifi_receive_def wifi_get_def Let_def split: option.split)
    qed
  next
    case 3
    then show ?thesis by (simp add: wifi_receive_def)
  qed
qed

lemma update_keeps: "wf_io (wifi_update js m u st) = wf_io st" "wf_devs (wifi_update js m u st) = wf_devs st"
  "length (rg_devices (wf_reg (wifi_update js m u st))) = length (rg_devices (wf_reg st))"
  by (auto simp: wifi_update_def merge_slice_def split: sum.split prod.split)

text \<open>The clients of a running module belong to devices of its registry, one each, and no two devices share
  an index.\<close>

definition wifi_ok :: "wifi_state \<Rightarrow> bool" where
  "wifi_ok st \<longleftrightarrow> distinct (map fst (wf_devs st)) \<and> (\<forall>w \<in> set (wf_devs st). fst w < length (rg_devices (wf_reg st)))
     \<and> distinct (map dv_device_index (rg_devices (wf_reg st)))"

lemma update_ok: "wifi_ok (wifi_update js m u st) = wifi_ok st"
proof -
  have "map dv_device_index (rg_devices (wf_reg (wifi_update js m u st))) = map dv_device_index (rg_devices (wf_reg st))"
    by (auto simp: wifi_update_def merge_slice_def split: sum.split prod.split)
  then show ?thesis unfolding wifi_ok_def update_keeps by simp
qed

lemma poll_effect:
  assumes "wifi_ok st" "wifi_poll js now st = st'" "now - wf_last_poll st \<ge> POLL_PERIOD_SEC"
  shows "\<exists>ms. bus_sent (wf_bus st') = bus_sent (wf_bus st) @ ms
     \<and> (\<forall>m \<in> set ms. \<exists>w \<in> set (wf_devs st). m_device_index m = dv_device_index (dev_at st (fst w)))
     \<and> (\<forall>w \<in> set (wf_devs st). dv_online (dev_at st' (fst w)) \<longleftrightarrow> (\<exists>m \<in> set ms. m_device_index m = dv_device_index (dev_at st (fst w))))
     \<and> (\<forall>i < length (rg_devices (wf_reg st)). i \<notin> fst ` set (wf_devs st) \<longrightarrow> dev_at st' i = dev_at st i)
     \<and> same_devices (wf_reg st) (wf_reg st') \<and> reported_since st st' \<and> wf_devs st' = wf_devs st
     \<and> sends (\<lambda>x. \<exists>w \<in> set (wf_devs st). to_client (snd w) {get_pilot} x) (wf_io st) (wf_io st')"
proof -
  let ?st = "st\<lparr>wf_last_poll := now\<rparr>"
  have f: "fold (poll_device js) (wf_devs st) ?st = st'" using assms(2,3) by (simp add: wifi_poll_def)
  have r: "reported_since ?st st' = reported_since st st'" by (simp add: reported_since_def)
  show ?thesis using poll_all[OF _ _ _ f] assms(1) unfolding polled_def r wifi_ok_def by simp
qed

text \<open>C15: The bulbs are only told what the gateway asked. Whatever a turn receives, every datagram it sends is
  a question to one of the module's bulbs, or the command the received PUT stands for, to the bulb the
  PUT addresses: an online device that has the object and lets it be written. A turn that receives
  no PUT changes no bulb.\<close>

theorem wifi_commands_asked:
  assumes "wifi_ok st" "wifi_turn js mreg env st = st'"
  shows "sends (wifi_datagram env st) (wf_io st) (wf_io st') \<and> wifi_ok st'"
proof -
  define st1 where "st1 = (case we_recv env of None \<Rightarrow> st | Some msg \<Rightarrow> wifi_receive js msg st)"
  define st2 where "st2 = wifi_update js mreg (we_update env) st1"
  have st': "wifi_poll js (we_now env) st2 = st'"
    using assms(2) by (simp add: wifi_turn_def st1_def st2_def Let_def)
  have a: "sends (wifi_datagram env st) (wf_io st) (wf_io st1)" "wf_devs st1 = wf_devs st" "wf_reg st1 = wf_reg st"
    using receive_sends[of env _ st js] by (auto simp: st1_def split: option.split)
  have b: "wf_io st2 = wf_io st1" "wf_devs st2 = wf_devs st" "wifi_ok st2"
    using assms(1) a(2,3) by (simp_all add: st2_def update_keeps update_ok) (simp add: wifi_ok_def)
  show ?thesis
  proof (cases "we_now env - wf_last_poll st2 \<ge> POLL_PERIOD_SEC")
    case False
    then show ?thesis using st' a b by (simp add: wifi_poll_def)
  next
    case True
    from poll_effect[OF b(3) st' True] have c: "same_devices (wf_reg st2) (wf_reg st')" "wf_devs st' = wf_devs st2"
        "sends (\<lambda>x. \<exists>w \<in> set (wf_devs st2). to_client (snd w) {get_pilot} x) (wf_io st2) (wf_io st')" by blast+
    have "map dv_device_index (map (dv_online_update (\<lambda>_. False)) (rg_devices (wf_reg st')))
        = map dv_device_index (map (dv_online_update (\<lambda>_. False)) (rg_devices (wf_reg st2)))"
      using c(1) by (simp only: same_devices_def)
    then have "map dv_device_index (rg_devices (wf_reg st')) = map dv_device_index (rg_devices (wf_reg st2))"
      by (simp add: comp_def)
    then have "wifi_ok st'" using b(3) c(2) same_devices_length[OF c(1)] by (simp add: wifi_ok_def)
    moreover have "sends (wifi_datagram env st) (wf_io st2) (wf_io st')"
      by (rule sends_mono[OF c(3)]) (simp add: wifi_datagram_def b(2))
    ultimately show ?thesis using sends_trans[OF a(1)] b(1) by simp
  qed
qed

text \<open>The state a turn polls from: the message has been handled and the manifest's update merged.\<close>

definition before_poll :: "(string \<Rightarrow> json option) \<Rightarrow> hes_mreg \<Rightarrow> wifi_env \<Rightarrow> wifi_state \<Rightarrow> wifi_state" where
  "before_poll js mreg env st = wifi_update js mreg (we_update env)
     (case we_recv env of None \<Rightarrow> st | Some msg \<Rightarrow> wifi_receive js msg st)"

lemma turn_polls: "wifi_turn js mreg env st = wifi_poll js (we_now env) (before_poll js mreg env st)"
  by (simp add: wifi_turn_def before_poll_def Let_def)

lemma receive_keeps_time: "wf_last_poll (wifi_receive js msg st) = wf_last_poll st"
  by (simp add: wifi_receive_def wifi_put_def wifi_get_def Let_def split: option.split prod.split)

lemma update_keeps_time: "wf_last_poll (wifi_update js m u st) = wf_last_poll st"
  by (simp add: wifi_update_def split: sum.split prod.split)

lemma before_poll_ok:
  assumes "wifi_ok st"
  shows "wifi_ok (before_poll js mreg env st)" "wf_devs (before_poll js mreg env st) = wf_devs st"
    "wf_last_poll (before_poll js mreg env st) = wf_last_poll st"
proof -
  let ?st1 = "case we_recv env of None \<Rightarrow> st | Some msg \<Rightarrow> wifi_receive js msg st"
  have a: "wf_devs ?st1 = wf_devs st" "wf_reg ?st1 = wf_reg st"
    using receive_sends[of env _ st js] by (auto split: option.split)
  then show "wifi_ok (before_poll js mreg env st)" "wf_devs (before_poll js mreg env st) = wf_devs st"
    using assms by (simp_all add: before_poll_def update_keeps update_ok) (simp add: wifi_ok_def)
  show "wf_last_poll (before_poll js mreg env st) = wf_last_poll st"
    by (simp add: before_poll_def update_keeps_time receive_keeps_time split: option.split)
qed

text \<open>C16: The registry tells the truth about the bulbs. Let a turn of a well-formed state (the device indices of
  the registry are distinct, as are the open clients, each for a device of the registry) be due to poll. After
  it, a device of an open client is online exactly when the poll published a value of it; every device without
  an open client, and everything else the registry says, is as the turn's update had left it; and when the
  poll changed the registry, the last report to the manifest service is of this turn and shows the registry as
  it now is.\<close>

theorem wifi_presence:
  assumes "wifi_ok st" "wifi_turn js mreg env st = st'" "we_now env - wf_last_poll st \<ge> POLL_PERIOD_SEC"
    and "before_poll js mreg env st = st2"
  shows "\<exists>ms. bus_sent (wf_bus st') = bus_sent (wf_bus st2) @ ms
     \<and> (\<forall>w \<in> set (wf_devs st). dv_online (dev_at st' (fst w)) \<longleftrightarrow>
          (\<exists>m \<in> set ms. m_device_index m = dv_device_index (dev_at st2 (fst w))))
     \<and> (\<forall>i < length (rg_devices (wf_reg st2)). i \<notin> fst ` set (wf_devs st) \<longrightarrow> dev_at st' i = dev_at st2 i)
     \<and> same_devices (wf_reg st2) (wf_reg st')
     \<and> (wf_reg st' \<noteq> wf_reg st2 \<longrightarrow> wf_reported st' \<noteq> wf_reported st2 \<and> last (wf_reported st') = wf_reg st')"
proof -
  have ok: "wifi_ok st2" "wf_devs st2 = wf_devs st" "we_now env - wf_last_poll st2 \<ge> POLL_PERIOD_SEC"
    using before_poll_ok[OF assms(1), of js mreg env] assms(3,4) by simp_all
  have poll: "wifi_poll js (we_now env) st2 = st'" using assms(2,4) by (simp add: turn_polls)
  have "reported_since st2 st' \<Longrightarrow>
      wf_reg st' \<noteq> wf_reg st2 \<longrightarrow> wf_reported st' \<noteq> wf_reported st2 \<and> last (wf_reported st') = wf_reg st'"
    by (auto simp: reported_since_def split: if_splits)
  then show ?thesis using poll_effect[OF ok(1) poll ok(3)] unfolding ok(2) by blast
qed

section \<open>From the binding map to the bulb\<close>

lemma attempts_first:
  "send s \<Longrightarrow> wiz_attempts (Suc k) js send recv meth sz s n 0 = (r, s') \<Longrightarrow> Suc s \<le> s' \<and> s' \<le> s + Suc k"
proof -
  assume a: "send s" "wiz_attempts (Suc k) js send recv meth sz s n 0 = (r, s')"
  obtain w n1 ig1 where w: "wiz_wait js recv meth sz n 0 = (w, n1, ig1)" by (rule prod_cases3)
  have "ig1 \<le> WIZ_MAX_IGNORED_REPLIES" if "w = Timed_out" using wiz_wait_outcome[OF w] that by simp
  then show ?thesis
    using a w attempts_outcome[of k js send recv meth sz "Suc s" n1 ig1 r s'] by (cases w) auto
qed

lemma set_state_sends:
  assumes "inet_pton4 (wc_ip c)" "wn_send (io_net io (io_exchanges io)) 0"
  shows "\<exists>k \<in> {1, 2}. io_sent (snd (wiz_client_set_state js c on io))
     = io_sent io @ replicate k (wc_ip c, word_of_int (wc_port c), state_request on)"
proof -
  let ?net = "io_net io (io_exchanges io)"
  obtain r k where a: "wiz_attempts WIZ_SEND_ATTEMPTS js (wn_send ?net) (next_datagram (drop_stale (wn_queued ?net)) (wn_recv ?net))
      ''setPilot'' MAX_PACKET_BUF_SIZE 0 0 0 = (r, k)" by fastforce
  have "1 \<le> k \<and> k \<le> 2" using attempts_first[OF assms(2) a[unfolded numeral_2_eq_2]] by simp
  then have "k \<in> {1, 2}" by auto
  then show ?thesis
    using a assms(1) by (auto simp: wiz_client_set_state_def wiz_command_def wiz_send_recv_def)
qed

lemma put_bool_message:
  "m_payload (put_message op (d_of_bool b)) = (if b then ''1'' else ''0'')"
  "m_verb (put_message op r) = HES_VERB_PUT" "m_device_index (put_message op r) = op_out_device_index op"
  "m_path (put_message op r) = hes_strlcpy HES_PATH_MAX (op_out_dest_object op)"
  by (simp_all add: put_message_def d_of_bool_def hes_strlcpy_take)

lemma indexed_resolves:
  assumes "wifi_ok st" "i < length (rg_devices (wf_reg st))" "m_device_index msg = dv_device_index (dev_at st i)"
    and "dv_online (dev_at st i)" "hes_dev_object_find (dev_at st i) (m_path msg) = Some ob"
    and "(i, c) \<in> set (wf_devs st)" "acc \<in> set (do_access ob)"
  shows "wifi_target st msg acc = Some (i, c, m_path msg)"
proof -
  have inj: "j = i" if "j < length (rg_devices (wf_reg st))" "dv_device_index (dev_at st j) = dv_device_index (dev_at st i)" for j
    using assms(1,2) that by (simp add: wifi_ok_def distinct_conv_nth) metis
  obtain j where j: "index_by_di (wf_reg st) (m_device_index msg) = Some j"
    using assms(2,3) by (cases "index_by_di (wf_reg st) (m_device_index msg)")
      (auto simp: index_by_di_def first_index_None)
  then have "j = i" using inj assms(3) by (auto simp: index_by_di_def dest!: first_index_Some)
  then have r: "resolve_index (wf_reg st) (m_path msg) (m_device_index msg) = Some i"
    using j assms(4,5) by (simp add: resolve_index_def answers_at_def)
  obtain k where k: "find_open (wf_devs st) i = Some k"
    using assms(6) by (cases "find_open (wf_devs st) i") (auto simp: find_open_def first_index_None)
  have "wf_devs st ! k = (i, c)"
  proof -
    have "k < length (wf_devs st)" "fst (wf_devs st ! k) = i"
      using first_index_Some[OF k[unfolded find_open_def]] by simp_all
    moreover obtain k' where "k' < length (wf_devs st)" "wf_devs st ! k' = (i, c)"
      using assms(6) by (auto simp: in_set_conv_nth)
    ultimately have "k = k'" using assms(1) by (simp add: wifi_ok_def distinct_conv_nth) (metis fst_conv)
    then show ?thesis using \<open>wf_devs st ! k' = (i, c)\<close> by simp
  qed
  then show ?thesis using r k assms(5,7) object_found[OF assms(5)] by (simp add: wifi_target_def)
qed

text \<open>C14: From a row of the binding map to the light. The PUT with which a row sends out a truth value reaches
  the bulb of the device the row names as the command that switches it on or off accordingly -- once,
  or once more when the first is not answered in time -- and no other datagram is sent.\<close>

theorem row_switches_bulb:
  assumes "wifi_ok st" "op_out_dest_object op = HES_LX_LIGHT_CV"
    and "i < length (rg_devices (wf_reg st))" "dv_device_index (dev_at st i) = op_out_device_index op"
    and "dv_online (dev_at st i)" "hes_dev_object_find (dev_at st i) HES_LX_LIGHT_CV = Some ob" "CHR ''w'' \<in> set (do_access ob)"
    and "(i, c) \<in> set (wf_devs st)" "inet_pton4 (wc_ip c)" "wn_send (io_net (wf_io st) (io_exchanges (wf_io st))) 0"
  shows "\<exists>k \<in> {1, 2}. io_sent (wf_io (wifi_receive js (stamp bus (put_message op (d_of_bool b))) st))
     = io_sent (wf_io st) @ replicate k (wc_ip c, word_of_int (wc_port c), state_request b)"
proof -
  let ?m = "stamp bus (put_message op (d_of_bool b))"
  have f: "m_path ?m = HES_LX_LIGHT_CV" "m_verb ?m = HES_VERB_PUT" "m_payload ?m = (if b then ''1'' else ''0'')"
      "m_device_index ?m = op_out_device_index op"
    using assms(2) put_bool_message[of op] by (simp_all add: stamp_def hes_strlcpy_take)
  have "wifi_target st ?m CHR ''w'' = Some (i, c, HES_LX_LIGHT_CV)"
    using indexed_resolves[OF assms(1,3), of ?m ob c "CHR ''w''"] assms(4-8) f by simp
  then have "wf_io (wifi_receive js ?m st) = snd (wiz_client_set_state js c (payload_to_bool (m_payload ?m)) (wf_io st))"
    using f by (simp add: wifi_receive_def wifi_put_def write_object_def)
  moreover have "payload_to_bool (m_payload ?m) = b" using f(3) by (simp add: payload_to_bool_def)
  ultimately show ?thesis using set_state_sends[OF assms(9,10), of js b] by simp
qed

section \<open>A module with one bulb\<close>

definition bulb :: hes_device where
  "bulb = \<lparr>dv_device_index = 2, dv_net_ref_index = 0, dv_role = ''light'', dv_expected_hardware = [],
     dv_network_type = ''wifi'', dv_address = ''192.168.1.142'', dv_udp_port = WIZ_PORT, dv_online = True,
     dv_objects = [\<lparr>do_path = HES_LX_LIGHT_CV, do_access = ''rw''\<rparr>]\<rparr>"

definition silent_net :: wiz_net where
  "silent_net = \<lparr>wn_queued = [], wn_send = (\<lambda>_. True), wn_recv = (\<lambda>_. Expired)\<rparr>"

definition one_bulb :: wifi_state where
  "one_bulb = \<lparr>wf_reg = hes_devreg_init\<lparr>rg_devices := [bulb]\<rparr>,
     wf_devs = [(0, \<lparr>wc_ip = ''192.168.1.142'', wc_port = WIZ_PORT\<rparr>)], wf_bus = sample_bus,
     wf_io = \<lparr>io_net = (\<lambda>_. silent_net), io_exchanges = 0, io_sent = []\<rparr>, wf_last_poll = 0, wf_reported = []\<rparr>"

lemma one_bulb_ok: "wifi_ok one_bulb"
  by (simp add: wifi_ok_def one_bulb_def)

text \<open>The row switches the light on, and the bulb does not answer: the command is sent again.\<close>

theorem row_switches_bulb_witness:
  "\<exists>k \<in> {1, 2}. io_sent (wf_io (wifi_receive (\<lambda>_. None)
        (stamp sample_bus (put_message guarded_op (d_of_bool True)))
        one_bulb)) = replicate k (''192.168.1.142'', 38899, state_request True)"
proof -
  let ?c = "\<lparr>wc_ip = ''192.168.1.142'', wc_port = WIZ_PORT\<rparr>"
  have "hes_dev_object_find (dev_at one_bulb 0) HES_LX_LIGHT_CV = Some \<lparr>do_path = HES_LX_LIGHT_CV, do_access = ''rw''\<rparr>"
    by (simp add: one_bulb_def bulb_def hes_dev_object_find_def)
  from row_switches_bulb[OF one_bulb_ok _ _ _ _ this, of guarded_op ?c "\<lambda>_. None" sample_bus True]
  show ?thesis by (simp add: guarded_op_def sample_op_def one_bulb_def bulb_def sample_address silent_net_def)
qed

theorem wifi_commands_asked_witness:
  "\<exists>st'. wifi_turn (\<lambda>_. None) mreg_zero \<lparr>we_recv = None, we_update = Inl 5, we_now = 20\<rparr> one_bulb = st'
     \<and> wifi_ok st'"
  using wifi_commands_asked[OF one_bulb_ok refl] by blast

text \<open>A bulb that does not answer is reported offline.\<close>

theorem wifi_presence_witness:
  "\<exists>st'. wifi_turn (\<lambda>_. None) mreg_zero \<lparr>we_recv = None, we_update = Inl 5, we_now = 20\<rparr> one_bulb = st'
     \<and> \<not> dv_online (dev_at st' 0) \<and> last (wf_reported st') = wf_reg st'"
proof -
  let ?env = "\<lparr>we_recv = None, we_update = Inl 5, we_now = 20\<rparr>"
  define st' where "st' = wifi_turn (\<lambda>_. None) mreg_zero ?env one_bulb"
  have before: "before_poll (\<lambda>_. None) mreg_zero ?env one_bulb = one_bulb"
    by (simp add: before_poll_def wifi_update_def hes_mreg_recv_update_def)
  have due: "we_now ?env - wf_last_poll one_bulb \<ge> POLL_PERIOD_SEC" by (simp add: one_bulb_def)
  from wifi_presence[OF one_bulb_ok st'_def[symmetric] due before] obtain ms where
      "wf_reg st' \<noteq> wf_reg one_bulb \<longrightarrow> last (wf_reported st') = wf_reg st'" by blast
  moreover have "\<not> dv_online (dev_at st' 0)"
    unfolding st'_def turn_polls before
    using sample_address
    by (simp add: wifi_poll_def one_bulb_def bulb_def poll_device_def read_object_def wiz_client_get_state_def
        wiz_reading_def wiz_send_recv_def silent_net_def next_datagram_def wiz_wait.simps numeral_2_eq_2 set_online_def Let_def)
  moreover have "dv_online (dev_at one_bulb 0)" by (simp add: one_bulb_def bulb_def)
  ultimately show ?thesis unfolding st'_def[symmetric] by metis
qed

end
