(* ===== verification/BleLink.thy ===== *)
theory BleLink
  imports CLib
begin

text \<open>
  The Bluetooth connection manager (src/src/han/ble/hes_ble.h) and its two backends, of which the build
  takes one: the simulated radio (hes_ble.c) and BlueZ over D-Bus (hes_ble_bluez.c).

  \<open>time(NULL)\<close> is an argument \<open>now\<close>. What D-Bus answers and the signals it delivers during one poll are
  the record \<open>dbus\<close>; a call that only has an effect inside BlueZ (scanning, \<open>StartNotify\<close>,
  \<open>Disconnect\<close>) is left out, and so are the lines written to stderr. The files' static variables
  are the record \<open>bluez\<close>.
\<close>

abbreviation HES_BLE_MAX_DEVS :: nat where "HES_BLE_MAX_DEVS \<equiv> 16"

datatype hes_ble_state = HES_BLE_STATE_OFF | HES_BLE_STATE_CONNECTING | HES_BLE_STATE_ONLINE

record hes_ble_event =
  ev_device_index :: u32
  ev_is_online :: bool

record hes_ble_conn =
  cn_device_index :: u32
  cn_address :: string
  cn_state :: hes_ble_state
  cn_state_entered :: int
  cn_sim_powered :: bool
  cn_next_power_flip :: int
  cn_have_button :: bool
  cn_button_state :: int

text \<open>The first \<open>n\<close> entries of the array.\<close>

record hes_ble_mgr =
  mg_dev :: "hes_ble_conn list"
  mg_sim_connect_s :: int
  mg_sim_power_on_s :: int
  mg_sim_power_off_s :: int

text \<open>\<open>events[nev++]\<close>, while there is room.\<close>

definition emit :: "nat \<Rightarrow> u32 \<Rightarrow> bool \<Rightarrow> hes_ble_event list \<Rightarrow> hes_ble_event list" where
  "emit mx di up evs =
     (if length evs < mx then evs @ [\<lparr>ev_device_index = di, ev_is_online = up\<rparr>] else evs)"

section \<open>The simulated radio\<close>

definition sim_mgr_init :: "hes_ble_mgr" where
  "sim_mgr_init = \<lparr>mg_dev = [], mg_sim_connect_s = 1, mg_sim_power_on_s = 20, mg_sim_power_off_s = 8\<rparr>"

definition sim_mgr_add :: "int \<Rightarrow> u32 \<Rightarrow> string \<Rightarrow> hes_ble_mgr \<Rightarrow> int \<times> hes_ble_mgr" where
  "sim_mgr_add now di address m =
     (case first_index (\<lambda>d. cn_device_index d = di) (mg_dev m) of
        Some i \<Rightarrow> (int i, m)
      | None \<Rightarrow>
          (if length (mg_dev m) \<ge> HES_BLE_MAX_DEVS then (- 1, m)
           else (int (length (mg_dev m)),
                 m\<lparr>mg_dev := mg_dev m @
                   [\<lparr>cn_device_index = di, cn_address = [], cn_state = HES_BLE_STATE_CONNECTING,
                     cn_state_entered = now, cn_sim_powered = True,
                     cn_next_power_flip = now + mg_sim_power_on_s m,
                     cn_have_button = False, cn_button_state = 0\<rparr>]\<rparr>)))"

text \<open>One device's turn of the poll: the power, then the connection.\<close>

definition sim_power :: "hes_ble_mgr \<Rightarrow> int \<Rightarrow> nat \<Rightarrow> hes_ble_conn \<times> hes_ble_event list \<Rightarrow> hes_ble_conn \<times> hes_ble_event list" where
  "sim_power m now mx de =
     (let (d, evs) = de
      in if cn_next_power_flip d \<le> now then
           (let on = (\<not> cn_sim_powered d);
                d = d\<lparr>cn_sim_powered := on,
                      cn_next_power_flip := now + (if on then mg_sim_power_on_s m else mg_sim_power_off_s m)\<rparr>
            in if on then (d\<lparr>cn_state := HES_BLE_STATE_CONNECTING, cn_state_entered := now\<rparr>, evs)
               else (d\<lparr>cn_state := HES_BLE_STATE_OFF, cn_state_entered := now\<rparr>,
                     if cn_state d = HES_BLE_STATE_ONLINE then emit mx (cn_device_index d) False evs else evs))
         else (d, evs))"

definition sim_connect :: "hes_ble_mgr \<Rightarrow> int \<Rightarrow> nat \<Rightarrow> hes_ble_conn \<times> hes_ble_event list \<Rightarrow> hes_ble_conn \<times> hes_ble_event list" where
  "sim_connect m now mx de =
     (let (d, evs) = de
      in if cn_sim_powered d \<and> cn_state d = HES_BLE_STATE_CONNECTING \<and> now - cn_state_entered d \<ge> mg_sim_connect_s m
         then (d\<lparr>cn_state := HES_BLE_STATE_ONLINE, cn_state_entered := now\<rparr>, emit mx (cn_device_index d) True evs)
         else (d, evs))"

fun sim_poll_loop ::
    "hes_ble_mgr \<Rightarrow> int \<Rightarrow> nat \<Rightarrow> hes_ble_conn list \<Rightarrow> hes_ble_event list \<Rightarrow> hes_ble_conn list \<times> hes_ble_event list" where
  "sim_poll_loop m now mx [] evs = ([], evs)"
| "sim_poll_loop m now mx (d # ds) evs =
     (let (d, evs) = sim_connect m now mx (sim_power m now mx (d, evs));
          (ds, evs) = sim_poll_loop m now mx ds evs
      in (d # ds, evs))"

definition sim_mgr_poll :: "int \<Rightarrow> nat \<Rightarrow> hes_ble_mgr \<Rightarrow> hes_ble_event list \<times> hes_ble_mgr" where
  "sim_mgr_poll now mx m =
     (let (ds, evs) = sim_poll_loop m now mx (mg_dev m) [] in (evs, m\<lparr>mg_dev := ds\<rparr>))"

definition sim_mgr_button :: "hes_ble_mgr \<Rightarrow> u32 \<Rightarrow> int option" where
  "sim_mgr_button m di = None"

section \<open>BlueZ\<close>

abbreviation DEVICE_INTERFACE :: string where "DEVICE_INTERFACE \<equiv> ''org.bluez.Device1''"
abbreviation RESOLVE_TIMEOUT_MS :: nat where "RESOLVE_TIMEOUT_MS \<equiv> 6000"
abbreviation SCAN_RETRY_S :: int where "SCAN_RETRY_S \<equiv> 3"
abbreviation RETRY_BASE_S :: int where "RETRY_BASE_S \<equiv> 1"
abbreviation RETRY_MAX_S :: int where "RETRY_MAX_S \<equiv> 10"

text \<open>\<open>bd_dev\<close> and \<open>bd_btn\<close> are whether the proxy is there.\<close>

record bluez_dev =
  bd_device_index :: u32
  bd_mac :: string
  bd_path :: string
  bd_connected :: bool
  bd_dev :: bool
  bd_btn :: bool
  bd_next_try :: int
  bd_attempt :: nat
  bd_scanning :: bool
  bd_have_button :: bool
  bd_button_state :: int

record bluez =
  bz_conn :: bool
  bz_devs :: "bluez_dev list"
  bz_mgr :: hes_ble_mgr

text \<open>A signal: the properties of the device at an object path changed, with the new \<open>Connected\<close> if it
  is among them; or those of the button characteristic of the device in a slot, with the new \<open>Value\<close>.\<close>

datatype dbus_signal = Device_props string "bool option" | Button_value nat "u8 list option"

text \<open>An object of \<open>GetManagedObjects\<close>: its path, and its interfaces with their \<open>Address\<close>.\<close>

type_synonym managed_object = "string \<times> (string \<times> string option) list"

text \<open>One poll, seen from D-Bus. What is asked for one device carries its place in the manager's array:
  the managed objects (None: no answer), whether the proxies can be made and \<open>Connect\<close> succeeds, the
  cached \<open>Connected\<close>, and for each spin of the wait the signals it delivers and the cached
  \<open>ServicesResolved\<close>. \<open>db_shift\<close> is what \<open>RETRY_BASE_S << attempt\<close> gives where C leaves it undefined.\<close>

record dbus =
  db_now :: int
  db_signals :: "dbus_signal list"
  db_managed :: "nat \<Rightarrow> managed_object list option"
  db_dev_proxy :: "nat \<Rightarrow> bool"
  db_connect :: "nat \<Rightarrow> bool"
  db_wait :: "nat \<Rightarrow> nat \<Rightarrow> dbus_signal list \<times> bool option"
  db_cached :: "nat \<Rightarrow> bool option"
  db_btn_proxy :: "nat \<Rightarrow> bool"
  db_shift :: "nat \<Rightarrow> int"

definition update_dev :: "nat \<Rightarrow> (bluez_dev \<Rightarrow> bluez_dev) \<Rightarrow> bluez \<Rightarrow> bluez" where
  "update_dev i f bz = bz\<lparr>bz_devs := (bz_devs bz)[i := f (bz_devs bz ! i)]\<rparr>"

definition find_slot :: "bluez \<Rightarrow> u32 \<Rightarrow> nat option" where
  "find_slot bz di = first_index (\<lambda>d. bd_device_index d = di) (bz_devs bz)"

definition on_device_props :: "string \<Rightarrow> bool option \<Rightarrow> bluez \<Rightarrow> bluez" where
  "on_device_props object_path v bz =
     (case first_index (\<lambda>d. bd_path d \<noteq> [] \<and> bd_path d = object_path) (bz_devs bz) of
        None \<Rightarrow> bz
      | Some i \<Rightarrow> (case v of None \<Rightarrow> bz | Some c \<Rightarrow> update_dev i (\<lambda>d. d\<lparr>bd_connected := c\<rparr>) bz))"

text \<open>The handler is connected while the device has a button proxy.\<close>

definition on_btn_value :: "nat \<Rightarrow> u8 list option \<Rightarrow> bluez \<Rightarrow> bluez" where
  "on_btn_value i v bz =
     (if i < length (bz_devs bz) \<and> bd_btn (bz_devs bz ! i) then
        (case v of
           Some (b # bs) \<Rightarrow> update_dev i (\<lambda>d. d\<lparr>bd_have_button := True, bd_button_state := (if b \<noteq> 0 then 1 else 0)\<rparr>) bz
         | _ \<Rightarrow> bz)
      else bz)"

primrec deliver :: "dbus_signal \<Rightarrow> bluez \<Rightarrow> bluez" where
  "deliver (Device_props path v) bz = on_device_props path v bz"
| "deliver (Button_value i v) bz = on_btn_value i v bz"

definition resolve_path :: "string \<Rightarrow> managed_object list option \<Rightarrow> string option" where
  "resolve_path mac objects =
     (case objects of
        None \<Rightarrow> None
      | Some objs \<Rightarrow>
          map_option fst
            (find (\<lambda>(path, ifaces). \<exists>(name, addr) \<in> set ifaces.
                name = DEVICE_INTERFACE
                \<and> (case addr of None \<Rightarrow> False | Some a \<Rightarrow> map c_tolower a = map c_tolower mac)) objs))"

text \<open>Up to so many spins of 50 ms; whether the services were resolved.\<close>

fun wait_resolved :: "(nat \<Rightarrow> dbus_signal list \<times> bool option) \<Rightarrow> nat \<Rightarrow> nat \<Rightarrow> bluez \<Rightarrow> bool \<times> bluez" where
  "wait_resolved spin 0 i bz = (False, bz)"
| "wait_resolved spin (Suc k) i bz =
     (let (signals, resolved) = spin i; bz = fold deliver signals bz
      in if resolved = Some True then (True, bz) else wait_resolved spin k (Suc i) bz)"

definition unsubscribe_button :: "bluez_dev \<Rightarrow> bluez_dev" where
  "unsubscribe_button d = d\<lparr>bd_btn := False, bd_have_button := False, bd_button_state := 0\<rparr>"

definition subscribe_button :: "bool \<Rightarrow> bool \<Rightarrow> bluez_dev \<Rightarrow> bluez_dev" where
  "subscribe_button conn proxy d =
     (if bd_btn d \<or> \<not> conn \<or> bd_path d = [] then d else d\<lparr>bd_btn := proxy\<rparr>)"

definition bluez_init :: "bool \<Rightarrow> bluez" where
  "bluez_init bus =
     \<lparr>bz_conn = bus, bz_devs = [],
      bz_mgr = \<lparr>mg_dev = [], mg_sim_connect_s = 0, mg_sim_power_on_s = 0, mg_sim_power_off_s = 0\<rparr>\<rparr>"

definition bluez_add :: "int \<Rightarrow> u32 \<Rightarrow> string \<Rightarrow> bluez \<Rightarrow> int \<times> bluez" where
  "bluez_add now di address bz =
     (if find_slot bz di \<noteq> None then (0, bz)
      else if length (bz_devs bz) \<ge> HES_BLE_MAX_DEVS \<or> length (mg_dev (bz_mgr bz)) \<ge> HES_BLE_MAX_DEVS then (- 1, bz)
      else
        let c = \<lparr>cn_device_index = di, cn_address = hes_strlcpy 64 address, cn_state = HES_BLE_STATE_OFF,
                 cn_state_entered = now, cn_sim_powered = False, cn_next_power_flip = 0,
                 cn_have_button = False, cn_button_state = 0\<rparr>;
            d = \<lparr>bd_device_index = di, bd_mac = hes_strlcpy 64 address, bd_path = [], bd_connected = False,
                 bd_dev = False, bd_btn = False, bd_next_try = now, bd_attempt = 0, bd_scanning = False,
                 bd_have_button = False, bd_button_state = 0\<rparr>
        in (int (length (bz_devs bz)),
            bz\<lparr>bz_devs := bz_devs bz @ [d], bz_mgr := (bz_mgr bz)\<lparr>mg_dev := mg_dev (bz_mgr bz) @ [c]\<rparr>\<rparr>))"

definition enter_state :: "nat \<Rightarrow> hes_ble_state \<Rightarrow> int \<Rightarrow> bluez \<Rightarrow> bluez" where
  "enter_state i s now bz =
     bz\<lparr>bz_mgr := (bz_mgr bz)\<lparr>mg_dev := (mg_dev (bz_mgr bz))
       [i := (mg_dev (bz_mgr bz) ! i)\<lparr>cn_state := s, cn_state_entered := now\<rparr>]\<rparr>\<rparr>"

text \<open>The path is looked for while it is unknown.\<close>

definition bluez_discover :: "dbus \<Rightarrow> nat \<Rightarrow> bluez_dev \<Rightarrow> bluez_dev" where
  "bluez_discover db i d =
     (if bd_path d = [] \<and> bd_next_try d \<le> db_now db then
        (case resolve_path (bd_mac d) (db_managed db i) of
           Some p \<Rightarrow> d\<lparr>bd_path := hes_strlcpy 256 p, bd_scanning := False\<rparr>
         | None \<Rightarrow> d\<lparr>bd_scanning := True\<rparr>)\<lparr>bd_next_try := db_now db + SCAN_RETRY_S\<rparr>
      else d)"

text \<open>Connected: watched for the loss of the link.\<close>

definition read_connected :: "dbus \<Rightarrow> nat \<Rightarrow> bluez_dev \<Rightarrow> bluez_dev" where
  "read_connected db i d =
     (if bd_dev d then (case db_cached db i of Some c \<Rightarrow> d\<lparr>bd_connected := c\<rparr> | None \<Rightarrow> d) else d)"

definition lose_link :: "dbus \<Rightarrow> bluez_dev \<Rightarrow> bluez_dev" where
  "lose_link db d = (unsubscribe_button d)\<lparr>bd_attempt := 0, bd_next_try := db_now db + RETRY_BASE_S\<rparr>"

definition bluez_watch :: "dbus \<Rightarrow> nat \<Rightarrow> nat \<Rightarrow> nat \<Rightarrow> bluez \<times> hes_ble_event list \<Rightarrow> bluez \<times> hes_ble_event list" where
  "bluez_watch db mx i s be =
     (let (bz, evs) = be; bz = update_dev s (read_connected db i) bz; d = bz_devs bz ! s
      in if bd_dev d \<and> \<not> bd_connected d then
           (enter_state i HES_BLE_STATE_OFF (db_now db) (update_dev s (lose_link db) bz),
            emit mx (bd_device_index d) False evs)
         else (bz, evs))"

text \<open>The backoff: the attempts have been counted before the shift.\<close>

definition retry_delay :: "(nat \<Rightarrow> int) \<Rightarrow> nat \<Rightarrow> int" where
  "retry_delay shift attempt =
     (let delay = (if attempt < 31 then RETRY_BASE_S * 2 ^ attempt else shift attempt)
      in if RETRY_MAX_S < delay then RETRY_MAX_S else delay)"

definition count_failure :: "dbus \<Rightarrow> bluez_dev \<Rightarrow> bluez_dev" where
  "count_failure db d =
     d\<lparr>bd_attempt := Suc (bd_attempt d),
       bd_next_try := db_now db + retry_delay (db_shift db) (Suc (bd_attempt d))\<rparr>"

definition connect_failed :: "dbus \<Rightarrow> nat \<Rightarrow> nat \<Rightarrow> bluez \<Rightarrow> bluez" where
  "connect_failed db i s bz = update_dev s (count_failure db) (enter_state i HES_BLE_STATE_OFF (db_now db) bz)"

definition make_proxy :: "dbus \<Rightarrow> nat \<Rightarrow> bluez_dev \<Rightarrow> bluez_dev" where
  "make_proxy db i d = (if bd_dev d then d else d\<lparr>bd_dev := db_dev_proxy db i\<rparr>)"

definition link_up :: "bool \<Rightarrow> dbus \<Rightarrow> nat \<Rightarrow> bluez_dev \<Rightarrow> bluez_dev" where
  "link_up conn db i d =
     subscribe_button conn (db_btn_proxy db i)
       (d\<lparr>bd_connected := (db_cached db i \<noteq> Some False), bd_attempt := 0, bd_next_try := 0\<rparr>)"

text \<open>Not connected: an attempt, once it is due.\<close>

definition bluez_connect :: "dbus \<Rightarrow> nat \<Rightarrow> nat \<Rightarrow> nat \<Rightarrow> bluez \<times> hes_ble_event list \<Rightarrow> bluez \<times> hes_ble_event list" where
  "bluez_connect db mx i s be =
     (let (bz, evs) = be; d = bz_devs bz ! s
      in if bd_path d = [] \<or> db_now db < bd_next_try d then (bz, evs)
         else let bz = update_dev s (make_proxy db i) bz
         in if \<not> bd_dev (bz_devs bz ! s) then (connect_failed db i s bz, evs)
         else let bz = enter_state i HES_BLE_STATE_CONNECTING (db_now db) bz
         in if \<not> db_connect db i then (connect_failed db i s bz, evs)
         else let (resolved, bz) = wait_resolved (db_wait db i) (RESOLVE_TIMEOUT_MS div 50) 0 bz
         in if \<not> resolved then (connect_failed db i s bz, evs)
         else (enter_state i HES_BLE_STATE_ONLINE (db_now db) (update_dev s (link_up (bz_conn bz) db i) bz),
               emit mx (bd_device_index d) True evs))"

definition bluez_poll_dev :: "dbus \<Rightarrow> nat \<Rightarrow> nat \<Rightarrow> bluez \<times> hes_ble_event list \<Rightarrow> bluez \<times> hes_ble_event list" where
  "bluez_poll_dev db mx i be =
     (let (bz, evs) = be
      in case find_slot bz (cn_device_index (mg_dev (bz_mgr bz) ! i)) of
           None \<Rightarrow> (bz, evs)
         | Some s \<Rightarrow>
             (if \<not> bz_conn bz then (bz, evs)
              else let bz = update_dev s (bluez_discover db i) bz
              in if cn_state (mg_dev (bz_mgr bz) ! i) = HES_BLE_STATE_ONLINE
                 then bluez_watch db mx i s (bz, evs)
                 else bluez_connect db mx i s (bz, evs)))"

definition bluez_poll :: "dbus \<Rightarrow> nat \<Rightarrow> bluez \<Rightarrow> hes_ble_event list \<times> bluez" where
  "bluez_poll db mx bz =
     (let (bz, evs) = fold (bluez_poll_dev db mx) [0..<length (mg_dev (bz_mgr bz))] (fold deliver (db_signals db) bz, [])
      in (evs, bz))"

definition bluez_close :: "bluez \<Rightarrow> bluez" where
  "bluez_close bz = bz\<lparr>bz_conn := False, bz_devs := []\<rparr>"

definition bluez_button :: "bluez \<Rightarrow> u32 \<Rightarrow> int option" where
  "bluez_button bz di =
     (case find (\<lambda>d. bd_device_index d = di) (bz_devs bz) of
        None \<Rightarrow> None
      | Some d \<Rightarrow> if bd_have_button d then Some (bd_button_state d) else None)"

section \<open>What a poll tells\<close>

text \<open>The events that lead from one state of the devices to another: one for every device whose link came
  up or was lost, in the order of the array.\<close>

definition is_up :: "hes_ble_conn \<Rightarrow> bool" where
  "is_up d \<longleftrightarrow> cn_state d = HES_BLE_STATE_ONLINE"

definition change :: "hes_ble_conn \<Rightarrow> hes_ble_conn \<Rightarrow> hes_ble_event list" where
  "change d d' =
     (if is_up d' = is_up d then [] else [\<lparr>ev_device_index = cn_device_index d, ev_is_online = is_up d'\<rparr>])"

fun changes :: "hes_ble_conn list \<Rightarrow> hes_ble_conn list \<Rightarrow> hes_ble_event list" where
  "changes (d # ds) (d' # ds') = change d d' @ changes ds ds'"
| "changes _ _ = []"

text \<open>The contract of a backend: the events of a poll are exactly the changes of its links, the devices
  stay as they are and are told apart by their index.\<close>

locale link_backend =
  fixes poll :: "'e \<Rightarrow> nat \<Rightarrow> 'm \<Rightarrow> hes_ble_event list \<times> 'm"
    and conns :: "'m \<Rightarrow> hes_ble_conn list"
    and ok :: "'m \<Rightarrow> bool"
  assumes indices: "ok m \<Longrightarrow> distinct (map cn_device_index (conns m))"
    and kept: "ok m \<Longrightarrow> length (conns m) \<le> mx \<Longrightarrow> poll e mx m = (evs, m') \<Longrightarrow>
       ok m' \<and> map cn_device_index (conns m') = map cn_device_index (conns m)"
    and told: "ok m \<Longrightarrow> length (conns m) \<le> mx \<Longrightarrow> poll e mx m = (evs, m') \<Longrightarrow> evs = changes (conns m) (conns m')"

section \<open>The simulated radio keeps the contract\<close>

text \<open>A tag without power is not online.\<close>

definition sim_ok :: "hes_ble_mgr \<Rightarrow> bool" where
  "sim_ok m \<longleftrightarrow> distinct (map cn_device_index (mg_dev m)) \<and> (\<forall>d \<in> set (mg_dev m). is_up d \<longrightarrow> cn_sim_powered d)"

lemma sim_connect_change:
  assumes "sim_connect m now mx (d, evs) = (d', evs')" "is_up d \<longrightarrow> cn_sim_powered d" "length evs < mx"
  shows "evs' = evs @ change d d' \<and> cn_device_index d' = cn_device_index d \<and> (is_up d' \<longrightarrow> cn_sim_powered d')"
proof (cases "cn_sim_powered d \<and> cn_state d = HES_BLE_STATE_CONNECTING \<and> now - cn_state_entered d \<ge> mg_sim_connect_s m")
  case True
  then have "d' = d\<lparr>cn_state := HES_BLE_STATE_ONLINE, cn_state_entered := now\<rparr>" "evs' = emit mx (cn_device_index d) True evs"
    using assms(1) by (simp_all add: sim_connect_def)
  then show ?thesis using True assms(3) by (simp add: emit_def change_def is_up_def)
next
  case False
  then have "d' = d" "evs' = evs" using assms(1) unfolding sim_connect_def Let_def prod.case by (simp_all only: if_False prod.inject)
  then show ?thesis using assms(2) by (simp add: change_def)
qed

lemma sim_device:
  assumes "sim_connect m now mx (sim_power m now mx (d, evs)) = (d', evs')" "is_up d \<longrightarrow> cn_sim_powered d" "length evs < mx"
  shows "evs' = evs @ change d d' \<and> cn_device_index d' = cn_device_index d \<and> (is_up d' \<longrightarrow> cn_sim_powered d')"
proof -
  obtain d1 evs1 where p: "sim_power m now mx (d, evs) = (d1, evs1)" by (rule prod.exhaust)
  consider (stays) "d1 = d" "evs1 = evs"
    | (off) "evs1 = evs @ change d d1" "cn_device_index d1 = cn_device_index d" "\<not> cn_sim_powered d1" "\<not> is_up d1"
    | (on) "evs1 = evs" "cn_device_index d1 = cn_device_index d" "cn_sim_powered d1" "\<not> is_up d1" "\<not> is_up d"
    using p assms(2,3)
    by (cases "cn_next_power_flip d \<le> now"; cases "cn_sim_powered d")
      (auto simp: sim_power_def emit_def change_def is_up_def Let_def)
  then show ?thesis
  proof cases
    case stays
    then show ?thesis using sim_connect_change[of m now mx d evs d' evs'] assms p by simp
  next
    case off
    then have "d' = d1" "evs' = evs1" using assms(1) unfolding p by (auto simp: sim_connect_def)
    then show ?thesis using off by simp
  next
    case on
    then have "evs' = evs1 @ change d1 d' \<and> cn_device_index d' = cn_device_index d1 \<and> (is_up d' \<longrightarrow> cn_sim_powered d')"
      using sim_connect_change[of m now mx d1 evs1 d' evs'] assms p by simp
    then show ?thesis using on by (simp add: change_def)
  qed
qed

lemma sim_poll_loop_changes:
  assumes "sim_poll_loop m now mx ds evs = (ds', evs')" "\<forall>d \<in> set ds. is_up d \<longrightarrow> cn_sim_powered d"
    and "length evs + length ds \<le> mx"
  shows "evs' = evs @ changes ds ds' \<and> map cn_device_index ds' = map cn_device_index ds
     \<and> (\<forall>d \<in> set ds'. is_up d \<longrightarrow> cn_sim_powered d)"
  using assms
proof (induction ds arbitrary: evs ds' evs')
  case (Cons d ds)
  obtain d1 evs1 where 1: "sim_connect m now mx (sim_power m now mx (d, evs)) = (d1, evs1)" by (rule prod.exhaust)
  obtain ds2 evs2 where 2: "sim_poll_loop m now mx ds evs1 = (ds2, evs2)" by (rule prod.exhaust)
  have d1: "evs1 = evs @ change d d1" "cn_device_index d1 = cn_device_index d" "is_up d1 \<longrightarrow> cn_sim_powered d1"
    using sim_device[OF 1] Cons.prems by auto
  have "length (change d d1) \<le> 1" by (simp add: change_def)
  then have "length evs1 + length ds \<le> mx" using d1(1) Cons.prems(3) by simp
  from Cons.IH[OF 2 _ this] show ?case using Cons.prems d1 1 2 by (auto simp: Let_def)
qed simp

interpretation sim: link_backend sim_mgr_poll mg_dev sim_ok
proof
  fix m :: hes_ble_mgr
  assume "sim_ok m"
  then show "distinct (map cn_device_index (mg_dev m))" by (simp add: sim_ok_def)
next
  fix m m' :: hes_ble_mgr and mx now evs
  assume m: "sim_ok m" "length (mg_dev m) \<le> mx" "sim_mgr_poll now mx m = (evs, m')"
  obtain ds evs1 where l: "sim_poll_loop m now mx (mg_dev m) [] = (ds, evs1)" by (rule prod.exhaust)
  note c = sim_poll_loop_changes[OF l]
  have m': "m' = m\<lparr>mg_dev := ds\<rparr>" "evs = evs1" using m(3) l by (auto simp: sim_mgr_poll_def)
  show "sim_ok m' \<and> map cn_device_index (mg_dev m') = map cn_device_index (mg_dev m)"
    using c m unfolding m' sim_ok_def by auto
  show "evs = changes (mg_dev m) (mg_dev m')" using c m unfolding m' sim_ok_def by auto
qed

section \<open>BlueZ keeps the contract\<close>

abbreviation bz_conns :: "bluez \<Rightarrow> hes_ble_conn list" where "bz_conns bz \<equiv> mg_dev (bz_mgr bz)"

abbreviation bz_indices :: "bluez \<Rightarrow> u32 list" where "bz_indices bz \<equiv> map bd_device_index (bz_devs bz)"

definition bluez_ok :: "bluez \<Rightarrow> bool" where
  "bluez_ok bz \<longleftrightarrow> distinct (map cn_device_index (bz_conns bz))"

lemma update_dev_keeps [simp]:
  "bz_mgr (update_dev s f bz) = bz_mgr bz" "bz_conn (update_dev s f bz) = bz_conn bz"
  by (simp_all add: update_dev_def)

lemma update_dev_indices:
  "(\<And>d. bd_device_index (f d) = bd_device_index d) \<Longrightarrow> bz_indices (update_dev s f bz) = bz_indices bz"
  by (cases "s < length (bz_devs bz)") (auto simp: update_dev_def list_eq_iff_nth_eq nth_list_update)

lemma enter_state_keeps [simp]:
  "bz_devs (enter_state i s now bz) = bz_devs bz" "bz_conn (enter_state i s now bz) = bz_conn bz"
  "bz_conns (enter_state i s now bz) = (bz_conns bz)[i := (bz_conns bz ! i)\<lparr>cn_state := s, cn_state_entered := now\<rparr>]"
  by (simp_all add: enter_state_def)

lemma deliver_keeps [simp]: "bz_mgr (deliver s bz) = bz_mgr bz" "bz_indices (deliver s bz) = bz_indices bz"
  by (cases s; auto simp: on_device_props_def on_btn_value_def update_dev_indices split: option.split list.split)+

lemma delivered_keeps [simp]:
  "bz_mgr (fold deliver ss bz) = bz_mgr bz" "bz_indices (fold deliver ss bz) = bz_indices bz"
  by (induction ss arbitrary: bz) simp_all

lemma wait_keeps: "wait_resolved spin k i bz = (r, bz') \<Longrightarrow> bz_mgr bz' = bz_mgr bz \<and> bz_indices bz' = bz_indices bz"
proof (induction k arbitrary: i bz)
  case (Suc k)
  obtain ss res where s: "spin i = (ss, res)" by (rule prod.exhaust)
  show ?case
  proof (cases "res = Some True")
    case True
    then have "bz' = fold deliver ss bz" using Suc.prems s by simp
    then show ?thesis by simp
  next
    case False
    then have "wait_resolved spin k (Suc i) (fold deliver ss bz) = (r, bz')" using Suc.prems s by simp
    from Suc.IH[OF this] show ?thesis by simp
  qed
qed simp

text \<open>One device's turn changes the device at \<open>i\<close> only, and tells the change.\<close>

definition device_turn :: "nat \<Rightarrow> bluez \<times> hes_ble_event list \<Rightarrow> bluez \<times> hes_ble_event list \<Rightarrow> bool" where
  "device_turn i a b \<longleftrightarrow>
     (\<exists>d. bz_conns (fst b) = (bz_conns (fst a))[i := d] \<and> cn_device_index d = cn_device_index (bz_conns (fst a) ! i)
        \<and> snd b = snd a @ change (bz_conns (fst a) ! i) d \<and> bz_indices (fst b) = bz_indices (fst a))"

lemma device_turn_same:
  "bz_conns bz' = bz_conns bz \<Longrightarrow> bz_indices bz' = bz_indices bz \<Longrightarrow> device_turn i (bz, evs) (bz', evs)"
  unfolding device_turn_def by (intro exI[of _ "bz_conns bz ! i"]) (simp add: change_def)

lemma device_turn_enter:
  assumes "bz_conns bz' = (bz_conns bz)[i := (bz_conns bz ! i)\<lparr>cn_state := s, cn_state_entered := now\<rparr>]"
    "bz_indices bz' = bz_indices bz"
    "evs' = evs @ change (bz_conns bz ! i) ((bz_conns bz ! i)\<lparr>cn_state := s, cn_state_entered := now\<rparr>)"
  shows "device_turn i (bz, evs) (bz', evs')"
  using assms unfolding device_turn_def by (intro exI[of _ "(bz_conns bz ! i)\<lparr>cn_state := s, cn_state_entered := now\<rparr>"]) simp

lemma device_steps_index [simp]:
  "bd_device_index (read_connected db i d) = bd_device_index d" "bd_device_index (lose_link db d) = bd_device_index d"
  "bd_device_index (count_failure db d) = bd_device_index d" "bd_device_index (make_proxy db i d) = bd_device_index d"
  "bd_device_index (link_up c db i d) = bd_device_index d" "bd_device_index (bluez_discover db i d) = bd_device_index d"
  by (simp_all add: read_connected_def lose_link_def unsubscribe_button_def count_failure_def make_proxy_def
      link_up_def subscribe_button_def bluez_discover_def split: option.split)

lemma connect_failed_turn:
  assumes "bz_conns bz1 = bz_conns bz \<or> bz_conns bz1 = (bz_conns bz)[i := (bz_conns bz ! i)\<lparr>cn_state := s, cn_state_entered := t\<rparr>]"
    "bz_indices bz1 = bz_indices bz" "\<not> is_up (bz_conns bz ! i)" "i < length (bz_conns bz)"
  shows "device_turn i (bz, evs) (connect_failed db i k bz1, evs)"
  by (rule device_turn_enter[where s = HES_BLE_STATE_OFF and now = "db_now db"])
    (use assms in \<open>auto simp: connect_failed_def update_dev_indices change_def is_up_def\<close>)

lemma bluez_watch_turn:
  assumes "bd_device_index (bz_devs bz ! s) = cn_device_index (bz_conns bz ! i)" "s < length (bz_devs bz)"
    "is_up (bz_conns bz ! i)" "length evs < mx" "bluez_watch db mx i s (bz, evs) = (bz', evs')"
  shows "device_turn i (bz, evs) (bz', evs')"
proof -
  define bz1 where "bz1 = update_dev s (read_connected db i) bz"
  note w = assms(5)[unfolded bluez_watch_def Let_def prod.case, folded bz1_def]
  have k: "bz_mgr bz1 = bz_mgr bz" "bz_indices bz1 = bz_indices bz" by (simp_all add: bz1_def update_dev_indices)
  have di: "bd_device_index (bz_devs bz1 ! s) = cn_device_index (bz_conns bz ! i)"
    using assms(1,2) k(2) by (metis nth_map length_map)
  show ?thesis
  proof (cases "bd_dev (bz_devs bz1 ! s) \<and> \<not> bd_connected (bz_devs bz1 ! s)")
    case True
    then have "bz' = enter_state i HES_BLE_STATE_OFF (db_now db) (update_dev s (lose_link db) bz1)"
        "evs' = emit mx (cn_device_index (bz_conns bz ! i)) False evs" using w di by simp_all
    then show ?thesis using assms(3,4) k
      by (intro device_turn_enter[where s = HES_BLE_STATE_OFF and now = "db_now db"])
        (simp_all add: emit_def change_def is_up_def update_dev_indices)
  next
    case False
    then have "bz' = bz1" "evs' = evs" using w by auto
    then show ?thesis using k by (simp add: device_turn_same)
  qed
qed

lemma bluez_connect_turn:
  assumes "bd_device_index (bz_devs bz ! s) = cn_device_index (bz_conns bz ! i)" "i < length (bz_conns bz)"
    "\<not> is_up (bz_conns bz ! i)" "length evs < mx" "bluez_connect db mx i s (bz, evs) = (bz', evs')"
  shows "device_turn i (bz, evs) (bz', evs')"
proof -
  define bz1 where "bz1 = update_dev s (make_proxy db i) bz"
  define bz2 where "bz2 = enter_state i HES_BLE_STATE_CONNECTING (db_now db) bz1"
  obtain r bz3 where w: "wait_resolved (db_wait db i) (RESOLVE_TIMEOUT_MS div 50) 0 bz2 = (r, bz3)" by (rule prod.exhaust)
  note c = assms(5)[unfolded bluez_connect_def Let_def prod.case, folded bz1_def, folded bz2_def, unfolded w prod.case]
  have k1: "bz_mgr bz1 = bz_mgr bz" "bz_indices bz1 = bz_indices bz" by (simp_all add: bz1_def update_dev_indices)
  have k3: "bz_conns bz3 = bz_conns bz2" "bz_indices bz3 = bz_indices bz" using wait_keeps[OF w] k1 by (simp_all add: bz2_def)
  have c2: "bz_conns bz2 = (bz_conns bz)[i := (bz_conns bz ! i)\<lparr>cn_state := HES_BLE_STATE_CONNECTING, cn_state_entered := db_now db\<rparr>]"
    by (simp add: bz2_def k1)
  consider (waits) "bd_path (bz_devs bz ! s) = [] \<or> db_now db < bd_next_try (bz_devs bz ! s)" "bz' = bz" "evs' = evs"
    | (proxy) "bz' = connect_failed db i s bz1" "evs' = evs"
    | (refused) "bz' = connect_failed db i s bz2" "evs' = evs"
    | (unresolved) "bz' = connect_failed db i s bz3" "evs' = evs"
    | (up) "bz' = enter_state i HES_BLE_STATE_ONLINE (db_now db) (update_dev s (link_up (bz_conn bz3) db i) bz3)"
        "evs' = emit mx (bd_device_index (bz_devs bz ! s)) True evs"
    using c by (simp split: if_splits)
  then show ?thesis
  proof cases
    case waits
    then show ?thesis by (simp add: device_turn_same)
  next
    case proxy
    then show ?thesis using connect_failed_turn[of bz1 bz i] k1 assms(2,3) by simp
  next
    case refused
    then show ?thesis using connect_failed_turn[OF disjI2[OF c2] _ assms(3,2)] k1 by (simp add: bz2_def)
  next
    case unresolved
    then show ?thesis using connect_failed_turn[OF disjI2[OF k3(1)[unfolded c2]] k3(2) assms(3,2)] by simp
  next
    case up
    then show ?thesis using assms(1-4) k3 c2
      by (intro device_turn_enter[where s = HES_BLE_STATE_ONLINE and now = "db_now db"])
        (simp_all add: emit_def change_def is_up_def update_dev_indices)
  qed
qed

lemma bluez_poll_dev_turn:
  assumes "i < length (bz_conns bz)" "length evs < mx" "bluez_poll_dev db mx i (bz, evs) = (bz', evs')"
  shows "device_turn i (bz, evs) (bz', evs')"
proof (cases "find_slot bz (cn_device_index (bz_conns bz ! i))")
  case None
  then show ?thesis using assms(3) by (simp add: bluez_poll_dev_def device_turn_same)
next
  case (Some s)
  then have s: "s < length (bz_devs bz)" "bd_device_index (bz_devs bz ! s) = cn_device_index (bz_conns bz ! i)"
    by (auto simp: find_slot_def dest!: first_index_Some)
  show ?thesis
  proof (cases "bz_conn bz")
    case False
    then show ?thesis using assms(3) Some by (simp add: bluez_poll_dev_def device_turn_same)
  next
    case True
    define bz1 where "bz1 = update_dev s (bluez_discover db i) bz"
    have k: "bz_mgr bz1 = bz_mgr bz" "bz_indices bz1 = bz_indices bz" by (simp_all add: bz1_def update_dev_indices)
    have s1: "s < length (bz_devs bz1)" "bd_device_index (bz_devs bz1 ! s) = cn_device_index (bz_conns bz1 ! i)"
      using s k by (metis length_map) (use s k in \<open>metis nth_map length_map\<close>)
    have "device_turn i (bz1, evs) (bz', evs')"
    proof (cases "is_up (bz_conns bz1 ! i)")
      case True
      then have "bluez_watch db mx i s (bz1, evs) = (bz', evs')"
        using assms(3) Some \<open>bz_conn bz\<close> by (simp add: bluez_poll_dev_def Let_def bz1_def[symmetric] is_up_def)
      from bluez_watch_turn[OF s1(2,1) True assms(2) this] show ?thesis .
    next
      case False
      then have "bluez_connect db mx i s (bz1, evs) = (bz', evs')"
        using assms(3) Some \<open>bz_conn bz\<close> by (simp add: bluez_poll_dev_def Let_def bz1_def[symmetric] is_up_def)
      from bluez_connect_turn[OF s1(2) _ False assms(2) this] show ?thesis using assms(1) k by simp
    qed
    then show ?thesis unfolding device_turn_def using k by simp
  qed
qed

text \<open>The devices before \<open>k\<close> have had their turn.\<close>

definition polled_to :: "nat \<Rightarrow> bluez \<Rightarrow> bluez \<times> hes_ble_event list \<Rightarrow> bool" where
  "polled_to k bz be \<longleftrightarrow>
     map cn_device_index (bz_conns (fst be)) = map cn_device_index (bz_conns bz)
     \<and> drop k (bz_conns (fst be)) = drop k (bz_conns bz)
     \<and> snd be = changes (take k (bz_conns bz)) (take k (bz_conns (fst be)))"

lemma changes_snoc: "length ds = length ds' \<Longrightarrow> changes (ds @ [d]) (ds' @ [d']) = changes ds ds' @ change d d'"
  by (induction ds ds' rule: list_induct2) simp_all

lemma changes_length: "length (changes ds ds') \<le> length ds"
  by (induction ds ds' rule: changes.induct) (auto simp: change_def)

lemma polled_step:
  assumes "polled_to k bz be" "k < length (bz_conns bz)" "length (bz_conns bz) \<le> mx"
  shows "polled_to (Suc k) bz (bluez_poll_dev db mx k be)"
proof -
  obtain b evs b' evs' where be: "be = (b, evs)" "bluez_poll_dev db mx k (b, evs) = (b', evs')"
    by (metis prod.exhaust)
  have p: "map cn_device_index (bz_conns b) = map cn_device_index (bz_conns bz)" "drop k (bz_conns b) = drop k (bz_conns bz)"
      "evs = changes (take k (bz_conns bz)) (take k (bz_conns b))"
    using assms(1) unfolding polled_to_def be by simp_all
  have len: "length (bz_conns b) = length (bz_conns bz)" using p(1) by (metis length_map)
  have "length evs \<le> k" unfolding p(3) using changes_length[of "take k (bz_conns bz)"] by simp
  then have "device_turn k (b, evs) (b', evs')" using bluez_poll_dev_turn[OF _ _ be(2)] assms(2,3) len by simp
  then obtain d where d: "bz_conns b' = (bz_conns b)[k := d]" "cn_device_index d = cn_device_index (bz_conns b ! k)"
      "evs' = evs @ change (bz_conns b ! k) d" unfolding device_turn_def by auto
  have at: "bz_conns b ! k = bz_conns bz ! k" using p(2) assms(2) len by (metis hd_drop_conv_nth)
  have "map cn_device_index (bz_conns b') = map cn_device_index (bz_conns bz)"
    unfolding d(1) p(1)[symmetric] by (simp add: map_update d(2) list_update_same_conv assms(2) len)
  moreover have "drop (Suc k) (bz_conns b') = drop (Suc k) (bz_conns bz)"
    unfolding d(1) drop_update_cancel[OF lessI] using arg_cong[OF p(2), of tl] by (simp add: drop_Suc tl_drop)
  moreover have "evs' = changes (take (Suc k) (bz_conns bz)) (take (Suc k) (bz_conns b'))"
    unfolding d(1,3) p(3) using assms(2) len at by (simp add: take_Suc_conv_app_nth changes_snoc)
  ultimately show ?thesis by (simp add: be polled_to_def)
qed

lemma polled_all:
  assumes "length (bz_conns bz) \<le> mx" "k \<le> length (bz_conns bz)" "bz_conns b0 = bz_conns bz"
  shows "polled_to k bz (fold (bluez_poll_dev db mx) [0..<k] (b0, []))"
  using assms(2)
proof (induction k)
  case 0
  then show ?case by (simp add: polled_to_def assms(3))
next
  case (Suc k)
  then show ?case using polled_step[OF Suc.IH] assms(1) by simp
qed

lemma bluez_poll_changes:
  assumes "length (bz_conns bz) \<le> mx" "bluez_poll db mx bz = (evs, bz')"
  shows "evs = changes (bz_conns bz) (bz_conns bz') \<and> map cn_device_index (bz_conns bz') = map cn_device_index (bz_conns bz)"
proof -
  obtain b es where f: "fold (bluez_poll_dev db mx) [0..<length (bz_conns bz)] (fold deliver (db_signals db) bz, []) = (b, es)"
    by (rule prod.exhaust)
  have "polled_to (length (bz_conns bz)) bz (b, es)"
    using polled_all[OF assms(1) order_refl, of "fold deliver (db_signals db) bz" db] unfolding f by simp
  moreover have "evs = es" "bz' = b" using assms(2) f by (simp_all add: bluez_poll_def)
  ultimately show ?thesis unfolding polled_to_def by (metis fst_conv snd_conv length_map take_all order_refl)
qed

interpretation bluez: link_backend bluez_poll bz_conns bluez_ok
proof
  fix bz :: bluez
  assume "bluez_ok bz"
  then show "distinct (map cn_device_index (bz_conns bz))" by (simp add: bluez_ok_def)
next
  fix bz bz' :: bluez and mx db evs
  assume b: "bluez_ok bz" "length (bz_conns bz) \<le> mx" "bluez_poll db mx bz = (evs, bz')"
  show "bluez_ok bz' \<and> map cn_device_index (bz_conns bz') = map cn_device_index (bz_conns bz)"
    using bluez_poll_changes[OF b(2,3)] b(1) by (simp add: bluez_ok_def)
  show "evs = changes (bz_conns bz) (bz_conns bz')" using bluez_poll_changes[OF b(2,3)] by simp
qed

section \<open>The backoff\<close>

text \<open>While the shift is defined, an attempt that fails is repeated after between two and ten seconds.\<close>

lemma retry_delay_bounds:
  assumes "0 < n" "n < 31"
  shows "2 \<le> retry_delay shift n" "retry_delay shift n \<le> RETRY_MAX_S"
  using assms power_increasing[of 1 n "2 :: int"] by (simp_all add: retry_delay_def Let_def)

end
