(* ===== verification/SensorTag.thy ===== *)
theory SensorTag
  imports Json
begin

text \<open>
  The simulated SensorTag (src/src/devices/ti_cc2650/): a context of its own for the temperature and
  the button that the Bluetooth module reads (sensortag.c), and six readers with a static state each.

  What \<open>rand()\<close> gives is an argument of the reader that calls it, and what \<open>time(NULL)\<close> gives an
  argument \<open>now\<close>. Seeding the generator is its flag only.
\<close>

section \<open>Printing\<close>

text \<open>The conversion \<open>%.2f\<close>: two decimals, the exact value rounded half to even.\<close>

definition two_digits :: "int \<Rightarrow> string" where
  "two_digits n = [digit_char (nat (n div 10 mod 10)), digit_char (nat (n mod 10))]"

fun fmt_f2 :: "dbl \<Rightarrow> string" where
  "fmt_f2 DNaN = ''nan''"
| "fmt_f2 (DInf s) = (if s then ''-inf'' else ''inf'')"
| "fmt_f2 (DFin s m) =
     (let h = round_even (m * 100)
      in (if s then ''-'' else '''') @ dec_int (h div 100) @ ''.'' @ two_digits (h mod 100))"

section \<open>One step of a walk\<close>

text \<open>\<open>((rand() % n) - c) / d\<close>, and keeping a value between two bounds.\<close>

definition walk_delta :: "int \<Rightarrow> int \<Rightarrow> dbl \<Rightarrow> int \<Rightarrow> dbl" where
  "walk_delta n c d r = d_div (d_of_int (c_rem r n - c)) d"

definition clamp :: "dbl \<Rightarrow> dbl \<Rightarrow> dbl \<Rightarrow> dbl" where
  "clamp lo hi x = (let x = (if d_lt x lo then lo else x) in if d_lt hi x then hi else x)"

section \<open>The context the module keeps\<close>

record sensortag =
  st_seeded :: bool
  st_last_temp_c :: dbl
  st_button_state :: int
  st_button_period_s :: int
  st_next_button_flip :: int

definition sensortag_init :: "sensortag \<Rightarrow> sensortag" where
  "sensortag_init st =
     st\<lparr>st_seeded := False, st_last_temp_c := DFin False 22, st_button_state := 0,
        st_button_period_s := 0, st_next_button_flip := 0\<rparr>"

definition sensortag_read_temp_c :: "int \<Rightarrow> sensortag \<Rightarrow> dbl \<times> sensortag" where
  "sensortag_read_temp_c r st =
     (let st = (if \<not> st_seeded st then st\<lparr>st_seeded := True\<rparr> else st);
          delta = walk_delta 21 10 (DFin False 20) r;
          t = clamp (DFin False 15) (DFin False 30) (d_add (st_last_temp_c st) delta)
      in (t, st\<lparr>st_last_temp_c := t\<rparr>))"

definition sensortag_set_button_period :: "int \<Rightarrow> int \<Rightarrow> sensortag \<Rightarrow> sensortag" where
  "sensortag_set_button_period now period_s st =
     (let st = st\<lparr>st_button_period_s := period_s\<rparr>
      in if period_s \<le> 0 then st\<lparr>st_next_button_flip := 0\<rparr>
         else if st_next_button_flip st = 0 then st\<lparr>st_next_button_flip := now + period_s\<rparr>
         else st)"

definition sensortag_read_button :: "int \<Rightarrow> sensortag \<Rightarrow> int \<times> sensortag" where
  "sensortag_read_button now st =
     (let st = (if 0 < st_button_period_s st \<and> st_next_button_flip st \<noteq> 0 \<and> st_next_button_flip st \<le> now
                then st\<lparr>st_button_state := (if st_button_state st = 0 then 1 else 0),
                        st_next_button_flip := now + st_button_period_s st\<rparr>
                else st)
      in (st_button_state st, st))"

section \<open>The other readers\<close>

text \<open>The static \<open>seeded\<close> and last value of a reader's file.\<close>

record walk_state =
  wk_seeded :: bool
  wk_last :: dbl

definition walk :: "int \<Rightarrow> int \<Rightarrow> dbl \<Rightarrow> dbl \<Rightarrow> dbl \<Rightarrow> int \<Rightarrow> walk_state \<Rightarrow> dbl \<times> walk_state" where
  "walk n c d lo hi r wk =
     (let x = clamp lo hi (d_add (wk_last wk) (walk_delta n c d r))
      in (x, \<lparr>wk_seeded = True, wk_last = x\<rparr>))"

definition pressure_start :: walk_state where
  "pressure_start = \<lparr>wk_seeded = False, wk_last = DFin False 1013\<rparr>"

definition sensortag_read_pressure_hpa :: "int \<Rightarrow> walk_state \<Rightarrow> dbl \<times> walk_state" where
  "sensortag_read_pressure_hpa = walk 201 100 (DFin False 100) (DFin False 985) (DFin False 1035)"

definition humidity_start :: walk_state where
  "humidity_start = \<lparr>wk_seeded = False, wk_last = DFin False 45\<rparr>"

definition sensortag_read_humidity_pct :: "int \<Rightarrow> walk_state \<Rightarrow> dbl \<times> walk_state" where
  "sensortag_read_humidity_pct = walk 301 150 (DFin False 100) (DFin False 20) (DFin False 80)"

definition light_start :: walk_state where
  "light_start = \<lparr>wk_seeded = False, wk_last = DFin False 300\<rparr>"

definition sensortag_read_light_lux :: "int \<Rightarrow> walk_state \<Rightarrow> dbl \<times> walk_state" where
  "sensortag_read_light_lux = walk 161 80 (DFin False 2) (DFin False 0) (DFin False 900)"

definition mic_start :: walk_state where
  "mic_start = \<lparr>wk_seeded = False, wk_last = DFin False 15\<rparr>"

definition sensortag_read_mic_level :: "int \<Rightarrow> walk_state \<Rightarrow> dbl \<times> walk_state" where
  "sensortag_read_mic_level = walk 161 80 (DFin False 10) (DFin False 0) (DFin False 128)"

definition battery_start :: walk_state where
  "battery_start = \<lparr>wk_seeded = False, wk_last = DFin False 90\<rparr>"

definition sensortag_read_battery_pct :: "int \<Rightarrow> walk_state \<Rightarrow> int \<times> walk_state" where
  "sensortag_read_battery_pct r wk =
     (let (x, wk) = walk 41 20 (DFin False 100) (DFin False 60) (DFin False 100) r wk
      in (d_to_int (d_add x (DFin False (1 / 2))), wk))"

text \<open>The keys: \<open>press_seq\<close> counts the presses; the sequence cycles through the three bits. None is the
  overflow of its increment, which C leaves undefined.\<close>

record button_bits =
  bb_seeded :: bool
  bb_press_seq :: int

definition sensortag_read_button_bits :: "int \<Rightarrow> button_bits \<Rightarrow> (u8 \<times> button_bits) option" where
  "sensortag_read_button_bits r bb =
     (let bb = bb\<lparr>bb_seeded := True\<rparr>
      in if c_rem r 10 = 0 then
           (if bb_press_seq bb = 2 ^ 31 - 1 then None
            else Some (push_bit (nat (c_rem (bb_press_seq bb) 3)) 1, bb\<lparr>bb_press_seq := bb_press_seq bb + 1\<rparr>))
         else Some (0, bb))"

record motion_sample =
  mo_accel_g :: "dbl list"
  mo_gyro_dps :: "dbl list"
  mo_mag_ut :: "dbl list"

text \<open>The nine calls of \<open>rand()\<close> in their order: three for each axis.\<close>

definition sensortag_read_motion :: "(nat \<Rightarrow> int) \<Rightarrow> motion_sample" where
  "sensortag_read_motion r =
     (let acc_nom = [d_zero, d_zero, d_one];
          gyro_nom = [d_zero, d_zero, d_zero];
          mag_nom = [DFin False 25, d_zero, DFin False 35]
      in \<lparr>mo_accel_g = map (\<lambda>i. d_add (acc_nom ! i) (walk_delta 101 50 (DFin False 2500) (r (3 * i)))) [0..<3],
          mo_gyro_dps = map (\<lambda>i. d_add (gyro_nom ! i) (walk_delta 101 50 (DFin False 50) (r (3 * i + 1)))) [0..<3],
          mo_mag_ut = map (\<lambda>i. d_add (mag_nom ! i) (walk_delta 101 50 (DFin False 100) (r (3 * i + 2)))) [0..<3]\<rparr>)"

section \<open>The bands\<close>

definition in_band :: "rat \<Rightarrow> rat \<Rightarrow> dbl \<Rightarrow> bool" where
  "in_band lo hi x \<longleftrightarrow> (\<exists>s m. x = DFin s m \<and> 0 \<le> m \<and> lo \<le> sval s m \<and> sval s m \<le> hi)"

lemma round_even_band:
  assumes "of_int lo \<le> q" "q \<le> of_int hi"
  shows "lo \<le> round_even q" "round_even q \<le> hi"
proof -
  have f: "lo \<le> \<lfloor>q\<rfloor>" using assms(1) by (simp add: le_floor_iff)
  then show "lo \<le> round_even q" by (auto simp: round_even_def Let_def)
  show "round_even q \<le> hi"
  proof (cases "q = of_int hi")
    case True
    then show ?thesis by (simp add: round_even_def)
  next
    case False
    then have "\<lfloor>q\<rfloor> + 1 \<le> hi" using assms(2) by (simp add: floor_less_iff add1_zle_eq)
    then show ?thesis by (auto simp: round_even_def Let_def)
  qed
qed

lemma round64_magnitude: "round64 s v = DFin t m \<Longrightarrow> 0 \<le> v \<Longrightarrow> 0 \<le> m"
proof -
  assume a: "round64 s v = DFin t m" "0 \<le> v"
  show ?thesis
  proof (cases "v = 0")
    case False
    define e where "e = max (ilog2 v - 52) (- 1074)"
    have p: "0 < pow2r e" by (simp add: pow2r_def)
    have "of_int 0 \<le> v / pow2r e" using a(2) p by simp
    from round_even_band(1)[OF this le_of_int_ceiling] have "0 \<le> round_even (v / pow2r e)" .
    then show ?thesis
      using a(1) False p by (auto simp: round64_def Let_def e_def[symmetric] split: if_splits)
  qed (use a(1) in \<open>simp add: round64_def\<close>)
qed

lemma in_band_start: "0 \<le> lo \<Longrightarrow> lo \<le> m \<Longrightarrow> m \<le> hi \<Longrightarrow> in_band lo hi (DFin False m)"
  unfolding in_band_def by (intro exI[of _ False] exI[of _ m]) (simp add: sval_def)

lemma clamp_in_band:
  assumes "x \<noteq> DNaN" "\<And>s m. x = DFin s m \<Longrightarrow> 0 \<le> m" "0 \<le> lo" "lo \<le> hi"
  shows "in_band lo hi (clamp (DFin False lo) (DFin False hi) x)"
  using assms by (cases x) (auto simp: clamp_def in_band_def sval_def Let_def)

lemma walk_delta_finite: "0 < d \<Longrightarrow> walk_delta n c (DFin False d) r \<noteq> DNaN"
proof -
  assume "0 < d"
  obtain s m where "d_of_int (c_rem r n - c) = DInf s \<or> d_of_int (c_rem r n - c) = DFin s m"
    using d_nonnan_round[of "c_rem r n - c < 0"] unfolding d_of_int.simps d_nonnan_def by (metis dbl.exhaust)
  then show ?thesis
    using \<open>0 < d\<close> d_nonnan_round unfolding walk_delta_def d_nonnan_def by (auto simp: d_div.simps)
qed

lemma in_band_add:
  assumes "in_band lo hi x" "y \<noteq> DNaN"
  shows "d_add x y \<noteq> DNaN" "d_add x y = DFin s m \<Longrightarrow> 0 \<le> m"
proof -
  obtain t n where x: "x = DFin t n" using assms(1) unfolding in_band_def by blast
  show "d_add x y \<noteq> DNaN"
    using d_nonnan_round assms(2) unfolding x d_nonnan_def by (cases y) (simp_all add: Let_def)
  show "d_add x y = DFin s m \<Longrightarrow> 0 \<le> m"
    using assms(2) unfolding x by (cases y) (auto simp: Let_def split: if_splits dest: round64_magnitude)
qed

lemma walk_in_band:
  assumes "in_band lo hi (wk_last wk)" "0 \<le> lo" "lo \<le> hi" "0 < d"
  shows "in_band lo hi (fst (walk n c (DFin False d) (DFin False lo) (DFin False hi) r wk))"
    "in_band lo hi (wk_last (snd (walk n c (DFin False d) (DFin False lo) (DFin False hi) r wk)))"
proof -
  note add = in_band_add[OF assms(1) walk_delta_finite[OF assms(4)]]
  from clamp_in_band[OF add assms(2,3)]
  show "in_band lo hi (fst (walk n c (DFin False d) (DFin False lo) (DFin False hi) r wk))"
    "in_band lo hi (wk_last (snd (walk n c (DFin False d) (DFin False lo) (DFin False hi) r wk)))"
    by (simp_all add: walk_def Let_def)
qed

lemma temp_in_band:
  assumes "in_band 15 30 (st_last_temp_c st)"
  shows "in_band 15 30 (fst (sensortag_read_temp_c r st))"
    "in_band 15 30 (st_last_temp_c (snd (sensortag_read_temp_c r st)))"
proof -
  note add = in_band_add[OF assms walk_delta_finite[of 20 21 10 r]]
  have "in_band 15 30 (clamp (DFin False 15) (DFin False 30) (d_add (st_last_temp_c st) (walk_delta 21 10 (DFin False 20) r)))"
    by (rule clamp_in_band) (use add in auto)
  then
  show "in_band 15 30 (fst (sensortag_read_temp_c r st))"
    "in_band 15 30 (st_last_temp_c (snd (sensortag_read_temp_c r st)))"
    by (simp_all add: sensortag_read_temp_c_def Let_def)
qed

section \<open>Rounding inside a band\<close>

lemma ibits_double: "0 < n \<Longrightarrow> ibits (2 * n) = 1 + ibits n"
  by (subst ibits.simps) simp

lemma ibits_shift: "0 < n \<Longrightarrow> ibits (2 ^ k * n) = int k + ibits n"
proof (induction k)
  case (Suc k)
  have "ibits (2 ^ Suc k * n) = ibits (2 * (2 ^ k * n))" by (simp add: ac_simps)
  also have "\<dots> = 1 + ibits (2 ^ k * n)" by (rule ibits_double) (use Suc.prems in simp)
  finally show ?case using Suc by simp
qed simp

lemma ibits_mono: "m \<le> n \<Longrightarrow> ibits m \<le> ibits n"
proof (induction m arbitrary: n rule: ibits.induct)
  case (1 m)
  show ?case
  proof (cases "m \<le> 0")
    case True
    have "0 \<le> ibits n" by (induction n rule: ibits.induct) (subst ibits.simps, simp)
    then show ?thesis using True by (subst ibits.simps) simp
  next
    case False
    then have "ibits (m div 2) \<le> ibits (n div 2)" using 1 by (simp add: zdiv_mono1)
    then show ?thesis using False \<open>m \<le> n\<close> by (subst (1 2) ibits.simps) simp
  qed
qed

lemma ilog2_below:
  assumes "0 < q" "q < 128"
  shows "ilog2 q \<le> 7"
proof -
  obtain n d where nd: "quotient_of q = (n, d)" by (rule prod.exhaust)
  then have d: "0 < d" "q = of_int n / of_int d" by (simp_all add: quotient_of_denom_pos quotient_of_div)
  then have "(of_int n :: rat) \<le> of_int (128 * d)"
    using assms(2) mult_right_mono[of q 128 "of_int d"] by (simp add: field_simps)
  then have "n \<le> 2 ^ 7 * d" by (simp only: of_int_le_iff) simp
  then have "ibits n \<le> ibits (2 ^ 7 * d)" by (rule ibits_mono)
  then have "ibits n - ibits d \<le> 7" unfolding ibits_shift[OF d(1)] by simp
  then show ?thesis using nd by (simp add: ilog2_def Let_def)
qed

text \<open>Rounding a value between two multiples of a half keeps it between them.\<close>

lemma round64_halves:
  assumes "of_int a / 2 \<le> v" "v \<le> of_int b / 2" "0 < v" "v < 128" "b \<le> 256"
  shows "\<exists>m. round64 False v = DFin False m \<and> of_int a / 2 \<le> m \<and> m \<le> of_int b / 2"
proof -
  define e where "e = max (ilog2 v - 52) (- 1074)"
  have e: "e \<le> - 1" using ilog2_below[OF assms(3,4)] by (simp add: e_def)
  define k where "k = nat (- e)"
  have k: "pow2r e = 1 / 2 ^ k" "1 \<le> k" using e by (auto simp: pow2r_def k_def)
  have half: "of_int c / 2 / pow2r e = (of_int (c * 2 ^ (k - 1)) :: rat)" for c
    unfolding k(1) using k(2) by (cases k) simp_all
  define r where "r = round_even (v / pow2r e)"
  have p: "0 < pow2r e" using k by simp
  have "of_int (a * 2 ^ (k - 1)) \<le> v / pow2r e" "v / pow2r e \<le> of_int (b * 2 ^ (k - 1))"
    unfolding half[symmetric] by (rule divide_right_mono[OF assms(1) less_imp_le[OF p]], rule divide_right_mono[OF assms(2) less_imp_le[OF p]])
  from round_even_band[OF this] have r: "a * 2 ^ (k - 1) \<le> r" "r \<le> b * 2 ^ (k - 1)" unfolding r_def .
  have lo: "of_int a / 2 \<le> of_int r * pow2r e"
  proof -
    have "(of_int (a * 2 ^ (k - 1)) :: rat) \<le> of_int r" using r(1) by (simp only: of_int_le_iff)
    then show ?thesis unfolding half[symmetric] using p by (simp add: pos_divide_le_eq)
  qed
  have hi: "of_int r * pow2r e \<le> of_int b / 2"
  proof -
    have "of_int r \<le> (of_int (b * 2 ^ (k - 1)) :: rat)" using r(2) by (simp only: of_int_le_iff)
    then show ?thesis unfolding half[symmetric] using p by (simp add: pos_le_divide_eq)
  qed
  have "(of_int b :: rat) \<le> of_int 256" using assms(5) by (simp only: of_int_le_iff)
  then have "of_int r * pow2r e < 2 ^ 1024" using hi power_strict_increasing[of 7 1024 "2 :: rat"] by simp
  then have "round64 False v = DFin False (of_int r * pow2r e)"
    using assms(3) by (simp add: round64_def Let_def r_def e_def)
  then show ?thesis using lo hi by blast
qed

lemma battery_in_band:
  assumes "in_band 60 100 (wk_last wk)"
  shows "60 \<le> fst (sensortag_read_battery_pct r wk) \<and> fst (sensortag_read_battery_pct r wk) \<le> 100"
    "in_band 60 100 (wk_last (snd (sensortag_read_battery_pct r wk)))"
proof -
  obtain x wk' where w: "walk 41 20 (DFin False 100) (DFin False 60) (DFin False 100) r wk = (x, wk')" by (rule prod.exhaust)
  have b: "in_band 60 100 x" "in_band 60 100 (wk_last wk')"
    using walk_in_band[OF assms, of 100 41 20 r] w by simp_all
  then show "in_band 60 100 (wk_last (snd (sensortag_read_battery_pct r wk)))"
    by (simp add: sensortag_read_battery_pct_def w)
  obtain s m where x: "x = DFin s m" "60 \<le> sval s m" "sval s m \<le> 100" using b(1) unfolding in_band_def by blast
  define v where "v = sval s m + 1 / 2"
  have v: "of_int 121 / 2 \<le> v" "v \<le> of_int 201 / 2" "0 < v" "v < 128" using x by (simp_all add: v_def)
  from round64_halves[OF v] obtain y where y: "round64 False v = DFin False y" "121 / 2 \<le> y" "y \<le> 201 / 2" by auto
  have "d_add x (DFin False (1 / 2)) = DFin False y"
    using v(3) y(1) by (simp add: x(1) sval_def[of False] v_def[symmetric] Let_def not_less)
  moreover have "60 \<le> \<lfloor>y\<rfloor>" "\<lfloor>y\<rfloor> \<le> 100" using y by (simp_all add: le_floor_iff floor_le_iff)
  ultimately show "60 \<le> fst (sensortag_read_battery_pct r wk) \<and> fst (sensortag_read_battery_pct r wk) \<le> 100"
    by (simp add: sensortag_read_battery_pct_def w d_to_int_def d_trunc_def)
qed

text \<open>What \<open>%.2f\<close> writes for a value of a band: its hundredths, in the band.\<close>

lemma fmt_f2_band:
  assumes "in_band (of_int lo) (of_int hi) x" "0 < lo"
  shows "\<exists>h. 100 * lo \<le> h \<and> h \<le> 100 * hi \<and> fmt_f2 x = dec_int (h div 100) @ ''.'' @ two_digits (h mod 100)"
proof -
  obtain s m where x: "x = DFin s m" "0 \<le> m" "of_int lo \<le> sval s m" "sval s m \<le> of_int hi" using assms(1) unfolding in_band_def by blast
  show ?thesis
  proof (cases s)
    case False
    then have "of_int (100 * lo) \<le> m * 100" "m * 100 \<le> of_int (100 * hi)" using x by (simp_all add: sval_def)
    from round_even_band[OF this] show ?thesis using x False by (auto simp: Let_def)
  next
    case True
    have "0 < (of_int lo :: rat)" using assms(2) by simp
    then have "m < 0" using x True by (simp add: sval_def)
    then show ?thesis using x(2) by simp
  qed
qed

section \<open>Sequences of readings\<close>

fun readings :: "(int \<Rightarrow> 's \<Rightarrow> 'a \<times> 's) \<Rightarrow> int list \<Rightarrow> 's \<Rightarrow> 'a list" where
  "readings rd [] s = []"
| "readings rd (r # rs) s = (let (a, s) = rd r s in a # readings rd rs s)"

lemma readings_hold:
  assumes "\<And>r s. I s \<Longrightarrow> P (fst (rd r s)) \<and> I (snd (rd r s))" "I s"
  shows "\<forall>a \<in> set (readings rd rs s). P a"
  using assms(2)
proof (induction rs arbitrary: s)
  case (Cons r rs)
  obtain a s' where "rd r s = (a, s')" by (rule prod.exhaust)
  then show ?case using assms(1)[of s r] Cons.prems Cons.IH[of s'] by simp
qed simp

lemma walk_readings:
  assumes "in_band lo hi (wk_last wk)" "0 \<le> lo" "lo \<le> hi" "0 < d"
  shows "\<forall>x \<in> set (readings (walk n c (DFin False d) (DFin False lo) (DFin False hi)) rs wk). in_band lo hi x"
  by (rule readings_hold[where I = "\<lambda>wk. in_band lo hi (wk_last wk)"]) (use assms walk_in_band in auto)

text \<open>Whatever \<open>rand()\<close> gives, every reading of a tag that has been initialised lies in the band of
  its sensor, and is a number: temperatures between 15 and 30 degrees, pressures between 985 and 1035
  hPa, humidities between 20 and 80 percent, light between 0 and 900 lux, sound levels between 0 and
  128, battery levels between 60 and 100 percent. The text of a temperature is two decimals of such a
  value.
\<close>

theorem readings_in_band:
  "(\<forall>t \<in> set (readings sensortag_read_temp_c rs (sensortag_init tag)).
      in_band 15 30 t \<and> (\<exists>h. 1500 \<le> h \<and> h \<le> 3000 \<and> fmt_f2 t = dec_int (h div 100) @ ''.'' @ two_digits (h mod 100)))
   \<and> (\<forall>x \<in> set (readings sensortag_read_pressure_hpa rs pressure_start). in_band 985 1035 x)
   \<and> (\<forall>x \<in> set (readings sensortag_read_humidity_pct rs humidity_start). in_band 20 80 x)
   \<and> (\<forall>x \<in> set (readings sensortag_read_light_lux rs light_start). in_band 0 900 x)
   \<and> (\<forall>x \<in> set (readings sensortag_read_mic_level rs mic_start). in_band 0 128 x)
   \<and> (\<forall>x \<in> set (readings sensortag_read_battery_pct rs battery_start). 60 \<le> x \<and> x \<le> 100)"
proof (intro conjI)
  have written: "in_band 15 30 t \<Longrightarrow> \<exists>h. 1500 \<le> h \<and> h \<le> 3000 \<and> fmt_f2 t = dec_int (h div 100) @ ''.'' @ two_digits (h mod 100)" for t
    using fmt_f2_band[of 15 30 t] by simp
  show "\<forall>t \<in> set (readings sensortag_read_temp_c rs (sensortag_init tag)).
      in_band 15 30 t \<and> (\<exists>h. 1500 \<le> h \<and> h \<le> 3000 \<and> fmt_f2 t = dec_int (h div 100) @ ''.'' @ two_digits (h mod 100))"
    by (rule readings_hold[where I = "\<lambda>st. in_band 15 30 (st_last_temp_c st)"])
      (use temp_in_band written in \<open>auto simp: sensortag_init_def in_band_start\<close>)
  show "\<forall>x \<in> set (readings sensortag_read_battery_pct rs battery_start). 60 \<le> x \<and> x \<le> 100"
    by (rule readings_hold[where I = "\<lambda>wk. in_band 60 100 (wk_last wk)"])
      (use battery_in_band in \<open>auto simp: battery_start_def in_band_start\<close>)
qed (unfold sensortag_read_pressure_hpa_def sensortag_read_humidity_pct_def sensortag_read_light_lux_def
      sensortag_read_mic_level_def,
    (rule walk_readings; simp add: pressure_start_def humidity_start_def light_start_def mic_start_def in_band_start)+)

theorem readings_in_band_witness:
  "in_band 15 30 (hd (readings sensortag_read_temp_c [7, 3] (sensortag_init \<lparr>st_seeded = False,
     st_last_temp_c = d_zero, st_button_state = 0, st_button_period_s = 0, st_next_button_flip = 0\<rparr>)))"
  using readings_in_band[of "[7, 3]" "\<lparr>st_seeded = False, st_last_temp_c = d_zero, st_button_state = 0,
     st_button_period_s = 0, st_next_button_flip = 0\<rparr>"] by (simp add: Let_def split: prod.split)

end
