(* ===== verification/Ble.thy ===== *)
theory Ble
  imports BleLink SensorTag Han Mreg
begin

text \<open>
  The Bluetooth interface module (src/src/han/ble/ble.c): its start, and the five tasks of a turn of
  its loop - a message of the bus, an update of the manifest, the events of the connection manager,
  the buttons, the periodic reports.

  The connection manager is an argument, as the build chooses it: the record \<open>ble_backend\<close> of its
  operations, with \<open>sim_backend\<close> and \<open>bluez_backend\<close> made of the two files. Resolving a message's device
  and merging an update are Han's.
\<close>

unbundle bit_operations_syntax

abbreviation PUBLISH_PERIOD_SEC :: int where "PUBLISH_PERIOD_SEC \<equiv> 5"

text \<open>\<open>'e\<close> is what one poll meets, \<open>'m\<close> the manager's state. \<open>bk_sim\<close> is \<open>HES_BLE_BACKEND_SIM\<close>.\<close>

record ('e, 'm) ble_backend =
  bk_sim :: bool
  bk_init :: 'm
  bk_add :: "int \<Rightarrow> u32 \<Rightarrow> string \<Rightarrow> 'm \<Rightarrow> int \<times> 'm"
  bk_poll :: "'e \<Rightarrow> nat \<Rightarrow> 'm \<Rightarrow> hes_ble_event list \<times> 'm"
  bk_button :: "'m \<Rightarrow> u32 \<Rightarrow> int option"

definition sim_backend :: "(int, hes_ble_mgr) ble_backend" where
  "sim_backend = \<lparr>bk_sim = True, bk_init = sim_mgr_init, bk_add = sim_mgr_add, bk_poll = sim_mgr_poll,
     bk_button = sim_mgr_button\<rparr>"

definition bluez_backend :: "bool \<Rightarrow> (dbus, bluez) ble_backend" where
  "bluez_backend bus = \<lparr>bk_sim = False, bk_init = bluez_init bus, bk_add = bluez_add, bk_poll = bluez_poll,
     bk_button = bluez_button\<rparr>"

record ble_dev =
  bt_tag :: sensortag
  bt_btn_set :: bool
  bt_last_btn :: int

record 'm ble_state =
  bl_reg :: hes_devreg
  bl_mgr :: 'm
  bl_devs :: "ble_dev list"
  bl_bus :: hes_bus
  bl_last_publish :: int
  bl_reported :: "hes_devreg list"

text \<open>What one turn meets: the message received within 100 ms, if any; the manifest's socket; the manager's
  poll; the readings of the clock and of \<open>rand()\<close>, by device and object.\<close>

record 'e ble_env =
  be_recv :: "hes_clme_msg option"
  be_get_now :: int
  be_get_rand :: int
  be_update :: "int + string"
  be_poll :: 'e
  be_button_now :: "nat \<Rightarrow> int"
  be_publish_now :: int
  be_publish_rand :: "nat \<Rightarrow> nat \<Rightarrow> int"

section \<open>Reading a device\<close>

definition read_button_any :: "('e, 'm) ble_backend \<Rightarrow> 'm \<Rightarrow> int \<Rightarrow> u32 \<Rightarrow> sensortag \<Rightarrow> int \<times> sensortag" where
  "read_button_any bk m now di tag =
     (case bk_button bk m di of Some pressed \<Rightarrow> (pressed, tag) | None \<Rightarrow> sensortag_read_button now tag)"

definition button_text :: "int \<Rightarrow> string" where
  "button_text pressed = dec_int (if pressed \<noteq> 0 then 1 else 0)"

definition ble_read_object ::
    "('e, 'm) ble_backend \<Rightarrow> 'm \<Rightarrow> int \<Rightarrow> int \<Rightarrow> u32 \<Rightarrow> string \<Rightarrow> nat \<Rightarrow> sensortag \<Rightarrow> string option \<times> sensortag" where
  "ble_read_object bk m now r di path bufsz tag =
     (if path = HES_LX_BTN_CV then
        (let (pressed, tag) = read_button_any bk m now di tag
         in (Some (hes_strlcpy bufsz (button_text pressed)), tag))
      else if path = HES_LX_TEMP_CV then
        (let (c, tag) = sensortag_read_temp_c r tag in (Some (hes_strlcpy bufsz (fmt_f2 c)), tag))
      else (None, tag))"

definition publish_value :: "u32 \<Rightarrow> string \<Rightarrow> string \<Rightarrow> hes_bus \<Rightarrow> hes_bus" where
  "publish_value di path val bus = hes_bus_send bus (polled_msg di path val)"

section \<open>The five tasks\<close>

definition set_tag :: "nat \<Rightarrow> sensortag \<Rightarrow> 'm ble_state \<Rightarrow> 'm ble_state" where
  "set_tag i tag st = st\<lparr>bl_devs := (bl_devs st)[i := (bl_devs st ! i)\<lparr>bt_tag := tag\<rparr>]\<rparr>"

text \<open>1. A GET of a readable object is answered; a SUBSCRIBE is only logged, the rest ignored.\<close>

definition ble_get :: "('e, 'm) ble_backend \<Rightarrow> int \<Rightarrow> int \<Rightarrow> hes_clme_msg \<Rightarrow> 'm ble_state \<Rightarrow> 'm ble_state" where
  "ble_get bk now r msg st =
     (case resolve_index (bl_reg st) (m_path msg) (m_device_index msg) of
        None \<Rightarrow> st
      | Some idx \<Rightarrow>
          (case hes_dev_object_find (rg_devices (bl_reg st) ! idx) (m_path msg) of
             None \<Rightarrow> st
           | Some ob \<Rightarrow>
               (if CHR ''r'' \<notin> set (do_access ob) then st
                else
                  let di = dv_device_index (rg_devices (bl_reg st) ! idx);
                      (val, tag) = ble_read_object bk (bl_mgr st) now r di (do_path ob) 32 (bt_tag (bl_devs st ! idx));
                      st = set_tag idx tag st
                  in case val of
                       None \<Rightarrow> st
                     | Some val \<Rightarrow> st\<lparr>bl_bus := hes_bus_send (bl_bus st) (answer_msg di (m_path msg) val)\<rparr>)))"

definition ble_receive :: "('e, 'm) ble_backend \<Rightarrow> 'e ble_env \<Rightarrow> 'm ble_state \<Rightarrow> 'm ble_state" where
  "ble_receive bk env st =
     (case be_recv env of
        None \<Rightarrow> st
      | Some msg \<Rightarrow> if m_verb msg = HES_VERB_GET then ble_get bk (be_get_now env) (be_get_rand env) msg st else st)"

text \<open>2. The manifest's update.\<close>

definition ble_update :: "(string \<Rightarrow> json option) \<Rightarrow> hes_mreg \<Rightarrow> int + string \<Rightarrow> 'm ble_state \<Rightarrow> 'm ble_state" where
  "ble_update js mreg received st =
     (case hes_mreg_recv_update js mreg received hes_devreg_init of
        Inl rv \<Rightarrow> st
      | Inr (upd, ok) \<Rightarrow> if ok then st\<lparr>bl_reg := merge_slice (bl_reg st) upd\<rparr> else st)"

text \<open>3. The events of the connection manager.\<close>

definition set_presence :: "nat \<Rightarrow> bool \<Rightarrow> 'm ble_state \<Rightarrow> 'm ble_state" where
  "set_presence i up st =
     (let reg = set_online i up (bl_reg st) in st\<lparr>bl_reg := reg, bl_reported := bl_reported st @ [reg]\<rparr>)"

definition apply_link :: "hes_ble_event \<Rightarrow> 'm ble_state \<Rightarrow> 'm ble_state" where
  "apply_link ev st =
     (case index_by_di (bl_reg st) (ev_device_index ev) of
        None \<Rightarrow> st
      | Some idx \<Rightarrow>
          (if ev_is_online ev \<and> \<not> dv_online (rg_devices (bl_reg st) ! idx) then
             set_presence idx True (st\<lparr>bl_devs := (bl_devs st)[idx := (bl_devs st ! idx)\<lparr>bt_btn_set := False\<rparr>]\<rparr>)
           else if \<not> ev_is_online ev \<and> dv_online (rg_devices (bl_reg st) ! idx) then
             set_presence idx False st
           else st))"

definition ble_links :: "('e, 'm) ble_backend \<Rightarrow> 'e \<Rightarrow> 'm ble_state \<Rightarrow> 'm ble_state" where
  "ble_links bk e st =
     (let (evs, m) = bk_poll bk e HES_DEVREG_MAX_DEVICES (bl_mgr st)
      in fold apply_link evs (st\<lparr>bl_mgr := m\<rparr>))"

text \<open>4. The buttons: reported when they change, and once after the link came up.\<close>

definition ble_button :: "('e, 'm) ble_backend \<Rightarrow> (nat \<Rightarrow> int) \<Rightarrow> nat \<Rightarrow> 'm ble_state \<Rightarrow> 'm ble_state" where
  "ble_button bk now i st =
     (let d = rg_devices (bl_reg st) ! i
      in if \<not> dv_online d then st
         else case hes_dev_object_find d HES_LX_BTN_CV of
                None \<Rightarrow> st
              | Some bo \<Rightarrow>
                  (let (pressed, tag) = read_button_any bk (bl_mgr st) (now i) (dv_device_index d) (bt_tag (bl_devs st ! i));
                       st = set_tag i tag st; bd = bl_devs st ! i
                   in if \<not> bt_btn_set bd \<or> pressed \<noteq> bt_last_btn bd then
                        st\<lparr>bl_devs := (bl_devs st)[i := bd\<lparr>bt_btn_set := True, bt_last_btn := pressed\<rparr>],
                           bl_bus := publish_value (dv_device_index d) (do_path bo)
                             (hes_strlcpy 8 (button_text pressed)) (bl_bus st)\<rparr>
                      else st))"

definition ble_buttons :: "('e, 'm) ble_backend \<Rightarrow> (nat \<Rightarrow> int) \<Rightarrow> 'm ble_state \<Rightarrow> 'm ble_state" where
  "ble_buttons bk now st = fold (ble_button bk now) [0..<length (rg_devices (bl_reg st))] st"

text \<open>5. The other readable objects, every five seconds.\<close>

definition publish_object ::
    "('e, 'm) ble_backend \<Rightarrow> int \<Rightarrow> (nat \<Rightarrow> int) \<Rightarrow> nat \<Rightarrow> nat \<Rightarrow> 'm ble_state \<Rightarrow> 'm ble_state" where
  "publish_object bk now r i k st =
     (let d = rg_devices (bl_reg st) ! i; ob = dv_objects d ! k
      in if CHR ''r'' \<notin> set (do_access ob) \<or> do_path ob = HES_LX_BTN_CV then st
         else
           let (val, tag) = ble_read_object bk (bl_mgr st) now (r k) (dv_device_index d) (do_path ob) 32 (bt_tag (bl_devs st ! i));
               st = set_tag i tag st
           in case val of
                None \<Rightarrow> st
              | Some val \<Rightarrow> st\<lparr>bl_bus := publish_value (dv_device_index d) (do_path ob) val (bl_bus st)\<rparr>)"

definition publish_device ::
    "('e, 'm) ble_backend \<Rightarrow> int \<Rightarrow> (nat \<Rightarrow> nat \<Rightarrow> int) \<Rightarrow> nat \<Rightarrow> 'm ble_state \<Rightarrow> 'm ble_state" where
  "publish_device bk now r i st =
     (let d = rg_devices (bl_reg st) ! i
      in if \<not> dv_online d then st
         else fold (publish_object bk now (r i) i) [0..<length (dv_objects d)] st)"

definition ble_publish :: "('e, 'm) ble_backend \<Rightarrow> int \<Rightarrow> (nat \<Rightarrow> nat \<Rightarrow> int) \<Rightarrow> 'm ble_state \<Rightarrow> 'm ble_state" where
  "ble_publish bk now r st =
     (if now - bl_last_publish st \<ge> PUBLISH_PERIOD_SEC
      then fold (publish_device bk now r) [0..<length (rg_devices (bl_reg st))] (st\<lparr>bl_last_publish := now\<rparr>)
      else st)"

definition ble_turn ::
    "('e, 'm) ble_backend \<Rightarrow> (string \<Rightarrow> json option) \<Rightarrow> hes_mreg \<Rightarrow> 'e ble_env \<Rightarrow> 'm ble_state \<Rightarrow> 'm ble_state" where
  "ble_turn bk js mreg env st =
     (let st = ble_receive bk env st;
          st = ble_update js mreg (be_update env) st;
          st = ble_links bk (be_poll env) st;
          st = ble_buttons bk (be_button_now env) st
      in ble_publish bk (be_publish_now env) (be_publish_rand env) st)"

section \<open>The start\<close>

text \<open>The address a device without one gets: the configured MAC, or one made from the network's index.\<close>

definition fabricated_mac :: "u32 \<Rightarrow> string" where
  "fabricated_mac ni =
     (let n = uint (ni AND 0xFF)
      in ''24:71:89:BC:32:'' @ (if n < 10 then ''0'' else []) @ dec_int n)"

definition assign_tag :: "string option \<Rightarrow> hes_device \<Rightarrow> hes_device" where
  "assign_tag mac_override d =
     (if dv_address d = []
      then d\<lparr>dv_address := hes_strlcpy 64 (case mac_override of Some mac \<Rightarrow> mac | None \<Rightarrow> fabricated_mac (dv_net_ref_index d))\<rparr>
      else d)\<lparr>dv_online := False\<rparr>"

text \<open>The period of a simulated button; the times are those of the calls.\<close>

definition tag_context :: "bool \<Rightarrow> int \<Rightarrow> hes_device \<Rightarrow> ble_dev" where
  "tag_context sim now d =
     (let tag = sensortag_init \<lparr>st_seeded = False, st_last_temp_c = d_zero, st_button_state = 0,
                                st_button_period_s = 0, st_next_button_flip = 0\<rparr>;
          tag = (if sim \<and> hes_dev_object_find d HES_LX_BTN_CV \<noteq> None
                 then sensortag_set_button_period now (6 + uint (dv_device_index d mod 5) * 3) tag else tag)
      in \<lparr>bt_tag = tag, bt_btn_set = False, bt_last_btn = 0\<rparr>)"

record ble_boot =
  bb_mreg_nng :: nng
  bb_bus_nng :: nng
  bb_query :: exchange
  bb_report :: exchange
  bb_requery :: exchange
  bb_add_now :: "nat \<Rightarrow> int"
  bb_tag_now :: "nat \<Rightarrow> int"
  bb_bus :: hes_bus

fun add_all :: "('e, 'm) ble_backend \<Rightarrow> (nat \<Rightarrow> int) \<Rightarrow> nat \<Rightarrow> hes_device list \<Rightarrow> 'm \<Rightarrow> 'm" where
  "add_all bk now i [] m = m"
| "add_all bk now i (d # ds) m = add_all bk now (Suc i) ds (snd (bk_add bk (now i) (dv_device_index d) (dv_address d) m))"

text \<open>None is an exit with code 1, and a report that overruns its buffer, which no parsed registry's does.\<close>

definition ble_start ::
    "('e, 'm) ble_backend \<Rightarrow> (string \<Rightarrow> json option) \<Rightarrow> string \<Rightarrow> string \<Rightarrow> u32 \<Rightarrow> string \<Rightarrow> string \<Rightarrow> string option
      \<Rightarrow> ble_boot \<Rightarrow> (hes_mreg \<times> 'm ble_state) option" where
  "ble_start bk js svc_rep svc_pub module_ref hub_pub_url hub_sub_url mac_override b =
     (let (rv, m, n) = hes_mreg_open svc_rep svc_pub (Some ''hi'') module_ref (bb_mreg_nng b)
      in if rv \<noteq> 0 then None
         else let (reg, ok) = hes_mreg_query (bb_query b) js m hes_devreg_init
         in if \<not> ok then None
         else if rg_devices reg = [] then None
         else let reg = reg\<lparr>rg_devices := map (assign_tag mac_override) (rg_devices reg)\<rparr>
         in case hes_mreg_report (bb_report b) m reg of
              None \<Rightarrow> None
            | Some reported \<Rightarrow>
                (let (reg2, ok) = hes_mreg_query (bb_requery b) js m hes_devreg_init
                 in if \<not> ok then None
                    else let mgr = add_all bk (bb_add_now b) 0 (rg_devices reg2) (bk_init bk);
                             devs = map (\<lambda>i. tag_context (bk_sim bk) (bb_tag_now b i) (rg_devices reg2 ! i)) [0..<length (rg_devices reg2)];
                             topics = hes_devreg_collect_topics reg2 HES_BUS_MAX_TOPICS;
                             (rv, n) = hes_bus_leaf_open hub_pub_url hub_sub_url topics (bb_bus_nng b)
                    in if rv \<noteq> 0 then None
                       else Some (m, \<lparr>bl_reg = reg2, bl_mgr = mgr, bl_devs = devs, bl_bus = bb_bus b,
                                      bl_last_publish = 0, bl_reported = [reg]\<rparr>)))"

end
