(* ===== verification/BleProps.thy ===== *)
theory BleProps
  imports Ble
begin

text \<open>
  What the Bluetooth module reports: the presence of its devices follows the links of the connection
  manager, whichever backend it has, apart from what an update of the manifest says; a button is reported when it changes; the rest is a temperature
  of its band.
\<close>

definition ble_ok :: "'m ble_state \<Rightarrow> bool" where
  "ble_ok st \<longleftrightarrow> distinct (map dv_device_index (rg_devices (bl_reg st)))
     \<and> length (bl_devs st) = length (rg_devices (bl_reg st))
     \<and> (\<forall>d \<in> set (bl_devs st). in_band 15 30 (st_last_temp_c (bt_tag d)))"

definition flags :: "hes_devreg \<Rightarrow> bool list" where
  "flags reg = map dv_online (rg_devices reg)"

text \<open>What stays the same apart from the tags, and from the bus.\<close>

definition button_memory :: "'m ble_state \<Rightarrow> (bool \<times> int) list" where
  "button_memory st = map (\<lambda>d. (bt_btn_set d, bt_last_btn d)) (bl_devs st)"

definition same_view :: "'m ble_state \<Rightarrow> 'm ble_state \<Rightarrow> bool" where
  "same_view st st' \<longleftrightarrow> bl_reg st' = bl_reg st \<and> bl_mgr st' = bl_mgr st \<and> bl_reported st' = bl_reported st
     \<and> button_memory st' = button_memory st"

lemma same_view_trans: "same_view a b \<Longrightarrow> same_view b c \<Longrightarrow> same_view a c"
  by (simp add: same_view_def)

lemma same_view_refl [simp]: "same_view st st"
  by (simp add: same_view_def)

section \<open>Readings\<close>

lemma read_object_band:
  assumes "ble_read_object bk m now r di path sz tag = (v, tag')" "in_band 15 30 (st_last_temp_c tag)"
  shows "in_band 15 30 (st_last_temp_c tag')"
proof -
  have "st_last_temp_c (snd (read_button_any bk m now di tag)) = st_last_temp_c tag"
    by (auto simp: read_button_any_def sensortag_read_button_def Let_def split: option.split)
  then show ?thesis
    using assms temp_in_band(2)[of tag r]
    by (auto simp: ble_read_object_def Let_def split: if_splits prod.splits)
qed

lemma set_tag_view:
  assumes "i < length (bl_devs st)"
  shows "same_view st (set_tag i tag st)" "bl_bus (set_tag i tag st) = bl_bus st"
    "ble_ok st \<Longrightarrow> in_band 15 30 (st_last_temp_c tag) \<Longrightarrow> ble_ok (set_tag i tag st)"
  using assms
  by (auto simp: same_view_def set_tag_def button_memory_def ble_ok_def list_eq_iff_nth_eq nth_list_update
      dest!: set_list_update_memI)

lemma same_view_bus [simp]: "same_view st (st1\<lparr>bl_bus := b\<rparr>) = same_view st st1" "ble_ok (st1\<lparr>bl_bus := b\<rparr>) = ble_ok st1"
  by (simp_all add: same_view_def button_memory_def ble_ok_def)

lemma resolved_device:
  assumes "resolve_index (bl_reg st) path di = Some i" "ble_ok st"
  shows "i < length (bl_devs st)" "i < length (rg_devices (bl_reg st))" "dv_online (rg_devices (bl_reg st) ! i)"
  using resolve_index_sound[OF assms(1)] assms(2) by (simp_all add: ble_ok_def answers_at_def)

section \<open>The answer to a GET\<close>

definition answered :: "hes_clme_msg option \<Rightarrow> hes_devreg \<Rightarrow> hes_clme_msg list \<Rightarrow> bool" where
  "answered received reg ms \<longleftrightarrow> ms = []
     \<or> (\<exists>q i m. ms = [m] \<and> received = Some q \<and> m_verb q = HES_VERB_GET
          \<and> resolve_index reg (m_path q) (m_device_index q) = Some i
          \<and> m_device_index m = dv_device_index (rg_devices reg ! i))"

lemma receive_effect:
  assumes "ble_ok st" "ble_receive bk env st = st'"
  shows "same_view st st' \<and> ble_ok st'
     \<and> (\<exists>ms. bus_sent (bl_bus st') = bus_sent (bl_bus st) @ ms \<and> answered (be_recv env) (bl_reg st) ms)"
proof (cases "\<exists>q i ob. be_recv env = Some q \<and> m_verb q = HES_VERB_GET
    \<and> resolve_index (bl_reg st) (m_path q) (m_device_index q) = Some i
    \<and> hes_dev_object_find (rg_devices (bl_reg st) ! i) (m_path q) = Some ob \<and> CHR ''r'' \<in> set (do_access ob)")
  case False
  then have "st' = st"
    using assms(2) by (auto simp: ble_receive_def ble_get_def Let_def split: option.splits if_splits)
  then show ?thesis using assms(1) by (simp add: answered_def)
next
  case True
  then obtain q i ob where q: "be_recv env = Some q" "m_verb q = HES_VERB_GET"
      "resolve_index (bl_reg st) (m_path q) (m_device_index q) = Some i"
      "hes_dev_object_find (rg_devices (bl_reg st) ! i) (m_path q) = Some ob" "CHR ''r'' \<in> set (do_access ob)" by blast
  note i = resolved_device[OF q(3) assms(1)]
  define di where "di = dv_device_index (rg_devices (bl_reg st) ! i)"
  obtain v tag where v: "ble_read_object bk (bl_mgr st) (be_get_now env) (be_get_rand env) di (do_path ob) 32 (bt_tag (bl_devs st ! i)) = (v, tag)"
    by (rule prod.exhaust)
  have "in_band 15 30 (st_last_temp_c (bt_tag (bl_devs st ! i)))" using assms(1) i(1) by (simp add: ble_ok_def)
  from read_object_band[OF v this] have t: "same_view st (set_tag i tag st)" "bl_bus (set_tag i tag st) = bl_bus st"
      "ble_ok (set_tag i tag st)" using set_tag_view[OF i(1)] assms(1) by simp_all
  have st': "st' = (case v of None \<Rightarrow> set_tag i tag st
      | Some val \<Rightarrow> (set_tag i tag st)\<lparr>bl_bus := hes_bus_send (bl_bus (set_tag i tag st)) (answer_msg di (m_path q) val)\<rparr>)"
    using assms(2) q v by (auto simp: ble_receive_def ble_get_def Let_def di_def split: option.split)
  show ?thesis
  proof (cases v)
    case None
    then show ?thesis using t st' by (simp add: answered_def)
  next
    case (Some val)
    then have "bus_sent (bl_bus st') = bus_sent (bl_bus st) @ [stamp (bl_bus st) (answer_msg di (m_path q) val)]"
      using t st' by (simp add: hes_bus_send_sent)
    moreover have "m_device_index (answer_msg di (m_path q) val) = di" by (simp add: answer_msg_def)
    ultimately show ?thesis using Some t st' q by (auto simp: answered_def di_def)
  qed
qed

section \<open>The links\<close>

text \<open>What the device with the index \<open>di\<close> is after the changes from \<open>cs\<close> to \<open>cs'\<close>, being \<open>b\<close> before.\<close>

fun after :: "hes_ble_conn list \<Rightarrow> hes_ble_conn list \<Rightarrow> u32 \<Rightarrow> bool \<Rightarrow> bool" where
  "after (c # cs) (c' # cs') di b =
     after cs cs' di (if cn_device_index c = di \<and> is_up c' \<noteq> is_up c then is_up c' else b)"
| "after _ _ di b = b"

lemma after_other: "length cs = length cs' \<Longrightarrow> di \<notin> cn_device_index ` set cs \<Longrightarrow> after cs cs' di b = b"
  by (induction cs cs' rule: list_induct2) auto

lemma after_follows:
  "length cs = length cs' \<Longrightarrow> distinct (map cn_device_index cs) \<Longrightarrow> (c, c') \<in> set (zip cs cs') \<Longrightarrow>
     after cs cs' (cn_device_index c) (is_up c) = is_up c'"
proof (induction cs cs' rule: list_induct2)
  case (Cons a cs a' cs')
  show ?case
  proof (cases "(c, c') = (a, a')")
    case True
    then show ?thesis using Cons.hyps Cons.prems(1) by (simp add: after_other)
  next
    case False
    then have "(c, c') \<in> set (zip cs cs')" using Cons.prems(2) by auto
    moreover have "cn_device_index a \<noteq> cn_device_index c"
      using set_zip_leftD[OF calculation] Cons.prems(1) by auto
    ultimately show ?thesis using Cons.IH Cons.prems(1) by simp
  qed
qed simp

text \<open>Any report made since is up to date.\<close>

definition told_since :: "'m ble_state \<Rightarrow> 'm ble_state \<Rightarrow> bool" where
  "told_since st st' \<longleftrightarrow> (\<exists>more. bl_reported st' = bl_reported st @ more
     \<and> (if more = [] then bl_reg st' = bl_reg st else last more = bl_reg st'))"

lemma told_since_refl [simp]: "told_since st st"
  by (simp add: told_since_def)

lemma told_since_trans:
  assumes "told_since a b" "told_since b c"
  shows "told_since a c"
proof -
  obtain m1 m2 where "bl_reported b = bl_reported a @ m1" "if m1 = [] then bl_reg b = bl_reg a else last m1 = bl_reg b"
      "bl_reported c = bl_reported b @ m2" "if m2 = [] then bl_reg c = bl_reg b else last m2 = bl_reg c"
    using assms unfolding told_since_def by blast
  then show ?thesis unfolding told_since_def by (intro exI[of _ "m1 @ m2"]) (auto split: if_splits)
qed

lemma set_online_id: "dv_online (rg_devices reg ! i) = b \<Longrightarrow> set_online i b reg = reg"
  unfolding set_online_def by (drule sym) simp

lemma apply_link_effect:
  assumes "ble_ok st" "apply_link ev st = st'"
  shows "ble_ok st' \<and> bl_mgr st' = bl_mgr st \<and> bl_bus st' = bl_bus st \<and> same_devices (bl_reg st) (bl_reg st')
     \<and> told_since st st'
     \<and> flags (bl_reg st') = map (\<lambda>d. if dv_device_index d = ev_device_index ev then ev_is_online ev else dv_online d) (rg_devices (bl_reg st))"
proof (cases "index_by_di (bl_reg st) (ev_device_index ev)")
  case None
  then have "st' = st" using assms(2) by (simp add: apply_link_def)
  then show ?thesis
    using assms(1) None by (auto simp: index_by_di_def first_index_None same_devices_def flags_def)
next
  case (Some i)
  then have i: "i < length (rg_devices (bl_reg st))" "dv_device_index (rg_devices (bl_reg st) ! i) = ev_device_index ev"
    by (auto simp: index_by_di_def dest!: first_index_Some)
  have d: "distinct (map dv_device_index (rg_devices (bl_reg st)))" "length (bl_devs st) = length (rg_devices (bl_reg st))"
    using assms(1) by (simp_all add: ble_ok_def)
  define up where "up = ev_is_online ev"
  define on where "on = dv_online (rg_devices (bl_reg st) ! i)"
  have l: "st' = (if up \<and> \<not> on then set_presence i True (st\<lparr>bl_devs := (bl_devs st)[i := (bl_devs st ! i)\<lparr>bt_btn_set := False\<rparr>]\<rparr>)
      else if \<not> up \<and> on then set_presence i False st else st)"
    unfolding assms(2)[symmetric] apply_link_def up_def on_def using Some by simp
  have st': "bl_reg st' = set_online i up (bl_reg st)" "told_since st st'" "bl_mgr st' = bl_mgr st" "bl_bus st' = bl_bus st"
      "bl_devs st' = bl_devs st \<or> bl_devs st' = (bl_devs st)[i := (bl_devs st ! i)\<lparr>bt_btn_set := False\<rparr>]"
    by (cases up; cases on; simp add: l set_presence_def Let_def told_since_def set_online_id on_def)+
  have "st_last_temp_c (bt_tag ((bl_devs st ! i)\<lparr>bt_btn_set := False\<rparr>)) = st_last_temp_c (bt_tag (bl_devs st ! i))" by simp
  moreover have "bl_devs st ! i \<in> set (bl_devs st)" using i(1) d(2) by simp
  ultimately have "\<forall>t \<in> set (bl_devs st'). in_band 15 30 (st_last_temp_c (bt_tag t))"
    using st'(5) assms(1) unfolding ble_ok_def by (metis set_list_update_memI)
  then have "ble_ok st'" using d st'(1,5) unfolding ble_ok_def by (metis set_online_index set_online_devices(1) length_list_update)
  moreover have "flags (bl_reg st') = map (\<lambda>d. if dv_device_index d = ev_device_index ev then ev_is_online ev else dv_online d) (rg_devices (bl_reg st))"
    unfolding st'(1) flags_def up_def[symmetric]
  proof (rule nth_equalityI)
    fix k
    assume "k < length (map dv_online (rg_devices (set_online i up (bl_reg st))))"
    then have k: "k < length (rg_devices (bl_reg st))" by simp
    then have "dv_device_index (rg_devices (bl_reg st) ! k) = ev_device_index ev \<longleftrightarrow> k = i"
      using i d(1) by (metis distinct_conv_nth length_map nth_map)
    then show "map dv_online (rg_devices (set_online i up (bl_reg st))) ! k
        = map (\<lambda>d. if dv_device_index d = ev_device_index ev then up else dv_online d) (rg_devices (bl_reg st)) ! k"
      using k by simp
  qed simp
  ultimately show ?thesis using st' same_set_online[OF i(1)] by simp
qed

lemma changes_after:
  assumes "length cs = length cs'" "ble_ok st" "fold apply_link (changes cs cs') st = st'"
  shows "ble_ok st' \<and> bl_mgr st' = bl_mgr st \<and> bl_bus st' = bl_bus st \<and> same_devices (bl_reg st) (bl_reg st')
     \<and> told_since st st' \<and> flags (bl_reg st') = map (\<lambda>d. after cs cs' (dv_device_index d) (dv_online d)) (rg_devices (bl_reg st))"
  using assms
proof (induction cs cs' arbitrary: st rule: list_induct2)
  case Nil
  then show ?case by (simp add: same_devices_def flags_def)
next
  case (Cons c cs c' cs')
  show ?case
  proof (cases "is_up c' = is_up c")
    case True
    then have "fold apply_link (changes cs cs') st = st'" using Cons.prems(2) by (simp add: change_def)
    from Cons.IH[OF Cons.prems(1) this] show ?thesis using True by simp
  next
    case False
    define ev where "ev = \<lparr>ev_device_index = cn_device_index c, ev_is_online = is_up c'\<rparr>"
    have e: "fold apply_link (changes cs cs') (apply_link ev st) = st'" using Cons.prems(2) False by (simp add: change_def ev_def)
    note 1 = apply_link_effect[OF Cons.prems(1) refl, of ev]
    note 2 = Cons.IH[OF conjunct1[OF 1] e]
    have same: "same_devices (bl_reg st) (bl_reg (apply_link ev st))" using 1 by blast
    note index = same_devices_index[OF same]
    have on: "dv_online (rg_devices (bl_reg (apply_link ev st)) ! i)
        = (if dv_device_index (rg_devices (bl_reg st) ! i) = cn_device_index c then is_up c' else dv_online (rg_devices (bl_reg st) ! i))"
      if "i < length (rg_devices (bl_reg st))" for i
      using 1 that unfolding flags_def by (auto simp: list_eq_iff_nth_eq ev_def)
    have "flags (bl_reg st') = map (\<lambda>d. after (c # cs) (c' # cs') (dv_device_index d) (dv_online d)) (rg_devices (bl_reg st))"
      unfolding conjunct2[OF conjunct2[OF conjunct2[OF conjunct2[OF conjunct2[OF 2]]]]]
    proof (rule nth_equalityI)
      fix i
      assume "i < length (map (\<lambda>d. after cs cs' (dv_device_index d) (dv_online d)) (rg_devices (bl_reg (apply_link ev st))))"
      then have i: "i < length (rg_devices (bl_reg (apply_link ev st)))" "i < length (rg_devices (bl_reg st))"
        using same_devices_length[OF same] by simp_all
      have "dv_device_index (rg_devices (bl_reg (apply_link ev st)) ! i) = dv_device_index (rg_devices (bl_reg st) ! i)"
        using index i by (metis nth_map)
      then show "map (\<lambda>d. after cs cs' (dv_device_index d) (dv_online d)) (rg_devices (bl_reg (apply_link ev st))) ! i
          = map (\<lambda>d. after (c # cs) (c' # cs') (dv_device_index d) (dv_online d)) (rg_devices (bl_reg st)) ! i"
        using i False by (auto simp: on)
    qed (use same_devices_length[OF same] in simp)
    then show ?thesis
      using 1 2 same_devices_trans[OF same, of "bl_reg st'"] told_since_trans[of st "apply_link ev st" st']
      by (intro conjI) (elim conjE; simp only:)+
  qed
qed

text \<open>Every device of the registry that the manager knows is online exactly while its link is up.\<close>

definition follows :: "hes_ble_conn list \<Rightarrow> hes_devreg \<Rightarrow> bool" where
  "follows cs reg \<longleftrightarrow> (\<forall>d \<in> set (rg_devices reg). \<forall>c \<in> set cs. cn_device_index c = dv_device_index d \<longrightarrow> dv_online d = is_up c)"

text \<open>The last report made to the manifest shows the presence as it is.\<close>

definition told :: "'m ble_state \<Rightarrow> bool" where
  "told st \<longleftrightarrow> bl_reported st \<noteq> [] \<and> flags (last (bl_reported st)) = flags (bl_reg st)"

lemma told_since_told: "told_since st st' \<Longrightarrow> told st \<Longrightarrow> told st'"
  unfolding told_since_def told_def by (auto split: if_splits)

text \<open>What links that went from \<open>cs\<close> to \<open>cs'\<close> make of a registry: a device whose link came up or was lost is
  online as its link now is; every other device, and all else the registry says, is as it was.\<close>

definition moved_by_links :: "hes_ble_conn list \<Rightarrow> hes_ble_conn list \<Rightarrow> hes_devreg \<Rightarrow> hes_devreg \<Rightarrow> bool" where
  "moved_by_links cs cs' reg reg' \<longleftrightarrow>
     map cn_device_index cs' = map cn_device_index cs \<and> same_devices reg reg'
     \<and> (\<forall>i < length (rg_devices reg). \<forall>j < length cs.
          cn_device_index (cs ! j) = dv_device_index (rg_devices reg ! i) \<longrightarrow>
          dv_online (rg_devices reg' ! i)
            = (if is_up (cs' ! j) \<noteq> is_up (cs ! j) then is_up (cs' ! j) else dv_online (rg_devices reg ! i)))
     \<and> (\<forall>i < length (rg_devices reg). dv_device_index (rg_devices reg ! i) \<notin> cn_device_index ` set cs \<longrightarrow>
          dv_online (rg_devices reg' ! i) = dv_online (rg_devices reg ! i))"

lemma after_at:
  "length cs = length cs' \<Longrightarrow> distinct (map cn_device_index cs) \<Longrightarrow> j < length cs \<Longrightarrow>
     after cs cs' (cn_device_index (cs ! j)) b = (if is_up (cs' ! j) \<noteq> is_up (cs ! j) then is_up (cs' ! j) else b)"
proof (induction cs cs' arbitrary: j b rule: list_induct2)
  case (Cons a cs a' cs')
  show ?case
  proof (cases j)
    case 0
    then show ?thesis using Cons.hyps Cons.prems(1) by (simp add: after_other)
  next
    case (Suc k)
    then have "cn_device_index a \<noteq> cn_device_index (cs ! k)" using Cons.prems by auto
    then show ?thesis using Cons.IH[of k b] Cons.prems Suc by simp
  qed
qed simp

lemma moved_follows:
  assumes "moved_by_links cs cs' reg reg'" "follows cs reg"
  shows "follows cs' reg'"
  unfolding follows_def
proof (intro ballI impI)
  fix d c'
  assume d: "d \<in> set (rg_devices reg')" and c': "c' \<in> set cs'" "cn_device_index c' = dv_device_index d"
  have m: "map cn_device_index cs' = map cn_device_index cs" "same_devices reg reg'"
    using assms(1) by (simp_all add: moved_by_links_def)
  obtain j where j: "j < length cs'" "c' = cs' ! j" using c'(1) by (auto simp: in_set_conv_nth)
  obtain i where i: "i < length (rg_devices reg')" "d = rg_devices reg' ! i" using d by (auto simp: in_set_conv_nth)
  have i2: "i < length (rg_devices reg)" using i same_devices_length[OF m(2)] by simp
  have j2: "j < length cs" using j(1) m(1) by (metis length_map)
  have di: "dv_device_index (rg_devices reg ! i) = dv_device_index d"
    using same_devices_index[OF m(2)] i i2 by (metis nth_map)
  have b: "cn_device_index (cs ! j) = dv_device_index (rg_devices reg ! i)"
    using m(1) j j2 di c'(2) by (metis nth_map)
  then have "dv_online (rg_devices reg ! i) = is_up (cs ! j)"
    using assms(2) i2 j2 unfolding follows_def by simp
  moreover have "dv_online (rg_devices reg' ! i)
      = (if is_up (cs' ! j) \<noteq> is_up (cs ! j) then is_up (cs' ! j) else dv_online (rg_devices reg ! i))"
    using assms(1) i2 j2 b by (simp add: moved_by_links_def)
  ultimately show "dv_online d = is_up c'" using i(2) j(2) by simp
qed

context link_backend
begin

lemma links_law:
  assumes "ble_ok st" "ok (bl_mgr st)" "length (conns (bl_mgr st)) \<le> HES_DEVREG_MAX_DEVICES"
    and "bk_poll bk = poll" "ble_links bk e st = st'"
  shows "ble_ok st' \<and> ok (bl_mgr st') \<and> length (conns (bl_mgr st')) = length (conns (bl_mgr st))
     \<and> moved_by_links (conns (bl_mgr st)) (conns (bl_mgr st')) (bl_reg st) (bl_reg st') \<and> told_since st st'"
proof -
  obtain evs m' where p: "poll e HES_DEVREG_MAX_DEVICES (bl_mgr st) = (evs, m')" by (rule prod.exhaust)
  have k: "ok m'" "map cn_device_index (conns m') = map cn_device_index (conns (bl_mgr st))"
    using kept[OF assms(2,3) p] by simp_all
  have len: "length (conns (bl_mgr st)) = length (conns m')" using k(2) by (metis length_map)
  have f: "fold apply_link (changes (conns (bl_mgr st)) (conns m')) (st\<lparr>bl_mgr := m'\<rparr>) = st'"
    using assms(4,5) p told[OF assms(2,3) p] by (simp add: ble_links_def)
  have "ble_ok (st\<lparr>bl_mgr := m'\<rparr>)" using assms(1) by (simp add: ble_ok_def)
  note c = changes_after[OF len this f]
  have same: "same_devices (bl_reg st) (bl_reg st')" using c by simp
  have on: "dv_online (rg_devices (bl_reg st') ! i) = after (conns (bl_mgr st)) (conns m')
      (dv_device_index (rg_devices (bl_reg st) ! i)) (dv_online (rg_devices (bl_reg st) ! i))"
    if "i < length (rg_devices (bl_reg st))" for i
    using c that same_devices_length[OF same] unfolding flags_def by (auto simp: list_eq_iff_nth_eq)
  have "moved_by_links (conns (bl_mgr st)) (conns m') (bl_reg st) (bl_reg st')"
    unfolding moved_by_links_def
  proof (intro conjI allI impI)
    fix i j
    assume "i < length (rg_devices (bl_reg st))" "j < length (conns (bl_mgr st))"
      "cn_device_index (conns (bl_mgr st) ! j) = dv_device_index (rg_devices (bl_reg st) ! i)"
    then show "dv_online (rg_devices (bl_reg st') ! i) = (if is_up (conns m' ! j) \<noteq> is_up (conns (bl_mgr st) ! j)
        then is_up (conns m' ! j) else dv_online (rg_devices (bl_reg st) ! i))"
      using on after_at[OF len indices[OF assms(2)], of j] by simp
  qed (use k(2) same on after_other[OF len] in simp_all)
  moreover have "told_since (st\<lparr>bl_mgr := m'\<rparr>) st' = told_since st st'" by (simp add: told_since_def)
  moreover have "bl_mgr st' = m'" "ble_ok st'" using c by (elim conjE, simp)+
  ultimately show ?thesis using c k(1) len by (intro conjI) (elim conjE; simp only:)+
qed

end

section \<open>The buttons\<close>

text \<open>A report as a device, an object and a value.\<close>

definition report_of :: "hes_clme_msg \<Rightarrow> u32 \<times> string \<times> string" where
  "report_of m = (m_device_index m, m_path m, m_payload m)"

abbreviation bl_dev :: "'m ble_state \<Rightarrow> nat \<Rightarrow> hes_device" where "bl_dev st i \<equiv> rg_devices (bl_reg st) ! i"

definition has_button :: "'m ble_state \<Rightarrow> nat \<Rightarrow> bool" where
  "has_button st i \<longleftrightarrow> dv_online (bl_dev st i) \<and> hes_dev_object_find (bl_dev st i) HES_LX_BTN_CV \<noteq> None"

text \<open>What is read from the button of the device at \<open>i\<close>, whether that is news, and the report of it.\<close>

definition pressed_at :: "('e, 'm) ble_backend \<Rightarrow> (nat \<Rightarrow> int) \<Rightarrow> 'm ble_state \<Rightarrow> nat \<Rightarrow> int \<times> sensortag" where
  "pressed_at bk now st i =
     read_button_any bk (bl_mgr st) (now i) (dv_device_index (bl_dev st i)) (bt_tag (bl_devs st ! i))"

definition button_news :: "('e, 'm) ble_backend \<Rightarrow> (nat \<Rightarrow> int) \<Rightarrow> 'm ble_state \<Rightarrow> nat \<Rightarrow> bool" where
  "button_news bk now st i \<longleftrightarrow> has_button st i
     \<and> (\<not> bt_btn_set (bl_devs st ! i) \<or> fst (pressed_at bk now st i) \<noteq> bt_last_btn (bl_devs st ! i))"

definition button_report :: "('e, 'm) ble_backend \<Rightarrow> (nat \<Rightarrow> int) \<Rightarrow> 'm ble_state \<Rightarrow> nat \<Rightarrow> (u32 \<times> string \<times> string) list" where
  "button_report bk now st i =
     (if button_news bk now st i
      then [(dv_device_index (bl_dev st i), HES_LX_BTN_CV, if fst (pressed_at bk now st i) \<noteq> 0 then ''1'' else ''0'')]
      else [])"

definition button_after :: "('e, 'm) ble_backend \<Rightarrow> (nat \<Rightarrow> int) \<Rightarrow> 'm ble_state \<Rightarrow> nat \<Rightarrow> ble_dev" where
  "button_after bk now st i =
     (if has_button st i
      then \<lparr>bt_tag = snd (pressed_at bk now st i), bt_btn_set = True, bt_last_btn = fst (pressed_at bk now st i)\<rparr>
      else bl_devs st ! i)"

lemma button_text_value: "button_text p = (if p \<noteq> 0 then ''1'' else ''0'')"
proof -
  have "dec_int 0 = ''0''" "dec_int 1 = ''1''" by code_simp+
  then show ?thesis by (simp add: button_text_def)
qed

lemma ble_dev_set [simp]: "d\<lparr>bt_tag := t, bt_btn_set := b, bt_last_btn := p\<rparr> = \<lparr>bt_tag = t, bt_btn_set = b, bt_last_btn = p\<rparr>"
  by (cases d) simp

lemma report_polled:
  assumes "length path < HES_PATH_MAX" "length val < HES_PAYLOAD_MAX"
  shows "report_of (stamp b (polled_msg di path val)) = (di, path, val)"
  using assms by (simp add: report_of_def polled_msg_def hes_msg_set_path_def hes_msg_set_payload_str_def hes_strlcpy_id)

lemma button_effect:
  assumes "i < length (bl_devs st)"
  shows "\<exists>bus ms. ble_button bk now i st = st\<lparr>bl_devs := (bl_devs st)[i := button_after bk now st i], bl_bus := bus\<rparr>
     \<and> bus_sent bus = bus_sent (bl_bus st) @ ms \<and> map report_of ms = button_report bk now st i"
proof (cases "has_button st i")
  case False
  then have "ble_button bk now i st = st" by (auto simp: ble_button_def has_button_def Let_def)
  then show ?thesis using False
    by (intro exI[of _ "bl_bus st"] exI[of _ "[]"]) (simp add: button_after_def button_report_def button_news_def)
next
  case True
  obtain bo where bo: "hes_dev_object_find (bl_dev st i) HES_LX_BTN_CV = Some bo" using True by (auto simp: has_button_def)
  then have path: "do_path bo = HES_LX_BTN_CV" by (auto simp: hes_dev_object_find_def find_Some_iff)
  obtain p tag where p: "pressed_at bk now st i = (p, tag)" by (rule prod.exhaust)
  define bd where "bd = (bl_devs st ! i)\<lparr>bt_tag := tag\<rparr>"
  have r: "ble_button bk now i st = (let st1 = set_tag i tag st in if \<not> bt_btn_set bd \<or> p \<noteq> bt_last_btn bd
      then st1\<lparr>bl_devs := (bl_devs st1)[i := bd\<lparr>bt_btn_set := True, bt_last_btn := p\<rparr>],
               bl_bus := publish_value (dv_device_index (bl_dev st i)) HES_LX_BTN_CV (hes_strlcpy 8 (button_text p)) (bl_bus st1)\<rparr>
      else st1)"
    using True bo p[unfolded pressed_at_def] assms path
    by (simp add: ble_button_def has_button_def Let_def set_tag_def bd_def)
  show ?thesis
  proof (cases "button_news bk now st i")
    case news: True
    define m where "m = stamp (bl_bus st) (polled_msg (dv_device_index (bl_dev st i)) HES_LX_BTN_CV (hes_strlcpy 8 (button_text p)))"
    have "report_of m = (dv_device_index (bl_dev st i), HES_LX_BTN_CV, if p \<noteq> 0 then ''1'' else ''0'')"
      unfolding m_def by (subst report_polled) (simp_all add: button_text_value hes_strlcpy_id)
    then show ?thesis using news True p
      by (intro exI[of _ "publish_value (dv_device_index (bl_dev st i)) HES_LX_BTN_CV (hes_strlcpy 8 (button_text p)) (bl_bus st)"] exI[of _ "[m]"])
        (auto simp: r Let_def set_tag_def bd_def button_news_def button_report_def button_after_def publish_value_def hes_bus_send_sent m_def)
  next
    case False
    then have "bt_btn_set bd" "bt_last_btn bd = p" using True p by (auto simp: button_news_def bd_def)
    then have "bd = button_after bk now st i" using True p by (simp add: button_after_def bd_def)
    then show ?thesis using False \<open>bt_btn_set bd\<close> \<open>bt_last_btn bd = p\<close>
      by (intro exI[of _ "bl_bus st"] exI[of _ "[]"]) (simp add: r set_tag_def bd_def button_report_def)
  qed
qed

lemma buttons_effect:
  assumes "k \<le> length (bl_devs st)"
  shows "\<exists>bus ms. fold (ble_button bk now) [0..<k] st
       = st\<lparr>bl_devs := map (\<lambda>i. if i < k then button_after bk now st i else bl_devs st ! i) [0..<length (bl_devs st)], bl_bus := bus\<rparr>
     \<and> bus_sent bus = bus_sent (bl_bus st) @ ms \<and> map report_of ms = concat (map (button_report bk now st) [0..<k])"
  using assms
proof (induction k)
  case 0
  then show ?case by (intro exI[of _ "bl_bus st"] exI[of _ "[]"]) (simp add: map_nth)
next
  case (Suc k)
  define st1 where "st1 = fold (ble_button bk now) [0..<k] st"
  obtain bus ms where 1: "st1 = st\<lparr>bl_devs := map (\<lambda>i. if i < k then button_after bk now st i else bl_devs st ! i) [0..<length (bl_devs st)], bl_bus := bus\<rparr>"
      "bus_sent bus = bus_sent (bl_bus st) @ ms" "map report_of ms = concat (map (button_report bk now st) [0..<k])"
    using Suc unfolding st1_def by auto
  have len: "k < length (bl_devs st1)" using Suc.prems 1(1) by simp
  have at: "bl_devs st1 ! k = bl_devs st ! k" "bl_reg st1 = bl_reg st" "bl_mgr st1 = bl_mgr st" using Suc.prems 1(1) by simp_all
  have "has_button st1 k = has_button st k" "pressed_at bk now st1 k = pressed_at bk now st k"
    by (simp_all only: has_button_def pressed_at_def at)
  then have same: "button_after bk now st1 k = button_after bk now st k" "button_report bk now st1 k = button_report bk now st k"
    by (simp_all add: button_after_def button_report_def button_news_def at)
  obtain bus2 ms2 where 2: "ble_button bk now k st1 = st1\<lparr>bl_devs := (bl_devs st1)[k := button_after bk now st k], bl_bus := bus2\<rparr>"
      "bus_sent bus2 = bus_sent (bl_bus st1) @ ms2" "map report_of ms2 = button_report bk now st k"
    using button_effect[OF len, of bk now] same by auto
  have "(bl_devs st1)[k := button_after bk now st k]
      = map (\<lambda>i. if i < Suc k then button_after bk now st i else bl_devs st ! i) [0..<length (bl_devs st)]"
  proof (rule nth_equalityI)
    fix i
    assume "i < length ((bl_devs st1)[k := button_after bk now st k])"
    then show "(bl_devs st1)[k := button_after bk now st k] ! i
        = map (\<lambda>i. if i < Suc k then button_after bk now st i else bl_devs st ! i) [0..<length (bl_devs st)] ! i"
      unfolding 1(1) by (cases "i = k") (simp_all add: less_Suc_eq)
  qed (simp add: 1(1))
  then have "ble_button bk now k st1 = st\<lparr>bl_devs := map (\<lambda>i. if i < Suc k then button_after bk now st i else bl_devs st ! i)
      [0..<length (bl_devs st)], bl_bus := bus2\<rparr>" unfolding 2(1) by (simp add: 1(1))
  moreover have "fold (ble_button bk now) [0..<Suc k] st = ble_button bk now k st1" by (simp add: st1_def)
  moreover have "bus_sent bus2 = bus_sent (bl_bus st) @ (ms @ ms2)" using 1(1,2) 2(2) by simp
  ultimately show ?case using 1(3) 2(3) by (intro exI[of _ bus2] exI[of _ "ms @ ms2"]) simp
qed

section \<open>The periodic reports\<close>

text \<open>A message is the temperature of an online device that has the object, in two decimals between 15 and 30
  degrees.\<close>

definition temperature_report :: "hes_devreg \<Rightarrow> hes_clme_msg \<Rightarrow> bool" where
  "temperature_report reg m \<longleftrightarrow>
     (\<exists>d \<in> set (rg_devices reg). dv_online d \<and> m_device_index m = dv_device_index d \<and> m_path m = HES_LX_TEMP_CV
        \<and> (\<exists>ob \<in> set (dv_objects d). do_path ob = HES_LX_TEMP_CV \<and> CHR ''r'' \<in> set (do_access ob)))
     \<and> (\<exists>h. 1500 \<le> h \<and> h \<le> 3000 \<and> m_payload m = dec_int (h div 100) @ ''.'' @ two_digits (h mod 100))"

definition publishes :: "'m ble_state \<Rightarrow> 'm ble_state \<Rightarrow> bool" where
  "publishes st st' \<longleftrightarrow> same_view st st' \<and> ble_ok st'
     \<and> (\<exists>ms. bus_sent (bl_bus st') = bus_sent (bl_bus st) @ ms \<and> (\<forall>m \<in> set ms. temperature_report (bl_reg st) m))"

lemma publishes_refl: "ble_ok st \<Longrightarrow> publishes st st"
  by (simp add: publishes_def)

lemma publishes_trans:
  assumes "publishes a b" "publishes b c"
  shows "publishes a c"
proof -
  obtain m1 m2 where "bus_sent (bl_bus b) = bus_sent (bl_bus a) @ m1" "\<forall>m \<in> set m1. temperature_report (bl_reg a) m"
      "bus_sent (bl_bus c) = bus_sent (bl_bus b) @ m2" "\<forall>m \<in> set m2. temperature_report (bl_reg b) m"
    using assms unfolding publishes_def by blast
  then have "bus_sent (bl_bus c) = bus_sent (bl_bus a) @ (m1 @ m2) \<and> (\<forall>m \<in> set (m1 @ m2). temperature_report (bl_reg a) m)"
    using assms(1) by (auto simp: publishes_def same_view_def)
  then show ?thesis using assms same_view_trans unfolding publishes_def by blast
qed

lemma publishes_fold:
  assumes "\<And>x s. x \<in> set xs \<Longrightarrow> publishes st s \<Longrightarrow> publishes s (f x s)" "ble_ok st"
  shows "publishes st (fold f xs st)"
proof -
  have "publishes st s \<Longrightarrow> publishes st (fold f xs s)" for s
    using assms(1)
  proof (induction xs arbitrary: s)
    case (Cons x xs)
    have "publishes st (f x s)" using Cons.prems publishes_trans by fastforce
    then show ?case using Cons.IH Cons.prems(2) by simp
  qed simp
  then show ?thesis using publishes_refl[OF assms(2)] by blast
qed

lemma temperature_text:
  assumes "1500 \<le> h" "h \<le> 3000"
  shows "length (dec_int (h div 100) @ ''.'' @ two_digits (h mod 100)) < 32"
proof -
  have "\<bar>h div 100\<bar> < 10 ^ 2" using assms by simp
  from dec_int_length[OF this] show ?thesis by (simp add: two_digits_def)
qed

lemma publish_object_effect:
  assumes "ble_ok st" "i < length (rg_devices (bl_reg st))" "dv_online (bl_dev st i)" "k < length (dv_objects (bl_dev st i))"
  shows "publishes st (publish_object bk now r i k st)"
proof (cases "CHR ''r'' \<notin> set (do_access (dv_objects (bl_dev st i) ! k)) \<or> do_path (dv_objects (bl_dev st i) ! k) \<noteq> HES_LX_TEMP_CV")
  case True
  have "set_tag i (bt_tag (bl_devs st ! i)) st = st" by (simp add: set_tag_def)
  then have "publish_object bk now r i k st = st"
    using True by (auto simp: publish_object_def ble_read_object_def Let_def)
  then show ?thesis using publishes_refl[OF assms(1)] by simp
next
  case False
  define ob where "ob = dv_objects (bl_dev st i) ! k"
  have ob: "CHR ''r'' \<in> set (do_access ob)" "do_path ob = HES_LX_TEMP_CV" "ob \<in> set (dv_objects (bl_dev st i))"
    using False assms(4) by (simp_all add: ob_def)
  have i: "i < length (bl_devs st)" using assms(1,2) by (simp add: ble_ok_def)
  obtain t tag where rd: "sensortag_read_temp_c (r k) (bt_tag (bl_devs st ! i)) = (t, tag)" by (rule prod.exhaust)
  have "in_band 15 30 (st_last_temp_c (bt_tag (bl_devs st ! i)))" using assms(1) i by (simp add: ble_ok_def)
  from temp_in_band[OF this, of "r k"] have t: "in_band 15 30 t" "in_band 15 30 (st_last_temp_c tag)" unfolding rd by simp_all
  obtain h where h: "1500 \<le> h" "h \<le> 3000" "fmt_f2 t = dec_int (h div 100) @ ''.'' @ two_digits (h mod 100)"
    using fmt_f2_band[of 15 30 t] t(1) by auto
  define m where "m = stamp (bl_bus st) (polled_msg (dv_device_index (bl_dev st i)) HES_LX_TEMP_CV (fmt_f2 t))"
  have len: "length (fmt_f2 t) < 32" unfolding h(3) by (rule temperature_text[OF h(1,2)])
  then have "report_of m = (dv_device_index (bl_dev st i), HES_LX_TEMP_CV, fmt_f2 t)"
    unfolding m_def by (intro report_polled) simp_all
  then have m: "temperature_report (bl_reg st) m"
    using ob h assms(2,3) unfolding temperature_report_def report_of_def
    by (intro conjI bexI[of _ "bl_dev st i"]) auto
  have "publish_object bk now r i k st = (set_tag i tag st)\<lparr>bl_bus := hes_bus_send (bl_bus st)
      (polled_msg (dv_device_index (bl_dev st i)) HES_LX_TEMP_CV (fmt_f2 t))\<rparr>"
    using ob rd len set_tag_view(2)[OF i]
    by (simp add: publish_object_def ob_def[symmetric] ble_read_object_def Let_def publish_value_def hes_strlcpy_id)
  then show ?thesis
    using set_tag_view[OF i] assms(1) t(2) m unfolding publishes_def
    by (auto simp: hes_bus_send_sent m_def)
qed

lemma publish_device_effect:
  assumes "ble_ok st" "i < length (rg_devices (bl_reg st))"
  shows "publishes st (publish_device bk now r i st)"
proof (cases "dv_online (bl_dev st i)")
  case False
  then show ?thesis using publishes_refl[OF assms(1)] by (simp add: publish_device_def)
next
  case True
  have "publishes st (fold (publish_object bk now (r i) i) [0..<length (dv_objects (bl_dev st i))] st)"
  proof (rule publishes_fold[OF _ assms(1)])
    fix k s
    assume k: "k \<in> set [0..<length (dv_objects (bl_dev st i))]" "publishes st s"
    then have "bl_reg s = bl_reg st" "ble_ok s" by (simp_all add: publishes_def same_view_def)
    then show "publishes s (publish_object bk now (r i) i k s)"
      using publish_object_effect[of s i k bk now "r i"] k(1) assms(2) True by simp
  qed
  then show ?thesis using True by (simp add: publish_device_def Let_def)
qed

lemma publish_effect:
  assumes "ble_ok st"
  shows "publishes st (ble_publish bk now r st)"
proof (cases "now - bl_last_publish st \<ge> PUBLISH_PERIOD_SEC")
  case False
  then show ?thesis using publishes_refl[OF assms] by (simp add: ble_publish_def)
next
  case True
  define st1 where "st1 = st\<lparr>bl_last_publish := now\<rparr>"
  have st1: "ble_ok st1" "publishes st st1"
    using assms by (simp_all add: st1_def ble_ok_def publishes_def same_view_def button_memory_def)
  have "publishes st1 (fold (publish_device bk now r) [0..<length (rg_devices (bl_reg st))] st1)"
  proof (rule publishes_fold[OF _ st1(1)])
    fix i s
    assume i: "i \<in> set [0..<length (rg_devices (bl_reg st))]" "publishes st1 s"
    then have "bl_reg s = bl_reg st" "ble_ok s" by (simp_all add: publishes_def same_view_def st1_def)
    then show "publishes s (publish_device bk now r i s)" using publish_device_effect[of s i bk now r] i(1) by simp
  qed
  then show ?thesis using True publishes_trans[OF st1(2)] by (simp add: ble_publish_def st1_def)
qed

section \<open>A turn\<close>

lemma update_effect:
  assumes "ble_update js mreg u st = st'" "ble_ok st"
  shows "ble_ok st' \<and> bl_mgr st' = bl_mgr st \<and> bl_bus st' = bl_bus st \<and> bl_devs st' = bl_devs st
     \<and> bl_reported st' = bl_reported st
     \<and> map dv_device_index (rg_devices (bl_reg st')) = map dv_device_index (rg_devices (bl_reg st))"
proof (cases "bl_reg st' = bl_reg st \<and> st' = st")
  case True
  then show ?thesis using assms(2) by simp
next
  case False
  then obtain upd where st': "st' = st\<lparr>bl_reg := merge_slice (bl_reg st) upd\<rparr>"
    using assms(1) by (auto simp: ble_update_def split: sum.splits prod.splits if_splits)
  moreover have "map dv_device_index (rg_devices (merge_slice (bl_reg st) upd)) = map dv_device_index (rg_devices (bl_reg st))"
    by (simp add: merge_slice_def)
  moreover have "length (rg_devices (merge_slice (bl_reg st) upd)) = length (rg_devices (bl_reg st))"
    by (simp add: merge_slice_def)
  ultimately show ?thesis using assms(2) unfolding ble_ok_def by simp
qed

lemma events_keep:
  "ble_ok st \<Longrightarrow> ble_ok (fold apply_link evs st) \<and> bl_bus (fold apply_link evs st) = bl_bus st"
proof (induction evs arbitrary: st)
  case (Cons ev evs)
  then show ?case using apply_link_effect[OF Cons.prems refl, of ev] by simp
qed simp

lemma links_keep:
  assumes "ble_ok st"
  shows "ble_ok (ble_links bk e st) \<and> bl_bus (ble_links bk e st) = bl_bus st"
proof -
  obtain evs m where "bk_poll bk e HES_DEVREG_MAX_DEVICES (bl_mgr st) = (evs, m)" by (rule prod.exhaust)
  moreover have "ble_ok (st\<lparr>bl_mgr := m\<rparr>)" using assms by (simp add: ble_ok_def)
  ultimately show ?thesis using events_keep[of "st\<lparr>bl_mgr := m\<rparr>" evs] by (simp add: ble_links_def)
qed

lemma buttons_keep:
  assumes "ble_ok st" "ble_buttons bk now st = st'"
  shows "ble_ok st' \<and> bl_reg st' = bl_reg st \<and> bl_mgr st' = bl_mgr st \<and> bl_reported st' = bl_reported st
     \<and> bl_devs st' = map (button_after bk now st) [0..<length (bl_devs st)]
     \<and> (\<exists>ms. bus_sent (bl_bus st') = bus_sent (bl_bus st) @ ms
          \<and> map report_of ms = concat (map (button_report bk now st) [0..<length (bl_devs st)]))"
proof -
  have len: "length (rg_devices (bl_reg st)) = length (bl_devs st)" using assms(1) by (simp add: ble_ok_def)
  obtain bus ms where st': "st' = st\<lparr>bl_devs := map (\<lambda>i. if i < length (bl_devs st) then button_after bk now st i else bl_devs st ! i)
        [0..<length (bl_devs st)], bl_bus := bus\<rparr>"
      "bus_sent bus = bus_sent (bl_bus st) @ ms" "map report_of ms = concat (map (button_report bk now st) [0..<length (bl_devs st)])"
    using buttons_effect[OF order_refl, of bk now st] assms(2) len by (auto simp: ble_buttons_def)
  have devs: "bl_devs st' = map (button_after bk now st) [0..<length (bl_devs st)]" unfolding st'(1) by simp
  have "st_last_temp_c (bt_tag (button_after bk now st i)) = st_last_temp_c (bt_tag (bl_devs st ! i))" for i
    by (auto simp: button_after_def pressed_at_def read_button_any_def sensortag_read_button_def Let_def split: option.split)
  then have "\<forall>d \<in> set (bl_devs st'). in_band 15 30 (st_last_temp_c (bt_tag d))"
    using assms(1) unfolding devs ble_ok_def by auto
  then have "ble_ok st'" using assms(1) devs unfolding ble_ok_def st'(1) by simp
  then show ?thesis using devs st' by auto
qed

text \<open>The state in which the buttons of a turn are read.\<close>

definition before_buttons ::
    "('e, 'm) ble_backend \<Rightarrow> (string \<Rightarrow> json option) \<Rightarrow> hes_mreg \<Rightarrow> 'e ble_env \<Rightarrow> 'm ble_state \<Rightarrow> 'm ble_state" where
  "before_buttons bk js mreg env st =
     ble_links bk (be_poll env) (ble_update js mreg (be_update env) (ble_receive bk env st))"

text \<open>C19: 
  What a turn of the Bluetooth module puts on the bus, with any backend: at most the answer to a GET,
  to the device the GET resolves to; then, in the order of the devices, a report of each button whose
  device is online and whose reading is not the last one reported since the link came up, with that
  reading; then temperatures of online devices, as two decimals between 15 and 30 degrees. Afterwards
  the last reading of every button is remembered.
\<close>

theorem ble_turn_reports:
  assumes "ble_ok st" "ble_turn bk js mreg env st = st'" "before_buttons bk js mreg env st = mid"
  shows "\<exists>ans btn temps. bus_sent (bl_bus st') = bus_sent (bl_bus st) @ ans @ btn @ temps
     \<and> answered (be_recv env) (bl_reg st) ans
     \<and> map report_of btn = concat (map (button_report bk (be_button_now env) mid) [0..<length (bl_devs mid)])
     \<and> (\<forall>m \<in> set temps. temperature_report (bl_reg mid) m)
     \<and> button_memory st' = map (\<lambda>i. if has_button mid i then (True, fst (pressed_at bk (be_button_now env) mid i))
         else (bt_btn_set (bl_devs mid ! i), bt_last_btn (bl_devs mid ! i))) [0..<length (bl_devs mid)]
     \<and> ble_ok st'"
proof -
  define s1 where "s1 = ble_receive bk env st"
  note 1 = receive_effect[OF assms(1) s1_def[symmetric]]
  define s2 where "s2 = ble_update js mreg (be_update env) s1"
  have ok1: "ble_ok s1" using 1 by simp
  note 2 = update_effect[OF s2_def[symmetric] ok1]
  have ok2: "ble_ok s2" using 2 by simp
  have mid: "mid = ble_links bk (be_poll env) s2" using assms(3) by (simp add: before_buttons_def s1_def s2_def)
  note 3 = links_keep[OF ok2, of bk "be_poll env", folded mid]
  define s4 where "s4 = ble_buttons bk (be_button_now env) mid"
  have ok3: "ble_ok mid" using 3 by simp
  note 4 = buttons_keep[OF ok3 s4_def[symmetric]]
  have ok4: "ble_ok s4" using 4 by simp
  have st': "st' = ble_publish bk (be_publish_now env) (be_publish_rand env) s4"
    using assms(2) by (simp add: ble_turn_def s1_def s2_def mid s4_def Let_def)
  note 5 = publish_effect[OF ok4, of bk "be_publish_now env" "be_publish_rand env", folded st']
  obtain ans where a: "bus_sent (bl_bus s1) = bus_sent (bl_bus st) @ ans" "answered (be_recv env) (bl_reg st) ans" using 1 by blast
  obtain btn where b: "bus_sent (bl_bus s4) = bus_sent (bl_bus mid) @ btn"
      "map report_of btn = concat (map (button_report bk (be_button_now env) mid) [0..<length (bl_devs mid)])" using 4 by blast
  obtain temps where t: "bus_sent (bl_bus st') = bus_sent (bl_bus s4) @ temps" "\<forall>m \<in> set temps. temperature_report (bl_reg s4) m"
    using 5 unfolding publishes_def by blast
  have "bl_bus mid = bl_bus s1" using 2 3 by simp
  then have "bus_sent (bl_bus st') = bus_sent (bl_bus st) @ ans @ btn @ temps" using a b t by simp
  moreover have "button_memory st' = button_memory s4" "ble_ok st'" using 5 by (simp_all add: publishes_def same_view_def)
  moreover have "button_memory s4 = map (\<lambda>i. if has_button mid i then (True, fst (pressed_at bk (be_button_now env) mid i))
         else (bt_btn_set (bl_devs mid ! i), bt_last_btn (bl_devs mid ! i))) [0..<length (bl_devs mid)]"
    using 4 by (auto simp: button_memory_def button_after_def)
  ultimately show ?thesis using a(2) b(2) t(2) 4
    by (intro exI[of _ ans] exI[of _ btn] exI[of _ temps]) simp
qed

section \<open>A run\<close>

fun ble_run ::
    "('e, 'm) ble_backend \<Rightarrow> (string \<Rightarrow> json option) \<Rightarrow> hes_mreg \<Rightarrow> 'e ble_env list \<Rightarrow> 'm ble_state \<Rightarrow> 'm ble_state" where
  "ble_run bk js mreg [] st = st"
| "ble_run bk js mreg (env # envs) st = ble_run bk js mreg envs (ble_turn bk js mreg env st)"

text \<open>Every update of the run shows the presence as the module has it when the update arrives.\<close>

fun all_echo ::
    "('e, 'm) ble_backend \<Rightarrow> (string \<Rightarrow> json option) \<Rightarrow> hes_mreg \<Rightarrow> 'e ble_env list \<Rightarrow> 'm ble_state \<Rightarrow> bool" where
  "all_echo bk js mreg [] st \<longleftrightarrow> True"
| "all_echo bk js mreg (env # envs) st \<longleftrightarrow>
     flags (bl_reg (ble_update js mreg (be_update env) (ble_receive bk env st))) = flags (bl_reg st)
     \<and> all_echo bk js mreg envs (ble_turn bk js mreg env st)"

lemma follows_cong:
  assumes "map dv_device_index (rg_devices reg') = map dv_device_index (rg_devices reg)" "flags reg' = flags reg"
    "follows cs reg"
  shows "follows cs reg'"
  unfolding follows_def
proof (intro ballI impI)
  fix d c
  assume "d \<in> set (rg_devices reg')" and c: "c \<in> set cs" "cn_device_index c = dv_device_index d"
  then obtain i where i: "i < length (rg_devices reg')" "d = rg_devices reg' ! i" by (auto simp: in_set_conv_nth)
  have len: "length (rg_devices reg') = length (rg_devices reg)" using assms(1) by (metis length_map)
  have "dv_device_index (rg_devices reg ! i) = dv_device_index d" using assms(1) i len by (metis nth_map)
  moreover have "dv_online (rg_devices reg ! i) = dv_online d" using assms(2) i len unfolding flags_def by (metis nth_map)
  moreover have "rg_devices reg ! i \<in> set (rg_devices reg)" using i len by simp
  ultimately show "dv_online d = is_up c" using assms(3) c unfolding follows_def by metis
qed

context link_backend
begin

lemma turn_law:
  assumes "ble_ok st" "ok (bl_mgr st)" "length (conns (bl_mgr st)) \<le> HES_DEVREG_MAX_DEVICES" "bk_poll bk = poll"
    and "ble_update js mreg (be_update env) (ble_receive bk env st) = s2" "ble_turn bk js mreg env st = st'"
  shows "ble_ok st' \<and> ok (bl_mgr st') \<and> length (conns (bl_mgr st')) \<le> HES_DEVREG_MAX_DEVICES
     \<and> moved_by_links (conns (bl_mgr st)) (conns (bl_mgr st')) (bl_reg s2) (bl_reg st') \<and> told_since s2 st'
     \<and> map dv_device_index (rg_devices (bl_reg s2)) = map dv_device_index (rg_devices (bl_reg st))
     \<and> bl_reported s2 = bl_reported st"
proof -
  define s1 where "s1 = ble_receive bk env st"
  note 1 = receive_effect[OF assms(1) s1_def[symmetric]]
  have ok1: "ble_ok s1" "bl_reg s1 = bl_reg st" "bl_mgr s1 = bl_mgr st" "bl_reported s1 = bl_reported st"
    using 1 by (simp_all add: same_view_def)
  note 2 = update_effect[OF assms(5)[folded s1_def] ok1(1)]
  have s2: "ble_ok s2" "bl_mgr s2 = bl_mgr st" "bl_reported s2 = bl_reported st" using 2 ok1 by simp_all
  define s3 where "s3 = ble_links bk (be_poll env) s2"
  have "ok (bl_mgr s2)" "length (conns (bl_mgr s2)) \<le> HES_DEVREG_MAX_DEVICES" using assms(2,3) s2 by simp_all
  note 3 = links_law[OF s2(1) this assms(4) s3_def[symmetric]]
  have ok3: "ble_ok s3" using 3 by simp
  note 4 = buttons_keep[OF ok3 refl, of bk "be_button_now env"]
  have ok4: "ble_ok (ble_buttons bk (be_button_now env) s3)" using 4 by simp
  have st': "st' = ble_publish bk (be_publish_now env) (be_publish_rand env) (ble_buttons bk (be_button_now env) s3)"
    using assms(5,6) by (simp add: ble_turn_def s1_def s3_def Let_def)
  have 5: "ble_ok st'" "bl_reg st' = bl_reg s3" "bl_mgr st' = bl_mgr s3" "bl_reported st' = bl_reported s3"
    using publish_effect[OF ok4, of bk "be_publish_now env" "be_publish_rand env", folded st'] 4
    by (simp_all add: publishes_def same_view_def)
  then have "told_since s2 st' = told_since s2 s3" by (simp add: told_since_def)
  then show ?thesis using 2 3 5 s2 ok1 assms(3) by simp
qed

lemma run_ok:
  assumes "ble_ok st" "ok (bl_mgr st)" "length (conns (bl_mgr st)) \<le> HES_DEVREG_MAX_DEVICES" "bk_poll bk = poll"
    and "ble_run bk js mreg envs st = st'"
  shows "ble_ok st' \<and> ok (bl_mgr st') \<and> length (conns (bl_mgr st')) \<le> HES_DEVREG_MAX_DEVICES"
  using assms
proof (induction envs arbitrary: st)
  case (Cons env envs)
  note t = turn_law[OF Cons.prems(1-4) refl refl, of js mreg env]
  show ?case using Cons.IH[of "ble_turn bk js mreg env st"] t Cons.prems(4,5) by simp
qed simp

lemma run_follows:
  assumes "ble_ok st" "ok (bl_mgr st)" "length (conns (bl_mgr st)) \<le> HES_DEVREG_MAX_DEVICES" "bk_poll bk = poll"
    and "follows (conns (bl_mgr st)) (bl_reg st)" "told st" "all_echo bk js mreg envs st"
  shows "follows (conns (bl_mgr (ble_run bk js mreg envs st))) (bl_reg (ble_run bk js mreg envs st))
     \<and> told (ble_run bk js mreg envs st)"
  using assms
proof (induction envs arbitrary: st)
  case (Cons env envs)
  let ?s2 = "ble_update js mreg (be_update env) (ble_receive bk env st)"
  let ?st' = "ble_turn bk js mreg env st"
  have same: "flags (bl_reg ?s2) = flags (bl_reg st)" using Cons.prems(7) by simp
  note t = turn_law[OF Cons.prems(1-4) refl refl, of js mreg env]
  have f2: "follows (conns (bl_mgr st)) (bl_reg ?s2)"
    by (rule follows_cong[OF _ same Cons.prems(5)]) (use t in simp)
  have "follows (conns (bl_mgr ?st')) (bl_reg ?st')" using t by (blast intro: moved_follows[OF _ f2])
  moreover have "told ?s2" using Cons.prems(6) same t by (simp add: told_def)
  then have "told ?st'" using t by (blast intro: told_since_told)
  ultimately show ?case using Cons.IH[of ?st'] t Cons.prems(4,7) by simp
qed simp

end

section \<open>The start\<close>

text \<open>Managers whose devices are all without a link.\<close>

definition sim_fresh :: "hes_ble_mgr \<Rightarrow> bool" where
  "sim_fresh m \<longleftrightarrow> sim_ok m \<and> length (mg_dev m) \<le> HES_BLE_MAX_DEVS \<and> (\<forall>c \<in> set (mg_dev m). \<not> is_up c)"

definition bluez_fresh :: "bluez \<Rightarrow> bool" where
  "bluez_fresh bz \<longleftrightarrow> bluez_ok bz \<and> bz_indices bz = map cn_device_index (bz_conns bz)
     \<and> length (bz_conns bz) \<le> HES_BLE_MAX_DEVS \<and> (\<forall>c \<in> set (bz_conns bz). \<not> is_up c)"

lemma sim_add_fresh: "sim_fresh m \<Longrightarrow> sim_fresh (snd (sim_mgr_add now di a m))"
  by (auto simp: sim_fresh_def sim_ok_def sim_mgr_add_def is_up_def first_index_None split: option.split)

lemma bluez_add_fresh: "bluez_fresh bz \<Longrightarrow> bluez_fresh (snd (bluez_add now di a bz))"
proof -
  assume f: "bluez_fresh bz"
  show ?thesis
  proof (cases "find_slot bz di \<noteq> None \<or> length (bz_devs bz) \<ge> HES_BLE_MAX_DEVS \<or> length (bz_conns bz) \<ge> HES_BLE_MAX_DEVS")
    case True
    then show ?thesis using f by (auto simp: bluez_add_def)
  next
    case False
    then have "di \<notin> set (bz_indices bz)" by (auto simp: find_slot_def first_index_None)
    then have "di \<notin> set (map cn_device_index (bz_conns bz))" using f unfolding bluez_fresh_def by metis
    then show ?thesis using f False by (auto simp: bluez_fresh_def bluez_ok_def bluez_add_def is_up_def Let_def)
  qed
qed

lemma add_all_keeps: "(\<And>now di a m. P m \<Longrightarrow> P (snd (bk_add bk now di a m))) \<Longrightarrow> P m \<Longrightarrow> P (add_all bk now i ds m)"
  by (induction bk now i ds m rule: add_all.induct) simp_all

lemma started:
  assumes "ble_start bk js svc_rep svc_pub mi hub_pub hub_sub mac b = Some (mreg, st)"
    and "distinct (map dv_device_index (rg_devices (bl_reg st)))"
  shows "ble_ok st" "bl_mgr st = add_all bk (bb_add_now b) 0 (rg_devices (bl_reg st)) (bk_init bk)"
    "told st \<Longrightarrow> d \<in> set (rg_devices (bl_reg st)) \<Longrightarrow> \<not> dv_online d"
proof -
  obtain reg reg2 where st: "bl_reg st = reg2" "bl_reported st = [reg\<lparr>rg_devices := map (assign_tag mac) (rg_devices reg)\<rparr>]"
      "bl_mgr st = add_all bk (bb_add_now b) 0 (rg_devices reg2) (bk_init bk)"
      "bl_devs st = map (\<lambda>i. tag_context (bk_sim bk) (bb_tag_now b i) (rg_devices reg2 ! i)) [0..<length (rg_devices reg2)]"
    using assms(1) by (auto simp: ble_start_def Let_def split: prod.splits if_splits option.splits)
  have "st_last_temp_c (bt_tag (tag_context sim now d)) = DFin False 22" for sim now d
    by (simp add: tag_context_def sensortag_set_button_period_def sensortag_init_def Let_def)
  then show "ble_ok st" using st assms(2) by (auto simp: ble_ok_def in_band_start)
  show "bl_mgr st = add_all bk (bb_add_now b) 0 (rg_devices (bl_reg st)) (bk_init bk)" using st by simp
  assume told: "told st" and d: "d \<in> set (rg_devices (bl_reg st))"
  have "\<not> dv_online (assign_tag mac d)" for d by (simp add: assign_tag_def)
  then have "flags (last (bl_reported st)) = map (\<lambda>_. False) (rg_devices reg)" by (simp add: st(2) flags_def)
  then have "map dv_online (rg_devices reg2) = map (\<lambda>_. False) (rg_devices reg)"
    using told st(1) by (simp add: told_def flags_def)
  then show "\<not> dv_online d" using d st(1) by (auto dest!: arg_cong[of _ _ set])
qed

lemma offline_follows:
  "\<forall>d \<in> set (rg_devices reg). \<not> dv_online d \<Longrightarrow> \<forall>c \<in> set cs. \<not> is_up c \<Longrightarrow> follows cs reg"
  by (simp add: follows_def)

lemma sim_presence_follows_link:
  assumes "ble_start sim_backend js svc_rep svc_pub mi hub_pub hub_sub mac b = Some (mreg, st)"
    and "distinct (map dv_device_index (rg_devices (bl_reg st)))" "told st" "all_echo sim_backend js mreg envs st"
    and "ble_run sim_backend js mreg envs st = st'"
  shows "follows (mg_dev (bl_mgr st')) (bl_reg st') \<and> told st'"
proof -
  note s = started[OF assms(1,2)]
  have "sim_fresh (bl_mgr st)"
    unfolding s(2)
    by (rule add_all_keeps) (simp_all add: sim_backend_def sim_add_fresh, simp add: sim_fresh_def sim_ok_def sim_mgr_init_def)
  then have m: "sim_ok (bl_mgr st)" "length (mg_dev (bl_mgr st)) \<le> HES_DEVREG_MAX_DEVICES" "\<forall>c \<in> set (mg_dev (bl_mgr st)). \<not> is_up c"
    by (simp_all add: sim_fresh_def)
  have "bk_poll sim_backend = sim_mgr_poll" by (simp add: sim_backend_def)
  from sim.run_follows[OF s(1) m(1,2) this offline_follows[OF _ m(3)] assms(3,4)] s(3)[OF assms(3)]
  show ?thesis unfolding assms(5) by blast
qed

lemma bluez_start_fresh:
  assumes "ble_start (bluez_backend bus) js svc_rep svc_pub mi hub_pub hub_sub mac b = Some (mreg, st)"
    and "distinct (map dv_device_index (rg_devices (bl_reg st)))"
  shows "bluez_fresh (bl_mgr st)"
  unfolding started(2)[OF assms]
  by (rule add_all_keeps) (simp_all add: bluez_backend_def bluez_add_fresh, simp add: bluez_fresh_def bluez_ok_def bluez_init_def)

text \<open>C18: The presence the Bluetooth module keeps and reports is moved by its links, with BlueZ. Let it start on a
  slice without duplicate device indices and run for any turns, whatever it receives; \<open>st1\<close> is where that leaves
  it, \<open>st2\<close> where one more turn does, and \<open>upd\<close> what the message and the manifest's update of that turn make
  of \<open>st1\<close>. Then a device whose link came up or was lost in the turn is online as its link now is; any other
  device is as the update left it; every other field is as the update left it; and if the links moved any
  device, the last report to the manifest service is of this turn and shows the registry as it now is. So
  only an update of the manifest can part a device's presence from its link: when the start shows the devices
  as they were reported and no update of the run shows another presence than the module has, every device the
  manager hosts is online exactly while its link is up, and the last report shows the presence of all.\<close>

theorem presence_follows_link:
  assumes "ble_start (bluez_backend bus) js svc_rep svc_pub mi hub_pub hub_sub mac b = Some (mreg, st)"
    and "distinct (map dv_device_index (rg_devices (bl_reg st)))"
    and "ble_run (bluez_backend bus) js mreg envs st = st1" "ble_turn (bluez_backend bus) js mreg env st1 = st2"
    and "ble_update js mreg (be_update env) (ble_receive (bluez_backend bus) env st1) = upd"
  shows "moved_by_links (bz_conns (bl_mgr st1)) (bz_conns (bl_mgr st2)) (bl_reg upd) (bl_reg st2)
     \<and> told_since upd st2
     \<and> (told st \<and> all_echo (bluez_backend bus) js mreg envs st \<longrightarrow>
          follows (bz_conns (bl_mgr st1)) (bl_reg st1) \<and> told st1)"
proof -
  note s = started[OF assms(1,2)]
  have m: "bluez_ok (bl_mgr st)" "length (bz_conns (bl_mgr st)) \<le> HES_DEVREG_MAX_DEVICES" "\<forall>c \<in> set (bz_conns (bl_mgr st)). \<not> is_up c"
    using bluez_start_fresh[OF assms(1,2)] by (simp_all add: bluez_fresh_def)
  have poll: "bk_poll (bluez_backend bus) = bluez_poll" by (simp add: bluez_backend_def)
  from bluez.run_ok[OF s(1) m(1,2) poll assms(3)] have
    ok: "ble_ok st1" "bluez_ok (bl_mgr st1)" "length (bz_conns (bl_mgr st1)) \<le> HES_DEVREG_MAX_DEVICES" by simp_all
  note law = bluez.turn_law[OF ok poll assms(5,4)]
  have "told st \<and> all_echo (bluez_backend bus) js mreg envs st \<longrightarrow>
      follows (bz_conns (bl_mgr st1)) (bl_reg st1) \<and> told st1"
    using bluez.run_follows[OF s(1) m(1,2) poll offline_follows[OF _ m(3)], of js mreg envs] s(3)
    unfolding assms(3) by blast
  then show ?thesis using law by blast
qed

section \<open>Samples\<close>

text \<open>One tag with a button, found and connected on the second turn; NNG and the manifest service answer.\<close>

definition tag_doc :: json where
  "tag_doc = JObj [(''devices'', JArr
     [JObj [(''deviceIndex'', JInt 7), (''status'', JStr ''offline''), (''address'', JStr ''54:6C''),
            (''objects'', JArr [JObj [(''lexiconPath'', JStr HES_LX_BTN_CV), (''access'', JStr ''r'')]])]])]"

definition answering :: exchange where
  "answering = \<lparr>ex_send = \<lambda>_. 0, ex_recv = \<lambda>_. Inr ''reply''\<rparr>"

definition quiet_nng :: nng where
  "quiet_nng = \<lparr>nn_calls = [], nn_results = \<lambda>_. 0\<rparr>"

definition tag_boot :: ble_boot where
  "tag_boot = \<lparr>bb_mreg_nng = quiet_nng, bb_bus_nng = quiet_nng,
     bb_query = answering, bb_report = answering, bb_requery = answering,
     bb_add_now = \<lambda>_. 0, bb_tag_now = \<lambda>_. 0,
     bb_bus = \<lparr>bus_sent = [], bus_clock = \<lambda>_. None, bus_offset_ns = 0\<rparr>\<rparr>"

definition tag_env :: "int \<Rightarrow> dbus ble_env" where
  "tag_env now = \<lparr>be_recv = None, be_get_now = now, be_get_rand = 0, be_update = Inl 5,
     be_poll = \<lparr>db_now = now, db_signals = [], db_managed = \<lambda>_. Some [(''/hci0/dev'', [(DEVICE_INTERFACE, Some ''54:6c'')])],
                db_dev_proxy = \<lambda>_. True, db_connect = \<lambda>_. True, db_wait = \<lambda>_ _. ([], Some True),
                db_cached = \<lambda>_. Some True, db_btn_proxy = \<lambda>_. True, db_shift = \<lambda>_. 0\<rparr>,
     be_button_now = \<lambda>_. now, be_publish_now = now, be_publish_rand = \<lambda>_ _. 0\<rparr>"

definition tag_device :: hes_device where
  "tag_device = \<lparr>dv_device_index = 7, dv_net_ref_index = 0, dv_role = [], dv_expected_hardware = [],
     dv_network_type = [], dv_address = ''54:6C'', dv_udp_port = 0, dv_online = False,
     dv_objects = [\<lparr>do_path = HES_LX_BTN_CV, do_access = ''r''\<rparr>]\<rparr>"

lemma tag_parsed: "hes_devreg_parse tag_doc = (hes_devreg_init\<lparr>rg_devices := [tag_device]\<rparr>, True)"
  by (simp add: tag_doc_def hes_devreg_parse_def parse_device_def get_member_long_def json_is_object_def
        get_member_string_def member_string_def member_long_def d_to_long_of_int hes_strlcpy_take jobj_array_def
        hes_devreg_init_def status_to_online_def tag_device_def Let_def del: d_of_int.simps)

lemma quiet_open: "\<exists>n. hes_mreg_open rep pub (Some ''hi'') 1 quiet_nng = (0, mreg_zero\<lparr>mr_module_type := ''hi'', mr_module_ref_index := 1, mr_topic := ''1'', mr_req := True, mr_sub := True\<rparr>, n)"
proof -
  have "dec_u32 1 = ''1''" by code_simp
  then show ?thesis
  by (simp add: hes_mreg_open_def quiet_nng_def call_def run_def dial_with_retry_def dial_loop.simps numeral_eq_Suc mreg_zero_def hes_strlcpy_take Let_def)
qed

abbreviation tag_js :: "string \<Rightarrow> json option" where "tag_js \<equiv> \<lambda>_. Some tag_doc"

abbreviation tag_reg :: hes_devreg where "tag_reg \<equiv> hes_devreg_init\<lparr>rg_devices := [tag_device]\<rparr>"

lemma answered_query: "hes_mreg_query answering tag_js m reg = (tag_reg, True)"
  by (simp add: hes_mreg_query_def req_reply_def answering_def parse_slice_def tag_parsed)

lemma quiet_leaf: "\<exists>n. hes_bus_leaf_open pub sub topics quiet_nng = (0, n)"
proof -
  have "nn_results (fold (\<lambda>t. run (Subscribe SubSock t)) ts n) = nn_results n" for ts n
    by (induction ts arbitrary: n) (simp_all add: run_def call_def Let_def)
  then show ?thesis
    by (simp add: hes_bus_leaf_open_def quiet_nng_def call_def run_def dial_with_retry_def dial_loop.simps numeral_eq_Suc Let_def)
qed

definition tag_mreg :: hes_mreg where
  "tag_mreg = mreg_zero\<lparr>mr_module_type := ''hi'', mr_module_ref_index := 1, mr_topic := ''1'', mr_req := True, mr_sub := True\<rparr>"

lemma tag_report: "\<exists>ok. hes_mreg_report answering tag_mreg tag_reg = Some ok"
proof -
  have "dec_u32 7 = ''7''" "dec_u32 1 = ''1''" "dec_u32 0 = ''0''" "dec_int 0 = ''0''" by code_simp+
  then have "report_text tag_mreg tag_reg \<noteq> None"
    by (simp add: report_text_def append_at_def report_item_def report_head_def quoted_def tag_mreg_def mreg_zero_def tag_device_def)
  then show ?thesis by (auto simp: hes_mreg_report_def)
qed

definition tag_state :: "'m \<Rightarrow> bool \<Rightarrow> 'm ble_state" where
  "tag_state mgr sim = \<lparr>bl_reg = tag_reg, bl_mgr = mgr, bl_devs = [tag_context sim 0 tag_device],
     bl_bus = bb_bus tag_boot, bl_last_publish = 0, bl_reported = [tag_reg]\<rparr>"

lemma tag_started:
  "ble_start bk tag_js ''rep'' ''pub'' 1 ''hubpub'' ''hubsub'' None tag_boot
     = Some (tag_mreg, tag_state (snd (bk_add bk 0 7 ''54:6C'' (bk_init bk))) (bk_sim bk))"
proof -
  have a: "tag_reg\<lparr>rg_devices := map (assign_tag None) (rg_devices tag_reg)\<rparr> = tag_reg"
    by (simp add: assign_tag_def tag_device_def)
  obtain n n2 ok where "hes_mreg_open ''rep'' ''pub'' (Some ''hi'') 1 quiet_nng = (0, tag_mreg, n)"
      "hes_bus_leaf_open ''hubpub'' ''hubsub'' (hes_devreg_collect_topics tag_reg HES_BUS_MAX_TOPICS) quiet_nng = (0, n2)"
      "hes_mreg_report answering tag_mreg tag_reg = Some ok"
    using quiet_open quiet_leaf tag_report unfolding tag_mreg_def by metis
  then show ?thesis using a
    by (simp add: ble_start_def tag_boot_def answered_query Let_def tag_state_def)
      (simp add: tag_device_def)
qed

definition tag_link :: bluez where
  "tag_link = snd (bluez_add 0 7 ''54:6C'' (bluez_init True))"

definition tag_on :: "bluez ble_state" where
  "tag_on = ble_run (bluez_backend True) tag_js tag_mreg [tag_env 10, tag_env 20] (tag_state tag_link False)"

lemma no_update: "ble_update js m (Inl rv) st = st"
  by (simp add: ble_update_def hes_mreg_recv_update_def)

lemma tag_state_ok: "ble_ok (tag_state mgr False)"
  by (simp add: ble_ok_def tag_state_def tag_context_def sensortag_init_def in_band_start tag_device_def Let_def)

theorem presence_follows_link_witness:
  "ble_start (bluez_backend True) tag_js ''rep'' ''pub'' 1 ''hubpub'' ''hubsub'' None tag_boot = Some (tag_mreg, tag_state tag_link False)
   \<and> follows (bz_conns (bl_mgr tag_on)) (bl_reg tag_on) \<and> told tag_on \<and> dv_online (hd (rg_devices (bl_reg tag_on)))"
proof -
  have start: "ble_start (bluez_backend True) tag_js ''rep'' ''pub'' 1 ''hubpub'' ''hubsub'' None tag_boot = Some (tag_mreg, tag_state tag_link False)"
    by (simp add: tag_started tag_link_def bluez_backend_def)
  have "distinct (map dv_device_index (rg_devices (bl_reg (tag_state tag_link False))))" "told (tag_state tag_link False)"
    by (simp_all add: tag_state_def told_def flags_def)
  moreover have "all_echo (bluez_backend True) tag_js tag_mreg [tag_env 10, tag_env 20] (tag_state tag_link False)"
    by (simp add: no_update tag_env_def ble_receive_def)
  ultimately have "follows (bz_conns (bl_mgr tag_on)) (bl_reg tag_on) \<and> told tag_on"
    using presence_follows_link[OF start _ refl refl refl] unfolding tag_on_def by blast
  moreover have "dv_online (hd (rg_devices (bl_reg tag_on)))" by code_simp
  ultimately show ?thesis using start by blast
qed

theorem ble_turn_reports_witness:
  "\<exists>ans btn temps. bus_sent (bl_bus tag_on) = ans @ btn @ temps \<and> map report_of btn = [(7, HES_LX_BTN_CV, ''0'')]"
proof -
  define st where "st = ble_turn (bluez_backend True) tag_js tag_mreg (tag_env 10) (tag_state tag_link False)"
  have "ble_ok st" 
    using ble_turn_reports[where st = "tag_state tag_link False" and bk = "bluez_backend True" and js = tag_js
      and mreg = tag_mreg and env = "tag_env 10", OF tag_state_ok refl refl] unfolding st_def by (elim exE conjE)
  from ble_turn_reports[where bk = "bluez_backend True" and js = tag_js and mreg = tag_mreg and env = "tag_env 20",
      OF this refl refl]
  obtain ans btn temps where "bus_sent (bl_bus tag_on) = bus_sent (bl_bus st) @ ans @ btn @ temps"
      "map report_of btn = concat (map (button_report (bluez_backend True) (be_button_now (tag_env 20))
         (before_buttons (bluez_backend True) tag_js tag_mreg (tag_env 20) st))
         [0..<length (bl_devs (before_buttons (bluez_backend True) tag_js tag_mreg (tag_env 20) st))])"
    unfolding tag_on_def ble_run.simps st_def by blast
  moreover have "bus_sent (bl_bus st) = []" unfolding st_def by code_simp
  moreover have "concat (map (button_report (bluez_backend True) (be_button_now (tag_env 20))
         (before_buttons (bluez_backend True) tag_js tag_mreg (tag_env 20) st))
         [0..<length (bl_devs (before_buttons (bluez_backend True) tag_js tag_mreg (tag_env 20) st))]) = [(7, HES_LX_BTN_CV, ''0'')]"
    unfolding st_def by code_simp
  ultimately show ?thesis by (intro exI[of _ ans] exI[of _ btn] exI[of _ temps]) simp
qed

end
