(* ===== verification/Gateway.thy ===== *)
theory Gateway
  imports Query "HOL-Library.Monad_Syntax"
begin

text \<open>
  The typed copy of a binding-map document (src/src/common/hes_gateway.c): a loader and a deep free for
  each element type, the lookup of a datum, the printer, and the reading test of the command
  \<open>bm show\<close> (src/src/cli/cmd_bm_show.c) that is built on them.

  Memory is explicit here, because every element owns its parts. Blocks are numbered in the order
  they are asked for; \<open>ok n\<close> says whether the \<open>n\<close>-th request succeeds, and a function that
  allocates takes the number of the next request and returns it advanced. A \<open>char *\<close> is its block with
  the text in it, a list its block with the entries before the sentinel; \<open>None\<close> is \<open>NULL\<close>. A free is
  the list of the blocks it gives back, in order. The result of a loader is \<open>None\<close> when it writes
  through a null pointer. The query layer's own blocks are not counted.
\<close>

type_synonym c_str = "(nat \<times> string) option"
type_synonym 'a gw_list = "(nat \<times> 'a list) option"
type_synonym 'a loaded = "('a option \<times> nat) option"

section \<open>The structs\<close>

record hes_gw_data =
  gd_block :: nat
  gd_version_number :: c_str
  gd_addr_point :: c_str
  gd_trans_code :: c_str
  gd_descriptive_name :: c_str
  gd_data_purpose :: c_str
  gd_data_format :: c_str
  gd_memory_type :: c_str
  gd_storage_type :: c_str
  gd_enumerated :: c_str
  gd_description :: c_str
  gd_preassigned :: c_str
  gd_value :: c_str

record hes_gw_inputs =
  gi_block :: nat
  gi_version_number :: c_str
  gi_addr_point :: c_str
  gi_trans_code :: c_str
  gi_descriptive_name :: c_str
  gi_data_purpose :: c_str
  gi_data :: "hes_gw_data gw_list"

record hes_gw_outputs =
  go_block :: nat
  go_version_number :: c_str
  go_addr_point :: c_str
  go_trans_code :: c_str
  go_descriptive_name :: c_str
  go_data_purpose :: c_str
  go_data :: "hes_gw_data gw_list"

record hes_gw_param_group =
  gp_block :: nat
  gp_version_number :: c_str
  gp_addr_point :: c_str
  gp_trans_code :: c_str
  gp_descriptive_name :: c_str
  gp_data_purpose :: c_str
  gp_description :: c_str
  gp_data :: "hes_gw_data gw_list"

record hes_gw_operation_table =
  gt_block :: nat
  gt_version_number :: c_str
  gt_addr_point :: c_str
  gt_trans_code :: c_str
  gt_descriptive_name :: c_str
  gt_data_purpose :: c_str
  gt_data :: "hes_gw_data gw_list"
  gt_inputs :: "hes_gw_inputs gw_list"
  gt_input_parameters :: "hes_gw_param_group gw_list"
  gt_output_parameters :: "hes_gw_param_group gw_list"
  gt_outputs :: "hes_gw_outputs gw_list"

record hes_gw_addressing_table =
  ga_block :: nat
  ga_version_number :: c_str
  ga_addr_point :: c_str
  ga_trans_code :: c_str
  ga_descriptive_name :: c_str
  ga_data_purpose :: c_str
  ga_data :: "hes_gw_data gw_list"

record hes_gw_object_type =
  gb_block :: nat
  gb_version_number :: c_str
  gb_addr_point :: c_str
  gb_trans_code :: c_str
  gb_descriptive_name :: c_str
  gb_data :: "hes_gw_data gw_list"
  gb_operation_tables :: "hes_gw_operation_table gw_list"
  gb_addressing_tables :: "hes_gw_addressing_table gw_list"

record hes_gw_lexicon_type =
  gl_block :: nat
  gl_version_number :: c_str
  gl_addr_point :: c_str
  gl_trans_code :: c_str
  gl_descriptive_name :: c_str
  gl_object_types :: "hes_gw_object_type gw_list"

record hes_gw_overall_process =
  gv_block :: nat
  gv_version_number :: c_str
  gv_addr_point :: c_str
  gv_trans_code :: c_str
  gv_descriptive_name :: c_str
  gv_lexicon_types :: "hes_gw_lexicon_type gw_list"

record hes_gateway =
  gw_block :: nat
  gw_file_format :: c_str
  gw_file_type :: c_str
  gw_file_purpose :: c_str
  gw_file_manu :: c_str
  gw_file_product :: c_str
  gw_file_product_ref_id :: c_str
  gw_file_coverage :: c_str
  gw_file_status :: c_str
  gw_file_version :: c_str
  gw_file_summary_description :: c_str
  gw_file_created_description :: c_str
  gw_file_created_date :: c_str
  gw_file_revision_description :: c_str
  gw_file_revision_date :: c_str
  gw_overall_process :: "hes_gw_overall_process option"

fun gw_entries :: "'a gw_list \<Rightarrow> 'a list" where
  "gw_entries None = []"
| "gw_entries (Some (a, xs)) = xs"

section \<open>Small helpers\<close>

definition gw_str :: "(nat \<Rightarrow> bool) \<Rightarrow> string option \<Rightarrow> nat \<Rightarrow> c_str \<times> nat" where
  "gw_str ok s n = ((if ok n then Some (n, case s of Some t \<Rightarrow> t | None \<Rightarrow> []) else None), Suc n)"

abbreviation GW_PATH_MAX :: nat where "GW_PATH_MAX \<equiv> 600"

definition gw_path :: "string \<Rightarrow> string \<Rightarrow> string" where
  "gw_path base rest = hes_strlcpy GW_PATH_MAX (base @ rest)"

definition load_string ::
    "(nat \<Rightarrow> bool) \<Rightarrow> xpath \<Rightarrow> hes_query_ctx \<Rightarrow> string \<Rightarrow> string \<Rightarrow> nat \<Rightarrow> c_str \<times> nat" where
  "load_string ok xp ctx base rest n = gw_str ok (hes_query_string xp ctx (gw_path base rest)) n"

text \<open>\<open>HES_GW_LOAD_LIST\<close>: the loop over the items, which a loader that fails ends, and the macro.\<close>

definition item_path :: "string \<Rightarrow> string \<Rightarrow> nat \<Rightarrow> string" where
  "item_path base elem_name i = gw_path base (''.'' @ elem_name @ ''['' @ dec_int (int i) @ '']'')"

fun load_items ::
    "(string \<Rightarrow> nat \<Rightarrow> 'a loaded) \<Rightarrow> string \<Rightarrow> string \<Rightarrow> nat list \<Rightarrow> nat \<Rightarrow> ('a list \<times> nat) option" where
  "load_items loader base elem_name [] n = Some ([], n)"
| "load_items loader base elem_name (i # is) n =
     do {
       (item, n) \<leftarrow> loader (item_path base elem_name i) n;
       case item of
         None \<Rightarrow> Some ([], n)
       | Some x \<Rightarrow> do {
           (xs, n) \<leftarrow> load_items loader base elem_name is n;
           Some (x # xs, n)
         }
     }"

definition load_list ::
    "(nat \<Rightarrow> bool) \<Rightarrow> xpath \<Rightarrow> hes_query_ctx \<Rightarrow> string \<Rightarrow> string \<Rightarrow> (string \<Rightarrow> nat \<Rightarrow> 'a loaded) \<Rightarrow> nat
       \<Rightarrow> ('a gw_list \<times> nat) option" where
  "load_list ok xp ctx base elem_name loader n =
     (let count = length (hes_query_elem_list xp ctx (gw_path base (''.'' @ elem_name)))
      in if count = 0 then Some (None, n)
         else if \<not> ok n then None
         else do {
           (xs, n') \<leftarrow> load_items loader base elem_name [0..<count] (Suc n);
           Some (Some (n, xs), n')
         })"

definition load_common_attrs ::
    "(nat \<Rightarrow> bool) \<Rightarrow> xpath \<Rightarrow> hes_query_ctx \<Rightarrow> string \<Rightarrow> bool \<Rightarrow> nat
       \<Rightarrow> (c_str \<times> c_str \<times> c_str \<times> c_str \<times> c_str) \<times> nat" where
  "load_common_attrs ok xp ctx base want_purpose n =
     (let (version, n) = load_string ok xp ctx base ''.@versionNumber'' n;
          (addr, n) = load_string ok xp ctx base ''.@addrPoint'' n;
          (tc, n) = load_string ok xp ctx base ''.@transCode'' n;
          (desc, n) = load_string ok xp ctx base ''.@descriptiveName'' n;
          (purpose, n) = (if want_purpose then load_string ok xp ctx base ''.@dataPurpose'' n else (None, n))
      in ((version, addr, tc, desc, purpose), n))"

section \<open>The loaders\<close>

definition load_data :: "(nat \<Rightarrow> bool) \<Rightarrow> xpath \<Rightarrow> hes_query_ctx \<Rightarrow> string \<Rightarrow> nat \<Rightarrow> hes_gw_data loaded" where
  "load_data ok xp ctx base blk =
     (if \<not> ok blk then Some (None, Suc blk)
      else
        let (version, n) = load_string ok xp ctx base ''.@versionNumber'' (Suc blk);
            (addr, n) = load_string ok xp ctx base ''.@addrPoint'' n;
            (tc, n) = load_string ok xp ctx base ''.@transCode'' n;
            (desc, n) = load_string ok xp ctx base ''.@descriptiveName'' n;
            (purpose, n) = load_string ok xp ctx base ''.@dataPurpose'' n;
            (fmt, n) = load_string ok xp ctx base ''.@dataFormat'' n;
            (memory, n) = load_string ok xp ctx base ''.@memoryType'' n;
            (storage, n) = load_string ok xp ctx base ''.@storageType'' n;
            (enumerated, n) = load_string ok xp ctx base ''.@enumerated'' n;
            (description, n) = load_string ok xp ctx base ''.@description'' n;
            (preassigned, n) = load_string ok xp ctx base ''.@preassigned'' n;
            (val, n) = load_string ok xp ctx base [] n
        in Some (Some \<lparr>gd_block = blk, gd_version_number = version, gd_addr_point = addr,
                      gd_trans_code = tc, gd_descriptive_name = desc, gd_data_purpose = purpose,
                      gd_data_format = fmt, gd_memory_type = memory, gd_storage_type = storage,
                      gd_enumerated = enumerated, gd_description = description,
                      gd_preassigned = preassigned, gd_value = val\<rparr>, n))"

definition load_inputs :: "(nat \<Rightarrow> bool) \<Rightarrow> xpath \<Rightarrow> hes_query_ctx \<Rightarrow> string \<Rightarrow> nat \<Rightarrow> hes_gw_inputs loaded" where
  "load_inputs ok xp ctx base blk =
     (if \<not> ok blk then Some (None, Suc blk)
      else
        let ((version, addr, tc, desc, purpose), n) = load_common_attrs ok xp ctx base True (Suc blk)
        in do {
          (dat, n) \<leftarrow> load_list ok xp ctx base ''data'' (load_data ok xp ctx) n;
          Some (Some \<lparr>gi_block = blk, gi_version_number = version, gi_addr_point = addr,
                     gi_trans_code = tc, gi_descriptive_name = desc, gi_data_purpose = purpose,
                     gi_data = dat\<rparr>, n)
        })"

definition load_outputs :: "(nat \<Rightarrow> bool) \<Rightarrow> xpath \<Rightarrow> hes_query_ctx \<Rightarrow> string \<Rightarrow> nat \<Rightarrow> hes_gw_outputs loaded" where
  "load_outputs ok xp ctx base blk =
     (if \<not> ok blk then Some (None, Suc blk)
      else
        let ((version, addr, tc, desc, purpose), n) = load_common_attrs ok xp ctx base True (Suc blk)
        in do {
          (dat, n) \<leftarrow> load_list ok xp ctx base ''data'' (load_data ok xp ctx) n;
          Some (Some \<lparr>go_block = blk, go_version_number = version, go_addr_point = addr,
                     go_trans_code = tc, go_descriptive_name = desc, go_data_purpose = purpose,
                     go_data = dat\<rparr>, n)
        })"

definition load_param_group ::
    "(nat \<Rightarrow> bool) \<Rightarrow> xpath \<Rightarrow> hes_query_ctx \<Rightarrow> string \<Rightarrow> nat \<Rightarrow> hes_gw_param_group loaded" where
  "load_param_group ok xp ctx base blk =
     (if \<not> ok blk then Some (None, Suc blk)
      else
        let ((version, addr, tc, desc, purpose), n) = load_common_attrs ok xp ctx base True (Suc blk);
            (description, n) = load_string ok xp ctx base ''.@description'' n
        in do {
          (dat, n) \<leftarrow> load_list ok xp ctx base ''data'' (load_data ok xp ctx) n;
          Some (Some \<lparr>gp_block = blk, gp_version_number = version, gp_addr_point = addr,
                     gp_trans_code = tc, gp_descriptive_name = desc, gp_data_purpose = purpose,
                     gp_description = description, gp_data = dat\<rparr>, n)
        })"

definition load_operation_table ::
    "(nat \<Rightarrow> bool) \<Rightarrow> xpath \<Rightarrow> hes_query_ctx \<Rightarrow> string \<Rightarrow> nat \<Rightarrow> hes_gw_operation_table loaded" where
  "load_operation_table ok xp ctx base blk =
     (if \<not> ok blk then Some (None, Suc blk)
      else
        let ((version, addr, tc, desc, purpose), n) = load_common_attrs ok xp ctx base True (Suc blk)
        in do {
          (dat, n) \<leftarrow> load_list ok xp ctx base ''data'' (load_data ok xp ctx) n;
          (inputs, n) \<leftarrow> load_list ok xp ctx base ''inputs'' (load_inputs ok xp ctx) n;
          (inparams, n) \<leftarrow> load_list ok xp ctx base ''inputParameters'' (load_param_group ok xp ctx) n;
          (outparams, n) \<leftarrow> load_list ok xp ctx base ''outputParameters'' (load_param_group ok xp ctx) n;
          (outputs, n) \<leftarrow> load_list ok xp ctx base ''outputs'' (load_outputs ok xp ctx) n;
          Some (Some \<lparr>gt_block = blk, gt_version_number = version, gt_addr_point = addr,
                     gt_trans_code = tc, gt_descriptive_name = desc, gt_data_purpose = purpose,
                     gt_data = dat, gt_inputs = inputs, gt_input_parameters = inparams,
                     gt_output_parameters = outparams, gt_outputs = outputs\<rparr>, n)
        })"

definition load_addressing_table ::
    "(nat \<Rightarrow> bool) \<Rightarrow> xpath \<Rightarrow> hes_query_ctx \<Rightarrow> string \<Rightarrow> nat \<Rightarrow> hes_gw_addressing_table loaded" where
  "load_addressing_table ok xp ctx base blk =
     (if \<not> ok blk then Some (None, Suc blk)
      else
        let ((version, addr, tc, desc, purpose), n) = load_common_attrs ok xp ctx base True (Suc blk)
        in do {
          (dat, n) \<leftarrow> load_list ok xp ctx base ''data'' (load_data ok xp ctx) n;
          Some (Some \<lparr>ga_block = blk, ga_version_number = version, ga_addr_point = addr,
                     ga_trans_code = tc, ga_descriptive_name = desc, ga_data_purpose = purpose,
                     ga_data = dat\<rparr>, n)
        })"

definition load_object_type ::
    "(nat \<Rightarrow> bool) \<Rightarrow> xpath \<Rightarrow> hes_query_ctx \<Rightarrow> string \<Rightarrow> nat \<Rightarrow> hes_gw_object_type loaded" where
  "load_object_type ok xp ctx base blk =
     (if \<not> ok blk then Some (None, Suc blk)
      else
        let ((version, addr, tc, desc, _), n) = load_common_attrs ok xp ctx base False (Suc blk)
        in do {
          (dat, n) \<leftarrow> load_list ok xp ctx base ''data'' (load_data ok xp ctx) n;
          (ops, n) \<leftarrow> load_list ok xp ctx base ''operationTable'' (load_operation_table ok xp ctx) n;
          (addrs, n) \<leftarrow> load_list ok xp ctx base ''addressingTable'' (load_addressing_table ok xp ctx) n;
          Some (Some \<lparr>gb_block = blk, gb_version_number = version, gb_addr_point = addr,
                     gb_trans_code = tc, gb_descriptive_name = desc, gb_data = dat,
                     gb_operation_tables = ops, gb_addressing_tables = addrs\<rparr>, n)
        })"

definition load_lexicon_type ::
    "(nat \<Rightarrow> bool) \<Rightarrow> xpath \<Rightarrow> hes_query_ctx \<Rightarrow> string \<Rightarrow> nat \<Rightarrow> hes_gw_lexicon_type loaded" where
  "load_lexicon_type ok xp ctx base blk =
     (if \<not> ok blk then Some (None, Suc blk)
      else
        let ((version, addr, tc, desc, _), n) = load_common_attrs ok xp ctx base False (Suc blk)
        in do {
          (types, n) \<leftarrow> load_list ok xp ctx base ''objectType'' (load_object_type ok xp ctx) n;
          Some (Some \<lparr>gl_block = blk, gl_version_number = version, gl_addr_point = addr,
                     gl_trans_code = tc, gl_descriptive_name = desc, gl_object_types = types\<rparr>, n)
        })"

definition load_overall_process ::
    "(nat \<Rightarrow> bool) \<Rightarrow> xpath \<Rightarrow> hes_query_ctx \<Rightarrow> string \<Rightarrow> nat \<Rightarrow> hes_gw_overall_process loaded" where
  "load_overall_process ok xp ctx base blk =
     (if \<not> ok blk then Some (None, Suc blk)
      else
        let ((version, addr, tc, desc, _), n) = load_common_attrs ok xp ctx base False (Suc blk)
        in do {
          (types, n) \<leftarrow> load_list ok xp ctx base ''lexiconType'' (load_lexicon_type ok xp ctx) n;
          Some (Some \<lparr>gv_block = blk, gv_version_number = version, gv_addr_point = addr,
                     gv_trans_code = tc, gv_descriptive_name = desc, gv_lexicon_types = types\<rparr>, n)
        })"

definition hes_gateway_load ::
    "(nat \<Rightarrow> bool) \<Rightarrow> xpath \<Rightarrow> (string \<Rightarrow> xml_node option option) \<Rightarrow> string option \<Rightarrow> nat \<Rightarrow> hes_gateway loaded" where
  "hes_gateway_load ok xp xmlParseFile filepath blk =
     (case hes_query_open xmlParseFile filepath of
        None \<Rightarrow> Some (None, blk)
      | Some ctx \<Rightarrow>
          if \<not> ok blk then Some (None, Suc blk)
          else
            let leaf = (\<lambda>path n. gw_str ok (hes_query_string xp ctx path) n);
                (fmt, n) = leaf ''file.fileFormat'' (Suc blk);
                (type, n) = leaf ''file.fileType'' n;
                (purpose, n) = leaf ''file.filePurpose'' n;
                (manu, n) = leaf ''file.fileManu'' n;
                (product, n) = leaf ''file.fileProduct'' n;
                (product_ref, n) = leaf ''file.fileProductRefID'' n;
                (coverage, n) = leaf ''file.fileCoverage'' n;
                (status, n) = leaf ''file.fileStatus'' n;
                (version, n) = leaf ''file.fileVersion'' n;
                (summary, n) = leaf ''file.fileSummaryDescription'' n;
                (created, n) = leaf ''file.fileCreatedDescription'' n;
                (created_date, n) = leaf ''file.fileCreatedDate'' n;
                (revision, n) = leaf ''file.fileRevisionDescription'' n;
                (revision_date, n) = leaf ''file.fileRevisionDate'' n
            in do {
              (process, n) \<leftarrow> (if hes_query_count xp ctx ''file.overallProcess'' > 0
                               then load_overall_process ok xp ctx ''file.overallProcess'' n
                               else Some (None, n));
              Some (Some \<lparr>gw_block = blk, gw_file_format = fmt, gw_file_type = type, gw_file_purpose = purpose,
                         gw_file_manu = manu, gw_file_product = product, gw_file_product_ref_id = product_ref,
                         gw_file_coverage = coverage, gw_file_status = status, gw_file_version = version,
                         gw_file_summary_description = summary, gw_file_created_description = created,
                         gw_file_created_date = created_date, gw_file_revision_description = revision,
                         gw_file_revision_date = revision_date, gw_overall_process = process\<rparr>, n)
            })"

section \<open>Deep free\<close>

fun gw_free :: "(nat \<times> 'a) option \<Rightarrow> nat list" where
  "gw_free None = []"
| "gw_free (Some (a, x)) = [a]"

definition hes_gw_data_free :: "hes_gw_data \<Rightarrow> nat list" where
  "hes_gw_data_free d =
     gw_free (gd_version_number d) @ gw_free (gd_addr_point d) @ gw_free (gd_trans_code d)
     @ gw_free (gd_descriptive_name d) @ gw_free (gd_data_purpose d) @ gw_free (gd_data_format d)
     @ gw_free (gd_memory_type d) @ gw_free (gd_storage_type d) @ gw_free (gd_enumerated d)
     @ gw_free (gd_description d) @ gw_free (gd_preassigned d) @ gw_free (gd_value d) @ [gd_block d]"

text \<open>The entries of a list, then its block.\<close>

definition free_list :: "('a \<Rightarrow> nat list) \<Rightarrow> 'a gw_list \<Rightarrow> nat list" where
  "free_list f l = concat (map f (gw_entries l)) @ gw_free l"

definition hes_gw_inputs_free :: "hes_gw_inputs \<Rightarrow> nat list" where
  "hes_gw_inputs_free i =
     free_list hes_gw_data_free (gi_data i)
     @ gw_free (gi_version_number i) @ gw_free (gi_addr_point i) @ gw_free (gi_trans_code i)
     @ gw_free (gi_descriptive_name i) @ gw_free (gi_data_purpose i) @ [gi_block i]"

definition hes_gw_outputs_free :: "hes_gw_outputs \<Rightarrow> nat list" where
  "hes_gw_outputs_free out =
     free_list hes_gw_data_free (go_data out)
     @ gw_free (go_version_number out) @ gw_free (go_addr_point out) @ gw_free (go_trans_code out)
     @ gw_free (go_descriptive_name out) @ gw_free (go_data_purpose out) @ [go_block out]"

definition hes_gw_param_group_free :: "hes_gw_param_group \<Rightarrow> nat list" where
  "hes_gw_param_group_free g =
     free_list hes_gw_data_free (gp_data g)
     @ gw_free (gp_version_number g) @ gw_free (gp_addr_point g) @ gw_free (gp_trans_code g)
     @ gw_free (gp_descriptive_name g) @ gw_free (gp_data_purpose g) @ gw_free (gp_description g) @ [gp_block g]"

definition hes_gw_operation_table_free :: "hes_gw_operation_table \<Rightarrow> nat list" where
  "hes_gw_operation_table_free ot =
     free_list hes_gw_data_free (gt_data ot) @ free_list hes_gw_inputs_free (gt_inputs ot)
     @ free_list hes_gw_param_group_free (gt_input_parameters ot)
     @ free_list hes_gw_param_group_free (gt_output_parameters ot)
     @ free_list hes_gw_outputs_free (gt_outputs ot)
     @ gw_free (gt_version_number ot) @ gw_free (gt_addr_point ot) @ gw_free (gt_trans_code ot)
     @ gw_free (gt_descriptive_name ot) @ gw_free (gt_data_purpose ot) @ [gt_block ot]"

definition hes_gw_addressing_table_free :: "hes_gw_addressing_table \<Rightarrow> nat list" where
  "hes_gw_addressing_table_free tb =
     free_list hes_gw_data_free (ga_data tb)
     @ gw_free (ga_version_number tb) @ gw_free (ga_addr_point tb) @ gw_free (ga_trans_code tb)
     @ gw_free (ga_descriptive_name tb) @ gw_free (ga_data_purpose tb) @ [ga_block tb]"

definition hes_gw_object_type_free :: "hes_gw_object_type \<Rightarrow> nat list" where
  "hes_gw_object_type_free ob =
     free_list hes_gw_data_free (gb_data ob)
     @ free_list hes_gw_operation_table_free (gb_operation_tables ob)
     @ free_list hes_gw_addressing_table_free (gb_addressing_tables ob)
     @ gw_free (gb_version_number ob) @ gw_free (gb_addr_point ob) @ gw_free (gb_trans_code ob)
     @ gw_free (gb_descriptive_name ob) @ [gb_block ob]"

definition hes_gw_lexicon_type_free :: "hes_gw_lexicon_type \<Rightarrow> nat list" where
  "hes_gw_lexicon_type_free lx =
     free_list hes_gw_object_type_free (gl_object_types lx)
     @ gw_free (gl_version_number lx) @ gw_free (gl_addr_point lx) @ gw_free (gl_trans_code lx)
     @ gw_free (gl_descriptive_name lx) @ [gl_block lx]"

definition hes_gw_overall_process_free :: "hes_gw_overall_process option \<Rightarrow> nat list" where
  "hes_gw_overall_process_free p =
     (case p of
        None \<Rightarrow> []
      | Some op \<Rightarrow>
          free_list hes_gw_lexicon_type_free (gv_lexicon_types op)
          @ gw_free (gv_version_number op) @ gw_free (gv_addr_point op) @ gw_free (gv_trans_code op)
          @ gw_free (gv_descriptive_name op) @ [gv_block op])"

definition hes_gateway_free :: "hes_gateway option \<Rightarrow> nat list" where
  "hes_gateway_free g =
     (case g of
        None \<Rightarrow> []
      | Some gw \<Rightarrow>
          gw_free (gw_file_format gw) @ gw_free (gw_file_type gw) @ gw_free (gw_file_purpose gw)
          @ gw_free (gw_file_manu gw) @ gw_free (gw_file_product gw) @ gw_free (gw_file_product_ref_id gw)
          @ gw_free (gw_file_coverage gw) @ gw_free (gw_file_status gw) @ gw_free (gw_file_version gw)
          @ gw_free (gw_file_summary_description gw) @ gw_free (gw_file_created_description gw)
          @ gw_free (gw_file_created_date gw) @ gw_free (gw_file_revision_description gw)
          @ gw_free (gw_file_revision_date gw)
          @ hes_gw_overall_process_free (gw_overall_process gw) @ [gw_block gw])"

section \<open>Looking up a datum\<close>

definition hes_gw_data_find :: "hes_gw_data gw_list \<Rightarrow> string option \<Rightarrow> hes_gw_data option" where
  "hes_gw_data_find list descriptive_name =
     (case (list, descriptive_name) of
        (Some (_, ds), Some name) \<Rightarrow> List.find (\<lambda>d. map_option snd (gd_descriptive_name d) = Some name) ds
      | _ \<Rightarrow> None)"

definition hes_gw_data_value :: "hes_gw_data gw_list \<Rightarrow> string option \<Rightarrow> c_str" where
  "hes_gw_data_value list descriptive_name =
     (case hes_gw_data_find list descriptive_name of None \<Rightarrow> None | Some d \<Rightarrow> gd_value d)"

section \<open>The printer\<close>

text \<open>What \<open>printf("%s")\<close> puts out, \<open>(null)\<close> for a null pointer as glibc has it.\<close>

definition shown :: "c_str \<Rightarrow> string" where
  "shown s = (case s of None \<Rightarrow> ''(null)'' | Some (a, t) \<Rightarrow> t)"

definition newline :: string where
  "newline = [char_of (10 :: nat)]"

definition print_indent :: "nat \<Rightarrow> string" where
  "print_indent k = concat (replicate k ''  '')"

definition open_tag :: "string \<Rightarrow> c_str \<Rightarrow> c_str \<Rightarrow> string" where
  "open_tag name tc desc =
     ''<'' @ name @ '' transCode='' @ quoted (shown tc) @ '' descriptiveName='' @ quoted (shown desc) @ ''>''"

definition close_tag :: "string \<Rightarrow> string" where
  "close_tag name = ''</'' @ name @ ''>''"

definition print_data :: "nat \<Rightarrow> hes_gw_data \<Rightarrow> string" where
  "print_data k d =
     print_indent k @ open_tag ''data'' (gd_trans_code d) (gd_descriptive_name d) @ shown (gd_value d)
     @ close_tag ''data'' @ newline"

definition print_data_list :: "nat \<Rightarrow> hes_gw_data gw_list \<Rightarrow> string" where
  "print_data_list k l = concat (map (print_data k) (gw_entries l))"

text \<open>An element on lines of its own, indented by \<open>k\<close> levels, around what it contains.\<close>

definition print_element :: "nat \<Rightarrow> string \<Rightarrow> c_str \<Rightarrow> c_str \<Rightarrow> string \<Rightarrow> string" where
  "print_element k name tc desc body =
     print_indent k @ open_tag name tc desc @ newline @ body @ print_indent k @ close_tag name @ newline"

definition print_operation_table :: "hes_gw_operation_table \<Rightarrow> string" where
  "print_operation_table ot =
     print_element 4 ''operationTable'' (gt_trans_code ot) (gt_descriptive_name ot)
       (print_data_list 9 (gt_data ot)
        @ concat (map (\<lambda>i. print_element 5 ''inputs'' (gi_trans_code i) (gi_descriptive_name i)
                            (print_data_list 11 (gi_data i))) (gw_entries (gt_inputs ot)))
        @ concat (map (\<lambda>g. print_element 5 ''inputParameters'' (gp_trans_code g) (gp_descriptive_name g)
                            (print_data_list 11 (gp_data g))) (gw_entries (gt_input_parameters ot)))
        @ concat (map (\<lambda>g. print_element 5 ''outputParameters'' (gp_trans_code g) (gp_descriptive_name g)
                            (print_data_list 11 (gp_data g))) (gw_entries (gt_output_parameters ot)))
        @ concat (map (\<lambda>out. print_element 5 ''outputs'' (go_trans_code out) (go_descriptive_name out)
                            (print_data_list 11 (go_data out))) (gw_entries (gt_outputs ot))))"

definition print_object_type :: "hes_gw_object_type \<Rightarrow> string" where
  "print_object_type ob =
     print_element 3 ''objectType'' (gb_trans_code ob) (gb_descriptive_name ob)
       (print_data_list 7 (gb_data ob)
        @ concat (map print_operation_table (gw_entries (gb_operation_tables ob)))
        @ concat (map (\<lambda>tb. print_element 4 ''addressingTable'' (ga_trans_code tb) (ga_descriptive_name tb)
                            (print_data_list 9 (ga_data tb))) (gw_entries (gb_addressing_tables ob))))"

definition print_leaf :: "string \<Rightarrow> c_str \<Rightarrow> string" where
  "print_leaf name s = print_indent 1 @ ''<'' @ name @ ''>'' @ shown s @ close_tag name @ newline"

definition hes_gateway_print :: "hes_gateway option \<Rightarrow> string" where
  "hes_gateway_print g =
     (case g of
        None \<Rightarrow> []
      | Some gw \<Rightarrow>
          ''<file>'' @ newline
          @ print_leaf ''fileFormat'' (gw_file_format gw) @ print_leaf ''fileType'' (gw_file_type gw)
          @ print_leaf ''filePurpose'' (gw_file_purpose gw) @ print_leaf ''fileManu'' (gw_file_manu gw)
          @ print_leaf ''fileProduct'' (gw_file_product gw)
          @ print_leaf ''fileProductRefID'' (gw_file_product_ref_id gw)
          @ print_leaf ''fileCoverage'' (gw_file_coverage gw) @ print_leaf ''fileStatus'' (gw_file_status gw)
          @ print_leaf ''fileVersion'' (gw_file_version gw)
          @ print_leaf ''fileSummaryDescription'' (gw_file_summary_description gw)
          @ print_leaf ''fileCreatedDescription'' (gw_file_created_description gw)
          @ print_leaf ''fileCreatedDate'' (gw_file_created_date gw)
          @ print_leaf ''fileRevisionDescription'' (gw_file_revision_description gw)
          @ print_leaf ''fileRevisionDate'' (gw_file_revision_date gw)
          @ (case gw_overall_process gw of
               None \<Rightarrow> []
             | Some op \<Rightarrow>
                 print_element 1 ''overallProcess'' (gv_trans_code op) (gv_descriptive_name op)
                   (concat (map (\<lambda>lx. print_element 2 ''lexiconType'' (gl_trans_code lx) (gl_descriptive_name lx)
                                       (concat (map print_object_type (gw_entries (gl_object_types lx)))))
                              (gw_entries (gv_lexicon_types op)))))
          @ ''</file>'' @ newline)"

section \<open>Showing a binding map\<close>

text \<open>\<open>v ? v : ""\<close>.\<close>

definition or_empty :: "c_str \<Rightarrow> string" where
  "or_empty s = (case s of None \<Rightarrow> [] | Some (a, t) \<Rightarrow> t)"

definition datum :: "hes_gw_data gw_list \<Rightarrow> string \<Rightarrow> string" where
  "datum l name = or_empty (hes_gw_data_value l (Some name))"

definition numbered :: "('a \<Rightarrow> nat \<Rightarrow> string) \<Rightarrow> 'a list \<Rightarrow> string list" where
  "numbered f xs = map (\<lambda>(x, i). f x i) (zip xs [0..<length xs])"

definition show_operation_table :: "hes_gw_operation_table \<Rightarrow> nat \<Rightarrow> string list" where
  "show_operation_table ot i =
     [''  ['' @ dec_int (int i) @ ''] '' @ shown (gt_trans_code ot) @ '' refId = '' @ datum (gt_data ot) ''refId''
        @ '', enable = '' @ datum (gt_data ot) ''enable'' @ '', operation = '' @ datum (gt_data ot) ''operation''
        @ '', inputs count = '' @ dec_int (int (length (gw_entries (gt_inputs ot))))]
     @ numbered (\<lambda>g j. ''    inputs['' @ dec_int (int j) @ ''] '' @ shown (gi_trans_code g) @ '' deviceIndex (di) = ''
          @ datum (gi_data g) ''deviceIndex'' @ '', sourceObject (so) = '' @ datum (gi_data g) ''sourceObject'')
         (gw_entries (gt_inputs ot))
     @ numbered (\<lambda>g j. ''    inputParameters['' @ dec_int (int j) @ ''] '' @ shown (gp_trans_code g)
          @ '' inputParameter (ip) = '' @ datum (gp_data g) ''inputParameter'')
         (gw_entries (gt_input_parameters ot))
     @ numbered (\<lambda>g j. ''    outputParameters['' @ dec_int (int j) @ ''] '' @ shown (gp_trans_code g)
          @ '' outputParameter (op) = '' @ datum (gp_data g) ''outputParameter'')
         (gw_entries (gt_output_parameters ot))
     @ numbered (\<lambda>g j. ''    outputs['' @ dec_int (int j) @ ''] '' @ shown (go_trans_code g) @ '' deviceList (dl) = ''
          @ datum (go_data g) ''deviceList'' @ '', destObject (do) = '' @ datum (go_data g) ''destObject'')
         (gw_entries (gt_outputs ot))"

definition show_addressing_table :: "hes_gw_addressing_table \<Rightarrow> nat \<Rightarrow> string" where
  "show_addressing_table tb i =
     ''  ['' @ dec_int (int i) @ ''] '' @ shown (ga_trans_code tb) @ '' deviceIndex (di) = ''
     @ datum (ga_data tb) ''deviceIndex'' @ '', moduleType (mt) = '' @ datum (ga_data tb) ''moduleType''
     @ '', moduleRefIndex (mi) = '' @ datum (ga_data tb) ''moduleRefIndex''
     @ '', netRefIndex (ni) = '' @ datum (ga_data tb) ''netRefIndex''"

definition show_object_type :: "hes_gw_object_type \<Rightarrow> string list" where
  "show_object_type obj =
     [''[0] objectType: transCode = '' @ shown (gb_trans_code obj) @ '', descriptiveName = ''
        @ shown (gb_descriptive_name obj)]
     @ [newline @ ''--- Operation Tables ('' @ dec_int (int (length (gw_entries (gb_operation_tables obj))))
        @ '') ---'' @ newline]
     @ concat (map (\<lambda>(ot, i). show_operation_table ot i)
         (zip (gw_entries (gb_operation_tables obj)) [0..<length (gw_entries (gb_operation_tables obj))]))
     @ [newline @ ''--- Addressing Tables ('' @ dec_int (int (length (gw_entries (gb_addressing_tables obj))))
        @ '') ---'' @ newline]
     @ numbered show_addressing_table (gw_entries (gb_addressing_tables obj))"

text \<open>The lines put out and the blocks freed; \<open>None\<close> is the null pointer dereferenced.\<close>

definition show_gateway :: "hes_gateway \<Rightarrow> string list option" where
  "show_gateway gw =
     (case gw_overall_process gw of
        None \<Rightarrow> None
      | Some op \<Rightarrow>
          Some ([''overallProcess version  = '' @ shown (gv_version_number op),
                 ''Gateway product: '' @ shown (gw_file_manu gw) @ '' / '' @ shown (gw_file_product gw)
                   @ '' (version '' @ shown (gw_file_version gw) @ '')'',
                 ''Created: '' @ shown (gw_file_created_date gw) @ ''  Revised: '' @ shown (gw_file_revision_date gw)]
                @ (case gw_entries (gv_lexicon_types op) of
                     [] \<Rightarrow> []
                   | lx # _ \<Rightarrow> (case gw_entries (gl_object_types lx) of [] \<Rightarrow> [] | obj # _ \<Rightarrow> show_object_type obj))))"

definition test_hes_gateway_api ::
    "(nat \<Rightarrow> bool) \<Rightarrow> xpath \<Rightarrow> (string \<Rightarrow> xml_node option option) \<Rightarrow> string \<Rightarrow> nat \<Rightarrow> (string list \<times> nat list) option" where
  "test_hes_gateway_api ok xp xmlParseFile filepath n =
     (case hes_gateway_load ok xp xmlParseFile (Some filepath) n of
        None \<Rightarrow> None
      | Some (None, n) \<Rightarrow> Some ([], [])
      | Some (Some gw, n) \<Rightarrow> map_option (\<lambda>ls. (ls, hes_gateway_free (Some gw))) (show_gateway gw))"

end
