(* ===== verification/GatewayOwn.thy ===== *)
theory GatewayOwn
  imports Gateway "HOL-Library.Multiset"
begin

text \<open>
  Who owns the memory of the typed copy: freeing it gives back exactly the blocks that loading it took,
  each once, whichever allocations failed on the way.
\<close>

text \<open>\<open>bs\<close> are the blocks that the requests from \<open>n\<close> up to \<open>n'\<close> obtained, each once.\<close>

definition owns :: "(nat \<Rightarrow> bool) \<Rightarrow> nat list \<Rightarrow> nat \<Rightarrow> nat \<Rightarrow> bool" where
  "owns ok bs n n' \<longleftrightarrow> n \<le> n' \<and> mset bs = mset (filter ok [n..<n'])"

lemma owns_refl: "owns ok [] n n"
  by (simp add: owns_def)

lemma owns_append:
  assumes "owns ok bs n m" "owns ok cs m k"
  shows "owns ok (bs @ cs) n k"
proof -
  have "[n..<k] = [n..<m] @ [m..<k]" using assms upt_add_eq_append[of n m "k - m"] by (simp add: owns_def)
  then show ?thesis using assms by (simp add: owns_def)
qed

lemma owns_permute: "owns ok bs n k \<Longrightarrow> mset bs = mset cs \<Longrightarrow> owns ok cs n k"
  by (simp add: owns_def)

lemma block_owns: "ok n \<Longrightarrow> owns ok [n] n (Suc n)"
  by (simp add: owns_def)

lemma failed_owns: "\<not> ok n \<Longrightarrow> owns ok [] n (Suc n)"
  by (auto simp: owns_def simp del: mset_upt)

lemma string_owns: "gw_str ok s n = (c, n') \<Longrightarrow> owns ok (gw_free c) n n'"
  by (auto simp: gw_str_def block_owns failed_owns)

lemma attrs_own:
  assumes "load_common_attrs ok xp ctx base want n = ((v, a, t, d, p), n')"
  shows "owns ok (gw_free v @ gw_free a @ gw_free t @ gw_free d @ gw_free p) n n'"
  using assms unfolding load_common_attrs_def load_string_def
  by (auto simp: owns_refl split: prod.splits if_splits intro!: owns_append string_owns)

lemma unnamed_own:
  assumes "load_common_attrs ok xp ctx base False n = ((v, a, t, d, p), n')"
  shows "owns ok (gw_free v @ gw_free a @ gw_free t @ gw_free d) n n'"
  using attrs_own[OF assms] assms by (auto simp: load_common_attrs_def split: prod.splits)

text \<open>A loader and the free that goes with it.\<close>

locale owned =
  fixes ok :: "nat \<Rightarrow> bool"
    and load :: "string \<Rightarrow> nat \<Rightarrow> 'a loaded"
    and give_back :: "'a \<Rightarrow> nat list"
  assumes load_owns: "load p n = Some (item, n') \<Longrightarrow>
    owns ok (case item of None \<Rightarrow> [] | Some x \<Rightarrow> give_back x) n n'"
begin

lemma items_own:
  "load_items load base elem_name is n = Some (xs, n') \<Longrightarrow> owns ok (concat (map give_back xs)) n n'"
proof (induction "is" arbitrary: n xs)
  case Nil
  then show ?case by (simp add: owns_refl)
next
  case (Cons i "is")
  then obtain item m where item: "load (item_path base elem_name i) n = Some (item, m)"
    by (auto split: bind_splits)
  note own = load_owns[OF item]
  show ?case
  proof (cases item)
    case None
    then show ?thesis using Cons.prems item own by simp
  next
    case (Some x)
    then obtain ys where "load_items load base elem_name is m = Some (ys, n')" "xs = x # ys"
      using Cons.prems item by (auto split: bind_splits)
    then show ?thesis using owns_append[OF own Cons.IH] Some by simp
  qed
qed

lemma list_owns:
  assumes "load_list ok xp ctx base elem_name load n = Some (l, n')"
  shows "owns ok (free_list give_back l) n n'"
proof -
  define count where "count = length (hes_query_elem_list xp ctx (gw_path base (''.'' @ elem_name)))"
  show ?thesis
  proof (cases "count = 0")
    case True
    then show ?thesis using assms by (simp add: load_list_def count_def free_list_def owns_refl)
  next
    case False
    then obtain xs where ok: "ok n" and l: "l = Some (n, xs)"
      and xs: "load_items load base elem_name [0..<count] (Suc n) = Some (xs, n')"
      using assms by (auto simp: load_list_def count_def Let_def split: bind_splits if_splits)
    have "owns ok [n] n (Suc n)" using ok by (simp add: owns_def)
    from owns_append[OF this items_own[OF xs]] show ?thesis
      by (rule owns_permute) (simp add: l free_list_def)
  qed
qed

end

text \<open>A loader of a struct takes the struct's block first and fails without it.\<close>

lemma owned_struct:
  assumes "\<And>p n item n'. load p n = Some (item, n') \<Longrightarrow> ok n \<Longrightarrow>
      \<exists>x bs. item = Some x \<and> owns ok bs (Suc n) n' \<and> mset (give_back x) = add_mset n (mset bs)"
    and "\<And>p n. \<not> ok n \<Longrightarrow> load p n = Some (None, Suc n)"
  shows "owned ok load give_back"
proof
  fix p n item n'
  assume l: "load p n = Some (item, n')"
  show "owns ok (case item of None \<Rightarrow> [] | Some x \<Rightarrow> give_back x) n n'"
  proof (cases "ok n")
    case False
    then show ?thesis using l assms(2)[of n p] by (auto simp: failed_owns)
  next
    case True
    then obtain x bs where x: "item = Some x" "owns ok bs (Suc n) n'" "mset (give_back x) = add_mset n (mset bs)"
      using assms(1)[OF l] by blast
    show ?thesis
      by (rule owns_permute[OF owns_append[OF block_owns[of ok, OF True] x(2)]]) (simp add: x)
  qed
qed

text \<open>What the parts of a struct own follows in order, and together with its block is what its free
  gives back.\<close>

lemma owned_struct_parts:
  assumes "owns ok bs n m" "mset cs = add_mset k (mset bs)"
  shows "\<exists>bs. owns ok bs n m \<and> mset cs = add_mset k (mset bs)"
  using assms by blast

interpretation data_owned: owned ok "load_data ok xp ctx" hes_gw_data_free for ok xp ctx
proof (rule owned_struct)
  fix p n item n'
  assume "load_data ok xp ctx p n = Some (item, n')" "ok n"
  then show "\<exists>x bs. item = Some x \<and> owns ok bs (Suc n) n' \<and> mset (hes_gw_data_free x) = add_mset n (mset bs)"
    by (auto simp: load_data_def load_string_def dest!: string_owns split: prod.splits)
       ((drule (1) owns_append)+, rule owned_struct_parts, assumption, simp add: hes_gw_data_free_def)
qed (simp add: load_data_def)

interpretation inputs_owned: owned ok "load_inputs ok xp ctx" hes_gw_inputs_free for ok xp ctx
proof (rule owned_struct)
  fix p n item n'
  assume "load_inputs ok xp ctx p n = Some (item, n')" "ok n"
  then show "\<exists>x bs. item = Some x \<and> owns ok bs (Suc n) n' \<and> mset (hes_gw_inputs_free x) = add_mset n (mset bs)"
    by (auto simp: load_inputs_def dest!: attrs_own data_owned.list_owns split: prod.splits bind_splits)
       ((drule (1) owns_append)+, rule owned_struct_parts, assumption, simp add: hes_gw_inputs_free_def)
qed (simp add: load_inputs_def)

interpretation outputs_owned: owned ok "load_outputs ok xp ctx" hes_gw_outputs_free for ok xp ctx
proof (rule owned_struct)
  fix p n item n'
  assume "load_outputs ok xp ctx p n = Some (item, n')" "ok n"
  then show "\<exists>x bs. item = Some x \<and> owns ok bs (Suc n) n' \<and> mset (hes_gw_outputs_free x) = add_mset n (mset bs)"
    by (auto simp: load_outputs_def dest!: attrs_own data_owned.list_owns split: prod.splits bind_splits)
       ((drule (1) owns_append)+, rule owned_struct_parts, assumption, simp add: hes_gw_outputs_free_def)
qed (simp add: load_outputs_def)

interpretation param_owned: owned ok "load_param_group ok xp ctx" hes_gw_param_group_free for ok xp ctx
proof (rule owned_struct)
  fix p n item n'
  assume "load_param_group ok xp ctx p n = Some (item, n')" "ok n"
  then show "\<exists>x bs. item = Some x \<and> owns ok bs (Suc n) n' \<and> mset (hes_gw_param_group_free x) = add_mset n (mset bs)"
    by (auto simp: load_param_group_def load_string_def dest!: attrs_own string_owns data_owned.list_owns
          split: prod.splits bind_splits)
       ((drule (1) owns_append)+, rule owned_struct_parts, assumption, simp add: hes_gw_param_group_free_def)
qed (simp add: load_param_group_def)

interpretation table_owned: owned ok "load_operation_table ok xp ctx" hes_gw_operation_table_free for ok xp ctx
proof (rule owned_struct)
  fix p n item n'
  assume "load_operation_table ok xp ctx p n = Some (item, n')" "ok n"
  then show "\<exists>x bs. item = Some x \<and> owns ok bs (Suc n) n' \<and> mset (hes_gw_operation_table_free x) = add_mset n (mset bs)"
    by (auto simp: load_operation_table_def dest!: attrs_own data_owned.list_owns inputs_owned.list_owns
          param_owned.list_owns outputs_owned.list_owns split: prod.splits bind_splits)
       ((drule (1) owns_append)+, rule owned_struct_parts, assumption, simp add: hes_gw_operation_table_free_def)
qed (simp add: load_operation_table_def)

interpretation addressing_owned: owned ok "load_addressing_table ok xp ctx" hes_gw_addressing_table_free for ok xp ctx
proof (rule owned_struct)
  fix p n item n'
  assume "load_addressing_table ok xp ctx p n = Some (item, n')" "ok n"
  then show "\<exists>x bs. item = Some x \<and> owns ok bs (Suc n) n' \<and> mset (hes_gw_addressing_table_free x) = add_mset n (mset bs)"
    by (auto simp: load_addressing_table_def dest!: attrs_own data_owned.list_owns split: prod.splits bind_splits)
       ((drule (1) owns_append)+, rule owned_struct_parts, assumption, simp add: hes_gw_addressing_table_free_def)
qed (simp add: load_addressing_table_def)

interpretation object_owned: owned ok "load_object_type ok xp ctx" hes_gw_object_type_free for ok xp ctx
proof (rule owned_struct)
  fix p n item n'
  assume "load_object_type ok xp ctx p n = Some (item, n')" "ok n"
  then show "\<exists>x bs. item = Some x \<and> owns ok bs (Suc n) n' \<and> mset (hes_gw_object_type_free x) = add_mset n (mset bs)"
    by (auto simp: load_object_type_def dest!: unnamed_own data_owned.list_owns table_owned.list_owns
          addressing_owned.list_owns split: prod.splits bind_splits)
       ((drule (1) owns_append)+, rule owned_struct_parts, assumption, simp add: hes_gw_object_type_free_def)
qed (simp add: load_object_type_def)

interpretation lexicon_owned: owned ok "load_lexicon_type ok xp ctx" hes_gw_lexicon_type_free for ok xp ctx
proof (rule owned_struct)
  fix p n item n'
  assume "load_lexicon_type ok xp ctx p n = Some (item, n')" "ok n"
  then show "\<exists>x bs. item = Some x \<and> owns ok bs (Suc n) n' \<and> mset (hes_gw_lexicon_type_free x) = add_mset n (mset bs)"
    by (auto simp: load_lexicon_type_def dest!: unnamed_own object_owned.list_owns split: prod.splits bind_splits)
       ((drule (1) owns_append)+, rule owned_struct_parts, assumption, simp add: hes_gw_lexicon_type_free_def)
qed (simp add: load_lexicon_type_def)

interpretation process_owned: owned ok "load_overall_process ok xp ctx" "\<lambda>op. hes_gw_overall_process_free (Some op)"
  for ok xp ctx
proof (rule owned_struct)
  fix p n item n'
  assume "load_overall_process ok xp ctx p n = Some (item, n')" "ok n"
  then show "\<exists>x bs. item = Some x \<and> owns ok bs (Suc n) n'
      \<and> mset (hes_gw_overall_process_free (Some x)) = add_mset n (mset bs)"
    by (auto simp: load_overall_process_def dest!: unnamed_own lexicon_owned.list_owns split: prod.splits bind_splits)
       ((drule (1) owns_append)+, rule owned_struct_parts, assumption, simp add: hes_gw_overall_process_free_def)
qed (simp add: load_overall_process_def)

text \<open>C32: Freeing mirrors loading. Whichever of the allocations fail, when hes_gateway_load returns, what
  hes_gateway_free gives back of its result are the blocks that were obtained on the way, each exactly
  once: nothing leaks and nothing is freed twice.\<close>

theorem load_free_balance:
  assumes "hes_gateway_load ok xp xmlParseFile filepath n = Some (gw, n')"
  shows "distinct (hes_gateway_free gw) \<and> set (hes_gateway_free gw) = {b. n \<le> b \<and> b < n' \<and> ok b}"
proof -
  have "owns ok (hes_gateway_free gw) n n'"
  proof (cases "hes_query_open xmlParseFile filepath")
    case None
    then show ?thesis using assms by (simp add: hes_gateway_load_def hes_gateway_free_def owns_refl)
  next
    case (Some ctx)
    show ?thesis
    proof (cases "ok n")
      case False
      then show ?thesis using assms Some by (auto simp: hes_gateway_load_def hes_gateway_free_def failed_owns)
    next
      case True
      have process: "owns ok (hes_gw_overall_process_free p) m n'"
        if "(if b then load_overall_process ok xp ctx q m else Some (None, m)) = Some (p, n')" for b q p m
        using that process_owned.load_owns[of ok xp ctx q m p n']
        by (auto simp: hes_gw_overall_process_free_def owns_refl split: if_splits option.splits)
      have "\<exists>x bs. gw = Some x \<and> owns ok bs (Suc n) n' \<and> mset (hes_gateway_free (Some x)) = add_mset n (mset bs)"
        using assms Some True
        by (auto simp: hes_gateway_load_def Let_def dest!: string_owns process split: prod.splits bind_splits)
           ((drule (1) owns_append)+, rule owned_struct_parts, assumption, simp add: hes_gateway_free_def)
      then obtain x bs where x: "gw = Some x" "owns ok bs (Suc n) n'"
        "mset (hes_gateway_free (Some x)) = add_mset n (mset bs)" by blast
      show ?thesis
        by (rule owns_permute[OF owns_append[OF block_owns[of ok, OF True] x(2)]]) (simp add: x)
    qed
  qed
  then have "mset (hes_gateway_free gw) = mset (filter ok [n..<n'])" by (simp add: owns_def)
  then show ?thesis
    by (auto dest: mset_eq_setD mset_eq_imp_distinct_iff simp del: mset_filter mset_upt)
qed

theorem load_free_balance_witness:
  "\<exists>gw n'. hes_gateway_load (\<lambda>_. True) (\<lambda>_ _ _. None) (\<lambda>_. Some (Some (Element ''file'' [] []))) (Some ''bm.xml'') 0
       = Some (gw, n') \<and> n' = 15 \<and> set (hes_gateway_free gw) = {0..<15} \<and> length (hes_gateway_free gw) = 15"
proof -
  let ?load = "hes_gateway_load (\<lambda>_. True) (\<lambda>_ _ _. None) (\<lambda>_. Some (Some (Element ''file'' [] []))) (Some ''bm.xml'') 0"
  have q: "hes_query_string (\<lambda>_ _ _. None) ctx p = None" "hes_query_count (\<lambda>_ _ _. None) ctx p = 0" for ctx p
    by (simp_all add: hes_query_string_def hes_query_count_def query_eval_root_def query_eval_def)
  have "\<exists>gw. ?load = Some (gw, 15)"
    by (simp add: hes_gateway_load_def hes_query_open_def gw_str_def q Let_def)
  then obtain gw where gw: "?load = Some (gw, 15)" by blast
  have "{b. 0 \<le> b \<and> b < 15 \<and> True} = {0..<15 :: nat}" by auto
  with load_free_balance[OF gw] have b: "distinct (hes_gateway_free gw)" "set (hes_gateway_free gw) = {0..<15}"
    by simp_all
  show ?thesis using gw b distinct_card[OF b(1)] by auto
qed

end
