(* ===== verification/GatewayCopy.thy ===== *)
theory GatewayCopy
  imports Gateway BmLoad
begin

text \<open>
  The typed copy of a document says what the document does: the loaders' paths lead to the elements
  they are meant for and fit their buffers, so every field is the attribute or the text of its element
  and every list has an entry for each child.
\<close>

section \<open>Paths into the document\<close>

fun kids :: "xml_node \<Rightarrow> xml_node list" where
  "kids (Element n as cs) = cs"
| "kids _ = []"

text \<open>What a step of a path selects from a node, and a path from the document node, which is written
  as an element without a name above the root element.\<close>

fun pick :: "nat option \<Rightarrow> 'a list \<Rightarrow> 'a list" where
  "pick None xs = xs"
| "pick (Some k) xs = (if k < length xs then [xs ! k] else [])"

fun step_items :: "step \<Rightarrow> xpath_item \<Rightarrow> xpath_item list" where
  "step_items (Child n i) (Node_item e) = map Node_item (pick i (child_elems n (kids e)))"
| "step_items (Attribute a) (Node_item (Element n as cs)) = (case map_of as a of None \<Rightarrow> [] | Some v \<Rightarrow> [Attr_item v])"
| "step_items _ _ = []"

definition walk :: "step list \<Rightarrow> xml_node \<Rightarrow> xpath_item list" where
  "walk ss r = fold (\<lambda>s items. concat (map (step_items s) items)) ss [Node_item (Element [] [] [r])]"

fun word_step :: "step \<Rightarrow> bool" where
  "word_step (Child n i) \<longleftrightarrow> xml_word n \<and> (case i of None \<Rightarrow> True | Some k \<Rightarrow> k < 2 ^ 31)"
| "word_step (Attribute a) \<longleftrightarrow> xml_word a"
| "word_step Text_step \<longleftrightarrow> False"

text \<open>What the loader relies on in libxml2's XPath: an absolute path of child and attribute steps.\<close>

definition paths_conform :: "xpath \<Rightarrow> bool" where
  "paths_conform xp \<longleftrightarrow>
     (\<forall>r ss. ss \<noteq> [] \<longrightarrow> list_all word_step ss \<longrightarrow>
        xp r (Some r) (''/'' @ joined CHR ''/'' (map xpath_of_step ss)) = Some (Node_set (walk ss r)))"

text \<open>An evaluator of these.\<close>

fun split_on :: "char \<Rightarrow> string \<Rightarrow> string list" where
  "split_on c [] = [[]]"
| "split_on c (x # xs) =
     (if x = c then [] # split_on c xs else case split_on c xs of [] \<Rightarrow> [[x]] | y # ys \<Rightarrow> (x # y) # ys)"

definition parse_step :: "string \<Rightarrow> step" where
  "parse_step seg =
     (if seg \<noteq> [] \<and> hd seg = CHR ''@'' then Attribute (tl seg)
      else case memchr CHR ''['' seg of
             None \<Rightarrow> Child seg None
           | Some b \<Rightarrow> (case strtol10 (drop (b + 1) seg) of
                          None \<Rightarrow> Child seg None
                        | Some (v, _) \<Rightarrow> Child (take b seg) (Some (nat (v - 1)))))"

definition path_xpath :: xpath where
  "path_xpath r ctx expr =
     (case expr of [] \<Rightarrow> None | c # cs \<Rightarrow> Some (Node_set (walk (map parse_step (split_on CHR ''/'' cs)) r)))"

lemma split_joined:
  assumes "ss \<noteq> []" "list_all (\<lambda>s. c \<notin> set s) ss"
  shows "split_on c (joined c ss) = ss"
proof -
  have last: "split_on c s = [s]" if "c \<notin> set s" for s
    using that by (induction s) auto
  have more: "split_on c (s @ c # t) = s # split_on c t" if "c \<notin> set s" for s t
    using that by (induction s) auto
  show ?thesis
    using assms by (induction ss rule: induct_list012) (simp_all add: last more)
qed

lemma word_step_plain: "word_step s \<Longrightarrow> plain_step s"
  by (cases s) (auto simp: word_plain simp del: plain_step.simps split: option.splits)

lemma parse_word_step:
  assumes "word_step s"
  shows "parse_step (xpath_of_step s) = s"
proof (cases s)
  case (Child n i)
  then have n: "xml_word n" using assms by simp
  then have p: "plain_step_name n" "n \<noteq> []" "hd n \<noteq> CHR ''@''" using word_plain(1) by (auto simp: xml_word_def)
  show ?thesis
  proof (cases i)
    case None
    then show ?thesis using Child p memchr_bracket(2)[of n] by (simp add: parse_step_def)
  next
    case (Some k)
    then have k: "int k < 2 ^ 31" using assms Child by simp
    have "strtol10 (dec_int (int k + 1) @ CHR '']'' # []) = Some (int k + 1, CHR '']'' # [])"
      by (rule strtol10_dec_int) (use k in \<open>simp_all add: c_isdigit_def\<close>)
    then show ?thesis
      using Child Some p memchr_bracket(1)[of n "dec_int (int k + 1) @ '']''"] by (simp add: parse_step_def)
  qed
qed (use assms in \<open>simp_all add: parse_step_def\<close>)

lemma word_step_slash:
  assumes "word_step s"
  shows "CHR ''/'' \<notin> set (xpath_of_step s)"
proof (cases s)
  case (Child n i)
  have "CHR ''/'' \<notin> set (dec_int k)" if "0 \<le> k" for k
    using dec_int_plain[OF that, of "CHR ''/''"] by (auto simp: c_isdigit_def)
  then show ?thesis using assms Child by (cases i) (auto simp: xml_word_def list_all_iff word_char_def)
qed (use assms in \<open>auto simp: xml_word_def list_all_iff word_char_def\<close>)

lemma path_xpath_conforms: "paths_conform path_xpath"
proof -
  have "split_on CHR ''/'' (joined CHR ''/'' (map xpath_of_step ss)) = map xpath_of_step ss"
    if "ss \<noteq> []" "list_all word_step ss" for ss
    using that by (intro split_joined) (auto simp: list_all_iff word_step_slash)
  moreover have "map (parse_step \<circ> xpath_of_step) ss = ss" if "list_all word_step ss" for ss
    using that by (intro map_idI) (simp add: list_all_iff parse_word_step)
  ultimately show ?thesis by (simp add: paths_conform_def path_xpath_def)
qed

section \<open>Queries of a path\<close>

definition path_of :: "step list \<Rightarrow> string" where
  "path_of ss = joined CHR ''.'' (map path_of_step ss)"

lemma path_of_snoc: "ss \<noteq> [] \<Longrightarrow> path_of (ss @ [s]) = path_of ss @ CHR ''.'' # path_of_step s"
proof -
  have "joined c (xs @ [x]) = joined c xs @ c # x" if "xs \<noteq> []" for c x xs
    using that by (induction c xs rule: joined.induct) simp_all
  then show "ss \<noteq> [] \<Longrightarrow> path_of (ss @ [s]) = path_of ss @ CHR ''.'' # path_of_step s"
    by (simp add: path_of_def)
qed

lemma walk_snoc: "walk (ss @ [s]) r = concat (map (step_items s) (walk ss r))"
  by (simp add: walk_def)

lemma query_path:
  assumes "paths_conform xp" "ss \<noteq> []" "list_all word_step ss"
  shows "query_eval_root xp \<lparr>qc_root = r\<rparr> (path_of ss) = Some (Node_set (walk ss r))"
proof -
  have "list_all plain_step ss" using assms(3) by (auto simp: list_all_iff word_step_plain)
  from translate_loop_steps[OF this] show ?thesis
    using assms by (simp add: translate_path_def query_eval_root_def query_eval_def paths_conform_def path_of_def)
qed

section \<open>Elements the document has\<close>

text \<open>A document no node of which has more children than an XPath index can count here.\<close>

fun narrow :: "xml_node \<Rightarrow> bool" where
  "narrow (Element n as cs) \<longleftrightarrow> length cs < 2 ^ 31 \<and> list_all narrow cs"
| "narrow _ \<longleftrightarrow> True"

definition attr_of :: "xml_node \<Rightarrow> string \<Rightarrow> string" where
  "attr_of e a = (case map_of (xml_attrs e) a of None \<Rightarrow> [] | Some v \<Rightarrow> v)"

text \<open>The element a path leads to, and no other.\<close>

definition denotes :: "xml_node \<Rightarrow> step list \<Rightarrow> xml_node \<Rightarrow> bool" where
  "denotes r ss e \<longleftrightarrow> ss \<noteq> [] \<and> list_all word_step ss \<and> walk ss r = [Node_item e] \<and> narrow e
     \<and> (\<exists>n as cs. e = Element n as cs)"

lemma child_narrow:
  assumes "narrow e" "x \<in> set (child_elems n (kids e))"
  shows "narrow x" "\<exists>m as cs. x = Element m as cs"
proof -
  show "narrow x" using assms by (cases e) (auto simp: child_elems_def list_all_iff)
  show "\<exists>m as cs. x = Element m as cs" using child_elems_elements[OF assms(2)] by blast
qed

lemma child_count: "narrow e \<Longrightarrow> length (child_elems n (kids e)) < 2 ^ 31"
proof (cases e)
  case (Element m as cs)
  assume "narrow e"
  then show ?thesis
    using Element by (auto simp: child_elems_def intro: le_less_trans[OF length_filter_le])
qed (simp_all add: child_elems_def)

lemma load_string_ok:
  "load_string (\<lambda>_. True) xp ctx base rest n
     = (Some (n, case hes_query_string xp ctx (gw_path base rest) of None \<Rightarrow> [] | Some t \<Rightarrow> t), Suc n)"
  by (simp add: load_string_def gw_str_def option.case_eq_if)

text \<open>A leaf of an element: an attribute, or its text.\<close>

lemma load_attribute:
  assumes "paths_conform xp" "denotes r ss e" "length (path_of ss) \<le> 500" "xml_word a" "length a \<le> 20"
  shows "load_string (\<lambda>_. True) xp \<lparr>qc_root = r\<rparr> (path_of ss) (CHR ''.'' # CHR ''@'' # a) n
       = (Some (n, attr_of e a), Suc n)"
proof -
  have ss: "ss \<noteq> []" "list_all word_step (ss @ [Attribute a])" "walk ss r = [Node_item e]"
    using assms(2,4) by (auto simp: denotes_def)
  obtain m as cs where e: "e = Element m as cs" using assms(2) by (auto simp: denotes_def)
  have "gw_path (path_of ss) (CHR ''.'' # CHR ''@'' # a) = path_of (ss @ [Attribute a])"
    using assms(3,5) ss(1) by (simp add: gw_path_def path_of_snoc hes_strlcpy_id)
  moreover have "walk (ss @ [Attribute a]) r = (case map_of as a of None \<Rightarrow> [] | Some v \<Rightarrow> [Attr_item v])"
    using ss(3) by (simp add: walk_snoc e)
  ultimately show ?thesis
    using query_path[OF assms(1) _ ss(2)]
    by (simp add: load_string_ok hes_query_string_def attr_of_def e split: option.split)
qed

lemma load_text:
  assumes "paths_conform xp" "denotes r ss e" "length (path_of ss) \<le> 500"
  shows "load_string (\<lambda>_. True) xp \<lparr>qc_root = r\<rparr> (path_of ss) [] n = (Some (n, first_text (kids e)), Suc n)"
proof -
  obtain m as cs where e: "e = Element m as cs" using assms(2) by (auto simp: denotes_def)
  then show ?thesis
    using assms query_path[OF assms(1), of ss r]
    by (simp add: load_string_ok hes_query_string_def gw_path_def hes_strlcpy_id denotes_def)
qed

text \<open>Its children of a name, one path each.\<close>

lemma list_path:
  assumes "paths_conform xp" "denotes r ss e" "length (path_of ss) \<le> 500" "xml_word n" "length n \<le> 20"
  shows "hes_query_elem_list xp \<lparr>qc_root = r\<rparr> (gw_path (path_of ss) (CHR ''.'' # n))
       = map Node_item (child_elems n (kids e))"
proof -
  have ss: "ss \<noteq> []" "list_all word_step (ss @ [Child n None])" "walk ss r = [Node_item e]"
    using assms(2,4) by (auto simp: denotes_def)
  have "gw_path (path_of ss) (CHR ''.'' # n) = path_of (ss @ [Child n None])"
    using assms(3,5) ss(1) by (simp add: gw_path_def path_of_snoc hes_strlcpy_id)
  then show ?thesis
    using query_path[OF assms(1) _ ss(2)] ss(3) by (simp add: hes_query_elem_list_def walk_snoc)
qed

lemma item_denotes:
  assumes "denotes r ss e" "length (path_of ss) \<le> 500" "xml_word n" "length n \<le> 20"
    and "i < length (child_elems n (kids e))"
  shows "\<exists>ts. item_path (path_of ss) n i = path_of ts \<and> denotes r ts (child_elems n (kids e) ! i)
      \<and> length (path_of ts) \<le> length (path_of ss) + 50"
proof (intro exI conjI)
  let ?s = "Child n (Some i)"
  have ss: "ss \<noteq> []" "list_all word_step ss" "walk ss r = [Node_item e]" "narrow e"
    using assms(1) by (auto simp: denotes_def)
  have i: "int i < 2 ^ 31" using child_count[OF ss(4), of n] assms(5) by simp
  then have "length (dec_int (int i)) \<le> 20"
    using dec_int_length[of "int i" 10] by simp
  then show len: "length (path_of (ss @ [?s])) \<le> length (path_of ss) + 50"
    using assms(4) ss(1) by (simp add: path_of_snoc)
  then show "item_path (path_of ss) n i = path_of (ss @ [?s])"
    using assms(2) ss(1) by (simp add: item_path_def gw_path_def path_of_snoc hes_strlcpy_id)
  have "child_elems n (kids e) ! i \<in> set (child_elems n (kids e))" using assms(5) by simp
  note item = child_narrow[OF ss(4) this]
  show "denotes r (ss @ [?s]) (child_elems n (kids e) ! i)"
    using ss i assms(3,5) item by (simp add: denotes_def walk_snoc)
qed

section \<open>The copies\<close>

definition holds :: "c_str \<Rightarrow> string \<Rightarrow> bool" where
  "holds c s \<longleftrightarrow> map_option snd c = Some s"

lemma holds_Some [simp]: "holds (Some (n, t)) s \<longleftrightarrow> t = s"
  by (simp add: holds_def)

definition copied_list :: "('a \<Rightarrow> xml_node \<Rightarrow> bool) \<Rightarrow> string \<Rightarrow> 'a gw_list \<Rightarrow> xml_node \<Rightarrow> bool" where
  "copied_list P n l e \<longleftrightarrow> list_all2 P (gw_entries l) (child_elems n (kids e))"

definition copied_names :: "c_str \<Rightarrow> c_str \<Rightarrow> c_str \<Rightarrow> c_str \<Rightarrow> xml_node \<Rightarrow> bool" where
  "copied_names v a t d e \<longleftrightarrow> holds v (attr_of e ''versionNumber'') \<and> holds a (attr_of e ''addrPoint'')
     \<and> holds t (attr_of e ''transCode'') \<and> holds d (attr_of e ''descriptiveName'')"

text \<open>A struct that says what an element does.\<close>

definition copied_data :: "hes_gw_data \<Rightarrow> xml_node \<Rightarrow> bool" where
  "copied_data x e \<longleftrightarrow>
     copied_names (gd_version_number x) (gd_addr_point x) (gd_trans_code x) (gd_descriptive_name x) e
     \<and> holds (gd_data_purpose x) (attr_of e ''dataPurpose'') \<and> holds (gd_data_format x) (attr_of e ''dataFormat'')
     \<and> holds (gd_memory_type x) (attr_of e ''memoryType'') \<and> holds (gd_storage_type x) (attr_of e ''storageType'')
     \<and> holds (gd_enumerated x) (attr_of e ''enumerated'') \<and> holds (gd_description x) (attr_of e ''description'')
     \<and> holds (gd_preassigned x) (attr_of e ''preassigned'') \<and> holds (gd_value x) (first_text (kids e))"

definition copied_inputs :: "hes_gw_inputs \<Rightarrow> xml_node \<Rightarrow> bool" where
  "copied_inputs x e \<longleftrightarrow>
     copied_names (gi_version_number x) (gi_addr_point x) (gi_trans_code x) (gi_descriptive_name x) e
     \<and> holds (gi_data_purpose x) (attr_of e ''dataPurpose'') \<and> copied_list copied_data ''data'' (gi_data x) e"

definition copied_outputs :: "hes_gw_outputs \<Rightarrow> xml_node \<Rightarrow> bool" where
  "copied_outputs x e \<longleftrightarrow>
     copied_names (go_version_number x) (go_addr_point x) (go_trans_code x) (go_descriptive_name x) e
     \<and> holds (go_data_purpose x) (attr_of e ''dataPurpose'') \<and> copied_list copied_data ''data'' (go_data x) e"

definition copied_params :: "hes_gw_param_group \<Rightarrow> xml_node \<Rightarrow> bool" where
  "copied_params x e \<longleftrightarrow>
     copied_names (gp_version_number x) (gp_addr_point x) (gp_trans_code x) (gp_descriptive_name x) e
     \<and> holds (gp_data_purpose x) (attr_of e ''dataPurpose'') \<and> holds (gp_description x) (attr_of e ''description'')
     \<and> copied_list copied_data ''data'' (gp_data x) e"

definition copied_table :: "hes_gw_operation_table \<Rightarrow> xml_node \<Rightarrow> bool" where
  "copied_table x e \<longleftrightarrow>
     copied_names (gt_version_number x) (gt_addr_point x) (gt_trans_code x) (gt_descriptive_name x) e
     \<and> holds (gt_data_purpose x) (attr_of e ''dataPurpose'') \<and> copied_list copied_data ''data'' (gt_data x) e
     \<and> copied_list copied_inputs ''inputs'' (gt_inputs x) e
     \<and> copied_list copied_params ''inputParameters'' (gt_input_parameters x) e
     \<and> copied_list copied_params ''outputParameters'' (gt_output_parameters x) e
     \<and> copied_list copied_outputs ''outputs'' (gt_outputs x) e"

definition copied_addressing :: "hes_gw_addressing_table \<Rightarrow> xml_node \<Rightarrow> bool" where
  "copied_addressing x e \<longleftrightarrow>
     copied_names (ga_version_number x) (ga_addr_point x) (ga_trans_code x) (ga_descriptive_name x) e
     \<and> holds (ga_data_purpose x) (attr_of e ''dataPurpose'') \<and> copied_list copied_data ''data'' (ga_data x) e"

definition copied_object :: "hes_gw_object_type \<Rightarrow> xml_node \<Rightarrow> bool" where
  "copied_object x e \<longleftrightarrow>
     copied_names (gb_version_number x) (gb_addr_point x) (gb_trans_code x) (gb_descriptive_name x) e
     \<and> copied_list copied_data ''data'' (gb_data x) e
     \<and> copied_list copied_table ''operationTable'' (gb_operation_tables x) e
     \<and> copied_list copied_addressing ''addressingTable'' (gb_addressing_tables x) e"

definition copied_lexicon :: "hes_gw_lexicon_type \<Rightarrow> xml_node \<Rightarrow> bool" where
  "copied_lexicon x e \<longleftrightarrow>
     copied_names (gl_version_number x) (gl_addr_point x) (gl_trans_code x) (gl_descriptive_name x) e
     \<and> copied_list copied_object ''objectType'' (gl_object_types x) e"

definition copied_process :: "hes_gw_overall_process \<Rightarrow> xml_node \<Rightarrow> bool" where
  "copied_process x e \<longleftrightarrow>
     copied_names (gv_version_number x) (gv_addr_point x) (gv_trans_code x) (gv_descriptive_name x) e
     \<and> copied_list copied_lexicon ''lexiconType'' (gv_lexicon_types x) e"

text \<open>The text of the document's leaf of a name, and the whole of it.\<close>

definition leaf_of :: "xml_node \<Rightarrow> string \<Rightarrow> string" where
  "leaf_of e n = (case child_elems n (kids e) of [] \<Rightarrow> [] | x # _ \<Rightarrow> first_text (kids x))"

definition copied_file :: "hes_gateway \<Rightarrow> xml_node \<Rightarrow> bool" where
  "copied_file gw e \<longleftrightarrow>
     holds (gw_file_format gw) (leaf_of e ''fileFormat'') \<and> holds (gw_file_type gw) (leaf_of e ''fileType'')
     \<and> holds (gw_file_purpose gw) (leaf_of e ''filePurpose'') \<and> holds (gw_file_manu gw) (leaf_of e ''fileManu'')
     \<and> holds (gw_file_product gw) (leaf_of e ''fileProduct'')
     \<and> holds (gw_file_product_ref_id gw) (leaf_of e ''fileProductRefID'')
     \<and> holds (gw_file_coverage gw) (leaf_of e ''fileCoverage'') \<and> holds (gw_file_status gw) (leaf_of e ''fileStatus'')
     \<and> holds (gw_file_version gw) (leaf_of e ''fileVersion'')
     \<and> holds (gw_file_summary_description gw) (leaf_of e ''fileSummaryDescription'')
     \<and> holds (gw_file_created_description gw) (leaf_of e ''fileCreatedDescription'')
     \<and> holds (gw_file_created_date gw) (leaf_of e ''fileCreatedDate'')
     \<and> holds (gw_file_revision_description gw) (leaf_of e ''fileRevisionDescription'')
     \<and> holds (gw_file_revision_date gw) (leaf_of e ''fileRevisionDate'')
     \<and> rel_option copied_process (gw_overall_process gw)
         (case child_elems ''overallProcess'' (kids e) of [] \<Rightarrow> None | x # _ \<Rightarrow> Some x)"

text \<open>A loader that copies what its path denotes, when the path is short enough.\<close>

locale copying =
  fixes xp :: xpath
    and r :: xml_node
    and load :: "string \<Rightarrow> nat \<Rightarrow> 'a loaded"
    and copied :: "'a \<Rightarrow> xml_node \<Rightarrow> bool"
    and room :: nat
  assumes load_copies: "paths_conform xp \<Longrightarrow> denotes r ss e \<Longrightarrow> length (path_of ss) \<le> room \<Longrightarrow>
      \<exists>x n'. load (path_of ss) n = Some (Some x, n') \<and> copied x e"
    and room: "room \<le> 500"
begin

lemma items_copied:
  assumes xp: "paths_conform xp" "denotes r ss e" "length (path_of ss) + 50 \<le> room" "xml_word name" "length name \<le> 20"
    and "\<forall>i \<in> set is. i < length (child_elems name (kids e))"
  shows "\<exists>xs n'. load_items load (path_of ss) name is n = Some (xs, n')
      \<and> list_all2 copied xs (map (\<lambda>i. child_elems name (kids e) ! i) is)"
  using assms(6)
proof (induction "is" arbitrary: n)
  case Nil
  then show ?case by simp
next
  case (Cons i "is")
  obtain ts where ts: "item_path (path_of ss) name i = path_of ts" "denotes r ts (child_elems name (kids e) ! i)"
    "length (path_of ts) \<le> length (path_of ss) + 50"
    using item_denotes[OF xp(2) _ xp(4,5), of i] xp(3) room Cons.prems by auto
  obtain x m where "load (path_of ts) n = Some (Some x, m)" "copied x (child_elems name (kids e) ! i)"
    using load_copies[OF xp(1) ts(2), of n] ts(3) xp(3) by auto
  moreover obtain xs n' where "load_items load (path_of ss) name is m = Some (xs, n')"
    "list_all2 copied xs (map (\<lambda>i. child_elems name (kids e) ! i) is)"
    using Cons.IH[of m] Cons.prems by auto
  ultimately show ?case by (simp add: ts(1))
qed

lemma list_copied:
  assumes xp: "paths_conform xp" "denotes r ss e" "length (path_of ss) + 50 \<le> room" "xml_word name" "length name \<le> 20"
  shows "\<exists>l n'. load_list (\<lambda>_. True) xp \<lparr>qc_root = r\<rparr> (path_of ss) name load n = Some (l, n')
      \<and> copied_list copied name l e"
proof (cases "child_elems name (kids e)")
  case Nil
  then show ?thesis
    using list_path[OF xp(1,2) _ xp(4,5)] xp(3) room by (simp add: load_list_def copied_list_def)
next
  case (Cons c cs)
  define es where "es = child_elems name (kids e)"
  have "hes_query_elem_list xp \<lparr>qc_root = r\<rparr> (gw_path (path_of ss) (CHR ''.'' # name)) = map Node_item es"
    using list_path[OF xp(1,2) _ xp(4,5)] xp(3) room by (simp add: es_def)
  moreover obtain xs n' where "load_items load (path_of ss) name [0..<length es] (Suc n) = Some (xs, n')"
    "list_all2 copied xs (map (\<lambda>i. es ! i) [0..<length es])"
    using items_copied[OF xp, of "[0..<length es]" "Suc n"] by (auto simp: es_def)
  ultimately show ?thesis
    using Cons by (simp add: load_list_def copied_list_def es_def[symmetric] map_nth)
qed

end

lemma attribute_words:
  "xml_word ''versionNumber''" "xml_word ''addrPoint''" "xml_word ''transCode''" "xml_word ''descriptiveName''"
  "xml_word ''dataPurpose''" "xml_word ''dataFormat''" "xml_word ''memoryType''" "xml_word ''storageType''"
  "xml_word ''enumerated''" "xml_word ''description''" "xml_word ''preassigned''"
  by (simp_all add: xml_word_def word_char_def)

lemma element_words:
  "xml_word ''data''" "xml_word ''inputs''" "xml_word ''inputParameters''" "xml_word ''outputParameters''"
  "xml_word ''outputs''" "xml_word ''operationTable''" "xml_word ''addressingTable''" "xml_word ''objectType''"
  "xml_word ''lexiconType''"
  by (simp_all add: xml_word_def word_char_def)

lemma names_copied:
  assumes "paths_conform xp" "denotes r ss e" "length (path_of ss) \<le> 500"
  shows "\<exists>v a t d p n'. load_common_attrs (\<lambda>_. True) xp \<lparr>qc_root = r\<rparr> (path_of ss) want n = ((v, a, t, d, p), n')
     \<and> copied_names v a t d e \<and> (want \<longrightarrow> holds p (attr_of e ''dataPurpose''))"
  by (simp add: load_common_attrs_def load_attribute[OF assms] attribute_words copied_names_def)

interpretation data_copy: copying xp r "load_data (\<lambda>_. True) xp \<lparr>qc_root = r\<rparr>" copied_data 500 for xp r
  by unfold_locales
     (simp_all add: load_data_def load_attribute load_text attribute_words copied_data_def copied_names_def)

interpretation inputs_copy: copying xp r "load_inputs (\<lambda>_. True) xp \<lparr>qc_root = r\<rparr>" copied_inputs 450 for xp r
proof unfold_locales
  fix ss e n
  assume e: "paths_conform xp" "denotes r ss e" "length (path_of ss) \<le> 450"
  obtain v a t d p m0 where at: "load_common_attrs (\<lambda>_. True) xp \<lparr>qc_root = r\<rparr> (path_of ss) True (Suc n)
      = ((v, a, t, d, p), m0)" "copied_names v a t d e" "holds p (attr_of e ''dataPurpose'')"
    using names_copied[OF e(1,2), of True "Suc n"] e(3) by auto
  obtain l1 m1 where l1: "load_list (\<lambda>_. True) xp \<lparr>qc_root = r\<rparr> (path_of ss) ''data''
        (load_data (\<lambda>_. True) xp \<lparr>qc_root = r\<rparr>) m0 = Some (l1, m1)" "copied_list copied_data ''data'' l1 e"
    using data_copy.list_copied[OF e(1,2) _ element_words(1), of "m0"] e(3) by auto
  show "\<exists>x n'. load_inputs (\<lambda>_. True) xp \<lparr>qc_root = r\<rparr> (path_of ss) n = Some (Some x, n') \<and> copied_inputs x e"
    by (simp add: load_inputs_def at l1 copied_inputs_def)
qed simp

interpretation outputs_copy: copying xp r "load_outputs (\<lambda>_. True) xp \<lparr>qc_root = r\<rparr>" copied_outputs 450 for xp r
proof unfold_locales
  fix ss e n
  assume e: "paths_conform xp" "denotes r ss e" "length (path_of ss) \<le> 450"
  obtain v a t d p m0 where at: "load_common_attrs (\<lambda>_. True) xp \<lparr>qc_root = r\<rparr> (path_of ss) True (Suc n)
      = ((v, a, t, d, p), m0)" "copied_names v a t d e" "holds p (attr_of e ''dataPurpose'')"
    using names_copied[OF e(1,2), of True "Suc n"] e(3) by auto
  obtain l1 m1 where l1: "load_list (\<lambda>_. True) xp \<lparr>qc_root = r\<rparr> (path_of ss) ''data''
        (load_data (\<lambda>_. True) xp \<lparr>qc_root = r\<rparr>) m0 = Some (l1, m1)" "copied_list copied_data ''data'' l1 e"
    using data_copy.list_copied[OF e(1,2) _ element_words(1), of "m0"] e(3) by auto
  show "\<exists>x n'. load_outputs (\<lambda>_. True) xp \<lparr>qc_root = r\<rparr> (path_of ss) n = Some (Some x, n') \<and> copied_outputs x e"
    by (simp add: load_outputs_def at l1 copied_outputs_def)
qed simp

interpretation params_copy: copying xp r "load_param_group (\<lambda>_. True) xp \<lparr>qc_root = r\<rparr>" copied_params 450 for xp r
proof unfold_locales
  fix ss e n
  assume e: "paths_conform xp" "denotes r ss e" "length (path_of ss) \<le> 450"
  have len: "length (path_of ss) \<le> 500" using e(3) by simp
  obtain v a t d p m0 where at: "load_common_attrs (\<lambda>_. True) xp \<lparr>qc_root = r\<rparr> (path_of ss) True (Suc n)
      = ((v, a, t, d, p), m0)" "copied_names v a t d e" "holds p (attr_of e ''dataPurpose'')"
    using names_copied[OF e(1,2), of True "Suc n"] e(3) by auto
  obtain l1 m1 where l1: "load_list (\<lambda>_. True) xp \<lparr>qc_root = r\<rparr> (path_of ss) ''data''
        (load_data (\<lambda>_. True) xp \<lparr>qc_root = r\<rparr>) (Suc m0) = Some (l1, m1)" "copied_list copied_data ''data'' l1 e"
    using data_copy.list_copied[OF e(1,2) _ element_words(1), of "Suc m0"] e(3) by auto
  show "\<exists>x n'. load_param_group (\<lambda>_. True) xp \<lparr>qc_root = r\<rparr> (path_of ss) n = Some (Some x, n') \<and> copied_params x e"
    by (simp add: load_param_group_def at l1 copied_params_def load_attribute[OF e(1,2) len] attribute_words)
qed simp

interpretation table_copy: copying xp r "load_operation_table (\<lambda>_. True) xp \<lparr>qc_root = r\<rparr>" copied_table 400 for xp r
proof unfold_locales
  fix ss e n
  assume e: "paths_conform xp" "denotes r ss e" "length (path_of ss) \<le> 400"
  obtain v a t d p m0 where at: "load_common_attrs (\<lambda>_. True) xp \<lparr>qc_root = r\<rparr> (path_of ss) True (Suc n)
      = ((v, a, t, d, p), m0)" "copied_names v a t d e" "holds p (attr_of e ''dataPurpose'')"
    using names_copied[OF e(1,2), of True "Suc n"] e(3) by auto
  obtain l1 m1 where l1: "load_list (\<lambda>_. True) xp \<lparr>qc_root = r\<rparr> (path_of ss) ''data''
        (load_data (\<lambda>_. True) xp \<lparr>qc_root = r\<rparr>) m0 = Some (l1, m1)" "copied_list copied_data ''data'' l1 e"
    using data_copy.list_copied[OF e(1,2) _ element_words(1), of "m0"] e(3) by auto
  obtain l2 m2 where l2: "load_list (\<lambda>_. True) xp \<lparr>qc_root = r\<rparr> (path_of ss) ''inputs''
        (load_inputs (\<lambda>_. True) xp \<lparr>qc_root = r\<rparr>) m1 = Some (l2, m2)" "copied_list copied_inputs ''inputs'' l2 e"
    using inputs_copy.list_copied[OF e(1,2) _ element_words(2), of "m1"] e(3) by auto
  obtain l3 m3 where l3: "load_list (\<lambda>_. True) xp \<lparr>qc_root = r\<rparr> (path_of ss) ''inputParameters''
        (load_param_group (\<lambda>_. True) xp \<lparr>qc_root = r\<rparr>) m2 = Some (l3, m3)" "copied_list copied_params ''inputParameters'' l3 e"
    using params_copy.list_copied[OF e(1,2) _ element_words(3), of "m2"] e(3) by auto
  obtain l4 m4 where l4: "load_list (\<lambda>_. True) xp \<lparr>qc_root = r\<rparr> (path_of ss) ''outputParameters''
        (load_param_group (\<lambda>_. True) xp \<lparr>qc_root = r\<rparr>) m3 = Some (l4, m4)" "copied_list copied_params ''outputParameters'' l4 e"
    using params_copy.list_copied[OF e(1,2) _ element_words(4), of "m3"] e(3) by auto
  obtain l5 m5 where l5: "load_list (\<lambda>_. True) xp \<lparr>qc_root = r\<rparr> (path_of ss) ''outputs''
        (load_outputs (\<lambda>_. True) xp \<lparr>qc_root = r\<rparr>) m4 = Some (l5, m5)" "copied_list copied_outputs ''outputs'' l5 e"
    using outputs_copy.list_copied[OF e(1,2) _ element_words(5), of "m4"] e(3) by auto
  show "\<exists>x n'. load_operation_table (\<lambda>_. True) xp \<lparr>qc_root = r\<rparr> (path_of ss) n = Some (Some x, n') \<and> copied_table x e"
    by (simp add: load_operation_table_def at l1 l2 l3 l4 l5 copied_table_def)
qed simp

interpretation addressing_copy: copying xp r "load_addressing_table (\<lambda>_. True) xp \<lparr>qc_root = r\<rparr>" copied_addressing 400 for xp r
proof unfold_locales
  fix ss e n
  assume e: "paths_conform xp" "denotes r ss e" "length (path_of ss) \<le> 400"
  obtain v a t d p m0 where at: "load_common_attrs (\<lambda>_. True) xp \<lparr>qc_root = r\<rparr> (path_of ss) True (Suc n)
      = ((v, a, t, d, p), m0)" "copied_names v a t d e" "holds p (attr_of e ''dataPurpose'')"
    using names_copied[OF e(1,2), of True "Suc n"] e(3) by auto
  obtain l1 m1 where l1: "load_list (\<lambda>_. True) xp \<lparr>qc_root = r\<rparr> (path_of ss) ''data''
        (load_data (\<lambda>_. True) xp \<lparr>qc_root = r\<rparr>) m0 = Some (l1, m1)" "copied_list copied_data ''data'' l1 e"
    using data_copy.list_copied[OF e(1,2) _ element_words(1), of "m0"] e(3) by auto
  show "\<exists>x n'. load_addressing_table (\<lambda>_. True) xp \<lparr>qc_root = r\<rparr> (path_of ss) n = Some (Some x, n') \<and> copied_addressing x e"
    by (simp add: load_addressing_table_def at l1 copied_addressing_def)
qed simp

interpretation object_copy: copying xp r "load_object_type (\<lambda>_. True) xp \<lparr>qc_root = r\<rparr>" copied_object 350 for xp r
proof unfold_locales
  fix ss e n
  assume e: "paths_conform xp" "denotes r ss e" "length (path_of ss) \<le> 350"
  obtain v a t d p m0 where at: "load_common_attrs (\<lambda>_. True) xp \<lparr>qc_root = r\<rparr> (path_of ss) False (Suc n)
      = ((v, a, t, d, p), m0)" "copied_names v a t d e"
    using names_copied[OF e(1,2), of False "Suc n"] e(3) by auto
  obtain l1 m1 where l1: "load_list (\<lambda>_. True) xp \<lparr>qc_root = r\<rparr> (path_of ss) ''data''
        (load_data (\<lambda>_. True) xp \<lparr>qc_root = r\<rparr>) m0 = Some (l1, m1)" "copied_list copied_data ''data'' l1 e"
    using data_copy.list_copied[OF e(1,2) _ element_words(1), of "m0"] e(3) by auto
  obtain l2 m2 where l2: "load_list (\<lambda>_. True) xp \<lparr>qc_root = r\<rparr> (path_of ss) ''operationTable''
        (load_operation_table (\<lambda>_. True) xp \<lparr>qc_root = r\<rparr>) m1 = Some (l2, m2)" "copied_list copied_table ''operationTable'' l2 e"
    using table_copy.list_copied[OF e(1,2) _ element_words(6), of "m1"] e(3) by auto
  obtain l3 m3 where l3: "load_list (\<lambda>_. True) xp \<lparr>qc_root = r\<rparr> (path_of ss) ''addressingTable''
        (load_addressing_table (\<lambda>_. True) xp \<lparr>qc_root = r\<rparr>) m2 = Some (l3, m3)" "copied_list copied_addressing ''addressingTable'' l3 e"
    using addressing_copy.list_copied[OF e(1,2) _ element_words(7), of "m2"] e(3) by auto
  show "\<exists>x n'. load_object_type (\<lambda>_. True) xp \<lparr>qc_root = r\<rparr> (path_of ss) n = Some (Some x, n') \<and> copied_object x e"
    by (simp add: load_object_type_def at l1 l2 l3 copied_object_def)
qed simp

interpretation lexicon_copy: copying xp r "load_lexicon_type (\<lambda>_. True) xp \<lparr>qc_root = r\<rparr>" copied_lexicon 300 for xp r
proof unfold_locales
  fix ss e n
  assume e: "paths_conform xp" "denotes r ss e" "length (path_of ss) \<le> 300"
  obtain v a t d p m0 where at: "load_common_attrs (\<lambda>_. True) xp \<lparr>qc_root = r\<rparr> (path_of ss) False (Suc n)
      = ((v, a, t, d, p), m0)" "copied_names v a t d e"
    using names_copied[OF e(1,2), of False "Suc n"] e(3) by auto
  obtain l1 m1 where l1: "load_list (\<lambda>_. True) xp \<lparr>qc_root = r\<rparr> (path_of ss) ''objectType''
        (load_object_type (\<lambda>_. True) xp \<lparr>qc_root = r\<rparr>) m0 = Some (l1, m1)" "copied_list copied_object ''objectType'' l1 e"
    using object_copy.list_copied[OF e(1,2) _ element_words(8), of "m0"] e(3) by auto
  show "\<exists>x n'. load_lexicon_type (\<lambda>_. True) xp \<lparr>qc_root = r\<rparr> (path_of ss) n = Some (Some x, n') \<and> copied_lexicon x e"
    by (simp add: load_lexicon_type_def at l1 copied_lexicon_def)
qed simp

interpretation process_copy: copying xp r "load_overall_process (\<lambda>_. True) xp \<lparr>qc_root = r\<rparr>" copied_process 250 for xp r
proof unfold_locales
  fix ss e n
  assume e: "paths_conform xp" "denotes r ss e" "length (path_of ss) \<le> 250"
  obtain v a t d p m0 where at: "load_common_attrs (\<lambda>_. True) xp \<lparr>qc_root = r\<rparr> (path_of ss) False (Suc n)
      = ((v, a, t, d, p), m0)" "copied_names v a t d e"
    using names_copied[OF e(1,2), of False "Suc n"] e(3) by auto
  obtain l1 m1 where l1: "load_list (\<lambda>_. True) xp \<lparr>qc_root = r\<rparr> (path_of ss) ''lexiconType''
        (load_lexicon_type (\<lambda>_. True) xp \<lparr>qc_root = r\<rparr>) m0 = Some (l1, m1)" "copied_list copied_lexicon ''lexiconType'' l1 e"
    using lexicon_copy.list_copied[OF e(1,2) _ element_words(9), of "m0"] e(3) by auto
  show "\<exists>x n'. load_overall_process (\<lambda>_. True) xp \<lparr>qc_root = r\<rparr> (path_of ss) n = Some (Some x, n') \<and> copied_process x e"
    by (simp add: load_overall_process_def at l1 copied_process_def)
qed simp

section \<open>The whole document\<close>

lemma leaf_words:
  "xml_word ''file''" "xml_word ''overallProcess''" "xml_word ''fileFormat''" "xml_word ''fileType''"
  "xml_word ''filePurpose''" "xml_word ''fileManu''" "xml_word ''fileProduct''" "xml_word ''fileProductRefID''"
  "xml_word ''fileCoverage''" "xml_word ''fileStatus''" "xml_word ''fileVersion''"
  "xml_word ''fileSummaryDescription''" "xml_word ''fileCreatedDescription''" "xml_word ''fileCreatedDate''"
  "xml_word ''fileRevisionDescription''" "xml_word ''fileRevisionDate''"
  by (simp_all add: xml_word_def word_char_def)

lemma root_child:
  "walk [Child ''file'' None, Child n None] (Element ''file'' as cs) = map Node_item (child_elems n cs)"
  by (simp add: walk_def child_elems_def)

lemma leaf_query:
  assumes "paths_conform xp" "r = Element ''file'' as cs" "xml_word n"
  shows "hes_query_string xp \<lparr>qc_root = r\<rparr> (''file.'' @ n)
       = (case child_elems n cs of [] \<Rightarrow> None | x # _ \<Rightarrow> Some (first_text (kids x)))"
proof -
  have "path_of [Child ''file'' None, Child n None] = ''file.'' @ n" by (simp add: path_of_def)
  then have q: "query_eval_root xp \<lparr>qc_root = r\<rparr> (''file.'' @ n) = Some (Node_set (map Node_item (child_elems n cs)))"
    using query_path[OF assms(1), of "[Child ''file'' None, Child n None]" r] assms leaf_words(1)
    by (simp add: root_child)
  show ?thesis
  proof (cases "child_elems n cs")
    case (Cons x xs)
    then obtain m bs ds where "x = Element m bs ds" using child_elems_elements[of x n cs] by auto
    then show ?thesis using q Cons by (simp add: hes_query_string_def)
  qed (use q in \<open>simp add: hes_query_string_def\<close>)
qed

lemma leaf_copied:
  assumes "paths_conform xp" "r = Element ''file'' as cs" "xml_word n"
  shows "gw_str (\<lambda>_. True) (hes_query_string xp \<lparr>qc_root = r\<rparr> (''file.'' @ n)) k = (Some (k, leaf_of r n), Suc k)"
  using leaf_query[OF assms] assms(2) by (simp add: gw_str_def leaf_of_def split: list.split)

lemma document_loaded:
  assumes "paths_conform xp" "xmlParseFile f = Some (Some doc)" "doc = Element ''file'' as cs" "narrow doc"
    and "length (child_elems ''overallProcess'' cs) \<le> 1"
  shows "\<exists>gw n'. hes_gateway_load (\<lambda>_. True) xp xmlParseFile (Some f) n = Some (Some gw, n') \<and> copied_file gw doc"
proof -
  let ?ctx = "\<lparr>qc_root = doc\<rparr>" and ?ss = "[Child ''file'' None, Child ''overallProcess'' None]"
  have path: "path_of ?ss = ''file.overallProcess''" by (simp add: path_of_def)
  have nodes: "query_eval_root xp ?ctx ''file.overallProcess'' = Some (Node_set (map Node_item (child_elems ''overallProcess'' cs)))"
    using query_path[OF assms(1), of ?ss doc] leaf_words(1,2) assms(3) by (simp add: path root_child)
  have process: "\<exists>p n'. (if hes_query_count xp ?ctx ''file.overallProcess'' > 0
        then load_overall_process (\<lambda>_. True) xp ?ctx ''file.overallProcess'' m else Some (None, m)) = Some (p, n')
      \<and> rel_option copied_process p (case child_elems ''overallProcess'' cs of [] \<Rightarrow> None | x # _ \<Rightarrow> Some x)" for m
  proof (cases "child_elems ''overallProcess'' cs")
    case Nil
    then show ?thesis using nodes by (simp add: hes_query_count_def)
  next
    case (Cons e es)
    then have one: "child_elems ''overallProcess'' cs = [e]" using assms(5) by simp
    then have "e \<in> set (child_elems ''overallProcess'' (kids doc))" using assms(3) by simp
    from child_narrow[OF assms(4) this] have "denotes doc ?ss e"
      using one leaf_words(1,2) assms(3) by (simp add: denotes_def root_child)
    from process_copy.load_copies[OF assms(1) this] show ?thesis
      using nodes one by (fastforce simp: path hes_query_count_def)
  qed
  then obtain p k where p: "\<And>m. (if hes_query_count xp ?ctx ''file.overallProcess'' > 0
        then load_overall_process (\<lambda>_. True) xp ?ctx ''file.overallProcess'' m else Some (None, m)) = Some (p m, k m)"
      "\<And>m. rel_option copied_process (p m) (case child_elems ''overallProcess'' cs of [] \<Rightarrow> None | x # _ \<Rightarrow> Some x)"
    by metis
  have kids: "kids doc = cs" using assms(3) by simp
  show ?thesis
    by (simp add: hes_gateway_load_def hes_query_open_def assms(2) Let_def leaf_words p kids copied_file_def
        leaf_copied[OF assms(1,3), unfolded append.simps])
qed

text \<open>A lookup by name finds the first of the element's data that has it.\<close>

lemma datum_found:
  assumes "copied_list copied_data ''data'' l e"
  shows "rel_option copied_data (hes_gw_data_find l (Some name))
           (List.find (\<lambda>d. attr_of d ''descriptiveName'' = name) (child_elems ''data'' (kids e)))"
proof -
  have "rel_option copied_data (List.find (\<lambda>d. map_option snd (gd_descriptive_name d) = Some name) xs)
      (List.find (\<lambda>d. attr_of d ''descriptiveName'' = name) es)" if "list_all2 copied_data xs es" for xs es
    using that by induction (auto simp: copied_data_def copied_names_def holds_def)
  from this[OF assms[unfolded copied_list_def]] show ?thesis
    by (cases l) (auto simp: hes_gw_data_find_def)
qed

text \<open>C31: The typed copy is the document. With an XPath evaluator that conforms, a document whose root is a
  file element with at most one process is loaded, and the result says what the document says: each
  field is the attribute or text of its element, empty where there is none, and each list has one entry
  for every child element of its name, in order. The 600 bytes of the path buffers are always enough.\<close>

theorem gateway_copies_document:
  assumes "paths_conform xp" "xmlParseFile f = Some (Some doc)" "doc = Element ''file'' as cs" "narrow doc"
    and "length (child_elems ''overallProcess'' cs) \<le> 1"
  shows "\<exists>gw n'. hes_gateway_load (\<lambda>_. True) xp xmlParseFile (Some f) n = Some (Some gw, n') \<and> copied_file gw doc"
  using assms by (rule document_loaded)

definition sample_file :: xml_node where
  "sample_file =
     Element ''file'' []
       [Element ''fileVersion'' [] [Text ''1''],
        Element ''overallProcess'' [(''transCode'', ''lx'')]
          [Element ''lexiconType'' [(''transCode'', ''ob'')] [sample_document]]]"

theorem gateway_copies_document_witness:
  "\<exists>gw n'. hes_gateway_load (\<lambda>_. True) path_xpath (\<lambda>_. Some (Some sample_file)) (Some ''bm.xml'') 0 = Some (Some gw, n')
     \<and> copied_file gw sample_file \<and> holds (gw_file_version gw) ''1''"
proof -
  have "narrow sample_file" by (simp add: sample_file_def sample_document_def datum_elem_def)
  then obtain gw n' where gw: "hes_gateway_load (\<lambda>_. True) path_xpath (\<lambda>_. Some (Some sample_file)) (Some ''bm.xml'') 0
      = Some (Some gw, n')" "copied_file gw sample_file"
    using gateway_copies_document[OF path_xpath_conforms, where f = "''bm.xml''" and doc = sample_file and n = 0
      and xmlParseFile = "\<lambda>_. Some (Some sample_file)"]
    by (auto simp: sample_file_def child_elems_def)
  moreover have "\<not> is_blank ''1''" by code_simp
  then have "leaf_of sample_file ''fileVersion'' = ''1''"
    by (simp add: leaf_of_def sample_file_def child_elems_def)
  ultimately show ?thesis by (auto simp: copied_file_def)
qed

text \<open>Showing a document without a process dereferences a null pointer: the check for one comes after
  its first use.\<close>

lemma show_crashes_iff:
  assumes "paths_conform xp" "xmlParseFile f = Some (Some doc)" "doc = Element ''file'' as cs" "narrow doc"
    and "length (child_elems ''overallProcess'' cs) \<le> 1"
  shows "test_hes_gateway_api (\<lambda>_. True) xp xmlParseFile f n = None \<longleftrightarrow> child_elems ''overallProcess'' cs = []"
proof -
  obtain gw n' where gw: "hes_gateway_load (\<lambda>_. True) xp xmlParseFile (Some f) n = Some (Some gw, n')"
    "copied_file gw doc"
    using document_loaded[of xp xmlParseFile f doc as cs n] assms by blast
  have "gw_overall_process gw = None \<longleftrightarrow> child_elems ''overallProcess'' cs = []"
    using gw(2) assms(3) by (cases "child_elems ''overallProcess'' cs") (auto simp: copied_file_def option_rel_Some2)
  then show ?thesis by (auto simp: test_hes_gateway_api_def gw(1) show_gateway_def split: option.splits)
qed

end
