(* ===== verification/Cli.thy ===== *)
theory Cli
  imports CoreStart Gateway "HOL-Library.List_Lexorder" "HOL-Library.Char_ord"
begin

text \<open>
  The command line (src/src/app.c, src/src/cli/, src/src/utils.c): where the program keeps its files,
  the global options, finding and dispatching the command, and what each command makes of its
  options before it starts its module.

  Parsing an option table is argtable's and an argument: \<open>parse name argv\<close> is what the table of the
  command \<open>name\<close> holds afterwards. Its dispatcher of commands, a few lines of
  src/deps/argtable3/argtable3.c, is translated, because the commands rely on what it does with a name
  nobody registered. A command ends in an exit code with its text, in the start of a module with that
  module's parameters, or in a crash. The lines printed about a module's parameters are left out.
\<close>

section \<open>Where things are\<close>

abbreviation MAX_PATH_SIZE :: nat where "MAX_PATH_SIZE \<equiv> 4096"
abbreviation MAX_URL_SIZE :: nat where "MAX_URL_SIZE \<equiv> 2048"
abbreviation HES_MANIFEST_REP_URL :: string where
  "HES_MANIFEST_REP_URL \<equiv> ''ipc:///tmp/ohmg-device-manifest-rep.sock''"
abbreviation HES_MANIFEST_PUB_URL :: string where
  "HES_MANIFEST_PUB_URL \<equiv> ''ipc:///tmp/ohmg-device-manifest-pub.sock''"
abbreviation HES_HUB_PUB_URL :: string where "HES_HUB_PUB_URL \<equiv> ''ipc:///tmp/ohmg-hub-pub.sock''"
abbreviation HES_HUB_SUB_URL :: string where "HES_HUB_SUB_URL \<equiv> ''ipc:///tmp/ohmg-hub-sub.sock''"

text \<open>What libuv answers (\<open>None\<close> where it fails, a value that fits the caller's buffer otherwise), and
  cwalk's joining of paths before it is cut to a buffer.\<close>

record host =
  ho_exepath :: "string option"
  ho_homedir :: "string option"
  ho_cwd :: "string option"
  ho_tmpdir :: "string option"
  ho_getenv :: "string \<Rightarrow> string option"
  ho_join :: "string \<Rightarrow> string \<Rightarrow> string"

text \<open>A directory of the user: the buffer and whether it fits.\<close>

definition fitted :: "nat \<Rightarrow> string \<Rightarrow> bool \<times> string" where
  "fitted bufsz s = (length s < bufsz, hes_strlcpy bufsz s)"

definition get_cache_dir :: "host \<Rightarrow> nat \<Rightarrow> bool \<times> string" where
  "get_cache_dir ho bufsz =
     (case ho_getenv ho ''XDG_CACHE_HOME'' of
        Some xdg \<Rightarrow> fitted bufsz (xdg @ ''/ohmg'')
      | None \<Rightarrow> (case ho_homedir ho of
                   Some home \<Rightarrow> fitted bufsz (home @ ''/.cache/ohmg'')
                 | None \<Rightarrow> fitted bufsz ''./ohmg''))"

definition get_config_dir :: "host \<Rightarrow> nat \<Rightarrow> bool \<times> string" where
  "get_config_dir ho bufsz =
     (case ho_getenv ho ''XDG_CONFIG_HOME'' of
        Some xdg \<Rightarrow> fitted bufsz (xdg @ ''/ohmg'')
      | None \<Rightarrow> (case ho_homedir ho of
                   Some home \<Rightarrow> fitted bufsz (home @ ''/.config/ohmg'')
                 | None \<Rightarrow> fitted bufsz ''./ohmg''))"

definition get_config_path :: "host \<Rightarrow> nat \<Rightarrow> bool \<times> string" where
  "get_config_path ho bufsz =
     (let (ok, dir) = get_config_dir ho MAX_PATH_SIZE
      in if \<not> ok then (False, []) else fitted bufsz (ho_join ho dir ''config.toml''))"

record app_info =
  ai_exe_path :: string
  ai_home :: string
  ai_cwd :: string
  ai_tmp_dir :: string
  ai_data_home :: string
  ai_state_home :: string
  ai_cache_home :: string
  ai_config_dir :: string
  ai_config_path :: string
  ai_profile_path :: string
  ai_default_rep_url :: string
  ai_default_pub_url :: string

definition get_app_info :: "host \<Rightarrow> app_info option" where
  "get_app_info ho =
     (case (ho_exepath ho, ho_homedir ho, ho_cwd ho, ho_tmpdir ho) of
        (Some exe, Some home, Some cwd, Some tmp) \<Rightarrow>
          (let join = (\<lambda>a b. hes_strlcpy MAX_PATH_SIZE (ho_join ho a b));
               data_home = join home ''.ohmg'';
               (ok1, config_dir) = get_config_dir ho MAX_PATH_SIZE;
               (ok2, config_path) = get_config_path ho MAX_PATH_SIZE;
               (ok3, cache_home) = get_cache_dir ho MAX_PATH_SIZE
           in if \<not> (ok1 \<and> ok2 \<and> ok3) then None
              else Some \<lparr>ai_exe_path = exe, ai_home = home, ai_cwd = cwd, ai_tmp_dir = tmp,
                         ai_data_home = data_home, ai_state_home = join data_home ''state'',
                         ai_cache_home = cache_home, ai_config_dir = config_dir, ai_config_path = config_path,
                         ai_profile_path = join config_dir ''profile.json'',
                         ai_default_rep_url = hes_strlcpy MAX_URL_SIZE HES_MANIFEST_REP_URL,
                         ai_default_pub_url = hes_strlcpy MAX_URL_SIZE HES_MANIFEST_PUB_URL\<rparr>)
      | _ \<Rightarrow> None)"

text \<open>A file of at most a megabyte, read whole; \<open>fopen\<close> is the contents of the files there are. And a
  directory, by the result of libuv's \<open>opendir\<close>.\<close>

definition read_file :: "(string \<Rightarrow> string option) \<Rightarrow> string \<Rightarrow> string option" where
  "read_file fopen path =
     (case fopen path of
        None \<Rightarrow> None
      | Some contents \<Rightarrow> if contents = [] \<or> length contents > 2 ^ 20 then None else Some contents)"

definition is_dir_exist :: "(string \<Rightarrow> int) \<Rightarrow> string \<Rightarrow> bool" where
  "is_dir_exist opendir dir \<longleftrightarrow> opendir dir = 0"

section \<open>Options\<close>

text \<open>An option table after parsing: how often each option was given and with what, how many errors, and
  the texts argtable makes for help and for errors. \<open>ap_null\<close> is a table that could not be allocated.\<close>

record arg_parsed =
  ap_null :: bool
  ap_count :: "string \<Rightarrow> nat"
  ap_sval :: "string \<Rightarrow> string"
  ap_ival :: "string \<Rightarrow> int"
  ap_nerrors :: nat
  ap_help_msg :: string
  ap_error_msg :: string

type_synonym arg_parse = "string \<Rightarrow> string list \<Rightarrow> arg_parsed"

text \<open>A value that was not given is what the table held before; argtable starts a string as empty.\<close>

definition arg_str0 :: "arg_parsed \<Rightarrow> string \<Rightarrow> string \<Rightarrow> string" where
  "arg_str0 p name preset = (if ap_count p name = 0 then preset else ap_sval p name)"

definition arg_make_syntax_err_help_msg :: "arg_parsed \<Rightarrow> nat \<Rightarrow> (int \<times> string) option" where
  "arg_make_syntax_err_help_msg p help =
     (if help > 0 then Some (0, ap_help_msg p)
      else if ap_nerrors p > 0 then Some (1, ap_error_msg p)
      else None)"

section \<open>The commands\<close>

datatype launch =
  Launch_core core_config string
| Launch_wifi string string u32 string string string
| Launch_ble string string u32 string string "string option"
| Launch_dm string string string
| Launch_show string

text \<open>The next step of a command: its end, or a call of another command's procedure, for its result or,
  from \<open>help\<close>, for the text only.\<close>

datatype cli_step = Exit int string | Run launch | Crash | Call string "string list" | Call_help string

definition cmd_desc :: "string \<Rightarrow> string" where
  "cmd_desc name =
     (if name = ''help'' then ''output usage information''
      else if name = ''bm'' then ''launch binding map commands''
      else if name = ''sm'' then ''launch service module commands''
      else if name = ''han'' then ''launch han interface module commands''
      else if name = ''info'' then ''output system information''
      else if name = ''dm'' then ''launch device manifest service''
      else if name = ''show'' then ''output binding map information''
      else if name = ''core'' then ''launch core service module''
      else if name = ''ble'' then ''launch BLE interface module''
      else if name = ''wifi'' then ''launch WiFi interface module''
      else [])"

text \<open>What every command with an option table does first.\<close>

definition with_options :: "arg_parsed \<Rightarrow> (arg_parsed \<Rightarrow> cli_step) \<Rightarrow> cli_step" where
  "with_options p f =
     (if ap_null p then Exit 1 []
      else case arg_make_syntax_err_help_msg p (ap_count p ''help'') of
             Some (exitcode, msg) \<Rightarrow> Exit exitcode msg
           | None \<Rightarrow> f p)"

definition core_config_of :: "arg_parsed \<Rightarrow> core_config" where
  "core_config_of p =
     \<lparr>cc_pub_url = arg_str0 p ''pub-url'' HES_HUB_PUB_URL,
      cc_sub_url = arg_str0 p ''sub-url'' HES_HUB_SUB_URL,
      cc_bm_xml = arg_str0 p ''bm-xml'' [],
      cc_auth_policy = (let f = arg_str0 p ''auth-policy'' [] in if f \<noteq> [] then Some f else None),
      cc_no_authz = (ap_count p ''no-authz'' > 0),
      cc_identity_path = Some (arg_str0 p ''identity'' []),
      cc_manifest_rep_url = Some (arg_str0 p ''svc-rep'' HES_MANIFEST_REP_URL),
      cc_ntp_servers = Some (arg_str0 p ''ntp-servers'' []),
      cc_tz_name = Some (arg_str0 p ''time-zone'' []),
      cc_tz_urls = Some (arg_str0 p ''tz-urls'' []),
      cc_ntp_enabled = (ap_count p ''no-ntp'' = 0),
      cc_tz_enabled = (ap_count p ''no-tz'' = 0)\<rparr>"

definition cmd_sm_core_proc :: "arg_parse \<Rightarrow> string list \<Rightarrow> cli_step" where
  "cmd_sm_core_proc parse argv =
     with_options (parse ''core'' argv) (\<lambda>p. Run (Launch_core (core_config_of p) (arg_str0 p ''app'' [])))"

text \<open>\<open>(uint32_t)strtoul(s, NULL, 10)\<close>.\<close>

definition strtoul_u32 :: "string \<Rightarrow> u32" where
  "strtoul_u32 s =
     (let (neg, t) = sign_split (dropWhile c_isspace s);
          v = digits_val (takeWhile c_isdigit t)
      in if v \<ge> 2 ^ 64 then word_of_int (2 ^ 64 - 1) else word_of_int (if neg then - v else v))"

definition cmd_han_wifi_proc :: "arg_parse \<Rightarrow> string list \<Rightarrow> cli_step" where
  "cmd_han_wifi_proc parse argv =
     with_options (parse ''wifi'' argv)
       (\<lambda>p. Run (Launch_wifi (arg_str0 p ''svc-rep'' HES_MANIFEST_REP_URL) (arg_str0 p ''svc-pub'' HES_MANIFEST_PUB_URL)
              (strtoul_u32 (arg_str0 p ''module-ref'' ''2'')) (arg_str0 p ''hub-pub'' HES_HUB_PUB_URL)
              (arg_str0 p ''hub-sub'' HES_HUB_SUB_URL) (arg_str0 p ''bulb-ip'' ''192.168.1.142'')))"

definition cmd_han_ble_proc :: "arg_parse \<Rightarrow> string list \<Rightarrow> cli_step" where
  "cmd_han_ble_proc parse argv =
     with_options (parse ''ble'' argv)
       (\<lambda>p. Run (Launch_ble (arg_str0 p ''svc-rep'' HES_MANIFEST_REP_URL) (arg_str0 p ''svc-pub'' HES_MANIFEST_PUB_URL)
              (word_of_int (if ap_count p ''module-ref'' = 0 then 1 else ap_ival p ''module-ref''))
              (arg_str0 p ''hub-pub'' HES_HUB_PUB_URL) (arg_str0 p ''hub-sub'' HES_HUB_SUB_URL)
              (if ap_count p ''mac-override'' = 0 then None else Some (ap_sval p ''mac-override''))))"

definition cmd_dm_proc :: "arg_parse \<Rightarrow> app_info \<Rightarrow> string list \<Rightarrow> cli_step" where
  "cmd_dm_proc parse info argv =
     with_options (parse ''dm'' argv)
       (\<lambda>p. Run (Launch_dm (arg_str0 p ''profile'' (ai_profile_path info)) (arg_str0 p ''rep'' (ai_default_rep_url info))
              (arg_str0 p ''pub'' (ai_default_pub_url info))))"

definition cmd_bm_show_proc :: "arg_parse \<Rightarrow> string list \<Rightarrow> cli_step" where
  "cmd_bm_show_proc parse argv =
     with_options (parse ''show'' argv)
       (\<lambda>p. if ap_count p ''command'' = 0 then Exit 1 [] else Run (Launch_show (ap_sval p ''command'')))"

definition info_line :: "string \<Rightarrow> string \<Rightarrow> string" where
  "info_line name v = name @ '' = '' @ quoted v @ newline"

definition cmd_info_proc :: "arg_parse \<Rightarrow> app_info \<Rightarrow> string list \<Rightarrow> cli_step" where
  "cmd_info_proc parse info argv =
     with_options (parse ''info'' argv)
       (\<lambda>p. Exit 0
          (info_line ''exe_path       '' (ai_exe_path info) @ info_line ''home           '' (ai_home info)
           @ info_line ''cwd            '' (ai_cwd info) @ info_line ''tmp_dir        '' (ai_tmp_dir info)
           @ info_line ''data_home      '' (ai_data_home info) @ info_line ''state_home     '' (ai_state_home info)
           @ info_line ''cache_home     '' (ai_cache_home info) @ info_line ''config_dir     '' (ai_config_dir info)
           @ info_line ''config_path    '' (ai_config_path info) @ info_line ''profile_path   '' (ai_profile_path info)
           @ info_line ''default_rep_url'' (ai_default_rep_url info)
           @ info_line ''default_pub_url'' (ai_default_pub_url info)))"

text \<open>\<open>"  %-*s  %s\n"\<close>, for the registered commands in alphabetical order.\<close>

definition help_line :: "nat \<Rightarrow> string \<Rightarrow> string" where
  "help_line width name =
     ''  '' @ name @ replicate (width - length name) (CHR '' '') @ ''  '' @ cmd_desc name @ newline"

definition cmd_help_proc :: "arg_parse \<Rightarrow> string list \<Rightarrow> string \<Rightarrow> string list \<Rightarrow> cli_step" where
  "cmd_help_proc parse regs get_help_msg argv =
     with_options (parse ''help'' argv)
       (\<lambda>p. if ap_count p ''command'' = 0 then
              Exit 0
                (''Usage:'' @ newline @ ''  ohmg [global options] <command> [options] [args]'' @ newline @ newline
                 @ ''Available commands:'' @ newline
                 @ concat (map (help_line (fold max (map length regs) 0)) (sort regs))
                 @ newline @ ''Type '' @ quoted ''ohmg help <command>'' @ '' for help on a specific command.'' @ newline)
            else
              let name = ap_sval p ''command''
              in if name \<notin> set regs then Exit 1 (''Unknown command: '' @ name @ newline @ get_help_msg)
                 else Call_help name)"

section \<open>Dispatch\<close>

text \<open>\<open>arg_cmd_register\<close> replaces a command of the same name; \<open>arg_cmd_dispatch\<close> asserts that the name
  is registered, and dereferences the missing entry when assertions are compiled out.\<close>

definition arg_cmd_register :: "string \<Rightarrow> string list \<Rightarrow> string list" where
  "arg_cmd_register name regs = (if name \<in> set regs then regs else regs @ [name])"

definition arg_cmd_dispatch :: "string list \<Rightarrow> string \<Rightarrow> string list \<Rightarrow> cli_step" where
  "arg_cmd_dispatch regs name argv = (if name \<in> set regs then Call name argv else Crash)"

text \<open>A command that has subcommands.\<close>

definition cmd_group_proc ::
    "string list \<Rightarrow> string \<Rightarrow> string list \<Rightarrow> string list \<Rightarrow> string list \<times> cli_step" where
  "cmd_group_proc subs get_help_msg argv regs =
     (if length argv = 1 then (regs, Exit 1 get_help_msg)
      else
        let regs = fold arg_cmd_register subs regs
        in (regs, arg_cmd_dispatch regs (argv ! 1) (tl argv)))"

definition cmd_bm_proc :: "string \<Rightarrow> string list \<Rightarrow> string list \<Rightarrow> string list \<times> cli_step" where
  "cmd_bm_proc = cmd_group_proc [''show'']"

definition cmd_sm_proc :: "string \<Rightarrow> string list \<Rightarrow> string list \<Rightarrow> string list \<times> cli_step" where
  "cmd_sm_proc = cmd_group_proc [''core'']"

definition cmd_han_proc :: "string \<Rightarrow> string list \<Rightarrow> string list \<Rightarrow> string list \<times> cli_step" where
  "cmd_han_proc = cmd_group_proc [''ble'', ''wifi'']"

record cli_env =
  ce_parse :: arg_parse
  ce_info :: app_info
  ce_get_help_msg :: string

definition cmd_proc :: "cli_env \<Rightarrow> string \<Rightarrow> string list \<Rightarrow> string list \<Rightarrow> string list \<times> cli_step" where
  "cmd_proc ce name argv regs =
     (if name = ''help'' then (regs, cmd_help_proc (ce_parse ce) regs (ce_get_help_msg ce) argv)
      else if name = ''bm'' then cmd_bm_proc (ce_get_help_msg ce) argv regs
      else if name = ''sm'' then cmd_sm_proc (ce_get_help_msg ce) argv regs
      else if name = ''han'' then cmd_han_proc (ce_get_help_msg ce) argv regs
      else if name = ''info'' then (regs, cmd_info_proc (ce_parse ce) (ce_info ce) argv)
      else if name = ''dm'' then (regs, cmd_dm_proc (ce_parse ce) (ce_info ce) argv)
      else if name = ''show'' then (regs, cmd_bm_show_proc (ce_parse ce) argv)
      else if name = ''core'' then (regs, cmd_sm_core_proc (ce_parse ce) argv)
      else if name = ''ble'' then (regs, cmd_han_ble_proc (ce_parse ce) argv)
      else if name = ''wifi'' then (regs, cmd_han_wifi_proc (ce_parse ce) argv)
      else (regs, Crash))"

datatype cli_end = Ended int string | Running launch | Aborted

text \<open>The calls a command makes, one after the other; the fuel is the number of calls. \<open>help\<close> returns 0
  whatever the command it calls returns.\<close>

fun cmd_run :: "nat \<Rightarrow> cli_env \<Rightarrow> string list \<Rightarrow> cli_step \<Rightarrow> cli_end option" where
  "cmd_run fuel ce regs (Exit c msg) = Some (Ended c msg)"
| "cmd_run fuel ce regs (Run l) = Some (Running l)"
| "cmd_run fuel ce regs Crash = Some Aborted"
| "cmd_run 0 ce regs (Call name argv) = None"
| "cmd_run (Suc fuel) ce regs (Call name argv) =
     (let (regs, s) = cmd_proc ce name argv regs in cmd_run fuel ce regs s)"
| "cmd_run 0 ce regs (Call_help name) = None"
| "cmd_run (Suc fuel) ce regs (Call_help name) =
     (case cmd_run fuel ce regs (Call name [[], name, ''--help'']) of
        Some (Ended c msg) \<Rightarrow> Some (Ended 0 msg)
      | r \<Rightarrow> r)"

section \<open>The entry point\<close>

definition top_commands :: "string list" where
  "top_commands = [''help'', ''bm'', ''sm'', ''han'', ''info'', ''dm'']"

text \<open>The inner loop over the arguments for one name, and the loop over the names; \<open>argc\<close> is the start.\<close>

definition subcmd_scan :: "string list \<Rightarrow> string \<Rightarrow> nat \<Rightarrow> nat" where
  "subcmd_scan argv subcmd best =
     fold (\<lambda>i best. if argv ! i = subcmd \<and> i < best then i else best) [1..<length argv] best"

definition arg_cmd_find_subcmd_index :: "string list \<Rightarrow> string list \<Rightarrow> nat option" where
  "arg_cmd_find_subcmd_index regs argv =
     (let i = fold (subcmd_scan argv) regs (length argv) in if i = length argv then None else Some i)"

datatype log_level = LOG_TRACE | LOG_DEBUG | LOG_INFO | LOG_WARN | LOG_ERROR

definition app_log_level :: "arg_parsed \<Rightarrow> log_level" where
  "app_log_level p =
     (let v = ap_count p ''verbose''
      in if v > 0 then (if v = 1 then LOG_INFO else if v = 2 then LOG_DEBUG else LOG_TRACE)
         else if ap_count p ''quiet'' > 0 then LOG_ERROR else LOG_WARN)"

text \<open>\<open>options\<close> parses the table of the global options. The level logging is set to is part of the result, when it is reached.\<close>

definition app_main ::
    "nat \<Rightarrow> host \<Rightarrow> (string list \<Rightarrow> arg_parsed) \<Rightarrow> arg_parse \<Rightarrow> string \<Rightarrow> string list
       \<Rightarrow> (cli_end \<times> log_level option) option" where
  "app_main fuel ho options parse get_help_msg argv =
     (case get_app_info ho of
        None \<Rightarrow> Some (Ended 1 [], None)
      | Some info \<Rightarrow>
          if length argv = 1 then Some (Ended 1 get_help_msg, None)
          else if ap_null (options []) then Some (Ended 1 [], None)
          else
            case arg_cmd_find_subcmd_index top_commands argv of
              None \<Rightarrow> Some (Ended 1 get_help_msg, None)
            | Some i \<Rightarrow>
                (let p = options (take i argv)
                 in case arg_make_syntax_err_help_msg p 0 of
                      Some (exitcode, msg) \<Rightarrow> Some (Ended exitcode msg, None)
                    | None \<Rightarrow>
                        map_option (\<lambda>e. (e, Some (app_log_level p)))
                          (cmd_run fuel \<lparr>ce_parse = parse, ce_info = info, ce_get_help_msg = get_help_msg\<rparr> top_commands
                             (arg_cmd_dispatch top_commands (argv ! i) (drop i argv)))))"

end
