(* ===== verification/CliProps.thy ===== *)
theory CliProps
  imports Cli
begin

text \<open>
  What the command line makes of its arguments: the command it finds, that dispatching ends, where it
  crashes, and that the gates of the gateway are as the operator's options say.
\<close>

section \<open>Finding the command\<close>

lemma Min_insert_min: "finite A \<Longrightarrow> Min (insert (min x b) A) = min x (Min (insert b A))" for b :: nat
  by (cases "A = {}") (simp_all add: min.assoc)

lemma fold_least:
  "fold (\<lambda>i best. if P i \<and> i < best then i else best) xs (best :: nat) = Min (insert best {i \<in> set xs. P i})"
proof (induction xs arbitrary: best)
  case (Cons x xs)
  let ?A = "{i \<in> set xs. P i}"
  show ?case
  proof (cases "P x")
    case True
    then have set: "insert best {i \<in> set (x # xs). P i} = insert x (insert best ?A)" by auto
    have "Min (insert x (insert best ?A)) = min x (Min (insert best ?A))" by (rule Min_insert) simp_all
    moreover have "(if P x \<and> x < best then x else best) = min x best" using True by simp
    ultimately show ?thesis
      using Cons[of "min x best"] Min_insert_min[of ?A x best] unfolding set by simp
  next
    case False
    then have "{i \<in> set (x # xs). P i} = ?A" by auto
    then show ?thesis using Cons[of best] False by simp
  qed
qed simp

lemma fold_scans:
  "fold (subcmd_scan argv) names best = Min (insert best {i. 1 \<le> i \<and> i < length argv \<and> argv ! i \<in> set names})"
proof (induction names arbitrary: best)
  case (Cons name names)
  let ?S = "\<lambda>ns. {i. 1 \<le> i \<and> i < length argv \<and> argv ! i \<in> ns}"
  have fin: "finite (?S ns)" for ns by simp
  have one: "subcmd_scan argv name best = Min (insert best (?S {name}))"
    unfolding subcmd_scan_def fold_least by (rule arg_cong[of _ _ "\<lambda>A. Min (insert best A)"]) auto
  have "Min (insert (Min (insert best A)) B) = Min (insert best (A \<union> B))" if "finite A" "finite B" for A B
    using that by (cases "A = {}"; cases "B = {}") (simp_all add: Min_Un ac_simps)
  from this[OF fin fin, of "{name}" "set names"] have "fold (subcmd_scan argv) (name # names) best
      = Min (insert best (?S {name} \<union> ?S (set names)))"
    by (simp add: Cons one)
  moreover have "?S {name} \<union> ?S (set names) = ?S (set (name # names))" by auto
  ultimately show ?case by simp
qed simp

text \<open>The command is the first argument that is the name of one - also when that argument is the value
  of a global option before it.\<close>

lemma find_subcmd_iff:
  "arg_cmd_find_subcmd_index regs argv = Some i \<longleftrightarrow>
     1 \<le> i \<and> i < length argv \<and> argv ! i \<in> set regs \<and> (\<forall>j. 1 \<le> j \<and> j < i \<longrightarrow> argv ! j \<notin> set regs)"
proof -
  define S where "S = {i. 1 \<le> i \<and> i < length argv \<and> argv ! i \<in> set regs}"
  have fin: "finite S" by (simp add: S_def)
  have find: "arg_cmd_find_subcmd_index regs argv
      = (if Min (insert (length argv) S) = length argv then None else Some (Min (insert (length argv) S)))"
    unfolding arg_cmd_find_subcmd_index_def fold_scans S_def Let_def ..
  show ?thesis
  proof (cases "S = {}")
    case True
    have "arg_cmd_find_subcmd_index regs argv = None" unfolding find True by simp
    then show ?thesis using True by (auto simp: S_def)
  next
    case False
    then have m: "Min S < length argv" using Min_in[OF fin False] by (simp add: S_def)
    then have "arg_cmd_find_subcmd_index regs argv = Some (Min S)"
      unfolding find Min_insert[OF fin False] by (simp add: min_def)
    moreover have "Min S = i \<longleftrightarrow> i \<in> S \<and> (\<forall>j \<in> S. i \<le> j)"
      using fin False by (auto simp: Min_eq_iff)
    ultimately show ?thesis by (auto simp: S_def not_less[symmetric] simp del: not_less)
  qed
qed

lemma option_value_taken:
  "arg_cmd_find_subcmd_index top_commands [''ohmg'', ''--config'', ''info'', ''sm'', ''core''] = Some 2"
  by code_simp

section \<open>Dispatch\<close>

text \<open>What the code relies on in argtable: \<open>--help\<close> is counted, by every table.\<close>

definition counts_help :: "arg_parse \<Rightarrow> bool" where
  "counts_help parse \<longleftrightarrow> (\<forall>name. ap_count (parse name [[], name, ''--help'']) ''help'' > 0)"

definition groups :: "string list" where
  "groups = [''bm'', ''sm'', ''han'']"

lemma help_stops:
  assumes "counts_help parse"
  shows "\<exists>c msg. with_options (parse name [[], name, ''--help'']) f = Exit c msg"
  using assms by (simp add: with_options_def arg_make_syntax_err_help_msg_def counts_help_def)

lemma register_set [simp]:
  "set (arg_cmd_register x regs) = insert x (set regs)"
  "set (fold arg_cmd_register subs regs) = set regs \<union> set subs"
proof -
  show one: "set (arg_cmd_register x regs) = insert x (set regs)" for x regs
    by (auto simp: arg_cmd_register_def)
  show "set (fold arg_cmd_register subs regs) = set regs \<union> set subs"
    by (induction subs arbitrary: regs) (simp_all add: one)
qed

definition subcommands :: "string \<Rightarrow> string list" where
  "subcommands name =
     (if name = ''bm'' then [''show''] else if name = ''sm'' then [''core'']
      else if name = ''han'' then [''ble'', ''wifi''] else [])"

text \<open>A command either has subcommands or an option table.\<close>

lemma group_proc:
  "name \<in> set groups \<Longrightarrow> cmd_proc ce name argv regs = cmd_group_proc (subcommands name) (ce_get_help_msg ce) argv regs"
  by (auto simp: groups_def cmd_proc_def subcommands_def cmd_bm_proc_def cmd_sm_proc_def cmd_han_proc_def)

lemma with_options_procs:
  "\<exists>f. cmd_help_proc parse regs msg argv = with_options (parse ''help'' argv) f"
  "\<exists>f. cmd_info_proc parse info argv = with_options (parse ''info'' argv) f"
  "\<exists>f. cmd_dm_proc parse info argv = with_options (parse ''dm'' argv) f"
  "\<exists>f. cmd_bm_show_proc parse argv = with_options (parse ''show'' argv) f"
  "\<exists>f. cmd_sm_core_proc parse argv = with_options (parse ''core'' argv) f"
  "\<exists>f. cmd_han_ble_proc parse argv = with_options (parse ''ble'' argv) f"
  "\<exists>f. cmd_han_wifi_proc parse argv = with_options (parse ''wifi'' argv) f"
  unfolding cmd_help_proc_def cmd_info_proc_def cmd_dm_proc_def cmd_bm_show_proc_def cmd_sm_core_proc_def
    cmd_han_ble_proc_def cmd_han_wifi_proc_def by (rule exI, rule refl)+

lemma leaf_proc:
  assumes "name \<notin> set groups"
  shows "(\<exists>f. cmd_proc ce name argv regs = (regs, with_options (ce_parse ce name argv) f))
    \<or> cmd_proc ce name argv regs = (regs, Crash)"
proof -
  have "name \<noteq> ''bm''" "name \<noteq> ''sm''" "name \<noteq> ''han''" using assms by (auto simp: groups_def)
  then consider "name \<in> {''help'', ''info'', ''dm'', ''show'', ''core'', ''ble'', ''wifi''}"
    | "cmd_proc ce name argv regs = (regs, Crash)"
    by (cases "name \<in> {''help'', ''info'', ''dm'', ''show'', ''core'', ''ble'', ''wifi''}") (simp_all add: cmd_proc_def)
  then show ?thesis
  proof cases
    case 1
    then show ?thesis using with_options_procs by (elim insertE emptyE) (simp_all add: cmd_proc_def)
  qed simp
qed

text \<open>Asking for the help of a command shows it, or crashes: a command with subcommands takes its own name
  for one of them, and then the option.\<close>

lemma help_of:
  assumes "counts_help (ce_parse ce)" "''--help'' \<notin> set regs" "name \<in> set regs"
    and "cmd_run fuel ce regs (Call name [[], name, ''--help'']) = Some e"
  shows "if name \<in> set groups then e = Aborted else (\<exists>c msg. e = Ended c msg) \<or> e = Aborted"
proof (cases "name \<in> set groups")
  case False
  obtain k where k: "fuel = Suc k" using assms(4) by (cases fuel) auto
  from leaf_proc[OF False, of ce "[[], name, ''--help'']" regs] show ?thesis
  proof
    assume "\<exists>f. cmd_proc ce name [[], name, ''--help''] regs
      = (regs, with_options (ce_parse ce name [[], name, ''--help'']) f)"
    then obtain c msg where "cmd_proc ce name [[], name, ''--help''] regs = (regs, Exit c msg)"
      using help_stops[OF assms(1), of name] by metis
    then show ?thesis using assms(4) k False by auto
  qed (use assms(4) k False in simp)
next
  case True
  have sub: "''--help'' \<notin> set (subcommands name)" by (simp add: subcommands_def)
  obtain k where k: "fuel = Suc k" using assms(4) by (cases fuel) auto
  have call: "cmd_run k ce (fold arg_cmd_register (subcommands name) regs) (Call name [name, ''--help'']) = Some e"
    using assms(3,4) by (simp add: k group_proc[OF True] cmd_group_proc_def arg_cmd_dispatch_def)
  then obtain j where "k = Suc j" by (cases k) auto
  then show ?thesis
    using call assms(2) sub True by (simp add: group_proc[OF True] cmd_group_proc_def arg_cmd_dispatch_def)
qed

lemmas proc_defs = cmd_proc_def cmd_bm_proc_def cmd_sm_proc_def cmd_han_proc_def cmd_group_proc_def
  arg_cmd_dispatch_def cmd_help_proc_def cmd_info_proc_def cmd_dm_proc_def cmd_bm_show_proc_def
  cmd_sm_core_proc_def cmd_han_ble_proc_def cmd_han_wifi_proc_def with_options_def

lemma leaf_no_call:
  "name \<notin> set groups \<Longrightarrow> cmd_proc ce name argv regs = (regs', Call n b) \<Longrightarrow> False"
  by (auto simp: proc_defs Let_def groups_def split: if_splits option.splits)

lemma leaf_call_help:
  "name \<notin> set groups \<Longrightarrow> cmd_proc ce name argv regs = (regs', Call_help n) \<Longrightarrow> regs' = regs"
  "name \<notin> set groups \<Longrightarrow> cmd_proc ce name argv regs = (regs', Call_help n) \<Longrightarrow> n \<in> set regs"
  by (auto simp: proc_defs Let_def groups_def split: if_splits option.splits)

lemma help_returns:
  assumes "counts_help (ce_parse ce)" "''--help'' \<notin> set regs" "name \<in> set regs"
  shows "cmd_run (Suc (Suc fuel)) ce regs (Call name [[], name, ''--help'']) \<noteq> None"
proof (cases "name \<in> set groups")
  case True
  then show ?thesis
    using assms(2,3) by (simp add: group_proc[OF True] cmd_group_proc_def arg_cmd_dispatch_def subcommands_def)
next
  case False
  then show ?thesis
    using leaf_proc[OF False, of ce "[[], name, ''--help'']" regs] help_stops[OF assms(1), of name]
    by (auto simp: Let_def split: prod.splits) (metis cmd_run.simps(1) option.distinct(1))
qed

text \<open>Dispatching ends: each call drops an argument, except for the one that \<open>help\<close> makes.\<close>

lemma dispatch_ends:
  assumes "counts_help (ce_parse ce)" "''--help'' \<notin> set regs" "argv \<noteq> []"
  shows "cmd_run (Suc (Suc (Suc (length argv)))) ce regs (Call name argv) \<noteq> None"
  using assms(2,3)
proof (induction argv arbitrary: regs name)
  case (Cons a argv)
  obtain regs' s where p: "cmd_proc ce name (a # argv) regs = (regs', s)" by fastforce
  show ?case
  proof (cases "name \<in> set groups")
    case True
    then have g: "cmd_group_proc (subcommands name) (ce_get_help_msg ce) (a # argv) regs = (regs', s)"
      using p by (simp add: group_proc[OF True])
    show ?thesis
    proof (cases argv)
      case Nil
      then show ?thesis using g p by (auto simp: cmd_group_proc_def)
    next
      case (Cons b bs)
      then have s: "s = Crash \<or> s = Call b argv" "''--help'' \<notin> set regs'" "argv \<noteq> []"
        using g Cons.prems(1) by (auto simp: cmd_group_proc_def arg_cmd_dispatch_def Let_def subcommands_def split: if_splits)
      then show ?thesis using Cons.IH[OF s(2,3), of b] p by auto
    qed
  next
    case False
    show ?thesis
    proof (cases s)
      case (Call_help n)
      then have r: "regs' = regs" "n \<in> set regs"
        using p leaf_call_help[OF False] by blast+
      have "cmd_run (Suc (Suc (length argv))) ce regs (Call n [[], n, ''--help'']) \<noteq> None"
        by (rule help_returns[OF assms(1) Cons.prems(1) r(2)])
      then show ?thesis
        using p Call_help r(1) by (auto split: option.splits cli_end.splits)
    next
      case (Call n b)
      then show ?thesis using p leaf_no_call[OF False] by blast
    qed (use p in auto)
  qed
qed simp

text \<open>So asking for the help of a command that has subcommands always crashes.\<close>

lemma help_of_group_crashes:
  assumes "get_app_info ho = Some info" "counts_help parse" "\<not> ap_null (options [])"
    and "ap_nerrors (options [''ohmg'']) = 0"
    and "g \<in> set groups" "\<not> ap_null (parse ''help'' [''help'', g])" "ap_nerrors (parse ''help'' [''help'', g]) = 0"
    and "ap_count (parse ''help'' [''help'', g]) ''help'' = 0" "ap_count (parse ''help'' [''help'', g]) ''command'' = 1"
    and "ap_sval (parse ''help'' [''help'', g]) ''command'' = g"
  shows "\<exists>lv. app_main (Suc (Suc (Suc (Suc fuel)))) ho options parse msg [''ohmg'', ''help'', g] = Some (Aborted, lv)"
proof -
  let ?ce = "\<lparr>ce_parse = parse, ce_info = info, ce_get_help_msg = msg\<rparr>"
  have g: "g \<in> set top_commands" using assms(5) by (auto simp: groups_def top_commands_def)
  have sub: "''--help'' \<notin> set top_commands" "''help'' \<in> set top_commands" "''--help'' \<notin> set (subcommands g)"
    by (simp_all add: top_commands_def subcommands_def)
  have i: "arg_cmd_find_subcmd_index top_commands [''ohmg'', ''help'', g] = Some 1"
    unfolding find_subcmd_iff using sub by auto
  have "cmd_proc ?ce ''help'' [''help'', g] top_commands = (top_commands, Call_help g)"
    using assms(6-10) g
    by (simp add: cmd_proc_def cmd_help_proc_def with_options_def arg_make_syntax_err_help_msg_def)
  moreover have "cmd_run (Suc (Suc fuel)) ?ce top_commands (Call g [[], g, ''--help'']) = Some Aborted"
    using g sub by (simp add: group_proc[OF assms(5)] cmd_group_proc_def arg_cmd_dispatch_def)
  ultimately show ?thesis
    using assms(1,3,4) i sub(2)
    by (simp add: app_main_def arg_make_syntax_err_help_msg_def arg_cmd_dispatch_def)
qed

section \<open>The operator's options\<close>

text \<open>A core that is launched has the configuration of an option table, parsed from an end of the
  command line.\<close>

lemma core_proc:
  assumes "cmd_proc ce name argv regs = (regs', Run (Launch_core cfg lua))"
  shows "cfg = core_config_of (ce_parse ce ''core'' argv)" "ap_nerrors (ce_parse ce ''core'' argv) = 0"
    "ap_count (ce_parse ce ''core'' argv) ''help'' = 0"
  using assms
  by (auto simp: proc_defs arg_make_syntax_err_help_msg_def Let_def
      split: if_splits)

definition core_options :: "arg_parse \<Rightarrow> string list \<Rightarrow> core_config \<Rightarrow> bool" where
  "core_options parse args cfg \<longleftrightarrow> cfg = core_config_of (parse ''core'' args) \<and> ap_nerrors (parse ''core'' args) = 0"

lemma launched_options:
  assumes "counts_help (ce_parse ce)" "''--help'' \<notin> set regs" "argv \<noteq> []"
    and "cmd_run fuel ce regs (Call name argv) = Some (Running (Launch_core cfg lua))" "name \<in> set regs"
  shows "\<exists>k. core_options (ce_parse ce) (drop k argv) cfg"
  using assms(2-)
proof (induction fuel arbitrary: regs name argv)
  case 0
  then show ?case by simp
next
  case (Suc fuel)
  obtain regs' s where p: "cmd_proc ce name argv regs = (regs', s)" by fastforce
  then have run: "cmd_run fuel ce regs' s = Some (Running (Launch_core cfg lua))" using Suc.prems(3) by simp
  show ?case
  proof (cases "name \<in> set groups")
    case True
    from p have g: "cmd_group_proc (subcommands name) (ce_get_help_msg ce) argv regs = (regs', s)"
      by (simp add: group_proc[OF True])
    then have two: "length argv \<noteq> 1" using run by (auto simp: cmd_group_proc_def)
    then have tl: "tl argv \<noteq> []" using Suc.prems(2) by (cases argv) auto
    have "argv ! 1 \<in> set regs'" "s = Call (argv ! 1) (tl argv)" "''--help'' \<notin> set regs'"
      using g two run Suc.prems(1) by (auto simp: cmd_group_proc_def arg_cmd_dispatch_def Let_def subcommands_def split: if_splits)
    from Suc.IH[OF this(3) tl run[unfolded this(2)] this(1)] obtain k where
      "core_options (ce_parse ce) (drop k (tl argv)) cfg" by blast
    then have "core_options (ce_parse ce) (drop (Suc k) argv) cfg" by (simp add: drop_Suc)
    then show ?thesis by blast
  next
    case False
    show ?thesis
    proof (cases s)
      case (Run l)
      then have "core_options (ce_parse ce) (drop 0 argv) cfg"
        using run p core_proc by (auto simp: core_options_def)
      then show ?thesis by blast
    next
      case (Call_help n)
      then have r: "regs' = regs" "n \<in> set regs"
        using p leaf_call_help[OF False] by blast+
      obtain j where "fuel = Suc j" using run Call_help by (cases fuel) auto
      then obtain e where "cmd_run j ce regs (Call n [[], n, ''--help'']) = Some e" "\<forall>l. e = Running l \<longrightarrow> l = Launch_core cfg lua"
        "(\<exists>l. e = Running l)"
        using run Call_help r(1) by (auto split: option.splits cli_end.splits)
      with help_of[OF assms(1) Suc.prems(1) r(2) this(1)] show ?thesis by (auto split: if_splits)
    next
      case (Call n a)
      then show ?thesis using p leaf_no_call[OF False] by blast
    qed (use run in auto)
  qed
qed

lemma run_keeps_configured:
  assumes "core_start cw cfg se l = Started h st0" "core_run cw turns st0 = Inr st"
  shows "bm_authz_disabled (s_bm (co_map st)) = cc_no_authz cfg"
    and "sv_auth (co_services st) = auth_service_create (se_files se) (cc_auth_policy cfg)"
    and "\<exists>path id0. cc_identity_path cfg = Some path \<and> load_identity (cw_psa cw) (se_files se) id_zero path = Some id0
      \<and> sv_crypto (co_services st) = crypto_service_set_identity_key crypto_initial_state (is_identity_scalar id0)"
  using configured_run[OF assms] by blast+

lemma no_policy_refuses: "\<not> auth_service_authorize (auth_service_create files None) cred user addr"
  by (simp add: auth_service_create_def load_policy_def auth_empty_def auth_service_authorize_def)

text \<open>C13: The operator decides how the gateway is guarded. When the command line launches the core and it
  runs, the authorization gates are ignored exactly if the option for that was given; decisions are those
  of the policy file that was named, and without one nothing is authorized; and the key the gateway
  proves itself with is that of the identity document that was named.\<close>

theorem operator_decides_gates:
  assumes "counts_help parse"
    and "app_main fuel ho options parse msg argv = Some (Running (Launch_core cfg lua), lv)"
    and "core_start cw cfg se l = Started h st0" "core_run cw turns st0 = Inr st"
  shows "\<exists>k. let p = parse ''core'' (drop k argv); policy = arg_str0 p ''auth-policy'' [] in
     ap_nerrors p = 0
     \<and> (bm_authz_disabled (s_bm (co_map st)) \<longleftrightarrow> ap_count p ''no-authz'' > 0)
     \<and> sv_auth (co_services st) = auth_service_create (se_files se) (if policy \<noteq> [] then Some policy else None)
     \<and> (ap_count p ''auth-policy'' = 0
          \<longrightarrow> (\<forall>cred user addr. \<not> auth_service_authorize (sv_auth (co_services st)) cred user addr))
     \<and> (\<exists>id0. load_identity (cw_psa cw) (se_files se) id_zero (arg_str0 p ''identity'' []) = Some id0
          \<and> sv_crypto (co_services st) = crypto_service_set_identity_key crypto_initial_state (is_identity_scalar id0))"
proof -
  obtain info where info: "get_app_info ho = Some info"
    using assms(2) by (cases "get_app_info ho") (simp_all add: app_main_def)
  define ce where "ce = \<lparr>ce_parse = parse, ce_info = info, ce_get_help_msg = msg\<rparr>"
  obtain i where i: "arg_cmd_find_subcmd_index top_commands argv = Some i"
    "cmd_run fuel ce top_commands (arg_cmd_dispatch top_commands (argv ! i) (drop i argv))
       = Some (Running (Launch_core cfg lua))"
    using assms(2) info by (auto simp: app_main_def ce_def Let_def split: option.splits if_splits)
  have arg: "argv ! i \<in> set top_commands" "drop i argv \<noteq> []" using i(1) by (auto simp: find_subcmd_iff)
  have "''--help'' \<notin> set top_commands" by (simp add: top_commands_def)
  then obtain k where "core_options (ce_parse ce) (drop k (drop i argv)) cfg"
    using launched_options[of ce top_commands "drop i argv" fuel "argv ! i" cfg lua] i(2) arg assms(1)
    by (auto simp: arg_cmd_dispatch_def ce_def)
  then have k: "cfg = core_config_of (parse ''core'' (drop (k + i) argv))" "ap_nerrors (parse ''core'' (drop (k + i) argv)) = 0"
    by (simp_all add: core_options_def ce_def)
  have unnamed: "arg_str0 p ''auth-policy'' [] = []" if "ap_count p ''auth-policy'' = 0" for p
    using that by (simp add: arg_str0_def)
  show ?thesis
    using run_keeps_configured[OF assms(3,4)] k(2) unnamed no_policy_refuses
    by (intro exI[of _ "k + i"]) (auto simp: k(1) core_config_of_def Let_def)
qed

section \<open>A command line that launches\<close>

text \<open>A parser of long options: how often one occurs, and the argument after its first occurrence.\<close>

definition long_options :: "string list \<Rightarrow> arg_parsed" where
  "long_options argv =
     \<lparr>ap_null = False, ap_count = (\<lambda>opt. length (filter (\<lambda>a. a = ''--'' @ opt) argv)),
      ap_sval = (\<lambda>opt. case dropWhile (\<lambda>a. a \<noteq> ''--'' @ opt) argv of a # v # _ \<Rightarrow> v | _ \<Rightarrow> []), ap_ival = (\<lambda>_. 0),
      ap_nerrors = 0, ap_help_msg = [], ap_error_msg = []\<rparr>"

definition plain_host :: host where
  "plain_host = \<lparr>ho_exepath = Some ''/usr/bin/ohmg'', ho_homedir = Some ''/root'', ho_cwd = Some ''/'', ho_tmpdir = Some ''/tmp'',
     ho_getenv = (\<lambda>_. None), ho_join = (\<lambda>a b. a @ ''/'' @ b)\<rparr>"

lemma identity_config_starts:
  assumes "cc_identity_path cfg = Some ''id.json''"
  shows "\<exists>h st. core_start sample_cw cfg plain_start () = Started h st"
proof -
  obtain id0 where id0: "load_identity toy_psa sample_identity id_zero ''id.json'' = Some id0"
    using sample_identity_loads by blast
  have key: "is_have_identity_key id0" by (rule load_identity_key[OF id0])
  show ?thesis
    using id0 key assms
    by (simp add: core_start_def core_start_time_def core_start_crypto_def plain_start_def sample_cw_def id_service_create_def time_service_create_def
        crypto_service_create_def create_objects_outcome hes_bus_hub_open_def call_def run_def core_assemble_def
        cell_state_def id_service_export_identity_key_def Let_def split: prod.split)
qed

theorem operator_decides_gates_witness:
  "\<exists>cfg lua lv h st. app_main 2 plain_host long_options (\<lambda>_. long_options) []
        [''ohmg'', ''sm'', ''core'', ''--identity'', ''id.json''] = Some (Running (Launch_core cfg lua), lv)
     \<and> core_start sample_cw cfg plain_start () = Started h st
     \<and> \<not> auth_service_authorize (sv_auth (co_services st)) (Some ''x'') (Some ''u'') (Some ''/lx/a'')"
proof -
  let ?argv = "[''ohmg'', ''sm'', ''core'', ''--identity'', ''id.json'']"
  let ?core = "long_options [''core'', ''--identity'', ''id.json'']"
  obtain info where info: "get_app_info plain_host = Some info"
    by (simp add: get_app_info_def plain_host_def get_config_dir_def get_config_path_def get_cache_dir_def fitted_def
        hes_strlcpy_id)
  have find: "arg_cmd_find_subcmd_index top_commands ?argv = Some 1" by code_simp
  have global: "arg_make_syntax_err_help_msg (long_options xs) 0 = None" for xs
    by (simp add: long_options_def arg_make_syntax_err_help_msg_def)
  have opt: "arg_str0 ?core ''identity'' [] = ''id.json''" by (simp add: long_options_def arg_str0_def)
  have parsed: "with_options ?core f = f ?core" for f
    by (simp add: with_options_def arg_make_syntax_err_help_msg_def long_options_def)
  have sm: "''sm'' \<in> set top_commands" by (simp add: top_commands_def)
  let ?ce = "\<lparr>ce_parse = \<lambda>_. long_options, ce_info = info, ce_get_help_msg = []\<rparr>"
  have run: "cmd_run 2 ?ce top_commands (Call ''sm'' [''sm'', ''core'', ''--identity'', ''id.json''])
      = Some (Running (Launch_core (core_config_of ?core) (arg_str0 ?core ''app'' [])))"
    by (simp add: numeral_2_eq_2 cmd_proc_def cmd_sm_proc_def cmd_group_proc_def arg_cmd_dispatch_def
        cmd_sm_core_proc_def parsed)
  have "\<exists>lv. app_main 2 plain_host long_options (\<lambda>_. long_options) [] ?argv
      = Some (Running (Launch_core (core_config_of ?core) (arg_str0 ?core ''app'' [])), lv)"
    using run sm by (simp add: app_main_def info find global arg_cmd_dispatch_def long_options_def[of "[]"])
  then obtain lv where m: "app_main 2 plain_host long_options (\<lambda>_. long_options) [] ?argv
      = Some (Running (Launch_core (core_config_of ?core) (arg_str0 ?core ''app'' [])), lv)" by blast
  obtain h st where s: "core_start sample_cw (core_config_of ?core) plain_start () = Started h st"
    using identity_config_starts[of "core_config_of ?core"] opt by (auto simp: core_config_of_def)
  have counted: "counts_help (\<lambda>_. long_options)" by (simp add: counts_help_def long_options_def)
  have "core_run sample_cw [] st = Inr st" by simp
  from operator_decides_gates[OF counted m s this] obtain k where
    "ap_count (long_options (drop k ?argv)) ''auth-policy'' = 0
      \<longrightarrow> (\<forall>cred user addr. \<not> auth_service_authorize (sv_auth (co_services st)) cred user addr)"
    unfolding Let_def by (elim exE conjE)
  moreover have "ap_count (long_options (drop k ?argv)) ''auth-policy'' = 0"
    using in_set_dropD[of _ k ?argv] by (auto simp: long_options_def filter_empty_conv)
  ultimately have "\<not> auth_service_authorize (sv_auth (co_services st)) (Some ''x'') (Some ''u'') (Some ''/lx/a'')" by blast
  then show ?thesis using m s by blast
qed

end
