(* ===== verification/Blocks.thy ===== *)
theory Blocks
  imports Prelude
begin

text \<open>
  The C heap as code that can run out of memory sees it: blocks named by the request that obtained
  them, \<open>malloc\<close>, \<open>realloc\<close> and \<open>free\<close>, and operations that thread the heap through. Whether the n-th
  request succeeds is the environment's choice. Writing past a block and freeing a block that is not
  live are faults, not results.

  \<open>gives\<close> is the weakest precondition of an operation: it ends without a fault in a result and a heap
  that satisfy the condition. Its equations are simplification rules.
\<close>

record heap_st =
  hp_ok :: "nat \<Rightarrow> bool"
  hp_next :: nat
  hp_live :: "nat set"

datatype heap_fault = Overrun | Bad_free

text \<open>An operation on a state that extends the heap, and one on the heap alone.\<close>

type_synonym ('s, 'a) heap_op_on = "'s heap_st_scheme \<Rightarrow> heap_fault + ('a \<times> 's heap_st_scheme)"
type_synonym 'a heap_op = "(unit, 'a) heap_op_on"

definition op_return :: "'a \<Rightarrow> ('s, 'a) heap_op_on" where
  "op_return x = (\<lambda>h. Inr (x, h))"

definition op_fault :: "heap_fault \<Rightarrow> ('s, 'a) heap_op_on" where
  "op_fault e = (\<lambda>h. Inl e)"

definition op_bind :: "('s, 'a) heap_op_on \<Rightarrow> ('a \<Rightarrow> ('s, 'b) heap_op_on) \<Rightarrow> ('s, 'b) heap_op_on" where
  "op_bind f g = (\<lambda>h. case f h of Inl e \<Rightarrow> Inl e | Inr (x, h') \<Rightarrow> g x h')"

definition op_malloc :: "('s, nat option) heap_op_on" where
  "op_malloc = (\<lambda>h. let n = hp_next h
     in if hp_ok h n then Inr (Some n, h\<lparr>hp_next := n + 1, hp_live := insert n (hp_live h)\<rparr>)
        else Inr (None, h\<lparr>hp_next := n + 1\<rparr>))"

definition op_free :: "nat \<Rightarrow> ('s, unit) heap_op_on" where
  "op_free b = (\<lambda>h. if b \<in> hp_live h then Inr ((), h\<lparr>hp_live := hp_live h - {b}\<rparr>) else Inl Bad_free)"

text \<open>A \<open>realloc\<close> that fails leaves the old block as it was.\<close>

definition op_realloc :: "nat \<Rightarrow> ('s, nat option) heap_op_on" where
  "op_realloc b = op_bind op_malloc (\<lambda>r.
     case r of None \<Rightarrow> op_return None | Some n \<Rightarrow> op_bind (op_free b) (\<lambda>_. op_return (Some n)))"

section \<open>Weakest preconditions\<close>

definition gives :: "('s, 'a) heap_op_on \<Rightarrow> 's heap_st_scheme \<Rightarrow> ('a \<Rightarrow> 's heap_st_scheme \<Rightarrow> bool) \<Rightarrow> bool" where
  "gives f h Q \<longleftrightarrow> (case f h of Inl e \<Rightarrow> False | Inr (x, h') \<Rightarrow> Q x h')"

lemma gives_return [simp]: "gives (op_return x) h Q = Q x h"
  by (simp add: gives_def op_return_def)

lemma gives_fault [simp]: "\<not> gives (op_fault e) h Q"
  by (simp add: gives_def op_fault_def)

lemma gives_bind [simp]: "gives (op_bind f g) h Q = gives f h (\<lambda>x h'. gives (g x) h' Q)"
  by (auto simp: gives_def op_bind_def split: sum.splits)

lemma gives_malloc [simp]:
  "gives op_malloc h Q =
     (if hp_ok h (hp_next h)
      then Q (Some (hp_next h)) (h\<lparr>hp_next := hp_next h + 1, hp_live := insert (hp_next h) (hp_live h)\<rparr>)
      else Q None (h\<lparr>hp_next := hp_next h + 1\<rparr>))"
  by (simp add: gives_def op_malloc_def Let_def)

lemma gives_free [simp]:
  "gives (op_free b) h Q = (b \<in> hp_live h \<and> Q () (h\<lparr>hp_live := hp_live h - {b}\<rparr>))"
  by (simp add: gives_def op_free_def)

lemma gives_mono: "gives f h P \<Longrightarrow> (\<And>x h'. P x h' \<Longrightarrow> Q x h') \<Longrightarrow> gives f h Q"
  by (auto simp: gives_def split: sum.splits)

lemma gives_conj: "gives f h P \<Longrightarrow> gives f h Q \<Longrightarrow> gives f h (\<lambda>x h'. P x h' \<and> Q x h')"
  by (auto simp: gives_def split: sum.splits)

lemma gives_result: "gives f h Q \<longleftrightarrow> (\<exists>x h'. f h = Inr (x, h') \<and> Q x h')"
  by (auto simp: gives_def split: sum.splits)

section \<open>What an operation keeps\<close>

text \<open>Every live block was handed out by an earlier request. From \<open>h\<close> to \<open>h'\<close> the blocks \<open>B\<close> were
  obtained and nothing else changed hands.\<close>

definition heap_wf :: "'s heap_st_scheme \<Rightarrow> bool" where
  "heap_wf h \<longleftrightarrow> (\<forall>b \<in> hp_live h. b < hp_next h)"

definition obtains_blocks :: "'s heap_st_scheme \<Rightarrow> nat set \<Rightarrow> 's heap_st_scheme \<Rightarrow> bool" where
  "obtains_blocks h B h' \<longleftrightarrow> heap_wf h' \<and> hp_ok h' = hp_ok h \<and> hp_next h \<le> hp_next h'
     \<and> hp_live h' = hp_live h \<union> B \<and> hp_live h \<inter> B = {} \<and> (\<forall>b \<in> B. hp_next h \<le> b)"

lemma obtains_refl: "heap_wf h \<Longrightarrow> obtains_blocks h {} h"
  by (simp add: obtains_blocks_def)

lemma obtains_trans:
  "obtains_blocks h B h1 \<Longrightarrow> obtains_blocks h1 C h2 \<Longrightarrow> obtains_blocks h (B \<union> C) h2"
  by (auto simp: obtains_blocks_def)

lemma obtains_wf: "obtains_blocks h B h' \<Longrightarrow> heap_wf h'"
  by (simp add: obtains_blocks_def)

lemma obtains_ok: "obtains_blocks h B h' \<Longrightarrow> hp_ok h' = hp_ok h"
  by (simp add: obtains_blocks_def)

lemma obtains_live: "obtains_blocks h B h' \<Longrightarrow> b \<in> B \<Longrightarrow> b \<in> hp_live h'"
  by (simp add: obtains_blocks_def)

lemma obtains_failed:
  "obtains_blocks h B h' \<Longrightarrow> obtains_blocks h B (h'\<lparr>hp_next := hp_next h' + 1\<rparr>)"
  by (auto simp: obtains_blocks_def heap_wf_def less_SucI)

lemma obtains_malloc:
  "obtains_blocks h B h' \<Longrightarrow> obtains_blocks h (insert (hp_next h') B)
     (h'\<lparr>hp_next := hp_next h' + 1, hp_live := insert (hp_next h') (hp_live h')\<rparr>)"
  by (auto simp: obtains_blocks_def heap_wf_def less_SucI)

lemma obtains_fresh: "obtains_blocks h B h' \<Longrightarrow> hp_next h' \<notin> B"
  by (auto simp: obtains_blocks_def heap_wf_def less_SucI)

lemma obtains_free:
  "obtains_blocks h B h' \<Longrightarrow> b \<in> B \<Longrightarrow> obtains_blocks h (B - {b}) (h'\<lparr>hp_live := hp_live h' - {b}\<rparr>)"
  by (auto simp: obtains_blocks_def heap_wf_def less_SucI)

text \<open>The same as rules for the three calls, from what has been obtained so far.\<close>

lemma malloc_step:
  assumes "obtains_blocks h B h'"
    and "\<And>n k. hp_ok h n \<Longrightarrow> n \<notin> B \<Longrightarrow> obtains_blocks h (insert n B) k \<Longrightarrow> Q (Some n) k"
    and "\<And>n k. \<not> hp_ok h n \<Longrightarrow> obtains_blocks h B k \<Longrightarrow> Q None k"
  shows "gives op_malloc h' Q"
  using obtains_malloc[OF assms(1)] obtains_failed[OF assms(1)] obtains_fresh[OF assms(1)] assms(2,3)
    obtains_ok[OF assms(1)] by simp

lemma free_step:
  assumes "obtains_blocks h B h'" "b \<in> B" "\<And>k. obtains_blocks h (B - {b}) k \<Longrightarrow> Q () k"
  shows "gives (op_free b) h' Q"
  using obtains_free[OF assms(1,2)] obtains_live[OF assms(1,2)] assms(3) by simp

lemma free_extra:
  assumes "obtains_blocks h C h'" "C = insert b B" "b \<notin> B" "\<And>k. obtains_blocks h B k \<Longrightarrow> Q () k"
  shows "gives (op_free b) h' Q"
  by (rule free_step[OF assms(1)]) (use assms in auto)

lemma free_last:
  assumes "obtains_blocks h {b} h'" "\<And>k. obtains_blocks h {} k \<Longrightarrow> Q () k"
  shows "gives (op_free b) h' Q"
  by (rule free_extra[OF assms(1) refl]) (use assms in auto)

lemma realloc_step:
  assumes "obtains_blocks h B h'" "b \<in> B"
    and "\<And>n k. hp_ok h n \<Longrightarrow> n \<notin> B \<Longrightarrow> obtains_blocks h (insert n (B - {b})) k \<Longrightarrow> Q (Some n) k"
    and "\<And>n k. \<not> hp_ok h n \<Longrightarrow> obtains_blocks h B k \<Longrightarrow> Q None k"
  shows "gives (op_realloc b) h' Q"
proof -
  have swap: "insert n B - {b} = insert n (B - {b})" if "n \<notin> B" for n using that assms(2) by auto
  show ?thesis
    unfolding op_realloc_def gives_bind
    by (rule malloc_step[OF assms(1)])
      (auto intro!: free_step assms(3,4) simp: swap assms(2) simp del: gives_free)
qed

end
