(* ===== verification/QueryStore.thy ===== *)
theory QueryStore
  imports Query Blocks
begin

text \<open>
  The XML query layer (src/src/common/hes_query.c) once more, with its memory: the growing buffer a
  path is translated into, the XPath contexts and results, the handles and lists of handles it gives
  out, and \<open>last_error\<close>. Every request for memory can fail. What is proved is that these operations
  never write past a buffer, that they give back what they do not return, and that what they return is
  what the lookups of theory Query say.

  libxml2 is a parameter here too: the evaluator, the message it leaves after an expression it cannot
  evaluate, and the name of a node. Its contexts, results and documents count as one block each.
\<close>

record xml_lib =
  xl_eval :: xpath
  xl_message :: "string \<Rightarrow> string option"
  xl_name :: "xpath_item \<Rightarrow> string option"

record query_ctx = hes_query_ctx +
  qx_block :: nat
  qx_doc :: nat
  qx_last_error :: string

section \<open>The growing buffer\<close>

text \<open>\<open>out\<close>, its size and what it holds before the NUL. Sizes are computed in \<open>size_t\<close>.\<close>

record strbuf =
  sb_block :: nat
  sb_cap :: nat
  sb_text :: string

definition buf_store :: "strbuf \<Rightarrow> string \<Rightarrow> (bool \<times> strbuf) heap_op" where
  "buf_store buf s =
     (if length (sb_text buf) + length s < sb_cap buf then op_return (True, buf\<lparr>sb_text := sb_text buf @ s\<rparr>)
      else op_fault Overrun)"

definition query_append_n :: "strbuf \<Rightarrow> string \<Rightarrow> (bool \<times> strbuf) heap_op" where
  "query_append_n buf s =
     (let n = length s; len = length (sb_text buf)
      in if (len + n + 1) mod 2 ^ 64 > sb_cap buf
         then let ncap = ((sb_cap buf + n + 1) * 2) mod 2 ^ 64
              in op_bind (op_realloc (sb_block buf)) (\<lambda>tmp.
                   case tmp of
                     None \<Rightarrow> op_return (False, buf)
                   | Some b \<Rightarrow> buf_store (buf\<lparr>sb_block := b, sb_cap := ncap\<rparr>) s)
         else buf_store buf s)"

text \<open>A chain of appends, left at the first that fails; \<open>None\<close> is a check of the code that fails.\<close>

fun append_pieces :: "string option list \<Rightarrow> strbuf \<Rightarrow> (bool \<times> strbuf) heap_op" where
  "append_pieces [] buf = op_return (True, buf)"
| "append_pieces (None # ps) buf = op_return (False, buf)"
| "append_pieces (Some s # ps) buf =
     op_bind (query_append_n buf s) (\<lambda>(ok, buf). if ok then append_pieces ps buf else op_return (False, buf))"

text \<open>The bracketed index goes through \<open>index_buf[32]\<close>.\<close>

definition index_piece :: "int \<Rightarrow> string option" where
  "index_piece idx = (if length (index_text idx) \<ge> 32 then None else Some (index_text idx))"

definition segment_pieces :: "string \<Rightarrow> string \<Rightarrow> string option list" where
  "segment_pieces seg rest =
     (if hd seg = CHR ''@'' then [Some ''@'', Some (tl seg)]
      else if seg = ''text()'' then [Some ''text()'']
      else case segment_index seg rest of
             None \<Rightarrow> [Some seg]
           | Some (b, idx) \<Rightarrow> [Some (take b seg), index_piece idx])"

lemma rest_shorter:
  assumes "dropWhile is_step_sep p \<noteq> []"
  shows "length (dropWhile (\<lambda>c. \<not> is_step_sep c) (dropWhile is_step_sep p)) < length p"
proof -
  obtain c cs where c: "dropWhile is_step_sep p = c # cs" "\<not> is_step_sep c"
    using assms by (metis dropWhile_hd_not list.exhaust)
  then show ?thesis
    using length_dropWhile_le[of is_step_sep p] length_dropWhile_le[of "\<lambda>c. \<not> is_step_sep c" cs] by simp
qed

function translate_loop_mem :: "string \<Rightarrow> bool \<Rightarrow> strbuf \<Rightarrow> (bool \<times> strbuf) heap_op" where
  "translate_loop_mem p first buf =
     (let p = dropWhile is_step_sep p
      in if p = [] then op_return (True, buf)
         else let seg = takeWhile (\<lambda>c. \<not> is_step_sep c) p;
                  rest = dropWhile (\<lambda>c. \<not> is_step_sep c) p
              in op_bind (append_pieces ((if first then [] else [Some ''/'']) @ segment_pieces seg rest) buf)
                   (\<lambda>(ok, buf). if ok then translate_loop_mem rest False buf else op_return (False, buf)))"
  by pat_completeness auto

termination
  by (relation "measure (\<lambda>(p, _, _). length p)") (auto simp: rest_shorter)

declare translate_loop_mem.simps [simp del]

definition translate_path_mem :: "string \<Rightarrow> bool \<Rightarrow> (nat \<times> string) option heap_op" where
  "translate_path_mem path absolute =
     op_bind op_malloc (\<lambda>out.
       case out of
         None \<Rightarrow> op_return None
       | Some b \<Rightarrow>
           op_bind (append_pieces (if absolute then [Some ''/''] else []) \<lparr>sb_block = b, sb_cap = 128, sb_text = []\<rparr>)
             (\<lambda>(ok, buf).
                op_bind (if ok then translate_loop_mem path True buf else op_return (False, buf)) (\<lambda>(ok, buf).
                  if ok then op_return (Some (sb_block buf, sb_text buf))
                  else op_bind (op_free (sb_block buf)) (\<lambda>_. op_return None))))"

section \<open>Evaluating\<close>

definition xpath_result :: "xml_lib \<Rightarrow> query_ctx \<Rightarrow> xml_node option \<Rightarrow> string \<Rightarrow> (nat \<times> xpath_object) option heap_op" where
  "xpath_result xl c node xpath =
     (case xl_eval xl (qc_root c) node xpath of
        None \<Rightarrow> op_return None
      | Some obj \<Rightarrow> op_bind op_malloc (\<lambda>r. op_return (map_option (\<lambda>b. (b, obj)) r)))"

definition eval_error :: "xml_lib \<Rightarrow> string \<Rightarrow> string" where
  "eval_error xl xpath =
     take 255 (case xl_message xl xpath of Some m \<Rightarrow> m | None \<Rightarrow> ''XPath evaluation failed: '' @ xpath)"

definition eval_expr_mem ::
    "xml_lib \<Rightarrow> query_ctx \<Rightarrow> xml_node option \<Rightarrow> string \<Rightarrow> ((nat \<times> xpath_object) option \<times> query_ctx) heap_op" where
  "eval_expr_mem xl c node xpath =
     op_bind op_malloc (\<lambda>xpc.
       case xpc of
         None \<Rightarrow> op_return (None, c)
       | Some b \<Rightarrow>
           op_bind (xpath_result xl c node xpath) (\<lambda>res.
             let c = c\<lparr>qx_last_error := (case res of None \<Rightarrow> eval_error xl xpath | Some _ \<Rightarrow> [])\<rparr>
             in op_bind (op_free b) (\<lambda>_. op_return (res, c))))"

definition eval_mem ::
    "xml_lib \<Rightarrow> query_ctx \<Rightarrow> xml_node option \<Rightarrow> string \<Rightarrow> bool \<Rightarrow> ((nat \<times> xpath_object) option \<times> query_ctx) heap_op" where
  "eval_mem xl c node path absolute =
     op_bind (translate_path_mem path absolute) (\<lambda>xpath.
       case xpath of
         None \<Rightarrow> op_return (None, c)
       | Some (b, x) \<Rightarrow>
           op_bind (eval_expr_mem xl c node x) (\<lambda>r. op_bind (op_free b) (\<lambda>_. op_return r)))"

definition eval_root_mem :: "xml_lib \<Rightarrow> query_ctx \<Rightarrow> string \<Rightarrow> ((nat \<times> xpath_object) option \<times> query_ctx) heap_op" where
  "eval_root_mem xl c path = eval_mem xl c (Some (qc_root c)) path True"

section \<open>Handles\<close>

type_synonym query_elem = "nat \<times> xpath_item"
type_synonym elem_array = "nat \<times> query_elem list"

fun free_elems :: "query_elem list \<Rightarrow> unit heap_op" where
  "free_elems [] = op_return ()"
| "free_elems (e # es) = op_bind (op_free (fst e)) (\<lambda>_. free_elems es)"

text \<open>Filling the array of \<open>slots\<close> pointers that \<open>calloc\<close> gave: a pointer is stored in the next free
  slot and NULL in the one after the last, and a store past the array is a fault.\<close>

fun make_elems :: "nat \<Rightarrow> xpath_item list \<Rightarrow> query_elem list \<Rightarrow> query_elem list option heap_op" where
  "make_elems slots [] es = (if length es < slots then op_return (Some es) else op_fault Overrun)"
| "make_elems slots (i # is) es =
     (if length es < slots
      then op_bind op_malloc (\<lambda>e.
             case e of
               None \<Rightarrow> op_bind (free_elems es) (\<lambda>_. op_return None)
             | Some b \<Rightarrow> make_elems slots is (es @ [(b, i)]))
      else op_fault Overrun)"

text \<open>\<open>_handle_list\<close> with what it stores in \<open>*count\<close>; it frees the result object on every way out.\<close>

definition handle_list_mem :: "(nat \<times> xpath_object) option \<Rightarrow> (elem_array option \<times> nat) heap_op" where
  "handle_list_mem res =
     (case res of
        None \<Rightarrow> op_return (None, 0)
      | Some (r, obj) \<Rightarrow>
          (case handle_list (Some obj) of
             [] \<Rightarrow> op_bind (op_free r) (\<lambda>_. op_return (None, 0))
           | items \<Rightarrow>
               op_bind op_malloc (\<lambda>arr.
                 case arr of
                   None \<Rightarrow> op_bind (op_free r) (\<lambda>_. op_return (None, 0))
                 | Some a \<Rightarrow>
                     op_bind (make_elems (length items + 1) items []) (\<lambda>es.
                       case es of
                         None \<Rightarrow> op_bind (op_free a) (\<lambda>_. op_bind (op_free r) (\<lambda>_. op_return (None, 0)))
                       | Some es \<Rightarrow> op_bind (op_free r) (\<lambda>_. op_return (Some (a, es), length es))))))"

definition query_elem_list_free :: "elem_array option \<Rightarrow> unit heap_op" where
  "query_elem_list_free l =
     (case l of None \<Rightarrow> op_return () | Some (a, es) \<Rightarrow> op_bind (free_elems es) (\<lambda>_. op_free a))"

definition query_elem_free :: "query_elem option \<Rightarrow> unit heap_op" where
  "query_elem_free e = (case e of None \<Rightarrow> op_return () | Some (b, _) \<Rightarrow> op_free b)"

section \<open>The calls\<close>

text \<open>Each takes its pointers as options, \<open>None\<close> being NULL, and returns the context with its
  \<open>last_error\<close> as the call leaves it.\<close>

definition query_open_mem :: "(string \<Rightarrow> xml_node option option) \<Rightarrow> string option \<Rightarrow> query_ctx option heap_op" where
  "query_open_mem xmlParseFile filepath =
     (case filepath of
        None \<Rightarrow> op_return None
      | Some f \<Rightarrow>
          (case xmlParseFile f of
             None \<Rightarrow> op_return None
           | Some r \<Rightarrow>
               op_bind op_malloc (\<lambda>doc.
                 case doc of
                   None \<Rightarrow> op_return None
                 | Some d \<Rightarrow>
                     (case r of
                        None \<Rightarrow> op_bind (op_free d) (\<lambda>_. op_return None)
                      | Some root_elem \<Rightarrow>
                          op_bind op_malloc (\<lambda>ctx.
                            case ctx of
                              None \<Rightarrow> op_bind (op_free d) (\<lambda>_. op_return None)
                            | Some b \<Rightarrow>
                                op_return (Some \<lparr>qc_root = root_elem, qx_block = b, qx_doc = d, qx_last_error = []\<rparr>))))))"

definition query_close_mem :: "query_ctx option \<Rightarrow> unit heap_op" where
  "query_close_mem ctx =
     (case ctx of None \<Rightarrow> op_return () | Some c \<Rightarrow> op_bind (op_free (qx_doc c)) (\<lambda>_. op_free (qx_block c)))"

text \<open>The readers of a result: its object is freed once what it points to has been read.\<close>

definition read_result ::
    "(xpath_object option \<Rightarrow> 'a) \<Rightarrow> ((nat \<times> xpath_object) option \<times> query_ctx) heap_op \<Rightarrow> ('a \<times> query_ctx option) heap_op" where
  "read_result f ev =
     op_bind ev (\<lambda>(res, c).
       case res of
         None \<Rightarrow> op_return (f None, Some c)
       | Some (r, obj) \<Rightarrow> op_bind (op_free r) (\<lambda>_. op_return (f (Some obj), Some c)))"

definition query_string_mem :: "xml_lib \<Rightarrow> query_ctx option \<Rightarrow> string option \<Rightarrow> (string option \<times> query_ctx option) heap_op" where
  "query_string_mem xl ctx path =
     (case (ctx, path) of
        (Some c, Some p) \<Rightarrow> read_result first_text_of (eval_root_mem xl c p)
      | _ \<Rightarrow> op_return (None, ctx))"

definition node_count :: "xpath_object option \<Rightarrow> int" where
  "node_count res = int (length (handle_list res))"

definition query_count_mem :: "xml_lib \<Rightarrow> query_ctx option \<Rightarrow> string option \<Rightarrow> (int \<times> query_ctx option) heap_op" where
  "query_count_mem xl ctx path =
     (case (ctx, path) of
        (Some c, Some p) \<Rightarrow> read_result node_count (eval_root_mem xl c p)
      | _ \<Rightarrow> op_return (0, ctx))"

definition query_elem_string_mem ::
    "xml_lib \<Rightarrow> query_ctx option \<Rightarrow> query_elem option \<Rightarrow> string option \<Rightarrow> (string option \<times> query_ctx option) heap_op" where
  "query_elem_string_mem xl ctx e rel_path =
     (case (ctx, e, rel_path) of
        (Some c, Some (_, i), Some p) \<Rightarrow> read_result first_text_of (eval_mem xl c (item_node i) p False)
      | _ \<Rightarrow> op_return (None, ctx))"

definition query_elem_name :: "xml_lib \<Rightarrow> query_elem option \<Rightarrow> string option" where
  "query_elem_name xl e = (case e of None \<Rightarrow> None | Some (_, i) \<Rightarrow> xl_name xl i)"

definition query_elem_mem ::
    "xml_lib \<Rightarrow> query_ctx option \<Rightarrow> string option \<Rightarrow> (query_elem option \<times> query_ctx option) heap_op" where
  "query_elem_mem xl ctx path =
     (case (ctx, path) of
        (Some c, Some p) \<Rightarrow>
          op_bind (read_result handle_list (eval_root_mem xl c p)) (\<lambda>(items, ctx).
            case items of
              [] \<Rightarrow> op_return (None, ctx)
            | i # _ \<Rightarrow> op_bind op_malloc (\<lambda>e. op_return (map_option (\<lambda>b. (b, i)) e, ctx)))
      | _ \<Rightarrow> op_return (None, ctx))"

definition listing ::
    "((nat \<times> xpath_object) option \<times> query_ctx) heap_op \<Rightarrow> (elem_array option \<times> nat \<times> query_ctx option) heap_op" where
  "listing ev = op_bind ev (\<lambda>(res, c). op_bind (handle_list_mem res) (\<lambda>(l, n). op_return (l, n, Some c)))"

definition query_elem_list_mem ::
    "xml_lib \<Rightarrow> query_ctx option \<Rightarrow> string option \<Rightarrow> (elem_array option \<times> nat \<times> query_ctx option) heap_op" where
  "query_elem_list_mem xl ctx path =
     (case (ctx, path) of
        (Some c, Some p) \<Rightarrow> listing (eval_root_mem xl c p)
      | _ \<Rightarrow> op_return (None, 0, ctx))"

definition query_elem_children_mem ::
    "xml_lib \<Rightarrow> query_ctx option \<Rightarrow> query_elem option \<Rightarrow> string option
       \<Rightarrow> (elem_array option \<times> nat \<times> query_ctx option) heap_op" where
  "query_elem_children_mem xl ctx e name =
     (case (ctx, e, name) of
        (Some c, Some (_, i), Some n) \<Rightarrow> listing (eval_mem xl c (item_node i) n False)
      | _ \<Rightarrow> op_return (None, 0, ctx))"

definition query_find_all_mem ::
    "xml_lib \<Rightarrow> query_ctx option \<Rightarrow> string option \<Rightarrow> (elem_array option \<times> nat \<times> query_ctx option) heap_op" where
  "query_find_all_mem xl ctx name =
     (case (ctx, name) of
        (Some c, Some n) \<Rightarrow>
          if n = [] then op_return (None, 0, ctx)
          else op_bind op_malloc (\<lambda>expr.
                 case expr of
                   None \<Rightarrow> op_return (None, 0, ctx)
                 | Some b \<Rightarrow>
                     op_bind (listing (eval_expr_mem xl c (Some (qc_root c)) (''//'' @ n))) (\<lambda>r.
                       op_bind (op_free b) (\<lambda>_. op_return r)))
      | _ \<Rightarrow> op_return (None, 0, ctx))"

definition query_last_error :: "query_ctx option \<Rightarrow> string" where
  "query_last_error ctx = (case ctx of None \<Rightarrow> [] | Some c \<Rightarrow> qx_last_error c)"

end
