(* ===== verification/QueryMem.thy ===== *)
theory QueryMem
  imports QueryStore
begin

text \<open>
  What the query layer does with its memory: the buffer of a path is never overrun and holds the
  translation, every call returns exactly the blocks it reports, and a list of handles is the list of
  the nodes the abstract lookup of theory Query finds.
\<close>

section \<open>The growing buffer\<close>

text \<open>There is always room for the NUL, and the buffer is never more than about four times the text, so its
  size is far from wrapping around.\<close>

definition buf_ok :: "strbuf \<Rightarrow> bool" where
  "buf_ok buf \<longleftrightarrow> length (sb_text buf) < sb_cap buf \<and> sb_cap buf \<le> 4 * length (sb_text buf) + 128"

text \<open>What an append leaves: one live block for another, and the new text after the old unless memory
  ran out.\<close>

definition appended :: "heap_st \<Rightarrow> string \<Rightarrow> bool \<times> strbuf \<Rightarrow> heap_st \<Rightarrow> bool" where
  "appended h t r k \<longleftrightarrow> obtains_blocks h {sb_block (snd r)} k \<and> buf_ok (snd r)
     \<and> (fst r \<longrightarrow> sb_text (snd r) = t) \<and> ((\<forall>n. hp_ok h n) \<longrightarrow> fst r)"

lemma append_n_appends:
  assumes "obtains_blocks h {sb_block buf} h'" "buf_ok buf" "length (sb_text buf) + length s < 2 ^ 60"
  shows "gives (query_append_n buf s) h' (appended h (sb_text buf @ s))"
proof -
  let ?len = "length (sb_text buf)" and ?n = "length s"
  have cap: "?len < sb_cap buf" "sb_cap buf \<le> 4 * ?len + 128" using assms(2) by (simp_all add: buf_ok_def)
  have "?len + ?n + 1 < 2 ^ 64" "(sb_cap buf + ?n + 1) * 2 < 2 ^ 64" using assms(3) cap by simp_all
  then have sizes: "(?len + ?n + 1) mod 2 ^ 64 = ?len + ?n + 1"
      "((sb_cap buf + ?n + 1) * 2) mod 2 ^ 64 = (sb_cap buf + ?n + 1) * 2"
    by (simp_all only: mod_less)
  show ?thesis
  proof (cases "?len + ?n + 1 > sb_cap buf")
    case False
    then show ?thesis
      using assms(1) cap unfolding query_append_n_def Let_def sizes
      by (simp add: buf_store_def appended_def buf_ok_def)
  next
    case True
    then have "query_append_n buf s = op_bind (op_realloc (sb_block buf)) (\<lambda>tmp.
        case tmp of None \<Rightarrow> op_return (False, buf)
        | Some b \<Rightarrow> buf_store (buf\<lparr>sb_block := b, sb_cap := (sb_cap buf + ?n + 1) * 2\<rparr>) s)"
      unfolding query_append_n_def Let_def sizes by (simp only: if_True)
    moreover have "gives (op_realloc (sb_block buf)) h' (\<lambda>tmp k. gives (case tmp of None \<Rightarrow> op_return (False, buf)
        | Some b \<Rightarrow> buf_store (buf\<lparr>sb_block := b, sb_cap := (sb_cap buf + ?n + 1) * 2\<rparr>) s) k
          (appended h (sb_text buf @ s)))"
      by (rule realloc_step[OF assms(1)])
        (use cap True assms(2) in \<open>auto simp: buf_store_def appended_def buf_ok_def\<close>)
    ultimately show ?thesis by simp
  qed
qed

definition pieces_text :: "string option list \<Rightarrow> string" where
  "pieces_text ps = concat (map the ps)"

lemma append_pieces_appends:
  assumes "obtains_blocks h {sb_block buf} h'" "buf_ok buf" "None \<notin> set ps"
    "length (sb_text buf) + length (pieces_text ps) < 2 ^ 60"
  shows "gives (append_pieces ps buf) h' (appended h (sb_text buf @ pieces_text ps))"
  using assms
proof (induction ps arbitrary: buf h')
  case Nil
  then show ?case by (simp add: appended_def pieces_text_def)
next
  case (Cons p ps)
  then obtain s where p: "p = Some s" by (cases p) auto
  have "gives (query_append_n buf s) h' (appended h (sb_text buf @ s))"
    using Cons.prems by (intro append_n_appends) (simp_all add: p pieces_text_def)
  then have "gives (query_append_n buf s) h' (\<lambda>r k. gives ((\<lambda>(ok, buf).
      if ok then append_pieces ps buf else op_return (False, buf)) r) k (appended h (sb_text buf @ pieces_text (p # ps))))"
  proof (rule gives_mono)
    fix r k
    assume r: "appended h (sb_text buf @ s) r k"
    obtain ok b where ok: "r = (ok, b)" by fastforce
    show "gives ((\<lambda>(ok, buf). if ok then append_pieces ps buf else op_return (False, buf)) r) k
        (appended h (sb_text buf @ pieces_text (p # ps)))"
    proof (cases ok)
      case True
      then have "sb_text b = sb_text buf @ s" "obtains_blocks h {sb_block b} k" "buf_ok b"
        using r ok by (simp_all add: appended_def)
      then show ?thesis
        using Cons.IH[of b k] Cons.prems True by (simp add: ok p pieces_text_def)
    next
      case False
      then show ?thesis using r ok by (simp add: appended_def)
    qed
  qed
  then show ?case by (simp add: p)
qed

section \<open>Translating a path\<close>

lemma index_text_length: "length (index_text i) \<le> 22"
proof -
  have "\<bar>sint w\<bar> < 10 ^ 19" for w :: "64 word"
    using sint_greater_eq[of w] sint_less[of w] by (simp add: abs_if)
  then show ?thesis using dec_int_length[of _ 19] by (simp add: index_text_def)
qed

lemma index_piece_fits: "index_piece i = Some (index_text i)"
  using index_text_length[of i] by (simp add: index_piece_def)

lemma segment_pieces_text:
  "None \<notin> set (segment_pieces seg rest)" "pieces_text (segment_pieces seg rest) = translate_segment seg rest"
  by (auto simp: segment_pieces_def translate_segment_def pieces_text_def index_piece_fits split: option.splits)

lemma segment_length: "length (translate_segment seg rest) \<le> length seg + 22"
  using index_text_length by (auto simp: translate_segment_def intro: add_mono split: option.splits)

lemma translate_loop_appends:
  assumes "obtains_blocks h {sb_block buf} h'" "buf_ok buf" "length (sb_text buf) + 24 * length p < 2 ^ 60"
  shows "gives (translate_loop_mem p first buf) h' (appended h (translate_loop p first (sb_text buf)))"
  using assms
proof (induction p first buf arbitrary: h' rule: translate_loop_mem.induct)
  case (1 p first buf)
  let ?p = "dropWhile is_step_sep p"
  let ?seg = "takeWhile (\<lambda>c. \<not> is_step_sep c) ?p" and ?rest = "dropWhile (\<lambda>c. \<not> is_step_sep c) ?p"
  let ?ps = "(if first then [] else [Some ''/'']) @ segment_pieces ?seg ?rest"
  show ?case
  proof (cases "?p = []")
    case True
    then show ?thesis
      using "1.prems" by (simp add: translate_loop_mem.simps[of p] translate_loop.simps[of p] appended_def)
  next
    case False
    have ptext: "pieces_text ?ps = (if first then [] else ''/'') @ translate_segment ?seg ?rest"
      using segment_pieces_text(2) by (simp add: pieces_text_def)
    have "length ?p = length ?seg + length ?rest" by (metis length_append takeWhile_dropWhile_id)
    then have seg: "length ?seg + length ?rest \<le> length p" "length ?rest < length p"
      using length_dropWhile_le[of is_step_sep p] rest_shorter[OF False] by simp_all
    have ne: "?seg \<noteq> []" using False by (metis dropWhile_hd_not list.exhaust takeWhile.simps(2) list.distinct(1))
    have len: "length (pieces_text ?ps) + 24 * length ?rest \<le> 24 * length p"
      unfolding ptext using segment_length[of ?seg ?rest] seg ne by (cases ?seg) simp_all
    let ?go = "\<lambda>(ok, buf). if ok then translate_loop_mem ?rest False buf else op_return (False, buf)"
    have out: "translate_loop p first (sb_text buf) = translate_loop ?rest False (sb_text buf @ pieces_text ?ps)"
      using False by (subst translate_loop.simps) (simp only: ptext Let_def if_False)
    have "gives (append_pieces ?ps buf) h' (appended h (sb_text buf @ pieces_text ?ps))"
      using "1.prems" len segment_pieces_text(1) by (intro append_pieces_appends) auto
    then have "gives (append_pieces ?ps buf) h' (\<lambda>r k. gives (?go r) k (appended h (translate_loop p first (sb_text buf))))"
    proof (rule gives_mono)
      fix r k
      assume r: "appended h (sb_text buf @ pieces_text ?ps) r k"
      obtain ok b where ok: "r = (ok, b)" by fastforce
      show "gives (?go r) k (appended h (translate_loop p first (sb_text buf)))"
      proof (cases ok)
        case True
        then have b: "sb_text b = sb_text buf @ pieces_text ?ps" "obtains_blocks h {sb_block b} k" "buf_ok b"
          using r ok by (simp_all add: appended_def)
        then have "length (sb_text b) + 24 * length ?rest < 2 ^ 60" using len "1.prems"(3) by simp
        then show ?thesis
          using "1.IH"[OF refl False refl refl _ b(2,3)] b True out ok by simp
      next
        case False
        then show ?thesis using r ok by (simp add: appended_def)
      qed
    qed
    then show ?thesis
      using False by (subst translate_loop_mem.simps) (simp only: Let_def if_False gives_bind)
  qed
qed

section \<open>Operations that allocate\<close>

text \<open>What the calls of the layer promise, when their argument is no longer than memory allows: no fault,
  the blocks the result names and no other, a good result, and the whole result when memory suffices.\<close>

locale allocating =
  fixes f :: "'a heap_op"
    and can :: bool
    and owned :: "'a \<Rightarrow> nat set"
    and good :: "'a \<Rightarrow> bool"
    and whole :: "'a \<Rightarrow> bool"
  assumes contract: "can \<Longrightarrow> heap_wf h \<Longrightarrow>
    gives f h (\<lambda>x k. obtains_blocks h (owned x) k \<and> good x \<and> ((\<forall>n. hp_ok h n) \<longrightarrow> whole x))"
begin

lemma within:
  assumes can "obtains_blocks h B h'"
    and "\<And>x k. obtains_blocks h (B \<union> owned x) k \<Longrightarrow> B \<inter> owned x = {} \<Longrightarrow> good x
      \<Longrightarrow> (\<forall>n. hp_ok h n) \<longrightarrow> whole x \<Longrightarrow> Q x k"
  shows "gives f h' Q"
proof (rule gives_mono[OF contract[OF assms(1) obtains_wf[OF assms(2)]]])
  fix x k
  assume x: "obtains_blocks h' (owned x) k \<and> good x \<and> ((\<forall>n. hp_ok h' n) \<longrightarrow> whole x)"
  then have "B \<inter> owned x = {}" using assms(2) by (auto simp: obtains_blocks_def)
  then show "Q x k"
    using x obtains_trans[OF assms(2)] obtains_ok[OF assms(2)] by (intro assms(3)) auto
qed

lemma result:
  assumes can "heap_wf h"
  obtains x k where "f h = Inr (x, k)" "obtains_blocks h (owned x) k" "good x" "(\<forall>n. hp_ok h n) \<longrightarrow> whole x"
  using contract[OF assms] by (auto simp: gives_result)

end

definition path_block :: "(nat \<times> string) option \<Rightarrow> nat set" where
  "path_block r = (case r of None \<Rightarrow> {} | Some (b, _) \<Rightarrow> {b})"

lemma path_block_simps [simp]: "path_block None = {}" "path_block (Some (b, s)) = {b}"
  by (simp_all add: path_block_def)

lemma path_contract:
  assumes "length p < 2 ^ 48" "heap_wf h"
  shows "gives (translate_path_mem p a) h (\<lambda>r k. obtains_blocks h (path_block r) k
    \<and> (\<forall>b s. r = Some (b, s) \<longrightarrow> s = translate_path p a) \<and> ((\<forall>n. hp_ok h n) \<longrightarrow> r \<noteq> None))"
    (is "gives _ h ?Q")
proof -
  let ?start = "if a then ''/'' else []"
  let ?pieces = "if a then [Some ''/''] else []"
  let ?finish = "\<lambda>(ok, buf). if ok then op_return (Some (sb_block buf, sb_text buf))
       else op_bind (op_free (sb_block buf)) (\<lambda>_. op_return None)"
  have finish: "gives (if ok then op_return (Some (sb_block buf, sb_text buf))
      else op_bind (op_free (sb_block buf)) (\<lambda>_. op_return None)) k ?Q"
    if "appended h (translate_path p a) (ok, buf) k" for ok buf k
    using that by (auto simp: appended_def simp del: gives_free intro!: free_step)
  have loop: "gives (if ok then translate_loop_mem p True buf else op_return (False, buf)) k (appended h (translate_path p a))"
    if "appended h ?start (ok, buf) k" for ok buf k
    using that translate_loop_appends[of h buf k p True] assms(1)
    by (cases ok) (simp_all add: appended_def translate_path_def)
  have first: "gives (append_pieces ?pieces \<lparr>sb_block = b, sb_cap = 128, sb_text = []\<rparr>) k (appended h ?start)"
    if "obtains_blocks h {b} k" for b k
    using append_pieces_appends[of h "\<lparr>sb_block = b, sb_cap = 128, sb_text = []\<rparr>" k ?pieces] that
    by (auto simp: buf_ok_def pieces_text_def)
  have body: "gives (op_bind (append_pieces ?pieces \<lparr>sb_block = b, sb_cap = 128, sb_text = []\<rparr>) (\<lambda>(ok, buf).
      op_bind (if ok then translate_loop_mem p True buf else op_return (False, buf)) ?finish)) k ?Q"
    if "obtains_blocks h {b} k" for b k
    unfolding gives_bind
    by (rule gives_mono[OF first[OF that]])
      (auto simp only: prod.case gives_bind split: prod.splits intro!: gives_mono[OF loop] finish)
  show ?thesis
    unfolding translate_path_mem_def gives_bind
    by (rule malloc_step[OF obtains_refl[OF assms(2)]])
      (auto simp only: option.case gives_return path_block_simps intro!: body)
qed

interpretation path_mem: allocating "translate_path_mem p a" "length p < 2 ^ 48" path_block
    "\<lambda>r. \<forall>b s. r = Some (b, s) \<longrightarrow> s = translate_path p a" "\<lambda>r. r \<noteq> None" for p a
  by unfold_locales (rule path_contract)

section \<open>Evaluating\<close>

text \<open>The context stays the same but for its \<open>last_error\<close>.\<close>

definition same_doc :: "query_ctx \<Rightarrow> query_ctx \<Rightarrow> bool" where
  "same_doc c c' \<longleftrightarrow> c' = c\<lparr>qx_last_error := qx_last_error c'\<rparr>"

definition result_block :: "(nat \<times> 'a) option \<Rightarrow> nat set" where
  "result_block r = (case r of None \<Rightarrow> {} | Some (b, _) \<Rightarrow> {b})"

lemma result_block_simps [simp]: "result_block None = {}" "result_block (Some (b, x)) = {b}"
  by (simp_all add: result_block_def)

text \<open>An evaluation whose value is \<open>v\<close> gives that or nothing; when it gives something there is no error
  left to report.\<close>

definition evaluated :: "xpath_object option \<Rightarrow> query_ctx \<Rightarrow> (nat \<times> xpath_object) option \<times> query_ctx \<Rightarrow> bool" where
  "evaluated v c r \<longleftrightarrow> (fst r \<noteq> None \<longrightarrow> map_option snd (fst r) = v \<and> qx_last_error (snd r) = [])
     \<and> same_doc c (snd r)"

lemma same_doc_root: "same_doc c c' \<Longrightarrow> qc_root c' = qc_root c"
  unfolding same_doc_def by (drule arg_cong[where f = qc_root]) simp

locale evaluating =
  fixes ev :: "((nat \<times> xpath_object) option \<times> query_ctx) heap_op"
    and can :: bool
    and v :: "xpath_object option"
    and c :: query_ctx
  assumes evaluates: "allocating ev can (\<lambda>r. result_block (fst r)) (evaluated v c) (\<lambda>r. map_option snd (fst r) = v)"
begin

lemma reads:
  "allocating (read_result f ev) can (\<lambda>_. {})
     (\<lambda>r. fst r \<in> {f None, f v} \<and> (\<exists>c'. snd r = Some c' \<and> same_doc c c')) (\<lambda>r. fst r = f v)"
proof
  fix h :: heap_st
  assume can: can "heap_wf h"
  show "gives (read_result f ev) h (\<lambda>r k. obtains_blocks h {} k
      \<and> (fst r \<in> {f None, f v} \<and> (\<exists>c'. snd r = Some c' \<and> same_doc c c')) \<and> ((\<forall>n. hp_ok h n) \<longrightarrow> fst r = f v))"
    unfolding read_result_def gives_bind
    by (rule allocating.within[OF evaluates can(1) obtains_refl[OF can(2)]])
      (auto simp: evaluated_def simp del: gives_free split: option.splits intro!: free_last)
qed

end

definition eval_post :: "heap_st \<Rightarrow> xpath_object option \<Rightarrow> query_ctx \<Rightarrow> (nat \<times> xpath_object) option \<times> query_ctx \<Rightarrow> heap_st \<Rightarrow> bool" where
  "eval_post h v c r k \<longleftrightarrow> obtains_blocks h (result_block (fst r)) k \<and> evaluated v c r
     \<and> ((\<forall>n. hp_ok h n) \<longrightarrow> map_option snd (fst r) = v)"

lemma evaluatingI: "(\<And>h. can \<Longrightarrow> heap_wf h \<Longrightarrow> gives ev h (eval_post h v c)) \<Longrightarrow> evaluating ev can v c"
  by unfold_locales (simp add: eval_post_def[abs_def])

lemma eval_post_simps [simp]:
  "eval_post h v c (None, c') k \<longleftrightarrow> obtains_blocks h {} k \<and> same_doc c c' \<and> ((\<forall>n. hp_ok h n) \<longrightarrow> v = None)"
  "eval_post h v c (Some (b, obj), c') k \<longleftrightarrow>
     obtains_blocks h {b} k \<and> same_doc c c' \<and> v = Some obj \<and> qx_last_error c' = []"
  by (auto simp: eval_post_def evaluated_def)

lemma same_doc_simps [simp]: "same_doc c c" "same_doc c (c\<lparr>qx_last_error := e\<rparr>)"
  by (simp_all add: same_doc_def)

lemma expr_evaluating: "evaluating (eval_expr_mem xl c node x) True (xl_eval xl (qc_root c) node x) c"
proof (rule evaluatingI)
  fix h :: heap_st
  assume wf: "heap_wf h"
  let ?post = "eval_post h (xl_eval xl (qc_root c) node x) c"
  let ?finish = "\<lambda>b res. let c = c\<lparr>qx_last_error := case res of None \<Rightarrow> eval_error xl x | Some _ \<Rightarrow> []\<rparr>
      in op_bind (op_free b) (\<lambda>_. op_return (res, c))"
  have one: "gives (op_bind (op_free b) (\<lambda>_. op_return (None, c\<lparr>qx_last_error := e\<rparr>))) k ?post"
    if "obtains_blocks h {b} k" "(\<forall>n. hp_ok h n) \<longrightarrow> xl_eval xl (qc_root c) node x = None" for b e k
    unfolding gives_bind by (rule free_last[OF that(1)]) (use that in auto)
  have two: "gives (op_bind (op_free b) (\<lambda>_. op_return (Some (n, obj), c\<lparr>qx_last_error := []\<rparr>))) k ?post"
    if "obtains_blocks h {n, b} k" "n \<noteq> b" "xl_eval xl (qc_root c) node x = Some obj" for n b obj k
    unfolding gives_bind by (rule free_extra[OF that(1), of b "{n}"]) (use that in auto)
  have res: "gives (op_bind (xpath_result xl c node x) (?finish b)) k ?post" if b: "obtains_blocks h {b} k" for b k
  proof (cases "xl_eval xl (qc_root c) node x")
    case None
    then show ?thesis
      using one[OF b] by (simp add: xpath_result_def)
  next
    case (Some obj)
    show ?thesis
      unfolding xpath_result_def Some option.case gives_bind[of "op_bind f g" for f g] gives_bind[of op_malloc]
      by (rule malloc_step[OF b]) (use one two Some in auto)
  qed
  show "gives (eval_expr_mem xl c node x) h ?post"
    unfolding eval_expr_mem_def gives_bind
    by (rule malloc_step[OF obtains_refl[OF wf]]) (use res in auto)
qed

interpretation expr_mem: evaluating "eval_expr_mem xl c node x" True "xl_eval xl (qc_root c) node x" c for xl c node x
  by (rule expr_evaluating)

abbreviation doc_of :: "query_ctx \<Rightarrow> hes_query_ctx" where
  "doc_of c \<equiv> \<lparr>qc_root = qc_root c\<rparr>"

lemma eval_evaluating:
  "evaluating (eval_mem xl c node p a) (length p < 2 ^ 48) (query_eval (xl_eval xl) (doc_of c) node p a) c"
proof (rule evaluatingI)
  fix h :: heap_st
  assume len: "length p < 2 ^ 48" and wf: "heap_wf h"
  let ?post = "eval_post h (query_eval (xl_eval xl) (doc_of c) node p a) c"
  have expr: "gives (op_bind (eval_expr_mem xl c node (translate_path p a)) (\<lambda>r. op_bind (op_free b) (\<lambda>_. op_return r))) k ?post"
    if "obtains_blocks h {b} k" for b k
    unfolding gives_bind
    by (rule allocating.within[OF expr_mem.evaluates TrueI that])
      (auto simp: query_eval_def eval_post_def Un_commute simp del: gives_free intro!: free_step)
  show "gives (eval_mem xl c node p a) h ?post"
    unfolding eval_mem_def gives_bind
    by (rule path_mem.within[OF len obtains_refl[OF wf]])
      (use expr in \<open>auto split: option.splits\<close>)
qed

interpretation eval_mem: evaluating "eval_mem xl c node p a" "length p < 2 ^ 48"
    "query_eval (xl_eval xl) (doc_of c) node p a" c for xl c node p a
  by (rule eval_evaluating)

section \<open>Lists of handles\<close>

definition elem_blocks :: "query_elem list \<Rightarrow> nat set" where
  "elem_blocks es = fst ` set es"

definition array_blocks :: "elem_array option \<Rightarrow> nat set" where
  "array_blocks l = (case l of None \<Rightarrow> {} | Some (a, es) \<Rightarrow> insert a (elem_blocks es))"

lemma elem_blocks_simps [simp]:
  "elem_blocks [] = {}" "elem_blocks (e # es) = insert (fst e) (elem_blocks es)"
  "elem_blocks (es @ fs) = elem_blocks es \<union> elem_blocks fs"
  by (simp_all add: elem_blocks_def image_Un)

lemma array_blocks_simps [simp]:
  "array_blocks None = {}" "array_blocks (Some (a, es)) = insert a (elem_blocks es)"
  by (simp_all add: array_blocks_def)

text \<open>A list of handles that says \<open>items\<close>: none at all, or one block for the array and one for each item.\<close>

definition listed :: "xpath_item list \<Rightarrow> elem_array option \<Rightarrow> nat \<Rightarrow> bool" where
  "listed items l n \<longleftrightarrow> (case l of None \<Rightarrow> n = 0
     | Some (a, es) \<Rightarrow> map snd es = items \<and> n = length items \<and> items \<noteq> [] \<and> distinct (a # map fst es))"

text \<open>What a listing call returns: handles of exactly these items, or none; and the same document.\<close>

definition lists_items :: "xpath_item list \<Rightarrow> query_ctx \<Rightarrow> elem_array option \<times> nat \<times> query_ctx option \<Rightarrow> bool" where
  "lists_items items c r \<longleftrightarrow> (listed items (fst r) (fst (snd r)) \<or> fst r = None \<and> fst (snd r) = 0)
     \<and> (\<exists>c'. snd (snd r) = Some c' \<and> same_doc c c')"

lemma free_elems_step:
  assumes "obtains_blocks h (B \<union> elem_blocks es) k" "distinct (map fst es)" "B \<inter> elem_blocks es = {}"
    and "\<And>k. obtains_blocks h B k \<Longrightarrow> Q () k"
  shows "gives (free_elems es) k Q"
  using assms
proof (induction es arbitrary: k)
  case (Cons e es)
  have fresh: "fst e \<notin> B \<union> elem_blocks es" using Cons.prems(2,3) by (auto simp: elem_blocks_def)
  show ?case
    unfolding free_elems.simps gives_bind
    by (rule free_extra[OF Cons.prems(1) _ fresh]) (use Cons in auto)
qed simp

lemma make_elems_step:
  assumes "obtains_blocks h (B \<union> elem_blocks es) k" "distinct (map fst es)" "B \<inter> elem_blocks es = {}"
    and "length es + length is < slots"
    and "\<And>k n. obtains_blocks h B k \<Longrightarrow> \<not> hp_ok h n \<Longrightarrow> Q None k"
    and "\<And>k es'. obtains_blocks h (B \<union> elem_blocks es') k \<Longrightarrow> map snd es' = map snd es @ is
      \<Longrightarrow> distinct (map fst es') \<Longrightarrow> B \<inter> elem_blocks es' = {} \<Longrightarrow> Q (Some es') k"
  shows "gives (make_elems slots is es) k Q"
  using assms
proof (induction "is" arbitrary: es k)
  case (Cons i "is")
  have room: "length es < slots" using Cons.prems(4) by simp
  show ?case
    unfolding make_elems.simps if_P[OF room] gives_bind
  proof (rule malloc_step[OF Cons.prems(1)], unfold option.case gives_bind)
    fix b k'
    assume b: "b \<notin> B \<union> elem_blocks es" and k': "obtains_blocks h (insert b (B \<union> elem_blocks es)) k'"
    have "distinct (map fst (es @ [(b, i)]))" using Cons.prems(2) b by (auto simp: elem_blocks_def)
    then show "gives (make_elems slots is (es @ [(b, i)])) k' Q"
      using Cons.prems(3-) b k' by (intro Cons.IH) auto
  next
    fix n k'
    assume "\<not> hp_ok h n" "obtains_blocks h (B \<union> elem_blocks es) k'"
    then show "gives (free_elems es) k' (\<lambda>x h'. gives (op_return None) h' Q)"
      using Cons.prems by (intro free_elems_step[of h B es k']) auto
  qed
qed simp

lemma handle_list_step:
  assumes "obtains_blocks h (result_block res) k"
    and "\<And>l n k. obtains_blocks h (array_blocks l) k \<Longrightarrow> listed (handle_list (map_option snd res)) l n
      \<Longrightarrow> (\<forall>n. hp_ok h n) \<longrightarrow> (l = None \<longleftrightarrow> handle_list (map_option snd res) = []) \<Longrightarrow> Q (l, n) k"
  shows "gives (handle_list_mem res) k Q"
proof (cases res)
  case None
  then show ?thesis using assms by (simp add: handle_list_mem_def listed_def)
next
  case (Some ro)
  obtain r obj where ro: "ro = (r, obj)" by fastforce
  have handed_back: "gives (op_bind (op_free r) (\<lambda>_. op_return (None, 0))) k Q"
    if "obtains_blocks h {r} k" "(\<forall>n. hp_ok h n) \<longrightarrow> handle_list (Some obj) = []" for k
    unfolding gives_bind by (rule free_last[OF that(1)]) (use that(2) assms(2)[of None] in \<open>auto simp: listed_def Some ro\<close>)
  have failed: "gives (op_free r) k (\<lambda>x. Q (None, 0))" if "obtains_blocks h {r} k" "\<not> hp_ok h n" for k n
    using handed_back[OF that(1)] that(2) by (simp del: gives_free) blast
  have start: "obtains_blocks h {r} k" using assms(1) by (simp add: Some ro)
  show ?thesis
  proof (cases "handle_list (Some obj)")
    case Nil
    then show ?thesis using handed_back[OF start] by (simp add: handle_list_mem_def Some ro del: gives_bind)
  next
    case (Cons i "is")
    have full: "gives (op_bind (op_free r) (\<lambda>_. op_return (Some (a, es), length es))) k Q"
      if "obtains_blocks h ({a, r} \<union> elem_blocks es) k" "map snd es = i # is" "distinct (map fst es)"
        "{a, r} \<inter> elem_blocks es = {}" "a \<noteq> r" for a es k
      unfolding gives_bind
      by (rule free_extra[OF that(1), of r "insert a (elem_blocks es)"])
        (use that assms(2)[of "Some (a, es)"] in \<open>auto simp: listed_def Some ro Cons elem_blocks_def length_map[of snd, symmetric] simp del: length_map\<close>)
    have elems: "gives (op_bind (make_elems (length (i # is) + 1) (i # is) []) (\<lambda>es. case es of
         None \<Rightarrow> op_bind (op_free a) (\<lambda>_. op_bind (op_free r) (\<lambda>_. op_return (None, 0)))
       | Some es \<Rightarrow> op_bind (op_free r) (\<lambda>_. op_return (Some (a, es), length es)))) k Q"
      if "obtains_blocks h {a, r} k" "a \<noteq> r" for a k
      unfolding gives_bind[of "make_elems n' is' es'" for n' is' es']
      by (rule make_elems_step[of h "{a, r}"])
        (use that full in \<open>auto simp del: gives_free make_elems.simps intro!: failed free_extra[of h "{a, r}" _ a "{r}"]\<close>)
    show ?thesis
      unfolding handle_list_mem_def Some ro option.case prod.case Cons list.case gives_bind[of op_malloc]
      by (rule malloc_step[OF start]) (use elems in \<open>auto simp del: gives_free make_elems.simps intro!: failed\<close>)
  qed
qed

context evaluating
begin

text \<open>The contract of a call that lists the nodes of a result.\<close>

lemma lists:
  "allocating (listing ev) can (\<lambda>r. array_blocks (fst r))
     (lists_items (handle_list v) c)
     (\<lambda>r. fst r = None \<longleftrightarrow> handle_list v = [])"
proof
  fix h :: heap_st
  assume can: can "heap_wf h"
  show "gives (listing ev) h (\<lambda>r k. obtains_blocks h (array_blocks (fst r)) k
      \<and> lists_items (handle_list v) c r
      \<and> ((\<forall>n. hp_ok h n) \<longrightarrow> (fst r = None \<longleftrightarrow> handle_list v = [])))"
    unfolding listing_def gives_bind
  proof (rule allocating.within[OF evaluates can(1) obtains_refl[OF can(2)]])
    fix r k
    assume r: "obtains_blocks h ({} \<union> result_block (fst r)) k" "evaluated v c r"
      "(\<forall>n. hp_ok h n) \<longrightarrow> map_option snd (fst r) = v"
    obtain res c' where rc: "r = (res, c')" by fastforce
    show "gives (case r of (res, c) \<Rightarrow> op_bind (handle_list_mem res) (\<lambda>(l, n). op_return (l, n, Some c))) k
      (\<lambda>r k. obtains_blocks h (array_blocks (fst r)) k
      \<and> lists_items (handle_list v) c r
      \<and> ((\<forall>n. hp_ok h n) \<longrightarrow> (fst r = None \<longleftrightarrow> handle_list v = [])))"
      unfolding rc prod.case gives_bind
    proof (rule handle_list_step)
      show "obtains_blocks h (result_block res) k" using r(1) rc by simp
    qed (use r rc in \<open>cases res; auto simp: evaluated_def lists_items_def listed_def split: option.splits\<close>)
  qed
qed

end

section \<open>The calls\<close>

text \<open>Every call of the layer, on a document and a path, is an operation that allocates.\<close>

interpretation string_call: allocating "query_string_mem xl (Some c) (Some p)" "length p < 2 ^ 48" "\<lambda>_. {}"
    "\<lambda>r. fst r \<in> {None, hes_query_string (xl_eval xl) (doc_of c) p} \<and> (\<exists>c'. snd r = Some c' \<and> same_doc c c')"
    "\<lambda>r. fst r = hes_query_string (xl_eval xl) (doc_of c) p" for xl c p
  using eval_mem.reads[of first_text_of xl c "Some (qc_root c)" p True]
  by (simp add: query_string_mem_def eval_root_mem_def hes_query_string_def query_eval_root_def)

interpretation elem_string_call: allocating "query_elem_string_mem xl (Some c) (Some (b, i)) (Some p)" "length p < 2 ^ 48"
    "\<lambda>_. {}"
    "\<lambda>r. fst r \<in> {None, hes_query_elem_string (xl_eval xl) (doc_of c) i p} \<and> (\<exists>c'. snd r = Some c' \<and> same_doc c c')"
    "\<lambda>r. fst r = hes_query_elem_string (xl_eval xl) (doc_of c) i p" for xl c b i p
  using eval_mem.reads[of first_text_of xl c "item_node i" p False]
  by (simp add: query_elem_string_mem_def hes_query_elem_string_def)

lemma node_count_query: "node_count (query_eval_root xp ctx p) = hes_query_count xp ctx p"
  by (simp add: node_count_def hes_query_count_def split: option.splits xpath_object.splits)

interpretation count_call: allocating "query_count_mem xl (Some c) (Some p)" "length p < 2 ^ 48" "\<lambda>_. {}"
    "\<lambda>r. fst r \<in> {0, hes_query_count (xl_eval xl) (doc_of c) p} \<and> (\<exists>c'. snd r = Some c' \<and> same_doc c c')"
    "\<lambda>r. fst r = hes_query_count (xl_eval xl) (doc_of c) p" for xl c p
  using eval_mem.reads[of node_count xl c "Some (qc_root c)" p True]
    node_count_query[of "xl_eval xl" "doc_of c" p]
  by (simp add: query_count_mem_def eval_root_mem_def query_eval_root_def node_count_def[of None])

interpretation list_call: allocating "query_elem_list_mem xl (Some c) (Some p)" "length p < 2 ^ 48"
    "\<lambda>r. array_blocks (fst r)"
    "lists_items (hes_query_elem_list (xl_eval xl) (doc_of c) p) c"
    "\<lambda>r. fst r = None \<longleftrightarrow> hes_query_elem_list (xl_eval xl) (doc_of c) p = []" for xl c p
  using eval_mem.lists[of xl c "Some (qc_root c)" p True]
  by (simp add: query_elem_list_mem_def eval_root_mem_def hes_query_elem_list_def query_eval_root_def)

interpretation children_call: allocating "query_elem_children_mem xl (Some c) (Some (b, i)) (Some p)" "length p < 2 ^ 48"
    "\<lambda>r. array_blocks (fst r)"
    "lists_items (hes_query_elem_children (xl_eval xl) (doc_of c) i p) c"
    "\<lambda>r. fst r = None \<longleftrightarrow> hes_query_elem_children (xl_eval xl) (doc_of c) i p = []" for xl c b i p
  using eval_mem.lists[of xl c "item_node i" p False]
  by (simp add: query_elem_children_mem_def hes_query_elem_children_def)

lemma find_all_allocating:
  "allocating (query_find_all_mem xl (Some c) (Some p)) True (\<lambda>r. array_blocks (fst r))
     (lists_items (hes_query_find_all (xl_eval xl) (doc_of c) p) c)
     (\<lambda>r. fst r = None \<longleftrightarrow> hes_query_find_all (xl_eval xl) (doc_of c) p = [])"
proof (cases "p = []")
  case True
  then show ?thesis
    by unfold_locales (simp add: query_find_all_mem_def hes_query_find_all_def lists_items_def obtains_refl)
next
  case False
  let ?all = "handle_list (xl_eval xl (qc_root c) (Some (qc_root c)) (''//'' @ p))"
  have all: "hes_query_find_all (xl_eval xl) (doc_of c) p = ?all" using False by (simp add: hes_query_find_all_def)
  show ?thesis
  proof (unfold_locales, unfold all)
    fix h :: heap_st
    assume wf: "heap_wf h"
    let ?post = "\<lambda>r k. obtains_blocks h (array_blocks (fst r)) k
      \<and> lists_items ?all c r
      \<and> ((\<forall>n. hp_ok h n) \<longrightarrow> (fst r = None \<longleftrightarrow> ?all = []))"
    have body: "gives (op_bind (listing (eval_expr_mem xl c (Some (qc_root c)) (''//'' @ p)))
        (\<lambda>r. op_bind (op_free b) (\<lambda>_. op_return r))) k ?post" if "obtains_blocks h {b} k" for b k
      unfolding gives_bind
    proof (rule allocating.within[OF expr_mem.lists TrueI that])
      fix r k
      assume r: "obtains_blocks h ({b} \<union> array_blocks (fst r)) k" "{b} \<inter> array_blocks (fst r) = {}"
        "lists_items ?all c r"
        "(\<forall>n. hp_ok h n) \<longrightarrow> (fst r = None \<longleftrightarrow> ?all = [])"
      show "gives (op_free b) k (\<lambda>x h'. gives (op_return r) h' ?post)"
        by (rule free_extra[OF r(1), of b "array_blocks (fst r)"]) (use r in auto)
    qed
    show "gives (query_find_all_mem xl (Some c) (Some p)) h ?post"
      unfolding query_find_all_mem_def prod.case option.case if_not_P[OF False] gives_bind[of op_malloc]
      by (rule malloc_step[OF obtains_refl[OF wf]]) (use body in \<open>auto simp: lists_items_def\<close>)
  qed
qed

interpretation find_all_call: allocating "query_find_all_mem xl (Some c) (Some p)" True "\<lambda>r. array_blocks (fst r)"
    "lists_items (hes_query_find_all (xl_eval xl) (doc_of c) p) c"
    "\<lambda>r. fst r = None \<longleftrightarrow> hes_query_find_all (xl_eval xl) (doc_of c) p = []" for xl c p
  by (rule find_all_allocating)

lemma first_handle: "hes_query_elem xp ctx p = (case handle_list (query_eval_root xp ctx p) of [] \<Rightarrow> None | i # _ \<Rightarrow> Some i)"
  by (auto simp: hes_query_elem_def split: option.splits xpath_object.splits list.splits)

lemma elem_allocating:
  "allocating (query_elem_mem xl (Some c) (Some p)) (length p < 2 ^ 48) (\<lambda>r. result_block (fst r))
     (\<lambda>r. fst r \<noteq> None \<longrightarrow> map_option snd (fst r) = hes_query_elem (xl_eval xl) (doc_of c) p)
     (\<lambda>r. map_option snd (fst r) = hes_query_elem (xl_eval xl) (doc_of c) p)"
proof
  fix h :: heap_st
  assume len: "length p < 2 ^ 48" and wf: "heap_wf h"
  let ?v = "hes_query_elem (xl_eval xl) (doc_of c) p"
  let ?post = "\<lambda>r k. obtains_blocks h (result_block (fst r)) k
      \<and> (fst r \<noteq> None \<longrightarrow> map_option snd (fst r) = ?v) \<and> ((\<forall>n. hp_ok h n) \<longrightarrow> map_option snd (fst r) = ?v)"
  have make: "gives (case items of [] \<Rightarrow> op_return (None, ctx)
      | i # _ \<Rightarrow> op_bind op_malloc (\<lambda>e. op_return (map_option (\<lambda>b. (b, i)) e, ctx))) k ?post"
    if "obtains_blocks h {} k" "items \<noteq> [] \<longrightarrow> ?v = Some (hd items)" "(\<forall>n. hp_ok h n) \<longrightarrow> items = [] \<longrightarrow> ?v = None"
    for items ctx k
    using that by (cases items) (auto simp del: gives_malloc intro!: malloc_step[OF that(1)])
  show "gives (query_elem_mem xl (Some c) (Some p)) h ?post"
    unfolding query_elem_mem_def prod.case option.case gives_bind eval_root_mem_def
  proof (rule allocating.within[OF eval_mem.reads len obtains_refl[OF wf]])
    fix r k
    let ?items = "handle_list (query_eval (xl_eval xl) (doc_of c) (Some (qc_root c)) p True)"
    assume r: "obtains_blocks h ({} \<union> {}) k" "fst r \<in> {handle_list None, ?items} \<and> (\<exists>c'. snd r = Some c' \<and> same_doc c c')"
      "(\<forall>n. hp_ok h n) \<longrightarrow> fst r = ?items"
    have "?v = (case ?items of [] \<Rightarrow> None | i # _ \<Rightarrow> Some i)" by (simp add: first_handle query_eval_root_def)
    then show "gives (case r of (items, ctx) \<Rightarrow> (case items of [] \<Rightarrow> op_return (None, ctx)
        | i # _ \<Rightarrow> op_bind op_malloc (\<lambda>e. op_return (map_option (\<lambda>b. (b, i)) e, ctx)))) k ?post"
      unfolding case_prod_beta using r by (intro make) (auto split: list.splits)
  qed
qed

interpretation elem_call: allocating "query_elem_mem xl (Some c) (Some p)" "length p < 2 ^ 48"
    "\<lambda>r. result_block (fst r)"
    "\<lambda>r. fst r \<noteq> None \<longrightarrow> map_option snd (fst r) = hes_query_elem (xl_eval xl) (doc_of c) p"
    "\<lambda>r. map_option snd (fst r) = hes_query_elem (xl_eval xl) (doc_of c) p" for xl c p
  by (rule elem_allocating)

section \<open>Documents and errors\<close>

definition doc_blocks :: "query_ctx option \<Rightarrow> nat set" where
  "doc_blocks ctx = (case ctx of None \<Rightarrow> {} | Some c \<Rightarrow> {qx_block c, qx_doc c})"

lemma open_allocating:
  "allocating (query_open_mem xmlParseFile filepath) True doc_blocks
     (\<lambda>r. \<forall>c. r = Some c \<longrightarrow> hes_query_open xmlParseFile filepath = Some (doc_of c) \<and> qx_doc c \<noteq> qx_block c
        \<and> query_last_error r = [])
     (\<lambda>r. map_option doc_of r = hes_query_open xmlParseFile filepath)"
proof
  fix h :: heap_st
  assume wf: "heap_wf h"
  show "gives (query_open_mem xmlParseFile filepath) h (\<lambda>r k. obtains_blocks h (doc_blocks r) k
      \<and> (\<forall>c. r = Some c \<longrightarrow> hes_query_open xmlParseFile filepath = Some (doc_of c) \<and> qx_doc c \<noteq> qx_block c
           \<and> query_last_error r = [])
      \<and> ((\<forall>n. hp_ok h n) \<longrightarrow> map_option doc_of r = hes_query_open xmlParseFile filepath))"
      (is "gives _ h ?Q")
  proof (cases "\<exists>f r. filepath = Some f \<and> xmlParseFile f = Some r")
    case False
    then show ?thesis
      using wf by (auto simp: query_open_mem_def hes_query_open_def doc_blocks_def obtains_refl split: option.splits)
  next
    case True
    then obtain f r where f: "filepath = Some f" "xmlParseFile f = Some r" by blast
    have no_root: "gives (op_bind (op_free d) (\<lambda>_. op_return None)) k ?Q"
      if "obtains_blocks h {d} k" "(\<forall>n. hp_ok h n) \<longrightarrow> r = None" for d k
      unfolding gives_bind by (rule free_last[OF that(1)]) (use that f in \<open>auto simp: doc_blocks_def hes_query_open_def\<close>)
    have rooted: "gives (op_bind op_malloc (\<lambda>ctx. case ctx of
          None \<Rightarrow> op_bind (op_free d) (\<lambda>_. op_return None)
        | Some b \<Rightarrow> op_return (Some \<lparr>qc_root = e, qx_block = b, qx_doc = d, qx_last_error = []\<rparr>))) k ?Q"
      if "obtains_blocks h {d} k" "r = Some e" for d e k
      unfolding gives_bind[of op_malloc]
      by (rule malloc_step[OF that(1)])
        (use f that no_root in \<open>auto simp: doc_blocks_def hes_query_open_def query_last_error_def simp del: gives_bind\<close>)
    have none: "doc_blocks None = {}" by (simp add: doc_blocks_def)
    have opens: "query_open_mem xmlParseFile filepath = op_bind op_malloc (\<lambda>doc. case doc of
          None \<Rightarrow> op_return None
        | Some d \<Rightarrow> (case r of None \<Rightarrow> op_bind (op_free d) (\<lambda>_. op_return None)
            | Some e \<Rightarrow> op_bind op_malloc (\<lambda>ctx. case ctx of
                None \<Rightarrow> op_bind (op_free d) (\<lambda>_. op_return None)
              | Some b \<Rightarrow> op_return (Some \<lparr>qc_root = e, qx_block = b, qx_doc = d, qx_last_error = []\<rparr>))))"
      by (simp add: query_open_mem_def f)
    show ?thesis
      unfolding opens gives_bind[of op_malloc]
      by (rule malloc_step[OF obtains_refl[OF wf]])
        (use no_root rooted in \<open>auto simp: none simp del: gives_bind split: option.splits\<close>)
  qed
qed

interpretation open_call: allocating "query_open_mem xmlParseFile filepath" True doc_blocks
    "\<lambda>r. \<forall>c. r = Some c \<longrightarrow> hes_query_open xmlParseFile filepath = Some (doc_of c) \<and> qx_doc c \<noteq> qx_block c
        \<and> query_last_error r = []"
    "\<lambda>r. map_option doc_of r = hes_query_open xmlParseFile filepath" for xmlParseFile filepath
  by (rule open_allocating)

lemma eval_error_fits [buf_bounds]: "length (eval_error xl xpath) < 256"
  by (simp add: eval_error_def)

lemma list_free_step:
  assumes "obtains_blocks h (array_blocks l) k" "listed items l n \<or> l = None" "\<And>k. obtains_blocks h {} k \<Longrightarrow> Q () k"
  shows "gives (query_elem_list_free l) k Q"
proof (cases l)
  case None
  then show ?thesis using assms by (simp add: query_elem_list_free_def)
next
  case (Some ae)
  obtain a es where ae: "ae = (a, es)" by fastforce
  have "distinct (a # map fst es)" using assms(2) by (auto simp: listed_def Some ae)
  then show ?thesis
    using assms(1,3) unfolding query_elem_list_free_def Some ae option.case prod.case gives_bind
    by (intro free_elems_step[of h "{a}"]) (auto simp: elem_blocks_def simp del: gives_free intro!: free_last)
qed

section \<open>Properties\<close>

text \<open>C33: A path never outgrows its buffer. Whatever requests for memory fail, the translation of a path is
  written within the buffer as it grows, ends without a fault, and is the translation of theory Query;
  when memory runs out there is no result and no block is kept.\<close>

theorem path_buffer_safe:
  assumes "heap_wf h" "length p < 2 ^ 48"
  shows "\<exists>r k. translate_path_mem p a h = Inr (r, k) \<and>
    (case r of None \<Rightarrow> hp_live k = hp_live h \<and> \<not> (\<forall>n. hp_ok h n)
     | Some (b, s) \<Rightarrow> s = translate_path p a \<and> b \<notin> hp_live h \<and> hp_live k = insert b (hp_live h))"
proof -
  obtain r k where r: "translate_path_mem p a h = Inr (r, k)" "obtains_blocks h (path_block r) k"
    "\<forall>b s. r = Some (b, s) \<longrightarrow> s = translate_path p a" "(\<forall>n. hp_ok h n) \<longrightarrow> r \<noteq> None"
    by (rule path_mem.result[OF assms(2,1)])
  then show ?thesis by (auto simp: obtains_blocks_def split: option.splits)
qed

theorem path_buffer_safe_witness:
  "\<exists>b k. translate_path_mem ''a[2].b'' True \<lparr>hp_ok = \<lambda>_. True, hp_next = 0, hp_live = {}\<rparr> = Inr (Some (b, ''/a[3]/b''), k)
     \<and> hp_live k = {b}"
proof -
  have wf: "heap_wf \<lparr>hp_ok = \<lambda>_. True, hp_next = 0, hp_live = {}\<rparr>" by (simp add: heap_wf_def)
  have "translate_path ''a[2].b'' True = ''/a[3]/b''" by code_simp
  then show ?thesis
    using path_buffer_safe[OF wf, of "''a[2].b''" True] by (auto split: option.splits)
qed

text \<open>C34: A list of handles is the list of the nodes. Whatever requests for memory fail, listing the elements
  at a path ends without a fault, in handles of exactly the nodes the path means, in document order, or
  in none; none without cause only when memory ran out; and freeing the list gives every block back.\<close>

theorem handles_of_nodes:
  assumes "heap_wf h" "length p < 2 ^ 48"
  shows "\<exists>l n c' k k'. query_elem_list_mem xl (Some c) (Some p) h = Inr ((l, n, Some c'), k) \<and> doc_of c' = doc_of c
    \<and> (case l of
          None \<Rightarrow> n = 0 \<and> ((\<forall>i. hp_ok h i) \<longrightarrow> hes_query_elem_list (xl_eval xl) (doc_of c) p = [])
        | Some (a, es) \<Rightarrow> map snd es = hes_query_elem_list (xl_eval xl) (doc_of c) p \<and> n = length es)
    \<and> query_elem_list_free l k = Inr ((), k') \<and> hp_live k' = hp_live h"
proof -
  obtain r k where r: "query_elem_list_mem xl (Some c) (Some p) h = Inr (r, k)"
    "obtains_blocks h (array_blocks (fst r)) k" "lists_items (hes_query_elem_list (xl_eval xl) (doc_of c) p) c r"
    "(\<forall>n. hp_ok h n) \<longrightarrow> (fst r = None \<longleftrightarrow> hes_query_elem_list (xl_eval xl) (doc_of c) p = [])"
    by (rule list_call.result[OF assms(2,1)])
  obtain l n ctx where ln: "r = (l, n, ctx)" by (cases r) auto
  have "gives (query_elem_list_free l) k (\<lambda>_ k'. hp_live k' = hp_live h)"
    by (rule list_free_step[of h l k "hes_query_elem_list (xl_eval xl) (doc_of c) p" n])
      (use r ln in \<open>auto simp: lists_items_def obtains_blocks_def\<close>)
  then obtain k' where "query_elem_list_free l k = Inr ((), k')" "hp_live k' = hp_live h"
    by (auto simp: gives_result)
  moreover have "n = length (snd ae)" if "l = Some ae" for ae
    using r(3) that by (auto simp: ln lists_items_def listed_def dest!: arg_cong[where f = length])
  ultimately show ?thesis
    using r by (cases l) (auto simp: ln lists_items_def listed_def dest: same_doc_root)
qed

theorem handles_of_nodes_witness:
  "\<exists>l n c' k k'. query_elem_list_mem \<lparr>xl_eval = \<lambda>_ _ _. Some (Node_set [Node_item Other_node]), xl_message = \<lambda>_. None,
      xl_name = \<lambda>_. None\<rparr> (Some \<lparr>qc_root = Other_node, qx_block = 0, qx_doc = 1, qx_last_error = []\<rparr>) (Some ''a'')
      \<lparr>hp_ok = \<lambda>_. True, hp_next = 2, hp_live = {0, 1}\<rparr> = Inr ((l, n, Some c'), k)
    \<and> (case l of None \<Rightarrow> False | Some (a, es) \<Rightarrow> map snd es = [Node_item Other_node] \<and> n = 1)
    \<and> query_elem_list_free l k = Inr ((), k') \<and> hp_live k' = {0, 1}"
proof -
  let ?h = "\<lparr>hp_ok = \<lambda>_. True, hp_next = 2, hp_live = {0, 1}\<rparr>"
  have "heap_wf ?h" by (simp add: heap_wf_def)
  then show ?thesis
    using handles_of_nodes[of ?h "''a''" "\<lparr>xl_eval = \<lambda>_ _ _. Some (Node_set [Node_item Other_node]), xl_message = \<lambda>_. None,
      xl_name = \<lambda>_. None\<rparr>" "\<lparr>qc_root = Other_node, qx_block = 0, qx_doc = 1, qx_last_error = []\<rparr>"]
    by (fastforce simp: hes_query_elem_list_def query_eval_root_def query_eval_def split: option.splits prod.splits)
qed

end
