(* ===== verification/TagDecode.thy ===== *)
theory TagDecode
  imports SensorTag
begin

text \<open>
  The decoders of the SensorTag's readings, as the stand-alone readers of the real tag have them
  (src/src/devices/ti_cc2650/tests/sensortag_*_test.c): what the bytes of a characteristic mean. A
  value that is a small integer over a power of two is computed exactly.
\<close>

type_synonym u16 = "16 word"

definition le16 :: "u8 \<Rightarrow> u8 \<Rightarrow> u16" where
  "le16 lo hi = or (ucast lo) (push_bit 8 (ucast hi))"

section \<open>The decoders\<close>

text \<open>TI's HDC1000: temperature and relative humidity.\<close>

definition convert_humidity :: "u8 list \<Rightarrow> dbl \<times> dbl" where
  "convert_humidity data =
     (if length data < 4 then (d_zero, d_zero)
      else let raw_temp = le16 (data ! 0) (data ! 1); raw_humid = le16 (data ! 2) (data ! 3)
           in (d_sub (d_mul (d_div (d_of_int (uint raw_temp)) (DFin False 65536)) (DFin False 165)) (DFin False 40),
               d_mul (d_div (d_of_int (uint raw_humid)) (DFin False 65536)) (DFin False 100)))"

text \<open>BMP280: 24 bits of hundredths of a hectopascal.\<close>

definition convert_pressure :: "u8 list \<Rightarrow> dbl" where
  "convert_pressure data =
     (if length data < 6 then d_zero
      else let raw = or (or (ucast (data ! 3)) (push_bit 8 (ucast (data ! 4)))) (push_bit 16 (ucast (data ! 5))) :: u32
           in d_div (d_of_int (uint raw)) (DFin False 100))"

text \<open>OPT3001: a mantissa of 12 bits and an exponent of 4; \<open>0.01\<close> is the double next to it.\<close>

definition convert_lux :: "u8 list \<Rightarrow> dbl" where
  "convert_lux data =
     (if length data < 2 then d_zero
      else let raw = le16 (data ! 0) (data ! 1);
               mantissa = and raw 0x0FFF;
               exponent = and (drop_bit 12 raw) 0x000F
           in d_mul (d_of_int (uint mantissa))
                (d_mul (round64 False (1 / 100)) (d_of_int (push_bit (unat exponent) 1))))"

text \<open>The mean distance of the samples from the baseline.\<close>

definition convert_audio_level :: "u8 list \<Rightarrow> dbl" where
  "convert_audio_level data =
     (if length data = 0 then d_zero
      else let total = fold (\<lambda>s (total :: u64). let dev = uint s - 128
                 in total + (if dev < 0 then word_of_int (- dev) else word_of_int dev)) data 0
           in d_div (d_of_int (uint total)) (d_of_int (int (length data))))"

text \<open>MPU-9250: nine signed values. None when the reading is short: the outputs are left as they are.\<close>

definition raw_motion :: "u8 list \<Rightarrow> nat \<Rightarrow> int" where
  "raw_motion data i = sint (le16 (data ! (2 * i)) (data ! (2 * i + 1)))"

definition convert_motion :: "u8 list \<Rightarrow> (dbl list \<times> dbl list \<times> dbl list) option" where
  "convert_motion data =
     (if length data < 18 then None
      else Some (map (\<lambda>i. d_mul (d_of_int (raw_motion data i)) (d_div (DFin False 500) (DFin False 65536))) [0..<3],
                 map (\<lambda>i. d_mul (d_of_int (raw_motion data (i + 3))) (d_div (DFin False 8) (DFin False 32768))) [0..<3],
                 map (\<lambda>i. d_mul (d_of_int (raw_motion data (i + 6))) d_one) [0..<3]))"

section \<open>Doubles that are exact\<close>

lemma ilog2_dyadic:
  assumes "0 < n" "n < 2 ^ 53" "j \<le> 53"
  shows "ilog2 (of_int n / 2 ^ j) \<le> 52 - int j"
proof -
  obtain a d where ad: "quotient_of (of_int n / 2 ^ j) = (a, d)" by (rule prod.exhaust)
  then have d: "0 < d" "of_int n / 2 ^ j = (of_int a / of_int d :: rat)"
    by (simp_all add: quotient_of_denom_pos quotient_of_div)
  have "(of_int (2 ^ j * a) :: rat) = of_int (n * d)" using d by (simp add: field_simps)
  then have eq: "2 ^ j * a = n * d" by (simp only: of_int_eq_iff)
  have "0 < 2 ^ j * a" unfolding eq using assms(1) d(1) by simp
  then have "0 < a" by (simp add: zero_less_mult_iff)
  have "2 ^ j * a \<le> 2 ^ 53 * d" unfolding eq using assms(2) d(1) by simp
  then have "ibits (2 ^ j * a) \<le> ibits (2 ^ 53 * d)" by (rule ibits_mono)
  then have le: "ibits a - ibits d \<le> 53 - int j" using ibits_shift[OF \<open>0 < a\<close>, of j] ibits_shift[OF d(1), of 53] by simp
  have top: "pow2r (53 - int j) = 2 ^ 53 / 2 ^ j"
    using assms(3) by (simp add: pow2r_def nat_diff_distrib power_diff)
  have "(of_int n :: rat) < of_int (2 ^ 53)" using assms(2) by (simp only: of_int_less_iff)
  then have "\<not> pow2r (53 - int j) \<le> of_int n / 2 ^ j" unfolding top by (simp add: divide_le_cancel not_le)
  then show ?thesis using le by (cases "ibits a - ibits d = 53 - int j") (simp_all add: ilog2_def ad Let_def)
qed

lemma round64_dyadic:
  assumes "0 \<le> n" "n < 2 ^ 53" "j \<le> 53"
  shows "round64 s (of_int n / 2 ^ j) = DFin s (of_int n / 2 ^ j)"
proof (cases "n = 0")
  case False
  define v where "v = (of_int n / 2 ^ j :: rat)"
  define e where "e = max (ilog2 v - 52) (- 1074)"
  have "e \<le> - int j" using ilog2_dyadic[of n j] assms False by (simp add: e_def v_def)
  then obtain m where m: "e = - int m" "j \<le> m" by (metis int_nat_eq minus_minus neg_le_iff_le of_nat_le_iff of_nat_0_le_iff order_trans)
  then obtain k where k: "m = j + k" by (metis le_iff_add)
  have p: "pow2r e = 1 / 2 ^ (j + k)" by (simp add: pow2r_def m(1) flip: k)
  have "v / pow2r e = of_int (n * 2 ^ k)" by (simp add: v_def p power_add)
  then have "round_even (v / pow2r e) = n * 2 ^ k" by (simp only: round_even_int)
  then have r: "of_int (round_even (v / pow2r e)) * pow2r e = v" by (simp add: p v_def power_add)
  have "v \<le> of_int n" using assms(1) by (simp add: v_def divide_le_eq mult_le_cancel_left1)
  also have "\<dots> < of_int (2 ^ 1024)" using assms(2) by (simp only: of_int_less_iff) simp
  finally have "v < 2 ^ 1024" by simp
  then show ?thesis using r False by (simp add: round64_def e_def[symmetric] v_def[symmetric] Let_def)
qed (simp add: round64_def)

section \<open>What the bytes mean\<close>

lemma uint_le16: "uint (le16 lo hi) = uint lo + 256 * uint hi"
proof -
  have small: "take_bit 16 (uint b) = uint b" "take_bit 16 (push_bit 8 (uint b)) = push_bit 8 (uint b)" for b :: u8
    using uint_bounded[of b] uint_nonnegative[of b] by (simp_all add: take_bit_int_eq_self push_bit_eq_mult)
  have "uint (le16 lo hi) = or (uint lo) (push_bit 8 (uint hi))"
    by (simp add: le16_def unsigned_or_eq unsigned_push_bit_eq unsigned_ucast_eq small)
  also have "\<dots> = uint lo + push_bit 8 (uint hi)"
    by (rule disjunctive_add[symmetric]) (auto simp: bit_push_bit_iff bit_uint_iff)
  finally show ?thesis by (simp add: push_bit_eq_mult)
qed

text \<open>The double with exactly this value.\<close>

definition exact :: "rat \<Rightarrow> dbl" where
  "exact q = DFin (q < 0) \<bar>q\<bar>"

lemma d_of_int_exact: "\<bar>n\<bar> < 2 ^ 53 \<Longrightarrow> d_of_int n = exact (of_int n)"
  using round64_int[of "\<bar>n\<bar>" "n < 0"] by (simp add: exact_def)

lemma exact_mul:
  assumes "q * c = of_int n / 2 ^ j" "0 < c" "\<bar>n\<bar> < 2 ^ 53" "j \<le> 53"
  shows "d_mul (exact q) (DFin False c) = exact (q * c)"
proof -
  have "\<bar>q\<bar> * c = \<bar>q * c\<bar>" using assms(2) by (simp add: abs_mult)
  also have "\<dots> = of_int \<bar>n\<bar> / 2 ^ j" by (simp add: assms(1))
  finally have "round64 (q < 0) (\<bar>q\<bar> * c) = DFin (q < 0) \<bar>q * c\<bar>"
    using round64_dyadic[of "\<bar>n\<bar>" j "q < 0"] assms(3,4) by (simp add: assms(1))
  then show ?thesis using assms(2) by (simp add: exact_def mult_less_0_iff)
qed

lemma exact_div:
  assumes "q / c = of_int n / 2 ^ j" "0 < c" "\<bar>n\<bar> < 2 ^ 53" "j \<le> 53"
  shows "d_div (exact q) (DFin False c) = exact (q / c)"
proof -
  have "\<bar>q\<bar> / c = \<bar>q / c\<bar>" using assms(2) by simp
  also have "\<dots> = of_int \<bar>n\<bar> / 2 ^ j" by (simp add: assms(1))
  finally have "round64 (q < 0) (\<bar>q\<bar> / c) = DFin (q < 0) \<bar>q / c\<bar>"
    using round64_dyadic[of "\<bar>n\<bar>" j "q < 0"] assms(3,4) by (simp add: assms(1))
  then show ?thesis using assms(2) by (simp add: exact_def divide_less_0_iff)
qed

lemma exact_sub:
  assumes "q - c = of_int n / 2 ^ j" "0 \<le> q" "0 < c" "\<bar>n\<bar> < 2 ^ 53" "j \<le> 53"
  shows "d_sub (exact q) (DFin False c) = exact (q - c)"
proof -
  have "round64 (q - c < 0) \<bar>q - c\<bar> = DFin (q - c < 0) \<bar>q - c\<bar>"
    using round64_dyadic[of "\<bar>n\<bar>" j "q - c < 0"] assms by simp
  then show ?thesis using assms(2,3) by (simp add: exact_def d_sub_def sval_def Let_def)
qed

text \<open>A little-endian pair as an unsigned and as a signed number.\<close>

definition pair_at :: "u8 list \<Rightarrow> nat \<Rightarrow> int" where
  "pair_at data i = uint (data ! i) + 256 * uint (data ! (i + 1))"

definition signed_pair :: "u8 list \<Rightarrow> nat \<Rightarrow> int" where
  "signed_pair data i = (if pair_at data i < 32768 then pair_at data i else pair_at data i - 65536)"

lemma pair_range: "0 \<le> pair_at data i" "pair_at data i < 65536"
  using uint_bounded[of "data ! i"] uint_bounded[of "data ! (i + 1)"] by (simp_all add: pair_at_def)

lemma signed_pair_range: "- 32768 \<le> signed_pair data i" "signed_pair data i < 32768"
  using pair_range[of data i] by (simp_all add: signed_pair_def)

lemma raw_motion_pair: "raw_motion data i = signed_pair data (2 * i)"
proof -
  have "uint w div 32768 = 1" if "32768 \<le> uint w" for w :: u16
    using that uint_bounded[of w] by (simp add: div_pos_geq div_pos_pos_trivial)
  then have "sint w = (if uint w < 32768 then uint w else uint w - 65536)" for w :: u16
    using uint_bounded[of w] by (simp add: sint_uint signed_take_bit_eq_take_bit_minus bit_uint_iff
        bit_iff_odd drop_bit_eq_div not_less) (auto simp: take_bit_int_eq_self)
  then show ?thesis by (simp add: raw_motion_def signed_pair_def pair_at_def uint_le16)
qed

lemma humidity_decoded:
  assumes "4 \<le> length data"
  shows "convert_humidity data =
    (exact (of_int (pair_at data 0) / 65536 * 165 - 40), exact (of_int (pair_at data 2) / 65536 * 100))"
proof -
  let ?t = "pair_at data 0" and ?h = "pair_at data 2"
  have raw: "uint (le16 (data ! 0) (data ! 1)) = ?t" "uint (le16 (data ! 2) (data ! 3)) = ?h"
    by (simp_all add: uint_le16 pair_at_def)
  note range = pair_range[of data 0] pair_range[of data 2]
  have unit: "d_div (d_of_int r) (DFin False 65536) = exact (of_int r / 65536)" if "0 \<le> r" "r < 65536" for r
    using that d_of_int_exact[of r] exact_div[of "of_int r" 65536 r 16] by (simp del: d_of_int.simps)
  have scaled: "d_mul (exact (of_int r / 65536)) (DFin False (of_int c)) = exact (of_int r / 65536 * of_int c)"
    if "0 \<le> r" "r < 65536" "0 < c" "c < 1000" for r c
  proof -
    have "r * c < 2 ^ 53" using that mult_strict_mono[of r 65536 c 1000] by simp
    then show ?thesis using that by (intro exact_mul[where n = "r * c" and j = 16]) simp_all
  qed
  have "d_sub (exact (of_int ?t / 65536 * 165)) (DFin False 40) = exact (of_int ?t / 65536 * 165 - 40)"
    using range by (intro exact_sub[where n = "?t * 165 - 40 * 65536" and j = 16]) (simp_all add: field_simps)
  then show ?thesis
    using assms unit scaled[of ?t 165] scaled[of ?h 100] range
    by (simp add: convert_humidity_def raw[simplified] Let_def del: d_of_int.simps)
qed

lemma motion_decoded:
  assumes "18 \<le> length data"
  shows "convert_motion data = Some
    (map (\<lambda>i. exact (of_int (signed_pair data (2 * i)) * (500 / 65536))) [0..<3],
     map (\<lambda>i. exact (of_int (signed_pair data (2 * i + 6)) * (8 / 32768))) [0..<3],
     map (\<lambda>i. exact (of_int (signed_pair data (2 * i + 12)))) [0..<3])"
proof -
  have num: "d_of_int (raw_motion data i) = exact (of_int (signed_pair data (2 * i)))" for i
    using signed_pair_range[of data "2 * i"] by (subst d_of_int_exact) (simp_all add: raw_motion_pair abs_less_iff)
  have unit: "d_div (DFin False 500) (DFin False 65536) = DFin False (500 / 65536)"
    "d_div (DFin False 8) (DFin False 32768) = DFin False (8 / 32768)"
    using round64_dyadic[of 500 16 False] round64_dyadic[of 8 15 False] by simp_all
  have scaled: "d_mul (exact (of_int (signed_pair data k))) (DFin False (of_int c / 2 ^ j))
      = exact (of_int (signed_pair data k) * (of_int c / 2 ^ j))" if "0 < c" "c < 1000" "j \<le> 53" for k c j
  proof -
    have "\<bar>signed_pair data k * c\<bar> \<le> 32768 * 1000"
      using signed_pair_range[of data k] that unfolding abs_mult by (intro mult_mono) auto
    then show ?thesis using that by (intro exact_mul[where n = "signed_pair data k * c" and j = j]) simp_all
  qed
  show ?thesis
    using assms scaled[of 500 16] scaled[of 8 15] scaled[of 1 0]
    by (simp add: convert_motion_def num unit d_one_def algebra_simps del: d_of_int.simps d_mul.simps d_div.simps)
qed

text \<open>The formulas of the documentation.\<close>

definition temp_of :: "u8 list \<Rightarrow> rat" where
  "temp_of data = of_int (pair_at data 0) / 65536 * 165 - 40"

definition humid_of :: "u8 list \<Rightarrow> rat" where
  "humid_of data = of_int (pair_at data 2) / 65536 * 100"

text \<open>C37: A reading of the tag is exactly what its bytes say. A humidity reading gives the temperature and
  the relative humidity of the sensor's formulas with no rounding error, from -40 degrees up to 125 and
  from 0 up to 100 percent; a motion reading gives nine signed numbers in the units and the order of the
  documentation.\<close>

theorem readings_exact:
  "(4 \<le> length data \<longrightarrow>
      convert_humidity data = (exact (temp_of data), exact (humid_of data))
      \<and> - 40 \<le> temp_of data \<and> temp_of data < 125 \<and> 0 \<le> humid_of data \<and> humid_of data < 100)
   \<and> (18 \<le> length data \<longrightarrow>
      convert_motion data = Some
        (map (\<lambda>i. exact (of_int (signed_pair data (2 * i)) * (500 / 65536))) [0..<3],
         map (\<lambda>i. exact (of_int (signed_pair data (2 * i + 6)) * (8 / 32768))) [0..<3],
         map (\<lambda>i. exact (of_int (signed_pair data (2 * i + 12)))) [0..<3]))"
proof -
  have unit: "0 \<le> (of_int (pair_at data i) :: rat)" "(of_int (pair_at data i) :: rat) < 65536" for i
  proof -
    have "(of_int (pair_at data i) :: rat) < of_int 65536" using pair_range(2) by (simp only: of_int_less_iff)
    then show "(of_int (pair_at data i) :: rat) < 65536" by simp
  qed (use pair_range(1) in simp)
  have "- 40 \<le> temp_of data" "temp_of data < 125" "0 \<le> humid_of data" "humid_of data < 100"
    unfolding temp_of_def humid_of_def using unit[of 0] unit[of 2] by linarith+
  then show ?thesis
    using humidity_decoded[of data, folded temp_of_def humid_of_def] motion_decoded[of data] by blast
qed

theorem readings_exact_witness:
  "convert_humidity [0, 0x80, 0, 0x40] = (exact (85 / 2), exact 25)
   \<and> (\<exists>g a m. convert_motion (replicate 6 0 @ [0, 0x10] @ replicate 10 0xFF) = Some (g, a, m) \<and> hd a = exact 1
        \<and> hd m = exact (- 1))"
proof
  show "convert_humidity [0, 0x80, 0, 0x40] = (exact (85 / 2), exact 25)"
    using readings_exact[of "[0, 0x80, 0, 0x40]"] by (simp add: pair_at_def temp_of_def humid_of_def)
  let ?d = "replicate 6 0 @ [0, 0x10] @ replicate 10 0xFF :: u8 list"
  have at: "signed_pair ?d 6 = 4096" "signed_pair ?d 12 = - 1" by code_simp+
  have "[0..<3] = [0, 1, 2 :: nat]" by (simp add: upt_rec)
  then show "\<exists>g a m. convert_motion ?d = Some (g, a, m) \<and> hd a = exact 1 \<and> hd m = exact (- 1)"
    using readings_exact[of ?d] at by (simp del: replicate.simps append.simps)
qed

end
