(* ===== verification/TagBench.thy ===== *)
theory TagBench
  imports TagDecode Blocks "HOL-Library.Sublist"
begin

text \<open>
  The stand-alone readers of a real SensorTag (src/src/devices/ti_cc2650/tests/): each connects to the
  tag through BlueZ, finds the characteristics of one sensor by their UUIDs, switches the sensor on,
  reads it on a timer until it is interrupted, and switches it off and disconnects. The five readers on a
  timer are one program with different settings; the battery and the button readers are their own.

  A reference to a proxy, a variant or an iterator is a block of the heap of theory Blocks: what a call
  returns is obtained, \<open>unref\<close> and \<open>free\<close> give it back. Whether the n-th request yields anything, a
  connection, a proxy or the reply of a call, is the environment's choice. A cached property is looked
  at and released at once and is not counted. What the bus knows of the tag is the record \<open>tag_bus\<close>,
  and the number of timer ticks before the interrupt an argument. Printing is left out but for the
  values printed.
\<close>

text \<open>The calls made on the tag; of connecting and of reading also whether they were answered.\<close>

datatype tag_call =
  Tag_connect bool | Tag_read bool | Tag_disconnect | Tag_write "u8 list" | Tag_start_notify | Tag_stop_notify

record bench = heap_st +
  bn_calls :: "tag_call list"

type_synonym 'a bench_op = "bench \<Rightarrow> heap_fault + ('a \<times> bench)"

text \<open>The cached \<open>ServicesResolved\<close> at each look, the managed objects with their interfaces and the string
  property \<open>UUID\<close> of each, and the value of the characteristic at each reading.\<close>

record tag_bus =
  tb_resolved :: "nat \<Rightarrow> bool option"
  tb_objects :: "(string \<times> (string \<times> string option) list) list"
  tb_value :: "nat \<Rightarrow> u8 list"

definition note_call :: "tag_call \<Rightarrow> unit bench_op" where
  "note_call c = (\<lambda>h. Inr ((), h\<lparr>bn_calls := bn_calls h @ [c]\<rparr>))"

text \<open>\<open>g_dbus_proxy_call_sync\<close>: the reply, or none and an error.\<close>

definition proxy_call :: "(bool \<Rightarrow> tag_call) \<Rightarrow> nat option bench_op" where
  "proxy_call c = op_bind op_malloc (\<lambda>reply. op_bind (note_call (c (reply \<noteq> None))) (\<lambda>_. op_return reply))"

text \<open>GLib gives a reference or ends the program.\<close>

definition op_new :: "nat bench_op" where
  "op_new = (\<lambda>h. Inr (hp_next h, h\<lparr>hp_next := hp_next h + 1, hp_live := insert (hp_next h) (hp_live h)\<rparr>))"

section \<open>What the readers share\<close>

abbreviation DEVICE_PATH :: string where "DEVICE_PATH \<equiv> ''/org/bluez/hci0/dev_54_6C_0E_B7_20_04''"
abbreviation CHAR_INTERFACE :: string where "CHAR_INTERFACE \<equiv> ''org.bluez.GattCharacteristic1''"

definition resolved_at :: "tag_bus \<Rightarrow> nat \<Rightarrow> bool" where
  "resolved_at b i = (case tb_resolved b i of None \<Rightarrow> False | Some r \<Rightarrow> r)"

definition wait_for_services_resolved :: "tag_bus \<Rightarrow> nat \<Rightarrow> bool" where
  "wait_for_services_resolved b timeout_sec =
     (resolved_at b 0 \<or> list_ex (\<lambda>i. resolved_at b (i + 1)) [0..<timeout_sec * 4])"

text \<open>The loop over the interfaces of one object: Some when it is left by \<open>goto done\<close>, with the proxy or
  NULL.\<close>

fun scan_ifaces :: "string \<Rightarrow> nat \<Rightarrow> (string \<times> string option) list \<Rightarrow> nat option option bench_op" where
  "scan_ifaces target ifaces_var [] = op_return None"
| "scan_ifaces target ifaces_var ((iface_name, uuid) # rest) =
     op_bind op_new (\<lambda>props_var.
       case (if iface_name = CHAR_INTERFACE then uuid else None) of
         None \<Rightarrow> op_bind (op_free props_var) (\<lambda>_. scan_ifaces target ifaces_var rest)
       | Some u \<Rightarrow>
           op_bind op_new (\<lambda>uuid_var.
             if map c_tolower u = map c_tolower target then
               op_bind op_malloc (\<lambda>result.
                 op_bind (op_free uuid_var) (\<lambda>_. op_bind (op_free props_var) (\<lambda>_.
                   op_bind (op_free ifaces_var) (\<lambda>_. op_return (Some result)))))
             else
               op_bind (op_free uuid_var) (\<lambda>_. op_bind (op_free props_var) (\<lambda>_.
                 scan_ifaces target ifaces_var rest))))"

fun scan_objects :: "string \<Rightarrow> string \<Rightarrow> (string \<times> (string \<times> string option) list) list \<Rightarrow> nat option bench_op" where
  "scan_objects device_path target [] = op_return None"
| "scan_objects device_path target ((obj_path, ifaces) # rest) =
     op_bind op_new (\<lambda>ifaces_var.
       if \<not> prefix device_path obj_path
       then op_bind (op_free ifaces_var) (\<lambda>_. scan_objects device_path target rest)
       else
         op_bind op_new (\<lambda>iface_iter.
           op_bind (scan_ifaces target ifaces_var ifaces) (\<lambda>found.
             case found of
               Some result \<Rightarrow> op_return result
             | None \<Rightarrow>
                 op_bind (op_free iface_iter) (\<lambda>_. op_bind (op_free ifaces_var) (\<lambda>_.
                   scan_objects device_path target rest)))))"

definition find_char_by_uuid :: "tag_bus \<Rightarrow> string \<Rightarrow> string \<Rightarrow> nat option bench_op" where
  "find_char_by_uuid b device_path target =
     op_bind op_malloc (\<lambda>om.
       case om of
         None \<Rightarrow> op_return None
       | Some om \<Rightarrow>
           op_bind op_malloc (\<lambda>objects.
             op_bind (op_free om) (\<lambda>_.
               case objects of
                 None \<Rightarrow> op_return None
               | Some objects \<Rightarrow>
                   op_bind op_new (\<lambda>obj_iter.
                     op_bind (scan_objects device_path target (tb_objects b)) (\<lambda>result.
                       op_bind (op_free obj_iter) (\<lambda>_. op_bind (op_free objects) (\<lambda>_. op_return result)))))))"

text \<open>The two ways out of \<open>main\<close> on an error, before and after the tag is connected.\<close>

definition drop_proxies :: "nat \<Rightarrow> nat \<Rightarrow> unit bench_op" where
  "drop_proxies dev conn = op_bind (op_free dev) (\<lambda>_. op_free conn)"

definition hang_up :: "nat \<Rightarrow> nat \<Rightarrow> unit bench_op" where
  "hang_up dev conn = op_bind (proxy_call (\<lambda>_. Tag_disconnect)) (\<lambda>_. drop_proxies dev conn)"

text \<open>The beginning of every \<open>main\<close>, up to the resolved services: the connection and the device's proxy, or
  none when the program has ended.\<close>

definition connect_tag :: "tag_bus \<Rightarrow> (nat \<times> nat) option bench_op" where
  "connect_tag b =
     op_bind op_malloc (\<lambda>connection.
       case connection of
         None \<Rightarrow> op_return None
       | Some conn \<Rightarrow>
           op_bind op_malloc (\<lambda>dev_proxy.
             case dev_proxy of
               None \<Rightarrow> op_bind (op_free conn) (\<lambda>_. op_return None)
             | Some dev \<Rightarrow>
                 op_bind (proxy_call Tag_connect) (\<lambda>reply.
                   if reply = None then op_bind (drop_proxies dev conn) (\<lambda>_. op_return None)
                   else if \<not> wait_for_services_resolved b 30
                   then op_bind (hang_up dev conn) (\<lambda>_. op_return None)
                   else op_return (Some (conn, dev)))))"

section \<open>The readers on a timer\<close>

record 'r sensor =
  se_data_uuid :: string
  se_conf_uuid :: string
  se_enable :: "u8 list"
  se_disable :: "u8 list"
  se_shown :: "u8 list \<Rightarrow> 'r option"

text \<open>A tick of the timer: what it prints of a reading, if anything. The timer always goes on.\<close>

definition on_read :: "'r sensor \<Rightarrow> tag_bus \<Rightarrow> nat \<Rightarrow> 'r option bench_op" where
  "on_read s b i =
     op_bind (proxy_call Tag_read) (\<lambda>val.
       case val of
         None \<Rightarrow> op_return None
       | Some val \<Rightarrow>
           op_bind op_new (\<lambda>bytes_variant.
             op_bind (op_free bytes_variant) (\<lambda>_. op_bind (op_free val) (\<lambda>_.
               op_return (se_shown s (tb_value b i))))))"

fun ticks :: "'r sensor \<Rightarrow> tag_bus \<Rightarrow> nat list \<Rightarrow> 'r option list bench_op" where
  "ticks s b [] = op_return []"
| "ticks s b (i # is) = op_bind (on_read s b i) (\<lambda>r. op_bind (ticks s b is) (\<lambda>rs. op_return (r # rs)))"

text \<open>\<open>cleanup\<close> when every proxy is there, as at the end of \<open>main\<close>.\<close>

definition sensor_cleanup :: "'r sensor \<Rightarrow> nat \<Rightarrow> nat \<Rightarrow> nat \<Rightarrow> nat \<Rightarrow> nat \<Rightarrow> unit bench_op" where
  "sensor_cleanup s conf data dev conn lp =
     op_bind (proxy_call (\<lambda>_. Tag_write (se_disable s))) (\<lambda>_.
       op_bind (op_free conf) (\<lambda>_. op_bind (op_free data) (\<lambda>_.
         op_bind (proxy_call (\<lambda>_. Tag_disconnect)) (\<lambda>_.
           op_bind (op_free dev) (\<lambda>_. op_bind (op_free conn) (\<lambda>_. op_free lp))))))"

text \<open>\<open>main\<close> in the order of the code, from its last part: the sensor is switched on, read and switched off;
  its second characteristic is found; its first. The result is the exit code and what was printed.\<close>

definition sensor_run ::
    "'r sensor \<Rightarrow> tag_bus \<Rightarrow> nat \<Rightarrow> nat \<Rightarrow> nat \<Rightarrow> nat \<Rightarrow> nat \<Rightarrow> (int \<times> 'r option list) bench_op" where
  "sensor_run s b n conn dev data conf =
     op_bind (proxy_call (\<lambda>_. Tag_write (se_enable s))) (\<lambda>_.
       op_bind op_new (\<lambda>lp.
         op_bind (ticks s b [0..<n]) (\<lambda>shown.
           op_bind (sensor_cleanup s conf data dev conn lp) (\<lambda>_. op_return (0, shown)))))"

definition sensor_configured ::
    "'r sensor \<Rightarrow> tag_bus \<Rightarrow> nat \<Rightarrow> nat \<Rightarrow> nat \<Rightarrow> nat \<Rightarrow> (int \<times> 'r option list) bench_op" where
  "sensor_configured s b n conn dev data =
     op_bind (find_char_by_uuid b DEVICE_PATH (se_conf_uuid s)) (\<lambda>conf_proxy.
       case conf_proxy of
         None \<Rightarrow> op_bind (op_free data) (\<lambda>_. op_bind (hang_up dev conn) (\<lambda>_. op_return (1, [])))
       | Some conf \<Rightarrow> sensor_run s b n conn dev data conf)"

definition sensor_main :: "'r sensor \<Rightarrow> tag_bus \<Rightarrow> nat \<Rightarrow> (int \<times> 'r option list) bench_op" where
  "sensor_main s b n =
     op_bind (connect_tag b) (\<lambda>tag.
       case tag of
         None \<Rightarrow> op_return (1, [])
       | Some (conn, dev) \<Rightarrow>
           op_bind (find_char_by_uuid b DEVICE_PATH (se_data_uuid s)) (\<lambda>data_proxy.
             case data_proxy of
               None \<Rightarrow> op_bind (hang_up dev conn) (\<lambda>_. op_return (1, []))
             | Some data \<Rightarrow> sensor_configured s b n conn dev data))"

text \<open>The settings of the five readers; \<open>main\<close> of each is \<open>sensor_main\<close> of its settings.\<close>

definition humid_sensor :: "(dbl \<times> dbl) sensor" where
  "humid_sensor =
     \<lparr>se_data_uuid = ''f000aa21-0451-4000-b000-000000000000'', se_conf_uuid = ''f000aa22-0451-4000-b000-000000000000'',
      se_enable = [1], se_disable = [0],
      se_shown = \<lambda>d. if length d \<ge> 4 then Some (convert_humidity d) else None\<rparr>"

definition bar_sensor :: "dbl sensor" where
  "bar_sensor =
     \<lparr>se_data_uuid = ''f000aa41-0451-4000-b000-000000000000'', se_conf_uuid = ''f000aa42-0451-4000-b000-000000000000'',
      se_enable = [1], se_disable = [0],
      se_shown = \<lambda>d. if length d \<ge> 6 then Some (convert_pressure d) else None\<rparr>"

definition light_sensor :: "dbl sensor" where
  "light_sensor =
     \<lparr>se_data_uuid = ''f000aa71-0451-4000-b000-000000000000'', se_conf_uuid = ''f000aa72-0451-4000-b000-000000000000'',
      se_enable = [1], se_disable = [0],
      se_shown = \<lambda>d. if length d \<ge> 2 then Some (convert_lux d) else None\<rparr>"

text \<open>The microphone's level and the length of its bar.\<close>

definition mic_sensor :: "(dbl \<times> int) sensor" where
  "mic_sensor =
     \<lparr>se_data_uuid = ''f000aa61-0451-4000-b000-000000000000'', se_conf_uuid = ''f000aa62-0451-4000-b000-000000000000'',
      se_enable = [1], se_disable = [0],
      se_shown = \<lambda>d. if length d > 0
        then (let level = convert_audio_level d
              in Some (level, if d_lt level (DFin False 30) then d_to_int level else 30)) else None\<rparr>"

definition motion_sensor :: "(dbl list \<times> dbl list \<times> dbl list) sensor" where
  "motion_sensor =
     \<lparr>se_data_uuid = ''f000aa81-0451-4000-b000-000000000000'', se_conf_uuid = ''f000aa82-0451-4000-b000-000000000000'',
      se_enable = [0x7F, 0], se_disable = [0, 0],
      se_shown = \<lambda>d. if length d \<ge> 18 then convert_motion d else None\<rparr>"

text \<open>The functions of each program: a tick of its timer, its clean-up and its \<open>main\<close>.\<close>

definition humid_read :: "tag_bus \<Rightarrow> nat \<Rightarrow> (dbl \<times> dbl) option bench_op" where
  "humid_read = on_read humid_sensor"

definition humid_cleanup :: "nat \<Rightarrow> nat \<Rightarrow> nat \<Rightarrow> nat \<Rightarrow> nat \<Rightarrow> unit bench_op" where
  "humid_cleanup = sensor_cleanup humid_sensor"

definition humid_main :: "tag_bus \<Rightarrow> nat \<Rightarrow> (int \<times> (dbl \<times> dbl) option list) bench_op" where
  "humid_main = sensor_main humid_sensor"

definition bar_read :: "tag_bus \<Rightarrow> nat \<Rightarrow> dbl option bench_op" where
  "bar_read = on_read bar_sensor"

definition bar_cleanup :: "nat \<Rightarrow> nat \<Rightarrow> nat \<Rightarrow> nat \<Rightarrow> nat \<Rightarrow> unit bench_op" where
  "bar_cleanup = sensor_cleanup bar_sensor"

definition bar_main :: "tag_bus \<Rightarrow> nat \<Rightarrow> (int \<times> dbl option list) bench_op" where
  "bar_main = sensor_main bar_sensor"

definition light_read :: "tag_bus \<Rightarrow> nat \<Rightarrow> dbl option bench_op" where
  "light_read = on_read light_sensor"

definition light_cleanup :: "nat \<Rightarrow> nat \<Rightarrow> nat \<Rightarrow> nat \<Rightarrow> nat \<Rightarrow> unit bench_op" where
  "light_cleanup = sensor_cleanup light_sensor"

definition light_main :: "tag_bus \<Rightarrow> nat \<Rightarrow> (int \<times> dbl option list) bench_op" where
  "light_main = sensor_main light_sensor"

definition mic_read :: "tag_bus \<Rightarrow> nat \<Rightarrow> (dbl \<times> int) option bench_op" where
  "mic_read = on_read mic_sensor"

definition mic_cleanup :: "nat \<Rightarrow> nat \<Rightarrow> nat \<Rightarrow> nat \<Rightarrow> nat \<Rightarrow> unit bench_op" where
  "mic_cleanup = sensor_cleanup mic_sensor"

definition mic_main :: "tag_bus \<Rightarrow> nat \<Rightarrow> (int \<times> (dbl \<times> int) option list) bench_op" where
  "mic_main = sensor_main mic_sensor"

definition motion_read :: "tag_bus \<Rightarrow> nat \<Rightarrow> (dbl list \<times> dbl list \<times> dbl list) option bench_op" where
  "motion_read = on_read motion_sensor"

definition motion_cleanup :: "nat \<Rightarrow> nat \<Rightarrow> nat \<Rightarrow> nat \<Rightarrow> nat \<Rightarrow> unit bench_op" where
  "motion_cleanup = sensor_cleanup motion_sensor"

definition motion_main :: "tag_bus \<Rightarrow> nat \<Rightarrow> (int \<times> (dbl list \<times> dbl list \<times> dbl list) option list) bench_op" where
  "motion_main = sensor_main motion_sensor"

section \<open>The battery and the buttons\<close>

text \<open>\<open>batt_level\<close> is -1 when no byte came.\<close>

definition battery_level :: "tag_bus \<Rightarrow> nat \<Rightarrow> nat \<Rightarrow> nat \<Rightarrow> nat \<Rightarrow> (int \<times> int) bench_op" where
  "battery_level b conn dev batt val =
     op_bind op_new (\<lambda>bytes_var.
       op_bind (op_free bytes_var) (\<lambda>_. op_bind (op_free val) (\<lambda>_. op_bind (op_free batt) (\<lambda>_.
         op_bind (hang_up dev conn) (\<lambda>_.
           op_return (0, case tb_value b 0 of [] \<Rightarrow> - 1 | x # _ \<Rightarrow> uint x))))))"

definition battery_read :: "tag_bus \<Rightarrow> nat \<Rightarrow> nat \<Rightarrow> nat \<Rightarrow> (int \<times> int) bench_op" where
  "battery_read b conn dev batt =
     op_bind (proxy_call Tag_read) (\<lambda>val.
       case val of
         None \<Rightarrow> op_bind (op_free batt) (\<lambda>_. op_bind (hang_up dev conn) (\<lambda>_. op_return (1, - 1)))
       | Some val \<Rightarrow> battery_level b conn dev batt val)"

definition battery_main :: "tag_bus \<Rightarrow> (int \<times> int) bench_op" where
  "battery_main b =
     op_bind (connect_tag b) (\<lambda>tag.
       case tag of
         None \<Rightarrow> op_return (1, - 1)
       | Some (conn, dev) \<Rightarrow>
           op_bind (find_char_by_uuid b DEVICE_PATH ''00002a19-0000-1000-8000-00805f9b34fb'') (\<lambda>batt_proxy.
             case batt_proxy of
               None \<Rightarrow> op_bind (hang_up dev conn) (\<lambda>_. op_return (1, - 1))
             | Some batt \<Rightarrow> battery_read b conn dev batt))"

text \<open>What a notification shows: whether anything is pressed, and of it the left key, the right key and the
  reed switch. None when there is no value or no byte in it.\<close>

definition on_properties_changed :: "u8 list option \<Rightarrow> (bool \<times> bool \<times> bool \<times> bool) option" where
  "on_properties_changed val =
     (case val of
        Some (state_byte # _) \<Rightarrow>
          Some (state_byte \<noteq> 0, and state_byte 1 \<noteq> 0, and state_byte 2 \<noteq> 0, and state_byte 4 \<noteq> 0)
      | _ \<Rightarrow> None)"

text \<open>Without its proxy the button reader runs all the same, and only cleans up less.\<close>

definition button_cleanup :: "nat option \<Rightarrow> nat \<Rightarrow> nat \<Rightarrow> nat \<Rightarrow> unit bench_op" where
  "button_cleanup char_proxy dev conn lp =
     op_bind (case char_proxy of
                None \<Rightarrow> op_return ()
              | Some c \<Rightarrow> op_bind (proxy_call (\<lambda>_. Tag_stop_notify)) (\<lambda>_. op_free c)) (\<lambda>_.
       op_bind (proxy_call (\<lambda>_. Tag_disconnect)) (\<lambda>_.
         op_bind (op_free dev) (\<lambda>_. op_bind (op_free conn) (\<lambda>_. op_free lp))))"

definition button_main :: "tag_bus \<Rightarrow> int bench_op" where
  "button_main b =
     op_bind (connect_tag b) (\<lambda>tag.
       case tag of
         None \<Rightarrow> op_return 1
       | Some (conn, dev) \<Rightarrow>
           op_bind op_malloc (\<lambda>char_proxy.
             op_bind (case char_proxy of
                        None \<Rightarrow> op_return ()
                      | Some c \<Rightarrow>
                          op_bind (proxy_call (\<lambda>_. Tag_start_notify)) (\<lambda>reply.
                            case reply of None \<Rightarrow> op_return () | Some r \<Rightarrow> op_free r)) (\<lambda>_.
               op_bind op_new (\<lambda>lp.
                 op_bind (button_cleanup char_proxy dev conn lp) (\<lambda>_. op_return 0)))))"

section \<open>What a run holds and has called\<close>

definition held :: "bench \<Rightarrow> nat set \<Rightarrow> tag_call list \<Rightarrow> bench \<Rightarrow> bool" where
  "held h B cs k \<longleftrightarrow> obtains_blocks h B k \<and> bn_calls k = bn_calls h @ cs"

lemma held_start: "heap_wf h \<Longrightarrow> held h {} [] h"
  by (simp add: held_def obtains_refl)

lemma held_malloc:
  assumes "held h B cs k"
    and "\<And>n k. n \<notin> B \<Longrightarrow> held h (insert n B) cs k \<Longrightarrow> Q (Some n) k" "\<And>k. held h B cs k \<Longrightarrow> Q None k"
  shows "gives op_malloc k Q"
proof -
  have k: "obtains_blocks h B k" "bn_calls k = bn_calls h @ cs" using assms(1) by (simp_all add: held_def)
  show ?thesis
    using assms(2)[OF obtains_fresh[OF k(1)]] assms(3) obtains_malloc[OF k(1)] obtains_failed[OF k(1)] k(2)
    by (simp add: held_def)
qed

lemma held_new:
  assumes "held h B cs k" "\<And>n k. n \<notin> B \<Longrightarrow> held h (insert n B) cs k \<Longrightarrow> Q n k"
  shows "gives op_new k Q"
proof -
  have k: "obtains_blocks h B k" "bn_calls k = bn_calls h @ cs" using assms(1) by (simp_all add: held_def)
  show ?thesis
    using assms(2)[OF obtains_fresh[OF k(1)]] obtains_malloc[OF k(1)] k(2) by (simp add: held_def gives_def op_new_def)
qed

lemma held_free:
  assumes "held h B cs k" "b \<in> B" "\<And>k. held h (B - {b}) cs k \<Longrightarrow> Q () k"
  shows "gives (op_free b) k Q"
proof -
  have k: "obtains_blocks h B k" "bn_calls k = bn_calls h @ cs" using assms(1) by (simp_all add: held_def)
  show ?thesis
    using assms(3) obtains_free[OF k(1) assms(2)] obtains_live[OF k(1) assms(2)] k(2) by (simp add: held_def)
qed

lemma held_note: "held h B cs k \<Longrightarrow> held h B (cs @ [c]) (k\<lparr>bn_calls := bn_calls k @ [c]\<rparr>)"
  by (simp add: held_def obtains_blocks_def heap_wf_def)

lemma held_call:
  assumes "held h B cs k"
    and "\<And>n k. n \<notin> B \<Longrightarrow> held h (insert n B) (cs @ [c True]) k \<Longrightarrow> Q (Some n) k"
    and "\<And>k. held h B (cs @ [c False]) k \<Longrightarrow> Q None k"
  shows "gives (proxy_call c) k Q"
  unfolding proxy_call_def gives_bind
  by (rule held_malloc[OF assms(1)]) (auto simp: gives_def note_call_def op_return_def intro: assms(2,3) held_note)

text \<open>A reply that is not looked at stays with the program.\<close>

lemma held_call_dropped:
  assumes "held h B cs k" "\<And>r C k. held h (B \<union> C) (cs @ [c]) k \<Longrightarrow> B \<inter> C = {} \<Longrightarrow> Q r k"
  shows "gives (proxy_call (\<lambda>_. c)) k Q"
  by (rule held_call[OF assms(1)]) (use assms(2)[of "{n}" for n] assms(2)[of "{}"] in auto)

section \<open>Finding a characteristic\<close>

text \<open>What is given back with a characteristic that was found: its UUID, its properties and the object's
  interfaces.\<close>

lemma found_held:
  assumes "held h (insert u (insert p (B \<union> set_option r))) cs k" "p \<notin> B" "u \<notin> insert p B"
    and "insert u (insert p B) \<inter> set_option r = {}" "v \<in> B"
    and "\<And>k. held h (B - {v} \<union> set_option r) cs k \<Longrightarrow> Q k"
  shows "gives (op_free u) k (\<lambda>_ k. gives (op_free p) k (\<lambda>_ k. gives (op_free v) k (\<lambda>_ k. Q k)))"
proof (rule held_free[OF assms(1)], simp, rule held_free, assumption)
  have s: "insert u (insert p (B \<union> set_option r)) - {u} - {p} = B \<union> set_option r" using assms(2-4) by auto
  have s': "B \<union> set_option r - {v} = B - {v} \<union> set_option r" using assms(4,5) by auto
  show "p \<in> insert u (insert p (B \<union> set_option r)) - {u}" using assms(3) by auto
  show "gives (op_free v) k' (\<lambda>_ k. Q k)"
    if "held h (insert u (insert p (B \<union> set_option r)) - {u} - {p}) cs k'" for k'
    by (rule held_free[OF that[unfolded s]]) (use assms(5,6) s' in auto)
qed

lemma hit_held:
  assumes "held h (insert u (insert p B)) cs k" "p \<notin> B" "u \<notin> insert p B" "v \<in> B"
    and "\<And>r k. held h (B - {v} \<union> set_option r) cs k \<Longrightarrow> B \<inter> set_option r = {} \<Longrightarrow> Q r k"
  shows "gives op_malloc k (\<lambda>r k. gives (op_free u) k (\<lambda>_ k. gives (op_free p) k (\<lambda>_ k. gives (op_free v) k (\<lambda>_ k. Q r k))))"
proof (rule held_malloc[OF assms(1)])
  fix n k
  assume n: "n \<notin> insert u (insert p B)" "held h (insert n (insert u (insert p B))) cs k"
  show "gives (op_free u) k (\<lambda>_ k. gives (op_free p) k (\<lambda>_ k. gives (op_free v) k (\<lambda>_ k. Q (Some n) k)))"
  proof (rule found_held[where r = "Some n"])
    have "insert n (insert u (insert p B)) = insert u (insert p (B \<union> set_option (Some n)))" by auto
    then show "held h (insert u (insert p (B \<union> set_option (Some n)))) cs k" using n(2) by simp
  qed (use n(1) assms in auto)
next
  fix k
  assume "held h (insert u (insert p B)) cs k"
  then show "gives (op_free u) k (\<lambda>_ k. gives (op_free p) k (\<lambda>_ k. gives (op_free v) k (\<lambda>_ k. Q None k)))"
    using assms by (intro found_held[where r = None]) auto
qed

lemma scan_ifaces_held:
  assumes "held h B cs k" "v \<in> B" "\<And>k. held h B cs k \<Longrightarrow> Q None k"
    and "\<And>r k. held h (B - {v} \<union> set_option r) cs k \<Longrightarrow> B \<inter> set_option r = {} \<Longrightarrow> Q (Some r) k"
  shows "gives (scan_ifaces target v is) k Q"
  using assms(1)
proof (induction "is" arbitrary: k)
  case Nil
  then show ?case using assms(3) by simp
next
  case (Cons x "is")
  obtain name uuid where x: "x = (name, uuid)" by fastforce
  let ?more = "\<lambda>k. gives (scan_ifaces target v is) k Q"
  have skip: "gives (op_free p) k (\<lambda>_. ?more)" if "held h (insert p B) cs k" "p \<notin> B" for p k
    by (rule held_free[OF that(1)]) (use Cons.IH that(2) in auto)
  have miss: "gives (op_free u) k (\<lambda>_ k. gives (op_free p) k (\<lambda>_. ?more))"
    if "held h (insert u (insert p B)) cs k" "p \<notin> B" "u \<notin> insert p B" for u p k
    by (rule held_free[OF that(1)]) (use skip that(2,3) in auto)
  have hit: "gives op_malloc k (\<lambda>r k. gives (op_free u) k (\<lambda>_ k. gives (op_free p) k (\<lambda>_ k.
      gives (op_free v) k (\<lambda>_ k. Q (Some r) k))))"
    if "held h (insert u (insert p B)) cs k" "p \<notin> B" "u \<notin> insert p B" for u p k
    using assms(4) by (rule hit_held[OF that assms(2)])
  show ?case
    unfolding x scan_ifaces.simps gives_bind
  proof (rule held_new[OF Cons.prems])
    fix p k
    assume p: "p \<notin> B" "held h (insert p B) cs k"
    let ?u = "if name = CHAR_INTERFACE then uuid else None"
    show "gives (case ?u of None \<Rightarrow> op_bind (op_free p) (\<lambda>_. scan_ifaces target v is)
       | Some u \<Rightarrow> op_bind op_new (\<lambda>uuid_var.
             if map c_tolower u = map c_tolower target then
               op_bind op_malloc (\<lambda>result. op_bind (op_free uuid_var) (\<lambda>_. op_bind (op_free p) (\<lambda>_.
                   op_bind (op_free v) (\<lambda>_. op_return (Some result)))))
             else op_bind (op_free uuid_var) (\<lambda>_. op_bind (op_free p) (\<lambda>_. scan_ifaces target v is)))) k Q"
    proof (cases ?u)
      case None
      then show ?thesis using skip[OF p(2,1)] by (simp del: gives_free)
    next
      case (Some u)
      show ?thesis
        unfolding Some option.case gives_bind
        by (rule held_new[OF p(2)]) (use hit miss p(1) in \<open>auto simp del: gives_free gives_malloc\<close>)
    qed
  qed
qed

text \<open>What a search leaves: more than it had, a proxy when it found one, and no further call.\<close>

definition leaves :: "bench \<Rightarrow> nat set \<Rightarrow> tag_call list \<Rightarrow> nat option \<Rightarrow> bench \<Rightarrow> bool" where
  "leaves h B cs r k \<longleftrightarrow> (\<exists>C. held h (B \<union> C) cs k \<and> B \<inter> C = {} \<and> set_option r \<subseteq> C)"

lemma scan_object_leaves:
  assumes "held h (insert v B) cs k" "v \<notin> B"
    and "\<And>k. held h (insert v B) cs k \<Longrightarrow> gives (op_free v) k (\<lambda>_ k. gives rest k (leaves h B cs))"
  shows "gives op_new k (\<lambda>w k. gives (scan_ifaces target v ifaces) k (\<lambda>found k. gives (case found of
       Some result \<Rightarrow> op_return result
     | None \<Rightarrow> op_bind (op_free w) (\<lambda>_. op_bind (op_free v) (\<lambda>_. rest))) k (leaves h B cs)))"
proof (rule held_new[OF assms(1)])
  fix w k
  let ?on = "\<lambda>found. case found of Some result \<Rightarrow> op_return result
     | None \<Rightarrow> op_bind (op_free w) (\<lambda>_. op_bind (op_free v) (\<lambda>_. rest))"
  assume w: "w \<notin> insert v B" "held h (insert w (insert v B)) cs k"
  show "gives (scan_ifaces target v ifaces) k (\<lambda>found k. gives (?on found) k (leaves h B cs))"
  proof (rule scan_ifaces_held[OF w(2)])
    fix k
    assume k: "held h (insert w (insert v B)) cs k"
    have "gives (op_free w) k (\<lambda>_ k. gives (op_free v) k (\<lambda>_ k. gives rest k (leaves h B cs)))"
      by (rule held_free[OF k]) (use assms(3) w(1) in auto)
    then show "gives (?on None) k (leaves h B cs)" by (simp only: option.case gives_bind)
  next
    fix r k
    assume r: "held h (insert w (insert v B) - {v} \<union> set_option r) cs k" "insert w (insert v B) \<inter> set_option r = {}"
    have "insert w (insert v B) - {v} \<union> set_option r = B \<union> insert w (set_option r)" using assms(2) w(1) by auto
    then have "leaves h B cs r k"
      unfolding leaves_def using r w(1) by (intro exI[of _ "insert w (set_option r)"]) auto
    then show "gives (?on (Some r)) k (leaves h B cs)" by simp
  qed simp
qed

lemma scan_objects_leaves:
  assumes "held h B cs k"
  shows "gives (scan_objects path target objs) k (leaves h B cs)"
  using assms
proof (induction objs arbitrary: k)
  case Nil
  then show ?case by (auto simp: leaves_def intro: exI[of _ "{}"])
next
  case (Cons x objs)
  obtain obj_path ifaces where x: "x = (obj_path, ifaces)" by fastforce
  let ?more = "scan_objects path target objs"
  show ?case
    unfolding x scan_objects.simps gives_bind
  proof (rule held_new[OF Cons.prems])
    fix v k
    assume v: "v \<notin> B" "held h (insert v B) cs k"
    have next_obj: "gives (op_free v) k (\<lambda>_ k. gives ?more k (leaves h B cs))" if "held h (insert v B) cs k" for k
      by (rule held_free[OF that]) (use Cons.IH v(1) in auto)
    show "gives (if \<not> prefix path obj_path then op_bind (op_free v) (\<lambda>_. ?more)
       else op_bind op_new (\<lambda>iface_iter. op_bind (scan_ifaces target v ifaces) (\<lambda>found. case found of
           Some result \<Rightarrow> op_return result
         | None \<Rightarrow> op_bind (op_free iface_iter) (\<lambda>_. op_bind (op_free v) (\<lambda>_. ?more))))) k (leaves h B cs)"
      using next_obj[OF v(2)] scan_object_leaves[OF v(2,1) next_obj]
      by (simp del: gives_free split: option.splits)
  qed
qed

lemma search_leaves:
  assumes "held h (insert objs B) cs k" "objs \<notin> B"
  shows "gives op_new k (\<lambda>it k. gives (scan_objects path target (tb_objects b)) k (\<lambda>r k.
      gives (op_free it) k (\<lambda>_ k. gives (op_free objs) k (\<lambda>_ k. leaves h B cs r k))))"
proof (rule held_new[OF assms(1)])
  fix it k
  assume it: "it \<notin> insert objs B" "held h (insert it (insert objs B)) cs k"
  show "gives (scan_objects path target (tb_objects b)) k (\<lambda>r k.
    gives (op_free it) k (\<lambda>_ k. gives (op_free objs) k (\<lambda>_ k. leaves h B cs r k)))"
  proof (rule gives_mono[OF scan_objects_leaves[OF it(2)]])
    fix r k
    assume "leaves h (insert it (insert objs B)) cs r k"
    then obtain C where C: "held h (insert it (insert objs B) \<union> C) cs k" "insert it (insert objs B) \<inter> C = {}" "set_option r \<subseteq> C"
      unfolding leaves_def by blast
    have s: "insert it (insert objs B) \<union> C - {it} - {objs} = B \<union> C" using it(1) assms(2) C(2) by auto
    show "gives (op_free it) k (\<lambda>_ k. gives (op_free objs) k (\<lambda>_ k. leaves h B cs r k))"
    proof (rule held_free[OF C(1)])
      fix k
      assume k: "held h (insert it (insert objs B) \<union> C - {it}) cs k"
      show "gives (op_free objs) k (\<lambda>_ k. leaves h B cs r k)"
        by (rule held_free[OF k]) (use it(1) s C in \<open>auto simp: leaves_def\<close>)
    qed simp
  qed
qed

lemma find_char_leaves:
  assumes "held h B cs k"
  shows "gives (find_char_by_uuid b path target) k (leaves h B cs)"
proof -
  have none: "leaves h B cs None k" if "held h B cs k" for k
    unfolding leaves_def using that by (intro exI[of _ "{}"]) simp
  have objects: "gives op_malloc k (\<lambda>objects k. gives (op_free om) k (\<lambda>_ k. gives (case objects of
       None \<Rightarrow> op_return None
     | Some objects \<Rightarrow> op_bind op_new (\<lambda>obj_iter. op_bind (scan_objects path target (tb_objects b)) (\<lambda>result.
          op_bind (op_free obj_iter) (\<lambda>_. op_bind (op_free objects) (\<lambda>_. op_return result))))) k (leaves h B cs)))"
    if om: "held h (insert om B) cs k" "om \<notin> B" for om k
  proof (rule held_malloc[OF om(1)])
    fix n k
    assume n: "n \<notin> insert om B" "held h (insert n (insert om B)) cs k"
    have s: "insert n (insert om B) - {om} = insert n B" using n(1) om(2) by auto
    show "gives (op_free om) k (\<lambda>_ k. gives (case Some n of
       None \<Rightarrow> op_return None
     | Some objects \<Rightarrow> op_bind op_new (\<lambda>obj_iter. op_bind (scan_objects path target (tb_objects b)) (\<lambda>result.
          op_bind (op_free obj_iter) (\<lambda>_. op_bind (op_free objects) (\<lambda>_. op_return result))))) k (leaves h B cs))"
      unfolding option.case gives_bind gives_return by (rule held_free[OF n(2)]) (use search_leaves n(1) s in auto)
  next
    fix k
    assume k: "held h (insert om B) cs k"
    show "gives (op_free om) k (\<lambda>_ k. gives (case None of
       None \<Rightarrow> op_return None
     | Some objects \<Rightarrow> op_bind op_new (\<lambda>obj_iter. op_bind (scan_objects path target (tb_objects b)) (\<lambda>result.
          op_bind (op_free obj_iter) (\<lambda>_. op_bind (op_free objects) (\<lambda>_. op_return result))))) k (leaves h B cs))"
      by (rule held_free[OF k]) (use none om(2) in auto)
  qed
  show ?thesis
    unfolding find_char_by_uuid_def gives_bind
    by (rule held_malloc[OF assms]) (use objects none in \<open>auto simp del: gives_malloc gives_free\<close>)
qed

section \<open>How the programs end\<close>

definition ended :: "bench \<Rightarrow> tag_call list \<Rightarrow> bench \<Rightarrow> bool" where
  "ended h cs k \<longleftrightarrow> (\<exists>C. held h C cs k)"

lemma ended_held: "held h C cs k \<Longrightarrow> ended h cs k"
  by (auto simp: ended_def)

lemma drop_proxies_held:
  assumes "held h B cs k" "conn \<in> B" "dev \<in> B" "conn \<noteq> dev" "\<And>k. held h (B - {dev} - {conn}) cs k \<Longrightarrow> Q () k"
  shows "gives (drop_proxies dev conn) k Q"
  unfolding drop_proxies_def gives_bind
proof (rule held_free[OF assms(1,3)])
  fix k
  assume "held h (B - {dev}) cs k"
  then show "gives (op_free conn) k Q" by (rule held_free) (use assms in auto)
qed

lemma hang_up_held:
  assumes "held h B cs k" "conn \<in> B" "dev \<in> B" "conn \<noteq> dev" "\<And>k. ended h (cs @ [Tag_disconnect]) k \<Longrightarrow> Q () k"
  shows "gives (hang_up dev conn) k Q"
  unfolding hang_up_def gives_bind
proof (rule held_call_dropped[OF assms(1)])
  fix C k
  assume "held h (B \<union> C) (cs @ [Tag_disconnect]) k" "B \<inter> C = {}"
  then show "gives (drop_proxies dev conn) k Q"
    using assms(2-4) by (elim drop_proxies_held) (auto intro: assms(5) ended_held)
qed

text \<open>A program that ends before the services are resolved has called nothing, or connected in vain, or
  connected and disconnected.\<close>

definition gave_up :: "bench \<Rightarrow> bench \<Rightarrow> bool" where
  "gave_up h k \<longleftrightarrow> ended h [] k \<or> ended h [Tag_connect False] k \<or> ended h [Tag_connect True, Tag_disconnect] k"

lemma connect_tag_held:
  assumes "heap_wf h" "\<And>k. gave_up h k \<Longrightarrow> Q None k"
    and "\<And>conn dev B k. held h B [Tag_connect True] k \<Longrightarrow> conn \<in> B \<Longrightarrow> dev \<in> B \<Longrightarrow> conn \<noteq> dev \<Longrightarrow> Q (Some (conn, dev)) k"
  shows "gives (connect_tag b) h Q"
proof -
  have connected: "gives (proxy_call Tag_connect) k (\<lambda>reply k. gives
       (if reply = None then op_bind (drop_proxies dev conn) (\<lambda>_. op_return None)
        else if \<not> wait_for_services_resolved b 30 then op_bind (hang_up dev conn) (\<lambda>_. op_return None)
        else op_return (Some (conn, dev))) k Q)"
    if d: "held h {dev, conn} [] k" "dev \<noteq> conn" for conn dev k
  proof (rule held_call[OF d(1)])
    fix n k
    assume n: "n \<notin> {dev, conn}" "held h {n, dev, conn} ([] @ [Tag_connect True]) k"
    have "gives (hang_up dev conn) k (\<lambda>_ k. Q None k)"
      by (rule hang_up_held[OF n(2)]) (use d(2) assms(2) in \<open>auto simp: gave_up_def\<close>)
    then show "gives (if Some n = None then op_bind (drop_proxies dev conn) (\<lambda>_. op_return None)
        else if \<not> wait_for_services_resolved b 30 then op_bind (hang_up dev conn) (\<lambda>_. op_return None)
        else op_return (Some (conn, dev))) k Q"
      using assms(3)[of "{n, dev, conn}" k conn dev] n(2) d(2) by simp
  next
    fix k
    assume "held h {dev, conn} ([] @ [Tag_connect False]) k"
    then have "gives (drop_proxies dev conn) k (\<lambda>_ k. Q None k)"
      by (rule drop_proxies_held) (use d(2) assms(2) in \<open>auto simp: gave_up_def intro: ended_held\<close>)
    then show "gives (if None = None then op_bind (drop_proxies dev conn) (\<lambda>_. op_return None)
        else if \<not> wait_for_services_resolved b 30 then op_bind (hang_up dev conn) (\<lambda>_. op_return None)
        else op_return (Some (conn, dev))) k Q" by simp
  qed
  have lost: "gives (op_free conn) k (\<lambda>_ k. Q None k)" if "held h {conn} [] k" for conn k
    by (rule held_free[OF that]) (use assms(2) in \<open>auto simp: gave_up_def intro: ended_held\<close>)
  have dev: "gives op_malloc k (\<lambda>dev_proxy k. gives (case dev_proxy of
        None \<Rightarrow> op_bind (op_free conn) (\<lambda>_. op_return None)
      | Some dev \<Rightarrow> op_bind (proxy_call Tag_connect) (\<lambda>reply.
          if reply = None then op_bind (drop_proxies dev conn) (\<lambda>_. op_return None)
          else if \<not> wait_for_services_resolved b 30 then op_bind (hang_up dev conn) (\<lambda>_. op_return None)
          else op_return (Some (conn, dev)))) k Q)" if "held h {conn} [] k" for conn k
    by (rule held_malloc[OF that]) (use connected lost in \<open>auto simp del: gives_free\<close>)
  have none: "Q None k" if "held h {} [] k" for k
    using assms(2) ended_held[OF that] by (simp add: gave_up_def)
  show ?thesis
    unfolding connect_tag_def gives_bind
    by (rule held_malloc[OF held_start[OF assms(1)]]) (use dev none in \<open>auto simp del: gives_malloc\<close>)
qed

text \<open>What a tick shows: the reading, when the call was answered.\<close>

definition tick_shows :: "'r sensor \<Rightarrow> tag_bus \<Rightarrow> nat \<Rightarrow> bool \<Rightarrow> 'r option" where
  "tick_shows s b i answered = (if answered then se_shown s (tb_value b i) else None)"

lemma ticks_held:
  assumes "held h B cs k"
    and "\<And>oks k. held h B (cs @ map Tag_read oks) k \<Longrightarrow> length oks = length is \<Longrightarrow> Q (map2 (tick_shows s b) is oks) k"
  shows "gives (ticks s b is) k Q"
  using assms
proof (induction "is" arbitrary: k cs Q)
  case Nil
  then show ?case using Nil.prems(2)[of "[]"] by simp
next
  case (Cons i "is")
  have more: "gives (ticks s b is) k (\<lambda>rs k. Q (tick_shows s b i ok # rs) k)" if "held h B (cs @ [Tag_read ok]) k" for ok k
  proof (rule Cons.IH[OF that])
    fix oks k
    assume "held h B ((cs @ [Tag_read ok]) @ map Tag_read oks) k" "length oks = length is"
    then show "Q (tick_shows s b i ok # map2 (tick_shows s b) is oks) k" using Cons.prems(2)[of "ok # oks"] by simp
  qed
  have read: "gives op_new k (\<lambda>v k. gives (op_free v) k (\<lambda>_ k. gives (op_free n) k (\<lambda>_ k.
       gives (ticks s b is) k (\<lambda>rs k. Q (se_shown s (tb_value b i) # rs) k))))"
    if n: "held h (insert n B) (cs @ [Tag_read True]) k" "n \<notin> B" for n k
  proof (rule held_new[OF n(1)])
    fix v k
    assume v: "v \<notin> insert n B" "held h (insert v (insert n B)) (cs @ [Tag_read True]) k"
    have s: "insert v (insert n B) - {v} = insert n B" "insert n B - {n} = B" using v(1) n(2) by auto
    show "gives (op_free v) k (\<lambda>_ k. gives (op_free n) k (\<lambda>_ k.
        gives (ticks s b is) k (\<lambda>rs k. Q (se_shown s (tb_value b i) # rs) k)))"
      by (rule held_free[OF v(2)], simp, unfold s, erule held_free, simp, unfold s,
          rule more[of True, unfolded tick_shows_def if_True])
  qed
  show ?case
    unfolding ticks.simps on_read_def gives_bind
    by (rule held_call[OF Cons.prems(1)]) (use read more[of False] in \<open>auto simp: tick_shows_def simp del: gives_free\<close>)
qed

lemma held_free3:
  assumes "held h E cs k" "{x, y, z} \<subseteq> E" "distinct [x, y, z]" "\<And>k. ended h cs k \<Longrightarrow> Q () k"
  shows "gives (op_free x) k (\<lambda>_ k. gives (op_free y) k (\<lambda>_ k. gives (op_free z) k Q))"
proof (rule held_free[OF assms(1)])
  fix k
  assume k: "held h (E - {x}) cs k"
  show "gives (op_free y) k (\<lambda>_ k. gives (op_free z) k Q)"
  proof (rule held_free[OF k])
    fix k
    assume k: "held h (E - {x} - {y}) cs k"
    show "gives (op_free z) k Q"
      by (rule held_free[OF k]) (use assms ended_held in auto)
  qed (use assms in auto)
qed (use assms in auto)

lemma cleanup_held:
  assumes "held h B cs k" "distinct [conf, data, dev, conn, lp]" "set [conf, data, dev, conn, lp] \<subseteq> B"
    and "\<And>k. ended h (cs @ [Tag_write (se_disable s), Tag_disconnect]) k \<Longrightarrow> Q () k"
  shows "gives (sensor_cleanup s conf data dev conn lp) k Q"
  unfolding sensor_cleanup_def gives_bind
proof (rule held_call_dropped[OF assms(1)])
  fix C k
  let ?cs = "cs @ [Tag_write (se_disable s)]"
  let ?last = "\<lambda>k. gives (op_free dev) k (\<lambda>_ k. gives (op_free conn) k (\<lambda>_ k. gives (op_free lp) k Q))"
  assume C: "held h (B \<union> C) ?cs k" "B \<inter> C = {}"
  have hang: "gives (proxy_call (\<lambda>_. Tag_disconnect)) k (\<lambda>_. ?last)"
    if "held h E ?cs k" "{dev, conn, lp} \<subseteq> E" for E k
  proof (rule held_call_dropped[OF that(1)])
    fix D k
    assume "held h (E \<union> D) (?cs @ [Tag_disconnect]) k"
    then show "?last k" by (rule held_free3) (use assms(2,4) that(2) in auto)
  qed
  show "gives (op_free conf) k (\<lambda>_ k. gives (op_free data) k (\<lambda>_ k. gives (proxy_call (\<lambda>_. Tag_disconnect)) k (\<lambda>_. ?last)))"
  proof (rule held_free[OF C(1)])
    fix k
    assume k: "held h (B \<union> C - {conf}) ?cs k"
    show "gives (op_free data) k (\<lambda>_ k. gives (proxy_call (\<lambda>_. Tag_disconnect)) k (\<lambda>_. ?last))"
    proof (rule held_free[OF k])
      fix k
      assume "held h (B \<union> C - {conf} - {data}) ?cs k"
      then show "gives (proxy_call (\<lambda>_. Tag_disconnect)) k (\<lambda>_. ?last)" by (rule hang) (use assms(2,3) in auto)
    qed (use assms(2,3) in auto)
  qed (use assms(3) in auto)
qed

text \<open>How a reader on a timer ends: it gave up, or it read as often as the timer fired, switched the sensor
  off and disconnected.\<close>

definition sensor_end :: "'r sensor \<Rightarrow> tag_bus \<Rightarrow> nat \<Rightarrow> bench \<Rightarrow> int \<times> 'r option list \<Rightarrow> bench \<Rightarrow> bool" where
  "sensor_end s b n h r k \<longleftrightarrow> fst r = 1 \<and> gave_up h k
    \<or> fst r = 0 \<and> (\<exists>oks. length oks = n \<and> snd r = map2 (tick_shows s b) [0..<n] oks
      \<and> ended h ([Tag_connect True, Tag_write (se_enable s)] @ map Tag_read oks @ [Tag_write (se_disable s), Tag_disconnect]) k)"

lemma hang_up_ends:
  assumes "held h B [Tag_connect True] k" "conn \<in> B" "dev \<in> B" "conn \<noteq> dev"
  shows "gives (op_bind (hang_up dev conn) (\<lambda>_. op_return (1, []))) k (sensor_end s b n h)"
  unfolding gives_bind by (rule hang_up_held[OF assms]) (simp add: sensor_end_def gave_up_def)

lemma sensor_run_ends:
  assumes "held h B [Tag_connect True] k" "distinct [conf, data, dev, conn]" "set [conf, data, dev, conn] \<subseteq> B"
  shows "gives (sensor_run s b n conn dev data conf) k (sensor_end s b n h)"
  unfolding sensor_run_def gives_bind
proof (rule held_call_dropped[OF assms(1)])
  fix D k
  let ?on = "[Tag_connect True] @ [Tag_write (se_enable s)]"
  assume u: "held h (B \<union> D) ?on k"
  let ?clean = "\<lambda>lp shown k. gives (sensor_cleanup s conf data dev conn lp) k
     (\<lambda>_ k. gives (op_return (0, shown)) k (sensor_end s b n h))"
  show "gives op_new k (\<lambda>lp k. gives (ticks s b [0..<n]) k (?clean lp))"
  proof (rule held_new[OF u])
    fix lp k
    assume lp: "lp \<notin> B \<union> D" "held h (insert lp (B \<union> D)) ?on k"
    show "gives (ticks s b [0..<n]) k (?clean lp)"
    proof (rule ticks_held[OF lp(2)])
      fix oks k
      assume k: "held h (insert lp (B \<union> D)) (?on @ map Tag_read oks) k" "length oks = length [0..<n]"
      show "?clean lp (map2 (tick_shows s b) [0..<n] oks) k"
        by (rule cleanup_held[OF k(1)]) (use assms lp(1) k(2) in \<open>auto simp: sensor_end_def\<close>)
    qed
  qed
qed

lemma sensor_configured_ends:
  assumes "held h B [Tag_connect True] k" "{data, conn, dev} \<subseteq> B" "distinct [data, conn, dev]"
  shows "gives (sensor_configured s b n conn dev data) k (sensor_end s b n h)"
  unfolding sensor_configured_def gives_bind
proof (rule gives_mono[OF find_char_leaves[OF assms(1)]])
  fix r k
  assume "leaves h B [Tag_connect True] r k"
  then obtain C where C: "held h (B \<union> C) [Tag_connect True] k" "B \<inter> C = {}" "set_option r \<subseteq> C"
    unfolding leaves_def by blast
  show "gives (case r of None \<Rightarrow> op_bind (op_free data) (\<lambda>_. op_bind (hang_up dev conn) (\<lambda>_. op_return (1, [])))
      | Some conf \<Rightarrow> sensor_run s b n conn dev data conf) k (sensor_end s b n h)"
  proof (cases r)
    case None
    have "gives (op_free data) k (\<lambda>_ k. gives (op_bind (hang_up dev conn) (\<lambda>_. op_return (1, []))) k (sensor_end s b n h))"
      by (rule held_free[OF C(1)], use assms(2) in simp) (rule hang_up_ends, assumption, use assms(2,3) in auto)
    then show ?thesis by (simp only: None option.case gives_bind)
  next
    case (Some conf)
    then have "distinct [conf, data, dev, conn]" "set [conf, data, dev, conn] \<subseteq> B \<union> C"
      using C(2,3) assms(2,3) by auto
    then show ?thesis using sensor_run_ends[OF C(1)] by (simp only: Some option.case)
  qed
qed

lemma sensor_main_ends:
  assumes "heap_wf h"
  shows "gives (sensor_main s b n) h (sensor_end s b n h)"
  unfolding sensor_main_def gives_bind
proof (rule connect_tag_held[OF assms], unfold option.case prod.case)
  fix conn dev B k
  assume t: "held h B [Tag_connect True] k" "conn \<in> B" "dev \<in> B" "conn \<noteq> dev"
  let ?found = "\<lambda>data_proxy. case data_proxy of None \<Rightarrow> op_bind (hang_up dev conn) (\<lambda>_. op_return (1, []))
      | Some data \<Rightarrow> sensor_configured s b n conn dev data"
  have "gives (find_char_by_uuid b DEVICE_PATH (se_data_uuid s)) k (\<lambda>r k. gives (?found r) k (sensor_end s b n h))"
  proof (rule gives_mono[OF find_char_leaves[OF t(1)]])
    fix r k
    assume "leaves h B [Tag_connect True] r k"
    then obtain C where C: "held h (B \<union> C) [Tag_connect True] k" "B \<inter> C = {}" "set_option r \<subseteq> C"
      unfolding leaves_def by blast
    show "gives (?found r) k (sensor_end s b n h)"
    proof (cases r)
      case None
      then show ?thesis using hang_up_ends[OF C(1), of conn dev s b n] t by (simp del: gives_bind)
    next
      case (Some data)
      then have "{data, conn, dev} \<subseteq> B \<union> C" "distinct [data, conn, dev]" using C(2,3) t by auto
      then show ?thesis using sensor_configured_ends[OF C(1)] by (simp only: Some option.case)
    qed
  qed
  then show "gives (op_bind (find_char_by_uuid b DEVICE_PATH (se_data_uuid s)) ?found) k (sensor_end s b n h)"
    by (simp only: gives_bind)
qed (simp add: sensor_end_def)

text \<open>The level printed is the first byte, or -1.\<close>

definition level_of :: "tag_bus \<Rightarrow> int" where
  "level_of b = (case tb_value b 0 of [] \<Rightarrow> - 1 | x # _ \<Rightarrow> uint x)"

definition battery_end :: "tag_bus \<Rightarrow> bench \<Rightarrow> int \<times> int \<Rightarrow> bench \<Rightarrow> bool" where
  "battery_end b h r k \<longleftrightarrow> fst r = 1 \<and> gave_up h k
    \<or> (\<exists>ok. r = (if ok then (0, level_of b) else (1, - 1)) \<and> ended h [Tag_connect True, Tag_read ok, Tag_disconnect] k)"

lemma read_hang_up:
  assumes "held h E ([Tag_connect True] @ [Tag_read ok]) k" "{x, conn, dev} \<subseteq> E" "distinct [x, conn, dev]"
    "(code, l) = (if ok then (0, level_of b) else (1, - 1))"
  shows "gives (op_bind (op_free x) (\<lambda>_. op_bind (hang_up dev conn) (\<lambda>_. op_return (code, l)))) k (battery_end b h)"
  unfolding gives_bind
proof (rule held_free[OF assms(1)])
  fix k
  assume k: "held h (E - {x}) ([Tag_connect True] @ [Tag_read ok]) k"
  show "gives (hang_up dev conn) k (\<lambda>_ k. gives (op_return (code, l)) k (battery_end b h))"
  proof (rule hang_up_held[OF k])
    fix k
    assume e: "ended h (([Tag_connect True] @ [Tag_read ok]) @ [Tag_disconnect]) k"
    have "battery_end b h (code, l) k"
      unfolding battery_end_def by (rule disjI2, rule exI[of _ ok]) (use e assms(4) in simp)
    then show "gives (op_return (code, l)) k (battery_end b h)" by simp
  qed (use assms(2,3) in simp_all)
qed (use assms(2) in simp)

lemma battery_level_ends:
  assumes "held h E ([Tag_connect True] @ [Tag_read True]) k" "{v, batt, conn, dev} \<subseteq> E" "distinct [v, batt, conn, dev]"
  shows "gives (battery_level b conn dev batt v) k (battery_end b h)"
  unfolding battery_level_def gives_bind[of op_new] gives_bind[of "op_free y" for y]
proof (rule held_new[OF assms(1)])
  fix y k
  let ?l = "case tb_value b 0 of [] \<Rightarrow> - 1 | x # _ \<Rightarrow> uint x"
  let ?finish = "\<lambda>k. gives (op_free batt) k (\<lambda>_ k. gives (op_bind (hang_up dev conn) (\<lambda>_. op_return (0, ?l))) k (battery_end b h))"
  assume y: "y \<notin> E" "held h (insert y E) ([Tag_connect True] @ [Tag_read True]) k"
  show "gives (op_free y) k (\<lambda>_ k. gives (op_free v) k (\<lambda>_. ?finish))"
  proof (rule held_free[OF y(2)])
    fix k
    assume "held h (insert y E - {y}) ([Tag_connect True] @ [Tag_read True]) k"
    then have k: "held h E ([Tag_connect True] @ [Tag_read True]) k" using y(1) by simp
    show "gives (op_free v) k (\<lambda>_. ?finish)"
    proof (rule held_free[OF k])
      fix k
      assume k: "held h (E - {v}) ([Tag_connect True] @ [Tag_read True]) k"
      have "{batt, conn, dev} \<subseteq> E - {v}" "distinct [batt, conn, dev]" using assms(2,3) by auto
      from read_hang_up[OF k this, of 0 ?l b] show "?finish k" by (simp add: level_of_def del: gives_free)
    qed (use assms(2) in simp)
  qed simp
qed

lemma battery_main_ends:
  assumes "heap_wf h"
  shows "gives (battery_main b) h (battery_end b h)"
  unfolding battery_main_def gives_bind
proof (rule connect_tag_held[OF assms], unfold option.case prod.case)
  fix conn dev B k
  assume t: "held h B [Tag_connect True] k" "conn \<in> B" "dev \<in> B" "conn \<noteq> dev"
  let ?found = "\<lambda>r. case r of None \<Rightarrow> op_bind (hang_up dev conn) (\<lambda>_. op_return (1, - 1))
      | Some batt \<Rightarrow> battery_read b conn dev batt"
  have "gives (find_char_by_uuid b DEVICE_PATH ''00002a19-0000-1000-8000-00805f9b34fb'') k
      (\<lambda>r k. gives (?found r) k (battery_end b h))"
  proof (rule gives_mono[OF find_char_leaves[OF t(1)]])
    fix r k
    assume "leaves h B [Tag_connect True] r k"
    then obtain C where C: "held h (B \<union> C) [Tag_connect True] k" "B \<inter> C = {}" "set_option r \<subseteq> C"
      unfolding leaves_def by blast
    show "gives (?found r) k (battery_end b h)"
    proof (cases r)
      case None
      have "gives (hang_up dev conn) k (\<lambda>_ k. battery_end b h (1, - 1) k)"
        by (rule hang_up_held[OF C(1)]) (use t in \<open>auto simp: battery_end_def gave_up_def\<close>)
      then show ?thesis by (simp only: None option.case gives_bind gives_return)
    next
      case (Some batt)
      have b: "{batt, conn, dev} \<subseteq> B \<union> C" "distinct [batt, conn, dev]" using C(2,3) t Some by auto
      show ?thesis
        unfolding Some option.case battery_read_def gives_bind[of "proxy_call c" for c]
      proof (rule held_call[OF C(1)], unfold option.case)
        fix n k
        assume n: "n \<notin> B \<union> C" "held h (insert n (B \<union> C)) ([Tag_connect True] @ [Tag_read True]) k"
        show "gives (battery_level b conn dev batt n) k (battery_end b h)"
          by (rule battery_level_ends[OF n(2)]) (use b n(1) in auto)
      qed (rule read_hang_up[where ok = False], simp, use b in auto)
    qed
  qed
  then show "gives (op_bind (find_char_by_uuid b DEVICE_PATH ''00002a19-0000-1000-8000-00805f9b34fb'') ?found) k (battery_end b h)"
    by (simp only: gives_bind)
qed (simp add: battery_end_def)

definition button_end :: "bench \<Rightarrow> int \<Rightarrow> bench \<Rightarrow> bool" where
  "button_end h r k \<longleftrightarrow> r = 1 \<and> gave_up h k
    \<or> r = 0 \<and> (ended h [Tag_connect True, Tag_disconnect] k
        \<or> ended h [Tag_connect True, Tag_start_notify, Tag_stop_notify, Tag_disconnect] k)"

lemma button_rest:
  assumes "held h E cs k" "{dev, conn, lp} \<subseteq> E" "distinct [dev, conn, lp]" "\<And>k. ended h (cs @ [Tag_disconnect]) k \<Longrightarrow> Q () k"
  shows "gives (proxy_call (\<lambda>_. Tag_disconnect)) k (\<lambda>_ k. gives (op_free dev) k (\<lambda>_ k. gives (op_free conn) k (\<lambda>_ k. gives (op_free lp) k Q)))"
proof (rule held_call_dropped[OF assms(1)])
  fix C k
  assume "held h (E \<union> C) (cs @ [Tag_disconnect]) k"
  then show "gives (op_free dev) k (\<lambda>_ k. gives (op_free conn) k (\<lambda>_ k. gives (op_free lp) k Q))"
    by (rule held_free3) (use assms in auto)
qed

lemma button_cleanup_ends:
  assumes "held h E cs k" "{dev, conn, lp} \<subseteq> E" "distinct [dev, conn, lp]"
    and "\<And>c. char_proxy = Some c \<Longrightarrow> c \<in> E \<and> c \<notin> {dev, conn, lp}"
    and "\<And>k. ended h (cs @ (if char_proxy = None then [] else [Tag_stop_notify]) @ [Tag_disconnect]) k \<Longrightarrow> Q () k"
  shows "gives (button_cleanup char_proxy dev conn lp) k Q"
proof (cases char_proxy)
  case None
  then show ?thesis
    using button_rest[OF assms(1-3), of Q] assms(5) by (simp add: button_cleanup_def del: gives_free)
next
  case (Some c)
  let ?rest = "\<lambda>k. gives (proxy_call (\<lambda>_. Tag_disconnect)) k
      (\<lambda>_ k. gives (op_free dev) k (\<lambda>_ k. gives (op_free conn) k (\<lambda>_ k. gives (op_free lp) k Q)))"
  have "gives (proxy_call (\<lambda>_. Tag_stop_notify)) k (\<lambda>_ k. gives (op_free c) k (\<lambda>_. ?rest))"
  proof (rule held_call_dropped[OF assms(1)])
    fix C k
    assume k: "held h (E \<union> C) (cs @ [Tag_stop_notify]) k"
    show "gives (op_free c) k (\<lambda>_. ?rest)"
    proof (rule held_free[OF k])
      fix k
      assume "held h (E \<union> C - {c}) (cs @ [Tag_stop_notify]) k"
      then show "?rest k" by (rule button_rest) (use assms(2,3,5) assms(4)[OF Some] Some in auto)
    qed (use assms(4)[OF Some] in simp)
  qed
  then show ?thesis by (simp add: button_cleanup_def Some del: gives_free)
qed

lemma button_main_ends:
  assumes "heap_wf h"
  shows "gives (button_main b) h (button_end h)"
  unfolding button_main_def gives_bind
proof (rule connect_tag_held[OF assms], unfold option.case prod.case)
  fix conn dev B k
  assume t: "held h B [Tag_connect True] k" "conn \<in> B" "dev \<in> B" "conn \<noteq> dev"
  let ?loop = "\<lambda>cp k. gives op_new k (\<lambda>lp k. gives (button_cleanup cp dev conn lp) k (\<lambda>_ k. button_end h 0 k))"
  have loop: "?loop cp k"
    if k: "held h E (Tag_connect True # (if cp = None then [] else [Tag_start_notify])) k" "{dev, conn} \<subseteq> E"
      "\<And>c. cp = Some c \<Longrightarrow> c \<in> E \<and> c \<notin> {dev, conn}" for cp E k
  proof (rule held_new[OF k(1)])
    fix lp k
    assume lp: "lp \<notin> E" "held h (insert lp E) (Tag_connect True # (if cp = None then [] else [Tag_start_notify])) k"
    show "gives (button_cleanup cp dev conn lp) k (\<lambda>_ k. button_end h 0 k)"
    proof (rule button_cleanup_ends[OF lp(2)])
      show "c \<in> insert lp E \<and> c \<notin> {dev, conn, lp}" if "cp = Some c" for c using k(3)[OF that] lp(1) by auto
    qed (use k(2) lp(1) t(4) in \<open>auto simp: button_end_def split: if_splits\<close>)
  qed
  have subscribe: "gives (proxy_call (\<lambda>_. Tag_start_notify)) k (\<lambda>reply k.
      gives (case reply of None \<Rightarrow> op_return () | Some r \<Rightarrow> op_free r) k (\<lambda>_. ?loop (Some c)))"
    if c: "c \<notin> B" "held h (insert c B) [Tag_connect True] k" for c k
  proof (rule held_call[OF c(2)], unfold option.case gives_return)
    fix r k
    assume r: "r \<notin> insert c B" "held h (insert r (insert c B)) ([Tag_connect True] @ [Tag_start_notify]) k"
    show "gives (op_free r) k (\<lambda>_. ?loop (Some c))"
      by (rule held_free[OF r(2)]) (use loop[of "insert c B" "Some c"] c(1) r(1) t in auto)
  next
    fix k
    assume "held h (insert c B) ([Tag_connect True] @ [Tag_start_notify]) k"
    then show "?loop (Some c) k" using loop[of "insert c B" "Some c" k] c(1) t by auto
  qed
  have "gives op_malloc k (\<lambda>cp k. gives (case cp of None \<Rightarrow> op_return ()
       | Some c \<Rightarrow> op_bind (proxy_call (\<lambda>_. Tag_start_notify)) (\<lambda>reply. case reply of None \<Rightarrow> op_return () | Some r \<Rightarrow> op_free r)) k
      (\<lambda>_. ?loop cp))"
    by (rule held_malloc[OF t(1)]) (use subscribe loop[of B None] t in \<open>auto simp del: gives_free\<close>)
  then show "gives (op_bind op_malloc (\<lambda>char_proxy. op_bind (case char_proxy of None \<Rightarrow> op_return ()
       | Some c \<Rightarrow> op_bind (proxy_call (\<lambda>_. Tag_start_notify)) (\<lambda>reply. case reply of None \<Rightarrow> op_return () | Some r \<Rightarrow> op_free r)) (\<lambda>_.
      op_bind op_new (\<lambda>lp. op_bind (button_cleanup char_proxy dev conn lp) (\<lambda>_. op_return 0))))) k (button_end h)"
    by (simp only: gives_bind gives_return)
qed (simp add: button_end_def)

text \<open>The search leaks the iterator over the interfaces when it finds the characteristic: of the two blocks
  that stay live the proxy is one.\<close>

lemma iterator_leaked:
  "\<exists>k. find_char_by_uuid \<lparr>tb_resolved = \<lambda>_. None, tb_objects = [(DEVICE_PATH, [(CHAR_INTERFACE, Some ''AA'')])],
       tb_value = \<lambda>_. []\<rparr> DEVICE_PATH ''aa'' \<lparr>hp_ok = \<lambda>_. True, hp_next = 0, hp_live = {}, bn_calls = []\<rparr> = Inr (Some 7, k)
     \<and> hp_live k = {4, 7}"
proof -
  have "map c_tolower ''AA'' = map c_tolower ''aa''" by code_simp
  then show ?thesis
    by (simp add: find_char_by_uuid_def op_bind_def op_malloc_def op_new_def op_free_def op_return_def Let_def) auto
qed

text \<open>C35: The tag is not left busy. Started on a well-formed heap, whatever fails on the way, a reader ends without
  releasing anything twice. It
  has called nothing on the tag, or tried to connect in vain, or it has disconnected after all it did.
  A reader on a timer that switched its sensor on has read it at every tick, shown at each exactly
  what the value means when the reading was answered and nothing when it was not, and has switched the
  sensor off; the battery's level is shown exactly when its reading was answered; and who asked for
  notifications has stopped them.\<close>

theorem tag_left_quiet:
  assumes "heap_wf h"
  shows "(\<exists>r k cs. sensor_main s b n h = Inr (r, k) \<and> bn_calls k = bn_calls h @ cs
      \<and> (fst r = 1 \<and> cs \<in> {[], [Tag_connect False], [Tag_connect True, Tag_disconnect]}
         \<or> (\<exists>oks. length oks = n \<and> r = (0, map2 (\<lambda>i ok. if ok then se_shown s (tb_value b i) else None) [0..<n] oks)
              \<and> cs = [Tag_connect True, Tag_write (se_enable s)] @ map Tag_read oks
                    @ [Tag_write (se_disable s), Tag_disconnect])))
    \<and> (\<exists>r k cs. battery_main b h = Inr (r, k) \<and> bn_calls k = bn_calls h @ cs
      \<and> (fst r = 1 \<and> cs \<in> {[], [Tag_connect False], [Tag_connect True, Tag_disconnect]}
         \<or> r = (0, level_of b) \<and> cs = [Tag_connect True, Tag_read True, Tag_disconnect]
         \<or> r = (1, - 1) \<and> cs = [Tag_connect True, Tag_read False, Tag_disconnect]))
    \<and> (\<exists>r k cs. button_main b h = Inr (r, k) \<and> bn_calls k = bn_calls h @ cs
      \<and> (r = 1 \<and> cs \<in> {[], [Tag_connect False], [Tag_connect True, Tag_disconnect]}
         \<or> r = 0 \<and> cs \<in> {[Tag_connect True, Tag_disconnect],
               [Tag_connect True, Tag_start_notify, Tag_stop_notify, Tag_disconnect]}))"
proof (intro conjI)
  note end_defs = gives_result gave_up_def ended_def held_def
  have ticks_eq: "map2 (tick_shows s b) [0..<n] oks
      = map2 (\<lambda>i ok. if ok then se_shown s (tb_value b i) else None) [0..<n] oks" for oks
    by (simp add: tick_shows_def[abs_def])
  show "\<exists>r k cs. sensor_main s b n h = Inr (r, k) \<and> bn_calls k = bn_calls h @ cs
      \<and> (fst r = 1 \<and> cs \<in> {[], [Tag_connect False], [Tag_connect True, Tag_disconnect]}
         \<or> (\<exists>oks. length oks = n \<and> r = (0, map2 (\<lambda>i ok. if ok then se_shown s (tb_value b i) else None) [0..<n] oks)
              \<and> cs = [Tag_connect True, Tag_write (se_enable s)] @ map Tag_read oks
                    @ [Tag_write (se_disable s), Tag_disconnect]))"
    using sensor_main_ends[OF assms, of s b n] unfolding end_defs sensor_end_def ticks_eq prod_eq_iff fst_conv snd_conv by blast
  show "\<exists>r k cs. battery_main b h = Inr (r, k) \<and> bn_calls k = bn_calls h @ cs
      \<and> (fst r = 1 \<and> cs \<in> {[], [Tag_connect False], [Tag_connect True, Tag_disconnect]}
         \<or> r = (0, level_of b) \<and> cs = [Tag_connect True, Tag_read True, Tag_disconnect]
         \<or> r = (1, - 1) \<and> cs = [Tag_connect True, Tag_read False, Tag_disconnect])"
    using battery_main_ends[OF assms, of b] unfolding end_defs battery_end_def by (auto split: if_splits)
  show "\<exists>r k cs. button_main b h = Inr (r, k) \<and> bn_calls k = bn_calls h @ cs
      \<and> (r = 1 \<and> cs \<in> {[], [Tag_connect False], [Tag_connect True, Tag_disconnect]}
         \<or> r = 0 \<and> cs \<in> {[Tag_connect True, Tag_disconnect],
               [Tag_connect True, Tag_start_notify, Tag_stop_notify, Tag_disconnect]})"
    using button_main_ends[OF assms, of b] unfolding end_defs button_end_def by blast
qed

theorem tag_left_quiet_witness:
  "\<exists>r k cs. bar_main \<lparr>tb_resolved = \<lambda>_. Some True,
         tb_objects = [(DEVICE_PATH @ ''/service003a/char003b'', [(CHAR_INTERFACE, Some (se_data_uuid bar_sensor))]),
                       (DEVICE_PATH @ ''/service003a/char003e'', [(CHAR_INTERFACE, Some (se_conf_uuid bar_sensor))])],
         tb_value = \<lambda>_. [0, 0, 0, 0x10, 0x8C, 0x01]\<rparr> 3
       \<lparr>hp_ok = \<lambda>_. True, hp_next = 0, hp_live = {}, bn_calls = []\<rparr> = Inr (r, k)
     \<and> bn_calls k = cs \<and> (Tag_write [1] \<in> set cs \<longrightarrow> last cs = Tag_disconnect \<and> Tag_write [0] \<in> set cs)"
  (is "\<exists>r k cs. bar_main ?b 3 ?h = _ \<and> _")
proof -
  have en: "se_enable bar_sensor = [1]" "se_disable bar_sensor = [0]" by (simp_all add: bar_sensor_def)
  have "heap_wf ?h" by (simp add: heap_wf_def)
  note all = tag_left_quiet[OF this, of bar_sensor ?b 3, THEN conjunct1]
  then obtain r k cs where run: "sensor_main bar_sensor ?b 3 ?h = Inr (r, k)" "bn_calls k = bn_calls ?h @ cs"
    and how: "cs \<in> {[], [Tag_connect False], [Tag_connect True, Tag_disconnect]}
     \<or> (\<exists>oks. cs = [Tag_connect True, Tag_write [1]] @ map Tag_read oks @ [Tag_write [0], Tag_disconnect])"
    unfolding en by blast
  have "Tag_write [1] \<in> set cs \<longrightarrow> last cs = Tag_disconnect \<and> Tag_write [0] \<in> set cs"
    using how
  proof (elim disjE exE)
    fix oks
    assume "cs = [Tag_connect True, Tag_write [1]] @ map Tag_read oks @ [Tag_write [0], Tag_disconnect]"
    then show ?thesis by (simp only: set_append last_append list.set) simp
  qed (simp only: insert_iff empty_iff, elim disjE, simp_all)
  then show ?thesis using run unfolding bar_main_def by simp
qed

end
