(* ===== verification/Spec2Isabelle.thy ===== *)
theory Spec2Isabelle
  imports Dispatch BmProps BmControl BmLoad AuthProps CryptoProps IdProps MregProps CoreProps
    CoreStart WifiProps BleProps GatewayOwn GatewayCopy CliProps QueryMem TagBench
begin

text \<open>
  A verification development for OpenHES, a home electronic system gateway after ISO/IEC 18012-3
  (the program's own C code under src/src/; the libraries under src/deps/ are not part of it).

  \<^bold>\<open>The program.\<close> The gateway is a few processes around an event bus (NNG publish/subscribe). The
  core service module owns the bus. It holds the binding map - a table of operations that turns
  reports of devices into commands - and the local service objects: authorization, cryptography,
  identification and time. Interface modules front the devices of one network each: the Wi-Fi module
  drives WiZ bulbs over UDP, the Bluetooth module reads SensorTags over BlueZ or a simulated radio.
  The device manifest service keeps the product profile, which device belongs to which module, over a
  request socket and a publish socket of its own. A message is an HES-CLME record: a PUT or a GET, a
  device index, a Lexicon path, a payload, and the credentials of its sender.

  A report a module publishes reaches the core, which asks the authorization service for its decision
  (and, where the policy demands it, the cryptographic service to check a proof of identity), updates
  the rows it is the source of, and evaluates the table; the outputs of the rows go back on the bus
  as PUTs, which the module in charge of the device executes. A message to an address of a local
  object is answered by that object instead.

  \<^bold>\<open>Theories and sources.\<close> Every path below is relative to src/src/. The definitions have the names of
  the C functions they translate; a struct is a record with a prefix on its fields, an array with a
  count is a list, a buffer is the string before its terminator.

  \<^item> \<open>Prelude\<close>, \<open>CLib\<close>, \<open>CDouble\<close>, \<open>Json\<close>, \<open>Shared\<close>, \<open>Records\<close>: what the code uses of C and its
    libraries - machine integers, bounded copies, \<open>strtol\<close>, \<open>strtok_r\<close>, \<open>snprintf\<close>; binary64
    arithmetic with its rounding and NaN; Jansson's values and getters; reference-counted state; the
    \<open>name=value\<close> tables of payloads.
  \<^item> \<open>HesCommon\<close>, \<open>Nng\<close>, \<open>Https\<close>: the message, the clock and the bus (common/hes_common.h,
    hes_clock.c, hes_bus.c), the sockets, and the HTTPS client (common/hes_https.c).
  \<^item> \<open>Dispatch\<close>: the Lexicon router (common/hes_dispatch.c, service_object.h).
  \<^item> \<open>Query\<close>, \<open>BmLoad\<close>: the path queries over the XML document (common/hes_query.c) and the loader of the
    binding map (bm/bm.c). \<open>Blocks\<close>, \<open>QueryStore\<close>, \<open>QueryMem\<close>: the query layer once more with the memory it
    asks for and gives back, over a heap of blocks in which every request can fail.
  \<^item> \<open>Bm\<close>, \<open>BmEngine\<close>, \<open>BmRows\<close>, \<open>BmSettle\<close>, \<open>BmCascade\<close>, \<open>BmProps\<close>, \<open>BmControl\<close>: the binding map's state,
    its evaluation and its two services (bm/bm.c, bm/bm.h).
  \<^item> \<open>Auth\<close>, \<open>AuthProps\<close>: services/auth/auth.c. \<open>Psa\<close>, \<open>Hex\<close>, \<open>Crypto\<close>, \<open>CryptoProps\<close>:
    services/crypto/crypto.c. \<open>Id\<close>, \<open>IdProps\<close>: services/id/id.c.
  \<^item> \<open>Sntp\<close>, \<open>GeoTz\<close>, \<open>TimeSync\<close>, \<open>TimeSvc\<close>, \<open>TimeSyncProps\<close>: services/time/.
  \<^item> \<open>Dm\<close>, \<open>DmProps\<close>: the device manifest service (dm/dm.c). \<open>DevReg\<close>, \<open>Mreg\<close>, \<open>MregProps\<close>: the modules'
    registry and their client of that service (common/hes_devreg.c, common/hes_mreg.c).
  \<^item> \<open>AppLua\<close>, \<open>Core\<close>, \<open>CoreProps\<close>, \<open>CoreStart\<close>: the app's bridge and the core service module
    (modules/core/app_lua.c, modules/core/core.c).
  \<^item> \<open>Han\<close>: the device resolution and the merging of updates that both interface modules contain.
    \<open>Wiz\<close>, \<open>Wifi\<close>, \<open>WifiProps\<close>: han/wifi/. \<open>SensorTag\<close>, \<open>BleLink\<close>, \<open>Ble\<close>, \<open>BleProps\<close>:
    devices/ti_cc2650/ and han/ble/. \<open>TagDecode\<close>, \<open>TagBench\<close>: the stand-alone readers of a real tag,
    devices/ti_cc2650/tests/, their decoders and their runs.
  \<^item> \<open>Gateway\<close>, \<open>GatewayOwn\<close>, \<open>GatewayCopy\<close>: the typed copy of the XML document (common/hes_gateway.c)
    and the command that shows it (cli/cmd_bm_show.c). \<open>Cli\<close>, \<open>CliProps\<close>: the command line (app.c, cli/)
    and utils.c, with the few lines of argtable's command table that they depend on.

  \<^bold>\<open>State and surroundings.\<close> A function that changes state takes it and returns it. What it reads from
  outside - a datagram, a clock, a result of NNG, of libcurl, of PSA Crypto, of D-Bus, of \<open>rand()\<close> - is
  an argument: a record per turn (\<open>core_env\<close>, \<open>wifi_env\<close>, \<open>ble_env\<close>, \<open>sync_env\<close>), or a record of
  functions for a library (\<open>psa\<close>, \<open>dbus\<close>). Parsing is an argument too: the JSON parser, the XML parser and
  XPath evaluation, the Lua interpreter. Theorems about them name the documented behaviour they need as
  a hypothesis, with a witness at a concrete instance. Threads are interleavings: \<open>sync_step\<close> is the
  step relation of the time service's worker and of the thread that stops it. A step of the worker is one
  section under its lock or one call outside of it, so that a reader may see the state between any two.

  \<^bold>\<open>What the lemmas show.\<close>

  \<^item> The binding map: \<open>row_engine\<close>, \<open>guarded\<close>, \<open>cascade\<close> and \<open>settling\<close> state its mutual recursion once,
    and are interpreted on the code's functions. An acyclic table without NaN is evaluated to the end,
    leaves every row quiet, and sends nothing its gates did not let through. \<open>nan_report_diverges\<close>
    and \<open>self_loop_diverges\<close> show where the code's own argument for termination fails.
  \<^item> Authorization, cryptography, identification: decisions are characterised exactly; the tables fit
    their buffers; the hexadecimal readers are shared through \<open>hex_codec\<close>; a proof the gateway makes is one
    it accepts, down from the identity document.
  \<^item> The core: each service object lives in a \<open>slot\<close> of the common store. A turn sends only reports of
    its own objects, relays to declared devices, gated outputs and the app's PUTs; over any run the
    policy and keys the gates decide by stay those of the configuration, and every way to end gives
    back the state of every service, the blocks of its objects, the app, the worker thread and the sockets.
  \<^item> Time: an accepted answer's offset is accurate to half the round trip; the worker refines a learner
    that never unlearns and asks the host for a zone only when no provider answers; between two rounds, and
    at every step but the one after the clock is set (\<open>clock_ahead\<close>), the snapshot describes the clock; no
    stop is lost; an answering server is heard.
  \<^item> The manifest: every request gets one reply, a report changes exactly what it names, a module is
    given its own devices and nothing of the service's state is lost over a run.
  \<^item> The interface modules: a row's output reaches the bulb as the request that switches it, and no bulb
    is commanded without such a PUT; presence follows the answers of the bulbs and, turn by turn, the
    links of the connection manager - unless an update of the manifest says otherwise - whose two backends are interpretations of \<open>link_backend\<close>.
  \<^item> The document and the command line: each loader of the typed copy is an interpretation of \<open>owned\<close> and
    of \<open>copying\<close> - it owns what it allocated, whichever allocations fail, and it says what its element
    says. The options of the operator decide the policy, the key and the switch that the running core
    is guarded by; dispatching ends; \<open>help_of_group_crashes\<close> and \<open>show_crashes_iff\<close> are where it crashes.
  \<^item> Memory: the weakest precondition \<open>gives\<close> has a rule per operation of the heap. Each call of the query
    layer is an interpretation of \<open>allocating\<close> or \<open>evaluating\<close>: whichever requests fail, it ends without a
    fault and keeps only what it returns. Over the same heap a bench program disconnects from the tag on every
    way out, switches the sensor off if it switched it on, and shows a value for every reading it is given.

  \<^bold>\<open>Bounds and fuel.\<close> The recursion of the binding map takes the call depth left as fuel and is \<open>None\<close>
  without any; \<open>table_fuel\<close> computes from the table how much is enough, and \<open>BmProps\<close> proves
  it. The other loops of the code are structural or over lists that shrink. Integers have the width of
  the C type where the code can wrap; where the model uses \<open>int\<close> instead, a lemma bounds the values
  or the header of the theory says so. The array bounds (32 rows, 64 addresses, 512 bytes of payload
  and so on) are abbreviations named as the macros, and invariants say that nothing exceeds them;
  where the code fails to check one (the payload the router copies), the overrun is a value of the model.

  \<^bold>\<open>Not modelled.\<close> Parsing option tables (argtable), XML, JSON and Lua, and the libraries under
  src/deps/ in general. Signals, log lines, the lines a command prints about its parameters, the text a
  bench program prints around its values, and diagnostics on standard error. Freeing of memory, except
  where ownership is shared, where a failure path frees twice, and where it is the point: what the core
  owns, the typed document, the query layer and the bench programs. Random bytes from libuv. In the BlueZ backend, the
  effects of scanning and of unsubscribing on the daemon itself. The unit tests under tests/, which check
  single cases of what is modelled here.
\<close>

end
